(* ===== verification/Ferro_Prelude.thy ===== *)
theory Ferro_Prelude
  imports Main "HOL-Library.Word"
begin

text \<open>
  What every component of the development shares: the names of the machine integers, the
  result type that carries Rust's \<^verbatim>\<open>Err\<close>, panics and exhausted fuel, the state-and-error
  combinators that stand for \<^verbatim>\<open>?\<close>, slices of byte buffers (\<^verbatim>\<open>&buf[a..a+n]\<close> and
  \<^verbatim>\<open>copy_from_slice\<close>), little-endian encodings (\<^verbatim>\<open>to_le_bytes\<close>, \<^verbatim>\<open>from_le_bytes\<close>) and
  \<^verbatim>\<open>Iterator::position\<close>. Arithmetic on words wraps, as the release profile of the firmware
  does (no overflow checks).
\<close>

unbundle bit_operations_syntax

section \<open>Machine integers\<close>

type_synonym u8 = "8 word"
type_synonym u16 = "16 word"
type_synonym u32 = "32 word"
type_synonym u64 = "64 word"

named_theorems seg_simps "reading and writing parts of a buffer"
named_theorems io_simps "evaluating the state-and-error combinators"
named_theorems le_simps "little-endian encodings"

lemma unat_bound: "unat (w :: 'a::len word) < 2 ^ LENGTH('a)"
  by (rule unsigned_less)

text \<open>A word that is the image of a natural number in range; sums and products in range do not wrap.\<close>

lemma unat_eq_of_nat: "w = of_nat n \<Longrightarrow> n < 2 ^ LENGTH('a) \<Longrightarrow> unat (w :: 'a::len word) = n"
  by (simp add: unat_of_nat)

lemma unat_add_in_range:
  "unat a + unat b < 2 ^ LENGTH('a) \<Longrightarrow> unat (a + b :: 'a::len word) = unat a + unat b"
  by (simp add: unat_word_ariths)

lemma unat_mult_in_range:
  "unat a * unat b < 2 ^ LENGTH('a) \<Longrightarrow> unat (a * b :: 'a::len word) = unat a * unat b"
  by (simp add: unat_word_ariths)

lemma unat_Suc_in_range:
  assumes "a < (b :: 'a::len word)"
  shows "unat (a + 1) = unat a + 1"
proof -
  have "unat a + 1 \<le> unat b" using assms by (simp add: word_less_nat_alt)
  also have "\<dots> < 2 ^ LENGTH('a)" by (rule unat_bound)
  finally show ?thesis by (subst unat_add_in_range) simp_all
qed

section \<open>Results: errors, panics, fuel\<close>

text \<open>
  \<open>Err e\<close> is a Rust \<^verbatim>\<open>Err(e)\<close>; \<open>Panic\<close> is an out-of-bounds index, a failed
  \<^verbatim>\<open>unwrap\<close> or a seg of the wrong length; \<open>OutOfFuel\<close> is a loop that was not given
  enough steps to end.
\<close>

datatype 'e fault = Err 'e | Panic | OutOfFuel

text \<open>A computation that cannot fail with an error of its own, only panic.\<close>

type_synonym 'a checked = "unit fault + 'a"

type_synonym ('s, 'e, 'a) io = "'s \<Rightarrow> ('e fault + 'a) \<times> 's"

definition io_return :: "'a \<Rightarrow> ('s, 'e, 'a) io" where
  "io_return x s = (Inr x, s)"

definition io_throw :: "'e fault \<Rightarrow> ('s, 'e, 'a) io" where
  "io_throw e s = (Inl e, s)"

definition io_bind :: "('s, 'e, 'a) io \<Rightarrow> ('a \<Rightarrow> ('s, 'e, 'b) io) \<Rightarrow> ('s, 'e, 'b) io" where
  "io_bind m f s = (case m s of (Inl e, s') \<Rightarrow> (Inl e, s') | (Inr x, s') \<Rightarrow> f x s')"

text \<open>\<^verbatim>\<open>?\<close> with a \<^verbatim>\<open>From\<close> conversion of the error.\<close>

definition io_map_err :: "('e \<Rightarrow> 'f) \<Rightarrow> ('s, 'e, 'a) io \<Rightarrow> ('s, 'f, 'a) io" where
  "io_map_err g m s =
     (case m s of
        (Inl (Err e), s') \<Rightarrow> (Inl (Err (g e)), s')
      | (Inl Panic, s') \<Rightarrow> (Inl Panic, s')
      | (Inl OutOfFuel, s') \<Rightarrow> (Inl OutOfFuel, s')
      | (Inr x, s') \<Rightarrow> (Inr x, s'))"

lemma io_return_apply [io_simps]: "io_return x s = (Inr x, s)"
  by (simp add: io_return_def)

lemma io_throw_apply [io_simps]: "io_throw e s = (Inl e, s)"
  by (simp add: io_throw_def)

lemma io_bind_Inr [io_simps]: "m s = (Inr x, s') \<Longrightarrow> io_bind m f s = f x s'"
  by (simp add: io_bind_def)

lemma io_bind_Inl [io_simps]: "m s = (Inl e, s') \<Longrightarrow> io_bind m f s = (Inl e, s')"
  by (simp add: io_bind_def)

lemma io_map_err_Inr [io_simps]: "m s = (Inr x, s') \<Longrightarrow> io_map_err g m s = (Inr x, s')"
  by (simp add: io_map_err_def)

lemma io_map_err_Err [io_simps]:
  "m s = (Inl (Err e), s') \<Longrightarrow> io_map_err g m s = (Inl (Err (g e)), s')"
  by (simp add: io_map_err_def)

lemma io_bind_assoc: "io_bind (io_bind m f) g = io_bind m (\<lambda>x. io_bind (f x) g)"
  by (rule ext) (simp add: io_bind_def split: prod.splits sum.splits)

lemma io_bind_bind_Inr: "io_bind m f s = (Inr x, s') \<Longrightarrow> io_bind m (\<lambda>y. io_bind (f y) g) s = g x s'"
  unfolding io_bind_assoc[symmetric] by (rule io_bind_Inr)

lemma io_bind_return_iff:
  "io_bind m f s = (Inr y, s'') \<longleftrightarrow> (\<exists>x s'. m s = (Inr x, s') \<and> f x s' = (Inr y, s''))"
  by (auto simp: io_bind_def split: prod.splits sum.splits)

text \<open>
  Simulation: from every state in \<open>ok\<close> the concrete program ends in a state in \<open>ok\<close>, with the result and
  the abstract state that the abstract program gives.
\<close>

definition simulates :: "('s \<Rightarrow> bool) \<Rightarrow> ('s \<Rightarrow> 'b) \<Rightarrow> ('s, 'e, 'a) io \<Rightarrow> ('b, 'e, 'a) io \<Rightarrow> bool" where
  "simulates ok absf m e \<longleftrightarrow> (\<forall>s. ok s \<longrightarrow> (\<exists>r s'. m s = (r, s') \<and> ok s' \<and> e (absf s) = (r, absf s')))"

lemma simulatesD: "simulates ok absf m e \<Longrightarrow> ok s \<Longrightarrow> \<exists>r s'. m s = (r, s') \<and> ok s' \<and> e (absf s) = (r, absf s')"
  by (simp add: simulates_def)

lemma simulates_return: "simulates ok absf (io_return x) (io_return x)"
  by (simp add: simulates_def io_return_def)

lemma simulates_bind:
  assumes "simulates ok absf m e" and "\<And>x. simulates ok absf (f x) (g x)"
  shows "simulates ok absf (io_bind m f) (io_bind e g)"
  unfolding simulates_def
proof (intro allI impI)
  fix s assume "ok s"
  from simulatesD[OF assms(1) this] obtain r s1 where m: "m s = (r, s1)" "ok s1" "e (absf s) = (r, absf s1)" by blast
  show "\<exists>r s'. io_bind m f s = (r, s') \<and> ok s' \<and> io_bind e g (absf s) = (r, absf s')"
  proof (cases r)
    case (Inl x)
    with m show ?thesis by (simp add: io_bind_def)
  next
    case (Inr x)
    from simulatesD[OF assms(2) m(2), of x] m Inr show ?thesis by (auto simp: io_bind_def)
  qed
qed

section \<open>Slices of buffers\<close>

definition seg :: "'a list \<Rightarrow> nat \<Rightarrow> nat \<Rightarrow> 'a list" where
  "seg xs off n = take n (drop off xs)"

definition put_seg :: "'a list \<Rightarrow> nat \<Rightarrow> 'a list \<Rightarrow> 'a list" where
  "put_seg xs off ys = take off xs @ ys @ drop (off + length ys) xs"

lemma length_seg [simp]: "off + n \<le> length xs \<Longrightarrow> length (seg xs off n) = n"
  by (simp add: seg_def)

lemma length_put_seg [simp]:
  "off + length ys \<le> length xs \<Longrightarrow> length (put_seg xs off ys) = length xs"
  by (simp add: put_seg_def)

lemma seg_0_all [simp]: "seg xs 0 (length xs) = xs"
  by (simp add: seg_def)

lemma nth_seg [seg_simps]: "off + n \<le> length xs \<Longrightarrow> i < n \<Longrightarrow> seg xs off n ! i = xs ! (off + i)"
  by (simp add: seg_def)

lemma nth_put_seg [seg_simps]:
  assumes "off + length ys \<le> length xs" "i < length xs"
  shows "put_seg xs off ys ! i =
    (if off \<le> i \<and> i < off + length ys then ys ! (i - off) else xs ! i)"
  using assms by (auto simp: put_seg_def nth_append min_def)

lemma seg_put_seg_same [seg_simps]:
  assumes "off + length ys \<le> length xs" and "n = length ys"
  shows "seg (put_seg xs off ys) off n = ys"
  using assms by (simp add: put_seg_def seg_def)

lemma seg_put_seg_before [seg_simps]:
  assumes "off + length ys \<le> length xs" and "a + n \<le> off"
  shows "seg (put_seg xs off ys) a n = seg xs a n"
  using assms by (intro nth_equalityI) (auto simp: nth_seg nth_put_seg)

lemma seg_put_seg_after [seg_simps]:
  assumes "off + length ys \<le> length xs" and "off + length ys \<le> a" and "a + n \<le> length xs"
  shows "seg (put_seg xs off ys) a n = seg xs a n"
  using assms by (intro nth_equalityI) (auto simp: nth_seg nth_put_seg)

lemma take_put_seg_end:
  assumes "off + length ys \<le> length xs"
  shows "take (off + length ys) (put_seg xs off ys) = take off xs @ ys"
  using assms by (simp add: put_seg_def)

lemma put_seg_append:
  assumes "off + length xs + length ys \<le> length buf"
  shows "put_seg (put_seg buf off xs) (off + length xs) ys = put_seg buf off (xs @ ys)"
  using assms by (simp add: put_seg_def ac_simps)

lemma put_seg_Nil [simp]: "put_seg xs off [] = xs"
  by (simp add: put_seg_def)

lemma seg_append_left [seg_simps]: "off + n \<le> length xs \<Longrightarrow> seg (xs @ ys) off n = seg xs off n"
  by (simp add: seg_def)

lemma seg_append_right [seg_simps]:
  "length xs \<le> off \<Longrightarrow> seg (xs @ ys) off n = seg ys (off - length xs) n"
  by (simp add: seg_def)

lemma seg_0_append [seg_simps]: "n = length xs \<Longrightarrow> seg (xs @ ys) 0 n = xs"
  by (simp add: seg_def)

lemma seg_length_append:
  "off = length xs \<Longrightarrow> n = length ys \<Longrightarrow> seg (xs @ ys @ zs) off n = ys"
  by (simp add: seg_def)

section \<open>Little-endian encodings\<close>

primrec to_le :: "nat \<Rightarrow> 'a::len word \<Rightarrow> u8 list" where
  "to_le 0 w = []"
| "to_le (Suc n) w = ucast w # to_le n (drop_bit 8 w)"

primrec of_le :: "u8 list \<Rightarrow> 'a::len word" where
  "of_le [] = 0"
| "of_le (b # bs) = ucast b OR push_bit 8 (of_le bs)"

lemma length_to_le [simp]: "length (to_le n w) = n"
  by (induction n arbitrary: w) auto

lemma of_le_to_le_take_bit: "of_le (to_le n w) = take_bit (8 * n) w"
proof (induction n arbitrary: w)
  case 0
  then show ?case by simp
next
  case (Suc n)
  show ?case
    by (rule bit_word_eqI)
      (auto simp: Suc bit_or_iff bit_ucast_iff bit_push_bit_iff bit_take_bit_iff bit_drop_bit_eq
        not_less ac_simps intro: bit_imp_possible_bit dest: bit_imp_possible_bit)
qed

lemma of_le_to_le [le_simps]: "LENGTH('a::len) = 8 * n \<Longrightarrow> of_le (to_le n (w :: 'a word)) = w"
  by (simp add: of_le_to_le_take_bit take_bit_word_eq_self)

lemma bit_of_le_bound: "bit (of_le bs :: 'a::len word) i \<Longrightarrow> i < 8 * length bs"
proof (induction bs arbitrary: i)
  case Nil
  then show ?case by simp
next
  case (Cons b bs)
  then show ?case
    by (cases "i < 8") (auto simp: bit_simps not_less dest!: Cons.IH dest: bit_imp_le_length)
qed

lemma to_le_of_le [le_simps]:
  "n = length bs \<Longrightarrow> 8 * n \<le> LENGTH('a::len) \<Longrightarrow> to_le n (of_le bs :: 'a word) = bs"
proof (induction bs arbitrary: n)
  case Nil
  then show ?case by simp
next
  case (Cons b bs)
  have lo: "ucast (ucast b OR push_bit 8 (of_le bs) :: 'a word) = b"
    by (rule bit_word_eqI) (use Cons.prems in \<open>auto simp: bit_simps\<close>)
  have hi: "drop_bit 8 (ucast b OR push_bit 8 (of_le bs) :: 'a word) = of_le bs"
  proof (rule bit_word_eqI)
    fix i assume "i < LENGTH('a)"
    have "8 + i < LENGTH('a)" if "bit (of_le bs :: 'a word) i"
      using bit_of_le_bound[OF that] Cons.prems by simp
    then show "bit (drop_bit 8 (ucast b OR push_bit 8 (of_le bs) :: 'a word)) i
        = bit (of_le bs :: 'a word) i"
      by (auto simp: bit_simps dest: bit_imp_le_length)
  qed
  have "to_le (length bs) (of_le bs :: 'a word) = bs"
    using Cons.prems by (intro Cons.IH) simp_all
  then show ?case
    unfolding Cons.prems(1) length_Cons to_le.simps of_le.simps lo hi by simp
qed

text \<open>An array of encoded values, read back one at a time.\<close>

lemma seg_concat_to_le:
  "i < length ws \<Longrightarrow> seg (concat (map (to_le n) ws) @ zs) (n * i) n = to_le n (ws ! i)"
proof (induction ws arbitrary: i)
  case Nil
  then show ?case by simp
next
  case (Cons w ws)
  then show ?case by (cases i) (simp_all add: seg_append_right seg_0_append)
qed

lemma length_concat_to_le [simp]: "length (concat (map (to_le n) ws)) = n * length ws"
  by (induction ws) simp_all

abbreviation le16 :: "u16 \<Rightarrow> u8 list" where "le16 \<equiv> to_le 2"
abbreviation le32 :: "u32 \<Rightarrow> u8 list" where "le32 \<equiv> to_le 4"
abbreviation le64 :: "u64 \<Rightarrow> u8 list" where "le64 \<equiv> to_le 8"
abbreviation rd16 :: "u8 list \<Rightarrow> u16" where "rd16 \<equiv> of_le"
abbreviation rd32 :: "u8 list \<Rightarrow> u32" where "rd32 \<equiv> of_le"
abbreviation rd64 :: "u8 list \<Rightarrow> u64" where "rd64 \<equiv> of_le"

lemma rd16_le16 [simp]: "rd16 (le16 w) = w" by (rule of_le_to_le) simp
lemma rd32_le32 [simp]: "rd32 (le32 w) = w" by (rule of_le_to_le) simp
lemma rd64_le64 [simp]: "rd64 (le64 w) = w" by (rule of_le_to_le) simp

section \<open>Searching a table\<close>

text \<open>\<^verbatim>\<open>Iterator::position\<close>: the index of the first element that satisfies the test.\<close>

primrec position :: "('a \<Rightarrow> bool) \<Rightarrow> 'a list \<Rightarrow> nat option" where
  "position P [] = None"
| "position P (x # xs) = (if P x then Some 0 else map_option Suc (position P xs))"

lemma position_None_iff: "position P xs = None \<longleftrightarrow> (\<forall>x \<in> set xs. \<not> P x)"
  by (induction xs) auto

lemma position_SomeD:
  "position P xs = Some i \<Longrightarrow> i < length xs \<and> P (xs ! i) \<and> (\<forall>j < i. \<not> P (xs ! j))"
proof (induction xs arbitrary: i)
  case Nil
  then show ?case by simp
next
  case (Cons x xs)
  show ?case
  proof (cases i)
    case 0
    with Cons.prems show ?thesis by (auto split: if_splits)
  next
    case (Suc k)
    with Cons.prems have "\<not> P x" "position P xs = Some k" by (auto split: if_splits)
    with Cons.IH[of k] Suc show ?thesis
      by (auto simp: less_Suc_eq_0_disj)
  qed
qed

lemma position_SomeI:
  "i < length xs \<Longrightarrow> P (xs ! i) \<Longrightarrow> (\<And>j. j < i \<Longrightarrow> \<not> P (xs ! j)) \<Longrightarrow> position P xs = Some i"
proof (induction xs arbitrary: i)
  case Nil
  then show ?case by simp
next
  case (Cons x xs)
  show ?case
  proof (cases i)
    case 0
    with Cons.prems show ?thesis by simp
  next
    case (Suc k)
    have "position P xs = Some k"
      by (rule Cons.IH) (use Cons.prems(1,2) Cons.prems(3)[of "Suc _"] Suc in auto)
    moreover have "\<not> P x" using Cons.prems(3)[of 0] Suc by simp
    ultimately show ?thesis using Suc by simp
  qed
qed

lemma position_Some_iff:
  "position P xs = Some i \<longleftrightarrow> i < length xs \<and> P (xs ! i) \<and> (\<forall>j < i. \<not> P (xs ! j))"
  using position_SomeD position_SomeI by metis

lemma find_eq_position: "find P xs = map_option ((!) xs) (position P xs)"
  by (induction xs) (auto simp: option.map_comp comp_def)

lemma position_update_irrelevant:
  "\<not> P (xs ! j) \<Longrightarrow> \<not> P x \<Longrightarrow> position P (xs[j := x]) = position P xs"
  by (induction xs arbitrary: j) (auto split: nat.splits)

lemma position_update_hit:
  "position P xs = None \<Longrightarrow> j < length xs \<Longrightarrow> P x \<Longrightarrow> position P (xs[j := x]) = Some j"
  by (induction xs arbitrary: j) (auto split: nat.splits)

lemma position_update_remove:
  assumes "position P xs = Some j" "\<not> P x" "\<forall>i < length xs. P (xs ! i) \<longrightarrow> i = j"
  shows "position P (xs[j := x]) = None"
proof -
  have "\<not> P (xs[j := x] ! i)" if "i < length xs" for i
    using that assms by (cases "i = j") auto
  then show ?thesis by (auto simp: position_None_iff in_set_conv_nth)
qed

text \<open>Filling a caller's buffer from the front: what fits is written, the rest is left alone.\<close>

definition fill_prefix :: "'a list \<Rightarrow> 'a list \<Rightarrow> 'a list" where
  "fill_prefix ms out = take (length out) ms @ drop (length ms) out"

lemma length_fill_prefix [simp]: "length (fill_prefix ms out) = length out"
  by (simp add: fill_prefix_def)

lemma fill_prefix_Nil [simp]: "fill_prefix [] out = out"
  by (simp add: fill_prefix_def)

lemma fill_prefix_snoc:
  "(if length ms < length out then (fill_prefix ms out)[length ms := x] else fill_prefix ms out)
   = fill_prefix (ms @ [x]) out"
  by (auto simp: fill_prefix_def list_update_append not_less upd_conv_take_nth_drop drop_Suc)

lemma position_cong: "(\<And>x. x \<in> set xs \<Longrightarrow> P x = Q x) \<Longrightarrow> position P xs = position Q xs"
  by (induction xs) auto

lemma map_eqI: "(\<And>k x. f k = Some x \<longleftrightarrow> g k = Some x) \<Longrightarrow> f = g"
  by (metis ext not_None_eq)

lemma distinct_map_filterI:
  "(\<And>i j. i < length xs \<Longrightarrow> j < length xs \<Longrightarrow> P (xs ! i) \<Longrightarrow> P (xs ! j) \<Longrightarrow> f (xs ! i) = f (xs ! j) \<Longrightarrow> i = j)
   \<Longrightarrow> distinct (map f (filter P xs))"
proof (induction xs)
  case Nil
  then show ?case by simp
next
  case (Cons x xs)
  have "distinct (map f (filter P xs))"
    using Cons.prems[of "Suc _" "Suc _"] by (intro Cons.IH) auto
  moreover have "f x \<noteq> f y" if "P x" "P y" "y \<in> set xs" for y
    using that Cons.prems[of 0 "Suc _"] by (auto simp: in_set_conv_nth)
  ultimately show ?case by auto
qed

lemma find_drop_filter:
  "find P (drop s xs) = None \<Longrightarrow> filter P (drop s xs) = []"
  "find P (drop s xs) = Some v \<Longrightarrow>
     \<exists>i. s \<le> i \<and> i < length xs \<and> v = xs ! i \<and> P v \<and> filter P (drop s xs) = v # filter P (drop (Suc i) xs)"
proof -
  show "find P (drop s xs) = None \<Longrightarrow> filter P (drop s xs) = []"
    by (simp add: find_None_iff filter_empty_conv)
  have "find P xs = Some v \<Longrightarrow> \<exists>i < length xs. v = xs ! i \<and> P v \<and> filter P xs = v # filter P (drop (Suc i) xs)"
    for xs
  proof (induction xs)
    case (Cons x xs)
    then show ?case by (cases "P x") auto
  qed simp
  from this[of "drop s xs"] show "find P (drop s xs) = Some v \<Longrightarrow>
     \<exists>i. s \<le> i \<and> i < length xs \<and> v = xs ! i \<and> P v \<and> filter P (drop s xs) = v # filter P (drop (Suc i) xs)"
    by (auto simp: less_diff_conv ac_simps) (use le_add2 in blast)
qed

lemma map_of_rev: "distinct (map fst xs) \<Longrightarrow> map_of (rev xs) = map_of xs"
  using map_of_eq_Some_iff[of "rev xs"] by (intro map_eqI) (simp add: rev_map[symmetric])

lemma sum_list_map_le: "(\<And>x. x \<in> set xs \<Longrightarrow> f x \<le> (b::nat)) \<Longrightarrow> sum_list (map f xs) \<le> length xs * b"
  by (induction xs) (fastforce intro: add_mono)+

lemma ceiling_div:
  assumes "0 < (d::nat)"
  shows "n \<le> (n + d - 1) div d * d" "n \<le> t * d \<Longrightarrow> (n + d - 1) div d \<le> t"
proof -
  have "n + d - 1 < (n + d - 1) div d * d + d"
    using assms by (metis div_mult_mod_eq mod_less_divisor nat_add_left_cancel_less)
  then show "n \<le> (n + d - 1) div d * d" by linarith
  assume "n \<le> t * d"
  then have "n + d - 1 < Suc t * d" using assms by simp
  then show "(n + d - 1) div d \<le> t" using less_mult_imp_div_less by (metis less_Suc_eq_le)
qed

end
