(* ===== verification/Crc32.thy ===== *)
theory Crc32
  imports Ferro_Prelude
begin

text \<open>
  \<^verbatim>\<open>src/src/efi/crc32.rs\<close>: the bitwise CRC-32 used for \<^verbatim>\<open>CalculateCrc32\<close> and for the headers of
  the system tables. The inner loop is the branch-free form of the source (a mask that is all
  ones when the low bit is set); \<open>crc_shift\<close> is the textbook form with a branch, and \<open>crc_table_step\<close> is the
  table-driven algorithm that most implementations use, one table lookup per byte.
\<close>

definition crc_bit :: "u32 \<Rightarrow> u32" where
  "crc_bit crc = (let mask = - (crc AND 1) in drop_bit 1 crc XOR (0xEDB88320 AND mask))"

definition crc_byte :: "u32 \<Rightarrow> u8 \<Rightarrow> u32" where
  "crc_byte crc byte = (crc_bit ^^ 8) (crc XOR ucast byte)"

definition crc32_ieee :: "u8 list \<Rightarrow> u32" where
  "crc32_ieee data = NOT (foldl crc_byte 0xFFFFFFFF data)"

section \<open>The reference definition\<close>

definition crc_shift :: "u32 \<Rightarrow> u32" where
  "crc_shift crc = (if bit crc 0 then drop_bit 1 crc XOR 0xEDB88320 else drop_bit 1 crc)"

text \<open>One table entry of the table-driven algorithm, and that algorithm's step.\<close>

definition crc_table :: "u8 \<Rightarrow> u32" where
  "crc_table b = (crc_shift ^^ 8) (ucast b)"

definition crc_table_step :: "u32 \<Rightarrow> u8 \<Rightarrow> u32" where
  "crc_table_step crc byte = crc_table (ucast (crc XOR ucast byte)) XOR drop_bit 8 crc"

lemma crc_bit_eq_shift: "crc_bit crc = crc_shift crc"
proof -
  have "crc AND 1 = (if bit crc 0 then 1 else 0)"
    by (simp add: and_one_eq mod2_eq_if bit_0)
  then show ?thesis by (simp add: crc_bit_def crc_shift_def)
qed

lemma crc_shift_xor: "crc_shift (a XOR b) = crc_shift a XOR crc_shift b"
  by (rule bit_word_eqI) (auto simp: crc_shift_def bit_simps)

lemma crc_shift_iter_xor: "(crc_shift ^^ n) (a XOR b) = (crc_shift ^^ n) a XOR (crc_shift ^^ n) b"
  by (induction n) (simp_all add: crc_shift_xor)

text \<open>Bits above the low \<open>n\<close> only travel down in \<open>n\<close> shifts.\<close>

lemma crc_shift_iter_high:
  assumes "take_bit n a = 0"
  shows "(crc_shift ^^ n) a = drop_bit n a"
  using assms
proof (induction n)
  case 0
  then show ?case by simp
next
  case (Suc n)
  have "take_bit n a = 0"
    using Suc.prems take_bit_take_bit[of n "Suc n" a] by simp
  then have "(crc_shift ^^ n) a = drop_bit n a" by (rule Suc.IH)
  moreover have "\<not> bit (drop_bit n a) 0"
  proof -
    have "\<not> bit (take_bit (Suc n) a) n" using Suc.prems by simp
    then show ?thesis by (simp add: bit_take_bit_iff bit_drop_bit_eq)
  qed
  ultimately have "(crc_shift ^^ Suc n) a = crc_shift (drop_bit n a)"
    and "crc_shift (drop_bit n a) = drop_bit 1 (drop_bit n a)"
    by (simp, simp add: crc_shift_def)
  then show ?case by simp
qed

lemma crc_byte_eq_table: "crc_byte crc b = crc_table_step crc b"
proof -
  define x where "x = crc XOR ucast b"
  define lo hi where "lo = (ucast (ucast x :: u8) :: u32)" and "hi = x XOR lo"
  have "x = lo XOR hi" by (rule bit_word_eqI) (auto simp: hi_def bit_simps)
  have hi0: "take_bit 8 hi = 0"
    by (rule bit_word_eqI) (auto simp: hi_def lo_def bit_simps)
  have drop: "drop_bit 8 hi = drop_bit 8 crc"
    by (rule bit_word_eqI) (auto simp: hi_def lo_def x_def bit_simps dest: bit_imp_le_length)
  have "crc_byte crc b = (crc_shift ^^ 8) (lo XOR hi)"
    using \<open>x = lo XOR hi\<close> ext[of crc_bit crc_shift, OF crc_bit_eq_shift]
    by (simp add: crc_byte_def x_def)
  also have "\<dots> = (crc_shift ^^ 8) lo XOR drop_bit 8 hi"
    by (simp only: crc_shift_iter_xor crc_shift_iter_high[OF hi0])
  finally show ?thesis by (simp only: crc_table_step_def crc_table_def drop lo_def x_def)
qed

text \<open>
  C37: the bit-serial loop of the firmware computes the same checksum as the table-driven CRC-32:
  for every buffer, eight masked shifts per byte equal one table lookup per byte.
\<close>

theorem crc32_ieee_table_driven:
  "crc32_ieee data = NOT (foldl crc_table_step 0xFFFFFFFF data)"
proof -
  have "crc_byte = crc_table_step" by (intro ext) (rule crc_byte_eq_table)
  then show ?thesis by (simp only: crc32_ieee_def)
qed

text \<open>The standard check value: the digits 1 to 9 in ASCII.\<close>

lemma crc_byte_unfold:
  "crc_byte crc b =
     crc_bit (crc_bit (crc_bit (crc_bit (crc_bit (crc_bit (crc_bit (crc_bit (crc XOR ucast b))))))))"
  by (simp add: crc_byte_def numeral_eq_Suc)

lemma crc32_check_value: "crc32_ieee [0x31, 0x32, 0x33, 0x34, 0x35, 0x36, 0x37, 0x38, 0x39] = 0xCBF43926"
  by (simp add: crc32_ieee_def crc_byte_unfold crc_bit_def)

text \<open>Checksumming a concatenation resumes where the first part stopped.\<close>

lemma crc32_ieee_append:
  "crc32_ieee (xs @ ys) = NOT (foldl crc_byte (NOT (crc32_ieee xs)) ys)"
  by (simp add: crc32_ieee_def)

end
