(* ===== verification/Timer.thy ===== *)
theory Timer
  imports Ferro_Prelude
begin

text \<open>
  \<^verbatim>\<open>src/src/timer.rs\<close>: the tick counter, tick-based sleeping and the conversion of microseconds
  to ticks. The counter frequency register \<^verbatim>\<open>cntfrq_el0\<close> is an argument; an interrupt is a call of
  \<open>on_tick\<close>. All arithmetic is on 64-bit words.
\<close>

record timer_state =
  tm_ticks :: u64
  tick_interval :: u64

definition timer_init :: "u64 \<Rightarrow> u64 \<Rightarrow> timer_state \<Rightarrow> timer_state checked" where
  "timer_init freq hz s = (if hz = 0 then Inl Panic else Inr (s\<lparr>tick_interval := freq div hz\<rparr>))"

definition on_tick :: "timer_state \<Rightarrow> timer_state" where
  "on_tick s = s\<lparr>tm_ticks := tm_ticks s + 1\<rparr>"

text \<open>
  \<^verbatim>\<open>while ticks() < target { wfe }\<close>: the list says, for each time the core wakes up, whether a timer
  interrupt was the reason. \<open>None\<close> is a wait that has not ended when the list does.
\<close>

fun sleep_loop :: "bool list \<Rightarrow> u64 \<Rightarrow> timer_state \<Rightarrow> timer_state option" where
  "sleep_loop wakeups target s =
     (if \<not> tm_ticks s < target then Some s
      else (case wakeups of
              [] \<Rightarrow> None
            | w # ws \<Rightarrow> sleep_loop ws target (if w then on_tick s else s)))"

declare sleep_loop.simps [simp del]

definition sleep_ticks :: "bool list \<Rightarrow> u64 \<Rightarrow> timer_state \<Rightarrow> timer_state option" where
  "sleep_ticks wakeups n s = sleep_loop wakeups (tm_ticks s + n) s"

definition saturating_mul :: "u64 \<Rightarrow> u64 \<Rightarrow> u64" where
  "saturating_mul a b = (if unat a * unat b < 2 ^ 64 then a * b else - 1)"

definition micros_to_ticks :: "u64 \<Rightarrow> timer_state \<Rightarrow> u64 \<Rightarrow> u64 checked" where
  "micros_to_ticks freq s us =
     (let interval = max (tick_interval s) 1;
          numerator = saturating_mul us freq;
          denominator = 1000000 * interval
      in if denominator = 0 then Inl Panic else Inr ((numerator + denominator - 1) div denominator))"

section \<open>Sleeping\<close>

lemma sleep_loop_ticks:
  "unat target - unat (tm_ticks s) \<le> length (filter (\<lambda>w. w) ws) \<Longrightarrow>
   \<exists>s'. sleep_loop ws target s = Some s' \<and> tick_interval s' = tick_interval s \<and>
     tm_ticks s' = (if tm_ticks s < target then target else tm_ticks s)"
proof (induction ws arbitrary: s)
  case Nil
  then have "\<not> tm_ticks s < target" by (simp add: word_less_nat_alt)
  then show ?case by (simp add: sleep_loop.simps)
next
  case (Cons w ws)
  show ?case
  proof (cases "tm_ticks s < target")
    case False
    then show ?thesis by (simp add: sleep_loop.simps)
  next
    case True
    have nxt: "unat (tm_ticks s + 1) = unat (tm_ticks s) + 1"
      using True unat_bound[of target] by (simp add: word_less_nat_alt unat_word_ariths)
    show ?thesis
    proof (cases w)
      case False
      with Cons.IH[of s] Cons.prems True show ?thesis by (subst sleep_loop.simps) simp
    next
      case w: True
      have "unat target - unat (tm_ticks (on_tick s)) \<le> length (filter (\<lambda>w. w) ws)"
        using Cons.prems w nxt by (simp add: on_tick_def)
      moreover have "\<not> tm_ticks s + 1 < target \<Longrightarrow> tm_ticks s + 1 = target"
        using True nxt by (simp add: word_less_nat_alt word_unat_eq_iff)
      ultimately show ?thesis
        using Cons.IH[of "on_tick s"] True w by (subst sleep_loop.simps) (auto simp: on_tick_def)
    qed
  qed
qed

text \<open>
  Sleeping for n ticks returns as soon as n timer interrupts have arrived among the wake-ups,
  with the tick counter advanced by exactly n, as long as the 64-bit counter does not wrap.
\<close>

theorem sleep_ticks_returns:
  assumes "unat (tm_ticks s) + unat n < 2 ^ 64" and "unat n \<le> length (filter (\<lambda>w. w) ws)"
  shows "\<exists>s'. sleep_ticks ws n s = Some s' \<and> unat (tm_ticks s') = unat (tm_ticks s) + unat n"
proof -
  have u: "unat (tm_ticks s + n) = unat (tm_ticks s) + unat n"
    using assms(1) by (simp add: unat_word_ariths)
  have "unat (if tm_ticks s < tm_ticks s + n then tm_ticks s + n else tm_ticks s) = unat (tm_ticks s) + unat n"
    using u by (simp add: word_less_nat_alt)
  moreover obtain s' where "sleep_loop ws (tm_ticks s + n) s = Some s'"
    "tm_ticks s' = (if tm_ticks s < tm_ticks s + n then tm_ticks s + n else tm_ticks s)"
    using sleep_loop_ticks[of "tm_ticks s + n" s ws] assms(2) u by auto
  ultimately show ?thesis unfolding sleep_ticks_def by (intro exI[of _ s']) simp
qed

theorem sleep_ticks_returns_witness:
  "\<exists>s'. sleep_ticks [True, False, True] 2 \<lparr>tm_ticks = 5, tick_interval = 1\<rparr> = Some s' \<and> unat (tm_ticks s') = 7"
  using sleep_ticks_returns[of "\<lparr>tm_ticks = 5, tick_interval = 1\<rparr>" 2 "[True, False, True]"] by simp

section \<open>Converting durations\<close>

lemma interval_max: "0 < unat i \<Longrightarrow> max (i :: u64) 1 = i"
  by (cases "i = 1") (auto simp: max_def word_le_nat_alt word_unat_eq_iff)

text \<open>
  Where neither the product of duration and frequency nor the rounding overflows,
  micros_to_ticks is the exact ceiling of the duration in ticks: the least number of ticks that
  lasts at least as long.
\<close>

theorem micros_to_ticks_ceiling:
  assumes i: "0 < unat (tick_interval s)"
    and fits: "unat us * unat freq + 1000000 * unat (tick_interval s) < 2 ^ 64"
  shows "\<exists>t. micros_to_ticks freq s us = Inr t \<and>
    unat us * unat freq \<le> unat t * (1000000 * unat (tick_interval s)) \<and>
    (\<forall>t'. unat us * unat freq \<le> t' * (1000000 * unat (tick_interval s)) \<longrightarrow> unat t \<le> t')"
proof -
  let ?i = "tick_interval s" and ?d = "1000000 * unat (tick_interval s)" and ?n = "unat us * unat freq"
  have d: "unat (1000000 * ?i) = ?d" using fits by (simp add: unat_word_ariths)
  then have ne: "1000000 * ?i \<noteq> 0" using i by (metis mult_eq_0_iff not_gr_zero unat_0 zero_neq_numeral)
  have n: "saturating_mul us freq = us * freq" "unat (us * freq) = ?n"
    using fits by (auto simp: saturating_mul_def unat_word_ariths)
  have "unat (us * freq + 1000000 * ?i) = ?n + ?d"
    using fits d n(2) by (simp add: unat_word_ariths)
  moreover have "us * freq + 1000000 * ?i \<noteq> 0" using calculation i by (metis add_is_0 mult_is_0 not_gr_zero unat_0 zero_neq_numeral)
  ultimately have s1: "unat (us * freq + 1000000 * ?i - 1) = ?n + ?d - 1"
    by (simp add: unat_minus_one)
  let ?t = "(us * freq + 1000000 * ?i - 1) div (1000000 * ?i)"
  have "micros_to_ticks freq s us = Inr ?t"
    using ne by (simp add: micros_to_ticks_def interval_max[OF i] n(1) Let_def)
  moreover have "unat ?t = (?n + ?d - 1) div ?d" by (simp add: unat_div s1 d)
  ultimately show ?thesis using ceiling_div[of ?d ?n] i by auto
qed

theorem micros_to_ticks_ceiling_witness:
  "\<exists>t. micros_to_ticks 62500000 \<lparr>tm_ticks = 0, tick_interval = 625000\<rparr> 25000 = Inr t \<and>
     1562500000000 \<le> unat t * 625000000000"
  using micros_to_ticks_ceiling[of "\<lparr>tm_ticks = 0, tick_interval = 625000\<rparr>" 25000 62500000] by auto

text \<open>
  Where the product does overflow it saturates at the largest 64-bit value, but adding the
  rounding term then wraps, so the longest requests become zero ticks: a stall or a timer of that
  length ends at once.
\<close>

theorem micros_to_ticks_saturation_lost:
  assumes i: "0 < unat (tick_interval s)" "1000000 * unat (tick_interval s) < 2 ^ 64"
    and big: "2 ^ 64 \<le> unat us * unat freq"
  shows "micros_to_ticks freq s us = Inr 0"
proof -
  let ?d = "1000000 * tick_interval s"
  have d: "unat ?d = 1000000 * unat (tick_interval s)" using i by (simp add: unat_word_ariths)
  then have ne: "?d \<noteq> 0" using i by (metis mult_eq_0_iff not_gr_zero unat_0 zero_neq_numeral)
  have two: "2 \<le> ?d" using d i by (simp add: word_le_nat_alt)
  have sum: "- 1 + ?d - 1 = ?d - 2" by simp
  have "unat (?d - 2) < unat ?d" using two d i by (simp add: unat_sub)
  then have "(?d - 2) div ?d = 0" by (simp add: word_unat_eq_iff unat_div)
  then have "(- 1 + ?d - 1) div ?d = 0" unfolding sum .
  then show ?thesis
    using ne big by (simp add: micros_to_ticks_def interval_max[OF i(1)] saturating_mul_def Let_def)
qed

theorem micros_to_ticks_saturation_lost_witness:
  "micros_to_ticks 62500000 \<lparr>tm_ticks = 0, tick_interval = 625000\<rparr> 0xFFFFFFFFFFFFFFFF = Inr 0"
  by (rule micros_to_ticks_saturation_lost) simp_all

end
