(* ===== verification/Block_Device.thy ===== *)
theory Block_Device
  imports Ferro_Prelude
begin

text \<open>
  The interface between the FAT32 code and the SD card driver: reading and writing one 512-byte
  block. The FAT32 functions take the two operations as a record, the way they take a
  \<^verbatim>\<open>&Card\<close>; the locale states the contract they rely on, \<open>runs\<close> is the total-correctness
  judgement their proofs use, and \<open>Sd\<close> shows that the driver of \<^verbatim>\<open>src/src/sd.rs\<close> provides it.
\<close>

datatype sd_error = SdTimeout | SdError u32 | SdNoCard

abbreviation SECTOR_SIZE :: nat where "SECTOR_SIZE \<equiv> 512"

record 'd block_ops =
  op_read :: "u32 \<Rightarrow> ('d, sd_error, u8 list) io"
  op_write :: "u32 \<Rightarrow> u8 list \<Rightarrow> ('d, sd_error, unit) io"

type_synonym disk = "u32 \<Rightarrow> u8 list"

text \<open>
  \<open>ready\<close> is the device's own invariant, \<open>contents\<close> what is on the medium, \<open>cap\<close> the number of
  blocks. Nothing is promised about blocks beyond the capacity.
\<close>

locale block_device =
  fixes ops :: "'d block_ops"
    and ready :: "'d \<Rightarrow> bool"
    and contents :: "'d \<Rightarrow> disk"
    and cap :: nat
  assumes read_block: "ready d \<Longrightarrow> unat lba < cap \<Longrightarrow>
      \<exists>d'. op_read ops lba d = (Inr (contents d lba), d') \<and> ready d' \<and> contents d' = contents d"
    and write_block: "ready d \<Longrightarrow> unat lba < cap \<Longrightarrow> length data = SECTOR_SIZE \<Longrightarrow>
      \<exists>d'. op_write ops lba data d = (Inr (), d') \<and> ready d' \<and> contents d' = (contents d)(lba := data)"
    and block_length: "ready d \<Longrightarrow> unat lba < cap \<Longrightarrow> length (contents d lba) = SECTOR_SIZE"

text \<open>
  \<open>runs ready contents m D r D'\<close>: from every ready device that holds \<open>D\<close>, the program \<open>m\<close> ends with
  result \<open>r\<close> and leaves a ready device that holds \<open>D'\<close>.
\<close>

definition runs ::
  "('d \<Rightarrow> bool) \<Rightarrow> ('d \<Rightarrow> 'v) \<Rightarrow> ('d, 'e, 'a) io \<Rightarrow> 'v \<Rightarrow> 'e fault + 'a \<Rightarrow> 'v \<Rightarrow> bool" where
  "runs ready contents m D r D' \<longleftrightarrow>
     (\<forall>d. ready d \<longrightarrow> contents d = D \<longrightarrow> (\<exists>d'. m d = (r, d') \<and> ready d' \<and> contents d' = D'))"

named_theorems runs_rules "total-correctness rules"

lemma runs_return [runs_rules]: "runs R C (io_return x) D (Inr x) D"
  by (simp add: runs_def io_return_def)

lemma runs_throw [runs_rules]: "runs R C (io_throw e) D (Inl e) D"
  by (simp add: runs_def io_throw_def)

lemma runs_bind:
  "runs R C m D (Inr x) D1 \<Longrightarrow> runs R C (f x) D1 r D2 \<Longrightarrow> runs R C (io_bind m f) D r D2"
  unfolding runs_def io_bind_def by fastforce

lemma runs_bind_error:
  "runs R C m D (Inl e) D1 \<Longrightarrow> runs R C (io_bind m f) D (Inl e) D1"
  unfolding runs_def io_bind_def by fastforce

lemma runs_map_err:
  "runs R C m D (Inr x) D1 \<Longrightarrow> runs R C (io_map_err g m) D (Inr x) D1"
  unfolding runs_def io_map_err_def by fastforce

text \<open>What the judgement says of one run.\<close>

lemma runsD: "runs R C m D r D' \<Longrightarrow> R d \<Longrightarrow> C d = D \<Longrightarrow> \<exists>d'. m d = (r, d') \<and> R d' \<and> C d' = D'"
  by (simp add: runs_def)

definition blocks_ok :: "nat \<Rightarrow> disk \<Rightarrow> bool" where
  "blocks_ok cap D \<longleftrightarrow> (\<forall>lba. unat lba < cap \<longrightarrow> length (D lba) = SECTOR_SIZE)"

lemma blocks_okD: "blocks_ok cap D \<Longrightarrow> unat lba < cap \<Longrightarrow> length (D lba) = SECTOR_SIZE"
  by (simp add: blocks_ok_def)

lemma blocks_ok_write: "blocks_ok cap D \<Longrightarrow> length data = SECTOR_SIZE \<Longrightarrow> blocks_ok cap (D(lba := data))"
  by (simp add: blocks_ok_def)

context block_device
begin

abbreviation exec :: "('d, 'e, 'a) io \<Rightarrow> disk \<Rightarrow> 'e fault + 'a \<Rightarrow> disk \<Rightarrow> bool" where
  "exec \<equiv> runs ready contents"

lemma ready_blocks_ok: "ready d \<Longrightarrow> blocks_ok cap (contents d)"
  by (simp add: blocks_ok_def block_length)

lemma exec_read:
  assumes "unat lba < cap"
  shows "exec (op_read ops lba) D (Inr (D lba)) D"
  using read_block assms by (auto simp: runs_def)

lemma exec_write:
  assumes "unat lba < cap" "length data = SECTOR_SIZE"
  shows "exec (op_write ops lba data) D (Inr ()) (D(lba := data))"
  using write_block assms by (auto simp: runs_def)

end

section \<open>A device held in memory\<close>

text \<open>The simplest device that keeps the contract: a list of blocks and no faults.\<close>

definition ram_ops :: "u8 list list block_ops" where
  "ram_ops = \<lparr>
     op_read = (\<lambda>lba d. if unat lba < length d then (Inr (d ! unat lba), d) else (Inl (Err SdTimeout), d)),
     op_write = (\<lambda>lba data d. if unat lba < length d then (Inr (), d[unat lba := data]) else (Inl (Err SdTimeout), d))\<rparr>"

definition ram_ready :: "nat \<Rightarrow> u8 list list \<Rightarrow> bool" where
  "ram_ready n d \<longleftrightarrow> length d = n \<and> (\<forall>b \<in> set d. length b = SECTOR_SIZE)"

definition ram_contents :: "u8 list list \<Rightarrow> disk" where
  "ram_contents d lba = (if unat lba < length d then d ! unat lba else [])"

interpretation ram: block_device ram_ops "ram_ready n" ram_contents n
proof
  fix d :: "u8 list list" and lba :: u32 and data :: "u8 list"
  assume r: "ram_ready n d" and l: "unat lba < n"
  show "\<exists>d'. op_read ram_ops lba d = (Inr (ram_contents d lba), d') \<and> ram_ready n d' \<and> ram_contents d' = ram_contents d"
    using r l by (simp add: ram_ops_def ram_contents_def ram_ready_def)
  show "length (ram_contents d lba) = SECTOR_SIZE"
    using r l by (simp add: ram_contents_def ram_ready_def)
  assume len: "length data = SECTOR_SIZE"
  have "ram_contents (d[unat lba := data]) = (ram_contents d)(lba := data)"
    using r l by (auto simp: ram_contents_def ram_ready_def fun_eq_iff nth_list_update word_unat_eq_iff)
  then show "\<exists>d'. op_write ram_ops lba data d = (Inr (), d') \<and> ram_ready n d' \<and>
      ram_contents d' = (ram_contents d)(lba := data)"
    using r l len by (auto simp: ram_ops_def ram_ready_def dest!: set_update_subset_insert[THEN subsetD])
qed

end
