(* ===== verification/Efi_Types.thy ===== *)
theory Efi_Types
  imports Ferro_Prelude
begin

text \<open>
  The UEFI base types and constants of \<^verbatim>\<open>src/src/efi/types.rs\<close>: status codes (with the high
  error bit), GUIDs, memory types and descriptors, the configuration-table entry and the table
  header. A status is a \<^verbatim>\<open>usize\<close>, 64 bits on AArch64.
\<close>

type_synonym efi_status = u64

definition ERROR_BIT :: u64 where "ERROR_BIT = push_bit 63 1"

definition EFI_SUCCESS :: efi_status where "EFI_SUCCESS = 0"
definition EFI_INVALID_PARAMETER :: efi_status where "EFI_INVALID_PARAMETER = ERROR_BIT OR 2"
definition EFI_UNSUPPORTED :: efi_status where "EFI_UNSUPPORTED = ERROR_BIT OR 3"
definition EFI_BUFFER_TOO_SMALL :: efi_status where "EFI_BUFFER_TOO_SMALL = ERROR_BIT OR 5"
definition EFI_NOT_READY :: efi_status where "EFI_NOT_READY = ERROR_BIT OR 6"
definition EFI_DEVICE_ERROR :: efi_status where "EFI_DEVICE_ERROR = ERROR_BIT OR 7"
definition EFI_WRITE_PROTECTED :: efi_status where "EFI_WRITE_PROTECTED = ERROR_BIT OR 8"
definition EFI_OUT_OF_RESOURCES :: efi_status where "EFI_OUT_OF_RESOURCES = ERROR_BIT OR 9"
definition EFI_NOT_FOUND :: efi_status where "EFI_NOT_FOUND = ERROR_BIT OR 14"

lemmas efi_status_defs =
  ERROR_BIT_def EFI_SUCCESS_def EFI_INVALID_PARAMETER_def EFI_UNSUPPORTED_def
  EFI_BUFFER_TOO_SMALL_def EFI_NOT_READY_def EFI_DEVICE_ERROR_def EFI_WRITE_PROTECTED_def
  EFI_OUT_OF_RESOURCES_def EFI_NOT_FOUND_def

text \<open>Handles, events and protocol interfaces are opaque pointers.\<close>

type_synonym efi_handle = u64
type_synonym efi_event = u64
type_synonym addr = u64

record efi_guid =
  data1 :: u32
  data2 :: u16
  data3 :: u16
  data4 :: "u8 list"

definition zero_guid :: efi_guid where
  "zero_guid = \<lparr>data1 = 0, data2 = 0, data3 = 0, data4 = replicate 8 0\<rparr>"

text \<open>A \<^verbatim>\<open>[u8; 8]\<close> has eight bytes.\<close>

definition guid_ok :: "efi_guid \<Rightarrow> bool" where
  "guid_ok g \<longleftrightarrow> length (data4 g) = 8"

lemma guid_ok_zero [simp]: "guid_ok zero_guid"
  by (simp add: guid_ok_def zero_guid_def)

definition EFI_RESERVED_MEMORY_TYPE :: u32 where "EFI_RESERVED_MEMORY_TYPE = 0"
definition EFI_LOADER_CODE :: u32 where "EFI_LOADER_CODE = 1"
definition EFI_LOADER_DATA :: u32 where "EFI_LOADER_DATA = 2"
definition EFI_BOOT_SERVICES_CODE :: u32 where "EFI_BOOT_SERVICES_CODE = 3"
definition EFI_BOOT_SERVICES_DATA :: u32 where "EFI_BOOT_SERVICES_DATA = 4"
definition EFI_RUNTIME_SERVICES_CODE :: u32 where "EFI_RUNTIME_SERVICES_CODE = 5"
definition EFI_RUNTIME_SERVICES_DATA :: u32 where "EFI_RUNTIME_SERVICES_DATA = 6"
definition EFI_CONVENTIONAL_MEMORY :: u32 where "EFI_CONVENTIONAL_MEMORY = 7"
definition EFI_MEMORY_MAPPED_IO :: u32 where "EFI_MEMORY_MAPPED_IO = 11"

lemmas efi_memory_type_defs =
  EFI_LOADER_CODE_def EFI_LOADER_DATA_def EFI_BOOT_SERVICES_CODE_def EFI_BOOT_SERVICES_DATA_def
  EFI_CONVENTIONAL_MEMORY_def EFI_MEMORY_MAPPED_IO_def

definition EFI_PAGE_SIZE :: u64 where "EFI_PAGE_SIZE = 4096"

record efi_memory_descriptor =
  ty :: u32
  physical_start :: u64
  virtual_start :: u64
  number_of_pages :: u64
  attribute :: u64

definition EFI_MEMORY_DESCRIPTOR_VERSION :: u32 where "EFI_MEMORY_DESCRIPTOR_VERSION = 1"

record efi_configuration_table_entry =
  vendor_guid :: efi_guid
  vendor_table :: addr

record efi_table_header =
  signature :: u64
  revision :: u32
  header_size :: u32
  hdr_crc32 :: u32
  hdr_reserved :: u32

text \<open>Error statuses are exactly the ones with the high bit set, and they are pairwise different.\<close>

lemma error_statuses_high_bit:
  "list_all (\<lambda>s. bit s 63)
     [EFI_INVALID_PARAMETER, EFI_UNSUPPORTED, EFI_BUFFER_TOO_SMALL, EFI_NOT_READY, EFI_DEVICE_ERROR,
      EFI_WRITE_PROTECTED, EFI_OUT_OF_RESOURCES, EFI_NOT_FOUND] \<and> \<not> bit EFI_SUCCESS 63"
  by (simp add: efi_status_defs bit_or_iff bit_push_bit_iff)

lemma efi_statuses_distinct [simp]:
  "distinct [EFI_SUCCESS, EFI_INVALID_PARAMETER, EFI_UNSUPPORTED, EFI_BUFFER_TOO_SMALL, EFI_NOT_READY,
     EFI_DEVICE_ERROR, EFI_WRITE_PROTECTED, EFI_OUT_OF_RESOURCES, EFI_NOT_FOUND]"
  by (simp add: efi_status_defs)

lemma efi_status_neq [simp]:
  "EFI_INVALID_PARAMETER \<noteq> EFI_SUCCESS" "EFI_UNSUPPORTED \<noteq> EFI_SUCCESS"
  "EFI_BUFFER_TOO_SMALL \<noteq> EFI_SUCCESS" "EFI_NOT_READY \<noteq> EFI_SUCCESS"
  "EFI_DEVICE_ERROR \<noteq> EFI_SUCCESS" "EFI_WRITE_PROTECTED \<noteq> EFI_SUCCESS"
  "EFI_OUT_OF_RESOURCES \<noteq> EFI_SUCCESS" "EFI_NOT_FOUND \<noteq> EFI_SUCCESS"
  "EFI_NOT_FOUND \<noteq> EFI_BUFFER_TOO_SMALL" "EFI_OUT_OF_RESOURCES \<noteq> EFI_INVALID_PARAMETER"
  "EFI_NOT_FOUND \<noteq> EFI_INVALID_PARAMETER" "EFI_UNSUPPORTED \<noteq> EFI_INVALID_PARAMETER"
  by (simp_all add: efi_status_defs)

end
