(* ===== verification/Memory.thy ===== *)
theory Memory
  imports Efi_Types
begin

text \<open>
  \<^verbatim>\<open>src/src/efi/memory.rs\<close> (with the address constants of \<^verbatim>\<open>src/src/mmio.rs\<close>): the bump page
  allocator behind AllocatePages/AllocatePool, its generation counter (the map key of
  GetMemoryMap) and the builder of the EFI memory map. The linker symbol \<^verbatim>\<open>__end\<close> is the argument
  \<open>fw_end\<close>. The allocator's compare-and-exchange loop is modelled with the values another agent
  stores into \<^verbatim>\<open>NEXT_FREE_PAGE\<close> between the load and the exchange (\<open>others\<close>); the rest of the
  firmware runs on one core and calls it with none.
\<close>

section \<open>State and operations\<close>

definition PERIPHERAL_BASE :: u64 where "PERIPHERAL_BASE = 0x3F000000"
definition LOCAL_BASE :: u64 where "LOCAL_BASE = 0x40000000"
definition RAM_LIMIT :: u64 where "RAM_LIMIT = PERIPHERAL_BASE"

record mem_state =
  next_free_page :: u64
  generation :: u64

definition page_align_up :: "u64 \<Rightarrow> u64" where
  "page_align_up a = (a + EFI_PAGE_SIZE - 1) AND NOT (EFI_PAGE_SIZE - 1)"

definition memory_init :: "u64 \<Rightarrow> mem_state \<Rightarrow> mem_state" where
  "memory_init fw_end m = m\<lparr>next_free_page := page_align_up fw_end\<rparr>"

fun allocate_pages_cas :: "u64 list \<Rightarrow> mem_state \<Rightarrow> u64 \<Rightarrow> u64 option \<times> mem_state" where
  "allocate_pages_cas others m count =
     (let base = next_free_page m;
          new = base + count * EFI_PAGE_SIZE
      in if new > RAM_LIMIT then (None, m)
         else (case others of
             [] \<Rightarrow> (Some base, m\<lparr>next_free_page := new, generation := generation m + 1\<rparr>)
           | v # rest \<Rightarrow>
               if v = base
               then (Some base, m\<lparr>next_free_page := new, generation := generation m + 1\<rparr>)
               else allocate_pages_cas rest (m\<lparr>next_free_page := v\<rparr>) count))"

declare allocate_pages_cas.simps [simp del]

definition mem_allocate_pages :: "mem_state \<Rightarrow> u64 \<Rightarrow> u64 option \<times> mem_state" where
  "mem_allocate_pages m count = allocate_pages_cas [] m count"

definition bump_mark :: "mem_state \<Rightarrow> u64" where
  "bump_mark m = next_free_page m"

type_synonym region = "u64 \<times> u64 \<times> u32"

definition push_region :: "u64 \<Rightarrow> u64 \<Rightarrow> u32 \<Rightarrow> region list \<Rightarrow> region list" where
  "push_region start end t regions = (if end > start then regions @ [(start, end, t)] else regions)"

definition memory_regions :: "u64 \<Rightarrow> mem_state \<Rightarrow> u64 \<Rightarrow> u64 \<Rightarrow> region list" where
  "memory_regions fw_end m fb_base fb_size =
     (let firmware_start = 0x80000;
          firmware_end_aligned = page_align_up fw_end;
          bump = bump_mark m;
          fb_end_aligned = page_align_up (fb_base + fb_size);
          local_end = LOCAL_BASE + 0x40000000;
          regions = push_region 0 firmware_start EFI_CONVENTIONAL_MEMORY [];
          regions = push_region firmware_start firmware_end_aligned EFI_BOOT_SERVICES_CODE regions;
          regions = push_region firmware_end_aligned bump EFI_BOOT_SERVICES_DATA regions;
          regions = push_region bump fb_base EFI_CONVENTIONAL_MEMORY regions;
          regions = push_region fb_base fb_end_aligned EFI_MEMORY_MAPPED_IO regions;
          regions = push_region fb_end_aligned PERIPHERAL_BASE EFI_CONVENTIONAL_MEMORY regions;
          regions = push_region PERIPHERAL_BASE LOCAL_BASE EFI_MEMORY_MAPPED_IO regions
      in push_region LOCAL_BASE local_end EFI_MEMORY_MAPPED_IO regions)"

definition region_descriptor :: "region \<Rightarrow> efi_memory_descriptor" where
  "region_descriptor r =
     (case r of (start, end, t) \<Rightarrow>
        \<lparr>ty = t, physical_start = start, virtual_start = start,
         number_of_pages = (end - start) div EFI_PAGE_SIZE, attribute = 0\<rparr>)"

text \<open>\<open>out_len\<close> is the length of the caller's descriptor array; the result is its filled prefix.\<close>

definition mem_get_memory_map ::
  "u64 \<Rightarrow> mem_state \<Rightarrow> u64 \<Rightarrow> u64 \<Rightarrow> nat \<Rightarrow> efi_memory_descriptor list option" where
  "mem_get_memory_map fw_end m fb_base fb_size out_len =
     (let regions = memory_regions fw_end m fb_base fb_size
      in if out_len < length regions then None else Some (map region_descriptor regions))"

section \<open>Words of page arithmetic\<close>

lemma and_not_mask_shift: "x AND NOT (mask n) = push_bit n (drop_bit n (x :: 'a::len word))"
  by (rule bit_word_eqI) (auto simp: bit_simps dest: bit_imp_le_length)

lemma unat_and_page_mask: "unat (x AND - 4096 :: u64) = unat x div 4096 * 4096"
proof -
  have "(- 4096 :: u64) = NOT (mask 12)" by (simp add: mask_eq_exp_minus_1)
  then have "x AND - 4096 = push_bit 12 (drop_bit 12 x)"
    using and_not_mask_shift[of x 12] by simp
  moreover have "unat (push_bit 12 (drop_bit 12 x)) = unat x div 4096 * 4096"
  proof -
    have "unat x div 4096 * 4096 < 2 ^ 64"
      using unat_bound[of x] div_times_less_eq_dividend[of "unat x" 4096] by simp
    then show ?thesis
      by (simp add: push_bit_eq_mult drop_bit_eq_div unat_word_ariths unat_div)
  qed
  ultimately show ?thesis by simp
qed

lemma unat_page_align_up:
  assumes "unat a + 4095 < 2 ^ 64"
  shows "unat (page_align_up a) = (unat a + 4095) div 4096 * 4096"
proof -
  have "unat (a + 4095) = unat a + 4095" using assms by (simp add: unat_word_ariths)
  then show ?thesis
    by (simp add: page_align_up_def EFI_PAGE_SIZE_def unat_and_page_mask add.commute)
qed

lemma page_align_up_aligned: "unat a + 4095 < 2 ^ 64 \<Longrightarrow> 4096 dvd unat (page_align_up a)"
  by (simp add: unat_page_align_up)

lemma page_align_up_ge: "unat a + 4095 < 2 ^ 64 \<Longrightarrow> a \<le> page_align_up a"
  by (simp add: word_le_nat_alt unat_page_align_up)

lemma page_align_up_le:
  "unat a + 4095 < 2 ^ 64 \<Longrightarrow> 4096 dvd unat b \<Longrightarrow> a \<le> b \<Longrightarrow> page_align_up a \<le> b"
  by (auto simp: word_le_nat_alt unat_page_align_up dvd_def)

section \<open>The allocator\<close>

definition mem_inv :: "mem_state \<Rightarrow> bool" where
  "mem_inv m \<longleftrightarrow> 4096 dvd unat (next_free_page m) \<and> next_free_page m \<le> RAM_LIMIT"

text \<open>A page count that an honest caller can ask for: its size in bytes fits in 63 bits.\<close>

definition sane_count :: "u64 \<Rightarrow> bool" where
  "sane_count c \<longleftrightarrow> unat c < 2 ^ 51"

lemma mem_allocate_pages_unfold:
  "mem_allocate_pages m count =
     (if next_free_page m + count * EFI_PAGE_SIZE > RAM_LIMIT then (None, m)
      else (Some (next_free_page m),
            m\<lparr>next_free_page := next_free_page m + count * EFI_PAGE_SIZE, generation := generation m + 1\<rparr>))"
  by (simp add: mem_allocate_pages_def allocate_pages_cas.simps Let_def)

lemma unat_new_page:
  assumes "mem_inv m" "sane_count c"
  shows "unat (next_free_page m + c * EFI_PAGE_SIZE) = unat (next_free_page m) + unat c * 4096"
proof -
  have "unat (next_free_page m) \<le> 0x3F000000"
    using assms(1) by (simp add: mem_inv_def RAM_LIMIT_def PERIPHERAL_BASE_def word_le_nat_alt)
  moreover have c: "unat c * 4096 < 2 ^ 63" using assms(2) by (simp add: sane_count_def)
  ultimately have "unat (next_free_page m) + unat c * 4096 < 2 ^ 64" by simp
  with c show ?thesis
    by (simp add: EFI_PAGE_SIZE_def unat_word_ariths)
qed

lemma mem_allocate_pages_cases:
  assumes "mem_inv m" "sane_count c"
  obtains (full) "unat (next_free_page m) + unat c * 4096 > 0x3F000000"
      "mem_allocate_pages m c = (None, m)"
  | (ok) m' where "unat (next_free_page m) + unat c * 4096 \<le> 0x3F000000"
      "mem_allocate_pages m c = (Some (next_free_page m), m')"
      "unat (next_free_page m') = unat (next_free_page m) + unat c * 4096"
      "generation m' = generation m + 1" "mem_inv m'"
proof -
  let ?new = "next_free_page m + c * EFI_PAGE_SIZE"
  have n: "unat ?new = unat (next_free_page m) + unat c * 4096" by (rule unat_new_page[OF assms])
  have lim: "?new > RAM_LIMIT \<longleftrightarrow> unat (next_free_page m) + unat c * 4096 > 0x3F000000"
    by (simp add: RAM_LIMIT_def PERIPHERAL_BASE_def word_less_nat_alt n)
  show thesis
  proof (cases "?new > RAM_LIMIT")
    case True
    with lim show ?thesis by (intro full) (simp_all add: mem_allocate_pages_unfold)
  next
    case False
    let ?m' = "m\<lparr>next_free_page := ?new, generation := generation m + 1\<rparr>"
    have "mem_inv ?m'"
      using assms(1) False by (simp add: mem_inv_def n dvd_add)
    with False lim n show ?thesis
      by (intro ok[of ?m']) (simp_all add: mem_allocate_pages_unfold)
  qed
qed

lemma mem_allocate_pages_inv: "mem_inv m \<Longrightarrow> sane_count c \<Longrightarrow> mem_inv (snd (mem_allocate_pages m c))"
  by (rule mem_allocate_pages_cases[of m c]) simp_all

lemma mem_allocate_pages_mono:
  assumes "mem_inv m" "sane_count c"
  shows "unat (next_free_page m) \<le> unat (next_free_page (snd (mem_allocate_pages m c)))"
  by (rule mem_allocate_pages_cases[OF assms]) simp_all

text \<open>Whatever other agents do in between, one call behaves like an allocation made at one instant.\<close>

lemma allocate_pages_cas_atomic:
  "\<exists>v. allocate_pages_cas others m count = mem_allocate_pages (m\<lparr>next_free_page := v\<rparr>) count
     \<and> v \<in> set (next_free_page m # others)"
proof (induction others m count rule: allocate_pages_cas.induct)
  case (1 others m count)
  let ?here = "\<exists>v. allocate_pages_cas others m count = mem_allocate_pages (m\<lparr>next_free_page := v\<rparr>) count
     \<and> v \<in> set (next_free_page m # others)"
  have here: ?here if "allocate_pages_cas others m count = mem_allocate_pages m count"
    by (rule exI[of _ "next_free_page m"]) (simp add: that)
  show ?case
  proof (cases others)
    case Nil
    then show ?thesis by (intro here) (simp add: mem_allocate_pages_def)
  next
    case (Cons v rest)
    show ?thesis
    proof (cases "next_free_page m + count * EFI_PAGE_SIZE > RAM_LIMIT \<or> v = next_free_page m")
      case True
      then show ?thesis
        using Cons by (intro here) (auto simp: mem_allocate_pages_unfold allocate_pages_cas.simps[of "_ # _"] Let_def)
    next
      case False
      then have step: "allocate_pages_cas others m count = allocate_pages_cas rest (m\<lparr>next_free_page := v\<rparr>) count"
        using Cons by (simp add: allocate_pages_cas.simps[of "v # rest"] Let_def)
      from False "1.IH"[OF refl refl _ Cons] obtain w where
        "allocate_pages_cas rest (m\<lparr>next_free_page := v\<rparr>) count = mem_allocate_pages (m\<lparr>next_free_page := w\<rparr>) count"
        "w \<in> set (v # rest)"
        by auto
      with step Cons show ?thesis by (intro exI[of _ w]) auto
    qed
  qed
qed

section \<open>Sequences of allocations\<close>

text \<open>A sequence of AllocatePages calls and the regions (base, pages) handed out, in order.\<close>

fun run_allocs :: "mem_state \<Rightarrow> u64 list \<Rightarrow> (u64 \<times> u64) list \<times> mem_state" where
  "run_allocs m [] = ([], m)"
| "run_allocs m (c # cs) =
     (case mem_allocate_pages m c of
        (None, m') \<Rightarrow> run_allocs m' cs
      | (Some base, m') \<Rightarrow> (case run_allocs m' cs of (rs, m'') \<Rightarrow> ((base, c) # rs, m'')))"

definition region_first :: "u64 \<times> u64 \<Rightarrow> nat" where
  "region_first r = unat (fst r)"

definition region_last :: "u64 \<times> u64 \<Rightarrow> nat" where
  "region_last r = unat (fst r) + unat (snd r) * 4096"

lemma run_allocs_bounds:
  assumes "mem_inv m" "list_all sane_count cs" "run_allocs m cs = (rs, m')"
  shows "sorted_wrt (\<lambda>r r'. region_last r \<le> region_first r') rs \<and>
    (\<forall>r \<in> set rs. 4096 dvd region_first r \<and> unat (next_free_page m) \<le> region_first r
        \<and> region_last r \<le> unat (next_free_page m')) \<and>
    mem_inv m' \<and> unat (next_free_page m) \<le> unat (next_free_page m')
    \<and> generation m' = generation m + of_nat (length rs)"
  using assms
proof (induction cs arbitrary: m rs)
  case Nil
  then show ?case by simp
next
  case (Cons c cs)
  then have c: "sane_count c" and cs: "list_all sane_count cs" by simp_all
  from Cons.prems(1) c show ?case
  proof (cases rule: mem_allocate_pages_cases)
    case full
    with Cons show ?thesis by simp
  next
    case (ok m1)
    obtain rs1 where rs: "run_allocs m1 cs = (rs1, m')" "rs = (next_free_page m, c) # rs1"
      using Cons.prems(3) ok(2) by (auto split: prod.splits)
    note IH = Cons.IH[OF ok(5) cs rs(1)]
    show ?thesis
      using IH ok Cons.prems(1)
      by (auto simp: rs(2) region_first_def region_last_def mem_inv_def)
  qed
qed

text \<open>
  C11: any sequence of AllocatePages requests (each below 2^51 pages) starting from an aligned
  bump pointer hands out page-aligned regions that are pairwise disjoint and in ascending order,
  none of them before the pointer's start or past the RAM limit 0x3F000000; the map key grows by
  exactly one for each region handed out.
\<close>

theorem allocations_disjoint:
  assumes "mem_inv m" and "list_all sane_count cs" and "run_allocs m cs = (rs, m')"
  shows "sorted_wrt (\<lambda>r r'. region_last r \<le> region_first r') rs \<and>
    (\<forall>r \<in> set rs. 4096 dvd region_first r \<and> unat (next_free_page m) \<le> region_first r
       \<and> region_last r \<le> 0x3F000000) \<and>
    generation m' = generation m + of_nat (length rs)"
proof -
  note b = run_allocs_bounds[OF assms]
  then have "unat (next_free_page m') \<le> 0x3F000000"
    by (simp add: mem_inv_def RAM_LIMIT_def PERIPHERAL_BASE_def word_le_nat_alt)
  with b show ?thesis by fastforce
qed

theorem allocations_disjoint_witness:
  "sorted_wrt (\<lambda>r r'. region_last r \<le> region_first r') [(0x100000, 2), (0x102000, 1)] \<and>
   generation \<lparr>next_free_page = 0x103000, generation = 2\<rparr> = 0 + of_nat 2"
proof -
  let ?m = "\<lparr>next_free_page = 0x100000, generation = 0\<rparr>"
  let ?m' = "\<lparr>next_free_page = 0x103000, generation = 2\<rparr>"
  have inv: "mem_inv ?m"
    by (simp add: mem_inv_def RAM_LIMIT_def PERIPHERAL_BASE_def)
  have sane: "list_all sane_count [2, 0x80000, 1]" by (simp add: sane_count_def)
  have run: "run_allocs ?m [2, 0x80000, 1] = ([(0x100000, 2), (0x102000, 1)], ?m')"
    by (simp add: mem_allocate_pages_unfold RAM_LIMIT_def PERIPHERAL_BASE_def EFI_PAGE_SIZE_def)
  from allocations_disjoint[OF inv sane run] show ?thesis by simp
qed

lemma mem_allocate_pages_step:
  "mem_allocate_pages m c = (r, m') \<Longrightarrow> m' = m \<or> generation m' = generation m + 1"
  by (auto simp: mem_allocate_pages_unfold split: if_splits)

lemma memory_regions_at_most_8: "length (memory_regions fw_end m fb_base fb_size) \<le> 8"
  by (simp add: memory_regions_def push_region_def Let_def)

lemma mem_allocate_nothing:
  assumes "next_free_page m \<le> RAM_LIMIT"
  shows "mem_allocate_pages m 0x10000000000000 = (Some (next_free_page m), m\<lparr>generation := generation m + 1\<rparr>)"
proof -
  have "(0x10000000000000 :: u64) * EFI_PAGE_SIZE = 0"
    by (simp add: EFI_PAGE_SIZE_def word_uint_eq_iff)
  with assms show ?thesis by (simp add: mem_allocate_pages_unfold not_less)
qed

section \<open>The memory map\<close>

text \<open>The regions of the builder tile an interval: no gap, no overlap, all bounds page-aligned.\<close>

fun tiles :: "nat \<Rightarrow> region list \<Rightarrow> nat \<Rightarrow> bool" where
  "tiles a [] b \<longleftrightarrow> a = b"
| "tiles a ((s, e, t) # rs) b \<longleftrightarrow>
     unat s = a \<and> s < e \<and> 4096 dvd unat s \<and> 4096 dvd unat e \<and> tiles (unat e) rs b"

lemma tiles_append: "tiles a rs b \<Longrightarrow> tiles b rs' c \<Longrightarrow> tiles a (rs @ rs') c"
  by (induction a rs b rule: tiles.induct) auto

lemma tiles_push:
  assumes "tiles a rs (unat s)" "s \<le> e" "4096 dvd unat s" "4096 dvd unat e"
  shows "tiles a (push_region s e t rs) (unat e)"
  using assms by (auto simp: push_region_def not_less intro: tiles_append)

lemma tiles_le: "tiles a rs b \<Longrightarrow> a \<le> b"
proof (induction a rs b rule: tiles.induct)
  case (2 a s e t rs b)
  then have "unat e \<le> b" "unat s = a" "s < e" by auto
  then show ?case by (simp add: word_less_nat_alt)
qed simp

text \<open>The same for the descriptors the caller sees, read through their page counts.\<close>

fun desc_tiles :: "nat \<Rightarrow> efi_memory_descriptor list \<Rightarrow> nat \<Rightarrow> bool" where
  "desc_tiles a [] b \<longleftrightarrow> a = b"
| "desc_tiles a (d # ds) b \<longleftrightarrow>
     unat (physical_start d) = a \<and> virtual_start d = physical_start d \<and> number_of_pages d \<noteq> 0
     \<and> desc_tiles (a + unat (number_of_pages d) * 4096) ds b"

lemma region_pages:
  assumes "s < e" "4096 dvd unat s" "4096 dvd unat e"
  shows "unat (number_of_pages (region_descriptor (s, e, t))) * 4096 = unat e - unat s"
proof -
  have "unat (e - s) = unat e - unat s" using assms(1) by (simp add: unat_sub order.strict_implies_order)
  then show ?thesis
    using assms(2,3) by (simp add: region_descriptor_def EFI_PAGE_SIZE_def unat_div dvd_diff_nat)
qed

lemma tiles_descriptors: "tiles a rs b \<Longrightarrow> desc_tiles a (map region_descriptor rs) b"
proof (induction a rs b rule: tiles.induct)
  case (2 a s e t rs b)
  then have t: "unat s = a" "s < e" "4096 dvd unat s" "4096 dvd unat e" "tiles (unat e) rs b" by auto
  note p = region_pages[OF t(2-4), of t]
  from t(2) have lt: "unat s < unat e" by (simp add: word_less_nat_alt)
  have "number_of_pages (region_descriptor (s, e, t)) \<noteq> 0"
    using p lt by (metis diff_is_0_eq mult_zero_left not_le unat_0)
  moreover have "a + unat (number_of_pages (region_descriptor (s, e, t))) * 4096 = unat e"
    using p lt t(1) by simp
  ultimately show ?case
    using t "2.IH" by (simp add: region_descriptor_def)
qed simp

text \<open>
  The memory layout the map is meant for: firmware, then the allocated pages, then the
  framebuffer (whose base the GPU aligns to a page, as \<^verbatim>\<open>framebuffer.rs\<close> asks), then the
  peripherals.
\<close>

definition layout_ok :: "u64 \<Rightarrow> mem_state \<Rightarrow> u64 \<Rightarrow> u64 \<Rightarrow> bool" where
  "layout_ok fw_end m fb_base fb_size \<longleftrightarrow>
     mem_inv m \<and> unat fw_end \<le> 0x3F000000 \<and> 0x80000 \<le> page_align_up fw_end
     \<and> page_align_up fw_end \<le> next_free_page m \<and> next_free_page m \<le> fb_base
     \<and> 4096 dvd unat fb_base \<and> unat fb_base + unat fb_size \<le> 0x3F000000"

lemma layout_okD:
  assumes "layout_ok fw_end m fb_base fb_size"
  shows "4096 dvd unat (page_align_up fw_end)" "4096 dvd unat (next_free_page m)"
    "fb_base \<le> page_align_up (fb_base + fb_size)" "4096 dvd unat (page_align_up (fb_base + fb_size))"
    "page_align_up (fb_base + fb_size) \<le> PERIPHERAL_BASE"
proof -
  have sum: "unat (fb_base + fb_size) = unat fb_base + unat fb_size"
    using assms by (simp add: layout_ok_def unat_word_ariths)
  then have small: "unat (fb_base + fb_size) + 4095 < 2 ^ 64"
    using assms by (simp add: layout_ok_def)
  have "fb_base \<le> fb_base + fb_size" using sum by (simp add: word_le_nat_alt)
  then show "fb_base \<le> page_align_up (fb_base + fb_size)"
    using page_align_up_ge[OF small] by simp
  show "4096 dvd unat (page_align_up (fb_base + fb_size))" by (rule page_align_up_aligned[OF small])
  show "page_align_up (fb_base + fb_size) \<le> PERIPHERAL_BASE"
    by (rule page_align_up_le[OF small]) (use assms sum in \<open>simp_all add: PERIPHERAL_BASE_def layout_ok_def word_le_nat_alt\<close>)
  show "4096 dvd unat (page_align_up fw_end)"
    by (rule page_align_up_aligned) (use assms in \<open>simp add: layout_ok_def\<close>)
  show "4096 dvd unat (next_free_page m)" using assms by (simp add: layout_ok_def mem_inv_def)
qed

lemma memory_regions_tile:
  assumes "layout_ok fw_end m fb_base fb_size"
  shows "tiles 0 (memory_regions fw_end m fb_base fb_size) 0x80000000"
proof -
  note d = layout_okD[OF assms]
  have o: "0x80000 \<le> page_align_up fw_end" "page_align_up fw_end \<le> next_free_page m"
    "next_free_page m \<le> fb_base" "4096 dvd unat fb_base"
    using assms by (simp_all add: layout_ok_def)
  have "tiles 0 [] (unat (0::u64))" by simp
  from tiles_push[OF this, of "0x80000"] have "tiles 0 (push_region 0 0x80000 t []) (unat (0x80000::u64))" for t
    by simp
  note t1 = this[of EFI_CONVENTIONAL_MEMORY]
  note t2 = tiles_push[OF t1 o(1) _ d(1), of EFI_BOOT_SERVICES_CODE]
  have "4096 dvd unat (0x80000 :: u64)" by simp
  note t3 = tiles_push[OF t2[OF this] o(2) d(1) d(2), of EFI_BOOT_SERVICES_DATA]
  note t4 = tiles_push[OF t3 o(3) d(2) o(4), of EFI_CONVENTIONAL_MEMORY]
  note t5 = tiles_push[OF t4 d(3) o(4) d(4), of EFI_MEMORY_MAPPED_IO]
  note t6 = tiles_push[OF t5 d(5) d(4), of EFI_CONVENTIONAL_MEMORY]
  have p: "4096 dvd unat PERIPHERAL_BASE" "PERIPHERAL_BASE \<le> LOCAL_BASE" "4096 dvd unat LOCAL_BASE"
    "LOCAL_BASE \<le> LOCAL_BASE + 0x40000000" "4096 dvd unat (LOCAL_BASE + 0x40000000)"
    by (simp_all add: PERIPHERAL_BASE_def LOCAL_BASE_def)
  note t7 = tiles_push[OF t6[OF p(1)] p(2) p(1) p(3), of EFI_MEMORY_MAPPED_IO]
  note t8 = tiles_push[OF t7 p(4) p(3) p(5), of EFI_MEMORY_MAPPED_IO]
  have "unat (LOCAL_BASE + 0x40000000) = 0x80000000" by (simp add: LOCAL_BASE_def)
  with t8 show ?thesis by (simp add: memory_regions_def bump_mark_def Let_def)
qed

lemma memory_regions_length: "length (memory_regions fw_end m fb_base fb_size) \<le> 8"
  by (simp add: memory_regions_def push_region_def Let_def)

text \<open>
  C12: under the layout of the running firmware, GetMemoryMap's builder always fits the eight
  descriptors of its scratch array and describes the address space from 0 to 0x80000000 exactly
  once: the first descriptor starts at 0, every descriptor is non-empty and starts where the one
  before it ends, and the last one ends at 0x80000000.
\<close>

theorem memory_map_tiles_address_space:
  assumes "layout_ok fw_end m fb_base fb_size"
  shows "\<exists>ds. mem_get_memory_map fw_end m fb_base fb_size 8 = Some ds \<and> length ds \<le> 8
           \<and> desc_tiles 0 ds 0x80000000"
  using tiles_descriptors[OF memory_regions_tile[OF assms]] memory_regions_length[of fw_end m fb_base fb_size]
  by (simp add: mem_get_memory_map_def Let_def)

theorem memory_map_tiles_address_space_witness:
  "\<exists>ds. mem_get_memory_map 0x91234 \<lparr>next_free_page = 0x94000, generation = 3\<rparr> 0x3C100000 0x1D4C00 8 = Some ds
     \<and> length ds \<le> 8 \<and> desc_tiles 0 ds 0x80000000"
proof -
  have "layout_ok 0x91234 \<lparr>next_free_page = 0x94000, generation = 3\<rparr> 0x3C100000 0x1D4C00"
    by (simp add: layout_ok_def mem_inv_def RAM_LIMIT_def PERIPHERAL_BASE_def page_align_up_def EFI_PAGE_SIZE_def)
  from memory_map_tiles_address_space[OF this] show ?thesis .
qed

end
