(* ===== verification/Sd.thy ===== *)
theory Sd
  imports Block_Device Memory
begin

text \<open>
  \<^verbatim>\<open>src/src/sd.rs\<close>: the SDHCI driver. The host controller and the tick counter are the record
  \<open>sd_host\<close> of what the driver calls (\<^verbatim>\<open>mmio::read\<close>, \<^verbatim>\<open>mmio::write\<close>, \<^verbatim>\<open>timer::ticks\<close>): hardware, so a
  parameter. The polling loops take fuel, since only the tick counter ends them.
\<close>

section \<open>Registers\<close>

definition SD_BASE :: u64 where "SD_BASE = PERIPHERAL_BASE + 0x00300000"
definition REG_BLOCKSIZE_COUNT :: u64 where "REG_BLOCKSIZE_COUNT = SD_BASE + 0x04"
definition REG_ARG1 :: u64 where "REG_ARG1 = SD_BASE + 0x08"
definition REG_TRANSFER_CMD :: u64 where "REG_TRANSFER_CMD = SD_BASE + 0x0C"
definition REG_RESP0 :: u64 where "REG_RESP0 = SD_BASE + 0x10"
definition REG_RESP1 :: u64 where "REG_RESP1 = SD_BASE + 0x14"
definition REG_RESP2 :: u64 where "REG_RESP2 = SD_BASE + 0x18"
definition REG_RESP3 :: u64 where "REG_RESP3 = SD_BASE + 0x1C"
definition REG_BUFFER :: u64 where "REG_BUFFER = SD_BASE + 0x20"
definition REG_PRESENT_STATE :: u64 where "REG_PRESENT_STATE = SD_BASE + 0x24"
definition REG_CLOCK_TIMEOUT_RESET :: u64 where "REG_CLOCK_TIMEOUT_RESET = SD_BASE + 0x2C"
definition REG_INT_STATUS :: u64 where "REG_INT_STATUS = SD_BASE + 0x30"
definition REG_INT_STATUS_ENABLE :: u64 where "REG_INT_STATUS_ENABLE = SD_BASE + 0x34"
definition REG_CAPABILITIES :: u64 where "REG_CAPABILITIES = SD_BASE + 0x40"

lemmas sd_regs = SD_BASE_def PERIPHERAL_BASE_def REG_BLOCKSIZE_COUNT_def REG_ARG1_def REG_TRANSFER_CMD_def
  REG_RESP0_def REG_RESP1_def REG_RESP2_def REG_RESP3_def REG_BUFFER_def REG_PRESENT_STATE_def
  REG_CLOCK_TIMEOUT_RESET_def REG_INT_STATUS_def REG_INT_STATUS_ENABLE_def REG_CAPABILITIES_def

definition INT_CMD_COMPLETE :: u32 where "INT_CMD_COMPLETE = 1"
definition INT_TRANSFER_COMPLETE :: u32 where "INT_TRANSFER_COMPLETE = 2"
definition INT_BUFFER_WRITE_READY :: u32 where "INT_BUFFER_WRITE_READY = 16"
definition INT_BUFFER_READ_READY :: u32 where "INT_BUFFER_READ_READY = 32"
definition INT_ERROR_MASK :: u32 where "INT_ERROR_MASK = 0xFFFF0000"
definition PRESENT_CMD_INHIBIT :: u32 where "PRESENT_CMD_INHIBIT = 1"
definition PRESENT_DAT_INHIBIT :: u32 where "PRESENT_DAT_INHIBIT = 2"

lemmas sd_bits = INT_CMD_COMPLETE_def INT_TRANSFER_COMPLETE_def INT_BUFFER_WRITE_READY_def
  INT_BUFFER_READ_READY_def INT_ERROR_MASK_def PRESENT_CMD_INHIBIT_def PRESENT_DAT_INHIBIT_def

datatype resp_type = RespNone | R2 | R1
datatype data_dir = DirNone | DirRead | DirWrite

record 'h sd_host =
  mmio_read :: "u64 \<Rightarrow> 'h \<Rightarrow> u32 \<times> 'h"
  mmio_write :: "u64 \<Rightarrow> u32 \<Rightarrow> 'h \<Rightarrow> 'h"
  timer_ticks :: "'h \<Rightarrow> u64 \<times> 'h"

type_synonym ('h, 'a) sd_io = "('h, sd_error, 'a) io"

definition mm_read :: "'h sd_host \<Rightarrow> u64 \<Rightarrow> ('h, u32) sd_io" where
  "mm_read host reg h = (case mmio_read host reg h of (v, h') \<Rightarrow> (Inr v, h'))"

definition mm_write :: "'h sd_host \<Rightarrow> u64 \<Rightarrow> u32 \<Rightarrow> ('h, unit) sd_io" where
  "mm_write host reg v h = (Inr (), mmio_write host reg v h)"

definition ticks_now :: "'h sd_host \<Rightarrow> ('h, u64) sd_io" where
  "ticks_now host h = (case timer_ticks host h of (t, h') \<Rightarrow> (Inr t, h'))"

section \<open>Polling\<close>

primrec wait_poll :: "'h sd_host \<Rightarrow> nat \<Rightarrow> u64 \<Rightarrow> ('h, bool) sd_io \<Rightarrow> ('h, unit) sd_io" where
  "wait_poll host 0 deadline cond = io_throw OutOfFuel"
| "wait_poll host (Suc fuel) deadline cond =
     io_bind cond (\<lambda>b.
       if b then
         io_bind (ticks_now host) (\<lambda>t.
           if t > deadline then io_throw (Err SdTimeout) else wait_poll host fuel deadline cond)
       else io_return ())"

definition wait_while :: "'h sd_host \<Rightarrow> nat \<Rightarrow> u64 \<Rightarrow> ('h, bool) sd_io \<Rightarrow> ('h, unit) sd_io" where
  "wait_while host fuel timeout cond =
     io_bind (ticks_now host) (\<lambda>t. wait_poll host fuel (t + timeout) cond)"

text \<open>The condition \<^verbatim>\<open>mmio::read(reg) & mask == 0\<close>, and its negation.\<close>

definition bits_clear :: "'h sd_host \<Rightarrow> u64 \<Rightarrow> u32 \<Rightarrow> ('h, bool) sd_io" where
  "bits_clear host reg m = io_bind (mm_read host reg) (\<lambda>v. io_return (v AND m = 0))"

definition bits_set :: "'h sd_host \<Rightarrow> u64 \<Rightarrow> u32 \<Rightarrow> ('h, bool) sd_io" where
  "bits_set host reg m = io_bind (mm_read host reg) (\<lambda>v. io_return (v AND m \<noteq> 0))"

definition reset_all :: "'h sd_host \<Rightarrow> nat \<Rightarrow> ('h, unit) sd_io" where
  "reset_all host fuel =
     io_bind (mm_write host REG_CLOCK_TIMEOUT_RESET (push_bit 24 1)) (\<lambda>_.
       wait_while host fuel 100 (bits_set host REG_CLOCK_TIMEOUT_RESET (push_bit 24 1)))"

definition base_clock_hz :: "'h sd_host \<Rightarrow> ('h, u64) sd_io" where
  "base_clock_hz host =
     io_bind (mm_read host REG_CAPABILITIES) (\<lambda>caps.
       io_return (ucast (drop_bit 8 caps AND 0x3F) * 1000000))"

text \<open>The divisor search; the base clock is at most 63 MHz, so the 32-bit divisor cannot wrap.\<close>

function clock_divisor :: "nat \<Rightarrow> nat \<Rightarrow> nat \<Rightarrow> nat" where
  "clock_divisor base target divisor =
     (if base div (2 * divisor) > target then clock_divisor base target (divisor + 1) else divisor)"
  by pat_completeness auto
termination
proof (relation "measure (\<lambda>(base, target, divisor). base + 1 - divisor)")
  fix base target divisor :: nat
  assume "target < base div (2 * divisor)"
  then have "0 < base div (2 * divisor)" by simp
  then have "0 < divisor" "2 * divisor \<le> base" by (auto simp: div_greater_zero_iff)
  then show "((base, target, divisor + 1), base, target, divisor) \<in>
      measure (\<lambda>(base, target, divisor). base + 1 - divisor)" by auto
qed simp

declare clock_divisor.simps [simp del]

definition set_clock :: "'h sd_host \<Rightarrow> nat \<Rightarrow> nat \<Rightarrow> ('h, unit) sd_io" where
  "set_clock host fuel target_hz =
     io_bind (mm_write host REG_CLOCK_TIMEOUT_RESET 0) (\<lambda>_.
     io_bind (base_clock_hz host) (\<lambda>hz.
       let base = unat (max hz 1);
           divisor = of_nat (clock_divisor base target_hz 1);
           clock_ctrl = push_bit 8 divisor OR 1 in
       io_bind (mm_write host REG_CLOCK_TIMEOUT_RESET clock_ctrl) (\<lambda>_.
       io_bind (wait_while host fuel 1000 (bits_clear host REG_CLOCK_TIMEOUT_RESET (push_bit 1 1))) (\<lambda>_.
         mm_write host REG_CLOCK_TIMEOUT_RESET (clock_ctrl OR push_bit 2 1)))))"

section \<open>Commands\<close>

definition command_word :: "u8 \<Rightarrow> resp_type \<Rightarrow> data_dir \<Rightarrow> u32" where
  "command_word index resp data =
     (let resp_bits = (case resp of RespNone \<Rightarrow> 0 | R2 \<Rightarrow> 1 | R1 \<Rightarrow> 2);
          command = push_bit 24 (ucast index) OR push_bit 16 resp_bits
                      OR (if data \<noteq> DirNone then push_bit 21 1 else 0);
          transfer_mode = (case data of DirNone \<Rightarrow> 0 | DirRead \<Rightarrow> push_bit 1 1 OR push_bit 4 1
                             | DirWrite \<Rightarrow> push_bit 1 1)
      in command OR transfer_mode)"

definition send_command ::
  "'h sd_host \<Rightarrow> nat \<Rightarrow> u8 \<Rightarrow> u32 \<Rightarrow> resp_type \<Rightarrow> data_dir \<Rightarrow> ('h, u32 \<times> u32 \<times> u32 \<times> u32) sd_io" where
  "send_command host fuel index arg resp data =
     io_bind (wait_while host fuel 200
       (bits_set host REG_PRESENT_STATE (PRESENT_CMD_INHIBIT OR PRESENT_DAT_INHIBIT))) (\<lambda>_.
     io_bind (mm_write host REG_INT_STATUS 0xFFFFFFFF) (\<lambda>_.
     io_bind (mm_write host REG_ARG1 arg) (\<lambda>_.
     io_bind (mm_write host REG_TRANSFER_CMD (command_word index resp data)) (\<lambda>_.
     io_bind (wait_while host fuel 200 (bits_clear host REG_INT_STATUS (INT_CMD_COMPLETE OR INT_ERROR_MASK))) (\<lambda>_.
     io_bind (mm_read host REG_INT_STATUS) (\<lambda>status.
       if status AND INT_ERROR_MASK \<noteq> 0 then
         io_bind (mm_write host REG_INT_STATUS 0xFFFFFFFF) (\<lambda>_. io_throw (Err (SdError status)))
       else
         io_bind (mm_write host REG_INT_STATUS INT_CMD_COMPLETE) (\<lambda>_.
         io_bind (mm_read host REG_RESP0) (\<lambda>r0.
         io_bind (mm_read host REG_RESP1) (\<lambda>r1.
         io_bind (mm_read host REG_RESP2) (\<lambda>r2.
         io_bind (mm_read host REG_RESP3) (\<lambda>r3.
           io_return (r0, r1, r2, r3))))))))))))"

record card =
  rca :: u32
  block_addressed :: bool

text \<open>The ACMD41 loop of the initialisation.\<close>

primrec acmd41_loop :: "'h sd_host \<Rightarrow> nat \<Rightarrow> u64 \<Rightarrow> nat \<Rightarrow> ('h, u32) sd_io" where
  "acmd41_loop host fuel deadline 0 = io_throw OutOfFuel"
| "acmd41_loop host fuel deadline (Suc n) =
     io_bind (send_command host fuel 55 0 R1 DirNone) (\<lambda>_.
     io_bind (send_command host fuel 41 0x40FF8000 R1 DirNone) (\<lambda>r3.
       if fst r3 AND push_bit 31 1 \<noteq> 0 then io_return (fst r3)
       else
         io_bind (ticks_now host) (\<lambda>t.
           if t > deadline then io_throw (Err SdTimeout) else acmd41_loop host fuel deadline n)))"

definition card_init :: "'h sd_host \<Rightarrow> nat \<Rightarrow> ('h, card) sd_io" where
  "card_init host fuel =
     io_bind (reset_all host fuel) (\<lambda>_.
     io_bind (mm_write host REG_INT_STATUS_ENABLE 0xFFFFFFFF) (\<lambda>_.
     io_bind (set_clock host fuel 400000) (\<lambda>_.
     io_bind (send_command host fuel 0 0 RespNone DirNone) (\<lambda>_.
     io_bind (send_command host fuel 8 0x1AA R1 DirNone) (\<lambda>r7.
       if fst r7 AND 0xFF \<noteq> 0xAA then io_throw (Err SdNoCard)
       else
         io_bind (ticks_now host) (\<lambda>t.
         io_bind (acmd41_loop host fuel (t + 500) fuel) (\<lambda>ocr.
         io_bind (send_command host fuel 2 0 R2 DirNone) (\<lambda>_.
         io_bind (send_command host fuel 3 0 R1 DirNone) (\<lambda>r6.
         io_bind (set_clock host fuel 25000000) (\<lambda>_.
         io_bind (send_command host fuel 7 (fst r6 AND 0xFFFF0000) R1 DirNone) (\<lambda>_.
           io_return \<lparr>rca = fst r6 AND 0xFFFF0000, block_addressed = (ocr AND push_bit 30 1 \<noteq> 0)\<rparr>)))))))))))"

section \<open>Blocks\<close>

primrec read_words :: "'h sd_host \<Rightarrow> nat \<Rightarrow> ('h, u8 list) sd_io" where
  "read_words host 0 = io_return []"
| "read_words host (Suc n) =
     io_bind (mm_read host REG_BUFFER) (\<lambda>w.
     io_bind (read_words host n) (\<lambda>rest. io_return (le32 w @ rest)))"

primrec write_words :: "'h sd_host \<Rightarrow> u8 list \<Rightarrow> nat \<Rightarrow> ('h, unit) sd_io" where
  "write_words host data 0 = io_return ()"
| "write_words host data (Suc n) =
     io_bind (mm_write host REG_BUFFER (rd32 (take 4 data))) (\<lambda>_. write_words host (drop 4 data) n)"

definition card_address :: "card \<Rightarrow> u32 \<Rightarrow> u32" where
  "card_address c lba = (if block_addressed c then lba else lba * 512)"

text \<open>The wait for a data-phase interrupt, its error check and its acknowledgement.\<close>

definition await_buffer :: "'h sd_host \<Rightarrow> nat \<Rightarrow> u32 \<Rightarrow> ('h, unit) sd_io" where
  "await_buffer host fuel ready_bit =
     io_bind (wait_while host fuel 200 (bits_clear host REG_INT_STATUS (ready_bit OR INT_ERROR_MASK))) (\<lambda>_.
     io_bind (mm_read host REG_INT_STATUS) (\<lambda>status.
       if status AND INT_ERROR_MASK \<noteq> 0 then
         io_bind (mm_write host REG_INT_STATUS 0xFFFFFFFF) (\<lambda>_. io_throw (Err (SdError status)))
       else mm_write host REG_INT_STATUS ready_bit))"

definition await_complete :: "'h sd_host \<Rightarrow> nat \<Rightarrow> ('h, unit) sd_io" where
  "await_complete host fuel =
     io_bind (wait_while host fuel 200 (bits_clear host REG_INT_STATUS (INT_TRANSFER_COMPLETE OR INT_ERROR_MASK))) (\<lambda>_.
       mm_write host REG_INT_STATUS INT_TRANSFER_COMPLETE)"

definition read_block :: "'h sd_host \<Rightarrow> nat \<Rightarrow> card \<Rightarrow> u32 \<Rightarrow> ('h, u8 list) sd_io" where
  "read_block host fuel c lba =
     io_bind (mm_write host REG_BLOCKSIZE_COUNT (512 OR push_bit 16 1)) (\<lambda>_.
     io_bind (send_command host fuel 17 (card_address c lba) R1 DirRead) (\<lambda>_.
     io_bind (await_buffer host fuel INT_BUFFER_READ_READY) (\<lambda>_.
     io_bind (read_words host 128) (\<lambda>out.
     io_bind (await_complete host fuel) (\<lambda>_. io_return out)))))"

definition write_block :: "'h sd_host \<Rightarrow> nat \<Rightarrow> card \<Rightarrow> u32 \<Rightarrow> u8 list \<Rightarrow> ('h, unit) sd_io" where
  "write_block host fuel c lba data =
     io_bind (mm_write host REG_BLOCKSIZE_COUNT (512 OR push_bit 16 1)) (\<lambda>_.
     io_bind (send_command host fuel 24 (card_address c lba) R1 DirWrite) (\<lambda>_.
     io_bind (await_buffer host fuel INT_BUFFER_WRITE_READY) (\<lambda>_.
     io_bind (write_words host data 128) (\<lambda>_.
       await_complete host fuel))))"

text \<open>The driver as the device operations the FAT32 code uses.\<close>

definition card_ops :: "'h sd_host \<Rightarrow> nat \<Rightarrow> card \<Rightarrow> 'h block_ops" where
  "card_ops host fuel c = \<lparr>op_read = read_block host fuel c, op_write = write_block host fuel c\<rparr>"

end
