(* ===== verification/Pm.thy ===== *)
theory Pm
  imports Sd Timer
begin

text \<open>
  \<^verbatim>\<open>src/src/pm.rs\<close>: the watchdog of the power-management block, over the same record of memory
  mapped operations as the SD driver. \<open>pm_reset\<close> is the register sequence of \<^verbatim>\<open>reset\<close>; what
  follows it in the source is an endless \<^verbatim>\<open>wfe\<close> loop.
\<close>

definition PM_BASE :: u64 where "PM_BASE = PERIPHERAL_BASE + 0x00100000"
definition PM_RSTC :: u64 where "PM_RSTC = PM_BASE + 0x1C"
definition PM_WDOG :: u64 where "PM_WDOG = PM_BASE + 0x24"
definition PM_PASSWORD :: u32 where "PM_PASSWORD = 0x5A000000"
definition PM_RSTC_WRCFG_FULL_RESET :: u32 where "PM_RSTC_WRCFG_FULL_RESET = 0x20"
definition PM_RSTC_WRCFG_MASK :: u32 where "PM_RSTC_WRCFG_MASK = 0x30"

lemmas pm_defs = PM_BASE_def PM_RSTC_def PM_WDOG_def PM_PASSWORD_def PM_RSTC_WRCFG_FULL_RESET_def
  PM_RSTC_WRCFG_MASK_def PERIPHERAL_BASE_def

definition pm_reset :: "'h sd_host \<Rightarrow> 'h \<Rightarrow> 'h" where
  "pm_reset host h =
     (let h1 = mmio_write host PM_WDOG (PM_PASSWORD OR 1) h;
          (rstc, h2) = mmio_read host PM_RSTC h1
      in mmio_write host PM_RSTC
           (PM_PASSWORD OR (rstc AND NOT PM_RSTC_WRCFG_MASK) OR PM_RSTC_WRCFG_FULL_RESET) h2)"

definition watchdog_ticks :: "u64 \<Rightarrow> u32" where
  "watchdog_ticks timeout_seconds = ucast (min (saturating_mul timeout_seconds 1000000 div 16) 0xFFFFF)"

definition set_watchdog :: "'h sd_host \<Rightarrow> u64 \<Rightarrow> 'h \<Rightarrow> 'h" where
  "set_watchdog host timeout_seconds h =
     (if timeout_seconds = 0 then
        (let (rstc, h1) = mmio_read host PM_RSTC h
         in mmio_write host PM_RSTC (PM_PASSWORD OR (rstc AND NOT PM_RSTC_WRCFG_MASK)) h1)
      else
        (let h1 = mmio_write host PM_WDOG (PM_PASSWORD OR watchdog_ticks timeout_seconds) h;
             (rstc, h2) = mmio_read host PM_RSTC h1
         in mmio_write host PM_RSTC
              (PM_PASSWORD OR (rstc AND NOT PM_RSTC_WRCFG_MASK) OR PM_RSTC_WRCFG_FULL_RESET) h2))"

section \<open>The countdown\<close>

lemma unat_watchdog_ticks: "unat (watchdog_ticks t) = min (unat t * 62500) 0xFFFFF"
proof -
  have small: "unat (ucast (min x 0xFFFFF) :: u32) = min (unat x) 0xFFFFF" for x :: u64
  proof (cases "x \<le> 0xFFFFF")
    case True
    then have "unat x \<le> 0xFFFFF" by (simp add: word_le_nat_alt)
    then show ?thesis using True by (simp add: min_def unsigned_ucast_eq take_bit_nat_eq_self)
  next
    case False
    then have "0xFFFFF < unat x" by (simp add: word_le_nat_alt)
    then show ?thesis using False by (simp add: min_def)
  qed
  show ?thesis
  proof (cases "unat t * 1000000 < 2 ^ 64")
    case True
    then have "unat (t * 1000000) = unat t * 1000000" by (simp add: unat_mult_in_range)
    then have "unat (saturating_mul t 1000000 div 16) = unat t * 62500"
      using True by (simp add: saturating_mul_def unat_div)
    then show ?thesis by (simp add: watchdog_ticks_def small)
  next
    case False
    then have "unat (saturating_mul t 1000000 div 16) = (2 ^ 64 - 1) div 16" by (simp add: saturating_mul_def unat_div unsigned_minus_1_eq_mask mask_eq_exp_minus_1)
    with False show ?thesis by (simp add: watchdog_ticks_def small)
  qed
qed

text \<open>A register file that returns what was written.\<close>

definition reg_host :: "(u64 \<Rightarrow> u32) sd_host" where
  "reg_host = \<lparr>mmio_read = (\<lambda>r h. (h r, h)), mmio_write = (\<lambda>r v h. h(r := v)), timer_ticks = (\<lambda>h. (0, h))\<rparr>"

lemma PM_WDOG_RSTC: "PM_WDOG \<noteq> PM_RSTC"
  by (simp add: pm_defs)

lemma password_ticks: "PM_PASSWORD OR watchdog_ticks t = PM_PASSWORD + of_nat (min (unat t * 62500) 0xFFFFF)"
proof -
  let ?w = "watchdog_ticks t"
  have t: "?w = of_nat (min (unat t * 62500) 0xFFFFF)"
    by (simp only: unat_watchdog_ticks[symmetric] of_nat_unat ucast_id)
  have "unat ?w < 2 ^ 20" by (simp add: unat_watchdog_ticks)
  then have "take_bit 20 ?w = ?w" by (simp add: word_unat_eq_iff unsigned_take_bit_eq take_bit_nat_eq_self)
  moreover have "PM_PASSWORD AND take_bit 20 ?w = take_bit 20 PM_PASSWORD AND take_bit 20 ?w"
    by (rule bit_word_eqI) (auto simp: bit_simps)
  ultimately have "PM_PASSWORD AND ?w = 0" by (simp add: PM_PASSWORD_def)
  then show ?thesis unfolding t[symmetric] by (simp add: disjunctive_add_eq_or)
qed

lemma wrcfg_bits:
  "(PM_PASSWORD OR (r AND NOT PM_RSTC_WRCFG_MASK) OR PM_RSTC_WRCFG_FULL_RESET) AND PM_RSTC_WRCFG_MASK = PM_RSTC_WRCFG_FULL_RESET"
  "(PM_PASSWORD OR (r AND NOT PM_RSTC_WRCFG_MASK)) AND PM_RSTC_WRCFG_MASK = 0"
  by (simp_all add: pm_defs bit.conj_disj_distrib2 and.assoc)

lemma set_watchdog_regs:
  "t \<noteq> 0 \<Longrightarrow> set_watchdog reg_host t h PM_WDOG = PM_PASSWORD OR watchdog_ticks t"
  "t \<noteq> 0 \<Longrightarrow> set_watchdog reg_host t h PM_RSTC =
     PM_PASSWORD OR (h PM_RSTC AND NOT PM_RSTC_WRCFG_MASK) OR PM_RSTC_WRCFG_FULL_RESET"
  "set_watchdog reg_host 0 h = h(PM_RSTC := PM_PASSWORD OR (h PM_RSTC AND NOT PM_RSTC_WRCFG_MASK))"
  using PM_WDOG_RSTC by (simp_all add: set_watchdog_def reg_host_def Let_def)

text \<open>
  Arming the watchdog programs a countdown of 62500 ticks per second into the low 20 bits of the
  watchdog register under the intact password byte, clamped at the field's maximum: every timeout of
  17 seconds or more is programmed as the same 16.8 seconds. Timeout 0 leaves the countdown alone and
  switches the reset action off.
\<close>

theorem watchdog_countdown:
  "(t \<noteq> 0 \<longrightarrow> set_watchdog reg_host t h PM_WDOG = PM_PASSWORD + of_nat (min (unat t * 62500) 0xFFFFF) \<and>
      (set_watchdog reg_host t h PM_RSTC AND PM_RSTC_WRCFG_MASK) = PM_RSTC_WRCFG_FULL_RESET) \<and>
   (17 \<le> t \<longrightarrow> set_watchdog reg_host t h PM_WDOG = set_watchdog reg_host 17 h PM_WDOG) \<and>
   set_watchdog reg_host 0 h PM_WDOG = h PM_WDOG \<and>
   (set_watchdog reg_host 0 h PM_RSTC AND PM_RSTC_WRCFG_MASK) = 0"
proof (intro conjI impI)
  assume "17 \<le> t"
  then have "17 \<le> unat t" "t \<noteq> 0" by (auto simp: word_le_nat_alt)
  then show "set_watchdog reg_host t h PM_WDOG = set_watchdog reg_host 17 h PM_WDOG"
    by (simp add: set_watchdog_regs password_ticks)
qed (use PM_WDOG_RSTC in \<open>simp_all add: set_watchdog_regs password_ticks wrcfg_bits\<close>)

theorem watchdog_countdown_witness:
  "set_watchdog reg_host 300 (\<lambda>_. 0) PM_WDOG = 0x5A0FFFFF"
proof -
  have "set_watchdog reg_host 300 (\<lambda>_. 0) PM_WDOG = PM_PASSWORD + of_nat (min (unat (300 :: u64) * 62500) 0xFFFFF)"
    using watchdog_countdown[of 300 "\<lambda>_. 0"] by (simp del: unat_numeral)
  then show ?thesis by (simp add: PM_PASSWORD_def)
qed

end
