(* ===== verification/Tables.thy ===== *)
theory Tables
  imports Ferro_Prelude
begin

text \<open>
  Two interfaces that several components of the firmware implement. The firmware has no heap, so
  handles, events, open files and variables live in fixed-size tables whose entries carry an
  \<^verbatim>\<open>in_use\<close> flag and are taken first-free; and it hands table positions out as opaque pointers,
  shifted by one so that position 0 is not the null pointer. The locales state what such a table
  and such an encoding promise; the components interpret them on their own definitions.
\<close>

section \<open>Fixed-capacity slot tables\<close>

text \<open>The index of the first free slot, as the \<^verbatim>\<open>for\<close> loops over the tables find it.\<close>

definition first_free :: "('a \<Rightarrow> bool) \<Rightarrow> 'a list \<Rightarrow> nat option" where
  "first_free used t = position (\<lambda>x. \<not> used x) t"

definition live :: "('a \<Rightarrow> bool) \<Rightarrow> 'a list \<Rightarrow> nat set" where
  "live used t = {i. i < length t \<and> used (t ! i)}"

locale slot_table =
  fixes used :: "'a \<Rightarrow> bool"
    and free :: "'a"
  assumes free_unused: "\<not> used free"
begin

lemma first_free_Some:
  "first_free used t = Some i \<Longrightarrow> i < length t \<and> \<not> used (t ! i) \<and> (\<forall>j < i. used (t ! j))"
  by (auto simp: first_free_def dest: position_SomeD)

lemma first_free_None: "first_free used t = None \<longleftrightarrow> live used t = {..<length t}"
  by (auto simp: first_free_def position_None_iff live_def all_set_conv_all_nth)

lemma live_take:
  "i < length t \<Longrightarrow> used x \<Longrightarrow> live used (t[i := x]) = insert i (live used t)"
  by (auto simp: live_def nth_list_update)

lemma live_release: "i < length t \<Longrightarrow> live used (t[i := free]) = live used t - {i}"
  using free_unused by (auto simp: live_def nth_list_update)

lemma card_live_take:
  assumes "first_free used t = Some i" "used x"
  shows "card (live used (t[i := x])) = Suc (card (live used t))"
proof -
  from assms(1) have i: "i < length t" "i \<notin> live used t"
    by (auto dest: first_free_Some simp: live_def)
  have "finite (live used t)" by (simp add: live_def)
  with i assms(2) show ?thesis by (simp add: live_take)
qed

lemma live_capacity: "card (live used t) \<le> length t"
proof -
  have "live used t \<subseteq> {..<length t}" by (auto simp: live_def)
  then have "card (live used t) \<le> card {..<length t}" by (rule card_mono[rotated]) simp
  then show ?thesis by simp
qed

lemma first_free_exists: "card (live used t) < length t \<Longrightarrow> \<exists>i. first_free used t = Some i"
  using first_free_None[of t] by (cases "first_free used t") auto

lemma all_free_replicate: "live used (replicate n free) = {}"
  using free_unused by (auto simp: live_def)

end

section \<open>Positions disguised as pointers\<close>

text \<open>
  \<open>decode\<close> is what a service does with a pointer a caller passes in, \<open>encode\<close> is what it hands
  out, \<open>cap\<close> is the capacity of the table behind it.
\<close>

locale handle_codec =
  fixes encode :: "nat \<Rightarrow> 64 word"
    and decode :: "64 word \<Rightarrow> nat option"
    and cap :: nat
  assumes decode_encode: "i < cap \<Longrightarrow> decode (encode i) = Some i"
    and decode_null: "decode 0 = None"
begin

lemma encode_not_null: "i < cap \<Longrightarrow> encode i \<noteq> 0"
  using decode_encode decode_null by force

lemma encode_inj: "i < cap \<Longrightarrow> j < cap \<Longrightarrow> encode i = encode j \<Longrightarrow> i = j"
  using decode_encode by (metis option.inject)

lemma encode_inj_on: "inj_on encode {..<cap}"
  using encode_inj by (auto simp: inj_on_def)

end

locale total_handle_codec = handle_codec +
  assumes decode_range: "decode p = Some i \<Longrightarrow> i < cap \<and> encode i = p"
begin

text \<open>A pointer that was never handed out is rejected instead of being used as an index.\<close>

lemma decode_rejects: "(\<And>i. i < cap \<Longrightarrow> p \<noteq> encode i) \<Longrightarrow> decode p = None"
  using decode_range by (cases "decode p") auto

end

section \<open>Keyed stores\<close>

text \<open>
  A bounded store addressed by keys: adding an entry under a fresh key makes it visible and
  disturbs no other key, or fails because the store is full. The variable store and the protocol
  database both promise this; filling a store with several entries is a client of it.
\<close>

primrec put_all :: "('s \<Rightarrow> 'k \<Rightarrow> 'v \<Rightarrow> 's option) \<Rightarrow> 's \<Rightarrow> ('k \<times> 'v) list \<Rightarrow> 's option" where
  "put_all put s [] = Some s"
| "put_all put s (kv # kvs) =
     (case put s (fst kv) (snd kv) of None \<Rightarrow> None | Some s' \<Rightarrow> put_all put s' kvs)"

locale keyed_store =
  fixes lookup :: "'s \<Rightarrow> 'k \<Rightarrow> 'v option"
    and put :: "'s \<Rightarrow> 'k \<Rightarrow> 'v \<Rightarrow> 's option"
    and invar :: "'s \<Rightarrow> bool"
    and valid :: "'k \<Rightarrow> 'v \<Rightarrow> bool"
  assumes put_fresh:
      "invar s \<Longrightarrow> valid k v \<Longrightarrow> lookup s k = None \<Longrightarrow> put s k v = Some s' \<Longrightarrow> lookup s' k = Some v"
    and put_frame: "invar s \<Longrightarrow> valid k v \<Longrightarrow> put s k v = Some s' \<Longrightarrow> k' \<noteq> k \<Longrightarrow> lookup s' k' = lookup s k'"
    and put_invar: "invar s \<Longrightarrow> valid k v \<Longrightarrow> put s k v = Some s' \<Longrightarrow> invar s'"
begin

lemma put_all_frame:
  "invar s \<Longrightarrow> \<forall>kv \<in> set kvs. valid (fst kv) (snd kv) \<Longrightarrow> put_all put s kvs = Some s' \<Longrightarrow>
   k \<notin> fst ` set kvs \<Longrightarrow> lookup s' k = lookup s k \<and> invar s'"
proof (induction kvs arbitrary: s)
  case Nil
  then show ?case by simp
next
  case (Cons kv kvs)
  then obtain s1 where s1: "put s (fst kv) (snd kv) = Some s1" "put_all put s1 kvs = Some s'"
    by (auto split: option.splits)
  with Cons.prems have "invar s1" by (auto intro: put_invar)
  with Cons s1 show ?case by (auto simp: put_frame[OF Cons.prems(1) _ s1(1)])
qed

lemma put_all_lookup:
  "invar s \<Longrightarrow> \<forall>kv \<in> set kvs. valid (fst kv) (snd kv) \<Longrightarrow> distinct (map fst kvs) \<Longrightarrow>
   \<forall>k \<in> fst ` set kvs. lookup s k = None \<Longrightarrow> put_all put s kvs = Some s' \<Longrightarrow>
   (k, v) \<in> set kvs \<Longrightarrow> lookup s' k = Some v"
proof (induction kvs arbitrary: s)
  case Nil
  then show ?case by simp
next
  case (Cons kv kvs)
  then obtain s1 where s1: "put s (fst kv) (snd kv) = Some s1" "put_all put s1 kvs = Some s'"
    by (auto split: option.splits)
  have val: "valid (fst kv) (snd kv)" using Cons.prems(2) by simp
  have inv1: "invar s1" by (rule put_invar[OF Cons.prems(1) val s1(1)])
  show ?case
  proof (cases "(k, v) = kv")
    case True
    have "lookup s1 (fst kv) = Some (snd kv)"
      by (rule put_fresh[OF Cons.prems(1) val _ s1(1)]) (use Cons.prems(4) in simp)
    moreover have "lookup s' (fst kv) = lookup s1 (fst kv)"
      using put_all_frame[OF inv1 _ s1(2), of "fst kv"] Cons.prems(2,3) by auto
    ultimately show ?thesis using True by auto
  next
    case False
    have "lookup s1 k' = None" if "k' \<in> fst ` set kvs" for k'
    proof -
      from that have "k' \<noteq> fst kv" using Cons.prems(3) by (metis distinct.simps(2) list.map(2) list.set_map)
      moreover from that have "lookup s k' = None" using Cons.prems(4) by auto
      ultimately
      show ?thesis using put_frame[OF Cons.prems(1) val s1(1)] by simp
    qed
    with False Cons.prems inv1 s1(2) show ?thesis by (intro Cons.IH[of s1]) auto
  qed
qed

end

text \<open>A store that also overwrites: adding a list of entries is the map update by that list.\<close>

locale overwriting_store = keyed_store +
  assumes put_same: "invar s \<Longrightarrow> valid k v \<Longrightarrow> put s k v = Some s' \<Longrightarrow> lookup s' k = Some v"
begin

lemma put_map: "invar s \<Longrightarrow> valid k v \<Longrightarrow> put s k v = Some s' \<Longrightarrow> lookup s' = (lookup s)(k \<mapsto> v)"
  using put_same put_frame by (intro ext) (auto simp: fun_upd_def)

lemma put_all_map:
  "invar s \<Longrightarrow> \<forall>kv \<in> set kvs. valid (fst kv) (snd kv) \<Longrightarrow> put_all put s kvs = Some s' \<Longrightarrow>
   invar s' \<and> lookup s' = lookup s ++ map_of (rev kvs)"
proof (induction kvs arbitrary: s)
  case Nil
  then show ?case by simp
next
  case (Cons kv kvs)
  then obtain s1 where s1: "put s (fst kv) (snd kv) = Some s1" "put_all put s1 kvs = Some s'"
    by (auto split: option.splits)
  have val: "valid (fst kv) (snd kv)" using Cons.prems(2) by simp
  have "invar s' \<and> lookup s' = lookup s1 ++ map_of (rev kvs)"
    using put_invar[OF Cons.prems(1) val s1(1)] Cons.prems(2) s1(2) by (intro Cons.IH) auto
  moreover have "lookup s1 = lookup s ++ map_of [kv]"
    using put_map[OF Cons.prems(1) val s1(1)] by (cases kv) (auto simp: map_add_def)
  ultimately show ?case by (simp add: map_add_assoc)
qed

end

end
