(* ===== verification/Events.thy ===== *)
theory Events
  imports Efi_Types Tables Timer
begin

text \<open>
  \<^verbatim>\<open>src/src/efi/events.rs\<close>: the event table behind CreateEvent, SetTimer, SignalEvent, CheckEvent,
  WaitForEvent and CloseEvent. The world an operation acts on holds the table, the tick counter and
  the rest of the machine (\<open>ev_rest\<close>). A notification function is a pointer to code of the caller:
  \<open>notify\<close> says what calling it does to the world. \<open>key_available\<close> is the console's poll, which may
  change the rest of the machine (it consumes input).
\<close>

section \<open>State\<close>

definition MAX_EVENTS :: nat where "MAX_EVENTS = 16"

definition EVT_TIMER :: u32 where "EVT_TIMER = 0x80000000"
definition TIMER_CANCEL :: u32 where "TIMER_CANCEL = 0"
definition TIMER_PERIODIC :: u32 where "TIMER_PERIODIC = 1"
definition TIMER_RELATIVE :: u32 where "TIMER_RELATIVE = 2"

datatype event_kind = Generic | TimerEvent | ConsoleIn

record event_slot =
  e_in_use :: bool
  e_kind :: event_kind
  e_signaled :: bool
  e_notify_fn :: "addr option"
  e_notify_ctx :: addr
  e_deadline :: u64
  e_period :: u64

definition EMPTY_EVENT :: event_slot where
  "EMPTY_EVENT = \<lparr>e_in_use = False, e_kind = Generic, e_signaled = False, e_notify_fn = None,
     e_notify_ctx = 0, e_deadline = 0, e_period = 0\<rparr>"

record 'e ev_world =
  ev_slots :: "event_slot list"
  ev_timer :: timer_state
  ev_rest :: 'e

type_synonym 'e notify = "addr \<Rightarrow> efi_event \<Rightarrow> addr \<Rightarrow> 'e ev_world \<Rightarrow> 'e ev_world"
type_synonym 'e key_poll = "'e \<Rightarrow> bool \<times> 'e"

definition EVENTS_INIT :: "event_slot list" where
  "EVENTS_INIT = replicate MAX_EVENTS EMPTY_EVENT"

abbreviation upd_slot :: "nat \<Rightarrow> (event_slot \<Rightarrow> event_slot) \<Rightarrow> 'e ev_world \<Rightarrow> 'e ev_world" where
  "upd_slot i f w \<equiv> w\<lparr>ev_slots := (ev_slots w)[i := f (ev_slots w ! i)]\<rparr>"

abbreviation ev_now :: "'e ev_world \<Rightarrow> u64" where
  "ev_now w \<equiv> tm_ticks (ev_timer w)"

section \<open>Operations\<close>

definition index_to_event :: "nat \<Rightarrow> efi_event" where
  "index_to_event i = of_nat (i + 1)"

definition event_to_index :: "efi_event \<Rightarrow> nat option" where
  "event_to_index e =
     (let raw = unat e in if raw = 0 \<or> raw > MAX_EVENTS then None else Some (raw - 1))"

definition ev_create ::
  "'e ev_world \<Rightarrow> event_kind \<Rightarrow> addr option \<Rightarrow> addr \<Rightarrow> efi_event option \<times> 'e ev_world" where
  "ev_create w kind notify_fn notify_ctx =
     (case first_free e_in_use (ev_slots w) of
        Some i \<Rightarrow>
          (Some (index_to_event i),
           upd_slot i (\<lambda>_. EMPTY_EVENT\<lparr>e_in_use := True, e_kind := kind, e_notify_fn := notify_fn,
                             e_notify_ctx := notify_ctx\<rparr>) w)
      | None \<Rightarrow> (None, w))"

definition ev_close :: "'e ev_world \<Rightarrow> efi_event \<Rightarrow> efi_status \<times> 'e ev_world" where
  "ev_close w event =
     (case event_to_index event of
        None \<Rightarrow> (EFI_INVALID_PARAMETER, w)
      | Some i \<Rightarrow>
          if \<not> e_in_use (ev_slots w ! i) then (EFI_INVALID_PARAMETER, w)
          else (EFI_SUCCESS, upd_slot i (\<lambda>_. EMPTY_EVENT) w))"

definition ev_set_timer ::
  "u64 \<Rightarrow> 'e ev_world \<Rightarrow> efi_event \<Rightarrow> u32 \<Rightarrow> u64 \<Rightarrow> (efi_status \<times> 'e ev_world) checked" where
  "ev_set_timer freq w event timer_type trigger_time_100ns =
     (case event_to_index event of
        None \<Rightarrow> Inr (EFI_INVALID_PARAMETER, w)
      | Some i \<Rightarrow>
          if \<not> e_in_use (ev_slots w ! i) then Inr (EFI_INVALID_PARAMETER, w)
          else if timer_type = TIMER_CANCEL then
            Inr (EFI_SUCCESS, upd_slot i (\<lambda>e. e\<lparr>e_period := 0, e_deadline := 0\<rparr>) w)
          else
            (case micros_to_ticks freq (ev_timer w) (trigger_time_100ns div 10) of
               Inl f \<Rightarrow> Inl f
             | Inr ticks \<Rightarrow>
                 Inr (EFI_SUCCESS, upd_slot i (\<lambda>e. e\<lparr>e_deadline := ev_now w + ticks,
                   e_period := (if timer_type = TIMER_PERIODIC then max ticks 1 else 0)\<rparr>) w)))"

text \<open>Calling the notification function, if the slot has one.\<close>

definition fire :: "'e notify \<Rightarrow> nat \<Rightarrow> efi_event \<Rightarrow> 'e ev_world \<Rightarrow> 'e ev_world" where
  "fire notify i event w =
     (case e_notify_fn (ev_slots w ! i) of
        None \<Rightarrow> w
      | Some f \<Rightarrow> notify f event (e_notify_ctx (ev_slots w ! i)) w)"

definition ev_signal :: "'e notify \<Rightarrow> 'e ev_world \<Rightarrow> efi_event \<Rightarrow> efi_status \<times> 'e ev_world" where
  "ev_signal notify w event =
     (case event_to_index event of
        None \<Rightarrow> (EFI_INVALID_PARAMETER, w)
      | Some i \<Rightarrow>
          if \<not> e_in_use (ev_slots w ! i) then (EFI_INVALID_PARAMETER, w)
          else (EFI_SUCCESS, fire notify i event (upd_slot i (\<lambda>e. e\<lparr>e_signaled := True\<rparr>) w)))"

definition condition_met ::
  "'e notify \<Rightarrow> 'e key_poll \<Rightarrow> 'e ev_world \<Rightarrow> nat \<Rightarrow> bool \<times> 'e ev_world" where
  "condition_met notify key_available w i =
     (let e = ev_slots w ! i in
      case e_kind e of
        Generic \<Rightarrow> (e_signaled e, w)
      | TimerEvent \<Rightarrow>
          if e_deadline e = 0 \<and> e_period e = 0 then (False, w)
          else if ev_now w \<ge> e_deadline e then
            (True, fire notify i (index_to_event i)
               (upd_slot i (\<lambda>e. e\<lparr>e_deadline := (if e_period e > 0 then ev_now w + e_period e else 0)\<rparr>) w))
          else (False, w)
      | ConsoleIn \<Rightarrow> (case key_available (ev_rest w) of (b, r) \<Rightarrow> (b, w\<lparr>ev_rest := r\<rparr>)))"

text \<open>The clearing of a generic event's flag after its condition was seen to hold.\<close>

definition clear_generic :: "nat \<Rightarrow> 'e ev_world \<Rightarrow> 'e ev_world" where
  "clear_generic i w =
     (if e_kind (ev_slots w ! i) = Generic then upd_slot i (\<lambda>e. e\<lparr>e_signaled := False\<rparr>) w else w)"

definition ev_check ::
  "'e notify \<Rightarrow> 'e key_poll \<Rightarrow> 'e ev_world \<Rightarrow> efi_event \<Rightarrow> efi_status \<times> 'e ev_world" where
  "ev_check notify key_available w event =
     (case event_to_index event of
        None \<Rightarrow> (EFI_INVALID_PARAMETER, w)
      | Some i \<Rightarrow>
          if \<not> e_in_use (ev_slots w ! i) then (EFI_INVALID_PARAMETER, w)
          else
            (case condition_met notify key_available w i of
               (True, w') \<Rightarrow> (EFI_SUCCESS, clear_generic i w')
             | (False, w') \<Rightarrow> (EFI_NOT_READY, w')))"

text \<open>One pass of the \<^verbatim>\<open>for\<close> loop of \<^verbatim>\<open>wait\<close>; \<open>idx\<close> is the position in the caller's list.\<close>

fun wait_scan ::
  "'e notify \<Rightarrow> 'e key_poll \<Rightarrow> nat \<Rightarrow> efi_event list \<Rightarrow> 'e ev_world \<Rightarrow> nat option \<times> 'e ev_world" where
  "wait_scan notify key_available idx [] w = (None, w)"
| "wait_scan notify key_available idx (e # es) w =
     (let i = the (event_to_index e) in
      case condition_met notify key_available w i of
        (True, w') \<Rightarrow> (Some idx, clear_generic i w')
      | (False, w') \<Rightarrow> wait_scan notify key_available (idx + 1) es w')"

text \<open>
  The endless loop: \<open>wakeups\<close> says what the world does during each \<^verbatim>\<open>wfe\<close> (timer interrupts for
  instance); \<open>OutOfFuel\<close> is a wait that is still going on when the list ends.
\<close>

fun wait_loop ::
  "'e notify \<Rightarrow> 'e key_poll \<Rightarrow> ('e ev_world \<Rightarrow> 'e ev_world) list \<Rightarrow> efi_event list \<Rightarrow> 'e ev_world \<Rightarrow>
   (efi_status fault + nat) \<times> 'e ev_world" where
  "wait_loop notify key_available wakeups es w =
     (case wait_scan notify key_available 0 es w of
        (Some idx, w') \<Rightarrow> (Inr idx, w')
      | (None, w') \<Rightarrow>
          (case wakeups of
             [] \<Rightarrow> (Inl OutOfFuel, w')
           | f # fs \<Rightarrow> wait_loop notify key_available fs es (f w')))"

declare wait_loop.simps [simp del]

definition ev_wait ::
  "'e notify \<Rightarrow> 'e key_poll \<Rightarrow> ('e ev_world \<Rightarrow> 'e ev_world) list \<Rightarrow> efi_event list \<Rightarrow> 'e ev_world \<Rightarrow>
   (efi_status fault + nat) \<times> 'e ev_world" where
  "ev_wait notify key_available wakeups es w =
     (if es = [] then (Inl (Err EFI_INVALID_PARAMETER), w)
      else if \<exists>e \<in> set es. event_to_index e = None then (Inl (Err EFI_INVALID_PARAMETER), w)
      else wait_loop notify key_available wakeups es w)"

section \<open>Interfaces\<close>

definition ev_inv :: "'e ev_world \<Rightarrow> bool" where
  "ev_inv w \<longleftrightarrow> length (ev_slots w) = MAX_EVENTS"

interpretation event_slots: slot_table e_in_use EMPTY_EVENT
  by unfold_locales (simp add: EMPTY_EVENT_def)

interpretation event_codec: total_handle_codec index_to_event event_to_index MAX_EVENTS
proof
  fix i :: nat and p :: u64
  show "i < MAX_EVENTS \<Longrightarrow> event_to_index (index_to_event i) = Some i"
    by (simp add: event_to_index_def index_to_event_def MAX_EVENTS_def unat_word_ariths unat_of_nat Let_def)
  show "event_to_index 0 = None" by (simp add: event_to_index_def)
  assume "event_to_index p = Some i"
  then have "unat p = i + 1" "i < MAX_EVENTS"
    by (auto simp: event_to_index_def Let_def split: if_splits)
  moreover have "of_nat (unat p) = p" by simp
  ultimately show "i < MAX_EVENTS \<and> index_to_event i = p"
    by (simp add: index_to_event_def del: of_nat_add)
qed

text \<open>The slot an event token stands for, when the token is one that is currently issued.\<close>

definition live_event :: "'e ev_world \<Rightarrow> efi_event \<Rightarrow> nat option" where
  "live_event w event =
     (case event_to_index event of
        None \<Rightarrow> None
      | Some i \<Rightarrow> if e_in_use (ev_slots w ! i) then Some i else None)"

lemma live_eventD:
  assumes "live_event w event = Some i" "ev_inv w"
  shows "event_to_index event = Some i" "e_in_use (ev_slots w ! i)" "i < length (ev_slots w)"
    "i < MAX_EVENTS" "index_to_event i = event"
  using assms event_codec.decode_range[of event i]
  by (auto simp: live_event_def ev_inv_def split: option.splits if_splits)

section \<open>Properties\<close>

text \<open>
  Every event service validates its token: a pointer that was never issued, or whose event was
  closed, is answered with InvalidParameter and changes nothing.
\<close>

theorem event_services_validate:
  assumes "live_event w event = None"
  shows "ev_close w event = (EFI_INVALID_PARAMETER, w) \<and>
    ev_set_timer freq w event kind trigger = Inr (EFI_INVALID_PARAMETER, w) \<and>
    ev_signal notify w event = (EFI_INVALID_PARAMETER, w) \<and>
    ev_check notify key_available w event = (EFI_INVALID_PARAMETER, w)"
  using assms
  by (auto simp: live_event_def ev_close_def ev_set_timer_def ev_signal_def ev_check_def
      split: option.splits if_splits)

definition demo_world :: "unit ev_world" where
  "demo_world = \<lparr>ev_slots = EVENTS_INIT, ev_timer = \<lparr>tm_ticks = 100, tick_interval = 625000\<rparr>, ev_rest = ()\<rparr>"

theorem event_services_validate_witness:
  "ev_signal (\<lambda>_ _ _ w. w) demo_world 3 = (EFI_INVALID_PARAMETER, demo_world)"
proof -
  have "live_event demo_world 3 = None"
    by (simp add: live_event_def event_to_index_def MAX_EVENTS_def demo_world_def EVENTS_INIT_def EMPTY_EVENT_def)
  from event_services_validate[OF this] show ?thesis by simp
qed

text \<open>Notification code that leaves the event table alone.\<close>

definition keeps_table :: "'e notify \<Rightarrow> bool" where
  "keeps_table notify \<longleftrightarrow> (\<forall>f e c w. ev_slots (notify f e c w) = ev_slots w \<and> ev_timer (notify f e c w) = ev_timer w)"

lemma fire_slots:
  "keeps_table notify \<Longrightarrow> ev_slots (fire notify i e w) = ev_slots w \<and> ev_timer (fire notify i e w) = ev_timer w"
  by (simp add: fire_def keeps_table_def split: option.split)

lemma live_event_upd:
  assumes "live_event w event = Some i" "ev_inv w" "ev_slots w' = (ev_slots w)[i := x]" "e_in_use x"
  shows "live_event w' event = Some i" "ev_inv w'" "ev_slots w' ! i = x"
  using assms live_eventD[OF assms(1,2)] by (simp_all add: live_event_def ev_inv_def)

lemma ev_check_live:
  assumes "live_event w event = Some i" "ev_inv w"
  shows "ev_check notify key w event =
    (case condition_met notify key w i of
       (True, w') \<Rightarrow> (EFI_SUCCESS, clear_generic i w') | (False, w') \<Rightarrow> (EFI_NOT_READY, w'))"
  using live_eventD[OF assms] by (simp add: ev_check_def)

text \<open>
  A manually signalled event is consumed by one check: after SignalEvent, CheckEvent succeeds
  once and a second CheckEvent answers NotReady.
\<close>

theorem signal_consumed_once:
  assumes live: "live_event w event = Some i" and inv: "ev_inv w"
    and kind: "e_kind (ev_slots w ! i) = Generic" and notify: "keeps_table notify"
  shows "case ev_signal notify w event of (st, w1) \<Rightarrow> st = EFI_SUCCESS \<and>
    (case ev_check notify key w1 event of (st1, w2) \<Rightarrow> st1 = EFI_SUCCESS \<and>
      fst (ev_check notify key w2 event) = EFI_NOT_READY)"
proof -
  let ?e = "ev_slots w ! i"
  note L = live_eventD[OF live inv]
  obtain w1 where w1: "ev_signal notify w event = (EFI_SUCCESS, w1)"
    "ev_slots w1 = (ev_slots w)[i := ?e\<lparr>e_signaled := True\<rparr>]"
    using L by (auto simp: ev_signal_def fire_slots[OF notify])
  note U = live_event_upd[OF live inv w1(2)]
  have c1: "ev_check notify key w1 event = (EFI_SUCCESS, clear_generic i w1)"
    using ev_check_live[OF U(1,2), of notify key] U(3) L kind by (simp add: condition_met_def)
  have s2: "ev_slots (clear_generic i w1) = (ev_slots w1)[i := ?e\<lparr>e_signaled := False\<rparr>]"
    using U(3) L kind by (simp add: clear_generic_def)
  have "live_event w1 event = Some i" "ev_inv w1" using U L by simp_all
  note V = live_event_upd[OF this s2]
  have "fst (ev_check notify key (clear_generic i w1) event) = EFI_NOT_READY"
    using ev_check_live[OF V(1,2), of notify key] V(3) L kind by (simp add: condition_met_def)
  with w1 c1 show ?thesis by simp
qed

definition demo_event_world :: "unit ev_world" where
  "demo_event_world = demo_world\<lparr>ev_slots := EMPTY_EVENT\<lparr>e_in_use := True\<rparr> #
     EMPTY_EVENT\<lparr>e_in_use := True, e_kind := TimerEvent\<rparr> # replicate 14 EMPTY_EVENT\<rparr>"

lemma demo_events:
  "live_event demo_event_world 1 = Some 0" "live_event demo_event_world 2 = Some 1" "ev_inv demo_event_world"
  "e_kind (ev_slots demo_event_world ! 0) = Generic" "e_kind (ev_slots demo_event_world ! 1) = TimerEvent"
  "keeps_table (\<lambda>_ _ _ w. w)" "ev_timer demo_event_world = \<lparr>tm_ticks = 100, tick_interval = 625000\<rparr>"
  by (simp_all add: live_event_def event_to_index_def MAX_EVENTS_def demo_event_world_def EMPTY_EVENT_def
      ev_inv_def keeps_table_def demo_world_def)

theorem signal_consumed_once_witness:
  "case ev_signal (\<lambda>_ _ _ w. w) demo_event_world 1 of (st, w1) \<Rightarrow> st = EFI_SUCCESS \<and>
    (case ev_check (\<lambda>_ _ _ w. w) (\<lambda>r. (False, r)) w1 1 of (st1, w2) \<Rightarrow> st1 = EFI_SUCCESS \<and>
      fst (ev_check (\<lambda>_ _ _ w. w) (\<lambda>r. (False, r)) w2 1) = EFI_NOT_READY)"
  by (rule signal_consumed_once[OF demo_events(1,3,4,6)])

text \<open>The world when the tick counter reads \<open>t\<close>.\<close>

definition at_tick :: "u64 \<Rightarrow> 'e ev_world \<Rightarrow> 'e ev_world" where
  "at_tick t w = w\<lparr>ev_timer := (ev_timer w)\<lparr>tm_ticks := t\<rparr>\<rparr>"

lemma at_tick_simps [simp]:
  "ev_slots (at_tick t w) = ev_slots w" "ev_now (at_tick t w) = t"
  "live_event (at_tick t w) event = live_event w event" "ev_inv (at_tick t w) = ev_inv w"
  by (simp_all add: at_tick_def live_event_def ev_inv_def split: option.split)

lemma check_timer:
  assumes live: "live_event w event = Some i" and inv: "ev_inv w"
    and kind: "e_kind (ev_slots w ! i) = TimerEvent" and notify: "keeps_table notify"
    and armed: "e_deadline (ev_slots w ! i) \<noteq> 0 \<or> e_period (ev_slots w ! i) \<noteq> 0"
  shows "case ev_check notify key (at_tick t w) event of (st, w') \<Rightarrow>
     if t < e_deadline (ev_slots w ! i) then st = EFI_NOT_READY \<and> ev_slots w' = ev_slots w
     else st = EFI_SUCCESS \<and> ev_slots w' = (ev_slots w)[i := (ev_slots w ! i)\<lparr>e_deadline :=
       (if e_period (ev_slots w ! i) > 0 then t + e_period (ev_slots w ! i) else 0)\<rparr>]"
  using live_eventD[OF live inv] kind armed
    ev_check_live[of "at_tick t w" event i notify key] live inv
  by (auto simp: condition_met_def Let_def clear_generic_def fire_slots[OF notify] not_less)

text \<open>
  C39: a one-shot timer: armed for n ticks from now it is NotReady at every tick before the
  deadline, ready at any tick from the deadline on, and once it has been seen ready it is NotReady
  at every later time until it is armed again (when the deadline is not the zero tick).
\<close>

theorem one_shot_timer_fires_once:
  assumes live: "live_event w event = Some i" and inv: "ev_inv w"
    and kind: "e_kind (ev_slots w ! i) = TimerEvent" and notify: "keeps_table notify"
    and arm: "ev_set_timer freq w event TIMER_RELATIVE trigger = Inr (st, w1)"
    and ticks: "micros_to_ticks freq (ev_timer w) (trigger div 10) = Inr n" and nz: "ev_now w + n \<noteq> 0"
  shows "st = EFI_SUCCESS \<and>
    (\<forall>t. case ev_check notify key (at_tick t w1) event of (st1, w2) \<Rightarrow>
       if t < ev_now w + n then st1 = EFI_NOT_READY \<and> ev_slots w2 = ev_slots w1
       else st1 = EFI_SUCCESS \<and> (\<forall>t'. fst (ev_check notify key (at_tick t' w2) event) = EFI_NOT_READY))"
proof -
  note L = live_eventD[OF live inv]
  let ?e = "(ev_slots w ! i)\<lparr>e_deadline := ev_now w + n, e_period := 0\<rparr>"
  have w1: "st = EFI_SUCCESS" "ev_slots w1 = (ev_slots w)[i := ?e]"
    using arm L ticks by (auto simp: ev_set_timer_def TIMER_RELATIVE_def TIMER_CANCEL_def TIMER_PERIODIC_def)
  note U = live_event_upd[OF live inv w1(2)]
  have off: "fst (ev_check notify key (at_tick t' w2) event) = EFI_NOT_READY"
    if "ev_slots w2 = (ev_slots w1)[i := ?e\<lparr>e_deadline := 0\<rparr>]" for t' w2
  proof -
    note V = live_event_upd[OF U(1,2) that]
    show ?thesis
      using ev_check_live[of "at_tick t' w2" event i notify key] V L kind
      by (simp add: condition_met_def)
  qed
  have "case ev_check notify key (at_tick t w1) event of (st1, w2) \<Rightarrow>
       if t < ev_now w + n then st1 = EFI_NOT_READY \<and> ev_slots w2 = ev_slots w1
       else st1 = EFI_SUCCESS \<and> (\<forall>t'. fst (ev_check notify key (at_tick t' w2) event) = EFI_NOT_READY)" for t
    using check_timer[OF U(1,2) _ notify, where key = key and t = t] U(3) L kind nz off
    by (auto split: prod.splits if_splits)
  with w1(1) show ?thesis by blast
qed

theorem one_shot_timer_fires_once_witness:
  "\<exists>w1. ev_set_timer 62500000 demo_event_world 2 TIMER_RELATIVE 250000 = Inr (EFI_SUCCESS, w1) \<and>
     fst (ev_check (\<lambda>_ _ _ w. w) (\<lambda>r. (False, r)) (at_tick 102 w1) 2) = EFI_NOT_READY \<and>
     fst (ev_check (\<lambda>_ _ _ w. w) (\<lambda>r. (False, r)) (at_tick 103 w1) 2) = EFI_SUCCESS"
proof -
  have mt: "micros_to_ticks 62500000 (ev_timer demo_event_world) (250000 div 10) = Inr 3"
    by (simp add: demo_events micros_to_ticks_def saturating_mul_def Let_def interval_max)
  obtain w1 where w1: "ev_set_timer 62500000 demo_event_world 2 TIMER_RELATIVE 250000 = Inr (EFI_SUCCESS, w1)"
    using live_eventD[OF demo_events(2,3)] mt by (auto simp: ev_set_timer_def TIMER_RELATIVE_def TIMER_CANCEL_def)
  have nz: "ev_now demo_event_world + 3 \<noteq> 0" by (simp add: demo_events)
  note T = one_shot_timer_fires_once[OF demo_events(2,3,5,6) w1 mt nz, of "\<lambda>r. (False, r)", THEN conjunct2]
  from T[THEN spec, of 102] T[THEN spec, of 103] w1 show ?thesis
    by (simp add: demo_events split: prod.splits)
qed

section \<open>Waiting\<close>

lemma condition_false:
  assumes "condition_met notify key w i = (False, w')"
  shows "ev_slots w' = ev_slots w \<and> ev_timer w' = ev_timer w \<and>
    (e_kind (ev_slots w ! i) = TimerEvent \<longrightarrow> e_deadline (ev_slots w ! i) \<noteq> 0 \<longrightarrow>
      ev_now w < e_deadline (ev_slots w ! i))"
  using assms by (auto simp: condition_met_def Let_def split: event_kind.splits if_splits prod.splits)

lemma wait_scan_None:
  "wait_scan notify key idx es w = (None, w') \<Longrightarrow>
   ev_slots w' = ev_slots w \<and> ev_timer w' = ev_timer w \<and>
   (\<forall>e \<in> set es. e_kind (ev_slots w ! the (event_to_index e)) = TimerEvent \<longrightarrow>
     e_deadline (ev_slots w ! the (event_to_index e)) \<noteq> 0 \<longrightarrow>
     ev_now w < e_deadline (ev_slots w ! the (event_to_index e)))"
proof (induction es arbitrary: idx w)
  case Nil
  then show ?case by simp
next
  case (Cons e es)
  obtain b w1 where c: "condition_met notify key w (the (event_to_index e)) = (b, w1)" by fastforce
  with Cons.prems have "b = False" "wait_scan notify key (idx + 1) es w1 = (None, w')"
    by (auto simp: Let_def split: bool.splits)
  with Cons.IH[of "idx + 1" w1] condition_false[of notify key w "the (event_to_index e)" w1] c show ?case by auto
qed

lemma wait_scan_Some:
  "wait_scan notify key idx es w = (Some j, w') \<Longrightarrow> idx \<le> j \<and> j < idx + length es"
  by (induction es arbitrary: idx w) (fastforce simp: Let_def split: bool.splits prod.splits)+

text \<open>A wake-up of the core, by the timer interrupt or for another reason.\<close>

definition wake :: "bool \<Rightarrow> 'e ev_world \<Rightarrow> 'e ev_world" where
  "wake tick w = (if tick then w\<lparr>ev_timer := on_tick (ev_timer w)\<rparr> else w)"

lemma wait_loop_timer:
  assumes "event \<in> set es" "event_to_index event = Some i" "e_kind (ev_slots w ! i) = TimerEvent"
    "e_deadline (ev_slots w ! i) = d" "d \<noteq> 0"
    "unat d - unat (ev_now w) \<le> length (filter (\<lambda>t. t) ticks)"
  shows "\<exists>idx w'. wait_loop notify key (map wake ticks) es w = (Inr idx, w') \<and> idx < length es"
  using assms
proof (induction ticks arbitrary: w)
  case Nil
  have "\<not> ev_now w < d" using Nil by (simp add: word_less_nat_alt)
  then have "fst (wait_scan notify key 0 es w) \<noteq> None"
    using wait_scan_None[of notify key 0 es w] Nil by (cases "wait_scan notify key 0 es w") fastforce
  then show ?case
    using wait_scan_Some[of notify key 0 es w]
    by (subst wait_loop.simps) (auto split: prod.splits option.splits)
next
  case (Cons t ticks)
  obtain r w1 where s: "wait_scan notify key 0 es w = (r, w1)" by fastforce
  show ?case
  proof (cases r)
    case (Some j)
    with s wait_scan_Some[of notify key 0 es w j w1] show ?thesis by (subst wait_loop.simps) simp
  next
    case None
    note N = wait_scan_None[OF s[unfolded None]]
    have lt: "ev_now w < d" using N Cons.prems by force
    have nxt: "unat (ev_now w + 1) = unat (ev_now w) + 1"
      using lt unat_bound[of d] by (simp add: word_less_nat_alt unat_word_ariths)
    have "unat d - unat (ev_now (wake t w1)) \<le> length (filter (\<lambda>t. t) ticks)"
      using Cons.prems(6) N nxt by (cases t) (simp_all add: wake_def on_tick_def)
    moreover have "ev_slots (wake t w1) = ev_slots w" using N by (simp add: wake_def)
    ultimately have "\<exists>idx w'. wait_loop notify key (map wake ticks) es (wake t w1) = (Inr idx, w') \<and> idx < length es"
      using Cons.prems by (intro Cons.IH) simp_all
    then show ?thesis using s None by (subst wait_loop.simps) simp
  qed
qed

text \<open>
  C38: WaitForEvent makes progress: if one of the events is a timer that is armed for tick d, the
  wait returns, with the position of one of the caller's events, no later than when the wake-ups
  have brought the timer interrupts that were missing to d.
\<close>

theorem wait_returns_by_deadline:
  assumes "\<forall>e \<in> set es. event_to_index e \<noteq> None"
    and "event \<in> set es" and "event_to_index event = Some i"
    and "e_kind (ev_slots w ! i) = TimerEvent" and "e_deadline (ev_slots w ! i) = d" and "d \<noteq> 0"
    and "unat d - unat (ev_now w) \<le> length (filter (\<lambda>t. t) ticks)"
  shows "\<exists>idx w'. ev_wait notify key (map wake ticks) es w = (Inr idx, w') \<and> idx < length es"
proof -
  have "es \<noteq> []" using assms(2) by auto
  with wait_loop_timer[OF assms(2-7)] assms(1) show ?thesis by (auto simp: ev_wait_def)
qed

theorem wait_returns_by_deadline_witness:
  "\<exists>idx w'. ev_wait (\<lambda>_ _ _ w. w) (\<lambda>r. (False, r)) (map wake [True, False, True, True]) [1, 2]
      (upd_slot 1 (\<lambda>e. e\<lparr>e_deadline := 103\<rparr>) demo_event_world) = (Inr idx, w') \<and> idx < length [1 :: efi_event, 2]"
proof (rule wait_returns_by_deadline)
  let ?w = "upd_slot 1 (\<lambda>e. e\<lparr>e_deadline := 103\<rparr>) demo_event_world"
  show "(2 :: efi_event) \<in> set [1, 2]" by simp
  show "event_to_index 2 = Some 1" "\<forall>e \<in> set [1, 2]. event_to_index e \<noteq> None"
    by (simp_all add: event_to_index_def MAX_EVENTS_def)
  show "e_kind (ev_slots ?w ! 1) = TimerEvent" "e_deadline (ev_slots ?w ! 1) = 103"
    by (simp_all add: demo_event_world_def)
  show "unat (103 :: u64) - unat (ev_now ?w) \<le> length (filter (\<lambda>t. t) [True, False, True, True])"
    by (simp add: demo_events)
qed simp

text \<open>
  WaitForEvent, alone among the event services, does not check that the event is live: waiting
  on an event that was closed never returns, whatever the wake-ups do short of changing the table.
\<close>

theorem wait_on_closed_event_hangs:
  assumes idx: "event_to_index event = Some i" and closed: "ev_slots w ! i = EMPTY_EVENT"
    and wakeups: "\<forall>f \<in> set wakeups. \<forall>w. ev_slots (f w) = ev_slots w"
  shows "fst (ev_wait notify key wakeups [event] w) = Inl OutOfFuel"
proof -
  have scan: "wait_scan notify key 0 [event] w = (None, w)" if "ev_slots w ! i = EMPTY_EVENT" for w
    using that by (simp add: idx condition_met_def EMPTY_EVENT_def)
  have "fst (wait_loop notify key wakeups [event] w) = Inl OutOfFuel"
    using closed wakeups
  proof (induction wakeups arbitrary: w)
    case Nil
    then show ?case using scan[of w] by (subst wait_loop.simps) simp
  next
    case (Cons f fs)
    then show ?case using scan[of w] Cons.IH[of "f w"] by (subst wait_loop.simps) simp
  qed
  then show ?thesis by (simp add: ev_wait_def idx)
qed

theorem wait_on_closed_event_hangs_witness:
  "fst (ev_wait (\<lambda>_ _ _ w. w) (\<lambda>r. (False, r)) (map wake (replicate 1000 True)) [5] demo_event_world) = Inl OutOfFuel"
proof -
  have "event_to_index 5 = Some 4" by (simp add: event_to_index_def MAX_EVENTS_def)
  moreover have "ev_slots demo_event_world ! 4 = EMPTY_EVENT" by (simp add: demo_event_world_def nth_Cons')
  moreover have "\<forall>f \<in> set (map wake (replicate 1000 True)). \<forall>w. ev_slots (f w) = ev_slots (w :: unit ev_world)"
    by (simp add: wake_def)
  ultimately show ?thesis by (rule wait_on_closed_event_hangs)
qed

end
