(* ===== verification/Protocol_Db.thy ===== *)
theory Protocol_Db
  imports Efi_Types Tables
begin

text \<open>
  \<^verbatim>\<open>src/src/efi/protocol_db.rs\<close>: the fixed-capacity handle and protocol database. The static
  array \<^verbatim>\<open>HANDLES\<close> is a list of handle entries, each with eight protocol slots; a handle is a
  table index plus one. Indexing the array with a handle that was never issued is a panic of the
  source (\<open>Inl Panic\<close>): \<^verbatim>\<open>handle_to_index\<close> only rejects the null handle.
\<close>

section \<open>State\<close>

definition MAX_HANDLES :: nat where "MAX_HANDLES = 32"
definition MAX_PROTOCOLS_PER_HANDLE :: nat where "MAX_PROTOCOLS_PER_HANDLE = 8"

record protocol_entry =
  pe_guid :: efi_guid
  pe_interface :: addr

record handle_entry =
  h_in_use :: bool
  h_protocols :: "protocol_entry option list"

type_synonym handle_db = "handle_entry list"

definition EMPTY_HANDLE :: handle_entry where
  "EMPTY_HANDLE = \<lparr>h_in_use = False, h_protocols = replicate MAX_PROTOCOLS_PER_HANDLE None\<rparr>"

definition HANDLES_INIT :: handle_db where
  "HANDLES_INIT = replicate MAX_HANDLES EMPTY_HANDLE"

section \<open>Operations\<close>

definition handle_to_index :: "efi_handle \<Rightarrow> nat option" where
  "handle_to_index handle = (let raw = unat handle in if raw = 0 then None else Some (raw - 1))"

definition index_to_handle :: "nat \<Rightarrow> efi_handle" where
  "index_to_handle index = of_nat (index + 1)"

definition index_of :: "handle_db \<Rightarrow> efi_handle \<Rightarrow> nat option checked" where
  "index_of hs handle =
     (case handle_to_index handle of
        None \<Rightarrow> Inr None
      | Some i \<Rightarrow>
          if i < length hs then Inr (if h_in_use (hs ! i) then Some i else None) else Inl Panic)"

definition find_or_create_handle :: "handle_db \<Rightarrow> efi_handle \<Rightarrow> (nat option \<times> handle_db) checked" where
  "find_or_create_handle hs existing =
     (case handle_to_index existing of
        Some i \<Rightarrow>
          if i < length hs then Inr (if h_in_use (hs ! i) then Some i else None, hs) else Inl Panic
      | None \<Rightarrow>
          (case first_free h_in_use hs of
             Some i \<Rightarrow> Inr (Some i, hs[i := EMPTY_HANDLE\<lparr>h_in_use := True\<rparr>])
           | None \<Rightarrow> Inr (None, hs)))"

definition handle_for_index :: "nat \<Rightarrow> efi_handle" where
  "handle_for_index index = index_to_handle index"

definition db_install :: "handle_db \<Rightarrow> nat \<Rightarrow> efi_guid \<Rightarrow> addr \<Rightarrow> (bool \<times> handle_db) checked" where
  "db_install hs index guid interface =
     (if index < length hs then
        (case position (\<lambda>slot. slot = None) (h_protocols (hs ! index)) of
           Some j \<Rightarrow>
             Inr (True, hs[index := (hs ! index)\<lparr>h_protocols :=
               (h_protocols (hs ! index))[j := Some \<lparr>pe_guid = guid, pe_interface = interface\<rparr>]\<rparr>])
         | None \<Rightarrow> Inr (False, hs))
      else Inl Panic)"

text \<open>\<^verbatim>\<open>protocols.iter().flatten()\<close> and the first entry with the guid.\<close>

definition installed :: "handle_entry \<Rightarrow> protocol_entry list" where
  "installed h = List.map_filter id (h_protocols h)"

definition entry_lookup :: "handle_entry \<Rightarrow> efi_guid \<Rightarrow> addr option" where
  "entry_lookup h guid = map_option pe_interface (find (\<lambda>p. pe_guid p = guid) (installed h))"

fun locate :: "handle_db \<Rightarrow> efi_guid \<Rightarrow> addr option" where
  "locate [] guid = None"
| "locate (h # hs) guid =
     (if \<not> h_in_use h then locate hs guid
      else (case entry_lookup h guid of Some i \<Rightarrow> Some i | None \<Rightarrow> locate hs guid))"

definition db_handle_protocol :: "handle_db \<Rightarrow> efi_handle \<Rightarrow> efi_guid \<Rightarrow> addr option checked" where
  "db_handle_protocol hs handle guid =
     (case handle_to_index handle of
        None \<Rightarrow> Inr None
      | Some index \<Rightarrow>
          if index < length hs then
            Inr (if h_in_use (hs ! index) then entry_lookup (hs ! index) guid else None)
          else Inl Panic)"

definition slot_has_guid :: "efi_guid \<Rightarrow> protocol_entry option \<Rightarrow> bool" where
  "slot_has_guid guid slot = (case slot of Some p \<Rightarrow> pe_guid p = guid | None \<Rightarrow> False)"

definition db_uninstall :: "handle_db \<Rightarrow> nat \<Rightarrow> efi_guid \<Rightarrow> (bool \<times> handle_db) checked" where
  "db_uninstall hs index guid =
     (if index < length hs then
        (case position (slot_has_guid guid) (h_protocols (hs ! index)) of
           Some j \<Rightarrow> Inr (True, hs[index := (hs ! index)\<lparr>h_protocols :=
                                     (h_protocols (hs ! index))[j := None]\<rparr>])
         | None \<Rightarrow> Inr (False, hs))
      else Inl Panic)"

fun handles_with_loop ::
  "efi_guid \<Rightarrow> (nat \<times> handle_entry) list \<Rightarrow> efi_handle list \<Rightarrow> nat \<Rightarrow> nat \<times> efi_handle list" where
  "handles_with_loop guid [] out count = (count, out)"
| "handles_with_loop guid ((i, h) # rest) out count =
     (if \<not> h_in_use h then handles_with_loop guid rest out count
      else if list_ex (\<lambda>p. pe_guid p = guid) (installed h) then
        handles_with_loop guid rest
          (if count < length out then out[count := index_to_handle i] else out) (count + 1)
      else handles_with_loop guid rest out count)"

text \<open>The count found and the caller's buffer after the call.\<close>

definition handles_with :: "handle_db \<Rightarrow> efi_guid \<Rightarrow> efi_handle list \<Rightarrow> nat \<times> efi_handle list" where
  "handles_with hs guid out = handles_with_loop guid (enumerate 0 hs) out 0"

fun guids_loop :: "protocol_entry list \<Rightarrow> efi_guid list \<Rightarrow> nat \<Rightarrow> nat \<times> efi_guid list" where
  "guids_loop [] out count = (count, out)"
| "guids_loop (p # ps) out count =
     guids_loop ps (if count < length out then out[count := pe_guid p] else out) (count + 1)"

definition protocols_on_handle ::
  "handle_db \<Rightarrow> efi_handle \<Rightarrow> efi_guid list \<Rightarrow> (nat \<times> efi_guid list) option checked" where
  "protocols_on_handle hs handle out =
     (case handle_to_index handle of
        None \<Rightarrow> Inr None
      | Some index \<Rightarrow>
          if index < length hs then
            Inr (if h_in_use (hs ! index) then Some (guids_loop (installed (hs ! index)) out 0) else None)
          else Inl Panic)"

section \<open>Invariant and interfaces\<close>

definition db_inv :: "handle_db \<Rightarrow> bool" where
  "db_inv hs \<longleftrightarrow> length hs = MAX_HANDLES
     \<and> (\<forall>h \<in> set hs. length (h_protocols h) = MAX_PROTOCOLS_PER_HANDLE)"

interpretation handle_slots: slot_table h_in_use EMPTY_HANDLE
  by unfold_locales (simp add: EMPTY_HANDLE_def)

interpretation protocol_slots: slot_table "\<lambda>slot. slot \<noteq> None" None
  by unfold_locales simp

interpretation handles: handle_codec index_to_handle handle_to_index MAX_HANDLES
  by unfold_locales
    (simp_all add: handle_to_index_def index_to_handle_def MAX_HANDLES_def unat_word_ariths unat_of_nat
      Let_def)

lemma db_inv_init: "db_inv HANDLES_INIT"
  by (auto simp: db_inv_def HANDLES_INIT_def EMPTY_HANDLE_def)

lemma find_or_create_inv:
  "db_inv hs \<Longrightarrow> find_or_create_handle hs h = Inr (r, hs') \<Longrightarrow> db_inv hs'"
  by (auto simp: find_or_create_handle_def db_inv_def EMPTY_HANDLE_def split: option.splits if_splits
      dest!: set_update_subset_insert[THEN subsetD])

lemma db_install_inv: "db_inv hs \<Longrightarrow> db_install hs i g v = Inr (r, hs') \<Longrightarrow> db_inv hs'"
  by (auto simp: db_install_def db_inv_def split: option.splits if_splits
      dest!: set_update_subset_insert[THEN subsetD])

lemma db_uninstall_inv: "db_inv hs \<Longrightarrow> db_uninstall hs i g = Inr (r, hs') \<Longrightarrow> db_inv hs'"
  by (auto simp: db_uninstall_def db_inv_def split: option.splits if_splits
      dest!: set_update_subset_insert[THEN subsetD])

section \<open>Looking interfaces up\<close>

lemma entry_lookup_position:
  "entry_lookup h g =
     (case position (slot_has_guid g) (h_protocols h) of
        None \<Rightarrow> None | Some j \<Rightarrow> map_option pe_interface (h_protocols h ! j))"
proof -
  have "find (\<lambda>p. pe_guid p = g) (List.map_filter id slots) =
      (case position (slot_has_guid g) slots of None \<Rightarrow> None | Some j \<Rightarrow> slots ! j)" for slots
    by (induction slots) (auto simp: slot_has_guid_def List.map_filter_simps split: option.splits)
  then show ?thesis by (auto simp: entry_lookup_def installed_def split: option.splits)
qed

definition db_lookup :: "handle_db \<Rightarrow> nat \<times> efi_guid \<Rightarrow> addr option" where
  "db_lookup hs k =
     (if fst k < length hs \<and> h_in_use (hs ! fst k) then entry_lookup (hs ! fst k) (snd k) else None)"

definition db_put :: "handle_db \<Rightarrow> nat \<times> efi_guid \<Rightarrow> addr \<Rightarrow> handle_db option" where
  "db_put hs k v =
     (if fst k < length hs \<and> h_in_use (hs ! fst k)
      then (case db_install hs (fst k) (snd k) v of Inr (True, hs') \<Rightarrow> Some hs' | _ \<Rightarrow> None)
      else None)"

lemma db_put_cases:
  assumes "db_put hs (i, g) v = Some hs'"
  obtains j where "i < length hs" "h_in_use (hs ! i)" "j < length (h_protocols (hs ! i))"
    "h_protocols (hs ! i) ! j = None"
    "hs' = hs[i := (hs ! i)\<lparr>h_protocols :=
       (h_protocols (hs ! i))[j := Some \<lparr>pe_guid = g, pe_interface = v\<rparr>]\<rparr>]"
  using assms
  by (auto simp: db_put_def db_install_def split: if_splits option.splits dest!: position_SomeD)

lemma slot_has_guid_simps [simp]:
  "slot_has_guid g None = False" "slot_has_guid g (Some p) = (pe_guid p = g)"
  by (simp_all add: slot_has_guid_def)

interpretation pdb: keyed_store db_lookup db_put db_inv "\<lambda>_ _. True"
proof
  fix hs hs' :: handle_db and k :: "nat \<times> efi_guid" and v
  obtain i g where k: "k = (i, g)" by (cases k)
  { assume none: "db_lookup hs k = None" and "db_put hs k v = Some hs'"
    then obtain j where j: "i < length hs" "h_in_use (hs ! i)" "j < length (h_protocols (hs ! i))"
      "h_protocols (hs ! i) ! j = None"
      "hs' = hs[i := (hs ! i)\<lparr>h_protocols :=
         (h_protocols (hs ! i))[j := Some \<lparr>pe_guid = g, pe_interface = v\<rparr>]\<rparr>]"
      unfolding k by (auto elim: db_put_cases)
    have "position (slot_has_guid g) (h_protocols (hs ! i)) = None"
      using none j(1,2)
      by (auto simp: k db_lookup_def entry_lookup_position slot_has_guid_def
          split: option.splits dest!: position_SomeD)
    then show "db_lookup hs' k = Some v"
      using j by (simp add: k db_lookup_def entry_lookup_position position_update_hit) }
  { fix k' assume "db_put hs k v = Some hs'" and neq: "k' \<noteq> k"
    then obtain j where j: "i < length hs" "h_in_use (hs ! i)" "j < length (h_protocols (hs ! i))"
      "h_protocols (hs ! i) ! j = None"
      "hs' = hs[i := (hs ! i)\<lparr>h_protocols :=
         (h_protocols (hs ! i))[j := Some \<lparr>pe_guid = g, pe_interface = v\<rparr>]\<rparr>]"
      unfolding k by (auto elim: db_put_cases)
    obtain i' g' where k': "k' = (i', g')" by (cases k')
    show "db_lookup hs' k' = db_lookup hs k'"
    proof (cases "i' = i")
      case True
      with neq have "g' \<noteq> g" by (simp add: k k')
      then have p: "position (slot_has_guid g') (h_protocols (hs' ! i)) =
          position (slot_has_guid g') (h_protocols (hs ! i))"
        using j by (simp add: position_update_irrelevant)
      have "n \<noteq> j" if "position (slot_has_guid g') (h_protocols (hs ! i)) = Some n" for n
        using position_SomeD[OF that] j(4) by auto
      then show ?thesis
        using True j p by (auto simp: k' db_lookup_def entry_lookup_position split: option.splits)
    qed (use j in \<open>simp add: k' db_lookup_def\<close>) }
  { assume "db_inv hs" "db_put hs k v = Some hs'"
    then show "db_inv hs'"
      by (auto simp: db_put_def split: if_splits sum.splits prod.splits bool.splits intro: db_install_inv) }
qed

lemma db_handle_protocol_lookup:
  "i < length hs \<Longrightarrow> i < MAX_HANDLES \<Longrightarrow>
   db_handle_protocol hs (index_to_handle i) g = Inr (db_lookup hs (i, g))"
  by (simp add: db_handle_protocol_def handles.decode_encode db_lookup_def)

lemma db_install_live:
  assumes "i < length hs" "h_in_use (hs ! i)" "db_install hs i g v = Inr (True, hs')"
  shows "db_put hs (i, g) v = Some hs'"
  using assms by (simp add: db_put_def)

text \<open>
  C31: installing an interface under a GUID the handle does not carry yet makes HandleProtocol
  return exactly that interface for that handle and GUID, and changes the answer for no other
  handle and no other GUID.
\<close>

theorem install_then_handle_protocol:
  assumes "db_inv hs" and "i < MAX_HANDLES" and "h_in_use (hs ! i)"
    and "db_handle_protocol hs (index_to_handle i) g = Inr None"
    and "db_install hs i g v = Inr (True, hs')"
  shows "db_handle_protocol hs' (index_to_handle i) g = Inr (Some v) \<and>
    (\<forall>j g'. j < MAX_HANDLES \<longrightarrow> (j, g') \<noteq> (i, g) \<longrightarrow>
      db_handle_protocol hs' (index_to_handle j) g' = db_handle_protocol hs (index_to_handle j) g')"
proof -
  have len: "length hs = MAX_HANDLES" "length hs' = MAX_HANDLES"
    using assms(1) db_install_inv[OF assms(1,5)] by (simp_all add: db_inv_def)
  have put: "db_put hs (i, g) v = Some hs'"
    using assms(2,3,5) len by (intro db_install_live) simp_all
  have "db_lookup hs (i, g) = None"
    using assms(2,4) len by (simp add: db_handle_protocol_lookup)
  note pdb.put_fresh[OF assms(1) _ this put] and pdb.put_frame[OF assms(1) _ put]
  with assms(2) len show ?thesis by (simp add: db_handle_protocol_lookup)
qed

definition demo_guid :: efi_guid where
  "demo_guid = \<lparr>data1 = 0x12345678, data2 = 0xABCD, data3 = 0xEF01, data4 = [1, 2, 3, 4, 5, 6, 7, 8]\<rparr>"

lemmas db_eval = db_install_def db_handle_protocol_def entry_lookup_def installed_def handle_to_index_def
  index_to_handle_def MAX_HANDLES_def MAX_PROTOCOLS_PER_HANDLE_def HANDLES_INIT_def EMPTY_HANDLE_def
  numeral_eq_Suc

theorem install_then_handle_protocol_witness:
  "db_handle_protocol (HANDLES_INIT[0 := EMPTY_HANDLE\<lparr>h_in_use := True,
       h_protocols := Some \<lparr>pe_guid = demo_guid, pe_interface = 0xFEED\<rparr> # replicate 7 None\<rparr>])
     (index_to_handle 0) demo_guid = Inr (Some 0xFEED) \<and>
   db_handle_protocol (HANDLES_INIT[0 := EMPTY_HANDLE\<lparr>h_in_use := True,
       h_protocols := Some \<lparr>pe_guid = demo_guid, pe_interface = 0xFEED\<rparr> # replicate 7 None\<rparr>])
     (index_to_handle 1) demo_guid = Inr None"
proof -
  let ?hs = "HANDLES_INIT[0 := EMPTY_HANDLE\<lparr>h_in_use := True\<rparr>]"
  have inv: "db_inv ?hs"
    by (rule find_or_create_inv[of HANDLES_INIT 0 "Some 0"])
      (simp add: db_inv_init, simp add: find_or_create_handle_def first_free_def db_eval)
  have inst: "db_install ?hs 0 demo_guid 0xFEED = Inr (True, HANDLES_INIT[0 := EMPTY_HANDLE\<lparr>h_in_use := True,
       h_protocols := Some \<lparr>pe_guid = demo_guid, pe_interface = 0xFEED\<rparr> # replicate 7 None\<rparr>])"
    by (simp add: db_eval)
  have pre: "0 < MAX_HANDLES" "h_in_use (?hs ! 0)" "db_handle_protocol ?hs (index_to_handle 0) demo_guid = Inr None"
    by (simp_all add: db_eval List.map_filter_simps)
  have other: "db_handle_protocol ?hs (index_to_handle 1) demo_guid = Inr None"
    by (simp add: db_handle_protocol_lookup db_lookup_def HANDLES_INIT_def EMPTY_HANDLE_def MAX_HANDLES_def)
  have "(1::nat) < MAX_HANDLES" by (simp add: MAX_HANDLES_def)
  with install_then_handle_protocol[OF inv pre inst] other show ?thesis by simp
qed

section \<open>New handles leave the old ones alone\<close>

definition grows :: "handle_db \<Rightarrow> handle_db \<Rightarrow> bool" where
  "grows hs hs' \<longleftrightarrow> length hs' = length hs \<and> (\<forall>j < length hs. h_in_use (hs ! j) \<longrightarrow> hs' ! j = hs ! j)"

lemma grows_refl: "grows hs hs"
  by (simp add: grows_def)

lemma grows_trans: "grows a b \<Longrightarrow> grows b c \<Longrightarrow> grows a c"
  by (simp add: grows_def)

lemma create_grows:
  assumes "find_or_create_handle hs 0 = Inr (Some i, hs')"
  shows "grows hs hs' \<and> i < length hs \<and> \<not> h_in_use (hs ! i) \<and> h_in_use (hs' ! i)"
proof -
  have f: "first_free h_in_use hs = Some i" "hs' = hs[i := EMPTY_HANDLE\<lparr>h_in_use := True\<rparr>]"
    using assms by (auto simp: find_or_create_handle_def handle_to_index_def split: option.splits)
  have i: "i < length hs" "\<not> h_in_use (hs ! i)" using handle_slots.first_free_Some[OF f(1)] by (auto simp: live_def)
  have "hs[i := x] ! j = hs ! j" if "h_in_use (hs ! j)" for j x using i(2) that by (cases "j = i") auto
  then show ?thesis using i by (auto simp: grows_def f(2))
qed

lemma install_grows: "grows hs hs1 \<Longrightarrow> \<not> h_in_use (hs ! i) \<Longrightarrow> db_install hs1 i g v = Inr (r, hs2) \<Longrightarrow> grows hs hs2"
  by (fastforce simp: grows_def db_install_def nth_list_update split: if_splits option.splits)

lemma install_returns: "i < length hs \<Longrightarrow> \<exists>r hs'. db_install hs i g v = Inr (r, hs') \<and> length hs' = length hs"
  by (auto simp: db_install_def split: option.splits)

lemma grows_lookup:
  assumes "grows hs hs'" "index_of hs h = Inr (Some i)"
  shows "index_of hs' h = Inr (Some i)" "db_handle_protocol hs' h g = db_handle_protocol hs h g"
  using assms by (auto simp: grows_def index_of_def db_handle_protocol_def split: option.splits if_splits)

section \<open>Searching by protocol\<close>

definition carries :: "efi_guid \<Rightarrow> handle_entry \<Rightarrow> bool" where
  "carries g h \<longleftrightarrow> h_in_use h \<and> entry_lookup h g \<noteq> None"

lemma list_ex_installed: "list_ex (\<lambda>p. pe_guid p = g) (installed h) \<longleftrightarrow> entry_lookup h g \<noteq> None"
  by (auto simp: entry_lookup_def find_None_iff list_ex_iff)

lemma handles_with_loop_fill:
  "handles_with_loop g ihs (fill_prefix ms out) (length ms) =
     (let found = ms @ map (index_to_handle \<circ> fst) (filter (carries g \<circ> snd) ihs)
      in (length found, fill_prefix found out))"
proof (induction ihs arbitrary: ms)
  case Nil
  then show ?case by simp
next
  case (Cons ih ihs)
  obtain i h where ih: "ih = (i, h)" by (cases ih)
  show ?case
  proof (cases "carries g h")
    case True
    then show ?thesis
      using Cons[of "ms @ [index_to_handle i]"]
      by (simp add: ih carries_def list_ex_installed fill_prefix_snoc Let_def)
  next
    case False
    then show ?thesis
      using Cons[of ms] by (auto simp: ih carries_def list_ex_installed Let_def)
  qed
qed

text \<open>
  LocateHandle's search: the count returned is the number of live handles that carry the
  GUID, and the caller's buffer holds those handles in table order, truncated to the buffer and
  leaving the rest of it untouched.
\<close>

theorem handles_with_spec:
  "handles_with hs g out =
     (let found = map (index_to_handle \<circ> fst) (filter (carries g \<circ> snd) (enumerate 0 hs))
      in (length found, fill_prefix found out))"
  using handles_with_loop_fill[of g "enumerate 0 hs" "[]" out]
  by (simp add: handles_with_def)

text \<open>
  LocateProtocol returns the interface that the first live handle (in table order) carrying
  the GUID has for it, and fails exactly when no live handle carries it.
\<close>

theorem locate_first_carrier:
  "locate hs g = (case find (carries g) hs of None \<Rightarrow> None | Some h \<Rightarrow> entry_lookup h g)"
  by (induction hs) (auto simp: carries_def split: option.splits)

text \<open>
  Creating a handle (the null handle passed in) succeeds exactly while fewer than 32 handles
  are live; the new handle is a previously unused slot, has no protocol installed, and every other
  slot is unchanged.
\<close>

theorem create_handle_fresh:
  assumes "db_inv hs"
  shows "(case find_or_create_handle hs 0 of
      Inr (Some i, hs') \<Rightarrow> i < 32 \<and> i \<notin> live h_in_use hs \<and> live h_in_use hs' = insert i (live h_in_use hs)
          \<and> installed (hs' ! i) = [] \<and> (\<forall>j. j \<noteq> i \<longrightarrow> hs' ! j = hs ! j)
    | Inr (None, hs') \<Rightarrow> hs' = hs \<and> card (live h_in_use hs) = 32
    | Inl e \<Rightarrow> False)"
proof -
  have len: "length hs = 32" using assms by (simp add: db_inv_def MAX_HANDLES_def)
  show ?thesis
  proof (cases "first_free h_in_use hs")
    case None
    then have "live h_in_use hs = {..<32}" using handle_slots.first_free_None len by simp
    with None show ?thesis by (simp add: find_or_create_handle_def handle_to_index_def)
  next
    case (Some i)
    note f = handle_slots.first_free_Some[OF Some]
    have "installed (EMPTY_HANDLE\<lparr>h_in_use := True\<rparr>) = []"
      by (simp add: installed_def EMPTY_HANDLE_def List.map_filter_def)
    with f Some len show ?thesis
      by (simp add: find_or_create_handle_def handle_to_index_def handle_slots.live_take) (simp add: live_def)
  qed
qed

theorem create_handle_fresh_witness:
  "\<exists>hs'. find_or_create_handle HANDLES_INIT 0 = Inr (Some 0, hs') \<and> live h_in_use hs' = {0}"
  using create_handle_fresh[OF db_inv_init] handle_slots.all_free_replicate[of 32]
  by (simp add: find_or_create_handle_def handle_to_index_def first_free_def HANDLES_INIT_def
      MAX_HANDLES_def numeral_eq_Suc EMPTY_HANDLE_def)

text \<open>
  Handle validation: a non-null handle whose value is above the table's 32 entries is not
  rejected but used as an array index, so every service that takes a handle panics on it (the
  events table, in contrast, checks the bound).
\<close>

theorem forged_handle_panics:
  assumes "db_inv hs" and "32 < unat h"
  shows "index_of hs h = Inl Panic \<and> find_or_create_handle hs h = Inl Panic \<and>
    db_handle_protocol hs h g = Inl Panic \<and> protocols_on_handle hs h out = Inl Panic"
  using assms
  by (simp add: index_of_def find_or_create_handle_def db_handle_protocol_def protocols_on_handle_def
      handle_to_index_def db_inv_def MAX_HANDLES_def)

theorem forged_handle_panics_witness:
  "index_of HANDLES_INIT 0x1000 = Inl Panic \<and> db_handle_protocol HANDLES_INIT 0x1000 demo_guid = Inl Panic"
proof -
  have "32 < unat (0x1000 :: efi_handle)" by simp
  from forged_handle_panics[OF db_inv_init this] show ?thesis by blast
qed

section \<open>Uninstalling\<close>

lemma position_uninstall:
  assumes "db_uninstall hs i g = Inr (r, hs')" "i < length hs"
  shows "(r \<longleftrightarrow> entry_lookup (hs ! i) g \<noteq> None) \<and> (\<not> r \<longrightarrow> hs' = hs)
    \<and> (g' \<noteq> g \<longrightarrow> entry_lookup (hs' ! i) g' = entry_lookup (hs ! i) g')"
proof (cases "position (slot_has_guid g) (h_protocols (hs ! i))")
  case None
  with assms show ?thesis by (auto simp: db_uninstall_def entry_lookup_position)
next
  case (Some j)
  let ?slots = "h_protocols (hs ! i)"
  from Some have j: "j < length ?slots" "slot_has_guid g (?slots ! j)" by (auto dest: position_SomeD)
  then obtain p where p: "?slots ! j = Some p" "pe_guid p = g"
    by (auto simp: slot_has_guid_def split: option.splits)
  have "position (slot_has_guid g') (?slots[j := None]) = position (slot_has_guid g') ?slots" if "g' \<noteq> g"
    using that p by (intro position_update_irrelevant) auto
  moreover have "n \<noteq> j" if "g' \<noteq> g" "position (slot_has_guid g') ?slots = Some n" for n
    using position_SomeD[OF that(2)] that(1) p by auto
  ultimately show ?thesis
    using assms Some p by (auto simp: db_uninstall_def entry_lookup_position split: option.splits)
qed

end
