(* ===== verification/Variables.thy ===== *)
theory Variables
  imports Efi_Types Tables
begin

text \<open>
  \<^verbatim>\<open>src/src/efi/variables.rs\<close>: the UEFI variable store and its flat serialisation. The static
  array \<^verbatim>\<open>VARS\<close> is a list of 32 records; a \<^verbatim>\<open>CHAR16\<close> pointer is the function that reads the
  unit at each offset. The invariant \<open>var_inv\<close> (names and data within their arrays, no two live
  variables with one name and GUID) makes every slice of the source in range; \<open>var_map\<close> is the
  abstract map from (name, GUID) to (attributes, data) that the store implements.
\<close>

section \<open>State\<close>

definition MAX_VARIABLES :: nat where "MAX_VARIABLES = 32"
definition MAX_NAME_UNITS :: nat where "MAX_NAME_UNITS = 32"
definition MAX_DATA_LEN :: nat where "MAX_DATA_LEN = 512"

type_synonym char16_ptr = "nat \<Rightarrow> u16"

record variable =
  v_in_use :: bool
  v_name :: "u16 list"
  v_name_len :: nat
  v_guid :: efi_guid
  v_attributes :: u32
  v_data :: "u8 list"
  v_data_len :: nat

type_synonym var_store = "variable list"

definition EMPTY_VAR :: variable where
  "EMPTY_VAR = \<lparr>v_in_use = False, v_name = replicate MAX_NAME_UNITS 0, v_name_len = 0,
     v_guid = zero_guid, v_attributes = 0, v_data = replicate MAX_DATA_LEN 0, v_data_len = 0\<rparr>"

definition VARS_INIT :: var_store where
  "VARS_INIT = replicate MAX_VARIABLES EMPTY_VAR"

datatype var_error = VarNotFound | VarInvalidParameter | VarBufferTooSmall nat | VarOutOfResources

section \<open>Operations\<close>

function read_name_loop :: "char16_ptr \<Rightarrow> nat \<Rightarrow> nat \<Rightarrow> u16 list \<Rightarrow> (u16 list \<times> nat) option" where
  "read_name_loop ptr lim i buf =
     (if i > lim then None
      else if ptr i = 0 then Some (buf, i)
      else if i = lim then None
      else read_name_loop ptr lim (i + 1) (buf[i := ptr i]))"
  by pat_completeness auto
termination by (relation "measure (\<lambda>(ptr, lim, i, buf). Suc lim - i)") auto

declare read_name_loop.simps [simp del]

definition read_name :: "char16_ptr \<Rightarrow> nat \<Rightarrow> (u16 list \<times> nat) option" where
  "read_name ptr lim = read_name_loop ptr lim 0 (replicate MAX_NAME_UNITS 0)"

definition names_eq :: "u16 list \<Rightarrow> nat \<Rightarrow> u16 list \<Rightarrow> nat \<Rightarrow> bool" where
  "names_eq a a_len b b_len \<longleftrightarrow> a_len = b_len \<and> take a_len a = take b_len b"

text \<open>The test all the searches share: live, same GUID, same name.\<close>

definition var_matches :: "efi_guid \<Rightarrow> u16 list \<Rightarrow> nat \<Rightarrow> variable \<Rightarrow> bool" where
  "var_matches guid name name_len v \<longleftrightarrow>
     v_in_use v \<and> v_guid v = guid \<and> names_eq (v_name v) (v_name_len v) name name_len"

text \<open>The result and the caller's data buffer after the call.\<close>

definition var_get ::
  "var_store \<Rightarrow> char16_ptr \<Rightarrow> efi_guid \<Rightarrow> u8 list \<Rightarrow> (var_error + u32 \<times> nat) \<times> u8 list" where
  "var_get vs name_ptr guid data_buf =
     (case read_name name_ptr MAX_NAME_UNITS of
        None \<Rightarrow> (Inl VarInvalidParameter, data_buf)
      | Some (name, name_len) \<Rightarrow>
          (case find (var_matches guid name name_len) vs of
             None \<Rightarrow> (Inl VarNotFound, data_buf)
           | Some v \<Rightarrow>
               if length data_buf < v_data_len v then (Inl (VarBufferTooSmall (v_data_len v)), data_buf)
               else (Inr (v_attributes v, v_data_len v),
                     put_seg data_buf 0 (take (v_data_len v) (v_data v)))))"

definition var_set ::
  "var_store \<Rightarrow> char16_ptr \<Rightarrow> efi_guid \<Rightarrow> u32 \<Rightarrow> u8 list \<Rightarrow> (var_error + unit) \<times> var_store" where
  "var_set vs name_ptr guid attributes data =
     (case read_name name_ptr MAX_NAME_UNITS of
        None \<Rightarrow> (Inl VarInvalidParameter, vs)
      | Some (name, name_len) \<Rightarrow>
          if length data > MAX_DATA_LEN then (Inl VarOutOfResources, vs)
          else
            (let existing = position (var_matches guid name name_len) vs in
             if data = [] then
               (case existing of
                  Some i \<Rightarrow> (Inr (), vs[i := EMPTY_VAR])
                | None \<Rightarrow> (Inl VarNotFound, vs))
             else
               (case existing of
                  Some i \<Rightarrow>
                    (Inr (), vs[i := (vs ! i)\<lparr>v_attributes := attributes,
                                v_data := put_seg (v_data (vs ! i)) 0 data,
                                v_data_len := length data\<rparr>])
                | None \<Rightarrow>
                    (case first_free v_in_use vs of
                       None \<Rightarrow> (Inl VarOutOfResources, vs)
                     | Some i \<Rightarrow>
                         (Inr (), vs[i := (vs ! i)\<lparr>v_in_use := True, v_name := name,
                            v_name_len := name_len, v_guid := guid, v_attributes := attributes,
                            v_data := put_seg (v_data (vs ! i)) 0 data,
                            v_data_len := length data\<rparr>])))))"

definition var_get_next ::
  "var_store \<Rightarrow> char16_ptr \<Rightarrow> efi_guid \<Rightarrow> u16 list \<Rightarrow> (var_error + nat \<times> efi_guid) \<times> u16 list" where
  "var_get_next vs prev_name_ptr prev_guid out_name =
     (case read_name prev_name_ptr MAX_NAME_UNITS of
        None \<Rightarrow> (Inl VarInvalidParameter, out_name)
      | Some (prev_name, prev_len) \<Rightarrow>
          (case (if prev_len = 0 then Some 0
                 else map_option Suc (position (var_matches prev_guid prev_name prev_len) vs)) of
             None \<Rightarrow> (Inl VarInvalidParameter, out_name)
           | Some start_index \<Rightarrow>
               (case find v_in_use (drop start_index vs) of
                  None \<Rightarrow> (Inl VarNotFound, out_name)
                | Some v \<Rightarrow>
                    if length out_name < v_name_len v + 1
                    then (Inl (VarBufferTooSmall (v_name_len v + 1)), out_name)
                    else (Inr (v_name_len v + 1, v_guid v),
                          (put_seg out_name 0 (take (v_name_len v) (v_name v)))[v_name_len v := 0]))))"

definition storage_info :: "var_store \<Rightarrow> u64 \<times> u64 \<times> u64" where
  "storage_info vs =
     (let used = sum_list (map v_data_len (filter v_in_use vs));
          total = of_nat (MAX_VARIABLES * MAX_DATA_LEN)
      in (total, total - of_nat used, of_nat MAX_DATA_LEN))"

definition MAGIC :: "u8 list" where "MAGIC = [0x46, 0x56, 0x52, 0x31]"

text \<open>One \<^verbatim>\<open>buf[pos..pos + n].copy_from_slice(..); pos += n\<close>.\<close>

definition emit :: "u8 list \<times> nat \<Rightarrow> u8 list \<Rightarrow> u8 list \<times> nat" where
  "emit bp bytes = (put_seg (fst bp) (snd bp) bytes, snd bp + length bytes)"

definition entry_len :: "variable \<Rightarrow> nat" where
  "entry_len v = 2 + v_name_len v * 2 + 16 + 4 + 4 + v_data_len v"

text \<open>The fields of one entry in the order they are written.\<close>

definition entry_fields :: "variable \<Rightarrow> u8 list list" where
  "entry_fields v =
     le16 (of_nat (v_name_len v)) # map le16 (take (v_name_len v) (v_name v))
     @ [le32 (data1 (v_guid v)), le16 (data2 (v_guid v)), le16 (data3 (v_guid v)), data4 (v_guid v),
        le32 (v_attributes v), le32 (of_nat (v_data_len v)), take (v_data_len v) (v_data v)]"

fun serialize_loop :: "variable list \<Rightarrow> u8 list \<Rightarrow> nat \<Rightarrow> u32 \<Rightarrow> (nat \<times> u32) option \<times> u8 list" where
  "serialize_loop [] buf pos count = (Some (pos, count), buf)"
| "serialize_loop (v # vs) buf pos count =
     (if \<not> v_in_use v then serialize_loop vs buf pos count
      else if pos + entry_len v > length buf then (None, buf)
      else
        (case foldl emit (buf, pos) (entry_fields v) of
           (buf', pos') \<Rightarrow> serialize_loop vs buf' pos' (count + 1)))"

definition serialize :: "var_store \<Rightarrow> u8 list \<Rightarrow> nat option \<times> u8 list" where
  "serialize vs buf =
     (if length buf < 8 then (None, buf)
      else
        (case serialize_loop vs (put_seg buf 0 MAGIC) 8 0 of
           (None, buf') \<Rightarrow> (None, buf')
         | (Some (pos, count), buf') \<Rightarrow> (Some pos, put_seg buf' 4 (le32 count))))"

record var_entry =
  en_name :: "u16 list"
  en_guid :: efi_guid
  en_attributes :: u32
  en_data :: "u8 list"

text \<open>One turn of the loading loop up to the call of \<^verbatim>\<open>set\<close>; \<open>None\<close> is a \<^verbatim>\<open>break\<close>.\<close>

definition parse_entry :: "u8 list \<Rightarrow> nat \<Rightarrow> (var_entry \<times> nat) option" where
  "parse_entry buf pos =
     (if pos + 2 > length buf then None
      else
        let name_len = unat (rd16 (seg buf pos 2)); pos = pos + 2 in
        if name_len > MAX_NAME_UNITS \<or> pos + name_len * 2 > length buf then None
        else
          let name = map (\<lambda>i. rd16 (seg buf (pos + 2 * i) 2)) [0..<name_len];
              pos = pos + 2 * name_len in
          if pos + 16 + 4 + 4 > length buf then None
          else
            let guid = \<lparr>data1 = rd32 (seg buf pos 4), data2 = rd16 (seg buf (pos + 4) 2),
                        data3 = rd16 (seg buf (pos + 6) 2), data4 = seg buf (pos + 8) 8\<rparr>;
                pos = pos + 16;
                attributes = rd32 (seg buf pos 4);
                pos = pos + 4;
                data_len = unat (rd32 (seg buf pos 4));
                pos = pos + 4 in
            if data_len > MAX_DATA_LEN \<or> pos + data_len > length buf then None
            else Some (\<lparr>en_name = name, en_guid = guid, en_attributes = attributes,
                        en_data = seg buf pos data_len\<rparr>, pos + data_len))"

text \<open>The NUL-terminated buffer \<^verbatim>\<open>name_nt\<close> of 33 units that is passed to \<^verbatim>\<open>set\<close> by pointer.\<close>

definition name_nt :: "u16 list \<Rightarrow> char16_ptr" where
  "name_nt name i = (if i < length name then name ! i else 0)"

primrec deserialize_loop :: "nat \<Rightarrow> var_store \<Rightarrow> u8 list \<Rightarrow> nat \<Rightarrow> nat \<Rightarrow> nat \<times> var_store" where
  "deserialize_loop 0 vs buf pos loaded = (loaded, vs)"
| "deserialize_loop (Suc n) vs buf pos loaded =
     (case parse_entry buf pos of
        None \<Rightarrow> (loaded, vs)
      | Some (e, pos') \<Rightarrow>
          (case var_set vs (name_nt (en_name e)) (en_guid e) (en_attributes e) (en_data e) of
             (Inr _, vs') \<Rightarrow> deserialize_loop n vs' buf pos' (loaded + 1)
           | (Inl _, vs') \<Rightarrow> deserialize_loop n vs' buf pos' loaded))"

definition deserialize :: "var_store \<Rightarrow> u8 list \<Rightarrow> nat option \<times> var_store" where
  "deserialize vs buf =
     (if length buf < 8 \<or> seg buf 0 4 \<noteq> MAGIC then (None, vs)
      else
        (case deserialize_loop (unat (rd32 (seg buf 4 4))) vs buf 8 0 of
           (loaded, vs') \<Rightarrow> (Some loaded, vs')))"

section \<open>Names behind pointers\<close>

lemma read_name_loop_None:
  "read_name_loop p lim i buf = None \<longleftrightarrow> (\<forall>j. i \<le> j \<longrightarrow> j \<le> lim \<longrightarrow> p j \<noteq> 0)"
proof (induction p lim i buf rule: read_name_loop.induct)
  case (1 p lim i buf)
  show ?case
  proof (cases "i < lim \<and> p i \<noteq> 0")
    case True
    then have "(\<forall>j. i + 1 \<le> j \<longrightarrow> j \<le> lim \<longrightarrow> p j \<noteq> 0) = (\<forall>j. i \<le> j \<longrightarrow> j \<le> lim \<longrightarrow> p j \<noteq> 0)"
      by (metis Suc_eq_plus1 Suc_leI le_neq_implies_less not_less_eq_eq nat_le_linear)
    with 1 True show ?thesis by (subst read_name_loop.simps) auto
  next
    case False
    then show ?thesis by (subst read_name_loop.simps) (auto simp: not_less)
  qed
qed

lemma read_name_loop_SomeD:
  "read_name_loop p lim i buf = Some (b, n) \<Longrightarrow> length b = length buf \<and> i \<le> n \<and> n \<le> lim \<and> p n = 0 \<and>
     (\<forall>j. i \<le> j \<longrightarrow> j < n \<longrightarrow> p j \<noteq> 0) \<and>
     (\<forall>j < length buf. b ! j = (if i \<le> j \<and> j < n then p j else buf ! j))"
proof (induction p lim i buf rule: read_name_loop.induct)
  case (1 p lim i buf)
  show ?case
  proof (cases "i < lim \<and> p i \<noteq> 0")
    case True
    with 1 have "read_name_loop p lim (i + 1) (buf[i := p i]) = Some (b, n)"
      by (subst (asm) (2) read_name_loop.simps) auto
    with True 1 have ih: "length b = length buf" "i + 1 \<le> n" "n \<le> lim" "p n = 0"
      "\<forall>j. i + 1 \<le> j \<longrightarrow> j < n \<longrightarrow> p j \<noteq> 0"
      "\<forall>j < length buf. b ! j = (if i + 1 \<le> j \<and> j < n then p j else buf[i := p i] ! j)" by auto
    then show ?thesis using True
      by (auto simp: nth_list_update dest: le_antisym not_less_eq_eq[THEN iffD1])
  next
    case False
    with 1(2) show ?thesis by (subst (asm) read_name_loop.simps) (auto split: if_splits)
  qed
qed

text \<open>The name a pointer denotes: the units before the terminator, when there are at most 32.\<close>

definition name_at :: "char16_ptr \<Rightarrow> u16 list option" where
  "name_at p = map_option (\<lambda>(b, n). take n b) (read_name p MAX_NAME_UNITS)"

definition name_ok :: "u16 list \<Rightarrow> bool" where
  "name_ok nm \<longleftrightarrow> length nm \<le> MAX_NAME_UNITS \<and> 0 \<notin> set nm"

lemma read_name_SomeD:
  assumes "read_name p MAX_NAME_UNITS = Some (b, n)"
  shows "length b = MAX_NAME_UNITS" "n \<le> MAX_NAME_UNITS" "take n b = map p [0..<n]"
    "name_ok (take n b)" "p n = 0"
proof -
  note D = read_name_loop_SomeD[OF assms[unfolded read_name_def]]
  show len: "length b = MAX_NAME_UNITS" "n \<le> MAX_NAME_UNITS" "p n = 0" using D by simp_all
  show eq: "take n b = map p [0..<n]"
    using D len by (intro nth_equalityI) auto
  show "name_ok (take n b)"
    using D len unfolding eq name_ok_def by auto
qed

lemma name_at_Some_iff:
  "name_at p = Some nm \<longleftrightarrow> name_ok nm \<and> (\<forall>i < length nm. p i = nm ! i) \<and> p (length nm) = 0"
proof
  assume "name_at p = Some nm"
  then obtain b n where bn: "read_name p MAX_NAME_UNITS = Some (b, n)" "nm = take n b"
    by (auto simp: name_at_def)
  note R = read_name_SomeD[OF bn(1)]
  have "length nm = n" using R(1,2) bn(2) by simp
  with R bn(2) show "name_ok nm \<and> (\<forall>i < length nm. p i = nm ! i) \<and> p (length nm) = 0"
    by (metis (no_types, lifting) add_0 length_upt minus_nat.diff_0 nth_map nth_upt)
next
  assume A: "name_ok nm \<and> (\<forall>i < length nm. p i = nm ! i) \<and> p (length nm) = 0"
  then have "read_name p MAX_NAME_UNITS \<noteq> None"
    unfolding read_name_def read_name_loop_None name_ok_def by auto
  then obtain b n where bn: "read_name p MAX_NAME_UNITS = Some (b, n)" by auto
  note R = read_name_SomeD[OF this]
  have lenb: "length (take n b) = n" using R(1,2) by simp
  have nz: "p i \<noteq> 0" if "i < n" for i
  proof -
    from that R(3) have "p i \<in> set (take n b)" by simp
    with R(4) show ?thesis by (auto simp: name_ok_def)
  qed
  have "n \<le> length nm" using nz A by (meson not_le)
  moreover have "\<not> n < length nm"
  proof
    assume "n < length nm"
    then have "p n \<in> set nm" using A by simp
    with A R(5) show False by (auto simp: name_ok_def)
  qed
  ultimately have "n = length nm" by simp
  then have "take n b = nm" unfolding R(3) using A by (intro nth_equalityI) auto
  with bn show "name_at p = Some nm" by (simp add: name_at_def)
qed

lemma name_at_name_nt: "name_ok nm \<Longrightarrow> name_at (name_nt nm) = Some nm"
  by (simp add: name_at_Some_iff name_nt_def)

section \<open>Invariant and abstraction\<close>

definition var_key :: "variable \<Rightarrow> u16 list \<times> efi_guid" where
  "var_key v = (take (v_name_len v) (v_name v), v_guid v)"

definition var_val :: "variable \<Rightarrow> u32 \<times> u8 list" where
  "var_val v = (v_attributes v, take (v_data_len v) (v_data v))"

definition var_ok :: "variable \<Rightarrow> bool" where
  "var_ok v \<longleftrightarrow> length (v_name v) = MAX_NAME_UNITS \<and> length (v_data v) = MAX_DATA_LEN \<and>
     v_name_len v \<le> MAX_NAME_UNITS \<and> v_data_len v \<le> MAX_DATA_LEN \<and> guid_ok (v_guid v) \<and>
     (v_in_use v \<longrightarrow> 0 < v_data_len v \<and> name_ok (fst (var_key v)))"

definition var_inv :: "var_store \<Rightarrow> bool" where
  "var_inv vs \<longleftrightarrow> length vs = MAX_VARIABLES \<and> (\<forall>i < MAX_VARIABLES. var_ok (vs ! i)) \<and>
     (\<forall>i < MAX_VARIABLES. \<forall>j < MAX_VARIABLES.
        v_in_use (vs ! i) \<longrightarrow> v_in_use (vs ! j) \<longrightarrow> var_key (vs ! i) = var_key (vs ! j) \<longrightarrow> i = j)"

definition has_key :: "u16 list \<times> efi_guid \<Rightarrow> variable \<Rightarrow> bool" where
  "has_key k v \<longleftrightarrow> v_in_use v \<and> var_key v = k"

definition var_map :: "var_store \<Rightarrow> u16 list \<times> efi_guid \<Rightarrow> (u32 \<times> u8 list) option" where
  "var_map vs k = map_option (\<lambda>i. var_val (vs ! i)) (position (has_key k) vs)"

interpretation var_slots: slot_table v_in_use EMPTY_VAR
  by unfold_locales (simp add: EMPTY_VAR_def)

lemma var_ok_EMPTY [simp]: "var_ok EMPTY_VAR" "\<not> v_in_use EMPTY_VAR"
  by (simp_all add: var_ok_def EMPTY_VAR_def MAX_NAME_UNITS_def MAX_DATA_LEN_def)

lemma var_inv_init: "var_inv VARS_INIT"
  by (simp add: var_inv_def VARS_INIT_def)

lemma var_map_init: "var_map VARS_INIT = Map.empty"
  by (simp add: fun_eq_iff var_map_def position_None_iff VARS_INIT_def has_key_def)

lemma var_matches_key:
  assumes "length b = MAX_NAME_UNITS" "n \<le> MAX_NAME_UNITS" "var_ok v"
  shows "var_matches g b n v = has_key (take n b, g) v"
proof -
  have "v_name_len v = n" if "take (v_name_len v) (v_name v) = take n b"
    using arg_cong[OF that, of length] assms by (simp add: var_ok_def)
  then show ?thesis
    by (auto simp: var_matches_def has_key_def var_key_def names_eq_def)
qed

lemma var_inv_ok: "var_inv vs \<Longrightarrow> v \<in> set vs \<Longrightarrow> var_ok v"
  by (auto simp: var_inv_def in_set_conv_nth)

lemma var_inv_update:
  assumes "var_inv vs" "i < MAX_VARIABLES" "var_ok v"
    "v_in_use v \<longrightarrow> (\<forall>j < MAX_VARIABLES. v_in_use (vs ! j) \<longrightarrow> var_key (vs ! j) = var_key v \<longrightarrow> j = i)"
  shows "var_inv (vs[i := v])"
  using assms by (auto simp: var_inv_def nth_list_update)

text \<open>Where a key is bound it is bound once, so an update of that slot is a map update.\<close>

lemma var_inv_unique:
  "var_inv vs \<Longrightarrow> i < MAX_VARIABLES \<Longrightarrow> j < MAX_VARIABLES \<Longrightarrow> has_key k (vs ! i) \<Longrightarrow> has_key k (vs ! j) \<Longrightarrow> i = j"
  unfolding var_inv_def has_key_def by metis

lemma var_inv_length: "var_inv vs \<Longrightarrow> length vs = MAX_VARIABLES"
  by (simp add: var_inv_def)

lemma position_has_key:
  assumes "var_inv vs" "i < MAX_VARIABLES" "has_key k (vs ! i)"
  shows "position (has_key k) vs = Some i"
proof (rule position_SomeI)
  show "i < length vs" "has_key k (vs ! i)" using assms by (simp_all add: var_inv_length)
  show "\<not> has_key k (vs ! j)" if "j < i" for j
    using that assms var_inv_unique[OF assms(1,2) _ assms(3), of j] by auto
qed

lemma var_map_lookup:
  assumes "var_inv vs"
  shows "var_map vs k = Some x \<longleftrightarrow> (\<exists>i < MAX_VARIABLES. has_key k (vs ! i) \<and> var_val (vs ! i) = x)"
proof
  assume "var_map vs k = Some x"
  then obtain i where "position (has_key k) vs = Some i" "var_val (vs ! i) = x"
    by (auto simp: var_map_def)
  then show "\<exists>i < MAX_VARIABLES. has_key k (vs ! i) \<and> var_val (vs ! i) = x"
    using var_inv_length[OF assms] by (auto dest!: position_SomeD)
next
  assume "\<exists>i < MAX_VARIABLES. has_key k (vs ! i) \<and> var_val (vs ! i) = x"
  then show "var_map vs k = Some x"
    using position_has_key[OF assms, of _ k] by (auto simp: var_map_def)
qed

lemma var_map_nonempty: "var_inv vs \<Longrightarrow> var_map vs k = Some (a, d) \<Longrightarrow> d \<noteq> []"
  by (auto simp: var_map_lookup var_inv_def var_ok_def has_key_def var_val_def MAX_DATA_LEN_def)

lemma var_map_unaffected:
  assumes "\<not> has_key k v" "\<not> has_key k (vs ! i)"
  shows "var_map (vs[i := v]) k = var_map vs k"
proof (cases "position (has_key k) vs")
  case (Some j)
  then have "j \<noteq> i" using assms(2) by (auto dest: position_SomeD)
  then show ?thesis using assms Some by (simp add: var_map_def position_update_irrelevant)
qed (use assms in \<open>simp add: var_map_def position_update_irrelevant\<close>)

lemma var_map_update:
  assumes inv: "var_inv vs" "i < MAX_VARIABLES" "var_ok v" "v_in_use v"
    and free: "v_in_use (vs ! i) \<longrightarrow> var_key (vs ! i) = var_key v"
    and uniq: "\<forall>j < MAX_VARIABLES. has_key (var_key v) (vs ! j) \<longrightarrow> j = i"
  shows "var_inv (vs[i := v]) \<and> var_map (vs[i := v]) = (var_map vs)(var_key v \<mapsto> var_val v)"
proof -
  have inv': "var_inv (vs[i := v])"
    using uniq by (intro var_inv_update inv(1-3)) (simp add: has_key_def)
  have len: "length vs = MAX_VARIABLES" using inv by (simp add: var_inv_def)
  have "var_map (vs[i := v]) k = ((var_map vs)(var_key v \<mapsto> var_val v)) k" for k
  proof (cases "k = var_key v")
    case True
    have "position (has_key k) (vs[i := v]) = Some i"
      using inv(2,4) True len by (intro position_has_key[OF inv']) (simp_all add: has_key_def)
    then show ?thesis using True inv(2) len by (simp add: var_map_def)
  next
    case False
    with free inv(4) have nk: "\<not> has_key k v" "\<not> has_key k (vs ! i)" by (auto simp: has_key_def)
    then show ?thesis using False by (simp add: var_map_unaffected)
  qed
  with inv' show ?thesis by blast
qed

lemma var_map_delete:
  assumes inv: "var_inv vs" "i < MAX_VARIABLES" and k: "has_key k (vs ! i)"
  shows "var_inv (vs[i := EMPTY_VAR]) \<and> var_map (vs[i := EMPTY_VAR]) = (var_map vs)(k := None)"
proof -
  have inv': "var_inv (vs[i := EMPTY_VAR])"
    using inv by (intro var_inv_update) auto
  have len: "length vs = MAX_VARIABLES" using inv by (simp add: var_inv_def)
  have "var_map (vs[i := EMPTY_VAR]) k' = ((var_map vs)(k := None)) k'" for k'
  proof (cases "k' = k")
    case True
    have "\<forall>j < length vs. has_key k (vs ! j) \<longrightarrow> j = i"
      using var_inv_unique[OF inv(1) _ inv(2) _ k] len by simp
    with position_update_remove[OF position_has_key[OF inv k], of EMPTY_VAR] True show ?thesis
      by (simp add: var_map_def has_key_def)
  next
    case False
    with k have nk: "\<not> has_key k' EMPTY_VAR" "\<not> has_key k' (vs ! i)" by (auto simp: has_key_def)
    then show ?thesis using False by (simp add: var_map_unaffected)
  qed
  with inv' show ?thesis by blast
qed

section \<open>The store refines a bounded map\<close>

lemma find_matches:
  assumes "var_inv vs" "read_name p MAX_NAME_UNITS = Some (b, n)"
  shows "position (var_matches g b n) vs = position (has_key (take n b, g)) vs"
  using assms read_name_SomeD(1,2)[OF assms(2)]
  by (intro position_cong var_matches_key) (auto intro: var_inv_ok)

lemma find_matches_find:
  assumes "var_inv vs" "read_name p MAX_NAME_UNITS = Some (b, n)"
  shows "find (var_matches g b n) vs = map_option ((!) vs) (position (has_key (take n b, g)) vs)"
  by (simp add: find_eq_position find_matches[OF assms])

lemma position_var_None:
  "position (has_key k) vs = None \<longleftrightarrow> var_map vs k = None"
  by (simp add: var_map_def)

text \<open>What \<^verbatim>\<open>SetVariable\<close> means on the abstract map; the store's capacity shows only for new keys.\<close>

definition set_spec ::
  "nat \<Rightarrow> (u16 list \<times> efi_guid \<Rightarrow> (u32 \<times> u8 list) option) \<Rightarrow> u16 list option \<Rightarrow> efi_guid \<Rightarrow> u32 \<Rightarrow> u8 list \<Rightarrow>
   (var_error + unit) \<times> (u16 list \<times> efi_guid \<Rightarrow> (u32 \<times> u8 list) option)" where
  "set_spec live_count m name guid attributes data =
     (case name of
        None \<Rightarrow> (Inl VarInvalidParameter, m)
      | Some nm \<Rightarrow>
          if length data > MAX_DATA_LEN then (Inl VarOutOfResources, m)
          else if data = [] then
            (if m (nm, guid) = None then (Inl VarNotFound, m) else (Inr (), m((nm, guid) := None)))
          else if m (nm, guid) = None \<and> live_count \<ge> MAX_VARIABLES then (Inl VarOutOfResources, m)
          else (Inr (), m((nm, guid) \<mapsto> (attributes, data))))"

lemma var_set_update:
  assumes inv: "var_inv vs" and rn: "read_name p MAX_NAME_UNITS = Some (b, n)" "guid_ok g"
    and len: "length data \<le> MAX_DATA_LEN" "data \<noteq> []"
    and i: "i < MAX_VARIABLES"
    and free: "v_in_use (vs ! i) \<longrightarrow> var_key (vs ! i) = (take n b, g)"
    and uniq: "\<forall>j < MAX_VARIABLES. has_key (take n b, g) (vs ! j) \<longrightarrow> j = i"
    and v: "v = (vs ! i)\<lparr>v_in_use := True, v_name := nm, v_name_len := n', v_guid := g,
       v_attributes := a, v_data := put_seg (v_data (vs ! i)) 0 data, v_data_len := length data\<rparr>"
    and nm: "take n' nm = take n b" "length nm = MAX_NAME_UNITS" "n' \<le> MAX_NAME_UNITS"
  shows "var_inv (vs[i := v]) \<and> var_map (vs[i := v]) = (var_map vs)((take n b, g) \<mapsto> (a, data))"
proof -
  have ok: "var_ok (vs ! i)" using inv i by (simp add: var_inv_def)
  have key: "var_key v = (take n b, g)" by (simp add: v var_key_def nm)
  have val: "var_val v = (a, data)"
    using ok len take_put_seg_end[of 0 data "v_data (vs ! i)"] by (simp add: v var_val_def var_ok_def)
  have vok: "var_ok v"
    using ok len read_name_SomeD[OF rn(1)] rn(2) key nm by (simp add: v var_ok_def)
  from var_map_update[OF inv i vok] free uniq show ?thesis
    unfolding key val by (simp add: v)
qed

lemma var_set_absent:
  assumes inv: "var_inv vs" and rn: "read_name p MAX_NAME_UNITS = Some (b, n)" and g: "guid_ok g"
    and absent: "position (has_key (take n b, g)) vs = None"
    and data: "length data \<le> MAX_DATA_LEN" "data \<noteq> []"
  shows "case var_set vs p g a data of (r, vs') \<Rightarrow> var_inv vs' \<and>
    (r, var_map vs') = (if card (live v_in_use vs) \<ge> MAX_VARIABLES then (Inl VarOutOfResources, var_map vs)
       else (Inr (), (var_map vs)((take n b, g) \<mapsto> (a, data))))"
proof (cases "first_free v_in_use vs")
  case None
  with data inv absent var_slots.first_free_None[of vs] var_inv_length[OF inv] show ?thesis
    by (simp add: var_set_def rn find_matches[OF inv rn])
next
  case (Some i)
  note ff = var_slots.first_free_Some[OF Some] and len = var_inv_length[OF inv]
  have "card (live v_in_use vs) < MAX_VARIABLES"
    using var_slots.card_live_take[OF Some, of "EMPTY_VAR\<lparr>v_in_use := True\<rparr>"]
      var_slots.live_capacity[of "vs[i := EMPTY_VAR\<lparr>v_in_use := True\<rparr>]"] len by simp
  moreover have uniq: "\<forall>j < MAX_VARIABLES. has_key (take n b, g) (vs ! j) \<longrightarrow> j = i"
    using absent len by (auto simp: position_None_iff)
  ultimately show ?thesis
    using var_set_update[OF inv rn g data _ _ uniq refl refl, of a] ff read_name_SomeD[OF rn] data absent len
    by (simp add: var_set_def rn find_matches[OF inv rn] Some)
qed

lemma var_set_present:
  assumes inv: "var_inv vs" and rn: "read_name p MAX_NAME_UNITS = Some (b, n)" and g: "guid_ok g"
    and present: "position (has_key (take n b, g)) vs = Some i"
    and data: "length data \<le> MAX_DATA_LEN" "data \<noteq> []"
  shows "case var_set vs p g a data of (r, vs') \<Rightarrow> var_inv vs' \<and> r = Inr () \<and>
    var_map vs' = (var_map vs)((take n b, g) \<mapsto> (a, data))"
proof -
  have i: "i < MAX_VARIABLES" "has_key (take n b, g) (vs ! i)"
    using present var_inv_length[OF inv] by (auto dest!: position_SomeD)
  have uniq: "\<forall>j < MAX_VARIABLES. has_key (take n b, g) (vs ! j) \<longrightarrow> j = i"
    using position_has_key[OF inv] present by auto
  have same: "v_in_use (vs ! i)" "v_guid (vs ! i) = g"
      "take (v_name_len (vs ! i)) (v_name (vs ! i)) = take n b"
    using i(2) by (auto simp: has_key_def var_key_def)
  have ok: "length (v_name (vs ! i)) = MAX_NAME_UNITS" "v_name_len (vs ! i) \<le> MAX_NAME_UNITS"
    using inv i(1) by (simp_all add: var_inv_def var_ok_def)
  have "(vs ! i)\<lparr>v_attributes := a, v_data := put_seg (v_data (vs ! i)) 0 data, v_data_len := length data\<rparr>
     = (vs ! i)\<lparr>v_in_use := True, v_name := v_name (vs ! i), v_name_len := v_name_len (vs ! i),
        v_guid := g, v_attributes := a, v_data := put_seg (v_data (vs ! i)) 0 data, v_data_len := length data\<rparr>"
    using same by simp
  from var_set_update[OF inv rn g data i(1) _ uniq this same(3) ok] i(2) present data show ?thesis
    by (simp add: var_set_def rn find_matches[OF inv rn] has_key_def)
qed

lemma var_set_delete:
  assumes inv: "var_inv vs" and rn: "read_name p MAX_NAME_UNITS = Some (b, n)"
  shows "case var_set vs p g a [] of (r, vs') \<Rightarrow> var_inv vs' \<and>
    (r, var_map vs') = (if var_map vs (take n b, g) = None then (Inl VarNotFound, var_map vs)
       else (Inr (), (var_map vs)((take n b, g) := None)))"
proof (cases "position (has_key (take n b, g)) vs")
  case (Some i)
  then have i: "i < MAX_VARIABLES" "has_key (take n b, g) (vs ! i)"
    using var_inv_length[OF inv] by (auto dest!: position_SomeD)
  with Some var_map_delete[OF inv i] show ?thesis
    by (simp add: var_set_def rn find_matches[OF inv rn]) (simp add: var_map_def)
qed (use inv in \<open>simp add: var_set_def rn find_matches[OF inv rn] var_map_def\<close>)

text \<open>
  Storing is an update of a bounded map keyed by (name, GUID): non-empty data binds the
  key, empty data removes it, and it fails (changing nothing) exactly when the name has no
  terminator within 32 units, the data exceed 512 bytes, a deleted variable does not exist, or a
  new variable meets a full store. The store's invariant is kept.
\<close>

lemma var_set_refines:
  assumes inv: "var_inv vs" and g: "guid_ok g"
  shows "case var_set vs p g a data of (r, vs') \<Rightarrow>
     var_inv vs' \<and> (r, var_map vs') =
       set_spec (card (live v_in_use vs)) (var_map vs) (name_at p) g a data"
proof (cases "read_name p MAX_NAME_UNITS")
  case None
  then show ?thesis using inv by (simp add: var_set_def set_spec_def name_at_def)
next
  case (Some bn)
  then obtain b n where rn: "read_name p MAX_NAME_UNITS = Some (b, n)" by (cases bn) auto
  show ?thesis
  proof (cases "length data > MAX_DATA_LEN \<or> data = []")
    case True
    then show ?thesis using inv rn var_set_delete[OF inv rn, of g a]
      by (auto simp: var_set_def set_spec_def name_at_def)
  next
    case False
    with var_set_absent[OF inv rn g, of data a] var_set_present[OF inv rn g _, of _ data a]
    show ?thesis
      by (cases "position (has_key (take n b, g)) vs")
        (auto simp: set_spec_def name_at_def rn var_map_def)
  qed
qed

lemma demo_store:
  shows "var_inv (snd (var_set VARS_INIT (name_nt [0x41]) zero_guid 7 [1, 2]))"
    and "var_map (snd (var_set VARS_INIT (name_nt [0x41]) zero_guid 7 [1, 2])) =
      [([0x41], zero_guid) \<mapsto> (7, [1, 2])]"
proof -
  obtain b n where rn: "read_name (name_nt [0x41]) MAX_NAME_UNITS = Some (b, n)" "take n b = [0x41]"
    using name_at_name_nt[of "[0x41]"] by (auto simp: name_at_def name_ok_def MAX_NAME_UNITS_def)
  have "position (has_key ([0x41], zero_guid)) VARS_INIT = None" "card (live v_in_use VARS_INIT) = 0"
    using fun_cong[OF var_map_init] var_slots.all_free_replicate[of MAX_VARIABLES]
    by (simp_all add: var_map_def VARS_INIT_def)
  with var_set_absent[OF var_inv_init rn(1) guid_ok_zero, of "[1, 2]" 7] rn(2)
  have "case var_set VARS_INIT (name_nt [0x41]) zero_guid 7 [1, 2] of (r, vs') \<Rightarrow>
     var_inv vs' \<and> (r, var_map vs') = (Inr (), [([0x41], zero_guid) \<mapsto> (7, [1, 2])])"
    by (simp add: MAX_DATA_LEN_def MAX_VARIABLES_def var_map_init)
  then show "var_inv (snd (var_set VARS_INIT (name_nt [0x41]) zero_guid 7 [1, 2]))"
    and "var_map (snd (var_set VARS_INIT (name_nt [0x41]) zero_guid 7 [1, 2])) =
      [([0x41], zero_guid) \<mapsto> (7, [1, 2])]"
    by (auto split: prod.splits)
qed

text \<open>
  Reading is a lookup in that map: it returns the attributes, the length and the data of the
  binding (the caller's bytes beyond them untouched), or BufferTooSmall with the size needed, or
  NotFound when the key is not bound.
\<close>

lemma var_get_refines:
  assumes inv: "var_inv vs"
  shows "var_get vs p g buf =
     (case name_at p of
        None \<Rightarrow> (Inl VarInvalidParameter, buf)
      | Some nm \<Rightarrow>
          (case var_map vs (nm, g) of
             None \<Rightarrow> (Inl VarNotFound, buf)
           | Some (a, d) \<Rightarrow>
               if length buf < length d then (Inl (VarBufferTooSmall (length d)), buf)
               else (Inr (a, length d), d @ drop (length d) buf)))"
proof (cases "read_name p MAX_NAME_UNITS")
  case None
  then show ?thesis by (simp add: var_get_def name_at_def)
next
  case (Some bn)
  then obtain b n where rn: "read_name p MAX_NAME_UNITS = Some (b, n)" by (cases bn) auto
  show ?thesis
  proof (cases "position (has_key (take n b, g)) vs")
    case None
    then show ?thesis
      by (simp add: var_get_def name_at_def rn find_matches_find[OF inv rn] var_map_def)
  next
    case Some2: (Some i)
    then have "var_ok (vs ! i)"
      using inv var_inv_length[OF inv] by (auto simp: var_inv_def dest!: position_SomeD)
    then have "length (take (v_data_len (vs ! i)) (v_data (vs ! i))) = v_data_len (vs ! i)"
      by (simp add: var_ok_def)
    then show ?thesis
      by (simp add: var_get_def name_at_def rn find_matches_find[OF inv rn] var_map_def Some2
          var_val_def put_seg_def)
  qed
qed

section \<open>Serialisation\<close>

definition var_put :: "var_store \<Rightarrow> u16 list \<times> efi_guid \<Rightarrow> u32 \<times> u8 list \<Rightarrow> var_store option" where
  "var_put vs k v =
     (case var_set vs (name_nt (fst k)) (snd k) (fst v) (snd v) of
        (Inr _, vs') \<Rightarrow> Some vs' | (Inl _, _) \<Rightarrow> None)"

definition var_valid :: "u16 list \<times> efi_guid \<Rightarrow> u32 \<times> u8 list \<Rightarrow> bool" where
  "var_valid k v \<longleftrightarrow> name_ok (fst k) \<and> guid_ok (snd k) \<and> snd v \<noteq> [] \<and> length (snd v) \<le> MAX_DATA_LEN"

lemma var_put_spec:
  assumes "var_inv vs" "var_valid k v"
  shows "case var_put vs k v of
      None \<Rightarrow> var_map vs k = None \<and> card (live v_in_use vs) \<ge> MAX_VARIABLES
    | Some vs' \<Rightarrow> var_inv vs' \<and> var_map vs' = (var_map vs)(k \<mapsto> v)"
proof -
  have v: "name_ok (fst k)" "guid_ok (snd k)" "snd v \<noteq> []" "length (snd v) \<le> MAX_DATA_LEN"
    using assms(2) by (simp_all add: var_valid_def)
  then obtain b n where rn: "read_name (name_nt (fst k)) MAX_NAME_UNITS = Some (b, n)" "take n b = fst k"
    using name_at_name_nt[of "fst k"] by (auto simp: name_at_def)
  have k: "(take n b, snd k) = k" by (simp add: rn(2))
  show ?thesis
    using var_set_absent[OF assms(1) rn(1) v(2) _ v(4,3), of "fst v"]
      var_set_present[OF assms(1) rn(1) v(2) _ v(4,3), of _ "fst v"]
    unfolding k by (cases "position (has_key k) vs")
      (auto simp: var_put_def var_map_def split: prod.splits sum.splits if_splits)
qed

interpretation vstore: overwriting_store var_map var_put var_inv var_valid
proof
  fix vs vs' :: var_store and k k' :: "u16 list \<times> efi_guid" and v
  assume "var_inv vs" "var_valid k v" "var_put vs k v = Some vs'"
  with var_put_spec[of vs k v] have "var_inv vs'" "var_map vs' = (var_map vs)(k \<mapsto> v)" by simp_all
  then show "var_map vs' k = Some v" "var_map vs' k = Some v" "k' \<noteq> k \<Longrightarrow> var_map vs' k' = var_map vs k'" "var_inv vs'"
    by simp_all
qed

text \<open>A live slot is a bound key.\<close>

lemma dom_var_map:
  assumes "var_inv vs"
  shows "dom (var_map vs) = (\<lambda>i. var_key (vs ! i)) ` live v_in_use vs"
proof -
  have "var_map vs k \<noteq> None \<longleftrightarrow> (\<exists>i < MAX_VARIABLES. has_key k (vs ! i))" for k
    using var_map_lookup[OF assms, of k] by (metis not_None_eq)
  then show ?thesis
    using var_inv_length[OF assms] by (auto simp: dom_def live_def has_key_def image_def)
qed

lemma card_dom_var_map:
  assumes "var_inv vs"
  shows "card (dom (var_map vs)) = card (live v_in_use vs)"
proof -
  have "inj_on (\<lambda>i. var_key (vs ! i)) (live v_in_use vs)"
    using var_inv_unique[OF assms] var_inv_length[OF assms]
    by (auto simp: inj_on_def live_def has_key_def)
  then show ?thesis by (simp add: dom_var_map[OF assms] card_image)
qed

lemma finite_dom_var_map: "var_inv vs \<Longrightarrow> finite (dom (var_map vs))"
  by (simp add: dom_var_map live_def)

lemma put_all_enough_room:
  "var_inv vs \<Longrightarrow> \<forall>kv \<in> set kvs. var_valid (fst kv) (snd kv) \<Longrightarrow>
   card (dom (var_map vs)) + length kvs \<le> MAX_VARIABLES \<Longrightarrow> \<exists>vs'. put_all var_put vs kvs = Some vs'"
proof (induction kvs arbitrary: vs)
  case Nil
  then show ?case by simp
next
  case (Cons kv kvs)
  have val: "var_valid (fst kv) (snd kv)" using Cons.prems(2) by simp
  obtain vs1 where vs1: "var_put vs (fst kv) (snd kv) = Some vs1"
    using var_put_spec[OF Cons.prems(1) val] Cons.prems(3) card_dom_var_map[OF Cons.prems(1)]
    by (auto split: option.splits)
  have "card (dom (var_map vs1)) \<le> Suc (card (dom (var_map vs)))"
    using vstore.put_map[OF Cons.prems(1) val vs1] finite_dom_var_map[OF Cons.prems(1)]
    by (simp add: card_insert_if)
  with Cons vstore.put_invar[OF Cons.prems(1) val vs1] vs1 show ?case by auto
qed

lemma foldl_emit:
  "pos + length (concat fs) \<le> length buf \<Longrightarrow>
   foldl emit (buf, pos) fs = (put_seg buf pos (concat fs), pos + length (concat fs))"
proof (induction fs arbitrary: buf pos)
  case Nil
  then show ?case by simp
next
  case (Cons f fs)
  then show ?case by (simp add: emit_def put_seg_append add.assoc)
qed

definition entry_bytes :: "variable \<Rightarrow> u8 list" where
  "entry_bytes v = concat (entry_fields v)"

lemma length_entry_bytes: "var_ok v \<Longrightarrow> length (entry_bytes v) = entry_len v"
  by (simp add: entry_bytes_def entry_fields_def entry_len_def var_ok_def guid_ok_def)

definition store_bytes :: "variable list \<Rightarrow> u8 list" where
  "store_bytes vs = concat (map entry_bytes (filter v_in_use vs))"

lemma store_bytes_simps [simp]:
  "store_bytes [] = []"
  "store_bytes (v # vs) = (if v_in_use v then entry_bytes v @ store_bytes vs else store_bytes vs)"
  by (simp_all add: store_bytes_def)

lemma serialize_loop_spec:
  "\<forall>v \<in> set vs. var_ok v \<Longrightarrow>
   fst (serialize_loop vs buf pos count) =
     (if pos + length (store_bytes vs) \<le> length buf \<or> filter v_in_use vs = []
      then Some (pos + length (store_bytes vs), count + of_nat (length (filter v_in_use vs))) else None) \<and>
   (pos + length (store_bytes vs) \<le> length buf \<longrightarrow>
      snd (serialize_loop vs buf pos count) = put_seg buf pos (store_bytes vs))"
proof (induction vs arbitrary: buf pos count)
  case Nil
  then show ?case by simp
next
  case (Cons v vs)
  have len: "length (concat (entry_fields v)) = entry_len v"
    using Cons.prems length_entry_bytes by (simp add: entry_bytes_def)
  have empty: "store_bytes vs = []" if "filter v_in_use vs = []" using that by (simp add: store_bytes_def)
  show ?case
    using Cons len empty put_seg_append[of pos "concat (entry_fields v)" "store_bytes vs" buf]
    by (auto simp: foldl_emit entry_bytes_def add.assoc)
qed

text \<open>What a successful serialisation leaves in the buffer.\<close>

lemma serialize_bytes:
  assumes "var_inv vs" "8 + length (store_bytes vs) \<le> length buf"
  shows "\<exists>buf'. serialize vs buf = (Some (8 + length (store_bytes vs)), buf') \<and> length buf' = length buf \<and>
     take (8 + length (store_bytes vs)) buf' =
       MAGIC @ le32 (of_nat (length (filter v_in_use vs))) @ store_bytes vs"
proof -
  have ok: "\<forall>v \<in> set vs. var_ok v" using var_inv_ok[OF assms(1)] by simp
  have lm: "length MAGIC = 4" by (simp add: MAGIC_def)
  let ?buf1 = "put_seg (put_seg buf 0 MAGIC) 8 (store_bytes vs)"
  let ?cnt = "le32 (of_nat (length (filter v_in_use vs)))"
  have len1: "length ?buf1 = length buf" using assms(2) lm by simp
  have "serialize vs buf = (Some (8 + length (store_bytes vs)), put_seg ?buf1 4 ?cnt)"
    using serialize_loop_spec[OF ok, of "put_seg buf 0 MAGIC" 8 0] assms(2) lm
    by (auto simp: serialize_def split: prod.splits)
  moreover have "take (8 + length (store_bytes vs)) (put_seg ?buf1 4 ?cnt) = MAGIC @ ?cnt @ store_bytes vs"
    using assms(2) lm by (simp add: put_seg_def)
  ultimately show ?thesis using len1 assms(2) by auto
qed

lemma parse_entry_bytes:
  assumes ok: "var_ok v" and buf: "buf = pre @ entry_bytes v @ post"
  shows "parse_entry buf (length pre) =
    Some (\<lparr>en_name = fst (var_key v), en_guid = snd (var_key v), en_attributes = fst (var_val v),
           en_data = snd (var_val v)\<rparr>, length pre + entry_len v)"
proof -
  let ?nm = "take (v_name_len v) (v_name v)" and ?d = "take (v_data_len v) (v_data v)"
  have lens: "length ?nm = v_name_len v" "length ?d = v_data_len v" "length (data4 (v_guid v)) = 8"
    "v_name_len v \<le> 32" "v_data_len v \<le> 512"
    using ok by (simp_all add: var_ok_def guid_ok_def MAX_NAME_UNITS_def MAX_DATA_LEN_def)
  have small: "unat (of_nat (v_name_len v) :: u16) = v_name_len v" "unat (of_nat (v_data_len v) :: u32) = v_data_len v"
    using lens by (simp_all add: unat_of_nat)
  have b: "buf = pre @ le16 (of_nat (v_name_len v)) @ concat (map le16 ?nm) @ le32 (data1 (v_guid v)) @
      le16 (data2 (v_guid v)) @ le16 (data3 (v_guid v)) @ data4 (v_guid v) @ le32 (v_attributes v) @
      le32 (of_nat (v_data_len v)) @ ?d @ post"
    by (simp add: buf entry_bytes_def entry_fields_def)
  have len: "length buf = length pre + entry_len v + length post"
    by (simp add: buf length_entry_bytes[OF ok])
  note at = seg_append_right seg_0_append
  have names: "map (\<lambda>i. rd16 (seg buf (length pre + 2 + 2 * i) 2)) [0..<v_name_len v] = ?nm"
  proof (rule nth_equalityI)
    fix i assume "i < length (map (\<lambda>i. rd16 (seg buf (length pre + 2 + 2 * i) 2)) [0..<v_name_len v])"
    then have "i < length ?nm" using lens(1) by simp
    then show "map (\<lambda>i. rd16 (seg buf (length pre + 2 + 2 * i) 2)) [0..<v_name_len v] ! i = ?nm ! i"
      unfolding b using seg_concat_to_le[of i ?nm 2] lens(1) by (simp add: at)
  qed (use lens in simp)
  have "seg buf (length pre) 2 = le16 (of_nat (v_name_len v))"
    "seg buf (length pre + 2 + 2 * v_name_len v) 4 = le32 (data1 (v_guid v))"
    "seg buf (length pre + 2 + 2 * v_name_len v + 4) 2 = le16 (data2 (v_guid v))"
    "seg buf (length pre + 2 + 2 * v_name_len v + 6) 2 = le16 (data3 (v_guid v))"
    "seg buf (length pre + 2 + 2 * v_name_len v + 8) 8 = data4 (v_guid v)"
    "seg buf (length pre + 2 + 2 * v_name_len v + 16) 4 = le32 (v_attributes v)"
    "seg buf (length pre + 2 + 2 * v_name_len v + 16 + 4) 4 = le32 (of_nat (v_data_len v))"
    "seg buf (length pre + 2 + 2 * v_name_len v + 16 + 4 + 4) (v_data_len v) = ?d"
    unfolding b using lens by (simp_all add: at)
  with names show ?thesis
    using lens small len
    by (simp add: parse_entry_def var_key_def var_val_def MAX_NAME_UNITS_def MAX_DATA_LEN_def entry_len_def Let_def)
qed

definition store_entries :: "variable list \<Rightarrow> ((u16 list \<times> efi_guid) \<times> u32 \<times> u8 list) list" where
  "store_entries vs = map (\<lambda>v. (var_key v, var_val v)) (filter v_in_use vs)"

lemma deserialize_loop_entries:
  "\<forall>v \<in> set vs. var_ok v \<Longrightarrow> put_all var_put st (store_entries vs) = Some st' \<Longrightarrow>
   deserialize_loop (length (filter v_in_use vs)) st (pre @ store_bytes vs @ post) (length pre) loaded =
     (loaded + length (filter v_in_use vs), st')"
proof (induction vs arbitrary: st pre loaded)
  case Nil
  then show ?case by (simp add: store_entries_def)
next
  case (Cons v vs)
  show ?case
  proof (cases "v_in_use v")
    case False
    with Cons show ?thesis by (simp add: store_entries_def)
  next
    case True
    with Cons.prems obtain st1 where st1: "var_put st (var_key v) (var_val v) = Some st1"
      "put_all var_put st1 (store_entries vs) = Some st'"
      by (auto simp: store_entries_def split: option.splits)
    have ok: "var_ok v" using Cons.prems by simp
    have "var_set st (name_nt (fst (var_key v))) (snd (var_key v)) (fst (var_val v)) (snd (var_val v)) = (Inr (), st1)"
      using st1(1) by (auto simp: var_put_def split: prod.splits sum.splits)
    with True Cons.IH[OF _ st1(2), of "pre @ entry_bytes v"] Cons.prems(1)
      parse_entry_bytes[OF ok, of _ pre "store_bytes vs @ post"]
    show ?thesis by (simp add: length_entry_bytes[OF ok])
  qed
qed

lemma distinct_keys: "var_inv vs \<Longrightarrow> distinct (map var_key (filter v_in_use vs))"
  using var_inv_unique var_inv_length by (intro distinct_map_filterI) (auto simp: has_key_def)

lemma var_map_entries: "var_map vs = map_of (store_entries vs)"
proof -
  have "map_of (store_entries vs) k = map_option (\<lambda>i. var_val (vs ! i)) (position (has_key k) vs)" for k
    by (induction vs) (auto simp: store_entries_def has_key_def option.map_comp comp_def)
  then show ?thesis by (simp add: fun_eq_iff var_map_def)
qed

lemma live_count: "var_inv vs \<Longrightarrow> length (filter v_in_use vs) = card (dom (var_map vs))"
  by (simp add: card_dom_var_map length_filter_conv_card live_def)

lemma store_entries_valid:
  assumes "var_inv vs"
  shows "\<forall>kv \<in> set (store_entries vs). var_valid (fst kv) (snd kv)"
proof
  fix kv assume "kv \<in> set (store_entries vs)"
  then obtain v where v: "kv = (var_key v, var_val v)" "v_in_use v" "var_ok v"
    using var_inv_ok[OF assms] by (auto simp: store_entries_def)
  then have "0 < v_data_len v" "v_data_len v \<le> MAX_DATA_LEN" "length (v_data v) = MAX_DATA_LEN" by (auto simp: var_ok_def)
  then have "take (v_data_len v) (v_data v) \<noteq> []" by (metis length_0_conv length_take min.absorb2 less_irrefl)
  with v show "var_valid (fst kv) (snd kv)"
    by (auto simp: var_valid_def var_ok_def var_key_def var_val_def)
qed

lemma serialize_SomeD:
  assumes "var_inv vs" "serialize vs buf = (Some n, buf')"
  shows "8 + length (store_bytes vs) \<le> length buf"
proof -
  have "\<forall>v \<in> set vs. var_ok v" using var_inv_ok[OF assms(1)] by simp
  from serialize_loop_spec[OF this, of "put_seg buf 0 MAGIC" 8 0] assms(2) show ?thesis
    by (auto simp: serialize_def MAGIC_def store_bytes_def split: if_splits option.splits prod.splits)
qed

lemma length_store_bytes_single:
  assumes inv: "var_inv vs" and m: "var_map vs = [k \<mapsto> x]"
  shows "length (store_bytes vs) = 26 + 2 * length (fst k) + length (snd x)"
proof -
  have "length (filter v_in_use vs) = 1" by (simp add: live_count[OF inv] m)
  then obtain v where v: "filter v_in_use vs = [v]" by (auto simp: length_Suc_conv)
  then have "v \<in> set vs" by (metis filter_is_subset list.set_intros(1) subsetD)
  then have ok: "var_ok v" by (rule var_inv_ok[OF inv])
  have "var_map vs (var_key v) = Some (var_val v)" using v by (simp add: var_map_entries store_entries_def)
  then have "var_key v = k" "var_val v = x" by (simp_all add: m split: if_splits)
  moreover have "length (fst (var_key v)) = v_name_len v" "length (snd (var_val v)) = v_data_len v"
    using ok by (simp_all add: var_key_def var_val_def var_ok_def)
  ultimately show ?thesis
    using length_entry_bytes[OF ok] by (simp add: store_bytes_def v entry_len_def)
qed

text \<open>The image of a store: loading it merges its variables into the current ones.\<close>

definition store_image :: "var_store \<Rightarrow> u8 list" where
  "store_image vs = MAGIC @ le32 (of_nat (length (filter v_in_use vs))) @ store_bytes vs"

lemma length_store_image: "length (store_image vs) = 8 + length (store_bytes vs)"
  by (simp add: store_image_def MAGIC_def)

lemma deserialize_image:
  assumes vs: "var_inv vs" and st: "var_inv st"
    and room: "card (dom (var_map st)) + card (dom (var_map vs)) \<le> MAX_VARIABLES"
  shows "\<exists>st'. deserialize st (store_image vs @ post) = (Some (card (dom (var_map vs))), st') \<and>
    var_inv st' \<and> var_map st' = var_map st ++ var_map vs"
proof -
  let ?c = "length (filter v_in_use vs)" and ?img = "store_image vs @ post"
  have lm: "length MAGIC = 4" by (simp add: MAGIC_def)
  have c: "?c \<le> 32" using room by (simp add: live_count[OF vs] MAX_VARIABLES_def)
  then have uc: "unat (of_nat ?c :: u32) = ?c" by (simp add: unat_of_nat)
  have "length (store_entries vs) = ?c" by (simp add: store_entries_def)
  with put_all_enough_room[OF st store_entries_valid[OF vs]] room
  obtain st' where st': "put_all var_put st (store_entries vs) = Some st'"
    by (auto simp: live_count[OF vs])
  have "deserialize_loop ?c st ?img 8 0 = (?c, st')"
    using deserialize_loop_entries[OF _ st', of "MAGIC @ le32 (of_nat ?c)" post 0] var_inv_ok[OF vs]
    by (simp add: store_image_def lm)
  moreover have "seg ?img 0 4 = MAGIC" "seg ?img 4 4 = le32 (of_nat ?c)"
    by (simp_all add: store_image_def lm seg_append_right seg_0_append)
  ultimately have "deserialize st ?img = (Some ?c, st')"
    by (simp add: deserialize_def store_image_def lm uc)
  moreover have "distinct (map fst (store_entries vs))"
    using distinct_keys[OF vs] by (simp add: store_entries_def comp_def)
  then have "map_of (rev (store_entries vs)) = var_map vs"
    by (simp add: map_of_rev var_map_entries)
  ultimately show ?thesis
    using vstore.put_all_map[OF st store_entries_valid[OF vs] st'] live_count[OF vs] by simp
qed

text \<open>
  C10: the persisted image is a faithful copy: loading the bytes that serialisation wrote (whatever
  follows them in the file) merges exactly the serialised variables into the store, overwriting
  variables of the same name and GUID and keeping the others, when the store has room.
\<close>

theorem serialize_deserialize:
  assumes vs: "var_inv vs" and st: "var_inv st" and ser: "serialize vs buf = (Some n, buf')"
    and room: "card (dom (var_map st)) + card (dom (var_map vs)) \<le> MAX_VARIABLES"
  shows "\<exists>st'. deserialize st (take n buf' @ post) = (Some (card (dom (var_map vs))), st') \<and>
    var_inv st' \<and> var_map st' = var_map st ++ var_map vs"
proof -
  have "take n buf' = store_image vs"
    using serialize_bytes[OF vs serialize_SomeD[OF vs ser]] ser by (auto simp: store_image_def)
  with deserialize_image[OF vs st room, of post] show ?thesis by simp
qed

theorem serialize_deserialize_witness:
  "\<exists>n buf' st'. serialize (snd (var_set VARS_INIT (name_nt [0x41]) zero_guid 7 [1, 2])) (replicate 64 0) = (Some n, buf')
     \<and> deserialize VARS_INIT (take n buf' @ [0xFF]) = (Some 1, st')
     \<and> var_map st' ([0x41], zero_guid) = Some (7, [1, 2])"
proof -
  let ?vs = "snd (var_set VARS_INIT (name_nt [0x41]) zero_guid 7 [1, 2])"
  note inv = demo_store(1)
  have "length (store_bytes ?vs) \<le> 56"
    using length_store_bytes_single[OF inv demo_store(2)] by simp
  then obtain buf' where ser: "serialize ?vs (replicate 64 0) = (Some (8 + length (store_bytes ?vs)), buf')"
    using serialize_bytes[OF inv, of "replicate 64 0"] by auto
  have "card (dom (var_map VARS_INIT)) + card (dom (var_map ?vs)) \<le> MAX_VARIABLES"
    by (simp add: var_map_init demo_store(2) MAX_VARIABLES_def)
  from serialize_deserialize[OF inv var_inv_init ser this, of "[0xFF]"] ser show ?thesis
    by (auto simp: demo_store(2) var_map_init)
qed

text \<open>
  QueryVariableInfo's remaining-space figure never underflows: it is the capacity of 16384
  bytes less the sum of the stored data lengths.
\<close>

theorem storage_info_no_underflow:
  assumes "var_inv vs"
  shows "case storage_info vs of (capacity, remaining, biggest) \<Rightarrow> unat capacity = 16384 \<and> unat biggest = 512 \<and>
    unat remaining + sum_list (map (\<lambda>v. length (snd (var_val v))) (filter v_in_use vs)) = 16384"
proof -
  let ?used = "sum_list (map v_data_len (filter v_in_use vs))"
  have "map (\<lambda>v. length (snd (var_val v))) (filter v_in_use vs) = map v_data_len (filter v_in_use vs)"
    using var_inv_ok[OF assms] by (auto simp: var_val_def var_ok_def)
  then have "sum_list (map (\<lambda>v. length (snd (var_val v))) (filter v_in_use vs)) = ?used"
    by (rule arg_cong)
  moreover have "?used \<le> length (filter v_in_use vs) * 512"
    using var_inv_ok[OF assms] by (intro sum_list_map_le) (auto simp: var_ok_def MAX_DATA_LEN_def)
  then have "?used \<le> 16384"
    using length_filter_le[of v_in_use vs] var_inv_length[OF assms] by (simp add: MAX_VARIABLES_def)
  then have "unat (16384 - of_nat ?used :: u64) = 16384 - ?used"
    by (subst unat_sub) (simp_all add: word_le_nat_alt unat_of_nat)
  ultimately show ?thesis
    using \<open>?used \<le> 16384\<close> by (simp add: storage_info_def Let_def MAX_VARIABLES_def MAX_DATA_LEN_def)
qed

theorem storage_info_no_underflow_witness:
  "unat (fst (snd (storage_info VARS_INIT))) = 16384"
  using storage_info_no_underflow[OF var_inv_init] by (auto simp: VARS_INIT_def split: prod.splits)

section \<open>Enumeration\<close>

text \<open>
  The way \<^verbatim>\<open>GetNextVariableName\<close> is used: one buffer holds the previous name and receives the
  next one, until an error comes back. The list of what was returned, and the error that ended it.
\<close>

primrec enumerate_vars ::
  "nat \<Rightarrow> var_store \<Rightarrow> u16 list \<Rightarrow> efi_guid \<Rightarrow> (u16 list \<times> efi_guid) list \<times> var_error option" where
  "enumerate_vars 0 vs buf guid = ([], None)"
| "enumerate_vars (Suc n) vs buf guid =
     (case var_get_next vs (name_nt buf) guid buf of
        (Inl e, _) \<Rightarrow> ([], Some e)
      | (Inr (len, guid'), buf') \<Rightarrow>
          (case enumerate_vars n vs buf' guid' of (ks, e) \<Rightarrow> ((take (len - 1) buf', guid') # ks, e)))"

text \<open>The slot the enumeration resumes at after \<open>(nm, g)\<close>.\<close>

definition resumes_at :: "var_store \<Rightarrow> u16 list \<Rightarrow> efi_guid \<Rightarrow> nat \<Rightarrow> bool" where
  "resumes_at vs nm g s \<longleftrightarrow>
     (if nm = [] then s = 0 else \<exists>i. position (has_key (nm, g)) vs = Some i \<and> s = Suc i)"

lemma var_get_next_step:
  assumes inv: "var_inv vs" and nm: "name_at p = Some nm" "resumes_at vs nm g s"
  shows "var_get_next vs p g out =
    (case find v_in_use (drop s vs) of
       None \<Rightarrow> (Inl VarNotFound, out)
     | Some v \<Rightarrow>
         if length out < v_name_len v + 1 then (Inl (VarBufferTooSmall (v_name_len v + 1)), out)
         else (Inr (v_name_len v + 1, v_guid v),
               (put_seg out 0 (take (v_name_len v) (v_name v)))[v_name_len v := 0]))"
proof -
  obtain b n where rn: "read_name p MAX_NAME_UNITS = Some (b, n)" "take n b = nm"
    using nm by (auto simp: name_at_def)
  have "n = length nm" using read_name_SomeD(1,2)[OF rn(1)] rn(2) by auto
  moreover have "position (var_matches g b n) vs = position (has_key (nm, g)) vs"
    by (simp add: find_matches[OF inv rn(1)] rn(2))
  ultimately have "(if n = 0 then Some 0
      else map_option Suc (position (var_matches g b n) vs)) = Some s"
    using nm(2) by (auto simp: resumes_at_def split: if_splits)
  then show ?thesis by (simp add: var_get_next_def rn(1))
qed

lemma name_at_out_buffer:
  assumes "var_ok v" "v_in_use v" "v_name_len v < length out"
  defines "out' \<equiv> (put_seg out 0 (take (v_name_len v) (v_name v)))[v_name_len v := 0]"
  shows "name_at (name_nt out') = Some (fst (var_key v))" "length out' = length out"
    "take (v_name_len v) out' = fst (var_key v)"
proof -
  have len: "length (take (v_name_len v) (v_name v)) = v_name_len v" using assms(1) by (simp add: var_ok_def)
  then show l: "length out' = length out" using assms(3) by (simp add: out'_def)
  show "take (v_name_len v) out' = fst (var_key v)"
    using len assms(3) by (simp add: out'_def put_seg_def var_key_def list_update_append)
  then have "out' ! i = fst (var_key v) ! i" if "i < v_name_len v" for i
    using that by (metis nth_take)
  moreover have "out' ! v_name_len v = 0" using l assms(3) by (simp add: out'_def)
  moreover have "name_ok (fst (var_key v))" using assms(1,2) by (simp add: var_ok_def)
  ultimately show "name_at (name_nt out') = Some (fst (var_key v))"
    using len l assms(3) by (auto simp: name_at_Some_iff name_nt_def var_key_def)
qed

lemma enumerate_from:
  assumes inv: "var_inv vs" and named: "\<forall>v \<in> set vs. v_in_use v \<longrightarrow> v_name_len v \<noteq> 0"
  shows "MAX_NAME_UNITS < length buf \<Longrightarrow> name_at (name_nt buf) = Some nm \<Longrightarrow> resumes_at vs nm g s \<Longrightarrow>
    length (filter v_in_use (drop s vs)) < n \<Longrightarrow>
    enumerate_vars n vs buf g = (map var_key (filter v_in_use (drop s vs)), Some VarNotFound)"
proof (induction n arbitrary: buf nm g s)
  case 0
  then show ?case by simp
next
  case (Suc n)
  note step = var_get_next_step[OF inv Suc.prems(2,3), of buf]
  show ?case
  proof (cases "find v_in_use (drop s vs)")
    case None
    with step find_drop_filter(1)[OF None] show ?thesis by simp
  next
    case (Some v)
    from find_drop_filter(2)[OF Some] obtain i where i: "i < length vs" "v = vs ! i" "v_in_use v"
      "filter v_in_use (drop s vs) = v # filter v_in_use (drop (Suc i) vs)" by auto
    have v: "v \<in> set vs" using i by simp
    have ok: "var_ok v" using var_inv_ok[OF inv v] .
    have nl: "v_name_len v < length buf" using ok Suc.prems(1) by (simp add: var_ok_def)
    let ?buf = "(put_seg buf 0 (take (v_name_len v) (v_name v)))[v_name_len v := 0]"
    note out = name_at_out_buffer[OF ok i(3) nl]
    have "fst (var_key v) \<noteq> []" using named v i(3) ok by (auto simp: var_key_def var_ok_def MAX_NAME_UNITS_def)
    moreover have "position (has_key (fst (var_key v), v_guid v)) vs = Some i"
      using i var_inv_length[OF inv]
      by (intro position_has_key[OF inv]) (simp_all add: has_key_def var_key_def)
    ultimately have "resumes_at vs (fst (var_key v)) (v_guid v) (Suc i)" by (simp add: resumes_at_def)
    from Suc.IH[OF _ out(1) this] out(2) i(4) Suc.prems(1,4)
    have "enumerate_vars n vs ?buf (v_guid v) = (map var_key (filter v_in_use (drop (Suc i) vs)), Some VarNotFound)"
      by simp
    moreover have "(take (v_name_len v) ?buf, v_guid v) = var_key v"
      unfolding out(3) by (simp add: var_key_def)
    ultimately show ?thesis using step Some nl i(4) by simp
  qed
qed

text \<open>
  Starting from an empty name with a buffer of 33 units, GetNextVariableName returns every
  live variable exactly once, in store order, and then NotFound, provided no live variable has an
  empty name.
\<close>

theorem enumeration_complete:
  assumes "var_inv vs" and "\<forall>v \<in> set vs. v_in_use v \<longrightarrow> v_name_len v \<noteq> 0"
    and "length buf = MAX_NAME_UNITS + 1" and "buf ! 0 = 0"
  shows "case enumerate_vars (MAX_VARIABLES + 1) vs buf g of (ks, e) \<Rightarrow>
    e = Some VarNotFound \<and> distinct ks \<and> set ks = dom (var_map vs) \<and> ks = map var_key (filter v_in_use vs)"
proof -
  have "name_at (name_nt buf) = Some []"
    using assms(3,4) by (auto simp: name_at_Some_iff name_ok_def name_nt_def)
  moreover have "length (filter v_in_use (drop 0 vs)) < MAX_VARIABLES + 1"
    using var_inv_length[OF assms(1)] length_filter_le[of v_in_use vs] by simp
  ultimately have "enumerate_vars (MAX_VARIABLES + 1) vs buf g = (map var_key (filter v_in_use vs), Some VarNotFound)"
    using enumerate_from[OF assms(1,2), of buf "[]" g 0 "MAX_VARIABLES + 1"] assms(3)
    by (simp add: resumes_at_def)
  moreover have "set (map var_key (filter v_in_use vs)) = dom (var_map vs)"
    by (simp add: var_map_entries dom_map_of_conv_image_fst store_entries_def image_image)
  ultimately show ?thesis using distinct_keys[OF assms(1)] by simp
qed

theorem enumeration_complete_witness:
  "enumerate_vars (MAX_VARIABLES + 1) VARS_INIT (replicate 33 0) zero_guid = ([], Some VarNotFound)"
proof -
  have "\<forall>v \<in> set VARS_INIT. v_in_use v \<longrightarrow> v_name_len v \<noteq> 0" by (simp add: VARS_INIT_def)
  from enumeration_complete[OF var_inv_init this, of "replicate 33 0" zero_guid] show ?thesis
    by (auto simp: MAX_NAME_UNITS_def VARS_INIT_def split: prod.splits)
qed

text \<open>
  An empty name is both a legal variable name and the start marker of the enumeration: once
  the first live slot holds a variable with the empty name, the enumeration returns that variable
  for ever and reaches no other one.
\<close>

theorem empty_name_never_ends:
  assumes inv: "var_inv vs" and v: "find v_in_use vs = Some v" "v_name_len v = 0"
    and buf: "buf \<noteq> []" "buf ! 0 = 0"
  shows "enumerate_vars n vs buf g = (replicate n ([], v_guid v), None)"
  using buf
proof (induction n arbitrary: buf g)
  case 0
  then show ?case by simp
next
  case (Suc n)
  have "name_at (name_nt buf) = Some []"
    using Suc.prems by (simp add: name_at_Some_iff name_ok_def name_nt_def)
  from var_get_next_step[OF inv this, of g 0 buf]
  have "var_get_next vs (name_nt buf) g buf = (Inr (1, v_guid v), buf[0 := 0])"
    using v Suc.prems by (simp add: resumes_at_def)
  then show ?case using Suc.IH[of "buf[0 := 0]" "v_guid v"] Suc.prems by simp
qed

lemma read_empty_name: "read_name (name_nt []) MAX_NAME_UNITS = Some (replicate MAX_NAME_UNITS 0, 0)"
  by (simp add: read_name_def read_name_loop.simps name_nt_def)

theorem empty_name_never_ends_witness:
  "\<exists>vs. fst (var_set VARS_INIT (name_nt []) zero_guid 7 [1]) = Inr () \<and>
     vs = snd (var_set VARS_INIT (name_nt []) zero_guid 7 [1]) \<and>
     enumerate_vars 1000 vs [0] zero_guid = (replicate 1000 ([], zero_guid), None)"
proof -
  let ?r = "var_set VARS_INIT (name_nt []) zero_guid 7 [1]"
  have none: "position (has_key ([], zero_guid)) VARS_INIT = None"
    using fun_cong[OF var_map_init] by (simp add: var_map_def)
  have inv: "var_inv (snd ?r)"
    using var_set_absent[OF var_inv_init read_empty_name guid_ok_zero, of "[1]" 7] none
    by (auto simp: MAX_DATA_LEN_def split: prod.splits)
  have cons: "VARS_INIT = EMPTY_VAR # replicate 31 EMPTY_VAR"
    by (simp add: VARS_INIT_def MAX_VARIABLES_def numeral_eq_Suc)
  have ff: "first_free v_in_use VARS_INIT = Some 0" by (simp add: cons first_free_def)
  have "fst ?r = Inr ()" and "\<exists>v. find v_in_use (snd ?r) = Some v \<and> v_name_len v = 0 \<and> v_guid v = zero_guid"
    using none by (simp_all add: var_set_def read_empty_name find_matches[OF var_inv_init read_empty_name]
        MAX_DATA_LEN_def ff Let_def) (simp add: cons)
  with empty_name_never_ends[OF inv, of _ "[0]" 1000 zero_guid] show ?thesis by auto
qed

end
