(* ===== verification/Fat32.thy ===== *)
theory Fat32
  imports Block_Device
begin

text \<open>
  \<^verbatim>\<open>src/src/fat32.rs\<close>: mounting, the file allocation table, cluster chains, directories and
  files. The functions are programs over a block device (\<open>('d, fat32_error, 'a) io\<close>); LBA and
  cluster arithmetic is on 32-bit words as in the source. The loops that follow links on the disk
  take fuel, since a cyclic chain would keep the source looping; the proofs in \<open>Fat32_Chains\<close> and
  \<open>Fat32_Files\<close> give the amount that is enough.
\<close>

definition END_OF_CHAIN :: u32 where "END_OF_CHAIN = 0x0FFFFFF8"
definition ATTR_ARCHIVE :: u8 where "ATTR_ARCHIVE = 0x20"
definition ATTR_DIRECTORY :: u8 where "ATTR_DIRECTORY = 0x10"

datatype fat32_error = FatSd sd_error | NoMbrSignature | NoFat32Partition | BadBootSector | FatNotFound | NoSpace

record fat32 =
  partition_start_lba :: u32
  sectors_per_cluster :: u8
  reserved_sectors :: u16
  num_fats :: u8
  fat_size_sectors :: u32
  root_cluster :: u32

type_synonym ('d, 'a) fat_io = "('d, fat32_error, 'a) io"

text \<open>\<^verbatim>\<open>card.read_block(..)?\<close> and \<^verbatim>\<open>card.write_block(..)?\<close>, with the error conversion of \<^verbatim>\<open>?\<close>.\<close>

definition rd :: "'d block_ops \<Rightarrow> u32 \<Rightarrow> ('d, u8 list) fat_io" where
  "rd sd lba = io_map_err FatSd (op_read sd lba)"

definition wr :: "'d block_ops \<Rightarrow> u32 \<Rightarrow> u8 list \<Rightarrow> ('d, unit) fat_io" where
  "wr sd lba data = io_map_err FatSd (op_write sd lba data)"

section \<open>Mounting\<close>

fun find_partition :: "u8 list \<Rightarrow> nat list \<Rightarrow> u32 option" where
  "find_partition sector [] = None"
| "find_partition sector (i # is) =
     (let entry = seg sector (446 + i * 16) 16 in
      if entry ! 4 = 0x0B \<or> entry ! 4 = 0x0C then Some (rd32 (seg entry 8 4))
      else find_partition sector is)"

definition mount :: "'d block_ops \<Rightarrow> ('d, fat32) fat_io" where
  "mount sd =
     io_bind (rd sd 0) (\<lambda>sector.
       if sector ! 510 \<noteq> 0x55 \<or> sector ! 511 \<noteq> 0xAA then io_throw (Err NoMbrSignature)
       else
         (case find_partition sector [0..<4] of
            None \<Rightarrow> io_throw (Err NoFat32Partition)
          | Some start \<Rightarrow>
              io_bind (rd sd start) (\<lambda>boot.
                if boot ! 510 \<noteq> 0x55 \<or> boot ! 511 \<noteq> 0xAA then io_throw (Err BadBootSector)
                else
                  let bytes_per_sector = rd16 (seg boot 11 2);
                      fat_size = rd32 (seg boot 36 4) in
                  if unat bytes_per_sector \<noteq> SECTOR_SIZE \<or> fat_size = 0 then io_throw (Err BadBootSector)
                  else
                    io_return \<lparr>partition_start_lba = start, sectors_per_cluster = boot ! 13,
                      reserved_sectors = rd16 (seg boot 14 2), num_fats = boot ! 16,
                      fat_size_sectors = fat_size, root_cluster = rd32 (seg boot 44 4)\<rparr>)))"

section \<open>Geometry\<close>

definition first_data_sector :: "fat32 \<Rightarrow> u32" where
  "first_data_sector fs =
     partition_start_lba fs + ucast (reserved_sectors fs) + ucast (num_fats fs) * fat_size_sectors fs"

definition cluster_size_bytes :: "fat32 \<Rightarrow> nat" where
  "cluster_size_bytes fs = unat (sectors_per_cluster fs) * SECTOR_SIZE"

definition cluster_to_lba :: "fat32 \<Rightarrow> u32 \<Rightarrow> u32" where
  "cluster_to_lba fs cluster = first_data_sector fs + (cluster - 2) * ucast (sectors_per_cluster fs)"

section \<open>The file allocation table\<close>

definition fat_entry :: "'d block_ops \<Rightarrow> fat32 \<Rightarrow> u32 \<Rightarrow> ('d, u32) fat_io" where
  "fat_entry sd fs cluster =
     (let fat_offset = cluster * 4;
          fat_sector = partition_start_lba fs + ucast (reserved_sectors fs) + fat_offset div 512;
          offset_in_sector = unat (fat_offset mod 512) in
      io_bind (rd sd fat_sector) (\<lambda>sector.
        io_return (rd32 (seg sector offset_in_sector 4) AND 0x0FFFFFFF)))"

text \<open>The loop over the copies of the table: \<open>n\<close> copies remain, \<open>fat_idx\<close> is the next.\<close>

primrec set_fat_copies ::
  "'d block_ops \<Rightarrow> fat32 \<Rightarrow> u32 \<Rightarrow> nat \<Rightarrow> u32 \<Rightarrow> u32 \<Rightarrow> nat \<Rightarrow> ('d, unit) fat_io" where
  "set_fat_copies sd fs sector_offset offset_in_sector value fat_idx 0 = io_return ()"
| "set_fat_copies sd fs sector_offset offset_in_sector value fat_idx (Suc n) =
     (let fat_sector = partition_start_lba fs + ucast (reserved_sectors fs)
                         + fat_idx * fat_size_sectors fs + sector_offset in
      io_bind (rd sd fat_sector) (\<lambda>sector.
        let existing = rd32 (seg sector offset_in_sector 4);
            new_val = (value AND 0x0FFFFFFF) OR (existing AND 0xF0000000) in
        io_bind (wr sd fat_sector (put_seg sector offset_in_sector (le32 new_val))) (\<lambda>_.
          set_fat_copies sd fs sector_offset offset_in_sector value (fat_idx + 1) n)))"

definition set_fat_entry :: "'d block_ops \<Rightarrow> fat32 \<Rightarrow> u32 \<Rightarrow> u32 \<Rightarrow> ('d, unit) fat_io" where
  "set_fat_entry sd fs cluster value =
     (let fat_offset = cluster * 4 in
      set_fat_copies sd fs (fat_offset div 512) (unat (fat_offset mod 512)) value 0 (unat (num_fats fs)))"

primrec zero_sectors :: "'d block_ops \<Rightarrow> u32 \<Rightarrow> u32 \<Rightarrow> nat \<Rightarrow> ('d, unit) fat_io" where
  "zero_sectors sd lba s 0 = io_return ()"
| "zero_sectors sd lba s (Suc n) =
     io_bind (wr sd (lba + s) (replicate SECTOR_SIZE 0)) (\<lambda>_. zero_sectors sd lba (s + 1) n)"

definition zero_cluster :: "'d block_ops \<Rightarrow> fat32 \<Rightarrow> u32 \<Rightarrow> ('d, unit) fat_io" where
  "zero_cluster sd fs cluster =
     zero_sectors sd (cluster_to_lba fs cluster) 0 (unat (sectors_per_cluster fs))"

definition max_cluster :: "fat32 \<Rightarrow> u32" where
  "max_cluster fs = of_nat (unat (fat_size_sectors fs) * SECTOR_SIZE div 4)"

function free_scan :: "'d block_ops \<Rightarrow> fat32 \<Rightarrow> u32 \<Rightarrow> ('d, u32) fat_io" where
  "free_scan sd fs cluster =
     (if cluster < max_cluster fs then
        io_bind (fat_entry sd fs cluster) (\<lambda>e.
          if e = 0 then io_return cluster else free_scan sd fs (cluster + 1))
      else io_throw (Err NoSpace))"
  by pat_completeness auto
termination
proof (relation "measure (\<lambda>(sd, fs, cluster). unat (max_cluster fs) - unat cluster)")
  fix sd :: "'d block_ops" and fs cluster e
  assume "cluster < max_cluster fs"
  then have "unat cluster < unat (max_cluster fs)" by (simp add: word_less_nat_alt)
  moreover have "unat (cluster + 1) = unat cluster + 1"
    using calculation unat_bound[of "max_cluster fs"] by (simp add: unat_word_ariths)
  ultimately show "((sd, fs, cluster + 1), sd, fs, cluster) \<in>
      measure (\<lambda>(sd, fs, cluster). unat (max_cluster fs) - unat cluster)" by simp
qed simp

declare free_scan.simps [simp del]

definition find_free_cluster :: "'d block_ops \<Rightarrow> fat32 \<Rightarrow> u32 \<Rightarrow> ('d, u32) fat_io" where
  "find_free_cluster sd fs start = free_scan sd fs (max start 2)"

section \<open>Cluster chains\<close>

primrec allocate_loop :: "'d block_ops \<Rightarrow> fat32 \<Rightarrow> nat \<Rightarrow> u32 \<Rightarrow> u32 \<Rightarrow> u32 \<Rightarrow> ('d, u32) fat_io" where
  "allocate_loop sd fs 0 first prev search_from = io_return first"
| "allocate_loop sd fs (Suc n) first prev search_from =
     io_bind (find_free_cluster sd fs search_from) (\<lambda>c.
     io_bind (set_fat_entry sd fs c END_OF_CHAIN) (\<lambda>_.
     io_bind (zero_cluster sd fs c) (\<lambda>_.
       if first = 0 then allocate_loop sd fs n c c (c + 1)
       else
         io_bind (set_fat_entry sd fs prev c) (\<lambda>_. allocate_loop sd fs n first c (c + 1)))))"

definition allocate_chain :: "'d block_ops \<Rightarrow> fat32 \<Rightarrow> u32 \<Rightarrow> ('d, u32) fat_io" where
  "allocate_chain sd fs count = allocate_loop sd fs (unat count) 0 0 2"

primrec free_chain_from :: "'d block_ops \<Rightarrow> fat32 \<Rightarrow> nat \<Rightarrow> u32 \<Rightarrow> ('d, unit) fat_io" where
  "free_chain_from sd fs 0 cluster = io_throw OutOfFuel"
| "free_chain_from sd fs (Suc fuel) cluster =
     (if cluster \<ge> 2 \<and> cluster < END_OF_CHAIN then
        io_bind (fat_entry sd fs cluster) (\<lambda>next.
        io_bind (set_fat_entry sd fs cluster 0) (\<lambda>_. free_chain_from sd fs fuel next))
      else io_return ())"

primrec resize_loop :: "'d block_ops \<Rightarrow> fat32 \<Rightarrow> nat \<Rightarrow> u32 \<Rightarrow> u32 \<Rightarrow> u32 \<Rightarrow> u32 \<Rightarrow> ('d, u32) fat_io" where
  "resize_loop sd fs 0 first needed cluster count = io_throw OutOfFuel"
| "resize_loop sd fs (Suc fuel) first needed cluster count =
     (if count = needed then
        io_bind (fat_entry sd fs cluster) (\<lambda>next.
        io_bind (if next \<ge> 2 \<and> next < END_OF_CHAIN then free_chain_from sd fs fuel next else io_return ()) (\<lambda>_.
        io_bind (set_fat_entry sd fs cluster END_OF_CHAIN) (\<lambda>_. io_return first)))
      else
        io_bind (fat_entry sd fs cluster) (\<lambda>next.
          if next < 2 \<or> next \<ge> END_OF_CHAIN then
            io_bind (allocate_chain sd fs (needed - count)) (\<lambda>extra.
            io_bind (set_fat_entry sd fs cluster extra) (\<lambda>_. io_return first))
          else resize_loop sd fs fuel first needed next (count + 1)))"

definition resize_chain :: "'d block_ops \<Rightarrow> fat32 \<Rightarrow> nat \<Rightarrow> u32 \<Rightarrow> u32 \<Rightarrow> ('d, u32) fat_io" where
  "resize_chain sd fs fuel first needed = resize_loop sd fs fuel first needed first 1"

section \<open>Directories\<close>

text \<open>\<^verbatim>\<open>sector.chunks_exact(32)\<close> with the index.\<close>

definition chunks32 :: "u8 list \<Rightarrow> (nat \<times> u8 list) list" where
  "chunks32 sector = map (\<lambda>i. (i, seg sector (i * 32) 32)) [0..<16]"

text \<open>Deleted, long-name or volume-label entries, which listing and searching skip.\<close>

definition skipped :: "u8 list \<Rightarrow> bool" where
  "skipped entry \<longleftrightarrow> entry ! 0 = 0xE5 \<or> entry ! 11 = 0x0F \<or> entry ! 11 AND 0x08 \<noteq> 0"

definition entry_cluster :: "u8 list \<Rightarrow> u32" where
  "entry_cluster entry =
     push_bit 16 (ucast (rd16 (seg entry 20 2))) OR ucast (rd16 (seg entry 26 2))"

definition entry_size :: "u8 list \<Rightarrow> u32" where
  "entry_size entry = rd32 (seg entry 28 4)"

record listing =
  l_names :: "u8 list list"
  l_sizes :: "u32 list"
  l_count :: nat

text \<open>\<open>(True, _)\<close> is the \<^verbatim>\<open>return\<close> at the terminator; a size slice shorter than the names panics.\<close>

fun list_entries :: "(nat \<times> u8 list) list \<Rightarrow> listing \<Rightarrow> (bool \<times> listing) option" where
  "list_entries [] l = Some (False, l)"
| "list_entries ((i, entry) # es) l =
     (if entry ! 0 = 0 then Some (True, l)
      else if skipped entry then list_entries es l
      else if l_count l < length (l_names l) then
        if l_count l < length (l_sizes l) then
          list_entries es
            \<lparr>l_names = (l_names l)[l_count l := take 11 entry],
             l_sizes = (l_sizes l)[l_count l := entry_size entry], l_count = l_count l + 1\<rparr>
        else None
      else list_entries es l)"

primrec list_sectors :: "'d block_ops \<Rightarrow> u32 \<Rightarrow> u32 \<Rightarrow> nat \<Rightarrow> listing \<Rightarrow> ('d, bool \<times> listing) fat_io" where
  "list_sectors sd lba s 0 l = io_return (False, l)"
| "list_sectors sd lba s (Suc n) l =
     io_bind (rd sd (lba + s)) (\<lambda>sector.
       case list_entries (chunks32 sector) l of
         None \<Rightarrow> io_throw Panic
       | Some (True, l') \<Rightarrow> io_return (True, l')
       | Some (False, l') \<Rightarrow> list_sectors sd lba (s + 1) n l')"

primrec list_dir :: "'d block_ops \<Rightarrow> fat32 \<Rightarrow> nat \<Rightarrow> u32 \<Rightarrow> listing \<Rightarrow> ('d, listing) fat_io" where
  "list_dir sd fs 0 cluster l = io_throw OutOfFuel"
| "list_dir sd fs (Suc fuel) cluster l =
     io_bind (list_sectors sd (cluster_to_lba fs cluster) 0 (unat (sectors_per_cluster fs)) l) (\<lambda>(stop, l').
       if stop then io_return l'
       else
         io_bind (fat_entry sd fs cluster) (\<lambda>next.
           if next \<ge> END_OF_CHAIN then io_return l' else list_dir sd fs fuel next l'))"

definition list_root :: "'d block_ops \<Rightarrow> fat32 \<Rightarrow> nat \<Rightarrow> listing \<Rightarrow> ('d, listing) fat_io" where
  "list_root sd fs fuel l = list_dir sd fs fuel (root_cluster fs) l"

text \<open>First cluster, size, is-directory.\<close>

type_synonym dir_hit = "u32 \<times> u32 \<times> bool"

text \<open>\<open>Some (Inl ())\<close> is the terminator, \<open>Some (Inr _)\<close> a match, \<open>None\<close> the end of the sector.\<close>

fun find_entries :: "u8 list \<Rightarrow> (nat \<times> u8 list) list \<Rightarrow> (unit + dir_hit) option" where
  "find_entries name [] = None"
| "find_entries name ((i, entry) # es) =
     (if entry ! 0 = 0 then Some (Inl ())
      else if skipped entry then find_entries name es
      else if take 11 entry = name then
        Some (Inr (entry_cluster entry, entry_size entry, entry ! 11 AND ATTR_DIRECTORY \<noteq> 0))
      else find_entries name es)"

primrec find_sectors ::
  "'d block_ops \<Rightarrow> u8 list \<Rightarrow> u32 \<Rightarrow> u32 \<Rightarrow> nat \<Rightarrow> ('d, (unit + dir_hit) option) fat_io" where
  "find_sectors sd name lba s 0 = io_return None"
| "find_sectors sd name lba s (Suc n) =
     io_bind (rd sd (lba + s)) (\<lambda>sector.
       case find_entries name (chunks32 sector) of
         Some r \<Rightarrow> io_return (Some r)
       | None \<Rightarrow> find_sectors sd name lba (s + 1) n)"

primrec find_in_dir :: "'d block_ops \<Rightarrow> fat32 \<Rightarrow> nat \<Rightarrow> u32 \<Rightarrow> u8 list \<Rightarrow> ('d, dir_hit) fat_io" where
  "find_in_dir sd fs 0 cluster name = io_throw OutOfFuel"
| "find_in_dir sd fs (Suc fuel) cluster name =
     io_bind (find_sectors sd name (cluster_to_lba fs cluster) 0 (unat (sectors_per_cluster fs))) (\<lambda>r.
       case r of
         Some (Inl _) \<Rightarrow> io_throw (Err FatNotFound)
       | Some (Inr hit) \<Rightarrow> io_return hit
       | None \<Rightarrow>
           io_bind (fat_entry sd fs cluster) (\<lambda>next.
             if next \<ge> END_OF_CHAIN then io_throw (Err FatNotFound)
             else find_in_dir sd fs fuel next name))"

section \<open>Paths\<close>

definition to_ascii_uppercase :: "u8 \<Rightarrow> u8" where
  "to_ascii_uppercase b = (if 0x61 \<le> b \<and> b \<le> 0x7A then b - 0x20 else b)"

definition to_8_3 :: "u8 list \<Rightarrow> u8 list option" where
  "to_8_3 component =
     (let (base, ext) = (case position (\<lambda>b. b = 0x2E) component of
                           Some dot \<Rightarrow> (take dot component, drop (dot + 1) component)
                         | None \<Rightarrow> (component, [])) in
      if base = [] \<or> length base > 8 \<or> length ext > 3 then None
      else Some (put_seg (put_seg (replicate 11 0x20) 0 (map to_ascii_uppercase base))
                   8 (map to_ascii_uppercase ext)))"

text \<open>\<^verbatim>\<open>path.split(|&b| b == b'\\')\<close>: \<open>n\<close> separators give \<open>n + 1\<close> pieces.\<close>

fun split_on :: "'a \<Rightarrow> 'a list \<Rightarrow> 'a list list" where
  "split_on sep [] = [[]]"
| "split_on sep (x # xs) =
     (if x = sep then [] # split_on sep xs
      else (case split_on sep xs of p # ps \<Rightarrow> (x # p) # ps | [] \<Rightarrow> [[x]]))"

primrec resolve_loop ::
  "'d block_ops \<Rightarrow> fat32 \<Rightarrow> nat \<Rightarrow> u8 list list \<Rightarrow> u32 \<Rightarrow> dir_hit \<Rightarrow> ('d, dir_hit) fat_io" where
  "resolve_loop sd fs fuel [] dir_cluster result = io_return result"
| "resolve_loop sd fs fuel (component # cs) dir_cluster result =
     (case to_8_3 component of
        None \<Rightarrow> io_throw (Err FatNotFound)
      | Some name \<Rightarrow>
          io_bind (find_in_dir sd fs fuel dir_cluster name) (\<lambda>(first_cluster, size, is_dir).
            resolve_loop sd fs fuel cs
              (if is_dir then (if first_cluster = 0 then root_cluster fs else first_cluster) else dir_cluster)
              (first_cluster, size, is_dir)))"

definition resolve_from :: "'d block_ops \<Rightarrow> fat32 \<Rightarrow> nat \<Rightarrow> u32 \<Rightarrow> u8 list \<Rightarrow> ('d, dir_hit) fat_io" where
  "resolve_from sd fs fuel start_cluster path =
     resolve_loop sd fs fuel (filter (\<lambda>c. c \<noteq> []) (split_on 0x5C path)) start_cluster
       (start_cluster, 0, True)"

section \<open>Reading\<close>

text \<open>The loop over the sectors of one cluster; \<open>written\<close> and \<open>out\<close> are threaded.\<close>

primrec read_sectors ::
  "'d block_ops \<Rightarrow> u32 \<Rightarrow> nat \<Rightarrow> u32 \<Rightarrow> nat \<Rightarrow> nat \<times> u8 list \<Rightarrow> ('d, nat \<times> u8 list) fat_io" where
  "read_sectors sd lba to_read s 0 wo = io_return wo"
| "read_sectors sd lba to_read s (Suc n) wo =
     (case wo of (written, out) \<Rightarrow>
        if written \<ge> to_read then io_return (written, out)
        else
          io_bind (rd sd (lba + s)) (\<lambda>sector.
            let take_n = min (to_read - written) SECTOR_SIZE in
            read_sectors sd lba to_read (s + 1) n
              (written + take_n, put_seg out written (take take_n sector))))"

primrec read_loop ::
  "'d block_ops \<Rightarrow> fat32 \<Rightarrow> nat \<Rightarrow> nat \<Rightarrow> u32 \<Rightarrow> nat \<times> u8 list \<Rightarrow> ('d, nat \<times> u8 list) fat_io" where
  "read_loop sd fs 0 to_read cluster wo = io_throw OutOfFuel"
| "read_loop sd fs (Suc fuel) to_read cluster wo =
     (if fst wo < to_read then
        io_bind (read_sectors sd (cluster_to_lba fs cluster) to_read 0 (unat (sectors_per_cluster fs)) wo) (\<lambda>wo'.
          if fst wo' \<ge> to_read then io_return wo'
          else
            io_bind (fat_entry sd fs cluster) (\<lambda>next.
              if next \<ge> END_OF_CHAIN then io_return wo' else read_loop sd fs fuel to_read next wo'))
      else io_return wo)"

text \<open>The byte count and the caller's buffer after the call.\<close>

definition read_from ::
  "'d block_ops \<Rightarrow> fat32 \<Rightarrow> nat \<Rightarrow> u32 \<Rightarrow> u32 \<Rightarrow> u8 list \<Rightarrow> ('d, nat \<times> u8 list) fat_io" where
  "read_from sd fs fuel first_cluster file_size out =
     (if first_cluster = 0 then io_return (0, out)
      else read_loop sd fs fuel (min (unat file_size) (length out)) first_cluster (0, out))"

definition read_file :: "'d block_ops \<Rightarrow> fat32 \<Rightarrow> nat \<Rightarrow> u8 list \<Rightarrow> u8 list \<Rightarrow> ('d, nat \<times> u8 list) fat_io" where
  "read_file sd fs fuel name out =
     io_bind (find_in_dir sd fs fuel (root_cluster fs) name) (\<lambda>(first_cluster, size, _).
       read_from sd fs fuel first_cluster size out)"

section \<open>Writing\<close>

record dir_search =
  ds_found :: "(u32 \<times> nat \<times> u32) option"
  ds_free_slot :: "(u32 \<times> nat) option"

text \<open>\<open>(True, _)\<close> is \<^verbatim>\<open>break 'search\<close> at the terminator.\<close>

fun search_entries :: "u8 list \<Rightarrow> u32 \<Rightarrow> (nat \<times> u8 list) list \<Rightarrow> dir_search \<Rightarrow> bool \<times> dir_search" where
  "search_entries name sec_lba [] ds = (False, ds)"
| "search_entries name sec_lba ((i, entry) # es) ds =
     (let ds_slot = (if ds_free_slot ds = None then ds\<lparr>ds_free_slot := Some (sec_lba, i * 32)\<rparr> else ds) in
      if entry ! 0 = 0 then (True, ds_slot)
      else if entry ! 0 = 0xE5 then search_entries name sec_lba es ds_slot
      else if entry ! 11 = 0x0F \<or> entry ! 11 AND 0x08 \<noteq> 0 then search_entries name sec_lba es ds
      else if take 11 entry = name then
        search_entries name sec_lba es (ds\<lparr>ds_found := Some (sec_lba, i * 32, entry_cluster entry)\<rparr>)
      else search_entries name sec_lba es ds)"

primrec search_sectors ::
  "'d block_ops \<Rightarrow> u8 list \<Rightarrow> u32 \<Rightarrow> u32 \<Rightarrow> nat \<Rightarrow> dir_search \<Rightarrow> ('d, bool \<times> dir_search) fat_io" where
  "search_sectors sd name lba s 0 ds = io_return (False, ds)"
| "search_sectors sd name lba s (Suc n) ds =
     io_bind (rd sd (lba + s)) (\<lambda>sector.
       case search_entries name (lba + s) (chunks32 sector) ds of
         (True, ds') \<Rightarrow> io_return (True, ds')
       | (False, ds') \<Rightarrow> search_sectors sd name lba (s + 1) n ds')"

text \<open>The \<^verbatim>\<open>'search\<close> loop: whether a terminator was met, the last directory cluster, the search result.\<close>

primrec search_dir ::
  "'d block_ops \<Rightarrow> fat32 \<Rightarrow> nat \<Rightarrow> u8 list \<Rightarrow> u32 \<Rightarrow> dir_search \<Rightarrow> ('d, bool \<times> u32 \<times> dir_search) fat_io" where
  "search_dir sd fs 0 name dir_cluster ds = io_throw OutOfFuel"
| "search_dir sd fs (Suc fuel) name dir_cluster ds =
     io_bind (search_sectors sd name (cluster_to_lba fs dir_cluster) 0 (unat (sectors_per_cluster fs)) ds) (\<lambda>(stop, ds').
       if stop then io_return (True, dir_cluster, ds')
       else
         io_bind (fat_entry sd fs dir_cluster) (\<lambda>next.
           if next \<ge> END_OF_CHAIN then io_return (False, dir_cluster, ds')
           else search_dir sd fs fuel name next ds'))"

primrec write_sectors :: "'d block_ops \<Rightarrow> u32 \<Rightarrow> u8 list \<Rightarrow> u32 \<Rightarrow> nat \<Rightarrow> nat \<Rightarrow> ('d, nat) fat_io" where
  "write_sectors sd lba data s 0 written = io_return written"
| "write_sectors sd lba data s (Suc n) written =
     (if written \<ge> length data then io_return written
      else
        let take_n = min (length data - written) SECTOR_SIZE;
            sector = put_seg (replicate SECTOR_SIZE 0) 0 (seg data written take_n) in
        io_bind (wr sd (lba + s) sector) (\<lambda>_.
          write_sectors sd lba data (s + 1) n (written + take_n)))"

primrec write_loop :: "'d block_ops \<Rightarrow> fat32 \<Rightarrow> nat \<Rightarrow> u8 list \<Rightarrow> u32 \<Rightarrow> nat \<Rightarrow> ('d, unit) fat_io" where
  "write_loop sd fs 0 data cluster written = io_throw OutOfFuel"
| "write_loop sd fs (Suc fuel) data cluster written =
     (if written < length data then
        io_bind (write_sectors sd (cluster_to_lba fs cluster) data 0 (unat (sectors_per_cluster fs)) written) (\<lambda>written'.
          if written' \<ge> length data then io_return ()
          else
            io_bind (fat_entry sd fs cluster) (\<lambda>next. write_loop sd fs fuel data next written'))
      else io_return ())"

text \<open>The 32 bytes of a directory entry after the field-by-field update.\<close>

definition update_entry :: "u8 list \<Rightarrow> u8 list \<Rightarrow> u32 \<Rightarrow> u32 \<Rightarrow> u8 list" where
  "update_entry entry name first_cluster file_len =
     (let e1 = put_seg entry 0 name;
          e2 = e1[11 := ATTR_ARCHIVE];
          e3 = put_seg e2 12 (replicate 8 0);
          e4 = put_seg e3 20 (le16 (ucast (drop_bit 16 first_cluster AND 0xFFFF)));
          e5 = put_seg e4 22 (replicate 4 0);
          e6 = put_seg e5 26 (le16 (ucast (first_cluster AND 0xFFFF)))
      in put_seg e6 28 (le32 file_len))"

text \<open>
  \<^verbatim>\<open>write_file\<close>: search the root directory, give it another cluster when it is full, fit the chain,
  write the data, write the entry.
\<close>

definition write_file :: "'d block_ops \<Rightarrow> fat32 \<Rightarrow> nat \<Rightarrow> u8 list \<Rightarrow> u8 list \<Rightarrow> ('d, unit) fat_io" where
  "write_file sd fs fuel name data =
     (if cluster_size_bytes fs = 0 then io_throw Panic
      else
        let clusters_needed = of_nat (max ((length data + cluster_size_bytes fs - 1) div cluster_size_bytes fs) 1) in
        io_bind (search_dir sd fs fuel name (root_cluster fs) \<lparr>ds_found = None, ds_free_slot = None\<rparr>)
          (\<lambda>(terminated, last_dir_cluster, ds).
        io_bind
          (if ds_found ds = None \<and> ds_free_slot ds = None \<and> \<not> terminated then
             io_bind (allocate_chain sd fs 1) (\<lambda>new_cluster.
             io_bind (set_fat_entry sd fs last_dir_cluster new_cluster) (\<lambda>_.
               io_return (Some (cluster_to_lba fs new_cluster, 0))))
           else io_return (ds_free_slot ds)) (\<lambda>free_slot.
        io_bind
          (case ds_found ds of
             Some (_, _, old_first) \<Rightarrow>
               if old_first \<ge> 2 then resize_chain sd fs fuel old_first clusters_needed
               else allocate_chain sd fs clusters_needed
           | None \<Rightarrow> allocate_chain sd fs clusters_needed) (\<lambda>first_cluster.
        io_bind (write_loop sd fs fuel data first_cluster 0) (\<lambda>_.
          case (case ds_found ds of Some (lba, off, _) \<Rightarrow> Some (lba, off) | None \<Rightarrow> free_slot) of
            None \<Rightarrow> io_throw Panic
          | Some (entry_lba, entry_off) \<Rightarrow>
              io_bind (rd sd entry_lba) (\<lambda>sector.
                wr sd entry_lba
                  (put_seg sector entry_off
                    (update_entry (seg sector entry_off 32) name first_cluster (of_nat (length data))))))))))"

end
