(* ===== verification/Fat32_Chains.thy ===== *)
theory Fat32_Chains
  imports Fat32
begin

text \<open>
  Proofs about the file allocation table and cluster chains. \<open>vol_ok\<close> is a volume whose table and
  first \<open>n\<close> clusters lie on the device, so that no LBA wraps; \<open>fat_val\<close> reads an entry of one copy
  of the table from the raw disk and \<open>fat_put\<close> is the disk after \<^verbatim>\<open>set_fat_entry\<close>. Above them, a
  chain is a list of distinct clusters linked through the table.
\<close>

section \<open>Geometry\<close>

definition fat_base :: "fat32 \<Rightarrow> nat" where
  "fat_base fs = unat (partition_start_lba fs) + unat (reserved_sectors fs)"

definition data_base :: "fat32 \<Rightarrow> nat" where
  "data_base fs = fat_base fs + unat (num_fats fs) * unat (fat_size_sectors fs)"

definition spc :: "fat32 \<Rightarrow> nat" where
  "spc fs = unat (sectors_per_cluster fs)"

definition vol_ok :: "fat32 \<Rightarrow> nat \<Rightarrow> nat \<Rightarrow> bool" where
  "vol_ok fs cap n \<longleftrightarrow> 0 < spc fs \<and> 0 < unat (num_fats fs) \<and> 0 < unat (fat_size_sectors fs) \<and>
     2 \<le> n \<and> n \<le> unat (fat_size_sectors fs) * 128 \<and> unat (fat_size_sectors fs) * 128 \<le> 0x0FFFFFF8 \<and>
     data_base fs + (n - 2) * spc fs \<le> cap \<and> cap \<le> 2 ^ 32"

lemma vol_okD:
  assumes "vol_ok fs cap n"
  shows "0 < spc fs" "0 < unat (num_fats fs)" "0 < unat (fat_size_sectors fs)" "2 \<le> n"
    "n \<le> unat (fat_size_sectors fs) * 128" "unat (fat_size_sectors fs) * 128 \<le> 0x0FFFFFF8"
    "data_base fs + (n - 2) * spc fs \<le> cap" "cap \<le> 2 ^ 32" "data_base fs \<le> cap"
  using assms by (auto simp: vol_ok_def)

lemma max_cluster_nat:
  assumes "vol_ok fs cap n"
  shows "unat (max_cluster fs) = unat (fat_size_sectors fs) * 128"
proof -
  have "unat (fat_size_sectors fs) * SECTOR_SIZE div 4 = unat (fat_size_sectors fs) * 128" by simp
  then show ?thesis
    using vol_okD(6)[OF assms] by (intro unat_eq_of_nat) (simp_all add: max_cluster_def)
qed

section \<open>Where an entry is\<close>

definition fat_lba :: "fat32 \<Rightarrow> nat \<Rightarrow> u32 \<Rightarrow> u32" where
  "fat_lba fs k c = partition_start_lba fs + ucast (reserved_sectors fs)
     + of_nat k * fat_size_sectors fs + (c * 4) div 512"

definition fat_off :: "u32 \<Rightarrow> nat" where
  "fat_off c = unat ((c * 4) mod 512)"

lemma unat_cluster_times_4: "unat c < 2 ^ 28 \<Longrightarrow> unat (c * 4 :: u32) = unat c * 4"
  by (simp add: unat_word_ariths)

lemma fat_off_nat: "unat c < 2 ^ 28 \<Longrightarrow> fat_off c = (unat c mod 128) * 4"
  by (simp add: fat_off_def unat_mod unat_cluster_times_4 mult_mod_left)

lemma fat_off_bound: "fat_off c + 4 \<le> 512"
proof -
  have "unat (c * 4) = unat c * 4 mod 2 ^ 32" by (simp add: unat_word_ariths)
  then have "4 dvd unat (c * 4)" by (simp add: dvd_mod_iff)
  then have "4 dvd unat (c * 4) mod 512" by (simp add: dvd_mod)
  moreover have "unat (c * 4) mod 512 < 512" by simp
  ultimately show ?thesis unfolding fat_off_def unat_mod by auto
qed

lemma fat_lba_nat:
  assumes "vol_ok fs cap n" "k < unat (num_fats fs)" "unat c < unat (fat_size_sectors fs) * 128"
  shows "unat (fat_lba fs k c) = fat_base fs + k * unat (fat_size_sectors fs) + unat c div 128"
    and "unat c div 128 < unat (fat_size_sectors fs)"
    and "unat (fat_lba fs k c) < data_base fs"
proof -
  let ?z = "unat (fat_size_sectors fs)"
  note V = vol_okD[OF assms(1)]
  have c: "unat c < 2 ^ 28" using assms(3) V(6) by simp
  show d: "unat c div 128 < ?z" using assms(3) by (simp add: less_mult_imp_div_less)
  have "Suc k * ?z \<le> unat (num_fats fs) * ?z" using assms(2) by (intro mult_le_mono1) simp
  with d have lt: "fat_base fs + k * ?z + unat c div 128 < data_base fs" by (simp add: data_base_def)
  have "fat_lba fs k c = of_nat (fat_base fs + k * ?z + unat c div 128)"
  proof -
    have "(c * 4) div 512 = of_nat (unat c div 128)"
      using c by (simp add: word_unat_eq_iff unat_div unat_cluster_times_4 unat_of_nat)
    then show ?thesis by (simp add: fat_lba_def fat_base_def)
  qed
  then show "unat (fat_lba fs k c) = fat_base fs + k * ?z + unat c div 128"
    using lt V(8,9) by (intro unat_eq_of_nat) simp_all
  with lt show "unat (fat_lba fs k c) < data_base fs" by simp
qed

section \<open>Entries on the raw disk\<close>

definition fat_val :: "fat32 \<Rightarrow> nat \<Rightarrow> disk \<Rightarrow> u32 \<Rightarrow> u32" where
  "fat_val fs k D c = rd32 (seg (D (fat_lba fs k c)) (fat_off c) 4) AND 0x0FFFFFFF"

abbreviation fat :: "fat32 \<Rightarrow> disk \<Rightarrow> u32 \<Rightarrow> u32" where
  "fat fs \<equiv> fat_val fs 0"

definition put_entry :: "u32 \<Rightarrow> u32 \<Rightarrow> u8 list \<Rightarrow> u8 list" where
  "put_entry c v s = put_seg s (fat_off c)
     (le32 ((v AND 0x0FFFFFFF) OR (rd32 (seg s (fat_off c) 4) AND 0xF0000000)))"

definition fat_put :: "fat32 \<Rightarrow> u32 \<Rightarrow> u32 \<Rightarrow> disk \<Rightarrow> disk" where
  "fat_put fs c v D lba =
     (if \<exists>k < unat (num_fats fs). lba = fat_lba fs k c then put_entry c v (D lba) else D lba)"

lemma length_put_entry [simp]: "length s = 512 \<Longrightarrow> length (put_entry c v s) = 512"
  using fat_off_bound[of c] by (simp add: put_entry_def)

lemma put_entry_same:
  assumes "length s = 512"
  shows "rd32 (seg (put_entry c v s) (fat_off c) 4) AND 0x0FFFFFFF = v AND 0x0FFFFFFF"
proof -
  have "((v AND 0x0FFFFFFF) OR (e AND 0xF0000000)) AND 0x0FFFFFFF = v AND 0x0FFFFFFF" for e :: u32
    by (simp add: bit.conj_disj_distrib2 and.assoc)
  then show ?thesis
    using assms fat_off_bound[of c] by (simp add: put_entry_def seg_put_seg_same)
qed

lemma put_entry_other:
  assumes "length s = 512" "unat c < 2 ^ 28" "unat c' < 2 ^ 28" "unat c mod 128 \<noteq> unat c' mod 128"
  shows "seg (put_entry c v s) (fat_off c') 4 = seg s (fat_off c') 4"
proof -
  have "fat_off c + 4 \<le> fat_off c' \<or> fat_off c' + 4 \<le> fat_off c"
    using assms(4) by (auto simp: fat_off_nat[OF assms(2)] fat_off_nat[OF assms(3)])
  then show ?thesis
    using assms(1) fat_off_bound[of c] fat_off_bound[of c']
    by (auto simp: put_entry_def seg_put_seg_before seg_put_seg_after)
qed

abbreviation in_fat :: "fat32 \<Rightarrow> u32 \<Rightarrow> bool" where
  "in_fat fs c \<equiv> unat c < unat (fat_size_sectors fs) * 128"

lemma fat_lba_cap:
  "vol_ok fs cap n \<Longrightarrow> k < unat (num_fats fs) \<Longrightarrow> in_fat fs c \<Longrightarrow> unat (fat_lba fs k c) < cap"
  using fat_lba_nat(3) vol_okD(9) by (metis order_less_le_trans)

lemma in_fat_small: "vol_ok fs cap n \<Longrightarrow> in_fat fs c \<Longrightarrow> unat c < 2 ^ 28"
  using vol_okD(6) by fastforce

lemma fat_lba_eq:
  assumes vol: "vol_ok fs cap n" and "k < unat (num_fats fs)" "j < unat (num_fats fs)" "in_fat fs c" "in_fat fs c'"
  shows "fat_lba fs k c = fat_lba fs j c' \<longleftrightarrow> k = j \<and> unat c div 128 = unat c' div 128"
proof
  let ?z = "unat (fat_size_sectors fs)"
  assume "fat_lba fs k c = fat_lba fs j c'"
  then have e: "k * ?z + unat c div 128 = j * ?z + unat c' div 128"
    using fat_lba_nat(1)[OF vol assms(2,4)] fat_lba_nat(1)[OF vol assms(3,5)] by simp
  note b = fat_lba_nat(2)[OF vol assms(2,4)] fat_lba_nat(2)[OF vol assms(3,5)]
  from e have "(k * ?z + unat c div 128) div ?z = (j * ?z + unat c' div 128) div ?z" by simp
  then have "k = j" using b by simp
  with e show "k = j \<and> unat c div 128 = unat c' div 128" by simp
next
  assume "k = j \<and> unat c div 128 = unat c' div 128"
  then show "fat_lba fs k c = fat_lba fs j c'"
    using fat_lba_nat(1)[OF vol assms(2,4)] fat_lba_nat(1)[OF vol assms(3,5)] by (simp add: word_unat_eq_iff)
qed

lemma fat_put_blocks_ok [intro]:
  assumes "blocks_ok cap D"
  shows "blocks_ok cap (fat_put fs c v D)"
  using assms by (simp add: blocks_ok_def fat_put_def)

lemma fat_put_same:
  assumes "vol_ok fs cap n" "blocks_ok cap D" "k < unat (num_fats fs)" "in_fat fs c"
  shows "fat_val fs k (fat_put fs c v D) c = v AND 0x0FFFFFFF"
proof -
  have "fat_put fs c v D (fat_lba fs k c) = put_entry c v (D (fat_lba fs k c))"
    using assms(3) by (auto simp: fat_put_def)
  then show ?thesis
    using put_entry_same[OF blocks_okD[OF assms(2) fat_lba_cap[OF assms(1,3,4)]]] by (simp add: fat_val_def)
qed

lemma fat_put_other:
  assumes vol: "vol_ok fs cap n" and "blocks_ok cap D" "k < unat (num_fats fs)" "in_fat fs c" "in_fat fs c'" "c' \<noteq> c"
  shows "fat_val fs k (fat_put fs c v D) c' = fat_val fs k D c'"
proof (cases "unat c div 128 = unat c' div 128")
  case True
  have "unat c mod 128 \<noteq> unat c' mod 128"
    using True assms(6) by (metis div_mult_mod_eq word_unat_eq_iff)
  from put_entry_other[OF blocks_okD[OF assms(2) fat_lba_cap[OF vol assms(3,5)]]
      in_fat_small[OF vol assms(4)] in_fat_small[OF vol assms(5)] this]
  show ?thesis by (simp add: fat_val_def fat_put_def)
next
  case False
  then have "\<not> (\<exists>j < unat (num_fats fs). fat_lba fs k c' = fat_lba fs j c)"
    using fat_lba_eq[OF vol assms(3) _ assms(5,4)] by metis
  then have "fat_put fs c v D (fat_lba fs k c') = D (fat_lba fs k c')" unfolding fat_put_def by (rule if_not_P)
  then show ?thesis by (simp add: fat_val_def)
qed

lemma fat_put_data:
  assumes "vol_ok fs cap n" "in_fat fs c" "data_base fs \<le> unat lba"
  shows "fat_put fs c v D lba = D lba"
proof -
  have "\<not> (\<exists>k < unat (num_fats fs). lba = fat_lba fs k c)"
    using fat_lba_nat(3)[OF assms(1) _ assms(2)] assms(3) by (metis not_less)
  then show ?thesis unfolding fat_put_def by (rule if_not_P)
qed

lemma fat_put_before:
  assumes "vol_ok fs cap n" "in_fat fs c" "unat lba < fat_base fs"
  shows "fat_put fs c v D lba = D lba"
proof -
  have "\<not> (\<exists>k < unat (num_fats fs). lba = fat_lba fs k c)"
    using fat_lba_nat(1)[OF assms(1) _ assms(2)] assms(3) by fastforce
  then show ?thesis unfolding fat_put_def by (rule if_not_P)
qed

section \<open>Data clusters\<close>

text \<open>A cluster number whose sectors are on the device.\<close>

definition clus :: "nat \<Rightarrow> u32 \<Rightarrow> bool" where
  "clus n c \<longleftrightarrow> 2 \<le> unat c \<and> unat c < n"

definition clus_base :: "fat32 \<Rightarrow> u32 \<Rightarrow> nat" where
  "clus_base fs c = data_base fs + (unat c - 2) * spc fs"

definition clus_lbas :: "fat32 \<Rightarrow> u32 \<Rightarrow> u32 set" where
  "clus_lbas fs c = {lba. clus_base fs c \<le> unat lba \<and> unat lba < clus_base fs c + spc fs}"

lemma clus_in_fat: "vol_ok fs cap n \<Longrightarrow> clus n c \<Longrightarrow> in_fat fs c"
  using vol_okD(5)[of fs cap n] by (simp add: clus_def)

lemma clus_not_end:
  assumes "vol_ok fs cap n" "clus n c"
  shows "c \<ge> 2" "c < END_OF_CHAIN" "c \<noteq> 0" "c AND 0x0FFFFFFF = c"
proof -
  have c: "2 \<le> unat c" "unat c < 0x0FFFFFF8"
    using assms(2) vol_okD(5,6)[OF assms(1)] by (auto simp: clus_def)
  then show "c \<ge> 2" "c < END_OF_CHAIN" "c \<noteq> 0"
    by (auto simp: word_le_nat_alt word_less_nat_alt END_OF_CHAIN_def)
  have "unat (take_bit 28 c) = unat c" using c by (simp add: unsigned_take_bit_eq) (simp add: take_bit_eq_mod)
  then have "take_bit 28 c = c" by (simp add: word_unat_eq_iff)
  then show "c AND 0x0FFFFFFF = c" by (simp add: take_bit_eq_mask mask_eq_exp_minus_1)
qed

lemma clus_end:
  assumes "vol_ok fs cap n" "clus n c"
  shows "clus_base fs c + spc fs \<le> cap" "data_base fs \<le> clus_base fs c"
proof -
  have "unat c - 2 + 1 \<le> n - 2" using assms(2) by (auto simp: clus_def)
  then have "(unat c - 2) * spc fs + spc fs \<le> (n - 2) * spc fs"
    using mult_le_mono1[of "unat c - 2 + 1" "n - 2" "spc fs"] by simp
  then show "clus_base fs c + spc fs \<le> cap" using vol_okD(7)[OF assms(1)] by (simp add: clus_base_def)
qed (simp add: clus_base_def)

lemma clus_lba_nat:
  assumes "vol_ok fs cap n" "clus n c" "s < spc fs"
  shows "unat (cluster_to_lba fs c + of_nat s) = clus_base fs c + s"
    and "unat (cluster_to_lba fs c + of_nat s) < cap"
proof -
  note E = clus_end[OF assms(1,2)] and V = vol_okD[OF assms(1)]
  have "c - 2 = of_nat (unat c - 2)"
    using assms(2) by (simp add: clus_def of_nat_diff)
  then have "cluster_to_lba fs c + of_nat s = of_nat (clus_base fs c + s)"
    by (simp add: cluster_to_lba_def first_data_sector_def clus_base_def data_base_def fat_base_def spc_def)
  then show "unat (cluster_to_lba fs c + of_nat s) = clus_base fs c + s"
    using E V(8) assms(3) by (intro unat_eq_of_nat) simp_all
  then show "unat (cluster_to_lba fs c + of_nat s) < cap" using E assms(3) by simp
qed

lemma clus_lbas_disjoint:
  assumes "clus n c" "clus n c'" "c \<noteq> c'"
  shows "clus_lbas fs c \<inter> clus_lbas fs c' = {}"
proof -
  have "clus_lbas fs a \<inter> clus_lbas fs b = {}" if "unat a < unat b" "2 \<le> unat a" for a b
  proof -
    have "(unat a - 2 + 1) * spc fs \<le> (unat b - 2) * spc fs" using that by (intro mult_le_mono1) simp
    then show ?thesis by (auto simp: clus_lbas_def clus_base_def)
  qed
  then show ?thesis using assms by (metis clus_def inf_commute nat_neq_iff word_unat_eq_iff)
qed

lemma clus_lbas_eq:
  assumes "vol_ok fs cap n" "clus n c"
  shows "clus_lbas fs c = (\<lambda>s. cluster_to_lba fs c + of_nat s) ` {..<spc fs}"
proof
  show "(\<lambda>s. cluster_to_lba fs c + of_nat s) ` {..<spc fs} \<subseteq> clus_lbas fs c"
    using clus_lba_nat(1)[OF assms] by (auto simp: clus_lbas_def)
  show "clus_lbas fs c \<subseteq> (\<lambda>s. cluster_to_lba fs c + of_nat s) ` {..<spc fs}"
  proof
    fix lba assume "lba \<in> clus_lbas fs c"
    then have l: "clus_base fs c \<le> unat lba" "unat lba - clus_base fs c < spc fs" by (auto simp: clus_lbas_def)
    have "lba = cluster_to_lba fs c + of_nat (unat lba - clus_base fs c)"
      using clus_lba_nat(1)[OF assms l(2)] l(1) by (simp add: word_unat_eq_iff)
    with l(2) show "lba \<in> (\<lambda>s. cluster_to_lba fs c + of_nat s) ` {..<spc fs}" by blast
  qed
qed

text \<open>
  \<open>frame fs cap S T D D'\<close>: from \<open>D\<close> to \<open>D'\<close> only table entries of clusters in \<open>S\<close> and data of
  clusters in \<open>T\<close> changed.
\<close>

definition frame :: "fat32 \<Rightarrow> nat \<Rightarrow> u32 set \<Rightarrow> u32 set \<Rightarrow> disk \<Rightarrow> disk \<Rightarrow> bool" where
  "frame fs cap S T D D' \<longleftrightarrow> blocks_ok cap D' \<and>
     (\<forall>k c. k < unat (num_fats fs) \<longrightarrow> in_fat fs c \<longrightarrow> c \<notin> S \<longrightarrow> fat_val fs k D' c = fat_val fs k D c) \<and>
     (\<forall>lba. unat lba < fat_base fs \<or> data_base fs \<le> unat lba \<longrightarrow> (\<forall>c \<in> T. lba \<notin> clus_lbas fs c) \<longrightarrow> D' lba = D lba)"

lemma frame_refl: "blocks_ok cap D \<Longrightarrow> frame fs cap S T D D"
  by (simp add: frame_def)

lemma frame_blocks_ok: "frame fs cap S T D D' \<Longrightarrow> blocks_ok cap D'"
  by (simp add: frame_def)

lemma frameI:
  assumes "blocks_ok cap D'"
    and "\<And>k c. k < unat (num_fats fs) \<Longrightarrow> in_fat fs c \<Longrightarrow> c \<notin> S \<Longrightarrow> fat_val fs k D' c = fat_val fs k D c"
    and "\<And>lba. unat lba < fat_base fs \<or> data_base fs \<le> unat lba \<Longrightarrow> \<forall>c \<in> T. lba \<notin> clus_lbas fs c \<Longrightarrow> D' lba = D lba"
  shows "frame fs cap S T D D'"
  unfolding frame_def using assms by blast

lemma frame_entry:
  "frame fs cap S T D D' \<Longrightarrow> k < unat (num_fats fs) \<Longrightarrow> in_fat fs c \<Longrightarrow> c \<notin> S \<Longrightarrow> fat_val fs k D' c = fat_val fs k D c"
  unfolding frame_def by blast

lemma frame_sector:
  "frame fs cap S T D D' \<Longrightarrow> unat lba < fat_base fs \<or> data_base fs \<le> unat lba \<Longrightarrow>
   \<forall>c \<in> T. lba \<notin> clus_lbas fs c \<Longrightarrow> D' lba = D lba"
  unfolding frame_def by blast

lemma frame_trans:
  assumes "frame fs cap S1 T1 D D1" "frame fs cap S2 T2 D1 D2" "S1 \<subseteq> S" "S2 \<subseteq> S" "T1 \<subseteq> T" "T2 \<subseteq> T"
  shows "frame fs cap S T D D2"
proof (rule frameI)
  show "blocks_ok cap D2" using assms(2) by (rule frame_blocks_ok)
  show "fat_val fs k D2 c = fat_val fs k D c" if "k < unat (num_fats fs)" "in_fat fs c" "c \<notin> S" for k c
    using frame_entry[OF assms(1) that(1,2)] frame_entry[OF assms(2) that(1,2)] that(3) assms(3,4) by fastforce
  show "D2 lba = D lba"
    if "unat lba < fat_base fs \<or> data_base fs \<le> unat lba" "\<forall>c \<in> T. lba \<notin> clus_lbas fs c" for lba
    using frame_sector[OF assms(1) that(1)] frame_sector[OF assms(2) that(1)] that(2) assms(5,6) by fastforce
qed

lemma frame_mono: "frame fs cap S1 T1 D D' \<Longrightarrow> S1 \<subseteq> S \<Longrightarrow> T1 \<subseteq> T \<Longrightarrow> frame fs cap S T D D'"
  by (rule frame_trans[of fs cap S1 T1 D D' "{}" "{}" D']) (auto intro: frame_refl frame_blocks_ok)

lemma frame_fat:
  "frame fs cap S T D D' \<Longrightarrow> vol_ok fs cap n \<Longrightarrow> in_fat fs c \<Longrightarrow> c \<notin> S \<Longrightarrow> fat fs D' c = fat fs D c"
  using frame_entry vol_okD(2) by blast

lemma frame_data:
  assumes "frame fs cap S T D D'" "vol_ok fs cap n" "clus n c" "c \<notin> T" "\<forall>x \<in> T. clus n x" "lba \<in> clus_lbas fs c"
  shows "D' lba = D lba"
proof (rule frame_sector[OF assms(1)])
  show "unat lba < fat_base fs \<or> data_base fs \<le> unat lba"
    using assms(6) clus_end(2)[OF assms(2,3)] by (auto simp: clus_lbas_def)
  show "\<forall>x \<in> T. lba \<notin> clus_lbas fs x" using clus_lbas_disjoint[OF assms(3)] assms(4,5,6) by blast
qed

lemma frame_fat_put:
  assumes "vol_ok fs cap n" "blocks_ok cap D" "in_fat fs c" "c \<in> S"
  shows "frame fs cap S T D (fat_put fs c v D)"
proof (rule frameI)
  show "blocks_ok cap (fat_put fs c v D)" using assms(2) by blast
  show "fat_val fs k (fat_put fs c v D) x = fat_val fs k D x" if "k < unat (num_fats fs)" "in_fat fs x" "x \<notin> S" for k x
    using that assms(4) by (intro fat_put_other[OF assms(1,2) _ assms(3)]) auto
  show "fat_put fs c v D lba = D lba" if "unat lba < fat_base fs \<or> data_base fs \<le> unat lba" for lba
    using that fat_put_data[OF assms(1,3)] fat_put_before[OF assms(1,3)] by blast
qed

lemma fat_lba_not_data:
  "vol_ok fs cap n \<Longrightarrow> k < unat (num_fats fs) \<Longrightarrow> in_fat fs c \<Longrightarrow> clus n x \<Longrightarrow> fat_lba fs k c \<notin> clus_lbas fs x"
  using fat_lba_nat(3)[of fs cap n k c] clus_end(2)[of fs cap n x] by (auto simp: clus_lbas_def)

text \<open>Overwriting the sectors of one data cluster.\<close>

lemma frame_cluster:
  assumes vol: "vol_ok fs cap n" and "blocks_ok cap D'" "clus n c" "c \<in> T" "\<And>lba. lba \<notin> clus_lbas fs c \<Longrightarrow> D' lba = D lba"
  shows "frame fs cap S T D D'"
proof (rule frameI)
  show "fat_val fs k D' x = fat_val fs k D x" if "k < unat (num_fats fs)" "in_fat fs x" for k x
    using fat_lba_not_data[OF vol that assms(3)] assms(5) by (simp add: fat_val_def)
  show "D' lba = D lba" if "\<forall>c \<in> T. lba \<notin> clus_lbas fs c" for lba
    using that assms(4,5) by blast
qed (rule assms(2))

section \<open>The table operations\<close>

context block_device
begin

lemma exec_rd: "unat lba < cap \<Longrightarrow> exec (rd ops lba) D (Inr (D lba)) D"
  unfolding rd_def by (rule runs_map_err[OF exec_read])

lemma exec_wr: "unat lba < cap \<Longrightarrow> length data = SECTOR_SIZE \<Longrightarrow> exec (wr ops lba data) D (Inr ()) (D(lba := data))"
  unfolding wr_def by (rule runs_map_err[OF exec_write])

lemma exec_fat_entry:
  assumes "vol_ok fs cap n" "in_fat fs c"
  shows "exec (fat_entry ops fs c) D (Inr (fat fs D c)) D"
proof -
  have "unat (fat_lba fs 0 c) < cap" using fat_lba_cap[OF assms(1) _ assms(2)] vol_okD(2)[OF assms(1)] by simp
  from runs_bind[OF exec_rd[OF this] runs_return] show ?thesis
    by (simp add: fat_entry_def fat_val_def fat_lba_def fat_off_def Let_def)
qed

lemma exec_set_fat_copies:
  assumes vol: "vol_ok fs cap n" and c: "in_fat fs c"
  shows "blocks_ok cap D \<Longrightarrow> j + m \<le> unat (num_fats fs) \<Longrightarrow>
    exec (set_fat_copies ops fs ((c * 4) div 512) (unat ((c * 4) mod 512)) v (of_nat j) m) D (Inr ())
      (\<lambda>lba. if \<exists>k. j \<le> k \<and> k < j + m \<and> lba = fat_lba fs k c then put_entry c v (D lba) else D lba)"
proof (induction m arbitrary: j D)
  case 0
  have "(\<lambda>lba. if \<exists>k. j \<le> k \<and> k < j + 0 \<and> lba = fat_lba fs k c then put_entry c v (D lba) else D lba) = D"
    by (intro ext) auto
  then show ?case unfolding set_fat_copies.simps(1) by (simp only: runs_return)
next
  case (Suc m)
  let ?l = "fat_lba fs j c" and ?D = "D(fat_lba fs j c := put_entry c v (D (fat_lba fs j c)))"
  have j: "j < unat (num_fats fs)" using Suc.prems by simp
  note l = fat_lba_cap[OF vol j c]
  have len: "length (put_entry c v (D ?l)) = SECTOR_SIZE" using blocks_okD[OF Suc.prems(1) l] by simp
  have ih: "exec (set_fat_copies ops fs ((c * 4) div 512) (unat ((c * 4) mod 512)) v (of_nat (Suc j)) m) ?D (Inr ())
      (\<lambda>lba. if \<exists>k. Suc j \<le> k \<and> k < Suc j + m \<and> lba = fat_lba fs k c then put_entry c v (?D lba) else ?D lba)"
    by (rule Suc.IH[OF blocks_ok_write[OF Suc.prems(1) len]]) (use Suc.prems(2) in simp)
  have distinct: "fat_lba fs k c \<noteq> ?l" if "Suc j \<le> k" "k < Suc j + m" for k
    using fat_lba_eq[OF vol _ j c c, of k] that Suc.prems(2) by simp
  have eq: "(\<lambda>lba. if \<exists>k. Suc j \<le> k \<and> k < Suc j + m \<and> lba = fat_lba fs k c then put_entry c v (?D lba) else ?D lba) =
      (\<lambda>lba. if \<exists>k. j \<le> k \<and> k < j + Suc m \<and> lba = fat_lba fs k c then put_entry c v (D lba) else D lba)"
  proof
    fix lba
    have "(\<exists>k. j \<le> k \<and> k < j + Suc m \<and> lba = fat_lba fs k c) \<longleftrightarrow>
        lba = ?l \<or> (\<exists>k. Suc j \<le> k \<and> k < Suc j + m \<and> lba = fat_lba fs k c)"
      by (metis Suc_leI add_Suc add_Suc_right le_eq_less_or_eq le_add1 less_Suc_eq_le Suc_leD)
    note iff = this
    show "(if \<exists>k. Suc j \<le> k \<and> k < Suc j + m \<and> lba = fat_lba fs k c then put_entry c v (?D lba) else ?D lba) =
      (if \<exists>k. j \<le> k \<and> k < j + Suc m \<and> lba = fat_lba fs k c then put_entry c v (D lba) else D lba)"
    proof (cases "lba = ?l")
      case True
      have no: "\<not> (\<exists>k. Suc j \<le> k \<and> k < Suc j + m \<and> lba = fat_lba fs k c)" using distinct True by metis
      show ?thesis unfolding iff if_not_P[OF no] using True by simp
    next
      case False
      then show ?thesis unfolding iff by auto
    qed
  qed
  have "exec (io_bind (rd ops ?l) (\<lambda>sector. io_bind (wr ops ?l (put_entry c v sector))
      (\<lambda>_. set_fat_copies ops fs ((c * 4) div 512) (unat ((c * 4) mod 512)) v (of_nat (Suc j)) m))) D (Inr ())
      (\<lambda>lba. if \<exists>k. j \<le> k \<and> k < j + Suc m \<and> lba = fat_lba fs k c then put_entry c v (D lba) else D lba)"
    by (rule runs_bind[OF exec_rd[OF l]], rule runs_bind[OF exec_wr[OF l len]], rule ih[unfolded eq])
  then show ?case by (simp add: put_entry_def fat_lba_def fat_off_def Let_def add.commute[of 1])
qed

lemma exec_set_fat_entry:
  assumes "vol_ok fs cap n" "in_fat fs c" "blocks_ok cap D"
  shows "exec (set_fat_entry ops fs c v) D (Inr ()) (fat_put fs c v D)"
proof -
  have "(\<lambda>lba. if \<exists>k. 0 \<le> k \<and> k < 0 + unat (num_fats fs) \<and> lba = fat_lba fs k c then put_entry c v (D lba) else D lba)
      = fat_put fs c v D" by (auto simp: fat_put_def fun_eq_iff)
  with exec_set_fat_copies[OF assms, of 0 "unat (num_fats fs)" v] show ?thesis
    by (simp add: set_fat_entry_def Let_def)
qed

lemma exec_free_scan_found:
  assumes vol: "vol_ok fs cap n"
  shows "unat c0 \<le> unat c \<Longrightarrow> in_fat fs c \<Longrightarrow> fat fs D c = 0 \<Longrightarrow>
    (\<And>x. unat c0 \<le> unat x \<Longrightarrow> unat x < unat c \<Longrightarrow> fat fs D x \<noteq> 0) \<Longrightarrow>
    exec (free_scan ops fs c0) D (Inr c) D"
proof (induction "unat c - unat c0" arbitrary: c0)
  case 0
  then have c0: "c0 = c" by (simp add: word_unat_eq_iff)
  have "c < max_cluster fs" using 0 by (simp add: word_less_nat_alt max_cluster_nat[OF vol])
  moreover have "exec (io_bind (fat_entry ops fs c) (\<lambda>e. if e = 0 then io_return c else free_scan ops fs (c + 1))) D (Inr c) D"
    by (rule runs_bind[OF exec_fat_entry[OF vol 0(3)]]) (simp add: 0(4) runs_return)
  ultimately show ?case unfolding c0 by (subst free_scan.simps) simp
next
  case (Suc k)
  have lt: "unat c0 < unat c" using Suc.hyps(2) by simp
  then have c0: "in_fat fs c0" "c0 < c" using Suc.prems(2) by (simp_all add: word_less_nat_alt)
  note nxt = unat_Suc_in_range[OF c0(2)]
  have mx: "c0 < max_cluster fs" using c0 by (simp add: word_less_nat_alt max_cluster_nat[OF vol])
  have ih: "exec (free_scan ops fs (c0 + 1)) D (Inr c) D"
    using Suc.hyps(2) Suc.prems lt by (intro Suc.hyps(1)) (simp_all add: nxt)
  have "fat fs D c0 \<noteq> 0" using Suc.prems(4)[of c0] lt by simp
  then have "exec (io_bind (fat_entry ops fs c0) (\<lambda>e. if e = 0 then io_return c0 else free_scan ops fs (c0 + 1))) D (Inr c) D"
    by (intro runs_bind[OF exec_fat_entry[OF vol c0(1)]]) (simp add: ih)
  with mx show ?case by (subst free_scan.simps) simp
qed

lemma exec_free_scan_none:
  assumes vol: "vol_ok fs cap n"
  shows "(\<And>x. unat c0 \<le> unat x \<Longrightarrow> in_fat fs x \<Longrightarrow> fat fs D x \<noteq> 0) \<Longrightarrow>
    exec (free_scan ops fs c0) D (Inl (Err NoSpace)) D"
proof (induction "unat (max_cluster fs) - unat c0" arbitrary: c0)
  case 0
  then have "\<not> c0 < max_cluster fs" by (simp add: word_less_nat_alt)
  then show ?case by (subst free_scan.simps) (simp add: runs_throw)
next
  case (Suc k)
  then have c0: "c0 < max_cluster fs" by (simp add: word_less_nat_alt)
  then have f: "in_fat fs c0" by (simp add: word_less_nat_alt max_cluster_nat[OF vol])
  note nxt = unat_Suc_in_range[OF c0]
  have ih: "exec (free_scan ops fs (c0 + 1)) D (Inl (Err NoSpace)) D"
    using Suc.hyps(2) Suc.prems by (intro Suc.hyps(1)) (simp_all add: nxt)
  have "exec (io_bind (fat_entry ops fs c0) (\<lambda>e. if e = 0 then io_return c0 else free_scan ops fs (c0 + 1))) D (Inl (Err NoSpace)) D"
    using Suc.prems[of c0] f by (intro runs_bind[OF exec_fat_entry[OF vol f]]) (simp add: ih)
  with c0 show ?case by (subst free_scan.simps) simp
qed

lemma exec_zero_sectors:
  assumes vol: "vol_ok fs cap n" and c: "clus n c"
  shows "s + m \<le> spc fs \<Longrightarrow>
    exec (zero_sectors ops (cluster_to_lba fs c) (of_nat s) m) D (Inr ())
      (\<lambda>lba. if clus_base fs c + s \<le> unat lba \<and> unat lba < clus_base fs c + s + m then replicate SECTOR_SIZE 0 else D lba)"
proof (induction m arbitrary: s D)
  case 0
  have "(\<lambda>lba. if clus_base fs c + s \<le> unat lba \<and> unat lba < clus_base fs c + s + 0 then replicate SECTOR_SIZE 0 else D lba) = D"
    by (intro ext) auto
  then show ?case unfolding zero_sectors.simps(1) by (simp only: runs_return)
next
  case (Suc m)
  let ?l = "cluster_to_lba fs c + of_nat s"
  have l: "unat ?l = clus_base fs c + s" "unat ?l < cap"
    using clus_lba_nat[OF vol c, of s] Suc.prems by simp_all
  let ?D = "D(?l := replicate SECTOR_SIZE 0)"
  have ih: "exec (zero_sectors ops (cluster_to_lba fs c) (of_nat (Suc s)) m) ?D (Inr ())
      (\<lambda>lba. if clus_base fs c + Suc s \<le> unat lba \<and> unat lba < clus_base fs c + Suc s + m
             then replicate SECTOR_SIZE 0 else ?D lba)"
    using Suc.prems by (intro Suc.IH) simp
  have eq: "(\<lambda>lba. if clus_base fs c + Suc s \<le> unat lba \<and> unat lba < clus_base fs c + Suc s + m
             then replicate SECTOR_SIZE 0 else ?D lba) =
      (\<lambda>lba. if clus_base fs c + s \<le> unat lba \<and> unat lba < clus_base fs c + s + Suc m then replicate SECTOR_SIZE 0 else D lba)"
    using l(1) by (auto simp: fun_eq_iff word_unat_eq_iff)
  have "exec (io_bind (wr ops ?l (replicate SECTOR_SIZE 0)) (\<lambda>_. zero_sectors ops (cluster_to_lba fs c) (of_nat (Suc s)) m)) D (Inr ())
      (\<lambda>lba. if clus_base fs c + s \<le> unat lba \<and> unat lba < clus_base fs c + s + Suc m then replicate SECTOR_SIZE 0 else D lba)"
    by (rule runs_bind[OF exec_wr[OF l(2)]]) (simp, rule ih[unfolded eq])
  then show ?case by (simp add: add.commute)
qed

lemma exec_zero_cluster:
  assumes "vol_ok fs cap n" "clus n c"
  shows "exec (zero_cluster ops fs c) D (Inr ()) (\<lambda>lba. if lba \<in> clus_lbas fs c then replicate SECTOR_SIZE 0 else D lba)"
  using exec_zero_sectors[OF assms, of 0 "spc fs" D] by (simp add: zero_cluster_def clus_lbas_def spc_def)

end

section \<open>Chains\<close>

text \<open>\<open>links F cs e\<close>: each cluster of \<open>cs\<close> is linked to the next, and the last to \<open>e\<close>.\<close>

fun links :: "(u32 \<Rightarrow> u32) \<Rightarrow> u32 list \<Rightarrow> u32 \<Rightarrow> bool" where
  "links F [] e = True"
| "links F [c] e = (F c = e)"
| "links F (c # c' # cs) e = (F c = c' \<and> links F (c' # cs) e)"

definition chain :: "fat32 \<Rightarrow> nat \<Rightarrow> disk \<Rightarrow> u32 list \<Rightarrow> bool" where
  "chain fs n D cs \<longleftrightarrow> cs \<noteq> [] \<and> distinct cs \<and> (\<forall>c \<in> set cs. clus n c) \<and>
     (\<exists>e. e \<ge> END_OF_CHAIN \<and> links (fat fs D) cs e)"

definition free_list :: "fat32 \<Rightarrow> disk \<Rightarrow> nat \<Rightarrow> nat \<Rightarrow> u32 list" where
  "free_list fs D n from = filter (\<lambda>c. fat fs D c = 0) (map of_nat [from..<n])"

lemma links_cong: "(\<And>c. c \<in> set cs \<Longrightarrow> F c = G c) \<Longrightarrow> links F cs e = links G cs e"
  by (induction F cs e rule: links.induct) auto

lemma links_append:
  "links F (cs @ [c]) x \<Longrightarrow> links F (y # ys) e \<Longrightarrow> x = y \<Longrightarrow> links F (cs @ c # y # ys) e"
  by (induction F cs e rule: links.induct) auto

lemma free_list_ConsD:
  assumes "n \<le> 2 ^ 32"
  shows "free_list fs D n from = c # cs \<Longrightarrow> from \<le> unat c \<and> unat c < n \<and> fat fs D c = 0 \<and>
    (\<forall>x. from \<le> unat x \<longrightarrow> unat x < unat c \<longrightarrow> fat fs D x \<noteq> 0) \<and> cs = free_list fs D n (unat c + 1)"
proof (induction "n - from" arbitrary: "from")
  case 0
  then show ?case by (simp add: free_list_def)
next
  case (Suc k)
  then have up: "[from..<n] = from # [Suc from..<n]" by (simp add: upt_conv_Cons)
  have u: "unat (of_nat from :: u32) = from" using Suc.hyps(2) assms by (simp add: unat_of_nat)
  show ?case
  proof (cases "fat fs D (of_nat from) = 0")
    case True
    then show ?thesis using Suc.prems Suc.hyps(2) u by (auto simp: free_list_def up)
  next
    case False
    have "free_list fs D n (Suc from) = c # cs" using Suc.prems False by (simp add: free_list_def up)
    from Suc.hyps(1)[OF _ this] Suc.hyps(2)
    have ih: "Suc from \<le> unat c" "unat c < n" "fat fs D c = 0"
      "\<forall>x. Suc from \<le> unat x \<longrightarrow> unat x < unat c \<longrightarrow> fat fs D x \<noteq> 0" "cs = free_list fs D n (unat c + 1)" by auto
    have "fat fs D x \<noteq> 0" if "from \<le> unat x" "unat x < unat c" for x
    proof (cases "unat x = from")
      case True
      then have "x = of_nat from" by (metis u word_unat_eq_iff)
      with False show ?thesis by simp
    qed (use that ih(4) in auto)
    with ih show ?thesis by simp
  qed
qed

lemma free_list_cong:
  assumes "\<And>x. from \<le> unat x \<Longrightarrow> unat x < n \<Longrightarrow> fat fs D x = fat fs D' x" "n \<le> 2 ^ 32"
  shows "free_list fs D n from = free_list fs D' n from"
  unfolding free_list_def
proof (rule filter_cong[OF refl])
  fix c assume "c \<in> set (map (of_nat :: nat \<Rightarrow> u32) [from..<n])"
  then have "from \<le> unat c" "unat c < n" using assms(2) by (auto simp: unat_of_nat)
  then show "(fat fs D c = 0) = (fat fs D' c = 0)" using assms(1) by simp
qed

lemma free_list_clus:
  assumes "2 \<le> from" "n \<le> 2 ^ 32" "c \<in> set (free_list fs D n from)"
  shows "clus n c" "from \<le> unat c" "fat fs D c = 0"
  using assms by (auto simp: free_list_def clus_def unat_of_nat)

lemma distinct_free_list: "n \<le> 2 ^ 32 \<Longrightarrow> distinct (free_list fs D n from)"
  unfolding free_list_def
  by (intro distinct_filter) (auto simp: distinct_map inj_on_def word_unat_eq_iff unat_of_nat)

lemma vol_ok_small: "vol_ok fs cap n \<Longrightarrow> n \<le> 2 ^ 32"
  using vol_okD(5,6)[of fs cap n] by simp

lemma links_nonzero:
  assumes "vol_ok fs cap n"
  shows "links F cs e \<Longrightarrow> \<forall>c \<in> set cs. clus n c \<Longrightarrow> e \<ge> END_OF_CHAIN \<Longrightarrow> c \<in> set cs \<Longrightarrow> F c \<noteq> 0"
  by (induction F cs e rule: links.induct)
    (auto simp: END_OF_CHAIN_def dest: clus_not_end(3)[OF assms])

end
