(* ===== verification/Fat32_Alloc.thy ===== *)
theory Fat32_Alloc
  imports Fat32_Chains
begin

text \<open>
  Allocation, release and resizing of cluster chains (\<^verbatim>\<open>find_free_cluster\<close>, \<^verbatim>\<open>allocate_chain\<close>,
  \<^verbatim>\<open>free_chain_from\<close>, \<^verbatim>\<open>resize_chain\<close> of \<^verbatim>\<open>src/src/fat32.rs\<close>), stated over the chains that the table on
  the disk holds before and after.
\<close>

definition zeroed :: "fat32 \<Rightarrow> disk \<Rightarrow> u32 \<Rightarrow> bool" where
  "zeroed fs D c \<longleftrightarrow> (\<forall>lba \<in> clus_lbas fs c. D lba = replicate SECTOR_SIZE 0)"

lemma END_OF_CHAIN_mask: "END_OF_CHAIN AND 0x0FFFFFFF = END_OF_CHAIN"
  by (simp add: END_OF_CHAIN_def)

lemma zeroed_frame:
  assumes "zeroed fs D c" "frame fs cap S T D D'" "vol_ok fs cap n" "clus n c" "c \<notin> T" "\<forall>x \<in> T. clus n x"
  shows "zeroed fs D' c"
  using assms(1) frame_data[OF assms(2-6)] by (simp add: zeroed_def)

lemma clus_Suc: "vol_ok fs cap n \<Longrightarrow> clus n c \<Longrightarrow> unat (c + 1) = unat c + 1"
  using unat_Suc_in_range[OF clus_not_end(2)] .

context block_device
begin

lemma exec_find_free:
  assumes "vol_ok fs cap n" "free_list fs D n (unat start) = c # cs" "2 \<le> unat start"
  shows "exec (find_free_cluster ops fs start) D (Inr c) D"
proof -
  note F = free_list_ConsD[OF vol_ok_small[OF assms(1)] assms(2)]
  have "max start 2 = start" using assms(3) by (auto simp: max_def word_le_nat_alt word_unat_eq_iff)
  moreover have "in_fat fs c" using F vol_okD(5)[OF assms(1)] by simp
  ultimately show ?thesis
    unfolding find_free_cluster_def using F by (intro exec_free_scan_found[OF assms(1)]) auto
qed

text \<open>Taking one cluster: mark it as the end of a chain and clear it.\<close>

lemma exec_take_cluster:
  assumes vol: "vol_ok fs cap n" and "blocks_ok cap D" and c: "clus n c"
  obtains D' where "frame fs cap {c} {c} D D'" "fat fs D' c = END_OF_CHAIN" "zeroed fs D' c"
    "\<And>f r D2. exec (f ()) D' r D2 \<Longrightarrow>
       exec (io_bind (set_fat_entry ops fs c END_OF_CHAIN) (\<lambda>_. io_bind (zero_cluster ops fs c) f)) D r D2"
proof -
  let ?D1 = "fat_put fs c END_OF_CHAIN D"
  let ?D2 = "\<lambda>lba. if lba \<in> clus_lbas fs c then replicate SECTOR_SIZE 0 else ?D1 lba"
  note f = clus_in_fat[OF vol c]
  have b1: "blocks_ok cap ?D1" using assms(2) by blast
  then have b2: "blocks_ok cap ?D2" by (simp add: blocks_ok_def)
  have fr1: "frame fs cap {c} {c} D ?D1" by (rule frame_fat_put[OF vol assms(2) f]) simp
  have fr2: "frame fs cap {} {c} ?D1 ?D2" by (rule frame_cluster[OF vol b2 c]) simp_all
  have "frame fs cap {c} {c} D ?D2" by (rule frame_trans[OF fr1 fr2]) simp_all
  moreover have "fat fs ?D2 c = END_OF_CHAIN"
    using frame_fat[OF fr2 vol f] fat_put_same[OF vol assms(2) vol_okD(2)[OF vol] f] END_OF_CHAIN_mask by simp
  moreover have "zeroed fs ?D2 c" by (simp add: zeroed_def)
  moreover have "exec (io_bind (set_fat_entry ops fs c END_OF_CHAIN) (\<lambda>_. io_bind (zero_cluster ops fs c) g)) D r D3"
    if "exec (g ()) ?D2 r D3" for g :: "unit \<Rightarrow> ('d, fat32_error, 'x) io" and r D3
    by (rule runs_bind[OF exec_set_fat_entry[OF vol f assms(2)]], rule runs_bind[OF exec_zero_cluster[OF vol c]], rule that)
  ultimately show thesis by (rule that)
qed

lemma exec_allocate_loop:
  assumes vol: "vol_ok fs cap n"
  shows "blocks_ok cap D \<Longrightarrow> cs = take m (free_list fs D n (unat start)) \<Longrightarrow> length cs = m \<Longrightarrow> first \<noteq> 0 \<Longrightarrow>
    clus n prev \<Longrightarrow> unat prev < unat start \<Longrightarrow> fat fs D prev = END_OF_CHAIN \<Longrightarrow>
    \<exists>D'. exec (allocate_loop ops fs m first prev start) D (Inr first) D' \<and>
      frame fs cap (insert prev (set cs)) (set cs) D D' \<and> links (fat fs D') (prev # cs) END_OF_CHAIN \<and>
      (\<forall>c \<in> set cs. zeroed fs D' c)"
proof (induction m arbitrary: D cs prev start)
  case 0
  then show ?case by (auto intro!: exI[of _ D] simp: runs_return frame_refl)
next
  case (Suc m)
  note small = vol_ok_small[OF vol]
  have prev2: "2 \<le> unat prev" using Suc.prems(5) by (simp add: clus_def)
  obtain c rest where fl: "free_list fs D n (unat start) = c # rest"
    using Suc.prems(2,3) by (cases "free_list fs D n (unat start)") auto
  note F = free_list_ConsD[OF small fl]
  have c: "clus n c" using F Suc.prems(6) prev2 by (simp add: clus_def)
  have pc: "unat prev < unat c" "prev \<noteq> c" using F Suc.prems(6) by auto
  define cs' where "cs' = take m (free_list fs D n (unat c + 1))"
  have cs: "cs = c # cs'" using Suc.prems(2) fl F by (simp add: cs'_def)
  have cs'c: "clus n x \<and> unat c < unat x" if "x \<in> set cs'" for x
    using that free_list_clus[OF _ small, of "unat c + 1" x fs D] c
    by (auto simp: cs'_def clus_def dest: in_set_takeD)
  obtain D1 where D1: "frame fs cap {c} {c} D D1" "fat fs D1 c = END_OF_CHAIN" "zeroed fs D1 c"
    and run1: "\<And>f r D2. exec (f ()) D1 r D2 \<Longrightarrow>
       exec (io_bind (set_fat_entry ops fs c END_OF_CHAIN) (\<lambda>_. io_bind (zero_cluster ops fs c) f)) D (r :: fat32_error fault + u32) D2"
    using exec_take_cluster[OF vol Suc.prems(1) c] by blast
  note fp = clus_in_fat[OF vol Suc.prems(5)] and fc = clus_in_fat[OF vol c]
  have b1: "blocks_ok cap D1" using D1(1) by (rule frame_blocks_ok)
  let ?D2 = "fat_put fs prev c D1"
  have b2: "blocks_ok cap ?D2" using b1 by blast
  have fr2: "frame fs cap {prev} {} D1 ?D2" by (rule frame_fat_put[OF vol b1 fp]) simp
  have fr12: "frame fs cap {prev, c} {c} D ?D2" by (rule frame_trans[OF D1(1) fr2]) auto
  have fat2: "fat fs ?D2 c = END_OF_CHAIN" "fat fs ?D2 prev = c"
    using frame_fat[OF fr2 vol fc] pc(2) D1(2) fat_put_same[OF vol b1 vol_okD(2)[OF vol] fp]
      clus_not_end(4)[OF vol c] by auto
  note sc = clus_Suc[OF vol c]
  have "cs' = take m (free_list fs ?D2 n (unat (c + 1)))"
    unfolding cs'_def sc
  proof (rule arg_cong[where f = "take m"], rule free_list_cong[OF _ small])
    fix x :: u32 assume x: "unat c + 1 \<le> unat x" "unat x < n"
    then have "in_fat fs x" "x \<noteq> prev" "x \<noteq> c" using vol_okD(5)[OF vol] pc(1) by auto
    then show "fat fs D x = fat fs ?D2 x" using frame_fat[OF fr12 vol] by simp
  qed
  from Suc.IH[OF b2 this _ Suc.prems(4) c _ fat2(1)] Suc.prems(3) cs sc
  obtain D' where D': "exec (allocate_loop ops fs m first c (c + 1)) ?D2 (Inr first) D'"
    "frame fs cap (insert c (set cs')) (set cs') ?D2 D'" "links (fat fs D') (c # cs') END_OF_CHAIN"
    "\<forall>x \<in> set cs'. zeroed fs D' x" by auto
  have run: "exec (allocate_loop ops fs (Suc m) first prev start) D (Inr first) D'"
  proof -
    have st2: "2 \<le> unat start" using Suc.prems(6) prev2 by simp
    have "exec (io_bind (set_fat_entry ops fs prev c) (\<lambda>_. allocate_loop ops fs m first c (c + 1))) D1 (Inr first) D'"
      by (rule runs_bind[OF exec_set_fat_entry[OF vol fp b1] D'(1)])
    with Suc.prems(4) show ?thesis
      unfolding allocate_loop.simps by (intro runs_bind[OF exec_find_free[OF vol fl st2]] run1) simp
  qed
  have fr: "frame fs cap (insert prev (set cs)) (set cs) D D'"
    by (rule frame_trans[OF fr12 D'(2)]) (auto simp: cs)
  have "prev \<notin> insert c (set cs')" "c \<notin> set cs'" using pc cs'c by fastforce+
  then have "fat fs D' prev = c" using frame_fat[OF D'(2) vol fp] fat2 by simp
  then have "links (fat fs D') (prev # cs) END_OF_CHAIN" using D'(3) by (simp add: cs)
  moreover have "zeroed fs D' c"
    using zeroed_frame[OF zeroed_frame[OF D1(3) fr2 vol c] D'(2) vol c] \<open>c \<notin> set cs'\<close> cs'c by blast
  ultimately show ?case using run fr D'(4) cs by auto
qed

lemma exec_allocate_chain:
  assumes vol: "vol_ok fs cap n" and b: "blocks_ok cap D" and cs: "cs = take (unat count) (free_list fs D n 2)"
    and len: "length cs = unat count" "0 < unat count"
  shows "\<exists>D'. exec (allocate_chain ops fs count) D (Inr (hd cs)) D' \<and> frame fs cap (set cs) (set cs) D D' \<and>
    links (fat fs D') cs END_OF_CHAIN \<and> (\<forall>c \<in> set cs. zeroed fs D' c)"
proof -
  note small = vol_ok_small[OF vol]
  obtain m where m: "unat count = Suc m" using len(2) by (cases "unat count") auto
  obtain c rest where fl: "free_list fs D n 2 = c # rest" using cs len by (cases "free_list fs D n 2") auto
  note F = free_list_ConsD[OF small fl]
  have c: "clus n c" using F by (simp add: clus_def)
  obtain D1 where D1: "frame fs cap {c} {c} D D1" "fat fs D1 c = END_OF_CHAIN" "zeroed fs D1 c"
    and run1: "\<And>f r D2. exec (f ()) D1 r D2 \<Longrightarrow>
       exec (io_bind (set_fat_entry ops fs c END_OF_CHAIN) (\<lambda>_. io_bind (zero_cluster ops fs c) f)) D (r :: fat32_error fault + u32) D2"
    using exec_take_cluster[OF vol b c] by blast
  have b1: "blocks_ok cap D1" using D1(1) by (rule frame_blocks_ok)
  note sc = clus_Suc[OF vol c]
  define cs' where "cs' = take m (free_list fs D n (unat c + 1))"
  have eq: "cs = c # cs'" using cs m fl F by (simp add: cs'_def)
  have cs'c: "clus n x \<and> unat c < unat x" if "x \<in> set cs'" for x
    using that free_list_clus[OF _ small, of "unat c + 1" x fs D] c
    by (auto simp: cs'_def clus_def dest: in_set_takeD)
  have "cs' = take m (free_list fs D1 n (unat (c + 1)))"
    unfolding cs'_def sc
  proof (rule arg_cong[where f = "take m"], rule free_list_cong[OF _ small])
    fix x :: u32 assume x: "unat c + 1 \<le> unat x" "unat x < n"
    then have "in_fat fs x" "x \<notin> {c}" using vol_okD(5)[OF vol] by auto
    then show "fat fs D x = fat fs D1 x" using frame_fat[OF D1(1) vol] by simp
  qed
  from exec_allocate_loop[OF vol b1 this _ clus_not_end(3)[OF vol c] c _ D1(2)] len(1) eq m sc
  obtain D' where D': "exec (allocate_loop ops fs m c c (c + 1)) D1 (Inr c) D'"
    "frame fs cap (insert c (set cs')) (set cs') D1 D'" "links (fat fs D') (c # cs') END_OF_CHAIN"
    "\<forall>x \<in> set cs'. zeroed fs D' x" by auto
  have fl': "free_list fs D n (unat (2 :: u32)) = c # rest" using fl by simp
  have "exec (allocate_chain ops fs count) D (Inr c) D'"
    unfolding allocate_chain_def m allocate_loop.simps
    by (intro runs_bind[OF exec_find_free[OF vol fl']] run1) (use D'(1) in simp_all)
  moreover have "frame fs cap (set cs) (set cs) D D'" by (rule frame_trans[OF D1(1) D'(2)]) (auto simp: eq)
  moreover have "zeroed fs D' c"
    using zeroed_frame[OF D1(3) D'(2) vol c] cs'c by blast
  ultimately show ?thesis using D'(3,4) eq by auto
qed

text \<open>When the table has no free entry left, allocation stops with NoSpace.\<close>

lemma exec_allocate_chain_full:
  assumes vol: "vol_ok fs cap n" and full: "\<And>x. 2 \<le> unat x \<Longrightarrow> in_fat fs x \<Longrightarrow> fat fs D x \<noteq> 0" and "0 < unat count"
  shows "exec (allocate_chain ops fs count) D (Inl (Err NoSpace)) D"
proof -
  obtain m where m: "unat count = Suc m" using assms(3) by (cases "unat count") auto
  have "exec (find_free_cluster ops fs 2) D (Inl (Err NoSpace)) D"
    unfolding find_free_cluster_def by (rule exec_free_scan_none[OF vol]) (use full in simp)
  then show ?thesis unfolding allocate_chain_def m allocate_loop.simps by (rule runs_bind_error)
qed

lemma exec_free_chain:
  assumes vol: "vol_ok fs cap n" and e: "\<not> (e \<ge> 2 \<and> e < END_OF_CHAIN)"
  shows "blocks_ok cap D \<Longrightarrow> links (fat fs D) cs e \<Longrightarrow> distinct cs \<Longrightarrow> \<forall>c \<in> set cs. clus n c \<Longrightarrow> length cs < fuel \<Longrightarrow>
    \<exists>D'. exec (free_chain_from ops fs fuel (hd (cs @ [e]))) D (Inr ()) D' \<and> frame fs cap (set cs) {} D D' \<and>
      (\<forall>c \<in> set cs. fat fs D' c = 0)"
proof (induction cs arbitrary: D fuel)
  case Nil
  then obtain k where "fuel = Suc k" by (cases fuel) auto
  with Nil e show ?case by (auto intro!: exI[of _ D] simp: runs_return frame_refl)
next
  case (Cons c cs)
  then obtain k where k: "fuel = Suc k" by (cases fuel) auto
  have c: "clus n c" using Cons.prems by simp
  note f = clus_in_fat[OF vol c]
  let ?D = "fat_put fs c 0 D"
  have fr: "frame fs cap {c} {} D ?D" by (rule frame_fat_put[OF vol Cons.prems(1) f]) simp
  have nxt: "fat fs D c = hd (cs @ [e])" "links (fat fs D) cs e" using Cons.prems(2) by (cases cs; simp)+
  have "links (fat fs ?D) cs e = links (fat fs D) cs e"
    using Cons.prems(3,4) by (intro links_cong frame_fat[OF fr vol] clus_in_fat[OF vol]) auto
  then obtain D' where D': "exec (free_chain_from ops fs k (hd (cs @ [e]))) ?D (Inr ()) D'"
    "frame fs cap (set cs) {} ?D D'" "\<forall>c \<in> set cs. fat fs D' c = 0"
    using Cons.IH[of ?D k] Cons.prems nxt k fat_put_blocks_ok by auto
  have "exec (free_chain_from ops fs fuel c) D (Inr ()) D'"
    using clus_not_end[OF vol c] D'(1) unfolding k free_chain_from.simps nxt(1)[symmetric]
    by (simp add: runs_bind[OF exec_fat_entry[OF vol f] runs_bind[OF exec_set_fat_entry[OF vol f Cons.prems(1)]]])
  moreover have "frame fs cap (set (c # cs)) {} D D'" by (rule frame_trans[OF fr D'(2)]) auto
  moreover have "fat fs D' c = 0"
    using frame_fat[OF D'(2) vol f] Cons.prems(3) fat_put_same[OF vol Cons.prems(1) vol_okD(2)[OF vol] f] by simp
  ultimately show ?case using D'(3) by auto
qed

text \<open>The loop of \<^verbatim>\<open>resize_chain\<close> standing at cluster \<open>cur\<close>, with \<open>post\<close> after it and \<open>k\<close> more clusters wanted.\<close>

lemma exec_resize_shrink:
  assumes vol: "vol_ok fs cap n" and e: "e \<ge> END_OF_CHAIN"
  shows "blocks_ok cap D \<Longrightarrow> links (fat fs D) (cur # post) e \<Longrightarrow> distinct (cur # post) \<Longrightarrow>
    \<forall>c \<in> set (cur # post). clus n c \<Longrightarrow> k \<le> length post \<Longrightarrow> needed = count + of_nat k \<Longrightarrow>
    k < 2 ^ 32 \<Longrightarrow> length post + 1 < fuel \<Longrightarrow>
    \<exists>D'. exec (resize_loop ops fs fuel first needed cur count) D (Inr first) D' \<and>
      frame fs cap (set (drop k (cur # post))) {} D D' \<and> links (fat fs D') (take (Suc k) (cur # post)) END_OF_CHAIN \<and>
      (\<forall>c \<in> set (drop (Suc k) (cur # post)). fat fs D' c = 0)"
proof (induction post arbitrary: cur count k fuel)
  case Nil
  have cur: "clus n cur" using Nil.prems(4) by simp
  note f = clus_in_fat[OF vol cur]
  obtain g where fuel: "fuel = Suc g" using Nil.prems by (cases fuel) auto
  have k: "k = 0" "count = needed" using Nil.prems by simp_all
  let ?D = "fat_put fs cur END_OF_CHAIN D"
  have ne: "\<not> (fat fs D cur \<ge> 2 \<and> fat fs D cur < END_OF_CHAIN)" using Nil.prems(2) e by (simp add: not_less)
  have "exec (resize_loop ops fs fuel first needed cur count) D (Inr first) ?D"
    unfolding fuel resize_loop.simps if_P[OF k(2)]
    by (rule runs_bind[OF exec_fat_entry[OF vol f]], unfold if_not_P[OF ne], rule runs_bind[OF runs_return],
        rule runs_bind[OF exec_set_fat_entry[OF vol f Nil.prems(1)]], rule runs_return)
  moreover have "frame fs cap {cur} {} D ?D" by (rule frame_fat_put[OF vol Nil.prems(1) f]) simp
  moreover have "fat fs ?D cur = END_OF_CHAIN"
    using fat_put_same[OF vol Nil.prems(1) vol_okD(2)[OF vol] f] END_OF_CHAIN_mask by simp
  ultimately show ?case using k by auto
next
  case (Cons p post)
  have cur: "clus n cur" and p: "clus n p" using Cons.prems(4) by simp_all
  note f = clus_in_fat[OF vol cur]
  obtain g where fuel: "fuel = Suc g" using Cons.prems by (cases fuel) auto
  have nxt: "fat fs D cur = p" "links (fat fs D) (p # post) e" using Cons.prems(2) by simp_all
  have pr: "p \<ge> 2 \<and> p < END_OF_CHAIN" using clus_not_end[OF vol p] by simp
  show ?case
  proof (cases k)
    case 0
    have "\<not> (e \<ge> 2 \<and> e < END_OF_CHAIN)" using e by (simp add: not_less)
    from exec_free_chain[OF vol this Cons.prems(1) nxt(2), of g] Cons.prems(3,4,8) fuel
    obtain D1 where D1: "exec (free_chain_from ops fs g p) D (Inr ()) D1" "frame fs cap (set (p # post)) {} D D1"
      "\<forall>c \<in> set (p # post). fat fs D1 c = 0" by auto
    have b1: "blocks_ok cap D1" using D1(2) by (rule frame_blocks_ok)
    let ?D = "fat_put fs cur END_OF_CHAIN D1"
    have fr: "frame fs cap {cur} {} D1 ?D" by (rule frame_fat_put[OF vol b1 f]) simp
    have eq: "count = needed" using Cons.prems(6) 0 by simp
    have "exec (resize_loop ops fs fuel first needed cur count) D (Inr first) ?D"
      unfolding fuel resize_loop.simps if_P[OF eq]
      by (rule runs_bind[OF exec_fat_entry[OF vol f]], unfold nxt(1) if_P[OF pr], rule runs_bind[OF D1(1)],
          rule runs_bind[OF exec_set_fat_entry[OF vol f b1]], rule runs_return)
    moreover have "frame fs cap (set (cur # p # post)) {} D ?D" by (rule frame_trans[OF D1(2) fr]) auto
    moreover have "fat fs ?D cur = END_OF_CHAIN"
      using fat_put_same[OF vol b1 vol_okD(2)[OF vol] f] END_OF_CHAIN_mask by simp
    moreover have "fat fs ?D c = 0" if "c \<in> set (p # post)" for c
    proof -
      have "c \<noteq> cur" "clus n c" using that Cons.prems(3,4) by auto
      then show ?thesis using D1(3)[rule_format, OF that] frame_fat[OF fr vol clus_in_fat[OF vol, of c]] by simp
    qed
    ultimately show ?thesis using 0 by auto
  next
    case (Suc k')
    have ne: "count \<noteq> needed"
    proof -
      have "unat (of_nat k :: u32) = k" using Cons.prems(7) by (simp add: unat_of_nat)
      then have "(of_nat k :: u32) \<noteq> 0" using Suc by (metis unat_0 nat.distinct(1))
      then show ?thesis using Cons.prems(6) by simp
    qed
    have needed: "needed = (count + 1) + of_nat k'" using Cons.prems(6) Suc by simp
    have "\<exists>D'. exec (resize_loop ops fs g first needed p (count + 1)) D (Inr first) D' \<and>
      frame fs cap (set (drop k' (p # post))) {} D D' \<and> links (fat fs D') (take (Suc k') (p # post)) END_OF_CHAIN \<and>
      (\<forall>c \<in> set (drop (Suc k') (p # post)). fat fs D' c = 0)"
      using Cons.prems nxt(2) Suc fuel by (intro Cons.IH[OF Cons.prems(1) _ _ _ _ needed]) auto
    then obtain D' where D': "exec (resize_loop ops fs g first needed p (count + 1)) D (Inr first) D'"
      "frame fs cap (set (drop k' (p # post))) {} D D'" "links (fat fs D') (take (Suc k') (p # post)) END_OF_CHAIN"
      "\<forall>c \<in> set (drop (Suc k') (p # post)). fat fs D' c = 0" by blast
    have "\<not> (p < 2 \<or> p \<ge> END_OF_CHAIN)" using pr by (simp add: not_le not_less)
    then have "exec (resize_loop ops fs fuel first needed cur count) D (Inr first) D'"
      unfolding fuel resize_loop.simps if_not_P[OF ne]
      by (intro runs_bind[OF exec_fat_entry[OF vol f]]) (simp add: nxt(1) D'(1))
    moreover have "cur \<notin> set (drop k' (p # post))" using Cons.prems(3) by (auto dest: in_set_dropD)
    then have "fat fs D' cur = p" using frame_fat[OF D'(2) vol f] nxt(1) by simp
    ultimately show ?thesis using D' Suc by auto
  qed
qed

lemma exec_resize_extend:
  assumes vol: "vol_ok fs cap n" and e: "e \<ge> END_OF_CHAIN" and b: "blocks_ok cap D"
  shows "links (fat fs D) (cur # post) e \<Longrightarrow> distinct (cur # post) \<Longrightarrow>
    \<forall>c \<in> set (cur # post). clus n c \<Longrightarrow> length post < k \<Longrightarrow> needed = count + of_nat k \<Longrightarrow>
    k < 2 ^ 32 \<Longrightarrow> length post < fuel \<Longrightarrow>
    extra = take (k - length post) (free_list fs D n 2) \<Longrightarrow> length extra = k - length post \<Longrightarrow>
    \<exists>D'. exec (resize_loop ops fs fuel first needed cur count) D (Inr first) D' \<and>
      frame fs cap (insert (last (cur # post)) (set extra)) (set extra) D D' \<and>
      links (fat fs D') (cur # post @ extra) END_OF_CHAIN \<and> (\<forall>c \<in> set extra. zeroed fs D' c)"
proof (induction post arbitrary: cur count k fuel)
  case Nil
  have cur: "clus n cur" using Nil.prems(3) by simp
  note f = clus_in_fat[OF vol cur] and small = vol_ok_small[OF vol]
  obtain g where fuel: "fuel = Suc g" using Nil.prems by (cases fuel) auto
  have uk: "unat (of_nat k :: u32) = k" using Nil.prems(6) by (simp add: unat_of_nat)
  have ne: "count \<noteq> needed" using uk Nil.prems(4,5) by (metis add_cancel_right_right unat_0 less_irrefl list.size(3))
  have diff: "needed - count = of_nat k" using Nil.prems(5) by simp
  have ex: "extra = take (unat (of_nat k :: u32)) (free_list fs D n 2)" "length extra = unat (of_nat k :: u32)"
      "0 < unat (of_nat k :: u32)"
    using Nil.prems uk by simp_all
  have exc: "\<forall>c \<in> set extra. clus n c \<and> fat fs D c = 0"
    using ex(1) free_list_clus[OF _ small, of 2] by (auto dest: in_set_takeD)
  obtain x xs where xxs: "extra = x # xs" using ex(2,3) by (metis list.exhaust list.size(3) less_irrefl)
  have curF: "fat fs D cur = e" using Nil.prems(1) by simp
  then have nin: "cur \<notin> set extra" using exc e by (auto simp: END_OF_CHAIN_def)
  obtain D1 where D1: "exec (allocate_chain ops fs (needed - count)) D (Inr x) D1" "frame fs cap (set extra) (set extra) D D1"
    "links (fat fs D1) extra END_OF_CHAIN" "\<forall>c \<in> set extra. zeroed fs D1 c"
    using exec_allocate_chain[OF vol b ex] xxs diff by auto
  have b1: "blocks_ok cap D1" using D1(2) by (rule frame_blocks_ok)
  let ?D = "fat_put fs cur x D1"
  have fr: "frame fs cap {cur} {} D1 ?D" by (rule frame_fat_put[OF vol b1 f]) simp
  have "fat fs D cur < 2 \<or> fat fs D cur \<ge> END_OF_CHAIN" using curF e by simp
  then have "exec (resize_loop ops fs fuel first needed cur count) D (Inr first) ?D"
    unfolding fuel resize_loop.simps if_not_P[OF ne]
    by (intro runs_bind[OF exec_fat_entry[OF vol f]])
      (simp, rule runs_bind[OF D1(1)], rule runs_bind[OF exec_set_fat_entry[OF vol f b1]], rule runs_return)
  moreover have "frame fs cap (insert cur (set extra)) (set extra) D ?D" by (rule frame_trans[OF D1(2) fr]) auto
  moreover have "links (fat fs ?D) extra END_OF_CHAIN = links (fat fs D1) extra END_OF_CHAIN"
    using exc nin by (intro links_cong frame_fat[OF fr vol clus_in_fat[OF vol]]) auto
  moreover have "fat fs ?D cur = x"
    using fat_put_same[OF vol b1 vol_okD(2)[OF vol] f] exc clus_not_end(4)[OF vol, of x] xxs by simp
  moreover have "\<forall>c \<in> set extra. zeroed fs ?D c" using zeroed_frame[OF _ fr vol] D1(4) exc by blast
  ultimately show ?case using D1(3) xxs by auto
next
  case (Cons p post)
  have cur: "clus n cur" and p: "clus n p" using Cons.prems(3) by simp_all
  note f = clus_in_fat[OF vol cur] and small = vol_ok_small[OF vol]
  obtain g where fuel: "fuel = Suc g" using Cons.prems by (cases fuel) auto
  have nxt: "fat fs D cur = p" "links (fat fs D) (p # post) e" using Cons.prems(1) by simp_all
  have "\<not> (p < 2 \<or> p \<ge> END_OF_CHAIN)" using clus_not_end[OF vol p] by (simp add: not_le not_less)
  obtain k' where k': "k = Suc k'" using Cons.prems(4) by (cases k) auto
  have uk: "unat (of_nat k :: u32) = k" using Cons.prems(6) by (simp add: unat_of_nat)
  have ne: "count \<noteq> needed" using uk k' Cons.prems(5) by (metis add_cancel_right_right unat_0 nat.distinct(1))
  have needed: "needed = (count + 1) + of_nat k'" using Cons.prems(5) k' by simp
  have "\<exists>D'. exec (resize_loop ops fs g first needed p (count + 1)) D (Inr first) D' \<and>
      frame fs cap (insert (last (p # post)) (set extra)) (set extra) D D' \<and>
      links (fat fs D') (p # post @ extra) END_OF_CHAIN \<and> (\<forall>c \<in> set extra. zeroed fs D' c)"
    using Cons.prems nxt(2) k' fuel by (intro Cons.IH[OF _ _ _ _ needed]) auto
  then obtain D' where D': "exec (resize_loop ops fs g first needed p (count + 1)) D (Inr first) D'"
    "frame fs cap (insert (last (p # post)) (set extra)) (set extra) D D'"
    "links (fat fs D') (p # post @ extra) END_OF_CHAIN" "\<forall>c \<in> set extra. zeroed fs D' c" by blast
  have "exec (resize_loop ops fs fuel first needed cur count) D (Inr first) D'"
    unfolding fuel resize_loop.simps if_not_P[OF ne]
    by (intro runs_bind[OF exec_fat_entry[OF vol f]]) (use \<open>\<not> (p < 2 \<or> p \<ge> END_OF_CHAIN)\<close> in \<open>simp add: nxt(1) D'(1)\<close>)
  moreover have "fat fs D cur \<noteq> 0" using links_nonzero[OF vol Cons.prems(1,3) e] by simp
  then have "cur \<notin> insert (last (p # post)) (set extra)"
    using Cons.prems(2,8) free_list_clus(3)[OF _ small, of 2 cur] by (auto dest: in_set_takeD split: if_splits)
  then have "fat fs D' cur = p" using frame_fat[OF D'(2) vol f] nxt(1) by simp
  ultimately show ?case using D' by auto
qed

end

end
