(* ===== verification/Fat32_Files.thy ===== *)
theory Fat32_Files
  imports Fat32_Alloc
begin

text \<open>
  Reading and writing file data along a cluster chain (\<^verbatim>\<open>read_from\<close> and the data loop of
  \<^verbatim>\<open>write_file\<close> of \<^verbatim>\<open>src/src/fat32.rs\<close>): \<open>chain_data\<close> is the concatenation of the sectors of the
  chain's clusters.
\<close>

definition sectors_data :: "fat32 \<Rightarrow> disk \<Rightarrow> u32 \<Rightarrow> nat \<Rightarrow> nat \<Rightarrow> u8 list" where
  "sectors_data fs D c s m = concat (map (\<lambda>i. D (cluster_to_lba fs c + of_nat i)) [s..<s + m])"

definition chain_data :: "fat32 \<Rightarrow> disk \<Rightarrow> u32 list \<Rightarrow> u8 list" where
  "chain_data fs D cs = concat (map (\<lambda>c. sectors_data fs D c 0 (spc fs)) cs)"

lemma sectors_data_Suc:
  "sectors_data fs D c s (Suc m) = D (cluster_to_lba fs c + of_nat s) @ sectors_data fs D c (Suc s) m"
  by (simp add: sectors_data_def upt_conv_Cons del: upt_Suc)

lemma length_sectors_data:
  assumes "vol_ok fs cap n" "blocks_ok cap D" "clus n c"
  shows "s + m \<le> spc fs \<Longrightarrow> length (sectors_data fs D c s m) = SECTOR_SIZE * m"
proof (induction m arbitrary: s)
  case 0
  then show ?case by (simp add: sectors_data_def)
next
  case (Suc m)
  then show ?case
    using blocks_okD[OF assms(2) clus_lba_nat(2)[OF assms(1,3), of s]] by (simp add: sectors_data_Suc)
qed

lemma length_chain_data:
  assumes "vol_ok fs cap n" "blocks_ok cap D" "\<forall>c \<in> set cs. clus n c"
  shows "length (chain_data fs D cs) = length cs * (SECTOR_SIZE * spc fs)"
  using assms(3) by (induction cs) (simp_all add: chain_data_def length_sectors_data[OF assms(1,2)])

lemma sectors_data_cong:
  assumes "vol_ok fs cap n" "clus n c" "\<And>lba. lba \<in> clus_lbas fs c \<Longrightarrow> D' lba = D lba" "s + m \<le> spc fs"
  shows "sectors_data fs D' c s m = sectors_data fs D c s m"
  unfolding sectors_data_def using assms(3,4) clus_lbas_eq[OF assms(1,2)]
  by (intro arg_cong[where f = concat] map_cong) auto

lemma chain_data_frame:
  assumes "frame fs cap S T D D'" "vol_ok fs cap n" "\<forall>c \<in> set cs. clus n c" "set cs \<inter> T = {}" "\<forall>x \<in> T. clus n x"
  shows "chain_data fs D' cs = chain_data fs D cs"
  unfolding chain_data_def using assms(3,4) frame_data[OF assms(1,2) _ _ assms(5)]
  by (intro arg_cong[where f = concat] map_cong refl sectors_data_cong[OF assms(2)]) auto

lemma chain_data_Cons: "chain_data fs D (c # cs) = sectors_data fs D c 0 (spc fs) @ chain_data fs D cs"
  by (simp add: chain_data_def)

section \<open>Reading\<close>

text \<open>Copying as much of \<open>src\<close> as the limit allows to position \<open>w\<close> of the buffer.\<close>

definition copy_out :: "nat \<Rightarrow> u8 list \<Rightarrow> nat \<times> u8 list \<Rightarrow> nat \<times> u8 list" where
  "copy_out lim src wo = (let m = min (lim - fst wo) (length src) in (fst wo + m, put_seg (snd wo) (fst wo) (take m src)))"

lemma copy_out_Nil [simp]: "copy_out lim [] wo = wo"
  by (cases wo) (simp add: copy_out_def)

lemma copy_out_full: "lim \<le> fst wo \<Longrightarrow> copy_out lim src wo = wo"
  by (cases wo) (simp add: copy_out_def)

lemma copy_out_append:
  assumes "lim \<le> length (snd wo)" "fst wo \<le> lim"
  shows "copy_out lim (a @ b) wo = copy_out lim b (copy_out lim a wo)"
proof (cases "length a \<le> lim - fst wo")
  case True
  then have "put_seg (snd wo) (fst wo) (a @ take (min (lim - fst wo) (length a + length b) - length a) b) =
      put_seg (put_seg (snd wo) (fst wo) a) (fst wo + length a) (take (min (lim - fst wo) (length a + length b) - length a) b)"
    using assms by (intro put_seg_append[symmetric]) simp
  moreover have "min (lim - fst wo) (length a + length b) - length a = min (lim - (fst wo + length a)) (length b)"
      "min (lim - fst wo) (length a + length b) = length a + min (lim - (fst wo + length a)) (length b)"
    using True by arith+
  ultimately show ?thesis using True assms by (simp add: copy_out_def Let_def)
next
  case False
  then show ?thesis using assms by (simp add: copy_out_def Let_def)
qed

lemma copy_out_length:
  "lim \<le> length (snd wo) \<Longrightarrow> fst wo \<le> lim \<Longrightarrow>
   length (snd (copy_out lim src wo)) = length (snd wo) \<and> fst (copy_out lim src wo) \<le> lim \<and>
   fst (copy_out lim src wo) = min lim (fst wo + length src)"
  by (auto simp: copy_out_def Let_def min_def)

context block_device
begin

lemma exec_read_sectors:
  assumes vol: "vol_ok fs cap n" and b: "blocks_ok cap D" and c: "clus n c"
  shows "s + m \<le> spc fs \<Longrightarrow> to_read \<le> length (snd wo) \<Longrightarrow> fst wo \<le> to_read \<Longrightarrow>
    exec (read_sectors ops (cluster_to_lba fs c) to_read (of_nat s) m wo) D
      (Inr (copy_out to_read (sectors_data fs D c s m) wo)) D"
proof (induction m arbitrary: s wo)
  case 0
  then show ?case by (simp add: sectors_data_def runs_return)
next
  case (Suc m)
  obtain w out where wo: "wo = (w, out)" by (cases wo)
  let ?l = "cluster_to_lba fs c + of_nat s"
  have l: "unat ?l < cap" using clus_lba_nat(2)[OF vol c, of s] Suc.prems by simp
  have len: "length (D ?l) = SECTOR_SIZE" by (rule blocks_okD[OF b l])
  show ?case
  proof (cases "w \<ge> to_read")
    case True
    then show ?thesis using wo by (simp add: copy_out_full runs_return)
  next
    case False
    have step: "(w + min (to_read - w) SECTOR_SIZE, put_seg out w (take (min (to_read - w) SECTOR_SIZE) (D ?l)))
        = copy_out to_read (D ?l) wo"
      by (simp add: copy_out_def wo len Let_def)
    have "exec (read_sectors ops (cluster_to_lba fs c) to_read (of_nat (Suc s)) m (copy_out to_read (D ?l) wo)) D
        (Inr (copy_out to_read (sectors_data fs D c (Suc s) m) (copy_out to_read (D ?l) wo))) D"
      using Suc.prems copy_out_length[OF Suc.prems(2,3), of "D ?l"] by (intro Suc.IH) auto
    moreover have "copy_out to_read (sectors_data fs D c s (Suc m)) wo =
        copy_out to_read (sectors_data fs D c (Suc s) m) (copy_out to_read (D ?l) wo)"
      unfolding sectors_data_Suc by (rule copy_out_append[OF Suc.prems(2,3)])
    ultimately show ?thesis
      using False unfolding wo read_sectors.simps prod.case
      by (simp del: sectors_data_Suc) (intro runs_bind[OF exec_rd[OF l]], simp add: step[unfolded wo] Let_def add.commute[of 1])
  qed
qed

lemma exec_read_loop:
  assumes vol: "vol_ok fs cap n" and b: "blocks_ok cap D" and e: "e \<ge> END_OF_CHAIN"
  shows "cs \<noteq> [] \<Longrightarrow> links (fat fs D) cs e \<Longrightarrow> \<forall>c \<in> set cs. clus n c \<Longrightarrow> to_read \<le> length (snd wo) \<Longrightarrow> fst wo \<le> to_read \<Longrightarrow>
    length cs \<le> fuel \<Longrightarrow>
    exec (read_loop ops fs fuel to_read (hd cs) wo) D (Inr (copy_out to_read (chain_data fs D cs) wo)) D"
proof (induction cs arbitrary: wo fuel)
  case Nil
  then show ?case by simp
next
  case (Cons c cs)
  obtain g where fuel: "fuel = Suc g" using Cons.prems by (cases fuel) auto
  have c: "clus n c" using Cons.prems(3) by simp
  let ?wo = "copy_out to_read (sectors_data fs D c 0 (spc fs)) wo"
  note L = copy_out_length[OF Cons.prems(4,5), of "sectors_data fs D c 0 (spc fs)"]
  have rd: "exec (read_sectors ops (cluster_to_lba fs c) to_read 0 (unat (sectors_per_cluster fs)) wo) D (Inr ?wo) D"
    using exec_read_sectors[OF vol b c, of 0 "spc fs"] Cons.prems(4,5) by (simp add: spc_def)
  have split: "copy_out to_read (chain_data fs D (c # cs)) wo = copy_out to_read (chain_data fs D cs) ?wo"
    unfolding chain_data_Cons by (rule copy_out_append[OF Cons.prems(4,5)])
  note fe = exec_fat_entry[OF vol clus_in_fat[OF vol c], of D]
  show ?case
  proof (cases "fst wo < to_read")
    case False
    then show ?thesis using fuel by (simp add: copy_out_full runs_return)
  next
    case True
    have "exec (if fst ?wo \<ge> to_read then io_return ?wo
        else io_bind (fat_entry ops fs c) (\<lambda>next. if next \<ge> END_OF_CHAIN then io_return ?wo
          else read_loop ops fs g to_read next ?wo)) D (Inr (copy_out to_read (chain_data fs D cs) ?wo)) D"
    proof (cases "fst ?wo \<ge> to_read")
      case True
      then show ?thesis by (simp add: copy_out_full runs_return)
    next
      case more: False
      show ?thesis
      proof (cases cs)
        case Nil
        then have "fat fs D c = e" using Cons.prems(2) by simp
        then show ?thesis using more e Nil by (auto intro!: runs_bind[OF fe] simp: runs_return chain_data_def)
      next
        case (Cons p ps)
        have nxt: "fat fs D c = p" "links (fat fs D) cs e" using Cons.prems(2) Cons by simp_all
        have "clus n p" using Cons.prems(3) Cons by simp
        then have "\<not> p \<ge> END_OF_CHAIN" using clus_not_end(2)[OF vol] by (simp add: not_le)
        moreover have "exec (read_loop ops fs g to_read p ?wo) D (Inr (copy_out to_read (chain_data fs D cs) ?wo)) D"
          using Cons.IH[of ?wo g] Cons Cons.prems nxt L fuel by simp
        ultimately show ?thesis using more nxt(1) by (auto intro!: runs_bind[OF fe])
      qed
    qed
    then show ?thesis using True unfolding fuel split read_loop.simps list.sel(1) by (simp add: runs_bind[OF rd])
  qed
qed

lemma exec_read_from:
  fixes file_size :: u32 and out :: "u8 list"
  assumes vol: "vol_ok fs cap n" and b: "blocks_ok cap D" and ch: "chain fs n D cs" and fuel: "length cs \<le> fuel"
  defines "k \<equiv> min (min (unat file_size) (length out)) (length (chain_data fs D cs))"
  shows "exec (read_from ops fs fuel (hd cs) file_size out) D (Inr (k, take k (chain_data fs D cs) @ drop k out)) D"
proof -
  obtain e where e: "e \<ge> END_OF_CHAIN" "links (fat fs D) cs e" and cs: "cs \<noteq> []" "\<forall>c \<in> set cs. clus n c"
    using ch by (auto simp: chain_def)
  have "hd cs \<noteq> 0" using clus_not_end(3)[OF vol] cs by simp
  moreover have "copy_out (min (unat file_size) (length out)) (chain_data fs D cs) (0, out) =
      (k, take k (chain_data fs D cs) @ drop k out)"
    by (simp add: copy_out_def Let_def k_def put_seg_def min_def)
  ultimately show ?thesis
    using exec_read_loop[OF vol b e(1) cs(1) e(2) cs(2), of "min (unat file_size) (length out)" "(0, out)" fuel] fuel
    by (simp add: read_from_def)
qed

end

section \<open>Writing\<close>

text \<open>The sectors \<open>s\<close> to \<open>s + m - 1\<close> of a cluster, as block numbers.\<close>

definition sec_range :: "fat32 \<Rightarrow> u32 \<Rightarrow> nat \<Rightarrow> nat \<Rightarrow> u32 set" where
  "sec_range fs c s m = {lba. clus_base fs c + s \<le> unat lba \<and> unat lba < clus_base fs c + s + m}"

lemma sec_range_all: "sec_range fs c 0 (spc fs) = clus_lbas fs c"
  by (simp add: sec_range_def clus_lbas_def)

lemma seg_split: "a + b + c \<le> length xs \<Longrightarrow> seg xs a (b + c) = seg xs a b @ seg xs (a + b) c"
  by (simp add: seg_def take_add add.commute[of a])

context block_device
begin

lemma exec_write_sectors:
  assumes vol: "vol_ok fs cap n" and c: "clus n c"
  shows "blocks_ok cap D \<Longrightarrow> s + m \<le> spc fs \<Longrightarrow> w \<le> length data \<Longrightarrow>
    \<exists>D'. exec (write_sectors ops (cluster_to_lba fs c) data (of_nat s) m w) D
        (Inr (min (length data) (w + SECTOR_SIZE * m))) D' \<and>
      blocks_ok cap D' \<and> (\<forall>lba. lba \<notin> sec_range fs c s m \<longrightarrow> D' lba = D lba) \<and>
      take (min (length data) (w + SECTOR_SIZE * m) - w) (sectors_data fs D' c s m) =
        seg data w (min (length data) (w + SECTOR_SIZE * m) - w)"
proof (induction m arbitrary: s w D)
  case 0
  then show ?case by (auto intro!: exI[of _ D] simp: runs_return seg_def min_absorb2)
next
  case (Suc m)
  let ?w' = "min (length data) (w + SECTOR_SIZE * Suc m)"
  show ?case
  proof (cases "w \<ge> length data")
    case True
    then show ?thesis using Suc.prems by (auto intro!: exI[of _ D] simp: runs_return seg_def min_absorb1)
  next
    case False
    let ?l = "cluster_to_lba fs c + of_nat s" and ?t = "min (length data - w) SECTOR_SIZE"
    let ?sec = "put_seg (replicate SECTOR_SIZE 0) 0 (seg data w ?t)"
    have l: "unat ?l = clus_base fs c + s" "unat ?l < cap"
      using clus_lba_nat[OF vol c, of s] Suc.prems by simp_all
    have tl: "length (seg data w ?t) = ?t" using False by (intro length_seg) simp
    have len: "length ?sec = SECTOR_SIZE" by (subst length_put_seg) (simp_all add: tl)
    let ?D = "D(?l := ?sec)"
    have p1: "Suc s + m \<le> spc fs" and p2: "w + ?t \<le> length data" using Suc.prems False by auto
    obtain D' where D': "exec (write_sectors ops (cluster_to_lba fs c) data (of_nat (Suc s)) m (w + ?t)) ?D
        (Inr (min (length data) (w + ?t + SECTOR_SIZE * m))) D'" "blocks_ok cap D'"
      "\<forall>lba. lba \<notin> sec_range fs c (Suc s) m \<longrightarrow> D' lba = ?D lba"
      "take (min (length data) (w + ?t + SECTOR_SIZE * m) - (w + ?t)) (sectors_data fs D' c (Suc s) m) =
        seg data (w + ?t) (min (length data) (w + ?t + SECTOR_SIZE * m) - (w + ?t))"
      using Suc.IH[OF blocks_ok_write[OF Suc.prems(1) len] p1 p2] by blast
    have w': "min (length data) (w + ?t + SECTOR_SIZE * m) = ?w'"
      using False by (cases "length data - w \<le> SECTOR_SIZE") (simp_all add: min_absorb1 min_absorb2)
    have run: "exec (write_sectors ops (cluster_to_lba fs c) data (of_nat s) (Suc m) w) D (Inr ?w') D'"
      using False D'(1) unfolding w' by (simp add: Let_def) (rule runs_bind[OF exec_wr[OF l(2) len]], simp add: add.commute[of 1])
    have lD: "D' ?l = ?sec" using D'(3) l(1) by (simp add: sec_range_def)
    have other: "D' lba = D lba" if "lba \<notin> sec_range fs c s (Suc m)" for lba
      using that D'(3) l(1) by (auto simp: sec_range_def)
    have "take (?w' - w) (sectors_data fs D' c s (Suc m)) = seg data w (?w' - w)"
    proof (cases "length data - w \<le> SECTOR_SIZE")
      case True
      then have "?w' = length data" "?t = length data - w" using False by (simp_all add: min_absorb1)
      then show ?thesis using tl by (simp add: sectors_data_Suc lD put_seg_def)
    next
      case more: False
      then have t: "?t = SECTOR_SIZE" by simp
      have sec: "?sec = seg data w SECTOR_SIZE" using tl t by (simp add: put_seg_def)
      have wb: "w + SECTOR_SIZE \<le> ?w'" "?w' \<le> length data" using more by simp_all
      then have e1: "?w' - w = SECTOR_SIZE + (?w' - (w + SECTOR_SIZE))" by linarith
      have "seg data w (SECTOR_SIZE + (?w' - (w + SECTOR_SIZE))) =
          seg data w SECTOR_SIZE @ seg data (w + SECTOR_SIZE) (?w' - (w + SECTOR_SIZE))"
        using wb by (intro seg_split) linarith
      moreover have "length (seg data w SECTOR_SIZE) = SECTOR_SIZE" using tl t by simp
      ultimately show ?thesis
        using D'(4) unfolding e1 w' t by (simp add: sectors_data_Suc lD sec add.assoc)
    qed
    with run D'(2) other show ?thesis by blast
  qed
qed

lemma exec_write_loop:
  assumes vol: "vol_ok fs cap n"
  shows "cs \<noteq> [] \<Longrightarrow> blocks_ok cap D \<Longrightarrow> links (fat fs D) cs e \<Longrightarrow> distinct cs \<Longrightarrow> \<forall>c \<in> set cs. clus n c \<Longrightarrow> w \<le> length data \<Longrightarrow>
    length data \<le> w + length cs * (SECTOR_SIZE * spc fs) \<Longrightarrow> length cs \<le> fuel \<Longrightarrow>
    \<exists>D'. exec (write_loop ops fs fuel data (hd cs) w) D (Inr ()) D' \<and> frame fs cap {} (set cs) D D' \<and>
      take (length data - w) (chain_data fs D' cs) = drop w data"
proof (induction cs arbitrary: D w fuel)
  case Nil
  then show ?case by simp
next
  case (Cons c cs)
  obtain g where fuel: "fuel = Suc g" using Cons.prems by (cases fuel) auto
  have c: "clus n c" using Cons.prems(5) by simp
  note f = clus_in_fat[OF vol c]
  show ?case
  proof (cases "w < length data")
    case False
    then show ?thesis using Cons.prems fuel by (auto intro!: exI[of _ D] simp: runs_return frame_refl)
  next
    case True
    let ?w = "min (length data) (w + SECTOR_SIZE * spc fs)"
    obtain D1 where D1: "exec (write_sectors ops (cluster_to_lba fs c) data 0 (spc fs) w) D (Inr ?w) D1"
      "blocks_ok cap D1" "\<forall>lba. lba \<notin> clus_lbas fs c \<longrightarrow> D1 lba = D lba"
      "take (?w - w) (sectors_data fs D1 c 0 (spc fs)) = seg data w (?w - w)"
      using exec_write_sectors[OF vol c Cons.prems(2), of 0 "spc fs" w data] Cons.prems(6) by (auto simp: sec_range_all)
    have fr1: "frame fs cap {} {c} D D1" by (rule frame_cluster[OF vol D1(2) c]) (use D1(3) in auto)
    note run1 = D1(1)[unfolded spc_def]
    have l1: "length (sectors_data fs D1 c 0 (spc fs)) = SECTOR_SIZE * spc fs"
      by (rule length_sectors_data[OF vol D1(2) c]) simp
    show ?thesis
    proof (cases "?w \<ge> length data")
      case fin: True
      have "exec (write_loop ops fs fuel data c w) D (Inr ()) D1"
        unfolding fuel write_loop.simps using True fin by (simp add: runs_bind[OF run1] runs_return spc_def)
      moreover have "take (length data - w) (chain_data fs D1 (c # cs)) = drop w data"
      proof -
        have "?w = length data" "length data - w \<le> SECTOR_SIZE * spc fs" using fin by arith+
        then show ?thesis using D1(4) l1 by (simp add: chain_data_Cons seg_def)
      qed
      ultimately show ?thesis using frame_mono[OF fr1, of "{}" "set (c # cs)"] by auto
    next
      case more: False
      then have w': "?w = w + SECTOR_SIZE * spc fs" by arith
      have "cs \<noteq> []" using Cons.prems(7) more w' by auto
      then obtain p ps where p: "cs = p # ps" by (cases cs) auto
      have nxt: "fat fs D1 c = p" "links (fat fs D1) cs e"
        using Cons.prems(3) p frame_fat[OF fr1 vol] f links_cong[of cs "fat fs D1" "fat fs D" e]
          clus_in_fat[OF vol] Cons.prems(5) by auto
      obtain D' where D': "exec (write_loop ops fs g data p ?w) D1 (Inr ()) D'" "frame fs cap {} (set cs) D1 D'"
        "take (length data - ?w) (chain_data fs D' cs) = drop ?w data"
        using Cons.IH[OF \<open>cs \<noteq> []\<close> D1(2) nxt(2), of ?w g] Cons.prems fuel w' more p by auto
      have "exec (write_loop ops fs fuel data c w) D (Inr ()) D'"
        unfolding fuel write_loop.simps using True more[unfolded spc_def]
        by (simp add: runs_bind[OF run1]) (rule runs_bind[OF run1], simp, rule runs_bind[OF exec_fat_entry[OF vol f]], use D'(1) nxt(1) in \<open>simp add: spc_def\<close>)
      moreover have "frame fs cap {} (set (c # cs)) D D'" by (rule frame_trans[OF fr1 D'(2)]) auto
      moreover have "take (length data - w) (chain_data fs D' (c # cs)) = drop w data"
      proof -
        have "sectors_data fs D' c 0 (spc fs) = sectors_data fs D1 c 0 (spc fs)"
          using frame_data[OF D'(2) vol c] Cons.prems(4,5) by (intro sectors_data_cong[OF vol c]) auto
        moreover have "sectors_data fs D1 c 0 (spc fs) = seg data w (SECTOR_SIZE * spc fs)"
          using D1(4) l1 w' by simp
        moreover have "length data - w = SECTOR_SIZE * spc fs + (length data - ?w)" using w' more by arith
        moreover have "drop w data = seg data w (SECTOR_SIZE * spc fs) @ drop ?w data"
          using w' append_take_drop_id[of "SECTOR_SIZE * spc fs" "drop w data"] by (simp add: seg_def add.commute)
        ultimately show ?thesis using D'(3) l1 by (simp add: chain_data_Cons)
      qed
      ultimately show ?thesis by auto
    qed
  qed
qed

end

end
