(* ===== verification/Fat32_Dirs.thy ===== *)
theory Fat32_Dirs
  imports Fat32_Files
begin

text \<open>
  Directories as the flat list of their 32-byte entries (\<open>dir_entries\<close>): what \<^verbatim>\<open>find_in_dir\<close>,
  \<^verbatim>\<open>list_dir\<close> and the search of \<^verbatim>\<open>write_file\<close> compute on it, and what rewriting one entry does to it.
\<close>

section \<open>Directory entries\<close>

type_synonym dentry = "u32 \<times> nat \<times> u8 list"

definition sector_entries :: "disk \<Rightarrow> u32 \<Rightarrow> dentry list" where
  "sector_entries D lba = map (\<lambda>(i, e). (lba, i, e)) (chunks32 (D lba))"

definition cluster_entries :: "fat32 \<Rightarrow> disk \<Rightarrow> u32 \<Rightarrow> nat \<Rightarrow> nat \<Rightarrow> dentry list" where
  "cluster_entries fs D c s m = concat (map (\<lambda>i. sector_entries D (cluster_to_lba fs c + of_nat i)) [s..<s + m])"

definition dir_entries :: "fat32 \<Rightarrow> disk \<Rightarrow> u32 list \<Rightarrow> dentry list" where
  "dir_entries fs D ds = concat (map (\<lambda>c. cluster_entries fs D c 0 (spc fs)) ds)"

lemma cluster_entries_Suc:
  "cluster_entries fs D c s (Suc m) =
     sector_entries D (cluster_to_lba fs c + of_nat s) @ cluster_entries fs D c (Suc s) m"
  by (simp add: cluster_entries_def upt_conv_Cons del: upt_Suc)

lemma cluster_entries_0 [simp]: "cluster_entries fs D c s 0 = []"
  by (simp add: cluster_entries_def)

lemma dir_entries_simps [simp]:
  "dir_entries fs D [] = []"
  "dir_entries fs D (c # ds) = cluster_entries fs D c 0 (spc fs) @ dir_entries fs D ds"
  "dir_entries fs D (ds @ ds') = dir_entries fs D ds @ dir_entries fs D ds'"
  by (simp_all add: dir_entries_def)

lemma map_snd_sector_entries: "map snd (sector_entries D lba) = chunks32 (D lba)"
  by (simp add: sector_entries_def comp_def case_prod_beta)

definition matches :: "u8 list \<Rightarrow> u8 list \<Rightarrow> bool" where
  "matches name e \<longleftrightarrow> \<not> skipped e \<and> take 11 e = name"

text \<open>A search goes on past \<open>e\<close>: it is neither the terminator nor a match.\<close>

definition passes :: "u8 list \<Rightarrow> u8 list \<Rightarrow> bool" where
  "passes name e \<longleftrightarrow> e ! 0 \<noteq> 0 \<and> \<not> matches name e"

definition hit_of :: "u8 list \<Rightarrow> dir_hit" where
  "hit_of e = (entry_cluster e, entry_size e, e ! 11 AND ATTR_DIRECTORY \<noteq> 0)"

lemma find_entries_Cons:
  "find_entries name ((i, e) # es) =
     (if e ! 0 = 0 then Some (Inl ()) else if matches name e then Some (Inr (hit_of e)) else find_entries name es)"
  by (simp add: matches_def hit_of_def)

lemma find_entries_append:
  "find_entries name (es @ es') = (case find_entries name es of None \<Rightarrow> find_entries name es' | Some r \<Rightarrow> Some r)"
  by (induction name es rule: find_entries.induct) auto

lemma find_entries_None: "find_entries name es = None \<longleftrightarrow> (\<forall>x \<in> set es. passes name (snd x))"
proof (induction es)
  case (Cons x es)
  obtain i e where "x = (i, e)" by (cases x)
  with Cons show ?case
    by (cases "e ! 0 = 0"; cases "matches name e")
      (simp_all add: find_entries_Cons passes_def del: find_entries.simps(2))
qed simp

lemma find_entries_hit:
  assumes "\<forall>x \<in> set ys. snd x = e \<or> passes name (snd x)" "e ! 0 \<noteq> 0" "matches name e"
  shows "find_entries name (ys @ (i, e) # zs) = Some (Inr (hit_of e))"
  using assms by (induction ys) (auto simp: find_entries_Cons passes_def simp del: find_entries.simps(2))

text \<open>
  Putting an entry \<open>e'\<close> of another name over \<open>e\<close>, which is free or not of that name either, leaves what
  a search finds as it was.
\<close>

lemma find_entries_replace:
  assumes "\<forall>(l', j, x) \<in> set es. l' = l \<and> j = i \<longrightarrow> x = e" "e ! 0 = 0 \<or> \<not> matches name e" "passes name e'"
  shows "find_entries name (map snd es) = Some (Inr h) \<Longrightarrow>
    find_entries name (map snd (map (\<lambda>(l', j, x). (l', j, if l' = l \<and> j = i then e' else x)) es)) = Some (Inr h)"
  using assms(1)
proof (induction es)
  case (Cons y es)
  obtain l' j x where y: "y = (l', j, x)" by (cases y)
  show ?case using Cons assms(2,3) unfolding y
    by (cases "l' = l \<and> j = i") (auto simp: find_entries_Cons passes_def simp del: find_entries.simps(2) split: if_splits)
qed simp

text \<open>The result of looking a name up in a list of entries.\<close>

definition lookup_entries :: "u8 list \<Rightarrow> dentry list \<Rightarrow> fat32_error fault + dir_hit" where
  "lookup_entries name es =
     (case find_entries name (map snd es) of Some (Inr h) \<Rightarrow> Inr h | _ \<Rightarrow> Inl (Err FatNotFound))"

context block_device
begin

lemma exec_find_sectors:
  assumes vol: "vol_ok fs cap n" and c: "clus n c"
  shows "s + m \<le> spc fs \<Longrightarrow>
    exec (find_sectors ops name (cluster_to_lba fs c) (of_nat s) m) D
      (Inr (find_entries name (map snd (cluster_entries fs D c s m)))) D"
proof (induction m arbitrary: s)
  case 0
  then show ?case by (simp add: runs_return)
next
  case (Suc m)
  let ?l = "cluster_to_lba fs c + of_nat s"
  have l: "unat ?l < cap" using clus_lba_nat(2)[OF vol c, of s] Suc.prems by simp
  have ih: "exec (find_sectors ops name (cluster_to_lba fs c) (of_nat s + 1) m) D
      (Inr (find_entries name (map snd (cluster_entries fs D c (Suc s) m)))) D"
    using Suc.IH[of "Suc s"] Suc.prems by (simp add: add.commute)
  show ?case
    unfolding find_sectors.simps cluster_entries_Suc map_append find_entries_append map_snd_sector_entries
    by (rule runs_bind[OF exec_rd[OF l]]) (cases "find_entries name (chunks32 (D ?l))"; simp add: ih runs_return)
qed

lemma exec_find_in_dir:
  assumes vol: "vol_ok fs cap n" and e: "e \<ge> END_OF_CHAIN"
  shows "ds \<noteq> [] \<Longrightarrow> links (fat fs D) ds e \<Longrightarrow> \<forall>c \<in> set ds. clus n c \<Longrightarrow> length ds \<le> fuel \<Longrightarrow>
    exec (find_in_dir ops fs fuel (hd ds) name) D (lookup_entries name (dir_entries fs D ds)) D"
proof (induction ds arbitrary: fuel)
  case Nil
  then show ?case by simp
next
  case (Cons c ds)
  obtain g where fuel: "fuel = Suc g" using Cons.prems by (cases fuel) auto
  have c: "clus n c" using Cons.prems(3) by simp
  note fs = exec_find_sectors[OF vol c, of 0 "spc fs" name D, unfolded spc_def, simplified]
  note fe = exec_fat_entry[OF vol clus_in_fat[OF vol c], of D]
  let ?r = "find_entries name (map snd (cluster_entries fs D c 0 (unat (sectors_per_cluster fs))))"
  show ?case
  proof (cases ?r)
    case (Some r)
    then have "lookup_entries name (dir_entries fs D (c # ds)) = (case r of Inr h \<Rightarrow> Inr h | Inl _ \<Rightarrow> Inl (Err FatNotFound))"
      by (simp add: lookup_entries_def find_entries_append spc_def split: sum.splits)
    then show ?thesis unfolding fuel find_in_dir.simps list.sel(1)
      by (intro runs_bind[OF fs]) (cases r; simp add: Some runs_return runs_throw)
  next
    case None
    then have eq: "lookup_entries name (dir_entries fs D (c # ds)) = lookup_entries name (dir_entries fs D ds)"
      by (simp add: lookup_entries_def find_entries_append spc_def)
    have "exec (io_bind (fat_entry ops fs c) (\<lambda>next. if next \<ge> END_OF_CHAIN then io_throw (Err FatNotFound)
        else find_in_dir ops fs g next name)) D (lookup_entries name (dir_entries fs D ds)) D"
    proof (cases ds)
      case Nil
      then have "fat fs D c = e" using Cons.prems(2) by simp
      then show ?thesis using e Nil
        by (intro runs_bind[OF fe]) (simp add: lookup_entries_def runs_throw)
    next
      case (Cons p ps)
      have "clus n p" using Cons.prems(3) Cons by simp
      then have "\<not> p \<ge> END_OF_CHAIN" using clus_not_end(2)[OF vol] by (simp add: not_le)
      moreover have "fat fs D c = p" using Cons.prems(2) Cons by simp
      moreover have "exec (find_in_dir ops fs g p name) D (lookup_entries name (dir_entries fs D ds)) D"
        using Cons.IH[of g] Cons Cons.prems fuel by simp
      ultimately show ?thesis by (intro runs_bind[OF fe]) simp
    qed
    then show ?thesis unfolding fuel find_in_dir.simps list.sel(1) eq
      by (intro runs_bind[OF fs]) (simp add: None)
  qed
qed

end

section \<open>The search of write_file\<close>

fun search_flat :: "u8 list \<Rightarrow> dentry list \<Rightarrow> dir_search \<Rightarrow> bool \<times> dir_search" where
  "search_flat name [] ds = (False, ds)"
| "search_flat name ((lba, i, e) # es) ds =
     (case search_entries name lba [(i, e)] ds of
        (True, ds') \<Rightarrow> (True, ds')
      | (False, ds') \<Rightarrow> search_flat name es ds')"

lemma search_flat_append:
  "search_flat name (es @ es') ds =
     (case search_flat name es ds of (True, ds') \<Rightarrow> (True, ds') | (False, ds') \<Rightarrow> search_flat name es' ds')"
proof (induction es arbitrary: ds)
  case (Cons x es)
  then show ?case by (cases x) (simp add: Let_def split: prod.splits bool.splits)
qed simp

lemma search_flat_sector:
  "search_entries name lba es ds = search_flat name (map (\<lambda>(i, e). (lba, i, e)) es) ds"
proof (induction es arbitrary: ds)
  case (Cons x es)
  then show ?case by (cases x) (simp add: Let_def)
qed simp

context block_device
begin

lemma exec_search_sectors:
  assumes vol: "vol_ok fs cap n" and c: "clus n c"
  shows "s + m \<le> spc fs \<Longrightarrow>
    exec (search_sectors ops name (cluster_to_lba fs c) (of_nat s) m st) D
      (Inr (search_flat name (cluster_entries fs D c s m) st)) D"
proof (induction m arbitrary: s st)
  case 0
  then show ?case by (simp add: runs_return)
next
  case (Suc m)
  let ?l = "cluster_to_lba fs c + of_nat s"
  have l: "unat ?l < cap" using clus_lba_nat(2)[OF vol c, of s] Suc.prems by simp
  have ih: "exec (search_sectors ops name (cluster_to_lba fs c) (of_nat s + 1) m st') D
      (Inr (search_flat name (cluster_entries fs D c (Suc s) m) st')) D" for st'
    using Suc.IH[of "Suc s" st'] Suc.prems by (simp add: add.commute)
  have flat: "search_entries name ?l (chunks32 (D ?l)) st = search_flat name (sector_entries D ?l) st"
    unfolding search_flat_sector sector_entries_def ..
  show ?case
    unfolding search_sectors.simps cluster_entries_Suc search_flat_append
  proof (rule runs_bind[OF exec_rd[OF l]])
    show "exec (case search_entries name ?l (chunks32 (D ?l)) st of (True, ds') \<Rightarrow> io_return (True, ds')
        | (False, ds') \<Rightarrow> search_sectors ops name (cluster_to_lba fs c) (of_nat s + 1) m ds') D
      (Inr (case search_flat name (sector_entries D ?l) st of (True, ds') \<Rightarrow> (True, ds')
        | (False, ds') \<Rightarrow> search_flat name (cluster_entries fs D c (Suc s) m) ds')) D"
      unfolding flat by (auto simp: ih runs_return split: prod.splits bool.splits)
  qed
qed

lemma exec_search_dir:
  assumes vol: "vol_ok fs cap n" and e: "e \<ge> END_OF_CHAIN"
  shows "ds \<noteq> [] \<Longrightarrow> links (fat fs D) ds e \<Longrightarrow> \<forall>c \<in> set ds. clus n c \<Longrightarrow> length ds \<le> fuel \<Longrightarrow>
    search_flat name (dir_entries fs D ds) st = (t, st') \<Longrightarrow>
    \<exists>c. exec (search_dir ops fs fuel name (hd ds) st) D (Inr (t, c, st')) D \<and> (\<not> t \<longrightarrow> c = last ds)"
proof (induction ds arbitrary: fuel st)
  case Nil
  then show ?case by simp
next
  case (Cons c ds)
  obtain g where fuel: "fuel = Suc g" using Cons.prems by (cases fuel) auto
  have c: "clus n c" using Cons.prems(3) by simp
  note ss = exec_search_sectors[OF vol c, of 0 "spc fs" name st D, unfolded spc_def, simplified]
  note fe = exec_fat_entry[OF vol clus_in_fat[OF vol c], of D]
  obtain t1 st1 where r: "search_flat name (cluster_entries fs D c 0 (unat (sectors_per_cluster fs))) st = (t1, st1)"
    by fastforce
  show ?case
  proof (cases t1)
    case True
    then have "(t, st') = (True, st1)" using Cons.prems(5) r by (simp add: search_flat_append spc_def)
    then show ?thesis unfolding fuel search_dir.simps list.sel(1)
      by (intro exI[of _ c] conjI runs_bind[OF ss]) (auto simp: r True runs_return)
  next
    case False
    then have rest: "search_flat name (dir_entries fs D ds) st1 = (t, st')"
      using Cons.prems(5) r by (simp add: search_flat_append spc_def)
    have "\<exists>c'. exec (io_bind (fat_entry ops fs c) (\<lambda>next. if next \<ge> END_OF_CHAIN then io_return (False, c, st1)
        else search_dir ops fs g name next st1)) D (Inr (t, c', st')) D \<and> (\<not> t \<longrightarrow> c' = last (c # ds))"
    proof (cases ds)
      case Nil
      then have "fat fs D c = e" "t = False" "st' = st1" using Cons.prems(2) rest by simp_all
      then show ?thesis using e Nil by (intro exI[of _ c] conjI runs_bind[OF fe]) (simp_all add: runs_return)
    next
      case (Cons p ps)
      have "clus n p" using Cons.prems(3) Cons by simp
      then have np: "\<not> p \<ge> END_OF_CHAIN" using clus_not_end(2)[OF vol] by (simp add: not_le)
      have fp: "fat fs D c = p" using Cons.prems(2) Cons by simp
      obtain c' where "exec (search_dir ops fs g name p st1) D (Inr (t, c', st')) D" "\<not> t \<longrightarrow> c' = last ds"
        using Cons.IH[of g st1] Cons Cons.prems fuel rest by auto
      then show ?thesis using Cons np fp by (intro exI[of _ c'] conjI runs_bind[OF fe]) simp_all
    qed
    then show ?thesis unfolding fuel search_dir.simps list.sel(1)
      by (elim exE conjE, intro exI conjI runs_bind[OF ss]) (auto simp: r False)
  qed
qed

end

section \<open>What the search finds\<close>

definition before_end :: "dentry list \<Rightarrow> dentry list" where
  "before_end es = takeWhile (\<lambda>(l, i, e). e ! 0 \<noteq> 0) es"

definition hits :: "u8 list \<Rightarrow> dentry list \<Rightarrow> dentry list" where
  "hits name es = filter (\<lambda>(l, i, e). matches name e) (before_end es)"

definition free_slots :: "dentry list \<Rightarrow> (u32 \<times> nat) option" where
  "free_slots es = map_option (\<lambda>(l, i, e). (l, i * 32)) (find (\<lambda>(l, i, e). e ! 0 = 0 \<or> e ! 0 = 0xE5) es)"

lemma search_flat_spec:
  "search_flat name es st = (t, st') \<Longrightarrow>
   (t \<longleftrightarrow> before_end es \<noteq> es) \<and>
   ds_found st' = (case rev (hits name es) of [] \<Rightarrow> ds_found st | (l, i, e) # _ \<Rightarrow> Some (l, i * 32, entry_cluster e)) \<and>
   ds_free_slot st' = (case ds_free_slot st of Some s \<Rightarrow> Some s | None \<Rightarrow> free_slots es)"
proof (induction es arbitrary: st)
  case Nil
  then show ?case by (auto simp: before_end_def hits_def free_slots_def split: option.split)
next
  case (Cons x es)
  obtain l i e where x: "x = (l, i, e)" by (cases x)
  show ?case
  proof (cases "e ! 0 = 0")
    case True
    then show ?thesis using Cons.prems
      by (auto simp: x before_end_def hits_def free_slots_def Let_def split: option.splits if_splits)
  next
    case False
    define st1 where "st1 =
      (if e ! 0 = 0xE5 then (if ds_free_slot st = None then st\<lparr>ds_free_slot := Some (l, i * 32)\<rparr> else st)
       else if matches name e then st\<lparr>ds_found := Some (l, i * 32, entry_cluster e)\<rparr> else st)"
    have st1: "search_entries name l [(i, e)] st = (False, st1)"
      "ds_free_slot st1 = (if ds_free_slot st = None \<and> e ! 0 = 0xE5 then Some (l, i * 32) else ds_free_slot st)"
      "ds_found st1 = (if matches name e then Some (l, i * 32, entry_cluster e) else ds_found st)"
      using False by (simp_all add: st1_def Let_def matches_def skipped_def)
    have "search_flat name es st1 = (t, st')" using Cons.prems st1(1) by (simp add: x)
    note ih = Cons.IH[OF this]
    have hx: "hits name (x # es) = (if matches name e then x # hits name es else hits name es)"
      "before_end (x # es) = x # before_end es"
      using False by (simp_all add: x hits_def before_end_def)
    show ?thesis
    proof (intro conjI)
      show "t \<longleftrightarrow> before_end (x # es) \<noteq> x # es" using ih by (simp add: hx)
      show "ds_found st' = (case rev (hits name (x # es)) of [] \<Rightarrow> ds_found st | (l, i, e) # _ \<Rightarrow> Some (l, i * 32, entry_cluster e))"
        using ih st1(3) by (cases "rev (hits name es)") (simp_all add: hx, simp_all add: x)
      show "ds_free_slot st' = (case ds_free_slot st of Some s \<Rightarrow> Some s | None \<Rightarrow> free_slots (x # es))"
        using ih st1(2) False by (cases "ds_free_slot st") (simp_all add: x free_slots_def)
    qed
  qed
qed

definition empty_search :: dir_search where
  "empty_search = \<lparr>ds_found = None, ds_free_slot = None\<rparr>"

definition chosen_slot :: "dir_search \<Rightarrow> (u32 \<times> nat) option" where
  "chosen_slot st = (case ds_found st of Some (l, off, _) \<Rightarrow> Some (l, off) | None \<Rightarrow> ds_free_slot st)"

lemma hits_split:
  assumes "hits name es = [(l, i, e)]"
  shows "\<exists>pre post. es = pre @ (l, i, e) # post \<and> (\<forall>x \<in> set pre. passes name (snd (snd x))) \<and> matches name e"
proof -
  from assms obtain us vs where uv: "before_end es = us @ (l, i, e) # vs" "\<forall>u \<in> set us. \<not> matches name (snd (snd u))"
    "matches name e"
    unfolding hits_def case_prod_beta by (auto simp: filter_eq_Cons_iff)
  then obtain post where "es = us @ (l, i, e) # post"
    by (metis append.assoc append_Cons before_end_def takeWhile_dropWhile_id)
  moreover have "\<forall>u \<in> set us. snd (snd u) ! 0 \<noteq> 0"
    using uv(1) set_takeWhileD[of _ "\<lambda>(l, i, e). e ! 0 \<noteq> 0" es] by (fastforce simp: before_end_def)
  ultimately show ?thesis using uv(2,3) by (auto simp: passes_def)
qed

lemma no_hits_passes:
  assumes "hits name (pre @ post) = []" "\<forall>x \<in> set pre. snd (snd x) ! 0 \<noteq> 0"
  shows "\<forall>x \<in> set pre. passes name (snd (snd x))"
proof -
  have "before_end (pre @ post) = pre @ before_end post"
    unfolding before_end_def using assms(2) by (intro takeWhile_append2) auto
  with assms show ?thesis by (auto simp: hits_def passes_def filter_empty_conv)
qed

text \<open>An entry that \<^verbatim>\<open>write_file\<close> may overwrite: unused, deleted, or the old entry of the name.\<close>

definition reusable :: "u8 list \<Rightarrow> u8 list \<Rightarrow> bool" where
  "reusable name e \<longleftrightarrow> e ! 0 = 0 \<or> e ! 0 = 0xE5 \<or> matches name e"

lemma reusable_other: "reusable name e \<Longrightarrow> name' \<noteq> name \<Longrightarrow> e ! 0 = 0 \<or> \<not> matches name' e"
  by (auto simp: reusable_def matches_def skipped_def)

text \<open>Where the entry goes: everything in front of the chosen slot is passed over by a later search.\<close>

lemma search_slot:
  assumes s: "search_flat name es empty_search = (t, st)" and uniq: "length (hits name es) \<le> 1"
  shows "chosen_slot st = Some (l, off) \<Longrightarrow>
      \<exists>pre i e post. es = pre @ (l, i, e) # post \<and> off = i * 32 \<and> (\<forall>x \<in> set pre. passes name (snd (snd x))) \<and> reusable name e"
    and "chosen_slot st = None \<Longrightarrow> \<not> t \<and> (\<forall>x \<in> set es. passes name (snd (snd x)))"
proof -
  note S = search_flat_spec[OF s]
  have H: "hits name es = [] \<or> (\<exists>l i e. hits name es = [(l, i, e)])"
    using uniq by (cases "hits name es") auto
  { assume slot: "chosen_slot st = Some (l, off)"
    show "\<exists>pre i e post. es = pre @ (l, i, e) # post \<and> off = i * 32 \<and> (\<forall>x \<in> set pre. passes name (snd (snd x))) \<and> reusable name e"
    proof (cases "hits name es = []")
      case False
      then obtain l' i e where h: "hits name es = [(l', i, e)]" using H by auto
      then have "l' = l" "off = i * 32" using S slot by (auto simp: chosen_slot_def)
      with hits_split[OF h] show ?thesis unfolding reusable_def by blast
    next
      case True
      then have "free_slots es = Some (l, off)" using S slot by (simp add: chosen_slot_def empty_search_def)
      then obtain i e where f: "find (\<lambda>(l, i, e). e ! 0 = 0 \<or> e ! 0 = 0xE5) es = Some (l, i, e)" "off = i * 32"
        by (auto simp: free_slots_def)
      obtain k where k: "k < length es" "es ! k = (l, i, e)" "\<forall>j < k. snd (snd (es ! j)) ! 0 \<noteq> 0"
        "reusable name e"
        using f(1) by (fastforce simp: find_Some_iff reusable_def)
      have es: "es = take k es @ (l, i, e) # drop (Suc k) es" using k(1,2) by (metis id_take_nth_drop)
      have "\<forall>x \<in> set (take k es). snd (snd x) ! 0 \<noteq> 0" using k(1,3) by (fastforce simp: in_set_conv_nth)
      then have "\<forall>x \<in> set (take k es). passes name (snd (snd x))"
        using no_hits_passes[of name "take k es" "(l, i, e) # drop (Suc k) es"] True es by simp
      with es f(2) k(4) show ?thesis by blast
    qed }
  { assume none: "chosen_slot st = None"
    then have h: "hits name es = []" using S H by (auto simp: chosen_slot_def)
    then have "free_slots es = None" using S none by (simp add: chosen_slot_def empty_search_def)
    then have nz: "\<forall>x \<in> set es. snd (snd x) ! 0 \<noteq> 0"
      by (auto simp: free_slots_def find_None_iff)
    then have "before_end es = es" unfolding before_end_def by (intro takeWhile_eq_all_conv[THEN iffD2]) auto
    with S have "\<not> t" by simp
    moreover have "\<forall>x \<in> set es. passes name (snd (snd x))" using no_hits_passes[of name es "[]"] h nz by simp
    ultimately show "\<not> t \<and> (\<forall>x \<in> set es. passes name (snd (snd x)))" by blast }
qed

section \<open>Rewriting one entry\<close>

lemma length_chunks32 [simp]: "length (chunks32 s) = 16"
  by (simp add: chunks32_def)

lemma chunks32_put:
  assumes "length s = 512" "i < 16" "length e' = 32"
  shows "chunks32 (put_seg s (i * 32) e') = map (\<lambda>(j, e). (j, if j = i then e' else e)) (chunks32 s)"
proof -
  have "seg (put_seg s (i * 32) e') (j * 32) 32 = (if j = i then e' else seg s (j * 32) 32)" if "j < 16" for j
  proof (cases "j = i")
    case True
    then show ?thesis using assms by (simp add: seg_put_seg_same)
  next
    case False
    then have "j * 32 + 32 \<le> i * 32 \<or> i * 32 + 32 \<le> j * 32" by auto
    then show ?thesis
      using False that assms by (auto simp: seg_put_seg_before seg_put_seg_after)
  qed
  then show ?thesis by (simp add: chunks32_def)
qed

lemma dir_entries_mem:
  assumes "vol_ok fs cap n" "\<forall>c \<in> set ds. clus n c" "(l, i, e) \<in> set (dir_entries fs D ds)"
  shows "\<exists>c \<in> set ds. l \<in> clus_lbas fs c" "i < 16" "e = seg (D l) (i * 32) 32"
  using assms clus_lbas_eq[OF assms(1)]
  by (fastforce simp: dir_entries_def cluster_entries_def sector_entries_def chunks32_def)+

lemma dir_entries_put:
  assumes "length (D l) = 512" "i < 16" "length e' = 32"
  shows "dir_entries fs (D(l := put_seg (D l) (i * 32) e')) ds =
    map (\<lambda>(l', j, e). (l', j, if l' = l \<and> j = i then e' else e)) (dir_entries fs D ds)"
proof -
  have "sector_entries (D(l := put_seg (D l) (i * 32) e')) lba =
      map (\<lambda>(l', j, e). (l', j, if l' = l \<and> j = i then e' else e)) (sector_entries D lba)" for lba
    using chunks32_put[OF assms] by (auto simp: sector_entries_def)
  then show ?thesis by (simp add: dir_entries_def cluster_entries_def map_concat comp_def)
qed

lemma dir_entries_cong:
  assumes "vol_ok fs cap n" "\<forall>c \<in> set ds. clus n c" "\<And>c lba. c \<in> set ds \<Longrightarrow> lba \<in> clus_lbas fs c \<Longrightarrow> D' lba = D lba"
  shows "dir_entries fs D' ds = dir_entries fs D ds"
proof -
  have "cluster_entries fs D' c 0 (spc fs) = cluster_entries fs D c 0 (spc fs)" if "c \<in> set ds" for c
    unfolding cluster_entries_def sector_entries_def
    using that assms(2,3) clus_lbas_eq[OF assms(1), of c]
    by (intro arg_cong[where f = concat] map_cong refl) auto
  then show ?thesis by (simp add: dir_entries_def cong: map_cong)
qed

lemma join_halves:
  "push_bit 16 (ucast (ucast (drop_bit 16 w AND 0xFFFF) :: u16)) OR ucast (ucast (w AND 0xFFFF) :: u16) = (w :: u32)"
proof -
  have m: "(0xFFFF :: u32) = mask 16" by (simp add: mask_eq_exp_minus_1)
  show ?thesis unfolding m take_bit_eq_mask[symmetric]
    by (rule bit_word_eqI) (auto simp: bit_simps)
qed

lemma put_seg_at_end: "length xs = off \<Longrightarrow> put_seg (xs @ ys) off zs = xs @ zs @ drop (length zs) ys"
  by (simp add: put_seg_def)

lemma update_entry_fields:
  fixes first len :: u32
  assumes "length e = 32" "length name = 11"
  defines "e' \<equiv> update_entry e name first len"
  shows "length e' = 32" "take 11 e' = name" "e' ! 0 = name ! 0" "e' ! 11 = ATTR_ARCHIVE"
    "entry_cluster e' = first" "entry_size e' = len"
proof -
  note app = put_seg_at_end
  have 1: "put_seg e 0 name = name @ drop 11 e" using assms(2) by (simp add: put_seg_def)
  have "(drop 11 e)[0 := ATTR_ARCHIVE] = ATTR_ARCHIVE # drop 12 e"
    using assms(1) Cons_nth_drop_Suc[of 11 e, symmetric] by simp
  then have 2: "(name @ drop 11 e)[11 := ATTR_ARCHIVE] = (name @ [ATTR_ARCHIVE]) @ drop 12 e"
    using assms(2) by (simp add: list_update_append)
  let ?h = "le16 (ucast (drop_bit 16 first AND 0xFFFF))" and ?l = "le16 (ucast (first AND 0xFFFF))"
  have 3: "put_seg ((name @ [ATTR_ARCHIVE]) @ drop 12 e) 12 (replicate 8 0) = (name @ [ATTR_ARCHIVE] @ replicate 8 0) @ drop 20 e"
    using assms(2) by (subst app) simp_all
  have 4: "put_seg ((name @ [ATTR_ARCHIVE] @ replicate 8 0) @ drop 20 e) 20 ?h = (name @ [ATTR_ARCHIVE] @ replicate 8 0 @ ?h) @ drop 22 e"
    using assms(2) by (subst app) simp_all
  have 5: "put_seg ((name @ [ATTR_ARCHIVE] @ replicate 8 0 @ ?h) @ drop 22 e) 22 (replicate 4 0)
      = (name @ [ATTR_ARCHIVE] @ replicate 8 0 @ ?h @ replicate 4 0) @ drop 26 e"
    using assms(2) by (subst app) simp_all
  have 6: "put_seg ((name @ [ATTR_ARCHIVE] @ replicate 8 0 @ ?h @ replicate 4 0) @ drop 26 e) 26 ?l
      = (name @ [ATTR_ARCHIVE] @ replicate 8 0 @ ?h @ replicate 4 0 @ ?l) @ drop 28 e"
    using assms(2) by (subst app) simp_all
  have 7: "put_seg ((name @ [ATTR_ARCHIVE] @ replicate 8 0 @ ?h @ replicate 4 0 @ ?l) @ drop 28 e) 28 (le32 len)
      = name @ [ATTR_ARCHIVE] @ replicate 8 0 @ ?h @ replicate 4 0 @ ?l @ le32 len"
    using assms(1,2) by (subst app) simp_all
  have e': "e' = name @ [ATTR_ARCHIVE] @ replicate 8 0 @ ?h @ replicate 4 0 @ ?l @ le32 len"
    unfolding e'_def update_entry_def Let_def 1 2 3 4 5 6 7 ..
  then show "length e' = 32" "take 11 e' = name" "e' ! 0 = name ! 0" "e' ! 11 = ATTR_ARCHIVE"
    using assms(2) by (simp_all add: nth_append)
  show "entry_size e' = len" using assms(2) by (simp add: e' entry_size_def seg_append_right seg_def)
  have s: "seg e' 20 2 = le16 (ucast (drop_bit 16 first AND 0xFFFF))" "seg e' 26 2 = le16 (ucast (first AND 0xFFFF))"
    using assms(2) by (simp_all add: e' seg_def)
  show "entry_cluster e' = first" by (simp add: entry_cluster_def s join_halves)
qed

end
