(* ===== verification/Fat32_Write.thy ===== *)
theory Fat32_Write
  imports Fat32_Dirs
begin

text \<open>
  \<^verbatim>\<open>write_file\<close> and \<^verbatim>\<open>read_file\<close> of \<^verbatim>\<open>src/src/fat32.rs\<close> end to end: choosing the directory slot (and
  growing a full directory), fitting the file's chain, writing the data, writing the entry, and
  reading the file back.
\<close>

lemma chain_length_le:
  assumes "distinct cs" "\<forall>c \<in> set cs. clus n c"
  shows "length cs + 2 \<le> n \<or> cs = []"
proof (cases cs)
  case (Cons c cs')
  have "unat ` set cs \<subseteq> {2..<n}" using assms(2) by (auto simp: clus_def)
  then have "card (unat ` set cs) \<le> n - 2" using card_mono[of "{2..<n}" "unat ` set cs"] by simp
  moreover have "card (unat ` set cs) = length cs"
    using assms(1) by (simp add: card_image distinct_card inj_on_def word_unat_eq_iff)
  moreover have "2 < n" using assms(2) Cons by (auto simp: clus_def)
  ultimately show ?thesis by linarith
qed simp

lemma chain_frame:
  assumes "chain fs n D cs" "frame fs cap S T D D'" "vol_ok fs cap n" "set cs \<inter> S = {}"
  shows "chain fs n D' cs"
proof -
  have "links (fat fs D') cs e = links (fat fs D) cs e" for e
    using assms(1,4) by (intro links_cong frame_fat[OF assms(2,3)] clus_in_fat[OF assms(3)]) (auto simp: chain_def)
  with assms(1) show ?thesis by (simp add: chain_def)
qed

lemma chain_not_free:
  assumes "chain fs n D cs" "vol_ok fs cap n"
  shows "set cs \<inter> set (free_list fs D n 2) = {}"
proof -
  obtain e where "e \<ge> END_OF_CHAIN" "links (fat fs D) cs e" "\<forall>c \<in> set cs. clus n c" using assms(1) by (auto simp: chain_def)
  then have "\<forall>c \<in> set cs. fat fs D c \<noteq> 0" using links_nonzero[OF assms(2)] by blast
  then show ?thesis by (auto simp: free_list_def)
qed

lemma free_list_all_clus: "vol_ok fs cap n \<Longrightarrow> \<forall>c \<in> set (free_list fs D n 2). clus n c"
  using free_list_clus(1)[OF _ vol_ok_small] by blast

lemma mem_free_list:
  assumes n: "n \<le> 2 ^ 32"
  shows "c \<in> set (free_list fs D n 2) \<longleftrightarrow> clus n c \<and> fat fs D c = 0"
proof
  assume m: "c \<in> set (free_list fs D n 2)"
  show "clus n c \<and> fat fs D c = 0" using free_list_clus(1,3)[OF order_refl n m] by blast
next
  assume c: "clus n c \<and> fat fs D c = 0"
  then have "unat c \<in> set [2..<n]" by (simp add: clus_def)
  then have "of_nat (unat c) \<in> set (map of_nat [2..<n] :: u32 list)" unfolding set_map by (rule imageI)
  with c show "c \<in> set (free_list fs D n 2)" by (simp add: free_list_def)
qed

lemma links_retarget:
  "links F (xs @ [x]) e \<Longrightarrow> \<forall>c \<in> set xs. G c = F c \<Longrightarrow> G x = e' \<Longrightarrow> links G (xs @ [x]) e'"
proof (induction xs)
  case (Cons a xs)
  then show ?case by (cases xs) auto
qed simp

text \<open>
  What choosing a slot leaves: the directory (with one more cluster when it was full) is still a
  chain that begins with the same entries, the slot's entry is in it, may be overwritten, and a later
  search passes everything in front of it.
\<close>

definition slot_ready ::
  "fat32 \<Rightarrow> nat \<Rightarrow> nat \<Rightarrow> disk \<Rightarrow> u32 list \<Rightarrow> u8 list \<Rightarrow> disk \<Rightarrow> u32 list \<Rightarrow> u32 \<Rightarrow> nat \<Rightarrow> bool" where
  "slot_ready fs cap n D ds name D1 ds1 l i \<longleftrightarrow>
     frame fs cap (set ds \<union> set (free_list fs D n 2)) (set (free_list fs D n 2)) D D1 \<and>
     chain fs n D1 ds1 \<and> hd ds1 = hd ds \<and> set ds1 \<subseteq> set ds \<union> set (free_list fs D n 2) \<and>
     set (free_list fs D1 n 2) \<subseteq> set (free_list fs D n 2) \<and>
     length (free_list fs D n 2) \<le> length (free_list fs D1 n 2) + 1 \<and>
     (\<exists>pre e post. dir_entries fs D1 ds1 = pre @ (l, i, e) # post \<and> (\<forall>x \<in> set pre. passes name (snd (snd x))) \<and>
        reusable name e) \<and>
     (\<exists>extra. dir_entries fs D1 ds1 = dir_entries fs D ds @ extra)"

context block_device
begin

lemma exec_grow_dir:
  assumes vol: "vol_ok fs cap n" and b: "blocks_ok cap D" and ch: "chain fs n D ds"
    and full: "\<forall>x \<in> set (dir_entries fs D ds). passes name (snd (snd x))" and room: "free_list fs D n 2 = c # rest"
  shows "\<exists>D1. exec (io_bind (allocate_chain ops fs 1) (\<lambda>c. io_bind (set_fat_entry ops fs (last ds) c)
        (\<lambda>_. io_return (Some (cluster_to_lba fs c, 0 :: nat))))) D (Inr (Some (cluster_to_lba fs c, 0))) D1 \<and>
      slot_ready fs cap n D ds name D1 (ds @ [c]) (cluster_to_lba fs c) 0"
proof -
  let ?F = "free_list fs D n 2" and ?last = "last ds"
  note small = vol_ok_small[OF vol]
  obtain e where e: "e \<ge> END_OF_CHAIN" "links (fat fs D) ds e" and ds: "ds \<noteq> []" "distinct ds" "\<forall>c \<in> set ds. clus n c"
    using ch by (auto simp: chain_def)
  have c: "clus n c" "fat fs D c = 0" using mem_free_list[OF small, of c fs D] room by auto
  have lds: "?last \<in> set ds" using ds(1) by simp
  then have la: "clus n ?last" "fat fs D ?last \<noteq> 0" using ds(3) links_nonzero[OF vol e(2) ds(3) e(1)] by auto
  have cne: "c \<notin> set ds" "?last \<noteq> c" using c links_nonzero[OF vol e(2) ds(3) e(1)] la by auto
  obtain D0 where D0: "exec (allocate_chain ops fs 1) D (Inr c) D0" "frame fs cap {c} {c} D D0" "fat fs D0 c = END_OF_CHAIN"
    "zeroed fs D0 c" using exec_allocate_chain[OF vol b, of "[c]" 1] room by auto
  have b0: "blocks_ok cap D0" using D0(2) by (rule frame_blocks_ok)
  note fl = clus_in_fat[OF vol la(1)] and fc = clus_in_fat[OF vol c(1)]
  let ?D1 = "fat_put fs ?last c D0"
  have fr1: "frame fs cap {?last} {} D0 ?D1" by (rule frame_fat_put[OF vol b0 fl]) simp
  have fr: "frame fs cap {?last, c} {c} D ?D1" by (rule frame_trans[OF D0(2) fr1]) auto
  have fat1: "fat fs ?D1 c = END_OF_CHAIN" "fat fs ?D1 ?last = c"
    using frame_fat[OF fr1 vol fc] cne D0(3) fat_put_same[OF vol b0 vol_okD(2)[OF vol] fl] clus_not_end(4)[OF vol c(1)] by auto
  have keep: "fat fs ?D1 x = fat fs D x" if "clus n x" "x \<noteq> ?last" "x \<noteq> c" for x
    using frame_fat[OF fr vol clus_in_fat[OF vol that(1)]] that by simp
  have run: "exec (io_bind (allocate_chain ops fs 1) (\<lambda>c. io_bind (set_fat_entry ops fs (last ds) c)
        (\<lambda>_. io_return (Some (cluster_to_lba fs c, 0 :: nat))))) D (Inr (Some (cluster_to_lba fs c, 0))) ?D1"
    by (rule runs_bind[OF D0(1)], rule runs_bind[OF exec_set_fat_entry[OF vol fl b0]], rule runs_return)
  have "links (fat fs ?D1) (butlast ds @ [?last]) c"
  proof (rule links_retarget)
    show "links (fat fs D) (butlast ds @ [?last]) e" using e(2) ds(1) by simp
    show "\<forall>x \<in> set (butlast ds). fat fs ?D1 x = fat fs D x"
      using keep ds cne by (metis append_butlast_last_id distinct_butlast in_set_butlastD not_distinct_conv_prefix)
  qed (rule fat1(2))
  then have "links (fat fs ?D1) (butlast ds @ ?last # [c]) END_OF_CHAIN"
    using links_append[of "fat fs ?D1" "butlast ds" ?last c c "[]" END_OF_CHAIN] fat1(1) by simp
  moreover have "butlast ds @ ?last # [c] = ds @ [c]" using ds(1) by (metis append_Cons append_Nil append_assoc append_butlast_last_id)
  ultimately have chain1: "chain fs n ?D1 (ds @ [c])"
    using ds cne c(1) by (auto simp: chain_def)
  have sub: "set (free_list fs ?D1 n 2) \<subseteq> set ?F" "set ?F \<subseteq> insert c (set (free_list fs ?D1 n 2))"
  proof -
    have "c \<noteq> 0" "END_OF_CHAIN \<noteq> 0" using clus_not_end(3)[OF vol c(1)] by (simp_all add: END_OF_CHAIN_def)
    then show "set (free_list fs ?D1 n 2) \<subseteq> set ?F"
      using keep fat1 mem_free_list[OF small] by (metis subsetI)
    show "set ?F \<subseteq> insert c (set (free_list fs ?D1 n 2))"
      using keep la(2) mem_free_list[OF small] by (metis insert_iff subsetI)
  qed
  have len: "length ?F \<le> length (free_list fs ?D1 n 2) + 1"
  proof -
    have "card (set ?F) \<le> card (insert c (set (free_list fs ?D1 n 2)))" by (rule card_mono[OF _ sub(2)]) simp
    also have "\<dots> \<le> Suc (card (set (free_list fs ?D1 n 2)))" by (rule card_insert_le_m1) simp_all
    finally show ?thesis using distinct_free_list[OF small] by (simp add: distinct_card)
  qed
  have ent: "dir_entries fs ?D1 ds = dir_entries fs D ds"
    using frame_data[OF fr vol] ds(3) cne(1) c(1) by (intro dir_entries_cong[OF vol ds(3)]) auto
  have "cluster_entries fs ?D1 c 0 (spc fs) = sector_entries ?D1 (cluster_to_lba fs c) @ cluster_entries fs ?D1 c 1 (spc fs - 1)"
    using vol_okD(1)[OF vol] cluster_entries_Suc[of fs ?D1 c 0 "spc fs - 1"] by simp
  moreover have "cluster_to_lba fs c \<in> clus_lbas fs c" using clus_lbas_eq[OF vol c(1)] vol_okD(1)[OF vol] by force
  then have "?D1 (cluster_to_lba fs c) = replicate SECTOR_SIZE 0"
    using frame_data[OF fr1 vol c(1), of "cluster_to_lba fs c"] D0(4) by (simp add: zeroed_def)
  then have "\<exists>x post. sector_entries ?D1 (cluster_to_lba fs c) = (cluster_to_lba fs c, 0, x) # post \<and> reusable name x"
    by (simp add: sector_entries_def chunks32_def upt_conv_Cons reusable_def nth_seg)
  ultimately have "\<exists>x post. dir_entries fs ?D1 (ds @ [c]) = dir_entries fs D ds @ (cluster_to_lba fs c, 0, x) # post \<and> reusable name x"
    using ent by (auto simp: append_assoc)
  moreover have "hd (ds @ [c]) = hd ds" using ds(1) by simp
  moreover have "frame fs cap (set ds \<union> set ?F) (set ?F) D ?D1" using fr lds room by (rule_tac frame_mono) auto
  ultimately have "slot_ready fs cap n D ds name ?D1 (ds @ [c]) (cluster_to_lba fs c) 0"
    unfolding slot_ready_def using chain1 sub(1) len full room by fastforce
  with run show ?thesis by blast
qed

text \<open>Fitting the chain: a fresh allocation when there is no old chain (\<open>fc = []\<close>), a resize otherwise.\<close>

lemma exec_fit_chain:
  assumes vol: "vol_ok fs cap n" and b: "blocks_ok cap D" and need: "1 \<le> needed" "needed < 2 ^ 32"
    and fc: "fc = [] \<or> chain fs n D fc" and room: "needed \<le> length fc + length (free_list fs D n 2)" and fuel: "n \<le> fuel"
  defines "cs \<equiv> if needed \<le> length fc then take needed fc else fc @ take (needed - length fc) (free_list fs D n 2)"
  shows "\<exists>D'. exec (if fc = [] then allocate_chain ops fs (of_nat needed)
        else resize_chain ops fs fuel (hd fc) (of_nat needed)) D (Inr (hd cs)) D' \<and>
      chain fs n D' cs \<and> length cs = needed \<and>
      frame fs cap (set fc \<union> set cs) (set cs - set fc) D D' \<and>
      (\<forall>c \<in> set (drop needed fc). fat fs D' c = 0) \<and> (\<forall>c \<in> set cs - set fc. zeroed fs D' c)"
proof -
  let ?F = "free_list fs D n 2"
  note small = vol_ok_small[OF vol]
  have un: "unat (of_nat needed :: u32) = needed" using need(2) by (simp add: unat_of_nat)
  have eoc: "END_OF_CHAIN \<le> END_OF_CHAIN" by simp
  have Fc: "\<forall>c \<in> set ?F. clus n c" by (rule free_list_all_clus[OF vol])
  show ?thesis
  proof (cases "fc = []")
    case True
    have cs: "cs = take needed ?F" using True need(1) by (simp add: cs_def)
    have len: "length cs = needed" using room cs True by simp
    have sub: "set cs \<subseteq> set ?F" unfolding cs by (rule set_take_subset)
    obtain D' where D': "exec (allocate_chain ops fs (of_nat needed)) D (Inr (hd cs)) D'"
      "frame fs cap (set cs) (set cs) D D'" "links (fat fs D') cs END_OF_CHAIN" "\<forall>c \<in> set cs. zeroed fs D' c"
      using exec_allocate_chain[OF vol b, of cs "of_nat needed"] len need un cs by auto
    have "chain fs n D' cs"
      unfolding chain_def using D'(3) len need(1) Fc sub eoc distinct_free_list[OF small] by (auto simp: distinct_take cs)
    moreover have "frame fs cap (set fc \<union> set cs) (set cs - set fc) D D'" using D'(2) True by simp
    ultimately show ?thesis using D'(1,4) len True by (intro exI[of _ D']) auto
  next
    case False
    then have ch: "chain fs n D fc" using fc by simp
    then obtain e where e: "e \<ge> END_OF_CHAIN" "links (fat fs D) fc e" and d: "distinct fc" "\<forall>c \<in> set fc. clus n c"
      by (auto simp: chain_def)
    obtain cur post where cp: "fc = cur # post" using False by (cases fc) auto
    have lf: "length fc + 2 \<le> n" using chain_length_le[OF d] False by simp
    let ?k = "needed - 1"
    have sk: "Suc ?k = needed" using need(1) by simp
    have k: "of_nat needed = (1 :: u32) + of_nat ?k" "?k < 2 ^ 32" using need by (auto simp: of_nat_diff)
    show ?thesis
    proof (cases "?k \<le> length post")
      case True
      have cs: "cs = take needed fc" using True need(1) cp by (simp add: cs_def)
      obtain D' where D': "exec (resize_loop ops fs fuel cur (of_nat needed) cur 1) D (Inr cur) D'"
        "frame fs cap (set (drop ?k fc)) {} D D'" "links (fat fs D') (take (Suc ?k) fc) END_OF_CHAIN"
        "\<forall>c \<in> set (drop (Suc ?k) fc). fat fs D' c = 0"
        using exec_resize_shrink[OF vol e(1) b e(2)[unfolded cp] d[unfolded cp] True k, of fuel] lf fuel cp by auto
      have len: "length cs = needed" using True need(1) cp by (simp add: cs)
      have sub: "set cs \<subseteq> set fc" "set (drop ?k fc) \<subseteq> set fc" unfolding cs by (rule set_take_subset, rule set_drop_subset)
      have "chain fs n D' cs"
        unfolding chain_def using D'(3)[unfolded sk] len need(1) d sub(1) eoc cp cs by (auto simp: distinct_take)
      moreover have "frame fs cap (set fc \<union> set cs) (set cs - set fc) D D'" using D'(2) sub(2) by (rule_tac frame_mono) auto
      moreover have "hd cs = cur" using need(1) by (simp add: cp cs hd_take)
      ultimately show ?thesis using D'(1) D'(4)[unfolded sk] len False sub(1) cp
        by (intro exI[of _ D']) (auto simp: resize_chain_def)
    next
      case more: False
      let ?x = "take (?k - length post) ?F"
      have cs: "cs = fc @ ?x" using more cp need(1) by (simp add: cs_def)
      have lx: "length ?x = ?k - length post" using room need(1) cp by simp
      have sub: "set ?x \<subseteq> set ?F" by (rule set_take_subset)
      obtain D' where D': "exec (resize_loop ops fs fuel cur (of_nat needed) cur 1) D (Inr cur) D'"
        "frame fs cap (insert (last fc) (set ?x)) (set ?x) D D'" "links (fat fs D') cs END_OF_CHAIN"
        "\<forall>c \<in> set ?x. zeroed fs D' c"
        using exec_resize_extend[OF vol e(1) b e(2)[unfolded cp] d[unfolded cp] _ k _ refl lx, of fuel] lf fuel cp more cs by auto
      have len: "length cs = needed" using lx more cp cs by simp
      have dis: "set fc \<inter> set ?x = {}" using chain_not_free[OF ch vol] sub by blast
      have "chain fs n D' cs"
        unfolding chain_def using D'(3) d dis Fc sub eoc False distinct_free_list[OF small] by (auto simp: distinct_take cs)
      moreover have "last fc \<in> set fc" using False by simp
      then have "frame fs cap (set fc \<union> set cs) (set cs - set fc) D D'" using D'(2) dis by (rule_tac frame_mono) (auto simp: cs)
      moreover have "hd cs = cur" by (simp add: cp cs)
      moreover have "drop needed fc = []" using more cp by simp
      ultimately show ?thesis using D'(1,4) len False cp cs
        by (intro exI[of _ D']) (auto simp: resize_chain_def)
    qed
  qed
qed

lemma fit_chain_subset:
  "set (if needed \<le> length fc then take needed fc else fc @ take (needed - length fc) F) \<subseteq> set fc \<union> set F"
  by (auto dest: in_set_takeD)

text \<open>The first half of \<^verbatim>\<open>write_file\<close>, up to the continuation that uses the slot.\<close>

lemma exec_pick_slot:
  assumes vol: "vol_ok fs cap n" and b: "blocks_ok cap D" and ch: "chain fs n D ds"
    and uniq: "length (hits name (dir_entries fs D ds)) \<le> 1" and room: "free_list fs D n 2 \<noteq> []" and fuel: "n \<le> fuel"
    and s: "search_flat name (dir_entries fs D ds) empty_search = (t, st)"
  shows "\<exists>D1 ds1 free l i. slot_ready fs cap n D ds name D1 ds1 l i \<and>
     (case ds_found st of Some (lba, off, _) \<Rightarrow> Some (lba, off) | None \<Rightarrow> free) = Some (l, i * 32) \<and>
     (\<forall>K r D2. exec (K st free) D1 (r :: fat32_error fault + unit) D2 \<longrightarrow>
       exec (io_bind (search_dir ops fs fuel name (hd ds) empty_search) (\<lambda>(terminated, last_dir_cluster, ds).
         io_bind (if ds_found ds = None \<and> ds_free_slot ds = None \<and> \<not> terminated then
             io_bind (allocate_chain ops fs 1) (\<lambda>new_cluster.
             io_bind (set_fat_entry ops fs last_dir_cluster new_cluster) (\<lambda>_.
               io_return (Some (cluster_to_lba fs new_cluster, 0))))
           else io_return (ds_free_slot ds)) (K ds))) D r D2)"
proof -
  obtain e where e: "e \<ge> END_OF_CHAIN" "links (fat fs D) ds e" and d: "ds \<noteq> []" "distinct ds" "\<forall>c \<in> set ds. clus n c"
    using ch by (auto simp: chain_def)
  have "length ds \<le> fuel" using chain_length_le[OF d(2,3)] d(1) fuel by simp
  then obtain la where run: "exec (search_dir ops fs fuel name (hd ds) empty_search) D (Inr (t, la, st)) D" "\<not> t \<longrightarrow> la = last ds"
    using exec_search_dir[OF vol e(1) d(1) e(2) d(3) _ s] by blast
  show ?thesis
  proof (cases "chosen_slot st")
    case (Some lo)
    then obtain l off where lo: "chosen_slot st = Some (l, off)" by (cases lo) auto
    obtain pre i x post where ent: "dir_entries fs D ds = pre @ (l, i, x) # post" "off = i * 32"
      "\<forall>x \<in> set pre. passes name (snd (snd x))" "reusable name x" using search_slot(1)[OF s uniq lo] by blast
    have "slot_ready fs cap n D ds name D ds l i"
      unfolding slot_ready_def using ch ent(1,3,4) frame_refl[OF b] by fastforce
    moreover have "\<not> (ds_found st = None \<and> ds_free_slot st = None \<and> \<not> t)"
      using lo by (cases "ds_found st") (simp_all add: chosen_slot_def)
    then have "exec (io_bind (search_dir ops fs fuel name (hd ds) empty_search) (\<lambda>(terminated, last_dir_cluster, ds).
         io_bind (if ds_found ds = None \<and> ds_free_slot ds = None \<and> \<not> terminated then
             io_bind (allocate_chain ops fs 1) (\<lambda>new_cluster.
             io_bind (set_fat_entry ops fs last_dir_cluster new_cluster) (\<lambda>_.
               io_return (Some (cluster_to_lba fs new_cluster, 0))))
           else io_return (ds_free_slot ds)) (K ds))) D r D2"
      if "exec (K st (ds_free_slot st)) D r D2" for K and r :: "fat32_error fault + unit" and D2
      by (intro runs_bind[OF run(1)]) (simp only: prod.case if_False, rule runs_bind, rule runs_return, rule that)
    ultimately show ?thesis using lo ent(2)
      by (intro exI[of _ D] exI[of _ ds] exI[of _ "ds_free_slot st"] exI[of _ l] exI[of _ i]) (auto simp: chosen_slot_def)
  next
    case None
    have nt: "\<not> t" "\<forall>x \<in> set (dir_entries fs D ds). passes name (snd (snd x))"
      using search_slot(2)[OF s uniq None] by blast+
    have nf: "ds_found st = None \<and> ds_free_slot st = None \<and> \<not> t"
      using None nt(1) by (auto simp: chosen_slot_def split: option.splits)
    have la: "la = last ds" using run(2) nt(1) by blast
    obtain c rest where room': "free_list fs D n 2 = c # rest" using room by (cases "free_list fs D n 2") auto
    obtain D1 where D1: "exec (io_bind (allocate_chain ops fs 1) (\<lambda>c. io_bind (set_fat_entry ops fs (last ds) c)
        (\<lambda>_. io_return (Some (cluster_to_lba fs c, 0 :: nat))))) D (Inr (Some (cluster_to_lba fs c, 0))) D1"
      "slot_ready fs cap n D ds name D1 (ds @ [c]) (cluster_to_lba fs c) 0"
      using exec_grow_dir[OF vol b ch nt(2) room'] by blast
    have "exec (io_bind (search_dir ops fs fuel name (hd ds) empty_search) (\<lambda>(terminated, last_dir_cluster, ds).
         io_bind (if ds_found ds = None \<and> ds_free_slot ds = None \<and> \<not> terminated then
             io_bind (allocate_chain ops fs 1) (\<lambda>new_cluster.
             io_bind (set_fat_entry ops fs last_dir_cluster new_cluster) (\<lambda>_.
               io_return (Some (cluster_to_lba fs new_cluster, 0))))
           else io_return (ds_free_slot ds)) (K ds))) D r D2"
      if "exec (K st (Some (cluster_to_lba fs c, 0))) D1 r D2" for K and r :: "fat32_error fault + unit" and D2
      by (rule runs_bind[OF run(1)]) (use nf in simp, unfold la, rule runs_bind, rule D1(1), rule that)
    with D1(2) nf show ?thesis
      by (intro exI[of _ D1] exI[of _ "ds @ [c]"] exI[of _ "Some (cluster_to_lba fs c, 0)"]
          exI[of _ "cluster_to_lba fs c"] exI[of _ 0]) auto
  qed
qed

text \<open>The second half: the entry is written and the file can be read back.\<close>

lemma exec_store_entry:
  assumes vol: "vol_ok fs cap n" and b: "blocks_ok cap D" and ds: "chain fs n D ds" "hd ds = root_cluster fs"
    and cs: "chain fs n D cs" "set cs \<inter> set ds = {}" and fuel: "n \<le> fuel"
    and ent: "dir_entries fs D ds = pre @ (l, i, e) # post" "\<forall>x \<in> set pre. passes name (snd (snd x))" "reusable name e"
    and name: "length name = 11" "name ! 0 \<noteq> 0" "name ! 0 \<noteq> 0xE5"
    and data: "take (length data) (chain_data fs D cs) = data" "length data < 2 ^ 32"
  shows "\<exists>D'. exec (io_bind (rd ops l) (\<lambda>sector. wr ops l (put_seg sector (i * 32)
        (update_entry (seg sector (i * 32) 32) name (hd cs) (of_nat (length data)))))) D (Inr ()) D' \<and>
      frame fs cap {} (set ds) D D' \<and>
      (\<forall>out. let k = min (length data) (length out) in
        exec (read_file ops fs fuel name out) D' (Inr (k, take k data @ drop k out)) D') \<and>
      (\<forall>name' h. name' \<noteq> name \<longrightarrow> lookup_entries name' (dir_entries fs D ds) = Inr h \<longrightarrow>
        exec (find_in_dir ops fs fuel (root_cluster fs) name') D' (Inr h) D')"
proof -
  obtain x where x: "x \<ge> END_OF_CHAIN" "links (fat fs D) ds x" and d: "ds \<noteq> []" "distinct ds" "\<forall>c \<in> set ds. clus n c"
    using ds(1) by (auto simp: chain_def)
  note small = chain_length_le[OF d(2,3)]
  have mem: "(l, i, e) \<in> set (dir_entries fs D ds)" by (simp add: ent(1))
  obtain c where c: "c \<in> set ds" "l \<in> clus_lbas fs c" and i: "i < 16" and e: "e = seg (D l) (i * 32) 32"
    using dir_entries_mem[OF vol d(3) mem] by blast
  have lcap: "unat l < cap" using c(2) clus_end(1)[OF vol, of c] d(3) c(1) by (auto simp: clus_lbas_def)
  have ll: "length (D l) = SECTOR_SIZE" by (rule blocks_okD[OF b lcap])
  have le: "length e = 32" using i ll unfolding e by (intro length_seg) simp
  let ?e = "update_entry e name (hd cs) (of_nat (length data))"
  note U = update_entry_fields[OF le name(1), of "hd cs" "of_nat (length data)"]
  let ?D = "D(l := put_seg (D l) (i * 32) ?e)"
  have lp: "length (put_seg (D l) (i * 32) ?e) = SECTOR_SIZE" using ll i U(1) by (subst length_put_seg) auto
  have run: "exec (io_bind (rd ops l) (\<lambda>sector. wr ops l (put_seg sector (i * 32)
        (update_entry (seg sector (i * 32) 32) name (hd cs) (of_nat (length data)))))) D (Inr ()) ?D"
    by (rule runs_bind[OF exec_rd[OF lcap]]) (use exec_wr[OF lcap lp] e in simp)
  have bD: "blocks_ok cap ?D" by (rule blocks_ok_write[OF b lp])
  have fr: "frame fs cap {} {c} D ?D"
    by (rule frame_cluster[OF vol bD]) (use c d(3) in auto)
  have ds': "links (fat fs ?D) ds x"
    using x(2) links_cong[of ds "fat fs ?D" "fat fs D" x] frame_fat[OF fr vol clus_in_fat[OF vol]] d(3) by auto
  have look: "lookup_entries name (dir_entries fs ?D ds) = Inr (hd cs, of_nat (length data), False)"
  proof -
    let ?f = "\<lambda>(l', j, y). (l', j, if l' = l \<and> j = i then ?e else y)"
    have m: "matches name ?e" using U(2-4) name(3) by (simp add: matches_def skipped_def ATTR_ARCHIVE_def)
    have "map snd (map ?f (pre @ (l, i, e) # post)) = map snd (map ?f pre) @ (i, ?e) # map snd (map ?f post)" by simp
    moreover have "\<forall>y \<in> set (map snd (map ?f pre)). snd y = ?e \<or> passes name (snd y)" using ent(2) by fastforce
    ultimately have "find_entries name (map snd (dir_entries fs ?D ds)) = Some (Inr (hit_of ?e))"
      unfolding dir_entries_put[of D l, OF ll i U(1)] ent(1) using find_entries_hit[of _ ?e name i] m U(3) name(2) by simp
    moreover have "hit_of ?e = (hd cs, of_nat (length data), False)"
      using U(4-6) by (simp add: hit_of_def ATTR_ARCHIVE_def ATTR_DIRECTORY_def)
    ultimately show ?thesis by (simp add: lookup_entries_def)
  qed
  have find: "exec (find_in_dir ops fs fuel (root_cluster fs) name) ?D (Inr (hd cs, of_nat (length data), False)) ?D"
    using exec_find_in_dir[OF vol x(1) d(1) ds' d(3), of fuel name] small d(1) fuel ds(2) look by simp
  have others: "exec (find_in_dir ops fs fuel (root_cluster fs) name') ?D (Inr h) ?D"
    if "name' \<noteq> name" "lookup_entries name' (dir_entries fs D ds) = Inr h" for name' h
  proof -
    have "passes name' ?e" using U(2,3) name(2) that(1) by (auto simp: passes_def matches_def)
    moreover have "\<forall>(l', j, x) \<in> set (dir_entries fs D ds). l' = l \<and> j = i \<longrightarrow> x = e"
      using dir_entries_mem(3)[OF vol d(3)] e by blast
    ultimately have "lookup_entries name' (dir_entries fs ?D ds) = Inr h"
      using that(2) find_entries_replace[of _ l i e name' ?e h] reusable_other[OF ent(3) that(1)]
      unfolding dir_entries_put[of D l, OF ll i U(1)] by (auto simp: lookup_entries_def split: option.splits sum.splits)
    then show ?thesis using exec_find_in_dir[OF vol x(1) d(1) ds' d(3), of fuel name'] small d(1) fuel ds(2) by simp
  qed
  have cs': "chain fs n ?D cs" "chain_data fs ?D cs = chain_data fs D cs"
    using chain_frame[OF cs(1) fr vol] chain_data_frame[OF fr vol] cs c(1) d(3) by (auto simp: chain_def)
  have lc: "length cs \<le> fuel" using cs(1) chain_length_le[of cs n] fuel by (auto simp: chain_def)
  have "exec (read_file ops fs fuel name out) ?D (Inr (k, take k data @ drop k out)) ?D"
    if "k = min (length data) (length out)" for k out
  proof -
    have "length data \<le> length (chain_data fs D cs)" using data(1) by (metis length_take min.cobounded1 min.commute)
    moreover have "unat (of_nat (length data) :: u32) = length data" using data(2) by (simp add: unat_of_nat)
    moreover have "take k (chain_data fs D cs) = take k data" using data(1) that by (metis min.cobounded1 min.absorb1 take_take)
    ultimately show ?thesis
      unfolding read_file_def using exec_read_from[OF vol bD cs'(1) lc, of "of_nat (length data)" out] that cs'(2)
      by (intro runs_bind[OF find]) (simp add: min.absorb1 min.coboundedI1)
  qed
  with run frame_mono[OF fr, of "{}" "set ds"] c(1) others show ?thesis by (auto simp: Let_def)
qed

end

section \<open>Writing a file\<close>

definition clusters_for :: "fat32 \<Rightarrow> u8 list \<Rightarrow> nat" where
  "clusters_for fs data = max ((length data + cluster_size_bytes fs - 1) div cluster_size_bytes fs) 1"

text \<open>
  The old file, if the name is in the directory: its chain \<open>fc\<close> is empty (no cluster was ever
  allocated) or it is a chain of its own, apart from the directory's.
\<close>

definition old_file :: "fat32 \<Rightarrow> nat \<Rightarrow> disk \<Rightarrow> u32 list \<Rightarrow> u8 list \<Rightarrow> u32 list \<Rightarrow> bool" where
  "old_file fs n D ds name fc \<longleftrightarrow>
     (case hits name (dir_entries fs D ds) of
        [] \<Rightarrow> fc = []
      | (l, i, e) # _ \<Rightarrow>
          if entry_cluster e \<ge> 2 then chain fs n D fc \<and> hd fc = entry_cluster e \<and> set fc \<inter> set ds = {} else fc = [])"

definition dir_fit :: "fat32 \<Rightarrow> nat \<Rightarrow> disk \<Rightarrow> u32 list \<Rightarrow> u8 list \<Rightarrow> u32 list \<Rightarrow> bool" where
  "dir_fit fs n D ds name fc \<longleftrightarrow> chain fs n D ds \<and> hd ds = root_cluster fs \<and>
     length (hits name (dir_entries fs D ds)) \<le> 1 \<and> old_file fs n D ds name fc"

lemma clusters_for_fits:
  assumes "0 < spc fs"
  shows "length data \<le> clusters_for fs data * (SECTOR_SIZE * spc fs)"
proof -
  have "0 < cluster_size_bytes fs" using assms by (simp add: cluster_size_bytes_def spc_def)
  from ceiling_div(1)[OF this, of "length data"]
  have "length data \<le> clusters_for fs data * cluster_size_bytes fs"
    unfolding clusters_for_def by (meson le_trans max.cobounded1 mult_le_mono1)
  then show ?thesis by (simp add: cluster_size_bytes_def spc_def mult.commute)
qed

lemma length_free_list: "length (free_list fs D n from) \<le> n - from"
  unfolding free_list_def by (rule le_trans[OF length_filter_le]) simp

context block_device
begin

lemma exec_write_file:
  assumes vol: "vol_ok fs cap n" and b: "blocks_ok cap D" and fit: "dir_fit fs n D ds name fc"
    and name: "length name = 11" "name ! 0 \<noteq> 0" "name ! 0 \<noteq> 0xE5" and data: "length data < 2 ^ 32"
    and room: "clusters_for fs data < length (free_list fs D n 2)" and fuel: "n \<le> fuel"
  shows "\<exists>D'. exec (write_file ops fs fuel name data) D (Inr ()) D' \<and>
      frame fs cap (set ds \<union> set fc \<union> set (free_list fs D n 2)) (set ds \<union> set fc \<union> set (free_list fs D n 2)) D D' \<and>
      (\<forall>out. let k = min (length data) (length out) in
        exec (read_file ops fs fuel name out) D' (Inr (k, take k data @ drop k out)) D') \<and>
      (\<forall>name' h. name' \<noteq> name \<longrightarrow> lookup_entries name' (dir_entries fs D ds) = Inr h \<longrightarrow>
        exec (find_in_dir ops fs fuel (root_cluster fs) name') D' (Inr h) D')"
proof -
  let ?F = "free_list fs D n 2" and ?N = "clusters_for fs data"
  note small = vol_ok_small[OF vol]
  have ch: "chain fs n D ds" and root: "hd ds = root_cluster fs" and uniq: "length (hits name (dir_entries fs D ds)) \<le> 1"
    and old: "old_file fs n D ds name fc" using fit by (auto simp: dir_fit_def)
  obtain t st where s: "search_flat name (dir_entries fs D ds) empty_search = (t, st)" by fastforce
  have "?F \<noteq> []" using room by auto
  then obtain D1 ds1 free l i where slot: "slot_ready fs cap n D ds name D1 ds1 l i"
    "(case ds_found st of Some (lba, off, _) \<Rightarrow> Some (lba, off) | None \<Rightarrow> free) = Some (l, i * 32)"
    and run1: "\<And>K r D2. exec (K st free) D1 (r :: fat32_error fault + unit) D2 \<Longrightarrow>
       exec (io_bind (search_dir ops fs fuel name (hd ds) empty_search) (\<lambda>(terminated, last_dir_cluster, ds).
         io_bind (if ds_found ds = None \<and> ds_free_slot ds = None \<and> \<not> terminated then
             io_bind (allocate_chain ops fs 1) (\<lambda>new_cluster.
             io_bind (set_fat_entry ops fs last_dir_cluster new_cluster) (\<lambda>_.
               io_return (Some (cluster_to_lba fs new_cluster, 0))))
           else io_return (ds_free_slot ds)) (K ds))) D r D2"
    using exec_pick_slot[OF vol b ch uniq _ fuel s] by blast
  let ?F1 = "free_list fs D1 n 2"
  note S = slot(1)[unfolded slot_ready_def]
  have b1: "blocks_ok cap D1" and F1: "set ?F1 \<subseteq> set ?F" "?N \<le> length ?F1" and ch1: "chain fs n D1 ds1"
    using S room frame_blocks_ok by auto
  have fcD: "fc = [] \<or> chain fs n D fc" and fcds: "set fc \<inter> set ds = {}"
    using old by (auto simp: old_file_def split: list.splits if_splits)
  have fcF: "set fc \<inter> set ?F = {}" using fcD chain_not_free[OF _ vol] by fastforce
  have fc1: "fc = [] \<or> chain fs n D1 fc" using fcD chain_frame[of fs n D fc cap] S vol fcds fcF by blast
  have N: "1 \<le> ?N" "?N < 2 ^ 32"
    using F1(2) length_free_list[of fs D1 n 2] small by (auto simp: clusters_for_def)
  let ?cs = "if ?N \<le> length fc then take ?N fc else fc @ take (?N - length fc) ?F1"
  obtain D2 cs where D2: "exec (if fc = [] then allocate_chain ops fs (of_nat ?N)
        else resize_chain ops fs fuel (hd fc) (of_nat ?N)) D1 (Inr (hd cs)) D2"
    "chain fs n D2 cs" "length cs = ?N" "set cs \<subseteq> set fc \<union> set ?F1" "frame fs cap (set fc \<union> set cs) (set cs - set fc) D1 D2"
    using exec_fit_chain[OF vol b1 N fc1 trans_le_add2[OF F1(2)] fuel] fit_chain_subset[of ?N fc ?F1] that[of ?cs] by blast
  have fr2: "frame fs cap (set fc \<union> set ?F1) (set ?F1) D1 D2" using D2(4) by (intro frame_mono[OF D2(5)]) auto
  have b2: "blocks_ok cap D2" using fr2 by (rule frame_blocks_ok)
  obtain e2 where e2: "links (fat fs D2) cs e2" and cs: "cs \<noteq> []" "distinct cs" "\<forall>c \<in> set cs. clus n c"
    using D2(2) by (auto simp: chain_def)
  have lcs: "length cs \<le> fuel" using chain_length_le[OF cs(2,3)] cs(1) fuel by simp
  obtain D3 where D3: "exec (write_loop ops fs fuel data (hd cs) 0) D2 (Inr ()) D3" "frame fs cap {} (set cs) D2 D3"
    "take (length data) (chain_data fs D3 cs) = data"
    using exec_write_loop[OF vol cs(1) b2 e2 cs(2,3), of 0 data fuel] clusters_for_fits[OF vol_okD(1)[OF vol], of data] D2(3) lcs
    by auto
  have disj: "set ds1 \<inter> set fc = {}" "set ds1 \<inter> set ?F1 = {}" "set cs \<inter> set ds1 = {}"
    using S fcds fcF chain_not_free[OF ch1 vol] D2(4) by blast+
  have clF1: "\<forall>c \<in> set ?F1. clus n c" and cld: "\<forall>c \<in> set ds1. clus n c"
    using free_list_all_clus[OF vol] ch1 by (auto simp: chain_def)
  have b3: "blocks_ok cap D3" using D3(2) by (rule frame_blocks_ok)
  have ch3: "chain fs n D3 ds1" "chain fs n D3 cs"
    using chain_frame[OF chain_frame[OF ch1 fr2 vol] D3(2) vol] chain_frame[OF D2(2) D3(2) vol] disj by auto
  obtain pre e post extra where ent1: "dir_entries fs D1 ds1 = pre @ (l, i, e) # post"
    "\<forall>x \<in> set pre. passes name (snd (snd x))" "reusable name e" "dir_entries fs D1 ds1 = dir_entries fs D ds @ extra"
    using S by blast
  have "dir_entries fs D3 ds1 = dir_entries fs D1 ds1"
  proof (rule dir_entries_cong[OF vol cld])
    fix c lba assume c: "c \<in> set ds1" "lba \<in> clus_lbas fs c"
    then have "D3 lba = D2 lba" using frame_data[OF D3(2) vol _ _ cs(3)] cld disj(3) by blast
    also have "\<dots> = D1 lba" using frame_data[OF fr2 vol _ _ clF1] c cld disj(2) by blast
    finally show "D3 lba = D1 lba" .
  qed
  then have ent3: "dir_entries fs D3 ds1 = pre @ (l, i, e) # post" "dir_entries fs D3 ds1 = dir_entries fs D ds @ extra"
    using ent1(1,4) by simp_all
  have still: "lookup_entries name' (dir_entries fs D3 ds1) = Inr h"
    if "lookup_entries name' (dir_entries fs D ds) = Inr h" for name' h
    using that unfolding ent3(2) by (auto simp: lookup_entries_def find_entries_append split: option.splits sum.splits)
  have root1: "hd ds1 = root_cluster fs" using S root by simp
  obtain D4 where D4: "exec (io_bind (rd ops l) (\<lambda>sector. wr ops l (put_seg sector (i * 32)
        (update_entry (seg sector (i * 32) 32) name (hd cs) (of_nat (length data)))))) D3 (Inr ()) D4"
    "frame fs cap {} (set ds1) D3 D4"
    "\<forall>out. let k = min (length data) (length out) in
        exec (read_file ops fs fuel name out) D4 (Inr (k, take k data @ drop k out)) D4"
    "\<forall>name' h. name' \<noteq> name \<longrightarrow> lookup_entries name' (dir_entries fs D ds) = Inr h \<longrightarrow>
        exec (find_in_dir ops fs fuel (root_cluster fs) name') D4 (Inr h) D4"
    using exec_store_entry[OF vol b3 ch3(1) root1 ch3(2) disj(3) fuel ent3(1) ent1(2,3) name D3(3) data] still by blast
  have found: "(case ds_found st of Some (_, _, old_first) \<Rightarrow>
               if old_first \<ge> 2 then resize_chain ops fs fuel old_first (of_nat ?N)
               else allocate_chain ops fs (of_nat ?N)
           | None \<Rightarrow> allocate_chain ops fs (of_nat ?N)) =
      (if fc = [] then allocate_chain ops fs (of_nat ?N) else resize_chain ops fs fuel (hd fc) (of_nat ?N))"
    using search_flat_spec[OF s] uniq old
    by (auto simp: old_file_def empty_search_def chain_def split: list.splits if_splits)
  have run: "exec (write_file ops fs fuel name data) D (Inr ()) D4"
  proof -
    have "cluster_size_bytes fs \<noteq> 0" using vol_okD(1)[OF vol] by (simp add: cluster_size_bytes_def spc_def)
    moreover have "exec (io_bind (if fc = [] then allocate_chain ops fs (of_nat ?N)
          else resize_chain ops fs fuel (hd fc) (of_nat ?N)) (\<lambda>first_cluster.
        io_bind (write_loop ops fs fuel data first_cluster 0) (\<lambda>_.
          case Some (l, i * 32) of None \<Rightarrow> io_throw Panic
          | Some (entry_lba, entry_off) \<Rightarrow> io_bind (rd ops entry_lba) (\<lambda>sector. wr ops entry_lba
                  (put_seg sector entry_off (update_entry (seg sector entry_off 32) name first_cluster (of_nat (length data)))))))) D1 (Inr ()) D4"
      by (rule runs_bind[OF D2(1)], rule runs_bind[OF D3(1)]) (simp add: D4(1))
    ultimately show ?thesis
      unfolding write_file_def clusters_for_def[symmetric] empty_search_def[symmetric] Let_def root[symmetric]
      by (simp only: if_False) (rule run1, simp only: found slot(2))
  qed
  have "frame fs cap (set ds \<union> set fc \<union> set ?F) (set ds \<union> set fc \<union> set ?F) D D4"
  proof (rule frame_trans[OF _ D4(2)])
    show "frame fs cap (set ds \<union> set fc \<union> set ?F) (set ds \<union> set fc \<union> set ?F) D D3"
    proof (rule frame_trans[OF _ D3(2)])
      show "frame fs cap (set ds \<union> set fc \<union> set ?F) (set ds \<union> set fc \<union> set ?F) D D2"
        by (rule frame_trans[OF conjunct1[OF S] fr2]) (use F1(1) in auto)
    qed (use D2(4) F1(1) in auto)
  qed (use S in auto)
  with run D4(3,4) show ?thesis by blast
qed

end

end
