(* ===== verification/Fat32_Properties.thy ===== *)
theory Fat32_Properties
  imports Fat32_Write
begin

text \<open>
  The properties of the FAT32 implementation, over every block device that keeps the contract of
  \<open>block_device\<close>, with a small concrete volume on which they are applied.
\<close>

section \<open>A small volume\<close>

text \<open>
  Two copies of a one-sector table from block 2, one-sector clusters from block 4, six of them; the
  root directory (cluster 2) is empty and cluster 7 belongs to another chain.
\<close>

definition demo_fs :: fat32 where
  "demo_fs = \<lparr>partition_start_lba = 1, sectors_per_cluster = 1, reserved_sectors = 1, num_fats = 2,
     fat_size_sectors = 1, root_cluster = 2\<rparr>"

definition demo_table :: "u8 list" where
  "demo_table = le32 0x0FFFFFF8 @ le32 0x0FFFFFFF @ le32 0x0FFFFFFF @ replicate 16 0 @ le32 0x0FFFFFFF @ replicate 480 0"

definition demo_disk :: "u8 list list" where
  "demo_disk = [replicate 512 0, replicate 512 0, demo_table, demo_table, replicate 512 0, replicate 512 0,
     replicate 512 0, replicate 512 0, replicate 512 0, replicate 512 0]"

lemma demo_vol: "vol_ok demo_fs 10 8"
  by (simp add: vol_ok_def demo_fs_def spc_def data_base_def fat_base_def)

lemma demo_ready: "ram_ready 10 demo_disk"
  by (simp add: ram_ready_def demo_disk_def demo_table_def)

lemma demo_device: "block_device ram_ops (ram_ready 10) ram_contents 10"
  by (rule ram.block_device_axioms)

lemma demo_fat_lba: "clus 8 c \<or> c = 2 \<Longrightarrow> fat_lba demo_fs 0 c = 2"
  by (subst word_unat_eq_iff, subst fat_lba_nat(1)[OF demo_vol])
    (auto simp: demo_fs_def fat_base_def clus_def)

lemma demo_contents: "ram_contents demo_disk 2 = demo_table" "ram_contents demo_disk 4 = replicate 512 0"
  by (simp_all add: ram_contents_def demo_disk_def)

lemma demo_fat_root: "fat demo_fs (ram_contents demo_disk) 2 = 0x0FFFFFFF"
proof -
  have "fat_off 2 = 8" by (subst fat_off_nat) simp_all
  moreover have "seg demo_table 8 4 = le32 0x0FFFFFFF" by (simp add: demo_table_def seg_append_right seg_0_append)
  ultimately show ?thesis by (simp add: fat_val_def demo_fat_lba demo_contents)
qed

lemma of_le_zeros: "of_le (replicate k 0) = 0"
  by (induction k) simp_all

lemma demo_fat_last: "fat demo_fs (ram_contents demo_disk) 7 = 0x0FFFFFFF"
proof -
  have "fat_lba demo_fs 0 7 = 2" by (intro demo_fat_lba) (simp add: clus_def)
  moreover have "fat_off 7 = 28" by (subst fat_off_nat) simp_all
  moreover have "seg demo_table 28 4 = le32 0x0FFFFFFF" by (simp add: demo_table_def seg_append_right seg_0_append)
  ultimately show ?thesis by (simp add: fat_val_def demo_contents)
qed

lemma demo_fat_free:
  assumes "3 \<le> unat c" "unat c < 7"
  shows "fat demo_fs (ram_contents demo_disk) c = 0"
proof -
  have "fat_lba demo_fs 0 c = 2" using assms by (intro demo_fat_lba) (simp add: clus_def)
  moreover have o: "12 \<le> fat_off c" "fat_off c \<le> 24" using assms by (auto simp: fat_off_nat)
  moreover have "seg demo_table (fat_off c) 4 = replicate 4 0"
    using o by (simp add: demo_table_def seg_append_right) (simp add: seg_def)
  ultimately show ?thesis by (simp add: fat_val_def demo_contents of_le_zeros)
qed

lemma demo_free_list: "free_list demo_fs (ram_contents demo_disk) 8 2 = [3, 4, 5, 6]"
proof -
  have up: "map of_nat [2..<8] = [2, 3, 4, 5, 6, 7 :: u32]" by (simp add: upt_rec)
  show ?thesis unfolding free_list_def up using demo_fat_root demo_fat_last by (simp add: demo_fat_free)
qed

lemma demo_chain: "chain demo_fs 8 (ram_contents demo_disk) [2]" "chain demo_fs 8 (ram_contents demo_disk) [7]"
  using demo_fat_root demo_fat_last by (simp_all add: chain_def clus_def END_OF_CHAIN_def word_le_nat_alt)

lemma demo_hits: "hits name (dir_entries demo_fs (ram_contents demo_disk) [2]) = []"
proof -
  have "cluster_to_lba demo_fs 2 = 4" by (simp add: cluster_to_lba_def first_data_sector_def demo_fs_def)
  moreover have "seg (replicate 512 0) 0 32 ! 0 = (0::u8)" by (subst nth_seg) simp_all
  ultimately have "before_end (dir_entries demo_fs (ram_contents demo_disk) [2]) = []"
    by (simp add: before_end_def cluster_entries_def sector_entries_def chunks32_def demo_contents spc_def demo_fs_def
        upt_conv_Cons)
  then show ?thesis by (simp add: hits_def)
qed

section \<open>The table\<close>

text \<open>
  A table entry that was set reads back (its 28 bits), in every copy of the table, no other
  entry of any copy changes, and no sector outside the table changes.
\<close>

theorem fat_entry_roundtrip:
  assumes dev: "block_device ops ready contents cap" and vol: "vol_ok fs cap n" and d: "ready d"
    and c: "unat c < unat (fat_size_sectors fs) * 128"
  shows "\<exists>d1 d2. set_fat_entry ops fs c v d = (Inr (), d1) \<and> fat_entry ops fs c d1 = (Inr (v AND 0x0FFFFFFF), d2) \<and>
    ready d1 \<and> ready d2 \<and>
    (\<forall>k < unat (num_fats fs). fat_val fs k (contents d1) c = v AND 0x0FFFFFFF) \<and>
    (\<forall>k c'. k < unat (num_fats fs) \<longrightarrow> in_fat fs c' \<longrightarrow> c' \<noteq> c \<longrightarrow>
       fat_val fs k (contents d1) c' = fat_val fs k (contents d) c') \<and>
    (\<forall>lba. unat lba < fat_base fs \<or> data_base fs \<le> unat lba \<longrightarrow> contents d1 lba = contents d lba)"
proof -
  note b = block_device.ready_blocks_ok[OF dev d]
  obtain d1 where d1: "set_fat_entry ops fs c v d = (Inr (), d1)" "ready d1" "contents d1 = fat_put fs c v (contents d)"
    using runsD[OF block_device.exec_set_fat_entry[OF dev vol c b] d refl] by blast
  obtain d2 where d2: "fat_entry ops fs c d1 = (Inr (fat fs (contents d1) c), d2)" "ready d2"
    using runsD[OF block_device.exec_fat_entry[OF dev vol c] d1(2) refl] by blast
  note same = fat_put_same[OF vol b _ c, of _ v]
  have "fat fs (contents d1) c = v AND 0x0FFFFFFF" using same[OF vol_okD(2)[OF vol]] by (simp add: d1(3))
  moreover have "frame fs cap {c} {} (contents d) (contents d1)"
    unfolding d1(3) by (rule frame_fat_put[OF vol b c]) simp
  then have "k < unat (num_fats fs) \<Longrightarrow> in_fat fs c' \<Longrightarrow> c' \<noteq> c \<Longrightarrow>
       fat_val fs k (contents d1) c' = fat_val fs k (contents d) c'"
    "unat lba < fat_base fs \<or> data_base fs \<le> unat lba \<Longrightarrow> contents d1 lba = contents d lba" for k c' lba
    using frame_entry frame_sector by fastforce+
  ultimately show ?thesis using d1 d2 same by (intro exI[of _ d1] exI[of _ d2]) simp
qed

theorem fat_entry_roundtrip_witness:
  "\<exists>d1 d2. set_fat_entry ram_ops demo_fs 5 0x12345678 demo_disk = (Inr (), d1) \<and>
     fat_entry ram_ops demo_fs 5 d1 = (Inr 0x02345678, d2)"
proof -
  have "unat (5 :: u32) < unat (fat_size_sectors demo_fs) * 128" by (simp add: demo_fs_def)
  from fat_entry_roundtrip[OF demo_device demo_vol demo_ready this, of "0x12345678"] show ?thesis by auto
qed

section \<open>Allocation\<close>

text \<open>
  C32: allocating a chain takes the lowest free clusters: the clusters allocated form a chain of the
  requested length, starting at the returned cluster, all of them free before and zero-filled after,
  and neither the table entry nor the data of any other cluster changes.
\<close>

theorem allocate_chain_spec:
  assumes dev: "block_device ops ready contents cap" and vol: "vol_ok fs cap n" and d: "ready d"
    and count: "0 < unat count" "unat count \<le> length (free_list fs (contents d) n 2)"
  shows "\<exists>d' cs. allocate_chain ops fs count d = (Inr (hd cs), d') \<and> ready d' \<and>
    cs = take (unat count) (free_list fs (contents d) n 2) \<and> chain fs n (contents d') cs \<and> length cs = unat count \<and>
    (\<forall>c \<in> set cs. zeroed fs (contents d') c) \<and> frame fs cap (set cs) (set cs) (contents d) (contents d')"
proof -
  let ?cs = "take (unat count) (free_list fs (contents d) n 2)"
  have len: "length ?cs = unat count" using count(2) by simp
  note small = vol_ok_small[OF vol]
  obtain D' where D': "runs ready contents (allocate_chain ops fs count) (contents d) (Inr (hd ?cs)) D'"
    "frame fs cap (set ?cs) (set ?cs) (contents d) D'" "links (fat fs D') ?cs END_OF_CHAIN" "\<forall>c \<in> set ?cs. zeroed fs D' c"
    using block_device.exec_allocate_chain[OF dev vol block_device.ready_blocks_ok[OF dev d] refl len count(1)] by blast
  have "chain fs n D' ?cs"
    unfolding chain_def using D'(3) len count(1) free_list_all_clus[OF vol] set_take_subset[of "unat count"]
      distinct_free_list[OF small] by (fastforce simp: distinct_take)
  then show ?thesis using runsD[OF D'(1) d refl] D'(2,4) len by (intro exI[of _ "snd (allocate_chain ops fs count d)"] exI[of _ ?cs]) auto
qed

theorem allocate_chain_spec_witness:
  "\<exists>d'. allocate_chain ram_ops demo_fs 2 demo_disk = (Inr 3, d') \<and> chain demo_fs 8 (ram_contents d') [3, 4]"
  using allocate_chain_spec[OF demo_device demo_vol demo_ready, of 2] by (auto simp: demo_free_list)

text \<open>
  When every entry of the table is in use, allocation fails with NoSpace and leaves the disk as
  it was.
\<close>

theorem allocate_chain_no_space:
  assumes dev: "block_device ops ready contents cap" and vol: "vol_ok fs cap n" and d: "ready d" and count: "0 < unat count"
    and full: "\<forall>c. 2 \<le> unat c \<longrightarrow> in_fat fs c \<longrightarrow> fat fs (contents d) c \<noteq> 0"
  shows "\<exists>d'. allocate_chain ops fs count d = (Inl (Err NoSpace), d') \<and> ready d' \<and> contents d' = contents d"
  using runsD[OF block_device.exec_allocate_chain_full[OF dev vol _ count] d refl] full by blast

definition full_table :: "u8 list list" where
  "full_table = demo_disk[2 := replicate 512 0xFF, 3 := replicate 512 0xFF]"

theorem allocate_chain_no_space_witness:
  "\<exists>d'. allocate_chain ram_ops demo_fs 1 full_table = (Inl (Err NoSpace), d') \<and> ram_contents d' = ram_contents full_table"
proof -
  have ready: "ram_ready 10 full_table" by (simp add: ram_ready_def full_table_def demo_disk_def demo_table_def)
  have "fat demo_fs (ram_contents full_table) c \<noteq> 0" if "in_fat demo_fs c" for c
  proof -
    have l: "fat_lba demo_fs 0 c = 2"
      using that fat_lba_nat(1,2)[OF demo_vol _ that, of 0] by (simp add: word_unat_eq_iff demo_fs_def fat_base_def)
    have "ram_contents full_table 2 = replicate 512 0xFF" by (simp add: ram_contents_def full_table_def demo_disk_def)
    moreover have "seg (replicate 512 (0xFF :: u8)) (fat_off c) 4 = replicate 4 0xFF" using fat_off_bound[of c] by (simp add: seg_def)
    moreover have "replicate 4 (0xFF :: u8) = [0xFF, 0xFF, 0xFF, 0xFF]" by (simp add: numeral_eq_Suc)
    then have "rd32 (replicate 4 0xFF) = 0xFFFFFFFF" by simp
    ultimately show ?thesis using l by (simp add: fat_val_def)
  qed
  then show ?thesis using allocate_chain_no_space[OF demo_device demo_vol ready, of 1] by auto
qed

text \<open>
  C34: freeing a chain frees exactly its clusters: every entry of the chain is zero afterwards, no
  other entry and no data sector changes. Fuel of one more than the chain's length is enough.
\<close>

theorem free_chain_spec:
  assumes dev: "block_device ops ready contents cap" and vol: "vol_ok fs cap n" and d: "ready d"
    and ch: "chain fs n (contents d) cs" and fuel: "length cs < fuel"
  shows "\<exists>d'. free_chain_from ops fs fuel (hd cs) d = (Inr (), d') \<and> ready d' \<and>
    (\<forall>c \<in> set cs. fat fs (contents d') c = 0) \<and> frame fs cap (set cs) {} (contents d) (contents d')"
proof -
  obtain e where e: "e \<ge> END_OF_CHAIN" "links (fat fs (contents d)) cs e" and cs: "cs \<noteq> []" "distinct cs" "\<forall>c \<in> set cs. clus n c"
    using ch by (auto simp: chain_def)
  have "\<not> (e \<ge> 2 \<and> e < END_OF_CHAIN)" using e(1) by (simp add: not_less)
  from block_device.exec_free_chain[OF dev vol this block_device.ready_blocks_ok[OF dev d] e(2) cs(2,3) fuel] cs(1)
  obtain D' where D': "runs ready contents (free_chain_from ops fs fuel (hd cs)) (contents d) (Inr ()) D'"
    "frame fs cap (set cs) {} (contents d) D'" "\<forall>c \<in> set cs. fat fs D' c = 0" by auto
  from runsD[OF D'(1) d refl] D'(2,3) show ?thesis by auto
qed

theorem free_chain_spec_witness:
  "\<exists>d'. free_chain_from ram_ops demo_fs 2 2 demo_disk = (Inr (), d') \<and> fat demo_fs (ram_contents d') 2 = 0"
  using free_chain_spec[OF demo_device demo_vol demo_ready demo_chain(1), of 2] by auto

text \<open>
  C33: resizing a chain to k clusters (k at least 1) keeps its first clusters in order: it is cut to
  its first k, the rest being freed, or extended by the lowest free clusters, zero-filled. The first
  cluster is unchanged, no table entry outside the old chain and the new clusters changes, and no
  data sector changes but those of the new clusters. Only growing asks for free clusters, as many as
  are missing.
\<close>

theorem resize_chain_spec:
  assumes dev: "block_device ops ready contents cap" and vol: "vol_ok fs cap n" and d: "ready d"
    and ch: "chain fs n (contents d) fc" and fuel: "n \<le> fuel"
    and k: "1 \<le> unat k" "unat k \<le> length fc + length (free_list fs (contents d) n 2)"
  shows "\<exists>d' cs. resize_chain ops fs fuel (hd fc) k d = (Inr (hd cs), d') \<and> ready d' \<and>
    cs = (if unat k \<le> length fc then take (unat k) fc else fc @ take (unat k - length fc) (free_list fs (contents d) n 2)) \<and>
    chain fs n (contents d') cs \<and> length cs = unat k \<and>
    (\<forall>c \<in> set (drop (unat k) fc). fat fs (contents d') c = 0) \<and> (\<forall>c \<in> set cs - set fc. zeroed fs (contents d') c) \<and>
    frame fs cap (set fc \<union> set cs) (set cs - set fc) (contents d) (contents d')"
proof -
  let ?cs = "if unat k \<le> length fc then take (unat k) fc else fc @ take (unat k - length fc) (free_list fs (contents d) n 2)"
  have ne: "fc \<noteq> []" using ch by (simp add: chain_def)
  have lt: "unat k < 2 ^ 32" using unat_bound[of k] by simp
  from block_device.exec_fit_chain[OF dev vol block_device.ready_blocks_ok[OF dev d] k(1) lt disjI2[OF ch] k(2) fuel]
  obtain D' where D': "runs ready contents (resize_chain ops fs fuel (hd fc) k) (contents d) (Inr (hd ?cs)) D'"
    "chain fs n D' ?cs" "length ?cs = unat k" "frame fs cap (set fc \<union> set ?cs) (set ?cs - set fc) (contents d) D'"
    "\<forall>c \<in> set (drop (unat k) fc). fat fs D' c = 0" "\<forall>c \<in> set ?cs - set fc. zeroed fs D' c"
    unfolding if_not_P[OF ne] by auto
  obtain d' where "resize_chain ops fs fuel (hd fc) k d = (Inr (hd ?cs), d')" "ready d'" "contents d' = D'"
    using runsD[OF D'(1) d refl] by blast
  with D'(2-6) show ?thesis by (intro exI[of _ d'] exI[of _ ?cs]) auto
qed

theorem resize_chain_spec_witness:
  "\<exists>d'. resize_chain ram_ops demo_fs 8 2 3 demo_disk = (Inr 2, d') \<and> chain demo_fs 8 (ram_contents d') [2, 3, 4]"
  using resize_chain_spec[OF demo_device demo_vol demo_ready demo_chain(1), of 8 3] by (auto simp: demo_free_list)

section \<open>Files\<close>

text \<open>
  C1: a file that was written reads back: after write_file with a valid 8.3 name, read_file with a
  buffer of any size returns the data (truncated to the buffer, the rest of which is untouched),
  whether the file is new, overwritten, grown, shrunk or the directory had to grow. The volume must
  have one free cluster more than the data needs and the name must not occur twice in the directory.
\<close>

theorem write_file_read_file:
  assumes dev: "block_device ops ready contents cap" and vol: "vol_ok fs cap n" and d: "ready d"
    and fit: "dir_fit fs n (contents d) ds name fc"
    and name: "length name = 11" "name ! 0 \<noteq> 0" "name ! 0 \<noteq> 0xE5" and data: "length data < 2 ^ 32"
    and room: "clusters_for fs data < length (free_list fs (contents d) n 2)" and fuel: "n \<le> fuel"
  shows "\<exists>d1. write_file ops fs fuel name data d = (Inr (), d1) \<and> ready d1 \<and>
    (\<forall>out. \<exists>d2. read_file ops fs fuel name out d1 =
       (Inr (min (length data) (length out),
             take (min (length data) (length out)) data @ drop (min (length data) (length out)) out), d2) \<and> ready d2)"
proof -
  obtain D' where D': "runs ready contents (write_file ops fs fuel name data) (contents d) (Inr ()) D'"
    "\<forall>out. let k = min (length data) (length out) in
        runs ready contents (read_file ops fs fuel name out) D' (Inr (k, take k data @ drop k out)) D'"
    using block_device.exec_write_file[OF dev vol block_device.ready_blocks_ok[OF dev d] fit name data room fuel] by blast
  obtain d1 where d1: "write_file ops fs fuel name data d = (Inr (), d1)" "ready d1" "contents d1 = D'"
    using runsD[OF D'(1) d refl] by blast
  have "\<exists>d2. read_file ops fs fuel name out d1 =
       (Inr (min (length data) (length out),
             take (min (length data) (length out)) data @ drop (min (length data) (length out)) out), d2) \<and> ready d2" for out
    using runsD[OF D'(2)[rule_format, of out, unfolded Let_def] d1(2,3)] by blast
  with d1 show ?thesis by blast
qed

definition demo_name :: "u8 list" where
  "demo_name = [0x46, 0x45, 0x52, 0x52, 0x4F, 0x20, 0x20, 0x20, 0x56, 0x41, 0x52]"

lemma demo_fit: "dir_fit demo_fs 8 (ram_contents demo_disk) [2] demo_name []"
proof -
  have "root_cluster demo_fs = 2" by (simp add: demo_fs_def)
  then show ?thesis unfolding dir_fit_def old_file_def demo_hits using demo_chain(1) by simp
qed

lemma demo_clusters_for: "length data = 3 \<Longrightarrow> clusters_for demo_fs data = 1"
  by (simp add: clusters_for_def cluster_size_bytes_def demo_fs_def)

lemma demo_name_ok: "length demo_name = 11" "demo_name ! 0 \<noteq> 0" "demo_name ! 0 \<noteq> 0xE5"
  by (simp_all add: demo_name_def)

lemma demo_room: "clusters_for demo_fs [1, 2, 3] < length (free_list demo_fs (ram_contents demo_disk) 8 2)"
  by (simp add: demo_clusters_for demo_free_list)

theorem write_file_read_file_witness:
  "\<exists>d1 d2. write_file ram_ops demo_fs 8 demo_name [1, 2, 3] demo_disk = (Inr (), d1) \<and>
     read_file ram_ops demo_fs 8 demo_name [0, 0, 0, 9] d1 = (Inr (3, [1, 2, 3, 9]), d2)"
proof -
  obtain d1 where d1: "write_file ram_ops demo_fs 8 demo_name [1, 2, 3] demo_disk = (Inr (), d1)"
    "\<forall>out. \<exists>d2. read_file ram_ops demo_fs 8 demo_name out d1 =
       (Inr (min (length [1 :: u8, 2, 3]) (length out),
         take (min (length [1 :: u8, 2, 3]) (length out)) [1, 2, 3] @ drop (min (length [1 :: u8, 2, 3]) (length out)) out), d2) \<and>
       ram_ready 10 d2"
    using write_file_read_file[OF demo_device demo_vol demo_ready demo_fit demo_name_ok _ demo_room, of 8] by auto
  from d1(2)[rule_format, of "[0, 0, 0, 9]"] d1(1) show ?thesis by auto
qed

text \<open>The outcome of a lookup in the root directory is that of searching its entries.\<close>

lemma find_in_root:
  assumes dev: "block_device ops ready contents cap" and vol: "vol_ok fs cap n" and d: "ready d"
    and ch: "chain fs n (contents d) ds" "hd ds = root_cluster fs" and fuel: "n \<le> fuel"
  shows "fst (find_in_dir ops fs fuel (root_cluster fs) name' d) = lookup_entries name' (dir_entries fs (contents d) ds)"
proof -
  obtain x where x: "x \<ge> END_OF_CHAIN" "links (fat fs (contents d)) ds x" and cs: "ds \<noteq> []" "distinct ds" "\<forall>c \<in> set ds. clus n c"
    using ch(1) by (auto simp: chain_def)
  have "length ds \<le> fuel" using chain_length_le[OF cs(2,3)] cs(1) fuel by simp
  from runsD[OF block_device.exec_find_in_dir[OF dev vol x(1) cs(1) x(2) cs(3) this, of name'] d refl] show ?thesis
    by (auto simp: ch(2))
qed

text \<open>
  C2: writing a file leaves every other file of the root directory alone. Every other name that was
  found in it is found as before, with the same first cluster, size and kind; every chain that shares
  no cluster with the root directory and none with the old contents of the file written is still a
  chain, with the same data; and reading a file with another name, whose chain is such a chain,
  returns its old contents.
\<close>

theorem write_file_keeps_others:
  assumes dev: "block_device ops ready contents cap" and vol: "vol_ok fs cap n" and d: "ready d"
    and fit: "dir_fit fs n (contents d) ds name fc"
    and name: "length name = 11" "name ! 0 \<noteq> 0" "name ! 0 \<noteq> 0xE5" and data: "length data < 2 ^ 32"
    and room: "clusters_for fs data < length (free_list fs (contents d) n 2)" and fuel: "n \<le> fuel"
  shows "\<exists>d1. write_file ops fs fuel name data d = (Inr (), d1) \<and> ready d1 \<and>
    (\<forall>name' h. name' \<noteq> name \<longrightarrow> fst (find_in_dir ops fs fuel (root_cluster fs) name' d) = Inr h \<longrightarrow>
       fst (find_in_dir ops fs fuel (root_cluster fs) name' d1) = Inr h) \<and>
    (\<forall>cs. chain fs n (contents d) cs \<longrightarrow> set cs \<inter> (set ds \<union> set fc) = {} \<longrightarrow>
       chain fs n (contents d1) cs \<and> chain_data fs (contents d1) cs = chain_data fs (contents d) cs \<and>
       (\<forall>name' size is_dir out. name' \<noteq> name \<longrightarrow>
          fst (find_in_dir ops fs fuel (root_cluster fs) name' d) = Inr (hd cs, size, is_dir) \<longrightarrow>
          (let k = min (min (unat size) (length out)) (length (chain_data fs (contents d) cs)) in
           fst (read_file ops fs fuel name' out d1) = Inr (k, take k (chain_data fs (contents d) cs) @ drop k out))))"
proof -
  let ?S = "set ds \<union> set fc \<union> set (free_list fs (contents d) n 2)"
  obtain D' where D': "runs ready contents (write_file ops fs fuel name data) (contents d) (Inr ()) D'"
    "frame fs cap ?S ?S (contents d) D'"
    and look: "\<forall>name' h. name' \<noteq> name \<longrightarrow> lookup_entries name' (dir_entries fs (contents d) ds) = Inr h \<longrightarrow>
       runs ready contents (find_in_dir ops fs fuel (root_cluster fs) name') D' (Inr h) D'"
    using block_device.exec_write_file[OF dev vol block_device.ready_blocks_ok[OF dev d] fit name data room fuel] by blast
  obtain d1 where d1: "write_file ops fs fuel name data d = (Inr (), d1)" "ready d1" "contents d1 = D'"
    using runsD[OF D'(1) d refl] by blast
  have ds: "chain fs n (contents d) ds" "hd ds = root_cluster fs" and fc: "fc = [] \<or> chain fs n (contents d) fc"
    using fit by (auto simp: dir_fit_def old_file_def split: list.splits if_splits)
  have S: "\<forall>c \<in> ?S. clus n c" using ds(1) fc free_list_all_clus[OF vol] by (auto simp: chain_def)
  have found: "runs ready contents (find_in_dir ops fs fuel (root_cluster fs) name') D' (Inr h) D'"
    if "name' \<noteq> name" "fst (find_in_dir ops fs fuel (root_cluster fs) name' d) = Inr h" for name' h
    using look that unfolding find_in_root[OF dev vol d ds fuel] by blast
  have kept: "chain fs n D' cs" "chain_data fs D' cs = chain_data fs (contents d) cs"
    if "chain fs n (contents d) cs" "set cs \<inter> (set ds \<union> set fc) = {}" for cs
  proof -
    have "set cs \<inter> ?S = {}" using that chain_not_free[OF that(1) vol] by blast
    then show "chain fs n D' cs" "chain_data fs D' cs = chain_data fs (contents d) cs"
      using chain_frame[OF that(1) D'(2) vol] chain_data_frame[OF D'(2) vol _ _ S] that(1) by (auto simp: chain_def)
  qed
  have read: "fst (read_file ops fs fuel name' out d1) = Inr (k, take k (chain_data fs (contents d) cs) @ drop k out)"
    if cs: "chain fs n (contents d) cs" "set cs \<inter> (set ds \<union> set fc) = {}" and n': "name' \<noteq> name"
      and f: "fst (find_in_dir ops fs fuel (root_cluster fs) name' d) = Inr (hd cs, size, is_dir)"
      and k: "k = min (min (unat size) (length out)) (length (chain_data fs (contents d) cs))" for cs name' size is_dir out k
  proof -
    have "length cs \<le> fuel" using cs(1) chain_length_le[of cs n] fuel by (auto simp: chain_def)
    from block_device.exec_read_from[OF dev vol _ kept(1)[OF cs] this, of size out] frame_blocks_ok[OF D'(2)]
    have "runs ready contents (read_from ops fs fuel (hd cs) size out) D'
        (Inr (k, take k (chain_data fs (contents d) cs) @ drop k out)) D'"
      using kept(2)[OF cs] k by simp
    then have "runs ready contents (read_file ops fs fuel name' out) D' (Inr (k, take k (chain_data fs (contents d) cs) @ drop k out)) D'"
      unfolding read_file_def by (intro runs_bind[OF found[OF n' f]]) simp
    from runsD[OF this d1(2,3)] show ?thesis by auto
  qed
  have "fst (find_in_dir ops fs fuel (root_cluster fs) name' d1) = Inr h"
    if "name' \<noteq> name" "fst (find_in_dir ops fs fuel (root_cluster fs) name' d) = Inr h" for name' h
    using runsD[OF found[OF that] d1(2,3)] by auto
  then show ?thesis using d1 kept read by (intro exI[of _ d1]) (simp add: Let_def)
qed

text \<open>The small volume with a three-byte file in cluster 7, whose entry is the first of the root directory.\<close>

definition other_name :: "u8 list" where
  "other_name = [0x42, 0x4F, 0x4F, 0x54, 0x20, 0x20, 0x20, 0x20, 0x45, 0x46, 0x49]"

definition other_disk :: "u8 list list" where
  "other_disk = demo_disk[4 := (other_name @ [0x20] @ replicate 14 0 @ [7, 0] @ [3, 0, 0, 0]) @ replicate 480 0,
     9 := [0x61, 0x62, 0x63] @ replicate 509 0]"

lemma other_ready: "ram_ready 10 other_disk"
  by (simp add: ram_ready_def other_disk_def demo_disk_def demo_table_def other_name_def)

lemma other_fat: "clus 8 c \<Longrightarrow> fat demo_fs (ram_contents other_disk) c = fat demo_fs (ram_contents demo_disk) c"
  by (simp add: fat_val_def demo_fat_lba ram_contents_def other_disk_def demo_disk_def)

lemma other_chain: "chain demo_fs 8 (ram_contents other_disk) [2]" "chain demo_fs 8 (ram_contents other_disk) [7]"
  using demo_fat_root demo_fat_last by (simp_all add: chain_def clus_def END_OF_CHAIN_def word_le_nat_alt other_fat)

lemma other_free_list: "free_list demo_fs (ram_contents other_disk) 8 2 = [3, 4, 5, 6]"
proof -
  have up: "map of_nat [2..<8] = [2, 3, 4, 5, 6, 7 :: u32]" by (simp add: upt_rec)
  show ?thesis unfolding free_list_def up using demo_fat_root demo_fat_last
    by (simp add: other_fat clus_def demo_fat_free)
qed

lemma other_entries: "\<exists>post. dir_entries demo_fs (ram_contents other_disk) [2] =
    (4, 0, other_name @ [0x20] @ replicate 14 0 @ [7, 0] @ [3, 0, 0, 0]) # (4, 1, replicate 32 0) # post"
proof -
  have "cluster_to_lba demo_fs 2 = 4" by (simp add: cluster_to_lba_def first_data_sector_def demo_fs_def)
  moreover have "ram_contents other_disk 4 = (other_name @ [0x20] @ replicate 14 0 @ [7, 0] @ [3, 0, 0, 0]) @ replicate 480 0"
    by (simp add: ram_contents_def other_disk_def demo_disk_def)
  ultimately show ?thesis
    by (simp add: cluster_entries_def sector_entries_def chunks32_def spc_def demo_fs_def upt_conv_Cons seg_def other_name_def)
qed

lemma other_found:
  "fst (find_in_dir ram_ops demo_fs 8 2 other_name other_disk) = Inr (7, 3, False)"
proof -
  have root: "root_cluster demo_fs = 2" by (simp add: demo_fs_def)
  have "hit_of (other_name @ [0x20] @ replicate 14 0 @ [7, 0] @ [3, 0, 0, 0]) = (7, 3, False)"
    by (simp add: hit_of_def entry_cluster_def entry_size_def other_name_def seg_def ATTR_DIRECTORY_def of_le_zeros)
  moreover have "matches other_name (other_name @ [0x20] @ replicate 14 0 @ [7, 0] @ [3, 0, 0, 0])"
    by (simp add: matches_def skipped_def other_name_def)
  ultimately have "lookup_entries other_name (dir_entries demo_fs (ram_contents other_disk) [2]) = Inr (7, 3, False)"
    using other_entries by (auto simp: lookup_entries_def find_entries_Cons other_name_def simp del: find_entries.simps(2))
  then show ?thesis using find_in_root[OF demo_device demo_vol other_ready other_chain(1), of 8 other_name] root by simp
qed

lemma other_fit: "dir_fit demo_fs 8 (ram_contents other_disk) [2] demo_name []"
proof -
  have "hits demo_name (dir_entries demo_fs (ram_contents other_disk) [2]) = []"
    using other_entries by (auto simp: hits_def before_end_def matches_def demo_name_def other_name_def)
  moreover have "root_cluster demo_fs = 2" by (simp add: demo_fs_def)
  ultimately show ?thesis unfolding dir_fit_def old_file_def using other_chain(1) by simp
qed

lemma other_data: "take 3 (chain_data demo_fs (ram_contents other_disk) [7]) = [0x61, 0x62, 0x63]"
proof -
  have "cluster_to_lba demo_fs 7 = 9" by (simp add: cluster_to_lba_def first_data_sector_def demo_fs_def)
  then show ?thesis
    by (simp add: chain_data_def sectors_data_def ram_contents_def other_disk_def demo_disk_def spc_def demo_fs_def)
qed

theorem write_file_keeps_others_witness:
  "\<exists>d1. write_file ram_ops demo_fs 8 demo_name [1, 2, 3] other_disk = (Inr (), d1) \<and>
     fst (find_in_dir ram_ops demo_fs 8 2 other_name d1) = Inr (7, 3, False) \<and>
     fst (read_file ram_ops demo_fs 8 other_name [0, 0, 0, 9] d1) = Inr (3, [0x61, 0x62, 0x63, 9])"
proof -
  have root: "root_cluster demo_fs = 2" by (simp add: demo_fs_def)
  have n: "other_name \<noteq> demo_name" by (simp add: other_name_def demo_name_def)
  have room: "clusters_for demo_fs [1, 2, 3] < length (free_list demo_fs (ram_contents other_disk) 8 2)"
    by (simp add: demo_clusters_for other_free_list)
  have l: "3 \<le> length (chain_data demo_fs (ram_contents other_disk) [7])"
    using arg_cong[OF other_data, of length] by simp
  obtain d1 where d1: "write_file ram_ops demo_fs 8 demo_name [1, 2, 3] other_disk = (Inr (), d1)"
    and F: "\<forall>name' h. name' \<noteq> demo_name \<longrightarrow> fst (find_in_dir ram_ops demo_fs 8 2 name' other_disk) = Inr h \<longrightarrow>
       fst (find_in_dir ram_ops demo_fs 8 2 name' d1) = Inr h"
    and C: "\<And>cs name' size is_dir out. chain demo_fs 8 (ram_contents other_disk) cs \<Longrightarrow> set cs \<inter> (set [2] \<union> set []) = {} \<Longrightarrow>
       name' \<noteq> demo_name \<Longrightarrow> fst (find_in_dir ram_ops demo_fs 8 2 name' other_disk) = Inr (hd cs, size, is_dir) \<Longrightarrow>
       (let k = min (min (unat size) (length out)) (length (chain_data demo_fs (ram_contents other_disk) cs)) in
        fst (read_file ram_ops demo_fs 8 name' out d1) = Inr (k, take k (chain_data demo_fs (ram_contents other_disk) cs) @ drop k out))"
    using write_file_keeps_others[OF demo_device demo_vol other_ready other_fit demo_name_ok _ room, of 8] unfolding root by auto
  have "fst (read_file ram_ops demo_fs 8 other_name [0, 0, 0, 9] d1) = Inr (3, [0x61, 0x62, 0x63, 9])"
    using C[OF other_chain(2) _ n, of 3 False "[0, 0, 0, 9]"] other_found other_data l by (simp add: Let_def min_def)
  with d1 F n other_found show ?thesis by blast
qed

end
