(* ===== verification/Persist.thy ===== *)
theory Persist
  imports Variables Fat32_Properties Sd
begin

text \<open>
  \<^verbatim>\<open>src/src/persist.rs\<close>: saving the variable store to the file \<^verbatim>\<open>FERRO.VAR\<close> of the mounted
  volume and loading it back. The world holds the variable store, the cached card and filesystem
  (\<^verbatim>\<open>SD_CONTEXT\<close>) and the device; later components extend it. \<open>dev\<close> gives the block operations of
  a card and \<open>fuel\<close> bounds the cluster loops of the FAT32 code. The static buffer \<^verbatim>\<open>BUF\<close> is local
  to each call here: \<^verbatim>\<open>save\<close> writes out only bytes it has just serialised and \<^verbatim>\<open>load\<close> parses only
  bytes it has just read.
\<close>

section \<open>State and operations\<close>

definition VAR_FILE_NAME :: "u8 list" where
  "VAR_FILE_NAME = [0x46, 0x45, 0x52, 0x52, 0x4F, 0x20, 0x20, 0x20, 0x56, 0x41, 0x52]"

definition MAX_BYTES :: nat where "MAX_BYTES = 8192"

datatype persist_error = TooLarge | PersistSd sd_error | PersistFat32 fat32_error | NotOurData

record 'd persist_world =
  pw_vars :: var_store
  pw_context :: "(card \<times> fat32) option"
  pw_dev :: 'd

text \<open>A FAT32 operation of the source, with \<^verbatim>\<open>?\<close> on its error.\<close>

definition on_volume :: "('d, fat32_error, 'a) io \<Rightarrow> (('d, 'x) persist_world_scheme, persist_error, 'a) io" where
  "on_volume m w =
     (case io_map_err PersistFat32 m (pw_dev w) of (r, d) \<Rightarrow> (r, w\<lparr>pw_dev := d\<rparr>))"

definition persist_save ::
  "(card \<Rightarrow> 'd block_ops) \<Rightarrow> nat \<Rightarrow> card \<Rightarrow> fat32 \<Rightarrow> (('d, 'x) persist_world_scheme, persist_error, nat) io" where
  "persist_save dev fuel c fs w =
     (case serialize (pw_vars w) (replicate MAX_BYTES 0) of
        (None, buf) \<Rightarrow> (Inl (Err TooLarge), w)
      | (Some written, buf) \<Rightarrow>
          io_bind (on_volume (write_file (dev c) fs fuel VAR_FILE_NAME (take written buf)))
            (\<lambda>_. io_return written) w)"

definition set_context :: "card \<Rightarrow> fat32 \<Rightarrow> ('d, 'x) persist_world_scheme \<Rightarrow> ('d, 'x) persist_world_scheme" where
  "set_context c fs w = w\<lparr>pw_context := Some (c, fs)\<rparr>"

definition get_context :: "('d, 'x) persist_world_scheme \<Rightarrow> (card \<times> fat32) option" where
  "get_context w = pw_context w"

definition autosave ::
  "(card \<Rightarrow> 'd block_ops) \<Rightarrow> nat \<Rightarrow> ('d, 'x) persist_world_scheme \<Rightarrow>
   (persist_error fault + nat) option \<times> ('d, 'x) persist_world_scheme" where
  "autosave dev fuel w =
     (case pw_context w of
        None \<Rightarrow> (None, w)
      | Some (c, fs) \<Rightarrow> (case persist_save dev fuel c fs w of (r, w') \<Rightarrow> (Some r, w')))"

definition persist_load ::
  "(card \<Rightarrow> 'd block_ops) \<Rightarrow> nat \<Rightarrow> card \<Rightarrow> fat32 \<Rightarrow> (('d, 'x) persist_world_scheme, persist_error, nat) io" where
  "persist_load dev fuel c fs =
     io_bind (on_volume (read_file (dev c) fs fuel VAR_FILE_NAME (replicate MAX_BYTES 0))) (\<lambda>(n, buf) w.
       case deserialize (pw_vars w) (take n buf) of
         (None, vs) \<Rightarrow> (Inl (Err NotOurData), w\<lparr>pw_vars := vs\<rparr>)
       | (Some loaded, vs) \<Rightarrow> (Inr loaded, w\<lparr>pw_vars := vs\<rparr>))"

section \<open>Saving and loading\<close>

lemma VAR_FILE_NAME_ok: "length VAR_FILE_NAME = 11" "VAR_FILE_NAME ! 0 \<noteq> 0" "VAR_FILE_NAME ! 0 \<noteq> 0xE5"
  by (simp_all add: VAR_FILE_NAME_def)

lemma on_volume_Inr: "m (pw_dev w) = (Inr x, d) \<Longrightarrow> on_volume m w = (Inr x, w\<lparr>pw_dev := d\<rparr>)"
  by (simp add: on_volume_def io_map_err_Inr)

lemma on_volume_Err: "m (pw_dev w) = (Inl (Err e), d) \<Longrightarrow> on_volume m w = (Inl (Err (PersistFat32 e)), w\<lparr>pw_dev := d\<rparr>)"
  by (simp add: on_volume_def io_map_err_Err)

lemma serialize_too_large:
  assumes "var_inv vs" "length buf < length (store_image vs)"
  shows "fst (serialize vs buf) = None"
proof (rule ccontr)
  assume "fst (serialize vs buf) \<noteq> None"
  then obtain n buf' where "serialize vs buf = (Some n, buf')" by (cases "serialize vs buf") auto
  with serialize_SomeD[OF assms(1) this] assms(2) show False by (simp add: length_store_image)
qed

lemma persist_save_too_large:
  assumes "var_inv (pw_vars w)" "MAX_BYTES < length (store_image (pw_vars w))"
  shows "persist_save dev fuel c fs w = (Inl (Err TooLarge), w)"
  using serialize_too_large[OF assms(1), of "replicate MAX_BYTES 0"] assms(2)
  by (auto simp: persist_save_def split: prod.splits)

text \<open>The volume has the room and the directory the shape that writing the image needs.\<close>

definition save_fits ::
  "fat32 \<Rightarrow> nat \<Rightarrow> disk \<Rightarrow> var_store \<Rightarrow> bool" where
  "save_fits fs n D vs \<longleftrightarrow> (\<exists>ds fc. dir_fit fs n D ds VAR_FILE_NAME fc) \<and> length (store_image vs) \<le> MAX_BYTES \<and>
     clusters_for fs (store_image vs) < length (free_list fs D n 2)"

text \<open>What a saved volume promises: whatever the world's variables are, loading merges the saved ones.\<close>

definition holds_image ::
  "(card \<Rightarrow> 'd block_ops) \<Rightarrow> nat \<Rightarrow> card \<Rightarrow> fat32 \<Rightarrow> 'd \<Rightarrow> var_store \<Rightarrow> bool" where
  "holds_image dev fuel c fs d vs \<longleftrightarrow> (\<exists>d' rest.
     read_file (dev c) fs fuel VAR_FILE_NAME (replicate MAX_BYTES 0) d =
       (Inr (length (store_image vs), store_image vs @ rest), d'))"

lemma persist_save_image:
  assumes dev: "block_device (dev c) ready contents cap" and vol: "vol_ok fs cap n" and d: "ready (pw_dev w)"
    and vs: "var_inv (pw_vars w)" and fits: "save_fits fs n (contents (pw_dev w)) (pw_vars w)" and fuel: "n \<le> fuel"
  shows "\<exists>d'. persist_save dev fuel c fs w = (Inr (length (store_image (pw_vars w))), w\<lparr>pw_dev := d'\<rparr>) \<and>
    ready d' \<and> holds_image dev fuel c fs d' (pw_vars w)"
proof -
  let ?img = "store_image (pw_vars w)"
  obtain ds fc where fit: "dir_fit fs n (contents (pw_dev w)) ds VAR_FILE_NAME fc" and len: "length ?img \<le> MAX_BYTES"
    and room: "clusters_for fs ?img < length (free_list fs (contents (pw_dev w)) n 2)"
    using fits by (auto simp: save_fits_def)
  obtain buf where ser: "serialize (pw_vars w) (replicate MAX_BYTES 0) = (Some (length ?img), buf)" "take (length ?img) buf = ?img"
    using serialize_bytes[OF vs, of "replicate MAX_BYTES 0"] len by (auto simp: length_store_image store_image_def MAGIC_def)
  have "length ?img < 2 ^ 32" using len by (simp add: MAX_BYTES_def)
  then obtain D' where D': "runs ready contents (write_file (dev c) fs fuel VAR_FILE_NAME ?img) (contents (pw_dev w)) (Inr ()) D'"
    "\<forall>out. let k = min (length ?img) (length out) in
       runs ready contents (read_file (dev c) fs fuel VAR_FILE_NAME out) D' (Inr (k, take k ?img @ drop k out)) D'"
    using block_device.exec_write_file[OF dev vol block_device.ready_blocks_ok[OF dev d] fit VAR_FILE_NAME_ok _ room fuel] by blast
  obtain d' where d': "write_file (dev c) fs fuel VAR_FILE_NAME ?img (pw_dev w) = (Inr (), d')" "ready d'" "contents d' = D'"
    using runsD[OF D'(1) d refl] by blast
  have "\<exists>d2. read_file (dev c) fs fuel VAR_FILE_NAME (replicate MAX_BYTES 0) d' =
      (Inr (length ?img, ?img @ drop (length ?img) (replicate MAX_BYTES 0)), d2)"
    using runsD[OF D'(2)[rule_format, of "replicate MAX_BYTES 0", unfolded Let_def] d'(2,3)] len by auto
  then have "holds_image dev fuel c fs d' (pw_vars w)" unfolding holds_image_def by blast
  moreover have "persist_save dev fuel c fs w = (Inr (length ?img), w\<lparr>pw_dev := d'\<rparr>)"
    by (simp add: persist_save_def ser io_bind_def io_return_def on_volume_Inr d'(1))
  ultimately show ?thesis using d'(2) by blast
qed

lemma persist_load_image:
  assumes img: "holds_image dev fuel c fs (pw_dev w) vs" and vs: "var_inv vs" and inv: "var_inv (pw_vars w)"
    and room: "card (dom (var_map (pw_vars w))) + card (dom (var_map vs)) \<le> MAX_VARIABLES"
  shows "\<exists>w'. persist_load dev fuel c fs w = (Inr (card (dom (var_map vs))), w') \<and> var_inv (pw_vars w') \<and>
    var_map (pw_vars w') = var_map (pw_vars w) ++ var_map vs \<and> pw_context w' = pw_context w"
proof -
  obtain d' rest where rd: "read_file (dev c) fs fuel VAR_FILE_NAME (replicate MAX_BYTES 0) (pw_dev w) =
      (Inr (length (store_image vs), store_image vs @ rest), d')"
    using img by (auto simp: holds_image_def)
  obtain st' where "deserialize (pw_vars w) (store_image vs) = (Some (card (dom (var_map vs))), st')"
    "var_inv st'" "var_map st' = var_map (pw_vars w) ++ var_map vs"
    using deserialize_image[OF vs inv room, of "[]"] by auto
  then show ?thesis by (simp add: persist_load_def io_bind_def on_volume_Inr rd)
qed

end
