(* ===== verification/Runtime_Services.thy ===== *)
theory Runtime_Services
  imports Persist Pm
begin

text \<open>
  \<^verbatim>\<open>src/src/efi/runtime_services.rs\<close>: the variable services with their null checks and status
  codes, the monotonic counter, and the calls the platform has no hardware for. A pointer argument
  is an option: \<open>None\<close> is null, \<open>Some\<close> carries what it points at, and the results list what the call
  leaves there. A data pointer carries the bytes from its address on; the slice the code takes is
  the prefix of the given size.
\<close>

section \<open>State and operations\<close>

definition EFI_VARIABLE_NON_VOLATILE :: u32 where "EFI_VARIABLE_NON_VOLATILE = 1"

record 'd rt_world = "'d persist_world" +
  rt_high_count :: u32

definition get_time :: efi_status where "get_time = EFI_UNSUPPORTED"
definition set_time :: efi_status where "set_time = EFI_UNSUPPORTED"
definition get_wakeup_time :: efi_status where "get_wakeup_time = EFI_UNSUPPORTED"
definition set_wakeup_time :: efi_status where "set_wakeup_time = EFI_UNSUPPORTED"
definition set_virtual_address_map :: efi_status where "set_virtual_address_map = EFI_SUCCESS"
definition convert_pointer :: efi_status where "convert_pointer = EFI_SUCCESS"

text \<open>Status and the pointees of \<^verbatim>\<open>attributes\<close>, \<^verbatim>\<open>data_size\<close> and \<^verbatim>\<open>data\<close> after the call.\<close>

definition get_variable ::
  "var_store \<Rightarrow> char16_ptr option \<Rightarrow> efi_guid option \<Rightarrow> u32 option \<Rightarrow> nat option \<Rightarrow> u8 list option \<Rightarrow>
   efi_status \<times> u32 option \<times> nat option \<times> u8 list option" where
  "get_variable vs variable_name guid_ptr attributes data_size data =
     (if variable_name = None \<or> guid_ptr = None \<or> data_size = None
      then (EFI_INVALID_PARAMETER, attributes, data_size, data)
      else
        (let capacity = the data_size;
             buf = (case data of None \<Rightarrow> [] | Some b \<Rightarrow> take capacity b)
         in case var_get vs (the variable_name) (the guid_ptr) buf of
              (Inr (attrs, len), buf') \<Rightarrow>
                (EFI_SUCCESS, map_option (\<lambda>_. attrs) attributes, Some len,
                 map_option (\<lambda>b. buf' @ drop capacity b) data)
            | (Inl VarNotFound, _) \<Rightarrow> (EFI_NOT_FOUND, attributes, data_size, data)
            | (Inl VarInvalidParameter, _) \<Rightarrow> (EFI_INVALID_PARAMETER, attributes, data_size, data)
            | (Inl (VarBufferTooSmall needed), _) \<Rightarrow> (EFI_BUFFER_TOO_SMALL, attributes, Some needed, data)
            | (Inl VarOutOfResources, _) \<Rightarrow> (EFI_OUT_OF_RESOURCES, attributes, data_size, data)))"

text \<open>The call of \<^verbatim>\<open>autosave\<close>: an error is dropped, a panic or an unfinished loop is not.\<close>

definition autosave_ignored ::
  "(card \<Rightarrow> 'd block_ops) \<Rightarrow> nat \<Rightarrow> (('d, 'x) persist_world_scheme, unit, unit) io" where
  "autosave_ignored dev fuel w =
     (case autosave dev fuel w of
        (Some (Inl Panic), w') \<Rightarrow> (Inl Panic, w')
      | (Some (Inl OutOfFuel), w') \<Rightarrow> (Inl OutOfFuel, w')
      | (_, w') \<Rightarrow> (Inr (), w'))"

definition set_variable ::
  "(card \<Rightarrow> 'd block_ops) \<Rightarrow> nat \<Rightarrow> char16_ptr option \<Rightarrow> efi_guid option \<Rightarrow> u32 \<Rightarrow> nat \<Rightarrow> u8 list option \<Rightarrow>
   (('d, 'x) persist_world_scheme, unit, efi_status) io" where
  "set_variable dev fuel variable_name guid_ptr attributes data_size data w =
     (if variable_name = None \<or> guid_ptr = None then (Inr EFI_INVALID_PARAMETER, w)
      else if data_size > 0 \<and> data = None then (Inr EFI_INVALID_PARAMETER, w)
      else
        (let buf = (if data_size = 0 then [] else take data_size (the data)) in
         case var_set (pw_vars w) (the variable_name) (the guid_ptr) attributes buf of
           (Inr _, vs) \<Rightarrow>
             (if attributes AND EFI_VARIABLE_NON_VOLATILE \<noteq> 0
              then io_bind (autosave_ignored dev fuel) (\<lambda>_. io_return EFI_SUCCESS) (w\<lparr>pw_vars := vs\<rparr>)
              else (Inr EFI_SUCCESS, w\<lparr>pw_vars := vs\<rparr>))
         | (Inl VarNotFound, vs) \<Rightarrow> (Inr EFI_NOT_FOUND, w\<lparr>pw_vars := vs\<rparr>)
         | (Inl VarInvalidParameter, vs) \<Rightarrow> (Inr EFI_INVALID_PARAMETER, w\<lparr>pw_vars := vs\<rparr>)
         | (Inl VarOutOfResources, vs) \<Rightarrow> (Inr EFI_OUT_OF_RESOURCES, w\<lparr>pw_vars := vs\<rparr>)
         | (Inl (VarBufferTooSmall _), vs) \<Rightarrow> (Inr EFI_INVALID_PARAMETER, w\<lparr>pw_vars := vs\<rparr>)))"

text \<open>
  The name pointer is both the previous name and the buffer for the next one; the memory behind it
  is a function, of which the first \<open>capacity_units\<close> units are the output slice.
\<close>

definition get_next_variable_name ::
  "var_store \<Rightarrow> nat option \<Rightarrow> char16_ptr option \<Rightarrow> efi_guid option \<Rightarrow>
   efi_status \<times> nat option \<times> char16_ptr option \<times> efi_guid option" where
  "get_next_variable_name vs variable_name_size variable_name guid_ptr =
     (if variable_name_size = None \<or> variable_name = None \<or> guid_ptr = None
      then (EFI_INVALID_PARAMETER, variable_name_size, variable_name, guid_ptr)
      else
        (let capacity_units = the variable_name_size div 2;
             mem = the variable_name;
             out = map mem [0..<capacity_units]
         in case var_get_next vs mem (the guid_ptr) out of
              (Inr (units, next_guid), out') \<Rightarrow>
                (EFI_SUCCESS, Some (units * 2),
                 Some (\<lambda>i. if i < capacity_units then out' ! i else mem i), Some next_guid)
            | (Inl VarNotFound, _) \<Rightarrow> (EFI_NOT_FOUND, variable_name_size, variable_name, guid_ptr)
            | (Inl VarInvalidParameter, _) \<Rightarrow> (EFI_INVALID_PARAMETER, variable_name_size, variable_name, guid_ptr)
            | (Inl (VarBufferTooSmall needed), _) \<Rightarrow>
                (EFI_BUFFER_TOO_SMALL, Some (needed * 2), variable_name, guid_ptr)
            | (Inl VarOutOfResources, _) \<Rightarrow> (EFI_OUT_OF_RESOURCES, variable_name_size, variable_name, guid_ptr)))"

definition get_next_high_monotonic_count ::
  "u32 option \<Rightarrow> 'd rt_world \<Rightarrow> efi_status \<times> u32 option \<times> 'd rt_world" where
  "get_next_high_monotonic_count high_count w =
     (if high_count = None then (EFI_INVALID_PARAMETER, high_count, w)
      else (EFI_SUCCESS, Some (rt_high_count w), w\<lparr>rt_high_count := rt_high_count w + 1\<rparr>))"

text \<open>The registers as they are when \<^verbatim>\<open>reset\<close> starts to wait for the watchdog.\<close>

definition reset_system :: "'h sd_host \<Rightarrow> 'h \<Rightarrow> 'h" where
  "reset_system host h = pm_reset host h"

definition query_variable_info ::
  "var_store \<Rightarrow> u64 option \<Rightarrow> u64 option \<Rightarrow> u64 option \<Rightarrow> efi_status \<times> u64 option \<times> u64 option \<times> u64 option" where
  "query_variable_info vs max_storage remaining_storage max_variable_size =
     (case storage_info vs of (total_bytes, remaining, max_single) \<Rightarrow>
        (EFI_SUCCESS, map_option (\<lambda>_. total_bytes) max_storage,
         map_option (\<lambda>_. remaining) remaining_storage, map_option (\<lambda>_. max_single) max_variable_size))"

section \<open>The variable services\<close>

text \<open>The status code of each outcome of the store.\<close>

definition set_status :: "var_error + unit \<Rightarrow> efi_status" where
  "set_status r =
     (case r of
        Inr _ \<Rightarrow> EFI_SUCCESS
      | Inl VarNotFound \<Rightarrow> EFI_NOT_FOUND
      | Inl VarOutOfResources \<Rightarrow> EFI_OUT_OF_RESOURCES
      | Inl _ \<Rightarrow> EFI_INVALID_PARAMETER)"

lemma set_variable_unfold:
  assumes "data_size \<le> length data"
  shows "set_variable dev fuel (Some p) (Some g) a data_size (Some data) w =
    (case var_set (pw_vars w) p g a (take data_size data) of
       (Inr _, vs) \<Rightarrow>
         (if a AND EFI_VARIABLE_NON_VOLATILE \<noteq> 0
          then io_bind (autosave_ignored dev fuel) (\<lambda>_. io_return EFI_SUCCESS) (w\<lparr>pw_vars := vs\<rparr>)
          else (Inr EFI_SUCCESS, w\<lparr>pw_vars := vs\<rparr>))
     | (Inl e, vs) \<Rightarrow> (Inr (set_status (Inl e)), w\<lparr>pw_vars := vs\<rparr>))"
  by (cases "data_size = 0")
    (simp_all add: set_variable_def set_status_def Let_def split: prod.splits sum.splits var_error.splits)

text \<open>
  C9: GetVariable reads the abstract map from (name, GUID) to (attributes, data): it answers with
  the binding and copies exactly its data into the caller's buffer, reports the size needed and
  leaves the buffer alone when it is too small (or null, the usual way to ask for the size), and
  answers NotFound for an unbound key and InvalidParameter for a name without terminator.
\<close>

theorem get_variable_refines:
  assumes inv: "var_inv vs" and cap: "capacity \<le> length b"
  shows "get_variable vs (Some p) (Some g) at (Some capacity) (Some b) =
     (case name_at p of
        None \<Rightarrow> (EFI_INVALID_PARAMETER, at, Some capacity, Some b)
      | Some nm \<Rightarrow>
          (case var_map vs (nm, g) of
             None \<Rightarrow> (EFI_NOT_FOUND, at, Some capacity, Some b)
           | Some (a, d) \<Rightarrow>
               if capacity < length d then (EFI_BUFFER_TOO_SMALL, at, Some (length d), Some b)
               else (EFI_SUCCESS, map_option (\<lambda>_. a) at, Some (length d), Some (d @ drop (length d) b)))) \<and>
     (\<forall>nm a d. name_at p = Some nm \<longrightarrow> var_map vs (nm, g) = Some (a, d) \<longrightarrow>
        get_variable vs (Some p) (Some g) at (Some capacity) None = (EFI_BUFFER_TOO_SMALL, at, Some (length d), None))"
proof
  have shift: "drop (length d) (take capacity b) @ drop capacity b = drop (length d) b" if "length d \<le> capacity" for d :: "u8 list"
    using that cap by (metis append_take_drop_id drop_take drop_drop le_add_diff_inverse2)
  show "get_variable vs (Some p) (Some g) at (Some capacity) (Some b) =
     (case name_at p of
        None \<Rightarrow> (EFI_INVALID_PARAMETER, at, Some capacity, Some b)
      | Some nm \<Rightarrow>
          (case var_map vs (nm, g) of
             None \<Rightarrow> (EFI_NOT_FOUND, at, Some capacity, Some b)
           | Some (a, d) \<Rightarrow>
               if capacity < length d then (EFI_BUFFER_TOO_SMALL, at, Some (length d), Some b)
               else (EFI_SUCCESS, map_option (\<lambda>_. a) at, Some (length d), Some (d @ drop (length d) b))))"
    using cap by (auto simp: get_variable_def Let_def var_get_refines[OF inv] shift not_less split: option.splits)
  show "\<forall>nm a d. name_at p = Some nm \<longrightarrow> var_map vs (nm, g) = Some (a, d) \<longrightarrow>
      get_variable vs (Some p) (Some g) at (Some capacity) None = (EFI_BUFFER_TOO_SMALL, at, Some (length d), None)"
    using var_map_nonempty[OF inv] by (auto simp: get_variable_def var_get_refines[OF inv])
qed

text \<open>
  C8: SetVariable updates that map and nothing else while no card is mounted or the variable is
  volatile: non-empty data binds the key, empty data removes it, and the call fails with the status
  of the reason, changing nothing, exactly when the name has no terminator within 32 units, the data
  exceed 512 bytes, a deleted variable does not exist, or a new variable meets a full store. The
  store's invariant is kept and the device is not touched.
\<close>

theorem set_variable_refines:
  assumes inv: "var_inv (pw_vars w)" and g: "guid_ok g" and size: "data_size \<le> length data"
    and no_save: "pw_context w = None \<or> a AND EFI_VARIABLE_NON_VOLATILE = 0"
  shows "\<exists>r vs. set_variable dev fuel (Some p) (Some g) a data_size (Some data) w = (Inr (set_status r), w\<lparr>pw_vars := vs\<rparr>) \<and>
     var_inv vs \<and> (r, var_map vs) =
       set_spec (card (live v_in_use (pw_vars w))) (var_map (pw_vars w)) (name_at p) g a (take data_size data)"
proof -
  obtain r vs where r: "var_set (pw_vars w) p g a (take data_size data) = (r, vs)" by fastforce
  have "set_variable dev fuel (Some p) (Some g) a data_size (Some data) w = (Inr (set_status r), w\<lparr>pw_vars := vs\<rparr>)"
    using no_save by (cases r)
      (auto simp: set_variable_unfold[OF size] r set_status_def io_bind_def io_return_def autosave_ignored_def autosave_def)
  with r var_set_refines[OF inv g, of p a "take data_size data"] show ?thesis by (auto split: prod.splits)
qed

definition demo_rt :: "u8 list list persist_world" where
  "demo_rt = \<lparr>pw_vars = VARS_INIT, pw_context = None, pw_dev = []\<rparr>"

lemma demo_name_at: "name_at (name_nt [0x41]) = Some [0x41]"
  by (simp add: name_at_name_nt name_ok_def MAX_NAME_UNITS_def)

lemma card_live_init: "card (live v_in_use VARS_INIT) = 0"
  by (simp add: VARS_INIT_def var_slots.all_free_replicate)

theorem get_variable_refines_witness:
  "get_variable (snd (var_set VARS_INIT (name_nt [0x41]) zero_guid 7 [1, 2])) (Some (name_nt [0x41])) (Some zero_guid)
     (Some 0) (Some 3) (Some [0, 0, 9]) = (EFI_SUCCESS, Some 7, Some 2, Some [1, 2, 9])"
  using get_variable_refines[OF demo_store(1), of 3 "[0, 0, 9]" "name_nt [0x41]" zero_guid "Some 0"]
  by (simp add: demo_name_at demo_store(2))

theorem set_variable_refines_witness:
  "\<exists>w. set_variable (\<lambda>_. ram_ops) 0 (Some (name_nt [0x41])) (Some zero_guid) 7 2 (Some [1, 2]) demo_rt = (Inr EFI_SUCCESS, w) \<and>
     var_map (pw_vars w) ([0x41], zero_guid) = Some (7, [1, 2])"
proof -
  have d: "var_inv (pw_vars demo_rt)" "pw_context demo_rt = None" "pw_vars demo_rt = VARS_INIT"
    by (simp_all add: demo_rt_def var_inv_init)
  obtain r vs where "set_variable (\<lambda>_. ram_ops) 0 (Some (name_nt [0x41])) (Some zero_guid) 7 2 (Some [1, 2]) demo_rt =
      (Inr (set_status r), demo_rt\<lparr>pw_vars := vs\<rparr>)"
    "(r, var_map vs) = set_spec 0 Map.empty (Some [0x41]) zero_guid 7 [1, 2]"
    using set_variable_refines[OF d(1) guid_ok_zero, of 2 "[1, 2]" 7 "\<lambda>_. ram_ops" 0 "name_nt [0x41]"] d
    by (auto simp: demo_name_at card_live_init var_map_init)
  then show ?thesis by (auto simp: set_spec_def MAX_DATA_LEN_def MAX_VARIABLES_def set_status_def)
qed

section \<open>Non-volatile variables\<close>

lemma autosave_image:
  assumes dev: "block_device (dev c) ready contents cap" and vol: "vol_ok fs cap n" and d: "ready (pw_dev w)"
    and ctx: "pw_context w = Some (c, fs)" and vs: "var_inv (pw_vars w)"
    and fits: "save_fits fs n (contents (pw_dev w)) (pw_vars w)" and fuel: "n \<le> fuel"
  shows "\<exists>d'. autosave_ignored dev fuel w = (Inr (), w\<lparr>pw_dev := d'\<rparr>) \<and> ready d' \<and> holds_image dev fuel c fs d' (pw_vars w)"
  using persist_save_image[where dev = dev and c = c and w = w, OF dev vol d vs fits fuel] ctx
  by (auto simp: autosave_ignored_def autosave_def)

text \<open>The world after a power cycle: the statics are fresh, the card keeps its contents.\<close>

definition power_cycle :: "('d, 'x) persist_world_scheme \<Rightarrow> ('d, 'x) persist_world_scheme" where
  "power_cycle w = w\<lparr>pw_vars := VARS_INIT, pw_context := None\<rparr>"

lemma load_after_power_cycle:
  assumes "holds_image dev fuel c fs (pw_dev w) vs" "var_inv vs"
  shows "\<exists>w'. persist_load dev fuel c fs (power_cycle w) = (Inr (card (dom (var_map vs))), w') \<and>
    var_inv (pw_vars w') \<and> var_map (pw_vars w') = var_map vs"
proof -
  have "card (dom (var_map vs)) \<le> MAX_VARIABLES"
    using live_count[OF assms(2)] length_filter_le[of v_in_use vs] var_inv_length[OF assms(2)] by simp
  then show ?thesis
    using persist_load_image[of dev fuel c fs "power_cycle w" vs] assms
    by (auto simp: power_cycle_def var_inv_init var_map_init)
qed

text \<open>
  C3: a non-volatile variable survives a power cycle: with a card mounted, a successful SetVariable
  with the NON_VOLATILE attribute writes the whole store to the card, and after a reset loading
  FERRO.VAR from that card gives back exactly the variables there were, the new one included. The
  volume must have room for the image, which must fit the 8192 byte buffer.
\<close>

theorem nonvolatile_variable_survives:
  assumes dev: "block_device (dev c) ready contents cap" and vol: "vol_ok fs cap n" and d: "ready (pw_dev w)"
    and ctx: "pw_context w = Some (c, fs)" and inv: "var_inv (pw_vars w)" and g: "guid_ok g"
    and nv: "a AND EFI_VARIABLE_NON_VOLATILE \<noteq> 0" and name: "name_at p = Some nm"
    and data: "data \<noteq> []" "length data \<le> MAX_DATA_LEN"
    and slot: "var_map (pw_vars w) (nm, g) \<noteq> None \<or> card (live v_in_use (pw_vars w)) < MAX_VARIABLES"
    and fits: "save_fits fs n (contents (pw_dev w)) (snd (var_set (pw_vars w) p g a data))" and fuel: "n \<le> fuel"
  shows "\<exists>w1 k w2. set_variable dev fuel (Some p) (Some g) a (length data) (Some data) w = (Inr EFI_SUCCESS, w1) \<and>
    persist_load dev fuel c fs (power_cycle w1) = (Inr k, w2) \<and>
    var_map (pw_vars w2) = (var_map (pw_vars w))((nm, g) \<mapsto> (a, data))"
proof -
  obtain vs where vs: "var_set (pw_vars w) p g a data = (Inr (), vs)" "var_inv vs"
    "var_map vs = (var_map (pw_vars w))((nm, g) \<mapsto> (a, data))"
    using var_set_refines[OF inv g, of p a data] data slot by (auto simp: set_spec_def name split: prod.splits if_splits)
  obtain d' where d': "autosave_ignored dev fuel (w\<lparr>pw_vars := vs\<rparr>) = (Inr (), w\<lparr>pw_vars := vs, pw_dev := d'\<rparr>)"
    "holds_image dev fuel c fs d' vs"
    using autosave_image[where dev = dev and c = c and w = "w\<lparr>pw_vars := vs\<rparr>", OF dev vol] d ctx vs fits fuel by auto
  have "set_variable dev fuel (Some p) (Some g) a (length data) (Some data) w = (Inr EFI_SUCCESS, w\<lparr>pw_vars := vs, pw_dev := d'\<rparr>)"
    using nv by (simp add: set_variable_unfold vs(1) io_bind_def io_return_def d'(1))
  with load_after_power_cycle[of dev fuel c fs "w\<lparr>pw_vars := vs, pw_dev := d'\<rparr>" vs] d'(2) vs show ?thesis by auto
qed

text \<open>The small volume of \<open>Fat32_Properties\<close> with the variable A already in the store.\<close>

abbreviation demo_store_A :: var_store where
  "demo_store_A \<equiv> snd (var_set VARS_INIT (name_nt [0x41]) zero_guid 7 [1, 2])"

definition demo_card :: card where "demo_card = \<lparr>rca = 0, block_addressed = True\<rparr>"

definition demo_mounted :: "var_store \<Rightarrow> u8 list list \<Rightarrow> u8 list list persist_world" where
  "demo_mounted vs d = \<lparr>pw_vars = vs, pw_context = Some (demo_card, demo_fs), pw_dev = d\<rparr>"

lemma demo_save_fits: "save_fits demo_fs 8 (ram_contents demo_disk) demo_store_A"
proof -
  have "VAR_FILE_NAME = demo_name" by (simp add: VAR_FILE_NAME_def demo_name_def)
  moreover have "length (store_image demo_store_A) = 38"
    using length_store_bytes_single[OF demo_store(1,2)] by (simp add: length_store_image)
  ultimately show ?thesis
    using demo_fit by (auto simp: save_fits_def MAX_BYTES_def clusters_for_def cluster_size_bytes_def demo_fs_def
        demo_free_list[unfolded demo_fs_def])
qed

theorem nonvolatile_variable_survives_witness:
  "\<exists>w1 k w2. set_variable (\<lambda>_. ram_ops) 8 (Some (name_nt [0x41])) (Some zero_guid) 7 2 (Some [1, 2])
       (demo_mounted VARS_INIT demo_disk) = (Inr EFI_SUCCESS, w1) \<and>
     persist_load (\<lambda>_. ram_ops) 8 demo_card demo_fs (power_cycle w1) = (Inr k, w2) \<and>
     var_map (pw_vars w2) = [([0x41], zero_guid) \<mapsto> (7, [1, 2])]"
  using nonvolatile_variable_survives[where dev = "\<lambda>_. ram_ops" and c = demo_card and w = "demo_mounted VARS_INIT demo_disk",
      OF demo_device demo_vol, of zero_guid 7 "name_nt [0x41]" "[0x41]" "[1, 2]" 8]
  by (simp add: demo_mounted_def demo_ready var_inv_init demo_name_at guid_ok_zero EFI_VARIABLE_NON_VOLATILE_def
      MAX_DATA_LEN_def card_live_init MAX_VARIABLES_def demo_save_fits var_map_init numeral_2_eq_2)

text \<open>
  Deleting a variable the usual way, with no data and attributes without NON_VOLATILE, removes it
  from the store but does not save, so a variable that is on the card comes back after a power cycle.
\<close>

theorem deleted_variable_comes_back:
  assumes img: "holds_image dev fuel c fs (pw_dev w) (pw_vars w)" and inv: "var_inv (pw_vars w)" and g: "guid_ok g"
    and name: "name_at p = Some nm" and live: "var_map (pw_vars w) (nm, g) = Some x"
    and vol: "a AND EFI_VARIABLE_NON_VOLATILE = 0"
  shows "\<exists>w1 k w2. set_variable dev fuel (Some p) (Some g) a 0 None w = (Inr EFI_SUCCESS, w1) \<and>
    var_map (pw_vars w1) (nm, g) = None \<and>
    persist_load dev fuel c fs (power_cycle w1) = (Inr k, w2) \<and> var_map (pw_vars w2) (nm, g) = Some x"
proof -
  obtain vs where vs: "var_set (pw_vars w) p g a [] = (Inr (), vs)" "var_map vs (nm, g) = None"
    using var_set_refines[OF inv g, of p a "[]"] live by (auto simp: set_spec_def name split: prod.splits)
  have "set_variable dev fuel (Some p) (Some g) a 0 None w = (Inr EFI_SUCCESS, w\<lparr>pw_vars := vs\<rparr>)"
    using vol by (simp add: set_variable_def vs(1))
  with load_after_power_cycle[of dev fuel c fs "w\<lparr>pw_vars := vs\<rparr>" "pw_vars w"] img inv vs(2) live show ?thesis by auto
qed

lemma demo_saved: "\<exists>d. holds_image (\<lambda>_. ram_ops) 8 demo_card demo_fs d demo_store_A"
  using persist_save_image[where dev = "\<lambda>_. ram_ops" and c = demo_card and w = "demo_mounted demo_store_A demo_disk",
      OF demo_device demo_vol, of 8]
  by (auto simp: demo_mounted_def demo_ready demo_store(1) demo_save_fits)

theorem deleted_variable_comes_back_witness:
  "\<exists>d w1 k w2. set_variable (\<lambda>_. ram_ops) 8 (Some (name_nt [0x41])) (Some zero_guid) 0 0 None
       (demo_mounted demo_store_A d) = (Inr EFI_SUCCESS, w1) \<and> var_map (pw_vars w1) ([0x41], zero_guid) = None \<and>
     persist_load (\<lambda>_. ram_ops) 8 demo_card demo_fs (power_cycle w1) = (Inr k, w2) \<and>
     var_map (pw_vars w2) ([0x41], zero_guid) = Some (7, [1, 2])"
proof -
  obtain d where "holds_image (\<lambda>_. ram_ops) 8 demo_card demo_fs d demo_store_A" using demo_saved by blast
  then show ?thesis
    using deleted_variable_comes_back[where dev = "\<lambda>_. ram_ops" and w = "demo_mounted demo_store_A d",
        of 8 demo_card demo_fs zero_guid "name_nt [0x41]" "[0x41]" "(7, [1, 2])" 0]
    by (simp add: demo_mounted_def demo_store guid_ok_zero demo_name_at) blast
qed

text \<open>
  A store whose image exceeds the 8192 byte buffer is never written: SetVariable with the
  NON_VOLATILE attribute still answers Success, and the card is left as it was.
\<close>

theorem oversized_store_not_saved:
  assumes inv: "var_inv (pw_vars w)" and set: "var_set (pw_vars w) p g a data = (Inr (), vs)" "guid_ok g"
    and big: "MAX_BYTES < length (store_image vs)"
  shows "set_variable dev fuel (Some p) (Some g) a (length data) (Some data) w = (Inr EFI_SUCCESS, w\<lparr>pw_vars := vs\<rparr>)"
proof -
  have "var_inv vs" using var_set_refines[OF inv set(2), of p a data] set(1) by simp
  then have "persist_save dev fuel c fs (w\<lparr>pw_vars := vs\<rparr>) = (Inl (Err TooLarge), w\<lparr>pw_vars := vs\<rparr>)" for c fs
    using persist_save_too_large[of "w\<lparr>pw_vars := vs\<rparr>"] big by simp
  then have "autosave_ignored dev fuel (w\<lparr>pw_vars := vs\<rparr>) = (Inr (), w\<lparr>pw_vars := vs\<rparr>)"
    by (auto simp: autosave_ignored_def autosave_def split: option.splits)
  then show ?thesis by (simp add: set_variable_unfold set(1) io_bind_def io_return_def)
qed

text \<open>A full store: 32 variables with one-unit names and 512 bytes each.\<close>

definition full_var :: "nat \<Rightarrow> variable" where
  "full_var i = \<lparr>v_in_use = True, v_name = of_nat (i + 1) # replicate 31 0, v_name_len = 1, v_guid = zero_guid,
     v_attributes = 7, v_data = replicate 512 0, v_data_len = 512\<rparr>"

definition full_store :: var_store where
  "full_store = map full_var [0..<32]"

lemma full_var_name:
  assumes "i < 32" "j < 32"
  shows "(of_nat (i + 1) :: u16) = of_nat (j + 1) \<longleftrightarrow> i = j" "(of_nat (i + 1) :: u16) \<noteq> 0"
proof -
  have u: "unat (of_nat (k + 1) :: u16) = k + 1" if "k < 32" for k
    using that by (simp only: unat_of_nat) simp
  from u[OF assms(1)] u[OF assms(2)] show "(of_nat (i + 1) :: u16) = of_nat (j + 1) \<longleftrightarrow> i = j" by (metis add_right_cancel)
  from u[OF assms(1)] show "(of_nat (i + 1) :: u16) \<noteq> 0" by (metis add_is_0 one_neq_zero unsigned_0)
qed

lemma full_store_inv: "var_inv full_store"
proof -
  have "var_ok (full_var i)" if "i < 32" for i
    using full_var_name(2)[OF that that] by (auto simp: var_ok_def full_var_def MAX_NAME_UNITS_def MAX_DATA_LEN_def guid_ok_zero name_ok_def var_key_def
        simp del: of_nat_add)
  moreover have "var_key (full_var i) = var_key (full_var j) \<Longrightarrow> i = j" if "i < 32" "j < 32" for i j
    using full_var_name(1)[OF that] by (simp add: var_key_def full_var_def del: of_nat_add of_nat_Suc)
  ultimately show ?thesis by (auto simp: var_inv_def full_store_def MAX_VARIABLES_def)
qed

lemma full_store_image: "MAX_BYTES < length (store_image full_store)"
proof -
  have ok: "var_ok v" if "v \<in> set full_store" for v using var_inv_ok[OF full_store_inv that] .
  have "filter v_in_use full_store = full_store" by (simp add: full_store_def filter_map full_var_def comp_def)
  then have "length (store_bytes full_store) = sum_list (map entry_len full_store)"
    using ok by (simp add: store_bytes_def length_concat comp_def length_entry_bytes cong: map_cong)
  also have "\<dots> = 32 * 540" by (simp add: full_store_def full_var_def entry_len_def comp_def sum_list_triv)
  finally show ?thesis by (simp add: length_store_image MAX_BYTES_def)
qed

lemma full_store_set: "var_set full_store (name_nt [1]) zero_guid 7 (replicate 512 0) = (Inr (), full_store)"
proof -
  have split: "full_store = full_var 0 # map full_var [1..<32]"
    by (simp add: full_store_def upt_conv_Cons[of 0])
  have rn: "read_name (name_nt [1]) MAX_NAME_UNITS = Some (1 # replicate 31 0, 1)"
    by (simp add: read_name_def read_name_loop.simps name_nt_def MAX_NAME_UNITS_def) (simp add: eval_nat_numeral)
  have "position (var_matches zero_guid (1 # replicate 31 0) 1) full_store = Some 0"
    by (simp add: split var_matches_def full_var_def names_eq_def)
  moreover have "(full_var 0)\<lparr>v_attributes := 7, v_data := put_seg (v_data (full_var 0)) 0 (replicate 512 0), v_data_len := 512\<rparr> = full_var 0"
    by (simp add: full_var_def put_seg_def)
  ultimately show ?thesis by (simp add: var_set_def rn MAX_DATA_LEN_def) (simp add: split)
qed

theorem oversized_store_not_saved_witness:
  "set_variable (\<lambda>_. ram_ops) 8 (Some (name_nt [1])) (Some zero_guid) 7 512 (Some (replicate 512 0))
     (demo_mounted full_store demo_disk) = (Inr EFI_SUCCESS, demo_mounted full_store demo_disk)"
  using oversized_store_not_saved[where w = "demo_mounted full_store demo_disk" and dev = "\<lambda>_. ram_ops" and fuel = 8 and vs = full_store,
      of "name_nt [1]" zero_guid 7 "replicate 512 0"]
  by (simp add: demo_mounted_def full_store_inv full_store_set guid_ok_zero full_store_image)

end
