(* ===== verification/Settings.thy ===== *)
theory Settings
  imports Runtime_Services
begin

text \<open>
  \<^verbatim>\<open>src/src/settings.rs\<close>: the setup settings, a cache of three variables of the variable store under
  Ferro's own vendor GUID. The world extends the one of \<open>Persist\<close> by the static \<^verbatim>\<open>SETTINGS\<close>.
\<close>

section \<open>State\<close>

definition FERRO_SETTINGS_GUID :: efi_guid where
  "FERRO_SETTINGS_GUID = \<lparr>data1 = 0x46455252, data2 = 0x4F00, data3 = 0x0001,
     data4 = [0x66, 0x65, 0x72, 0x72, 0x6F, 0x2D, 0x73, 0x75]\<rparr>"

definition SETTINGS_ATTR :: u32 where "SETTINGS_ATTR = 7"

datatype theme = Amber | Cyan | Green

fun accent :: "theme \<Rightarrow> u32" where
  "accent Amber = 0x00FFA030"
| "accent Cyan = 0x0030C8FF"
| "accent Green = 0x0050E060"

fun select_bg :: "theme \<Rightarrow> u32" where
  "select_bg Amber = 0x002A3A4A"
| "select_bg Cyan = 0x00163A44"
| "select_bg Green = 0x00163A22"

fun theme_name :: "theme \<Rightarrow> string" where
  "theme_name Amber = ''AMBER''"
| "theme_name Cyan = ''CYAN''"
| "theme_name Green = ''GREEN''"

fun theme_next :: "theme \<Rightarrow> theme" where
  "theme_next Amber = Cyan"
| "theme_next Cyan = Green"
| "theme_next Green = Amber"

definition from_byte :: "u8 \<Rightarrow> theme" where
  "from_byte b = (if b = 1 then Cyan else if b = 2 then Green else Amber)"

fun to_byte :: "theme \<Rightarrow> u8" where
  "to_byte Amber = 0"
| "to_byte Cyan = 1"
| "to_byte Green = 2"

record settings =
  verbose_boot :: bool
  theme :: theme
  usb_enabled :: bool

definition default_settings :: settings where
  "default_settings = \<lparr>verbose_boot = True, theme = Amber, usb_enabled = True\<rparr>"

record 'd settings_world = "'d persist_world" +
  sw_settings :: settings

section \<open>Operations\<close>

text \<open>The pointer to a 20-unit buffer with the characters and a terminator; a longer name panics.\<close>

definition char_units :: "string \<Rightarrow> u16 list" where
  "char_units s = map (\<lambda>c. of_nat (of_char c)) s"

definition name_units :: "string \<Rightarrow> char16_ptr checked" where
  "name_units s = (if length s \<ge> 20 then Inl Panic else Inr (name_nt (char_units s)))"

definition get_byte :: "var_store \<Rightarrow> string \<Rightarrow> u8 \<Rightarrow> u8 checked" where
  "get_byte vs name dflt =
     (case name_units name of
        Inl e \<Rightarrow> Inl e
      | Inr ptr \<Rightarrow>
          (case var_get vs ptr FERRO_SETTINGS_GUID [0] of
             (Inr (_, len), data) \<Rightarrow> Inr (if len = 1 then data ! 0 else dflt)
           | (Inl _, _) \<Rightarrow> Inr dflt))"

definition get_bool :: "var_store \<Rightarrow> string \<Rightarrow> bool \<Rightarrow> bool checked" where
  "get_bool vs name dflt =
     (case name_units name of
        Inl e \<Rightarrow> Inl e
      | Inr ptr \<Rightarrow>
          (case var_get vs ptr FERRO_SETTINGS_GUID [0] of
             (Inr (_, len), data) \<Rightarrow> Inr (if len = 1 then data ! 0 \<noteq> 0 else dflt)
           | (Inl _, _) \<Rightarrow> Inr dflt))"

definition set_byte ::
  "(card \<Rightarrow> 'd block_ops) \<Rightarrow> nat \<Rightarrow> string \<Rightarrow> u8 \<Rightarrow> (('d, 'x) persist_world_scheme, unit, unit) io" where
  "set_byte dev fuel name value w =
     (case name_units name of
        Inl e \<Rightarrow> (Inl e, w)
      | Inr ptr \<Rightarrow>
          autosave_ignored dev fuel
            (w\<lparr>pw_vars := snd (var_set (pw_vars w) ptr FERRO_SETTINGS_GUID SETTINGS_ATTR [value])\<rparr>))"

definition set_bool ::
  "(card \<Rightarrow> 'd block_ops) \<Rightarrow> nat \<Rightarrow> string \<Rightarrow> bool \<Rightarrow> (('d, 'x) persist_world_scheme, unit, unit) io" where
  "set_bool dev fuel name value w =
     (case name_units name of
        Inl e \<Rightarrow> (Inl e, w)
      | Inr ptr \<Rightarrow>
          autosave_ignored dev fuel
            (w\<lparr>pw_vars := snd (var_set (pw_vars w) ptr FERRO_SETTINGS_GUID SETTINGS_ATTR [if value then 1 else 0])\<rparr>))"

definition settings_init :: "('d settings_world, unit, unit) io" where
  "settings_init w =
     (case get_bool (pw_vars w) ''VerboseBoot'' True of
        Inl e \<Rightarrow> (Inl e, w)
      | Inr verbose \<Rightarrow>
          (case get_byte (pw_vars w) ''AccentTheme'' 0 of
             Inl e \<Rightarrow> (Inl e, w)
           | Inr b \<Rightarrow>
               (case get_bool (pw_vars w) ''UsbHidEnabled'' True of
                  Inl e \<Rightarrow> (Inl e, w)
                | Inr usb \<Rightarrow>
                    (Inr (), w\<lparr>sw_settings := \<lparr>verbose_boot = verbose, theme = from_byte b, usb_enabled = usb\<rparr>\<rparr>))))"

definition settings_get :: "'d settings_world \<Rightarrow> settings" where
  "settings_get w = sw_settings w"

definition set_verbose_boot :: "(card \<Rightarrow> 'd block_ops) \<Rightarrow> nat \<Rightarrow> bool \<Rightarrow> ('d settings_world, unit, unit) io" where
  "set_verbose_boot dev fuel v =
     io_bind (set_bool dev fuel ''VerboseBoot'' v) (\<lambda>_ w. (Inr (), w\<lparr>sw_settings := (sw_settings w)\<lparr>verbose_boot := v\<rparr>\<rparr>))"

definition set_theme :: "(card \<Rightarrow> 'd block_ops) \<Rightarrow> nat \<Rightarrow> theme \<Rightarrow> ('d settings_world, unit, unit) io" where
  "set_theme dev fuel t =
     io_bind (set_byte dev fuel ''AccentTheme'' (to_byte t)) (\<lambda>_ w. (Inr (), w\<lparr>sw_settings := (sw_settings w)\<lparr>theme := t\<rparr>\<rparr>))"

definition set_usb_enabled :: "(card \<Rightarrow> 'd block_ops) \<Rightarrow> nat \<Rightarrow> bool \<Rightarrow> ('d settings_world, unit, unit) io" where
  "set_usb_enabled dev fuel v =
     io_bind (set_bool dev fuel ''UsbHidEnabled'' v) (\<lambda>_ w. (Inr (), w\<lparr>sw_settings := (sw_settings w)\<lparr>usb_enabled := v\<rparr>\<rparr>))"

section \<open>What is stored\<close>

lemma from_to_byte [simp]: "from_byte (to_byte t) = t"
  by (cases t) (simp_all add: from_byte_def)

type_synonym var_view = "u16 list \<times> efi_guid \<Rightarrow> (u32 \<times> u8 list) option"

abbreviation setting_key :: "string \<Rightarrow> u16 list \<times> efi_guid" where
  "setting_key s \<equiv> (char_units s, FERRO_SETTINGS_GUID)"

definition stored_byte :: "var_view \<Rightarrow> string \<Rightarrow> u8 \<Rightarrow> u8" where
  "stored_byte m name dflt = (case m (setting_key name) of Some (_, [b]) \<Rightarrow> b | _ \<Rightarrow> dflt)"

definition stored_settings :: "var_view \<Rightarrow> settings" where
  "stored_settings m = \<lparr>verbose_boot = (stored_byte m ''VerboseBoot'' 1 \<noteq> 0),
     theme = from_byte (stored_byte m ''AccentTheme'' 0), usb_enabled = (stored_byte m ''UsbHidEnabled'' 1 \<noteq> 0)\<rparr>"

definition setting_names :: "string list" where
  "setting_names = [''VerboseBoot'', ''AccentTheme'', ''UsbHidEnabled'']"

lemma setting_name_ok:
  assumes "s \<in> set setting_names"
  shows "name_units s = Inr (name_nt (char_units s))" "name_at (name_nt (char_units s)) = Some (char_units s)"
proof -
  have "name_ok (char_units s)" and "length s < 20"
    using assms by (auto simp: setting_names_def char_units_def name_ok_def MAX_NAME_UNITS_def)
  then show "name_units s = Inr (name_nt (char_units s))" "name_at (name_nt (char_units s)) = Some (char_units s)"
    by (simp_all add: name_units_def name_at_name_nt)
qed

lemma get_byte_stored:
  assumes "var_inv vs" "s \<in> set setting_names"
  shows "get_byte vs s dflt = Inr (stored_byte (var_map vs) s dflt)"
  using var_map_nonempty[OF assms(1)]
  by (fastforce simp: get_byte_def setting_name_ok[OF assms(2)] var_get_refines[OF assms(1)] stored_byte_def
      length_Suc_conv split: option.splits list.splits)

lemma get_bool_stored:
  assumes "var_inv vs" "s \<in> set setting_names"
  shows "get_bool vs s dflt = Inr (stored_byte (var_map vs) s (if dflt then 1 else 0) \<noteq> 0)"
  using var_map_nonempty[OF assms(1)]
  by (fastforce simp: get_bool_def setting_name_ok[OF assms(2)] var_get_refines[OF assms(1)] stored_byte_def
      length_Suc_conv split: option.splits list.splits)

lemma settings_init_stored:
  "var_inv (pw_vars w) \<Longrightarrow> settings_init w = (Inr (), w\<lparr>sw_settings := stored_settings (var_map (pw_vars w))\<rparr>)"
  by (simp add: settings_init_def get_byte_stored get_bool_stored setting_names_def stored_settings_def)

section \<open>The cache agrees with the store\<close>

text \<open>
  The room a setter needs (its variable exists, or a slot is free), and a card whose automatic save
  comes back: with no card mounted this is so, with a card it is what \<open>autosave_image\<close> shows.
\<close>

definition setting_room :: "var_store \<Rightarrow> string \<Rightarrow> bool" where
  "setting_room vs s \<longleftrightarrow> var_map vs (setting_key s) \<noteq> None \<or> card (live v_in_use vs) < MAX_VARIABLES"

definition save_returns :: "(card \<Rightarrow> 'd block_ops) \<Rightarrow> nat \<Rightarrow> ('d, 'x) persist_world_scheme \<Rightarrow> bool" where
  "save_returns dev fuel w \<longleftrightarrow>
     (\<forall>vs. \<exists>d. autosave_ignored dev fuel (w\<lparr>pw_vars := vs\<rparr>) = (Inr (), w\<lparr>pw_vars := vs, pw_dev := d\<rparr>))"

lemma save_returns_unmounted: "pw_context w = None \<Longrightarrow> save_returns dev fuel w"
  by (auto simp: save_returns_def autosave_ignored_def autosave_def intro: exI[of _ "pw_dev w"])

lemma guid_ok_settings: "guid_ok FERRO_SETTINGS_GUID"
  by (simp add: guid_ok_def FERRO_SETTINGS_GUID_def)

lemma set_setting:
  assumes inv: "var_inv (pw_vars w)" and s: "s \<in> set setting_names" and room: "setting_room (pw_vars w) s"
    and save: "save_returns dev fuel w"
  shows "\<exists>vs d. autosave_ignored dev fuel (w\<lparr>pw_vars := snd (var_set (pw_vars w) (name_nt (char_units s)) FERRO_SETTINGS_GUID SETTINGS_ATTR [b])\<rparr>) =
      (Inr (), w\<lparr>pw_vars := vs, pw_dev := d\<rparr>) \<and> var_inv vs \<and>
      var_map vs = (var_map (pw_vars w))(setting_key s \<mapsto> (SETTINGS_ATTR, [b]))"
proof -
  obtain r vs where vs: "var_set (pw_vars w) (name_nt (char_units s)) FERRO_SETTINGS_GUID SETTINGS_ATTR [b] = (r, vs)" by fastforce
  then have "var_inv vs" "var_map vs = (var_map (pw_vars w))(setting_key s \<mapsto> (SETTINGS_ATTR, [b]))"
    using var_set_refines[OF inv guid_ok_settings, of "name_nt (char_units s)" SETTINGS_ATTR "[b]"] room
    by (auto simp: setting_name_ok(2)[OF s] set_spec_def setting_room_def MAX_DATA_LEN_def split: if_splits)
  with save show ?thesis by (fastforce simp: save_returns_def vs)
qed

lemma setting_keys_distinct:
  "char_units ''VerboseBoot'' \<noteq> char_units ''AccentTheme''" "char_units ''VerboseBoot'' \<noteq> char_units ''UsbHidEnabled''"
  "char_units ''AccentTheme'' \<noteq> char_units ''UsbHidEnabled''"
  by (simp_all add: char_units_def)

lemma stored_byte_upd:
  "stored_byte (m(setting_key s \<mapsto> (a, [b]))) t dflt = (if char_units s = char_units t then b else stored_byte m t dflt)"
  by (auto simp: stored_byte_def)

lemmas stored_settings_upd = stored_settings_def stored_byte_upd setting_keys_distinct setting_keys_distinct[symmetric]

text \<open>One setter of the menu.\<close>

datatype setting_change = Verbose bool | Accent theme | Usb bool

fun change :: "(card \<Rightarrow> 'd block_ops) \<Rightarrow> nat \<Rightarrow> setting_change \<Rightarrow> ('d settings_world, unit, unit) io" where
  "change dev fuel (Verbose v) = set_verbose_boot dev fuel v"
| "change dev fuel (Accent t) = set_theme dev fuel t"
| "change dev fuel (Usb v) = set_usb_enabled dev fuel v"

fun change_name :: "setting_change \<Rightarrow> string" where
  "change_name (Verbose v) = ''VerboseBoot''"
| "change_name (Accent t) = ''AccentTheme''"
| "change_name (Usb v) = ''UsbHidEnabled''"

fun changed :: "setting_change \<Rightarrow> settings \<Rightarrow> settings" where
  "changed (Verbose v) s = s\<lparr>verbose_boot := v\<rparr>"
| "changed (Accent t) s = s\<lparr>theme := t\<rparr>"
| "changed (Usb v) s = s\<lparr>usb_enabled := v\<rparr>"

lemma change_name_ok: "change_name ch \<in> set setting_names"
  by (cases ch) (simp_all add: setting_names_def)

fun change_byte :: "setting_change \<Rightarrow> u8" where
  "change_byte (Verbose v) = (if v then 1 else 0)"
| "change_byte (Accent t) = to_byte t"
| "change_byte (Usb v) = (if v then 1 else 0)"

lemma change_applies:
  assumes inv: "var_inv (pw_vars w)" and room: "setting_room (pw_vars w) (change_name ch)" and save: "save_returns dev fuel w"
    and coh: "sw_settings w = stored_settings (var_map (pw_vars w))"
  shows "\<exists>vs d. change dev fuel ch w = (Inr (), w\<lparr>pw_vars := vs, pw_dev := d, sw_settings := changed ch (sw_settings w)\<rparr>) \<and>
    var_inv vs \<and> var_map vs = (var_map (pw_vars w))(setting_key (change_name ch) \<mapsto> (SETTINGS_ATTR, [change_byte ch])) \<and>
    stored_settings (var_map vs) = changed ch (sw_settings w)"
proof -
  obtain vs d where vs: "autosave_ignored dev fuel (w\<lparr>pw_vars := snd (var_set (pw_vars w) (name_nt (char_units (change_name ch)))
      FERRO_SETTINGS_GUID SETTINGS_ATTR [change_byte ch])\<rparr>) = (Inr (), w\<lparr>pw_vars := vs, pw_dev := d\<rparr>)" "var_inv vs"
    "var_map vs = (var_map (pw_vars w))(setting_key (change_name ch) \<mapsto> (SETTINGS_ATTR, [change_byte ch]))"
    using set_setting[OF inv change_name_ok room save] by blast
  have "change dev fuel ch w = (Inr (), w\<lparr>pw_vars := vs, pw_dev := d, sw_settings := changed ch (sw_settings w)\<rparr>)"
    using vs(1) setting_name_ok(1)[OF change_name_ok, of ch]
    by (cases ch) (simp_all add: set_verbose_boot_def set_theme_def set_usb_enabled_def set_bool_def set_byte_def io_bind_def)
  moreover have "stored_settings (var_map vs) = changed ch (sw_settings w)"
    by (cases ch) (simp_all add: vs(3) coh stored_settings_upd)
  ultimately show ?thesis using vs(2,3) by blast
qed

lemma change_unmounted:
  assumes "pw_context w = None" "change dev fuel ch w = (r, w')"
  shows "pw_dev w' = pw_dev w"
proof -
  have "autosave_ignored dev fuel (w\<lparr>pw_vars := vs\<rparr>) = (Inr (), w\<lparr>pw_vars := vs\<rparr>)" for vs
    using assms(1) by (simp add: autosave_ignored_def autosave_def)
  then show ?thesis using assms(2) setting_name_ok(1)[OF change_name_ok, of ch]
    by (cases ch) (auto simp: set_verbose_boot_def set_theme_def set_usb_enabled_def set_bool_def set_byte_def io_bind_def)
qed

text \<open>Room for all three settings, which no setter uses up.\<close>

definition settings_room :: "var_store \<Rightarrow> bool" where
  "settings_room vs \<longleftrightarrow> card (dom (var_map vs) \<union> setting_key ` set setting_names) \<le> MAX_VARIABLES"

lemma settings_room_each:
  assumes "var_inv vs" "settings_room vs" "s \<in> set setting_names"
  shows "setting_room vs s"
proof (cases "setting_key s \<in> dom (var_map vs)")
  case False
  then have "dom (var_map vs) \<subset> dom (var_map vs) \<union> setting_key ` set setting_names" using assms(3) by blast
  then have "card (dom (var_map vs)) < card (dom (var_map vs) \<union> setting_key ` set setting_names)"
    using finite_dom_var_map[OF assms(1)] by (intro psubset_card_mono) auto
  then show ?thesis using assms by (simp add: setting_room_def settings_room_def card_dom_var_map)
qed (auto simp: setting_room_def)

lemma settings_room_upd:
  assumes "var_map vs' = (var_map vs)(setting_key s \<mapsto> v)" "s \<in> set setting_names" "settings_room vs"
  shows "settings_room vs'"
proof -
  have "dom (var_map vs') \<union> setting_key ` set setting_names = dom (var_map vs) \<union> setting_key ` set setting_names"
    unfolding assms(1) using assms(2) by auto
  then show ?thesis using assms(3) by (simp add: settings_room_def)
qed

text \<open>
  The settings shown and the settings stored stay the same: every setter changes exactly its
  setting, in the cache and in the variable store alike, so that what \<open>settings_init\<close> reads back
  afterwards (after a restart that restored the variables, for instance) is what the menu shows.
\<close>

theorem settings_coherent:
  assumes inv: "var_inv (pw_vars w)" and room: "setting_room (pw_vars w) (change_name ch)" and save: "save_returns dev fuel w"
    and coh: "sw_settings w = stored_settings (var_map (pw_vars w))"
  shows "\<exists>w'. change dev fuel ch w = (Inr (), w') \<and> var_inv (pw_vars w') \<and>
    settings_get w' = changed ch (settings_get w) \<and> settings_init w' = (Inr (), w')"
proof -
  obtain vs d where vs: "change dev fuel ch w = (Inr (), w\<lparr>pw_vars := vs, pw_dev := d, sw_settings := changed ch (sw_settings w)\<rparr>)"
    "var_inv vs" "stored_settings (var_map vs) = changed ch (sw_settings w)"
    using change_applies[OF inv room save coh] by blast
  then show ?thesis
    using settings_init_stored[of "w\<lparr>pw_vars := vs, pw_dev := d, sw_settings := changed ch (sw_settings w)\<rparr>"] by (auto simp: settings_get_def)
qed

definition demo_settings :: "u8 list list settings_world" where
  "demo_settings = \<lparr>pw_vars = VARS_INIT, pw_context = None, pw_dev = [], sw_settings = default_settings\<rparr>"

theorem settings_coherent_witness:
  "\<exists>w'. set_theme (\<lambda>_. ram_ops) 0 Green demo_settings = (Inr (), w') \<and> theme (settings_get w') = Green \<and>
     settings_init w' = (Inr (), w')"
proof -
  have "stored_settings Map.empty = default_settings"
    by (simp add: stored_settings_def stored_byte_def default_settings_def from_byte_def)
  then show ?thesis
    using settings_coherent[where w = demo_settings and ch = "Accent Green" and dev = "\<lambda>_. ram_ops" and fuel = 0]
      save_returns_unmounted[of demo_settings]
    by (auto simp: demo_settings_def var_inv_init var_map_init setting_room_def card_live_init MAX_VARIABLES_def)
qed

end
