(* ===== verification/Sd_Controller.thy ===== *)
theory Sd_Controller
  imports Sd
begin

text \<open>
  The SD card driver as a provider of the block device contract. What the driver relies on of the
  host controller and its card is the locale \<open>sd_controller\<close>: the SD Host Controller register
  behaviour that single-block PIO transfers use, over an abstract view of the controller. Interrupt
  bits arrive at any time before the driver gives up waiting (200 ticks, two seconds), after any number
  of reads of the status register, one after the other or together; transfers that end with an error
  bit are outside the contract. In the locale, \<^verbatim>\<open>Card::read_block\<close> and \<^verbatim>\<open>Card::write_block\<close> are shown to be a
  \<open>block_device\<close>; the last section gives a controller that has the behaviour.
\<close>

unbundle bit_operations_syntax

section \<open>The controller's behaviour\<close>

datatype sd_event = EvCommand | EvTransfer | EvWriteReady | EvReadReady

text \<open>Their bits in the Normal Interrupt Status register; its upper half is the Error Interrupt Status register.\<close>

fun event_bit :: "sd_event \<Rightarrow> u32" where
  "event_bit EvCommand = 0x01"
| "event_bit EvTransfer = 0x02"
| "event_bit EvWriteReady = 0x10"
| "event_bit EvReadReady = 0x20"

lemma event_bit_driver:
  "INT_CMD_COMPLETE = event_bit EvCommand" "INT_TRANSFER_COMPLETE = event_bit EvTransfer"
  "INT_BUFFER_WRITE_READY = event_bit EvWriteReady" "INT_BUFFER_READ_READY = event_bit EvReadReady"
  by (simp_all add: sd_bits)

text \<open>The data phase: none, bytes still to be read by the host, or a block it is writing.\<close>

datatype data_phase = NoData | ToHost "u8 list" | FromHost u32 "u8 list"

record sd_view =
  v_disk :: disk
  v_arg :: u32
  v_blk :: u32
  v_data :: data_phase
  v_status :: "sd_event set"
  v_pending :: "sd_event set"

text \<open>The block number a command argument stands for.\<close>

definition arg_block :: "card \<Rightarrow> u32 \<Rightarrow> u32" where
  "arg_block c arg = (if block_addressed c then arg else arg div 512)"

definition sd_idle :: "sd_view \<Rightarrow> bool" where
  "sd_idle v \<longleftrightarrow> v_data v = NoData \<and> v_pending v = {}"

text \<open>The last byte of a block ends its data phase, and the controller will signal that.\<close>

definition after_read :: "u8 list \<Rightarrow> sd_view \<Rightarrow> sd_view" where
  "after_read bs v = (if bs = [] then v\<lparr>v_data := NoData, v_pending := insert EvTransfer (v_pending v)\<rparr>
                      else v\<lparr>v_data := ToHost bs\<rparr>)"

definition after_write :: "u32 \<Rightarrow> u8 list \<Rightarrow> sd_view \<Rightarrow> sd_view" where
  "after_write lba bs v =
     (if length bs = SECTOR_SIZE
      then v\<lparr>v_data := NoData, v_pending := insert EvTransfer (v_pending v), v_disk := (v_disk v)(lba := bs)\<rparr>
      else v\<lparr>v_data := FromHost lba bs\<rparr>)"

text \<open>
  \<open>live\<close> is the controller's own invariant, \<open>clock\<close> the system timer in ticks, \<open>due\<close> the tick by which
  the pending events have been signalled: at most 200, the timeout of the driver, from now. \<open>delay\<close>
  counts the status reads that this takes, however many they are (\<open>polls\<close>).
\<close>

locale sd_controller =
  fixes host :: "'h sd_host"
    and c :: card
    and cap :: nat
    and fuel :: nat
    and live :: "'h \<Rightarrow> bool"
    and view :: "'h \<Rightarrow> sd_view"
    and clock :: "'h \<Rightarrow> nat"
    and due :: "'h \<Rightarrow> nat"
    and delay :: "'h \<Rightarrow> nat"
    and polls :: nat
  assumes uptime: "live h \<Longrightarrow> clock h + 200 < 2 ^ 64"
    and in_time: "live h \<Longrightarrow> due h \<le> clock h + 200"
    and polled: "live h \<Longrightarrow> delay h < polls"
    and enough_fuel: "0 < polls" "polls \<le> fuel"
    and addressable: "block_addressed c \<or> cap * 512 \<le> 2 ^ 32"
    and timer_read: "live h \<Longrightarrow> timer_ticks host h = (t, h') \<Longrightarrow>
      t = of_nat (clock h) \<and> live h' \<and> view h' = view h \<and> due h' = due h \<and> delay h' = delay h"
    and present_read: "live h \<Longrightarrow> sd_idle (view h) \<Longrightarrow> mmio_read host REG_PRESENT_STATE h = (w, h') \<Longrightarrow>
      w AND 3 = 0 \<and> live h' \<and> view h' = view h"
    and status_read: "live h \<Longrightarrow> mmio_read host REG_INT_STATUS h = (w, h') \<Longrightarrow>
      live h' \<and> w AND 0xFFFF0000 = 0 \<and>
      (\<exists>S. v_status (view h) \<subseteq> S \<and> S \<subseteq> v_status (view h) \<union> v_pending (view h) \<and>
        (\<forall>e. w AND event_bit e \<noteq> 0 \<longleftrightarrow> e \<in> S) \<and>
        view h' = (view h)\<lparr>v_status := S, v_pending := v_pending (view h) - S\<rparr> \<and>
        (v_pending (view h) \<subseteq> S \<or> clock h' < due h' \<and> due h' = due h \<and> delay h' < delay h))"
    and response_read: "live h \<Longrightarrow> reg \<in> {REG_RESP0, REG_RESP1, REG_RESP2, REG_RESP3} \<Longrightarrow>
      mmio_read host reg h = (w, h') \<Longrightarrow> live h' \<and> view h' = view h"
    and buffer_read: "live h \<Longrightarrow> v_data (view h) = ToHost bs \<Longrightarrow> EvReadReady \<notin> v_pending (view h) \<Longrightarrow>
      mmio_read host REG_BUFFER h = (w, h') \<Longrightarrow>
      w = rd32 (take 4 bs) \<and> live h' \<and> view h' = after_read (drop 4 bs) (view h)"
    and status_write: "live h \<Longrightarrow> live (mmio_write host REG_INT_STATUS w h) \<and>
      view (mmio_write host REG_INT_STATUS w h) = (view h)\<lparr>v_status := {e \<in> v_status (view h). w AND event_bit e = 0}\<rparr>"
    and argument_write: "live h \<Longrightarrow> live (mmio_write host REG_ARG1 w h) \<and>
      view (mmio_write host REG_ARG1 w h) = (view h)\<lparr>v_arg := w\<rparr>"
    and block_size_write: "live h \<Longrightarrow> live (mmio_write host REG_BLOCKSIZE_COUNT w h) \<and>
      view (mmio_write host REG_BLOCKSIZE_COUNT w h) = (view h)\<lparr>v_blk := w\<rparr>"
    and read_command: "live h \<Longrightarrow> sd_idle (view h) \<Longrightarrow> v_blk (view h) = 0x10200 \<Longrightarrow>
      unat (arg_block c (v_arg (view h))) < cap \<Longrightarrow>
      live (mmio_write host REG_TRANSFER_CMD 0x11220012 h) \<and>
      view (mmio_write host REG_TRANSFER_CMD 0x11220012 h) =
        (view h)\<lparr>v_data := ToHost (v_disk (view h) (arg_block c (v_arg (view h)))), v_pending := {EvCommand, EvReadReady}\<rparr>"
    and write_command: "live h \<Longrightarrow> sd_idle (view h) \<Longrightarrow> v_blk (view h) = 0x10200 \<Longrightarrow>
      unat (arg_block c (v_arg (view h))) < cap \<Longrightarrow>
      live (mmio_write host REG_TRANSFER_CMD 0x18220002 h) \<and>
      view (mmio_write host REG_TRANSFER_CMD 0x18220002 h) =
        (view h)\<lparr>v_data := FromHost (arg_block c (v_arg (view h))) [], v_pending := {EvCommand, EvWriteReady}\<rparr>"
    and buffer_write: "live h \<Longrightarrow> v_data (view h) = FromHost lba bs \<Longrightarrow> EvWriteReady \<notin> v_pending (view h) \<Longrightarrow>
      live (mmio_write host REG_BUFFER w h) \<and>
      view (mmio_write host REG_BUFFER w h) = after_write lba (bs @ le32 w) (view h)"

section \<open>A total-correctness judgement on views\<close>

text \<open>\<open>achieves live view m P Q\<close>: from a live controller whose view is in \<open>P\<close>, \<open>m\<close> returns a value, live, in \<open>Q\<close>.\<close>

definition achieves ::
  "('h \<Rightarrow> bool) \<Rightarrow> ('h \<Rightarrow> sd_view) \<Rightarrow> ('h, 'a) sd_io \<Rightarrow> (sd_view \<Rightarrow> bool) \<Rightarrow> ('a \<Rightarrow> sd_view \<Rightarrow> bool) \<Rightarrow> bool" where
  "achieves live view m P Q \<longleftrightarrow>
     (\<forall>h. live h \<longrightarrow> P (view h) \<longrightarrow> (\<exists>x h'. m h = (Inr x, h') \<and> live h' \<and> Q x (view h')))"

lemma achieves_return: "(\<And>v. P v \<Longrightarrow> Q x v) \<Longrightarrow> achieves L V (io_return x) P Q"
  by (auto simp: achieves_def io_return_def)

lemma achieves_bind:
  "achieves L V m P R \<Longrightarrow> (\<And>x. achieves L V (f x) (R x) Q) \<Longrightarrow> achieves L V (io_bind m f) P Q"
  unfolding achieves_def io_bind_def by fastforce

lemma achieves_pre: "achieves L V m P' Q \<Longrightarrow> (\<And>v. P v \<Longrightarrow> P' v) \<Longrightarrow> achieves L V m P Q"
  by (auto simp: achieves_def)

lemma achieves_post: "achieves L V m P Q' \<Longrightarrow> (\<And>x v. Q' x v \<Longrightarrow> Q x v) \<Longrightarrow> achieves L V m P Q"
  unfolding achieves_def by blast

lemma achieves_read:
  "(\<And>h w h'. L h \<Longrightarrow> P (V h) \<Longrightarrow> mmio_read host reg h = (w, h') \<Longrightarrow> L h' \<and> Q w (V h')) \<Longrightarrow>
   achieves L V (mm_read host reg) P Q"
  by (fastforce simp: achieves_def mm_read_def split: prod.splits)

lemma achieves_write:
  "(\<And>h. L h \<Longrightarrow> P (V h) \<Longrightarrow> L (mmio_write host reg w h) \<and> Q () (V (mmio_write host reg w h))) \<Longrightarrow>
   achieves L V (mm_write host reg w) P Q"
  by (simp add: achieves_def mm_write_def)

lemma error_or_event: "w AND INT_ERROR_MASK = 0 \<Longrightarrow> w AND (b OR INT_ERROR_MASK) = 0 \<longleftrightarrow> w AND b = 0"
  by (simp add: bit.conj_disj_distrib)

lemma event_bit_inj: "event_bit e AND event_bit e' = 0 \<longleftrightarrow> e \<noteq> e'"
  by (cases e; cases e') simp_all

lemma event_bit_all: "(0xFFFFFFFF :: u32) AND event_bit e \<noteq> 0"
  by (cases e) simp_all

section \<open>Polling\<close>

text \<open>What a wait for event \<open>e\<close> does to the view: some pending events have been seen, \<open>e\<close> among them.\<close>

definition seen :: "sd_event \<Rightarrow> sd_view \<Rightarrow> sd_view \<Rightarrow> bool" where
  "seen e v v' \<longleftrightarrow> (\<exists>S. e \<in> S \<and> v_status v \<subseteq> S \<and> S \<subseteq> v_status v \<union> v_pending v \<and>
     v' = v\<lparr>v_status := S, v_pending := v_pending v - S\<rparr>)"

definition seen_more :: "sd_view \<Rightarrow> sd_view \<Rightarrow> bool" where
  "seen_more v v' \<longleftrightarrow> (\<exists>S. v_status v \<subseteq> S \<and> S \<subseteq> v_status v \<union> v_pending v \<and>
     v' = v\<lparr>v_status := S, v_pending := v_pending v - S\<rparr>)"

lemma seen_later:
  assumes "v_status v \<subseteq> S" "S \<subseteq> v_status v \<union> v_pending v"
    and "seen e (v\<lparr>v_status := S, v_pending := v_pending v - S\<rparr>) v'"
  shows "seen e v v'"
proof -
  obtain T where T: "e \<in> T" "S \<subseteq> T" "T \<subseteq> S \<union> (v_pending v - S)" "v' = v\<lparr>v_status := T, v_pending := v_pending v - S - T\<rparr>"
    using assms(3) by (auto simp: seen_def)
  moreover have "v_pending v - S - T = v_pending v - T" using T(2) by blast
  ultimately show ?thesis unfolding seen_def using assms(1,2) by (intro exI[of _ T]) auto
qed

text \<open>Medium \<open>D\<close>, data phase \<open>d\<close>, and exactly the events \<open>A\<close> to be waited for, seen or not.\<close>

definition cls :: "disk \<Rightarrow> data_phase \<Rightarrow> sd_event set \<Rightarrow> sd_view \<Rightarrow> bool" where
  "cls D d A v \<longleftrightarrow> v_disk v = D \<and> v_data v = d \<and> v_pending v \<subseteq> A \<and> A \<subseteq> v_status v \<union> v_pending v"

lemma seen_cls: "seen x v v' \<Longrightarrow> cls D d A v \<Longrightarrow> cls D d A v' \<and> x \<notin> v_pending v'"
  by (clarsimp simp: seen_def cls_def) blast

lemma seen_more_cls: "seen_more v v' \<Longrightarrow> cls D d A v \<and> x \<notin> v_pending v \<Longrightarrow> cls D d A v' \<and> x \<notin> v_pending v'"
  by (clarsimp simp: seen_more_def cls_def) blast

lemma cls_idle: "cls D NoData {} v \<Longrightarrow> sd_idle v"
  by (auto simp: cls_def sd_idle_def)

text \<open>A block being handed to the host, and one being taken from it, with the end of the data phase.\<close>

definition reading :: "disk \<Rightarrow> u8 list \<Rightarrow> sd_view \<Rightarrow> bool" where
  "reading D bs = (if bs = [] then cls D NoData {EvTransfer} else cls D (ToHost bs) {})"

definition writing :: "disk \<Rightarrow> u32 \<Rightarrow> u8 list \<Rightarrow> sd_view \<Rightarrow> bool" where
  "writing D lba bs = (if length bs = SECTOR_SIZE then cls (D(lba := bs)) NoData {EvTransfer} else cls D (FromHost lba bs) {})"

context sd_controller
begin

lemma poll_event:
  "live h \<Longrightarrow> e \<in> v_status (view h) \<union> v_pending (view h) \<Longrightarrow> delay h < n \<Longrightarrow> due h \<le> unat deadline \<Longrightarrow>
   \<exists>h'. wait_poll host n deadline (bits_clear host REG_INT_STATUS (event_bit e OR INT_ERROR_MASK)) h = (Inr (), h') \<and>
     live h' \<and> seen e (view h) (view h')"
proof (induction n arbitrary: h)
  case (Suc n)
  obtain w h1 where r: "mmio_read host REG_INT_STATUS h = (w, h1)" by fastforce
  obtain S where S: "v_status (view h) \<subseteq> S" "S \<subseteq> v_status (view h) \<union> v_pending (view h)"
      "\<forall>e. w AND event_bit e \<noteq> 0 \<longleftrightarrow> e \<in> S"
      "view h1 = (view h)\<lparr>v_status := S, v_pending := v_pending (view h) - S\<rparr>"
      "v_pending (view h) \<subseteq> S \<or> clock h1 < due h1 \<and> due h1 = due h \<and> delay h1 < delay h"
    and h1: "live h1" "w AND INT_ERROR_MASK = 0"
    using status_read[OF Suc.prems(1) r, folded INT_ERROR_MASK_def] by (elim conjE exE) (rule that)
  have c: "bits_clear host REG_INT_STATUS (event_bit e OR INT_ERROR_MASK) h = (Inr (e \<notin> S), h1)"
    using S(3)[rule_format, of e] by (auto simp: bits_clear_def io_bind_def io_return_def mm_read_def r error_or_event[OF h1(2)])
  show ?case
  proof (cases "e \<in> S")
    case True
    then have "seen e (view h) (view h1)" using S by (auto simp: seen_def)
    with True c h1(1) show ?thesis by (simp add: io_bind_def io_return_def)
  next
    case False
    then have late: "clock h1 < due h" "due h1 = due h" "delay h1 < delay h" using S(1,5) Suc.prems(2) by auto
    obtain t h2 where t: "timer_ticks host h1 = (t, h2)" by fastforce
    note h2 = timer_read[OF h1(1) t]
    have "unat t \<le> clock h1" using h2 by (simp add: unat_of_nat)
    then have "\<not> deadline < t" using late(1) Suc.prems(4) by (simp add: word_less_nat_alt)
    moreover have "\<exists>h'. wait_poll host n deadline (bits_clear host REG_INT_STATUS (event_bit e OR INT_ERROR_MASK)) h2 =
        (Inr (), h') \<and> live h' \<and> seen e (view h2) (view h')"
      by (rule Suc.IH) (use h2 late S False Suc.prems in auto)
    moreover have "seen e (view h2) v' \<Longrightarrow> seen e (view h) v'" for v'
      using h2 S(4) by (intro seen_later[OF S(1,2)]) simp
    ultimately show ?thesis using False c t h2 by (auto simp: io_bind_def ticks_now_def)
  qed
qed simp

lemma await_event:
  "achieves live view (wait_while host fuel 200 (bits_clear host REG_INT_STATUS (event_bit e OR INT_ERROR_MASK)))
     (\<lambda>v. v = v0 \<and> e \<in> v_status v \<union> v_pending v) (\<lambda>_. seen e v0)"
  unfolding achieves_def
proof (intro allI impI, elim conjE)
  fix h assume h: "live h" "view h = v0" "e \<in> v_status (view h) \<union> v_pending (view h)"
  obtain t h1 where t: "timer_ticks host h = (t, h1)" by fastforce
  note h1 = timer_read[OF h(1) t]
  have "unat (t + 200) = clock h + 200" using h1 uptime[OF h(1)] by (simp add: unat_word_ariths unat_of_nat)
  then have "\<exists>h'. wait_poll host fuel (t + 200) (bits_clear host REG_INT_STATUS (event_bit e OR INT_ERROR_MASK)) h1 = (Inr (), h') \<and>
     live h' \<and> seen e (view h1) (view h')"
    using h h1 in_time[OF h(1)] polled[OF h(1)] enough_fuel by (intro poll_event) auto
  then show "\<exists>x h'. wait_while host fuel 200 (bits_clear host REG_INT_STATUS (event_bit e OR INT_ERROR_MASK)) h = (Inr x, h') \<and>
      live h' \<and> seen e v0 (view h')"
    using h h1 by (simp add: wait_while_def io_bind_def ticks_now_def t)
qed

lemma await_idle:
  "achieves live view (wait_while host fuel 200 (bits_set host REG_PRESENT_STATE (PRESENT_CMD_INHIBIT OR PRESENT_DAT_INHIBIT)))
     (\<lambda>v. v = v0 \<and> sd_idle v) (\<lambda>_ v. v = v0)"
  unfolding achieves_def
proof (intro allI impI, elim conjE)
  fix h assume h: "live h" "view h = v0" "sd_idle (view h)"
  obtain t h1 where t: "timer_ticks host h = (t, h1)" by fastforce
  note h1 = timer_read[OF h(1) t]
  obtain w h2 where w: "mmio_read host REG_PRESENT_STATE h1 = (w, h2)" by fastforce
  have idle: "sd_idle (view h1)" using h(3) h1 by simp
  note h2 = present_read[OF _ idle w]
  obtain n where n: "fuel = Suc n" using enough_fuel by (cases fuel) auto
  show "\<exists>x h'. wait_while host fuel 200 (bits_set host REG_PRESENT_STATE (PRESENT_CMD_INHIBIT OR PRESENT_DAT_INHIBIT)) h = (Inr x, h') \<and>
      live h' \<and> view h' = v0"
    using h h1 h2 by (simp add: wait_while_def n io_bind_def io_return_def ticks_now_def t bits_set_def mm_read_def w sd_bits)
qed

lemma write_status: "achieves live view (mm_write host REG_INT_STATUS w) (\<lambda>v. P (v\<lparr>v_status := {e \<in> v_status v. w AND event_bit e = 0}\<rparr>)) (\<lambda>_. P)"
  by (rule achieves_write) (simp add: status_write)

lemma read_response:
  "reg \<in> {REG_RESP0, REG_RESP1, REG_RESP2, REG_RESP3} \<Longrightarrow> achieves live view (mm_read host reg) P (\<lambda>_. P)"
  by (rule achieves_read) (drule (2) response_read, simp)

lemma status_read_seen:
  assumes "live h" "mmio_read host REG_INT_STATUS h = (w, h')"
  shows "live h' \<and> w AND INT_ERROR_MASK = 0 \<and> seen_more (view h) (view h')"
  unfolding seen_more_def INT_ERROR_MASK_def using status_read[OF assms] by (elim conjE exE) (intro conjI exI; assumption)

text \<open>The controller never shows error bits, so the error branch of a wait is not taken.\<close>

lemma no_error:
  assumes "achieves live view k (\<lambda>v. \<exists>v1. P v1 \<and> seen_more v1 v) Q"
  shows "achieves live view (io_bind (mm_read host REG_INT_STATUS) (\<lambda>status. if status AND INT_ERROR_MASK \<noteq> 0 then m status else k)) P Q"
proof (rule achieves_bind)
  show "achieves live view (mm_read host REG_INT_STATUS) P (\<lambda>w v. w AND INT_ERROR_MASK = 0 \<and> (\<exists>v1. P v1 \<and> seen_more v1 v))"
    by (rule achieves_read) (drule (1) status_read_seen, blast)
  show "achieves live view (if w AND INT_ERROR_MASK \<noteq> 0 then m w else k) (\<lambda>v. w AND INT_ERROR_MASK = 0 \<and> (\<exists>v1. P v1 \<and> seen_more v1 v)) Q" for w
    using assms by (auto simp: achieves_def)
qed

section \<open>Commands\<close>

lemma await_cls:
  assumes "x \<in> A"
  shows "achieves live view (wait_while host fuel 200 (bits_clear host REG_INT_STATUS (event_bit x OR INT_ERROR_MASK)))
     (cls D d A) (\<lambda>_ v. cls D d A v \<and> x \<notin> v_pending v)"
  unfolding achieves_def
proof (intro allI impI)
  fix h assume h: "live h" "cls D d A (view h)"
  then have "x \<in> v_status (view h) \<union> v_pending (view h)" using assms by (auto simp: cls_def)
  with h(1) obtain u h' where "wait_while host fuel 200 (bits_clear host REG_INT_STATUS (event_bit x OR INT_ERROR_MASK)) h = (Inr u, h')"
      "live h'" "seen x (view h) (view h')"
    using await_event[of x "view h", unfolded achieves_def] by blast
  then show "\<exists>u h'. wait_while host fuel 200 (bits_clear host REG_INT_STATUS (event_bit x OR INT_ERROR_MASK)) h = (Inr u, h') \<and>
      live h' \<and> cls D d A (view h') \<and> x \<notin> v_pending (view h')"
    using h(2) seen_cls by blast
qed

lemma check_cls:
  assumes "achieves live view k (\<lambda>v. cls D d A v \<and> x \<notin> v_pending v) Q"
  shows "achieves live view (io_bind (mm_read host REG_INT_STATUS) (\<lambda>status. if status AND INT_ERROR_MASK \<noteq> 0 then m status else k))
     (\<lambda>v. cls D d A v \<and> x \<notin> v_pending v) Q"
  by (rule no_error) (rule achieves_pre[OF assms], use seen_more_cls in blast)

lemma ack_cls:
  "achieves live view (mm_write host REG_INT_STATUS (event_bit x)) (\<lambda>v. cls D d A v \<and> x \<notin> v_pending v) (\<lambda>_. cls D d (A - {x}))"
  by (rule achieves_pre[OF write_status]) (auto simp: cls_def event_bit_inj)

lemma await_buffer_ok: "achieves live view (await_buffer host fuel (event_bit x)) (cls D d {x}) (\<lambda>_. cls D d {})"
  unfolding await_buffer_def
  by (rule achieves_bind[OF await_cls[of x]], simp, rule check_cls, rule achieves_post[OF ack_cls]) simp

lemma await_complete_ok: "achieves live view (await_complete host fuel) (cls D d {EvTransfer}) (\<lambda>_. cls D d {})"
  unfolding await_complete_def event_bit_driver
  using achieves_bind[OF await_cls[of EvTransfer "{EvTransfer}" D d] achieves_post[OF ack_cls]] by simp

text \<open>A command with a data phase; \<open>e\<close> is the event that starts it.\<close>

lemma send_data_command:
  assumes cmd: "achieves live view (mm_write host REG_TRANSFER_CMD (command_word index R1 dir))
      (\<lambda>v. cls D NoData {} v \<and> v_blk v = 0x10200 \<and> v_arg v = arg) (\<lambda>_. cls D d {EvCommand, e})" and e: "e \<noteq> EvCommand"
  shows "achieves live view (send_command host fuel index arg R1 dir)
      (\<lambda>v. cls D NoData {} v \<and> v_blk v = 0x10200) (\<lambda>_. cls D d {e})"
proof -
  have idle: "achieves live view (wait_while host fuel 200 (bits_set host REG_PRESENT_STATE (PRESENT_CMD_INHIBIT OR PRESENT_DAT_INHIBIT)))
      (\<lambda>v. cls D NoData {} v \<and> v_blk v = 0x10200) (\<lambda>_ v. cls D NoData {} v \<and> v_blk v = 0x10200)"
    using await_idle unfolding achieves_def by (metis cls_idle)
  have clear: "achieves live view (mm_write host REG_INT_STATUS 0xFFFFFFFF)
      (\<lambda>v. cls D NoData {} v \<and> v_blk v = 0x10200) (\<lambda>_ v. cls D NoData {} v \<and> v_blk v = 0x10200)"
    by (rule achieves_pre[OF write_status]) (simp add: cls_def)
  have arg: "achieves live view (mm_write host REG_ARG1 arg)
      (\<lambda>v. cls D NoData {} v \<and> v_blk v = 0x10200) (\<lambda>_ v. cls D NoData {} v \<and> v_blk v = 0x10200 \<and> v_arg v = arg)"
    by (rule achieves_write) (simp add: argument_write cls_def)
  have rest: "achieves live view (mm_write host REG_INT_STATUS (event_bit EvCommand))
      (\<lambda>v. cls D d {EvCommand, e} v \<and> EvCommand \<notin> v_pending v) (\<lambda>_. cls D d {e})"
    using achieves_post[OF ack_cls[of EvCommand D d "{EvCommand, e}"], of "\<lambda>_. cls D d {e}"] e by (simp add: insert_Diff_if)
  show ?thesis unfolding send_command_def event_bit_driver
    by (rule achieves_bind[OF idle] achieves_bind[OF clear] achieves_bind[OF arg] achieves_bind[OF cmd]
        achieves_bind[OF await_cls[of EvCommand, simplified]] check_cls achieves_bind[OF rest]
        achieves_bind[OF read_response] achieves_return | simp)+
qed

section \<open>Data\<close>

lemma read_words_ok:
  "length bs = 4 * n \<Longrightarrow> achieves live view (read_words host n) (reading D bs) (\<lambda>x v. x = bs \<and> reading D [] v)"
proof (induction n arbitrary: bs)
  case 0
  then show ?case by (auto intro!: achieves_return)
next
  case (Suc n)
  have word: "achieves live view (mm_read host REG_BUFFER) (reading D bs) (\<lambda>w v. w = rd32 (take 4 bs) \<and> reading D (drop 4 bs) v)"
  proof (rule achieves_read)
    fix h w h' assume h: "live h" "reading D bs (view h)" and r: "mmio_read host REG_BUFFER h = (w, h')"
    have ne: "bs \<noteq> []" using Suc.prems by auto
    with h(2) have v: "v_data (view h) = ToHost bs" "EvReadReady \<notin> v_pending (view h)" by (auto simp: reading_def cls_def)
    then show "live h' \<and> w = rd32 (take 4 bs) \<and> reading D (drop 4 bs) (view h')"
      using buffer_read[OF h(1) v r] h(2) ne by (auto simp: reading_def cls_def after_read_def)
  qed
  have tail: "achieves live view (io_bind (read_words host n) (\<lambda>rest. io_return (le32 w @ rest)))
      (\<lambda>v. w = rd32 (take 4 bs) \<and> reading D (drop 4 bs) v) (\<lambda>x v. x = bs \<and> reading D [] v)" for w
  proof (cases "w = rd32 (take 4 bs)")
    case True
    then have "le32 w = take 4 bs" using Suc.prems by (simp add: to_le_of_le)
    then have "le32 w @ drop 4 bs = bs" by simp
    then have ret: "achieves live view (io_return (le32 w @ rest)) (\<lambda>v. rest = drop 4 bs \<and> reading D [] v) (\<lambda>x v. x = bs \<and> reading D [] v)" for rest
      by (intro achieves_return) simp
    have "achieves live view (read_words host n) (reading D (drop 4 bs)) (\<lambda>x v. x = drop 4 bs \<and> reading D [] v)"
      using Suc.IH[of "drop 4 bs"] Suc.prems by simp
    from achieves_bind[OF this ret] show ?thesis by (rule achieves_pre) simp
  qed (simp add: achieves_def)
  show ?case unfolding read_words.simps by (rule achieves_bind[OF word tail])
qed

lemma write_words_ok:
  "length data = 4 * n \<Longrightarrow> length bs + 4 * n = SECTOR_SIZE \<Longrightarrow>
   achieves live view (write_words host data n) (writing D lba bs) (\<lambda>_. writing D lba (bs @ data))"
proof (induction n arbitrary: data bs)
  case 0
  then show ?case by (auto intro!: achieves_return)
next
  case (Suc n)
  have le: "le32 (rd32 (take 4 data)) = take 4 data" using Suc.prems(1) by (simp add: to_le_of_le)
  have word: "achieves live view (mm_write host REG_BUFFER (rd32 (take 4 data))) (writing D lba bs) (\<lambda>_. writing D lba (bs @ take 4 data))"
  proof (intro achieves_write)
    fix h assume h: "live h" "writing D lba bs (view h)"
    have ne: "length bs \<noteq> SECTOR_SIZE" using Suc.prems by auto
    with h(2) have v: "v_data (view h) = FromHost lba bs" "EvWriteReady \<notin> v_pending (view h)" by (auto simp: writing_def cls_def)
    then show "live (mmio_write host REG_BUFFER (rd32 (take 4 data)) h) \<and>
        writing D lba (bs @ take 4 data) (view (mmio_write host REG_BUFFER (rd32 (take 4 data)) h))"
      using buffer_write[OF h(1) v, of "rd32 (take 4 data)"] h(2) ne Suc.prems le by (auto simp: writing_def cls_def after_write_def)
  qed
  show ?case unfolding write_words.simps
    using Suc.IH[of "drop 4 data" "bs @ take 4 data"] Suc.prems
    by (intro achieves_bind[OF word]) simp
qed

section \<open>Blocks\<close>

lemma arg_block_address: "unat lba < cap \<Longrightarrow> arg_block c (card_address c lba) = lba"
  using addressable
  by (auto simp: arg_block_def card_address_def word_unat_eq_iff unat_div unat_word_ariths)

lemma set_block_size:
  "achieves live view (mm_write host REG_BLOCKSIZE_COUNT (512 OR push_bit 16 1)) (cls D NoData {})
     (\<lambda>_ v. cls D NoData {} v \<and> v_blk v = 0x10200)"
  by (rule achieves_write) (simp add: block_size_write cls_def)

lemma read_block_ok:
  assumes lba: "unat lba < cap" and len: "length (D lba) = SECTOR_SIZE"
  shows "achieves live view (read_block host fuel c lba) (cls D NoData {}) (\<lambda>x v. x = D lba \<and> cls D NoData {} v)"
proof -
  have word: "command_word 17 R1 DirRead = 0x11220012" by (simp add: command_word_def)
  have cmd: "achieves live view (mm_write host REG_TRANSFER_CMD (command_word 17 R1 DirRead))
      (\<lambda>v. cls D NoData {} v \<and> v_blk v = 0x10200 \<and> v_arg v = card_address c lba)
      (\<lambda>_. cls D (ToHost (D lba)) {EvCommand, EvReadReady})"
    unfolding word
  proof (rule achieves_write)
    fix h assume h: "live h" "cls D NoData {} (view h) \<and> v_blk (view h) = 0x10200 \<and> v_arg (view h) = card_address c lba"
    then have v: "v_blk (view h) = 0x10200" "arg_block c (v_arg (view h)) = lba" "v_disk (view h) = D"
      using arg_block_address[OF lba] by (simp_all add: cls_def)
    from h read_command[OF h(1) _ v(1)] lba
    show "live (mmio_write host REG_TRANSFER_CMD 0x11220012 h) \<and> cls D (ToHost (D lba)) {EvCommand, EvReadReady} (view (mmio_write host REG_TRANSFER_CMD 0x11220012 h))"
      unfolding v by (simp add: cls_def sd_idle_def)
  qed
  have words: "achieves live view (read_words host 128) (cls D (ToHost (D lba)) {}) (\<lambda>x v. x = D lba \<and> cls D NoData {EvTransfer} v)"
    using read_words_ok[of "D lba" 128 D] len by (cases "D lba = []") (simp_all add: reading_def)
  have finish: "achieves live view (io_bind (await_complete host fuel) (\<lambda>_. io_return out))
      (\<lambda>v. out = D lba \<and> cls D NoData {EvTransfer} v) (\<lambda>x v. x = D lba \<and> cls D NoData {} v)" for out
    by (cases "out = D lba") (auto simp: achieves_def[of _ _ _ "\<lambda>_. False"] intro!: achieves_bind[OF await_complete_ok] achieves_return)
  show ?thesis unfolding read_block_def event_bit_driver
    using achieves_bind[OF set_block_size achieves_bind[OF send_data_command[OF cmd]
        achieves_bind[OF await_buffer_ok[of EvReadReady] achieves_bind[OF words finish]]]] by simp
qed

lemma write_block_ok:
  assumes lba: "unat lba < cap" and len: "length data = SECTOR_SIZE"
  shows "achieves live view (write_block host fuel c lba data) (cls D NoData {}) (\<lambda>_. cls (D(lba := data)) NoData {})"
proof -
  have word: "command_word 24 R1 DirWrite = 0x18220002" by (simp add: command_word_def)
  have cmd: "achieves live view (mm_write host REG_TRANSFER_CMD (command_word 24 R1 DirWrite))
      (\<lambda>v. cls D NoData {} v \<and> v_blk v = 0x10200 \<and> v_arg v = card_address c lba)
      (\<lambda>_. cls D (FromHost lba []) {EvCommand, EvWriteReady})"
    unfolding word
  proof (rule achieves_write)
    fix h assume h: "live h" "cls D NoData {} (view h) \<and> v_blk (view h) = 0x10200 \<and> v_arg (view h) = card_address c lba"
    then have v: "v_blk (view h) = 0x10200" "arg_block c (v_arg (view h)) = lba" "v_disk (view h) = D"
      using arg_block_address[OF lba] by (simp_all add: cls_def)
    from h write_command[OF h(1) _ v(1)] lba
    show "live (mmio_write host REG_TRANSFER_CMD 0x18220002 h) \<and> cls D (FromHost lba []) {EvCommand, EvWriteReady} (view (mmio_write host REG_TRANSFER_CMD 0x18220002 h))"
      unfolding v by (simp add: cls_def sd_idle_def)
  qed
  have words: "achieves live view (write_words host data 128) (cls D (FromHost lba []) {}) (\<lambda>_. cls (D(lba := data)) NoData {EvTransfer})"
    using write_words_ok[of data 128 "[]" D lba] len by (simp add: writing_def)
  show ?thesis unfolding write_block_def event_bit_driver
    using achieves_bind[OF set_block_size achieves_bind[OF send_data_command[OF cmd]
        achieves_bind[OF await_buffer_ok[of EvWriteReady] achieves_bind[OF words await_complete_ok]]]] by simp
qed

end

definition sd_ready :: "nat \<Rightarrow> ('h \<Rightarrow> bool) \<Rightarrow> ('h \<Rightarrow> sd_view) \<Rightarrow> 'h \<Rightarrow> bool" where
  "sd_ready cap live view h \<longleftrightarrow> live h \<and> sd_idle (view h) \<and> blocks_ok cap (v_disk (view h))"

definition sd_contents :: "('h \<Rightarrow> sd_view) \<Rightarrow> 'h \<Rightarrow> disk" where
  "sd_contents view h = v_disk (view h)"

lemma cls_of_idle: "sd_idle v \<Longrightarrow> cls (v_disk v) NoData {} v"
  by (simp add: cls_def sd_idle_def)

text \<open>A controller that behaves, with the driver on top of it, is a block device.\<close>

sublocale sd_controller \<subseteq> card: block_device "card_ops host fuel c" "sd_ready cap live view" "sd_contents view" cap
proof
  fix h and lba :: u32 and data :: "u8 list"
  assume h: "sd_ready cap live view h" and lba: "unat lba < cap"
  let ?D = "v_disk (view h)"
  have len: "length (?D lba) = SECTOR_SIZE" using h lba by (simp add: sd_ready_def blocks_ok_def)
  then show "length (sd_contents view h lba) = SECTOR_SIZE" by (simp add: sd_contents_def)
  have pre: "live h" "cls ?D NoData {} (view h)" using h by (simp_all add: sd_ready_def cls_of_idle)
  obtain x h' where "Sd.read_block host fuel c lba h = (Inr x, h')" "live h'" "x = ?D lba" "cls ?D NoData {} (view h')"
    using read_block_ok[where D = ?D, OF lba len] pre unfolding achieves_def by blast
  then show "\<exists>h'. op_read (card_ops host fuel c) lba h = (Inr (sd_contents view h lba), h') \<and>
      sd_ready cap live view h' \<and> sd_contents view h' = sd_contents view h"
    using h by (auto simp: card_ops_def sd_contents_def sd_ready_def cls_def sd_idle_def)
  assume data: "length data = SECTOR_SIZE"
  obtain u h'' where "Sd.write_block host fuel c lba data h = (Inr u, h'')" "live h''" "cls (?D(lba := data)) NoData {} (view h'')"
    using write_block_ok[where D = ?D, OF lba data] pre unfolding achieves_def by blast
  then show "\<exists>h'. op_write (card_ops host fuel c) lba data h = (Inr (), h') \<and>
      sd_ready cap live view h' \<and> sd_contents view h' = (sd_contents view h)(lba := data)"
    using h blocks_ok_write[OF _ data] by (auto simp: card_ops_def sd_contents_def sd_ready_def cls_def sd_idle_def)
qed

context sd_controller
begin

lemma card_device: "block_device (card_ops host fuel c) (sd_ready cap live view) (sd_contents view) cap"
  by unfold_locales

end

section \<open>A controller with this behaviour\<close>

text \<open>Every event of this one becomes visible at the third read of the status register after it was raised.\<close>

definition event_bits :: "sd_event set \<Rightarrow> u32" where
  "event_bits S = (if EvCommand \<in> S then INT_CMD_COMPLETE else 0) OR (if EvTransfer \<in> S then INT_TRANSFER_COMPLETE else 0) OR
     (if EvWriteReady \<in> S then INT_BUFFER_WRITE_READY else 0) OR (if EvReadReady \<in> S then INT_BUFFER_READ_READY else 0)"

definition sim_read :: "u64 \<Rightarrow> sd_view \<times> nat \<Rightarrow> u32 \<times> (sd_view \<times> nat)" where
  "sim_read reg s = (let v = fst s in
     if reg = REG_PRESENT_STATE then (if sd_idle v then 0 else 3, s)
     else if reg = REG_INT_STATUS then
       (if snd s = 0 then (event_bits (v_status v \<union> v_pending v), (v\<lparr>v_status := v_status v \<union> v_pending v, v_pending := {}\<rparr>, 0))
        else (event_bits (v_status v), (v\<lparr>v_pending := v_pending v - v_status v\<rparr>, snd s - 1)))
     else if reg = REG_BUFFER then
       (case v_data v of ToHost bs \<Rightarrow> (rd32 (take 4 bs), (after_read (drop 4 bs) v, 2)) | _ \<Rightarrow> (0, s))
     else (0, s))"

definition sim_write :: "u64 \<Rightarrow> u32 \<Rightarrow> sd_view \<times> nat \<Rightarrow> sd_view \<times> nat" where
  "sim_write reg w s = (let v = fst s in
     if reg = REG_INT_STATUS then (v\<lparr>v_status := {e \<in> v_status v. w AND event_bit e = 0}\<rparr>, snd s)
     else if reg = REG_ARG1 then (v\<lparr>v_arg := w\<rparr>, snd s)
     else if reg = REG_BLOCKSIZE_COUNT then (v\<lparr>v_blk := w\<rparr>, snd s)
     else if reg = REG_TRANSFER_CMD then
       (if w = 0x11220012 then (v\<lparr>v_data := ToHost (v_disk v (v_arg v)), v_pending := {EvCommand, EvReadReady}\<rparr>, 2)
        else if w = 0x18220002 then (v\<lparr>v_data := FromHost (v_arg v) [], v_pending := {EvCommand, EvWriteReady}\<rparr>, 2)
        else (v\<lparr>v_pending := {EvCommand}\<rparr>, 2))
     else if reg = REG_BUFFER then
       (case v_data v of FromHost lba bs \<Rightarrow> (after_write lba (bs @ le32 w) v, 2) | _ \<Rightarrow> s)
     else s)"

definition sim_host :: "(sd_view \<times> nat) sd_host" where
  "sim_host = \<lparr>mmio_read = sim_read, mmio_write = sim_write, timer_ticks = (\<lambda>s. (0, s))\<rparr>"

definition sim_card :: card where "sim_card = \<lparr>rca = 0x10000, block_addressed = True\<rparr>"

lemma event_bits_no_error: "event_bits S AND INT_ERROR_MASK = 0"
  by (simp add: event_bits_def sd_bits)

lemma event_bits_member: "event_bits S AND event_bit e \<noteq> 0 \<longleftrightarrow> e \<in> S"
  by (cases e) (simp_all add: event_bits_def sd_bits)

lemma sim_accesses:
  "timer_ticks sim_host h = (0, h)"
  "mmio_read sim_host REG_PRESENT_STATE h = (if sd_idle (fst h) then 0 else 3, h)"
  "mmio_read sim_host REG_INT_STATUS h = (let S = (if snd h = 0 then v_status (fst h) \<union> v_pending (fst h) else v_status (fst h)) in
     (event_bits S, ((fst h)\<lparr>v_status := S, v_pending := v_pending (fst h) - S\<rparr>, snd h - 1)))"
  "reg \<in> {REG_RESP0, REG_RESP1, REG_RESP2, REG_RESP3} \<Longrightarrow> mmio_read sim_host reg h = (0, h)"
  "v_data (fst h) = ToHost bs \<Longrightarrow> mmio_read sim_host REG_BUFFER h = (rd32 (take 4 bs), (after_read (drop 4 bs) (fst h), 2))"
  "mmio_write sim_host REG_INT_STATUS w h = ((fst h)\<lparr>v_status := {e \<in> v_status (fst h). w AND event_bit e = 0}\<rparr>, snd h)"
  "mmio_write sim_host REG_ARG1 w h = ((fst h)\<lparr>v_arg := w\<rparr>, snd h)"
  "mmio_write sim_host REG_BLOCKSIZE_COUNT w h = ((fst h)\<lparr>v_blk := w\<rparr>, snd h)"
  "mmio_write sim_host REG_TRANSFER_CMD 0x11220012 h =
     ((fst h)\<lparr>v_data := ToHost (v_disk (fst h) (v_arg (fst h))), v_pending := {EvCommand, EvReadReady}\<rparr>, 2)"
  "mmio_write sim_host REG_TRANSFER_CMD 0x18220002 h =
     ((fst h)\<lparr>v_data := FromHost (v_arg (fst h)) [], v_pending := {EvCommand, EvWriteReady}\<rparr>, 2)"
  "v_data (fst h) = FromHost lba bs \<Longrightarrow> mmio_write sim_host REG_BUFFER w h = (after_write lba (bs @ le32 w) (fst h), 2)"
  by (auto simp: sim_host_def sim_read_def sim_write_def sd_regs Let_def split: prod.splits)

interpretation sim: sd_controller sim_host sim_card cap 90 "\<lambda>s. snd s < 90" fst "\<lambda>_. 0" "\<lambda>_. 1" snd 90
proof
  fix h h' :: "sd_view \<times> nat" and w :: u32
  assume h: "snd h < 90" and r: "mmio_read sim_host REG_INT_STATUS h = (w, h')"
  let ?S = "if snd h = 0 then v_status (fst h) \<union> v_pending (fst h) else v_status (fst h)"
  have h': "w = event_bits ?S" "fst h' = (fst h)\<lparr>v_status := ?S, v_pending := v_pending (fst h) - ?S\<rparr>" "snd h' = snd h - 1"
    using r unfolding sim_accesses(3) Let_def by auto
  show "snd h' < 90 \<and> w AND 0xFFFF0000 = 0 \<and>
      (\<exists>S. v_status (fst h) \<subseteq> S \<and> S \<subseteq> v_status (fst h) \<union> v_pending (fst h) \<and> (\<forall>e. w AND event_bit e \<noteq> 0 \<longleftrightarrow> e \<in> S) \<and>
        fst h' = (fst h)\<lparr>v_status := S, v_pending := v_pending (fst h) - S\<rparr> \<and>
        (v_pending (fst h) \<subseteq> S \<or> (0 :: nat) < 1 \<and> (1 :: nat) = 1 \<and> snd h' < snd h))"
    using h h' event_bits_no_error[of ?S, unfolded INT_ERROR_MASK_def] by (intro conjI exI[of _ ?S]) (auto simp: event_bits_member)
qed (auto simp: sim_accesses sim_card_def arg_block_def)

section \<open>Properties\<close>

text \<open>
  C16: the SD driver is a block device: a block that was written is read back byte for byte, no other
  block changes, and the driver and the controller are ready for the next transfer. It holds on every
  controller that follows the register protocol of single-block transfers, as long as it signals no
  error and every event it owes the driver within the 200 ticks (two seconds) the driver waits for
  it, at whatever moment and after whatever number of status reads below the fuel, alone or together
  with others.
\<close>

theorem sd_write_then_read:
  assumes "sd_controller host c cap fuel live view clock due delay polls" and "sd_ready cap live view h"
    and "unat lba < cap" and "length data = SECTOR_SIZE"
  shows "\<exists>h1 h2. write_block host fuel c lba data h = (Inr (), h1) \<and> read_block host fuel c lba h1 = (Inr data, h2) \<and>
    sd_ready cap live view h2 \<and> sd_contents view h2 = (sd_contents view h)(lba := data)"
proof -
  note dev = sd_controller.card_device[OF assms(1)]
  obtain h1 where w: "write_block host fuel c lba data h = (Inr (), h1)" "sd_ready cap live view h1"
      "sd_contents view h1 = (sd_contents view h)(lba := data)"
    using block_device.write_block[OF dev assms(2,3,4)] by (auto simp: card_ops_def)
  with block_device.read_block[OF dev w(2) assms(3)] show ?thesis by (auto simp: card_ops_def)
qed

theorem sd_write_then_read_witness:
  "\<exists>h1 h2. write_block sim_host 90 sim_card 5 (replicate 512 0xAB)
       (\<lparr>v_disk = \<lambda>_. replicate 512 0, v_arg = 0, v_blk = 0, v_data = NoData, v_status = {}, v_pending = {}\<rparr>, 7) = (Inr (), h1) \<and>
     read_block sim_host 90 sim_card 5 h1 = (Inr (replicate 512 0xAB), h2)"
  using sd_write_then_read[OF sim.sd_controller_axioms[of 100],
      of "(\<lparr>v_disk = \<lambda>_. replicate 512 0, v_arg = 0, v_blk = 0, v_data = NoData, v_status = {}, v_pending = {}\<rparr>, 7)" 5 "replicate 512 0xAB"]
  by (auto simp: sd_ready_def sd_idle_def blocks_ok_def)

text \<open>
  The wait for the end of a transfer stops at an error bit too, but the status is not looked at
  again: a transfer that the controller ends with an error is reported as a success.
\<close>

theorem transfer_error_ignored:
  assumes "timer_ticks host h = (t, h1)" "mmio_read host REG_INT_STATUS h1 = (w, h2)" "w AND INT_ERROR_MASK \<noteq> 0"
  shows "await_complete host (Suc fuel) h = (Inr (), mmio_write host REG_INT_STATUS INT_TRANSFER_COMPLETE h2)"
proof -
  have "w AND (INT_TRANSFER_COMPLETE OR INT_ERROR_MASK) \<noteq> 0"
  proof
    assume z: "w AND (INT_TRANSFER_COMPLETE OR INT_ERROR_MASK) = 0"
    have "bit (w AND INT_ERROR_MASK) n \<Longrightarrow> bit (w AND (INT_TRANSFER_COMPLETE OR INT_ERROR_MASK)) n" for n
      by (simp add: bit_and_iff bit_or_iff)
    then have "w AND INT_ERROR_MASK = 0" unfolding z by (auto simp: bit_eq_iff)
    with assms(3) show False ..
  qed
  then show ?thesis
    by (simp add: await_complete_def wait_while_def bits_clear_def io_bind_def io_return_def ticks_now_def mm_read_def mm_write_def assms)
qed

lemma clock_divisor_minimal:
  "base div (2 * clock_divisor base target d) \<le> target \<and> d \<le> clock_divisor base target d \<and>
   (\<forall>d'. d \<le> d' \<longrightarrow> d' < clock_divisor base target d \<longrightarrow> target < base div (2 * d'))"
proof (induction base target d rule: clock_divisor.induct)
  case (1 base target d)
  show ?case
  proof (cases "base div (2 * d) > target")
    case True
    then have eq: "clock_divisor base target d = clock_divisor base target (d + 1)" by (subst clock_divisor.simps) simp
    have "target < base div (2 * d')" if "d \<le> d'" "d' < clock_divisor base target (d + 1)" for d'
      using 1[OF True] True that by (cases "d' = d") auto
    with 1[OF True] show ?thesis unfolding eq by auto
  next
    case False
    then show ?thesis by (subst (1 2 3) clock_divisor.simps) auto
  qed
qed

text \<open>
  The clock set for the card is the fastest one not above the requested frequency that a divider
  2d of the base clock gives, and for the base clocks the capabilities register can state (at most
  63 MHz) and both frequencies the driver asks for, the divider fits the eight bits of the register
  field it is shifted into.
\<close>

theorem sd_clock_at_most_target:
  assumes "base \<le> 63000000" and "400000 \<le> target"
  shows "(let d = clock_divisor base target 1 in
    base div (2 * d) \<le> target \<and> (\<forall>d'. 1 \<le> d' \<longrightarrow> d' < d \<longrightarrow> target < base div (2 * d')) \<and> 1 \<le> d \<and> d \<le> 79)"
proof -
  let ?d = "clock_divisor base target 1"
  note m = clock_divisor_minimal[of base target 1]
  have "?d \<le> 79"
  proof (rule ccontr)
    assume "\<not> ?d \<le> 79"
    then have "target < base div (2 * 79)" using m[THEN conjunct2, THEN conjunct2, rule_format, of 79] by simp
    then show False using assms by simp
  qed
  with m show ?thesis by (simp add: Let_def)
qed

theorem sd_clock_at_most_target_witness:
  "52000000 div (2 * clock_divisor 52000000 400000 1) \<le> (400000 :: nat) \<and> clock_divisor 52000000 400000 1 \<le> 79"
  using sd_clock_at_most_target[of 52000000 400000] by (simp add: Let_def)

text \<open>
  The measure of a wait: the ticks left before the deadline, each worth \<open>k\<close> polls, and the polls left
  until the next tick.
\<close>

definition advances :: "('h \<Rightarrow> nat) \<Rightarrow> ('h \<Rightarrow> nat) \<Rightarrow> 'h \<Rightarrow> 'h \<Rightarrow> bool" where
  "advances clock slack h h' \<longleftrightarrow> clock h' = clock h + 1 \<or> clock h' = clock h \<and> slack h' < slack h"

definition poll_measure :: "nat \<Rightarrow> ('h \<Rightarrow> nat) \<Rightarrow> ('h \<Rightarrow> nat) \<Rightarrow> nat \<Rightarrow> 'h \<Rightarrow> nat" where
  "poll_measure k clock slack D h = k * (D + 1 - clock h) + slack h"

lemma poll_measure_decreases:
  assumes "advances clock slack h h'" "\<And>h. slack h < k" "clock h \<le> D"
  shows "poll_measure k clock slack D h' < poll_measure k clock slack D h"
proof (cases "clock h' = clock h + 1")
  case True
  then have "D + 1 - clock h = Suc (D + 1 - clock h')" using assms(3) by simp
  then show ?thesis using assms(2)[of h'] unfolding poll_measure_def by simp
qed (use assms(1) in \<open>auto simp: advances_def poll_measure_def\<close>)

lemma wait_poll_returns:
  assumes cond: "\<And>h. \<exists>b h'. cond h = (Inr b, h') \<and> (h' = h \<or> advances clock slack h h')"
    and tick: "\<And>h. \<exists>h'. timer_ticks host h = (of_nat (clock h), h') \<and> advances clock slack h h'"
    and slack: "\<And>h. slack h < k" and D: "D + 2 < 2 ^ 64"
  shows "clock h \<le> D + 1 \<Longrightarrow> poll_measure k clock slack D h < n \<Longrightarrow>
    fst (wait_poll host n (of_nat D) cond h) \<in> {Inr (), Inl (Err SdTimeout)}"
proof (induction n arbitrary: h)
  case (Suc n)
  obtain b h1 where c: "cond h = (Inr b, h1)" "h1 = h \<or> advances clock slack h h1" using cond by blast
  obtain h2 where t: "timer_ticks host h1 = (of_nat (clock h1), h2)" "advances clock slack h1 h2" using tick by blast
  have bound: "clock h1 \<le> D + 2" using c(2) Suc.prems(1) by (auto simp: advances_def)
  then have cmp: "(of_nat D :: u64) < of_nat (clock h1) \<longleftrightarrow> D < clock h1"
    using D by (simp add: word_less_nat_alt unat_of_nat)
  show ?case
  proof (cases "b \<and> clock h1 \<le> D")
    case True
    then have "clock h \<le> D" using c(2) by (auto simp: advances_def)
    then have "poll_measure k clock slack D h1 \<le> poll_measure k clock slack D h"
      using c(2) poll_measure_decreases[of clock slack h h1 k D, OF _ slack] by (auto intro: less_imp_le)
    moreover have "poll_measure k clock slack D h2 < poll_measure k clock slack D h1"
      using True by (intro poll_measure_decreases[OF t(2) slack]) simp
    moreover have "clock h2 \<le> D + 1" using t(2) True by (auto simp: advances_def)
    ultimately have "fst (wait_poll host n (of_nat D) cond h2) \<in> {Inr (), Inl (Err SdTimeout)}"
      using Suc.prems(2) by (intro Suc.IH) simp_all
    with True c(1) t(1) cmp show ?thesis by (simp add: io_bind_def ticks_now_def)
  next
    case False
    then show ?thesis using cmp by (cases b) (simp_all add: c(1) t(1) io_bind_def ticks_now_def io_return_def io_throw_def)
  qed
qed simp

text \<open>
  No wait of the SD driver hangs, whatever the controller answers: as long as the tick counter
  advances once in every k accesses, k (timeout + 2) polls are enough for the wait to end, with
  success or with the timeout error.
\<close>

theorem wait_while_returns:
  assumes cond: "\<And>h. \<exists>b h'. cond h = (Inr b, h') \<and> (h' = h \<or> advances clock slack h h')"
    and tick: "\<And>h. \<exists>h'. timer_ticks host h = (of_nat (clock h), h') \<and> advances clock slack h h'"
    and slack: "\<And>h. slack h < k" and uptime: "clock h + unat timeout + 2 < 2 ^ 64"
  shows "fst (wait_while host (k * (unat timeout + 2)) timeout cond h) \<in> {Inr (), Inl (Err SdTimeout)}"
proof -
  obtain h1 where t: "timer_ticks host h = (of_nat (clock h), h1)" "advances clock slack h h1" using tick by blast
  let ?D = "clock h + unat timeout"
  have "of_nat (clock h) + timeout = (of_nat ?D :: u64)" by simp
  moreover have "poll_measure k clock slack ?D h1 < k * (unat timeout + 2)"
    using t(2) slack[of h1] by (auto simp: advances_def poll_measure_def algebra_simps)
  moreover have "clock h1 \<le> ?D + 1" using t(2) by (auto simp: advances_def)
  ultimately have "fst (wait_poll host (k * (unat timeout + 2)) (of_nat (clock h) + timeout) cond h1) \<in> {Inr (), Inl (Err SdTimeout)}"
    using wait_poll_returns[where D = ?D, OF cond tick slack] uptime by auto
  then show ?thesis by (simp add: wait_while_def io_bind_def ticks_now_def t(1))
qed

text \<open>A controller that never becomes ready, on a counter that advances at every third reading.\<close>

theorem wait_while_returns_witness:
  "fst (wait_while \<lparr>mmio_read = (\<lambda>reg h. (0, h)), mmio_write = (\<lambda>reg w h. h), timer_ticks = (\<lambda>h. (of_nat (h div 3), h + 1))\<rparr>
     (3 * (unat (4 :: u64) + 2)) 4 (\<lambda>h. (Inr True, h)) 0) \<in> {Inr (), Inl (Err SdTimeout)}"
proof -
  have "advances (\<lambda>h. h div 3) (\<lambda>h. 2 - h mod 3) h (h + 1)" for h :: nat
    unfolding advances_def by presburger
  then show ?thesis
    by (intro wait_while_returns[where clock = "\<lambda>h. h div 3" and slack = "\<lambda>h. 2 - h mod 3" and k = 3]) auto
qed

end
