(* ===== verification/Block_Io.thy ===== *)
theory Block_Io
  imports Persist Protocol_Db
begin

text \<open>
  \<^verbatim>\<open>src/src/efi/block_io.rs\<close>: the block I/O protocol over the mounted card. The card is the one of
  the cached context; the caller's buffer is the list of its bytes.
\<close>

section \<open>State and operations\<close>

definition BLOCK_IO_PROTOCOL_GUID :: efi_guid where
  "BLOCK_IO_PROTOCOL_GUID = \<lparr>data1 = 0x964E5B21, data2 = 0x6459, data3 = 0x11D2,
     data4 = [0x8E, 0x39, 0x00, 0xA0, 0xC9, 0x69, 0x72, 0x3B]\<rparr>"

record block_io_media =
  media_id :: u32
  removable_media :: u8
  media_present :: u8
  logical_partition :: u8
  read_only :: u8
  write_caching :: u8
  block_size :: u32
  io_align :: u32
  last_block :: u64

definition MEDIA_INIT :: block_io_media where
  "MEDIA_INIT = \<lparr>media_id = 1, removable_media = 1, media_present = 0, logical_partition = 0, read_only = 0,
     write_caching = 0, block_size = 512, io_align = 4, last_block = 0x0FFFFFFF\<rparr>"

definition block_reset :: efi_status where "block_reset = EFI_SUCCESS"

text \<open>The loops; \<open>False\<close> is the early return with DeviceError. The buffer keeps what was read before.\<close>

primrec block_read_loop :: "'d block_ops \<Rightarrow> u32 \<Rightarrow> nat \<Rightarrow> nat \<Rightarrow> u8 list \<Rightarrow> ('d, unit, bool \<times> u8 list) io" where
  "block_read_loop ops lba i 0 out d = (Inr (True, out), d)"
| "block_read_loop ops lba i (Suc n) out d =
     (case op_read ops (lba + of_nat i) d of
        (Inr sector, d') \<Rightarrow> block_read_loop ops lba (i + 1) n (put_seg out (i * 512) sector) d'
      | (Inl (Err _), d') \<Rightarrow> (Inr (False, out), d')
      | (Inl Panic, d') \<Rightarrow> (Inl Panic, d')
      | (Inl OutOfFuel, d') \<Rightarrow> (Inl OutOfFuel, d'))"

primrec block_write_loop :: "'d block_ops \<Rightarrow> u32 \<Rightarrow> nat \<Rightarrow> nat \<Rightarrow> u8 list \<Rightarrow> ('d, unit, bool) io" where
  "block_write_loop ops lba i 0 data d = (Inr True, d)"
| "block_write_loop ops lba i (Suc n) data d =
     (case op_write ops (lba + of_nat i) (seg data (i * 512) 512) d of
        (Inr _, d') \<Rightarrow> block_write_loop ops lba (i + 1) n data d'
      | (Inl (Err _), d') \<Rightarrow> (Inr False, d')
      | (Inl Panic, d') \<Rightarrow> (Inl Panic, d')
      | (Inl OutOfFuel, d') \<Rightarrow> (Inl OutOfFuel, d'))"

definition block_read ::
  "(card \<Rightarrow> 'd block_ops) \<Rightarrow> u64 \<Rightarrow> nat \<Rightarrow> u8 list option \<Rightarrow>
   (('d, 'x) persist_world_scheme, unit, efi_status \<times> u8 list option) io" where
  "block_read dev lba buffer_size buffer w =
     (if buffer = None \<or> buffer_size mod 512 \<noteq> 0 then (Inr (EFI_INVALID_PARAMETER, buffer), w)
      else
        (case get_context w of
           None \<Rightarrow> (Inr (EFI_DEVICE_ERROR, buffer), w)
         | Some (c, _) \<Rightarrow>
             (case block_read_loop (dev c) (ucast lba) 0 (buffer_size div 512) (the buffer) (pw_dev w) of
                (Inr (True, out), d) \<Rightarrow> (Inr (EFI_SUCCESS, Some out), w\<lparr>pw_dev := d\<rparr>)
              | (Inr (False, out), d) \<Rightarrow> (Inr (EFI_DEVICE_ERROR, Some out), w\<lparr>pw_dev := d\<rparr>)
              | (Inl e, d) \<Rightarrow> (Inl e, w\<lparr>pw_dev := d\<rparr>))))"

definition block_write ::
  "(card \<Rightarrow> 'd block_ops) \<Rightarrow> u64 \<Rightarrow> nat \<Rightarrow> u8 list option \<Rightarrow> (('d, 'x) persist_world_scheme, unit, efi_status) io" where
  "block_write dev lba buffer_size buffer w =
     (if buffer = None \<or> buffer_size mod 512 \<noteq> 0 then (Inr EFI_INVALID_PARAMETER, w)
      else
        (case get_context w of
           None \<Rightarrow> (Inr EFI_DEVICE_ERROR, w)
         | Some (c, _) \<Rightarrow>
             (case block_write_loop (dev c) (ucast lba) 0 (buffer_size div 512) (the buffer) (pw_dev w) of
                (Inr True, d) \<Rightarrow> (Inr EFI_SUCCESS, w\<lparr>pw_dev := d\<rparr>)
              | (Inr False, d) \<Rightarrow> (Inr EFI_DEVICE_ERROR, w\<lparr>pw_dev := d\<rparr>)
              | (Inl e, d) \<Rightarrow> (Inl e, w\<lparr>pw_dev := d\<rparr>))))"

definition block_flush :: efi_status where "block_flush = EFI_SUCCESS"

text \<open>\<open>proto\<close> is the address of the static protocol structure.\<close>

definition block_io_install ::
  "('d, 'x) persist_world_scheme \<Rightarrow> addr \<Rightarrow> nat \<Rightarrow> block_io_media \<times> handle_db \<Rightarrow> (bool \<times> block_io_media \<times> handle_db) checked" where
  "block_io_install w proto index s =
     (case s of (media, hs) \<Rightarrow>
        (case db_install hs index BLOCK_IO_PROTOCOL_GUID proto of
           Inl e \<Rightarrow> Inl e
         | Inr (ok, hs') \<Rightarrow>
             Inr (ok, media\<lparr>media_present := (if get_context w = None then 0 else 1)\<rparr>, hs')))"

section \<open>Runs of blocks\<close>

text \<open>The medium after \<open>n\<close> blocks of \<open>data\<close> from number \<open>i\<close> on were written at \<open>lba + i\<close>.\<close>

definition put_blocks :: "u32 \<Rightarrow> nat \<Rightarrow> nat \<Rightarrow> u8 list \<Rightarrow> disk \<Rightarrow> disk" where
  "put_blocks lba i n data D l =
     (if unat lba + i \<le> unat l \<and> unat l < unat lba + i + n then seg data ((unat l - unat lba) * 512) 512 else D l)"

definition get_blocks :: "u32 \<Rightarrow> nat \<Rightarrow> nat \<Rightarrow> disk \<Rightarrow> u8 list" where
  "get_blocks lba i n D = concat (map (\<lambda>j. D (lba + of_nat j)) [i..<i + n])"

lemma lba_offset: "unat lba + j < 2 ^ 32 \<Longrightarrow> unat (lba + of_nat j :: u32) = unat lba + j"
  by (simp add: unat_word_ariths unat_of_nat)

lemma put_blocks_step:
  assumes "unat lba + i + Suc n \<le> 2 ^ 32"
  shows "put_blocks lba (i + 1) n data (D(lba + of_nat i := seg data (i * 512) 512)) = put_blocks lba i (Suc n) data D"
proof
  fix l
  have "l = lba + of_nat i \<longleftrightarrow> unat l = unat lba + i"
    using assms lba_offset[of lba i] by (auto simp: word_unat_eq_iff)
  then show "put_blocks lba (i + 1) n data (D(lba + of_nat i := seg data (i * 512) 512)) l = put_blocks lba i (Suc n) data D l"
    by (auto simp: put_blocks_def)
qed

lemma get_blocks_Suc: "get_blocks lba i (Suc n) D = D (lba + of_nat i) @ get_blocks lba (i + 1) n D"
proof -
  have "[i..<i + Suc n] = i # [i + 1..<i + 1 + n]" by (simp add: upt_conv_Cons del: upt_Suc)
  then show ?thesis by (simp only: get_blocks_def list.map concat.simps)
qed

lemma length_get_blocks:
  assumes "unat lba + i + n \<le> cap" "unat lba + i + n \<le> 2 ^ 32" "blocks_ok cap D"
  shows "length (get_blocks lba i n D) = n * 512"
proof -
  have "length (D (lba + of_nat j)) = 512" if "j \<in> set [i..<i + n]" for j
    using that assms lba_offset[of lba j] blocks_okD[OF assms(3), of "lba + of_nat j"] by simp
  then have "map (\<lambda>j. length (D (lba + of_nat j))) [i..<i + n] = map (\<lambda>_. 512) [i..<i + n]"
    by (rule map_cong[OF refl])
  then have "sum_list (map (\<lambda>j. length (D (lba + of_nat j))) [i..<i + n]) = n * 512" by (simp only: sum_list_triv) simp
  then show ?thesis by (simp add: get_blocks_def length_concat comp_def)
qed

context block_device
begin

lemma exec_block_write:
  "unat lba + i + n \<le> cap \<Longrightarrow> unat lba + i + n \<le> 2 ^ 32 \<Longrightarrow> (i + n) * 512 \<le> length data \<Longrightarrow>
   exec (block_write_loop ops lba i n data) D (Inr True) (put_blocks lba i n data D)"
proof (induction n arbitrary: i D)
  case 0
  have "put_blocks lba i 0 data D = D" by (rule ext) (auto simp: put_blocks_def)
  then show ?case by (simp add: runs_def)
next
  case (Suc n)
  have "unat (lba + of_nat i) < cap" using Suc.prems lba_offset[of lba i] by simp
  then have w: "exec (op_write ops (lba + of_nat i) (seg data (i * 512) 512)) D (Inr ()) (D(lba + of_nat i := seg data (i * 512) 512))"
    using Suc.prems by (intro exec_write) auto
  have "exec (block_write_loop ops lba (i + 1) n data) (D(lba + of_nat i := seg data (i * 512) 512)) (Inr True)
      (put_blocks lba (i + 1) n data (D(lba + of_nat i := seg data (i * 512) 512)))"
    using Suc.prems by (intro Suc.IH) simp_all
  moreover have "unat lba + i + Suc n \<le> 2 ^ 32" using Suc.prems by simp
  ultimately have "exec (block_write_loop ops lba (i + 1) n data) (D(lba + of_nat i := seg data (i * 512) 512)) (Inr True)
      (put_blocks lba i (Suc n) data D)" by (simp only: put_blocks_step)
  with w show ?case unfolding runs_def by fastforce
qed

lemma exec_block_read:
  "unat lba + i + n \<le> cap \<Longrightarrow> unat lba + i + n \<le> 2 ^ 32 \<Longrightarrow> blocks_ok cap D \<Longrightarrow> (i + n) * 512 \<le> length out \<Longrightarrow>
   exec (block_read_loop ops lba i n out) D (Inr (True, put_seg out (i * 512) (get_blocks lba i n D))) D"
proof (induction n arbitrary: i out)
  case 0
  then show ?case by (simp add: runs_def get_blocks_def)
next
  case (Suc n)
  have l: "unat (lba + of_nat i) < cap" using Suc.prems lba_offset[of lba i] by simp
  then have len: "length (D (lba + of_nat i)) = 512" using Suc.prems blocks_okD by blast
  have "length (get_blocks lba (i + 1) n D) = n * 512"
    using Suc.prems by (intro length_get_blocks[where cap = cap]) simp_all
  then have "put_seg (put_seg out (i * 512) (D (lba + of_nat i))) ((i + 1) * 512) (get_blocks lba (i + 1) n D) =
      put_seg out (i * 512) (get_blocks lba i (Suc n) D)"
    using put_seg_append[of "i * 512" "D (lba + of_nat i)" "get_blocks lba (i + 1) n D" out] Suc.prems len
    by (simp add: get_blocks_Suc add.commute)
  with Suc.IH[of "i + 1" "put_seg out (i * 512) (D (lba + of_nat i))"] Suc.prems len
  have "exec (block_read_loop ops lba (i + 1) n (put_seg out (i * 512) (D (lba + of_nat i)))) D
      (Inr (True, put_seg out (i * 512) (get_blocks lba i (Suc n) D))) D" by simp
  with exec_read[OF l] show ?case unfolding runs_def by fastforce
qed

end

lemma get_put_blocks:
  assumes "unat lba + i + n \<le> 2 ^ 32" "(i + n) * 512 \<le> length data"
  shows "get_blocks lba i n (put_blocks lba i n data D) = seg data (i * 512) (n * 512)"
proof -
  have "put_blocks lba i n data D (lba + of_nat j) = seg data (j * 512) 512" if "j \<in> set [i..<i + n]" for j
    using that assms(1) lba_offset[of lba j] by (simp add: put_blocks_def)
  then have "get_blocks lba i n (put_blocks lba i n data D) = concat (map (\<lambda>j. seg data (j * 512) 512) [i..<i + n])"
    unfolding get_blocks_def by (intro arg_cong[of _ _ concat] map_cong) simp_all
  also have "\<dots> = seg data (i * 512) (n * 512)"
  proof (induction n)
    case (Suc n)
    have "seg data (i * 512) (Suc n * 512) = seg data (i * 512) (n * 512) @ seg data ((i + n) * 512) 512"
      using take_add[of "n * 512" 512 "drop (i * 512) data"] by (simp add: seg_def add.commute distrib_right)
    with Suc show ?case by simp
  qed (simp add: seg_def)
  finally show ?thesis .
qed

text \<open>
  What WriteBlocks stores ReadBlocks returns: writing a buffer of whole blocks inside the card
  succeeds, changes exactly those blocks, and reading the same range afterwards gives the same bytes.
\<close>

theorem block_write_then_read:
  assumes dev: "block_device (dev c) ready contents cap" and ctx: "pw_context w = Some (c, fs)" and d: "ready (pw_dev w)"
    and size: "length data = n * 512" "length buf = n * 512" and range: "0 < n" "unat lba + n \<le> cap" "unat lba + n \<le> 2 ^ 32"
  shows "\<exists>w1 w2. block_write dev lba (n * 512) (Some data) w = (Inr EFI_SUCCESS, w1) \<and>
    (\<forall>l. contents (pw_dev w1) l = (if unat lba \<le> unat l \<and> unat l < unat lba + n
       then seg data ((unat l - unat lba) * 512) 512 else contents (pw_dev w) l)) \<and>
    block_read dev lba (n * 512) (Some buf) w1 = (Inr (EFI_SUCCESS, Some data), w2)"
proof -
  let ?l = "ucast lba :: u32" and ?D = "contents (pw_dev w)"
  have l: "unat ?l = unat lba" using range by (simp add: unsigned_ucast_eq take_bit_nat_eq_self)
  let ?D1 = "put_blocks ?l 0 n data ?D"
  obtain d1 where d1: "block_write_loop (dev c) ?l 0 n data (pw_dev w) = (Inr True, d1)" "ready d1" "contents d1 = ?D1"
    using runsD[OF block_device.exec_block_write[OF dev, of ?l 0 n data ?D] d refl] range size l by auto
  have "put_seg buf 0 (get_blocks ?l 0 n ?D1) = data"
    using get_put_blocks[of ?l 0 n data ?D] range size l by (simp add: put_seg_def seg_def)
  then obtain d2 where d2: "block_read_loop (dev c) ?l 0 n buf d1 = (Inr (True, data), d2)"
    using runsD[OF block_device.exec_block_read[OF dev, of ?l 0 n ?D1 buf] d1(2,3)]
      block_device.ready_blocks_ok[OF dev d1(2)] d1(3) range size l by auto
  have "block_write dev lba (n * 512) (Some data) w = (Inr EFI_SUCCESS, w\<lparr>pw_dev := d1\<rparr>)"
    by (simp add: block_write_def get_context_def ctx d1(1))
  moreover have "block_read dev lba (n * 512) (Some buf) (w\<lparr>pw_dev := d1\<rparr>) = (Inr (EFI_SUCCESS, Some data), w\<lparr>pw_dev := d2\<rparr>)"
    by (simp add: block_read_def get_context_def ctx d2)
  ultimately show ?thesis by (auto simp: d1(3) put_blocks_def l)
qed

theorem block_write_then_read_witness:
  "\<exists>w1 w2. block_write (\<lambda>_. ram_ops) 5 512 (Some (replicate 512 1))
       \<lparr>pw_vars = VARS_INIT, pw_context = Some (\<lparr>rca = 0, block_addressed = True\<rparr>, demo_fs), pw_dev = demo_disk\<rparr> = (Inr EFI_SUCCESS, w1) \<and>
     block_read (\<lambda>_. ram_ops) 5 512 (Some (replicate 512 0)) w1 = (Inr (EFI_SUCCESS, Some (replicate 512 1)), w2)"
  using block_write_then_read[where dev = "\<lambda>_. ram_ops" and n = 1 and lba = 5 and data = "replicate 512 1" and buf = "replicate 512 0"
      and c = "\<lparr>rca = 0, block_addressed = True\<rparr>" and fs = demo_fs and
      w = "\<lparr>pw_vars = VARS_INIT, pw_context = Some (\<lparr>rca = 0, block_addressed = True\<rparr>, demo_fs), pw_dev = demo_disk\<rparr>", OF demo_device]
  by (auto simp: demo_ready)

end
