(* ===== verification/File_Protocol.thy ===== *)
theory File_Protocol
  imports Persist Protocol_Db
begin

text \<open>
  \<^verbatim>\<open>src/src/efi/file_protocol.rs\<close>: EFI_SIMPLE_FILE_SYSTEM_PROTOCOL and EFI_FILE_PROTOCOL over the
  FAT32 driver. An open file is a slot of the table \<^verbatim>\<open>FILES\<close> with the whole contents cached; the world
  of the persistence component is extended with that table. \<open>protos\<close> is the address of the array
  \<^verbatim>\<open>PROTOS\<close>, whose elements (eleven words each) are the file handles. The scratch buffer
  \<^verbatim>\<open>OPEN_SCRATCH\<close> is local to a call here: only bytes just read into it are copied out.
\<close>

unbundle bit_operations_syntax

section \<open>State\<close>

definition SIMPLE_FILE_SYSTEM_PROTOCOL_GUID :: efi_guid where
  "SIMPLE_FILE_SYSTEM_PROTOCOL_GUID = \<lparr>data1 = 0x964E5B22, data2 = 0x6459, data3 = 0x11D2,
     data4 = [0x8E, 0x39, 0x00, 0xA0, 0xC9, 0x69, 0x72, 0x3B]\<rparr>"

definition FILE_INFO_GUID :: efi_guid where
  "FILE_INFO_GUID = \<lparr>data1 = 0x09576E92, data2 = 0x6D3F, data3 = 0x11D2,
     data4 = [0x8E, 0x39, 0x00, 0xA0, 0xC9, 0x69, 0x72, 0x3B]\<rparr>"

definition EFI_FILE_MODE_WRITE :: u64 where "EFI_FILE_MODE_WRITE = 2"
definition EFI_FILE_MODE_CREATE :: u64 where "EFI_FILE_MODE_CREATE = 0x8000000000000000"
definition EFI_FILE_DIRECTORY :: u64 where "EFI_FILE_DIRECTORY = 0x10"
definition EFI_WARN_DELETE_FAILURE :: efi_status where "EFI_WARN_DELETE_FAILURE = 9"

definition MAX_OPEN_FILES :: nat where "MAX_OPEN_FILES = 4"
definition MAX_FILE_BYTES :: nat where "MAX_FILE_BYTES = 65536"
definition MAX_DIR_ENTRIES :: nat where "MAX_DIR_ENTRIES = 16"

record open_file =
  f_in_use :: bool
  f_dir_cluster :: "u32 option"
  f_name_8_3 :: "u8 list"
  f_data :: "u8 list"
  f_len :: nat
  f_pos :: nat
  f_dirty :: bool
  f_for_write :: bool
  f_dir_names :: "u8 list list"
  f_dir_sizes :: "u32 list"
  f_dir_count :: nat
  f_dir_index :: nat

definition EMPTY_FILE :: open_file where
  "EMPTY_FILE = \<lparr>f_in_use = False, f_dir_cluster = None, f_name_8_3 = replicate 11 0x20,
     f_data = replicate MAX_FILE_BYTES 0, f_len = 0, f_pos = 0, f_dirty = False, f_for_write = False,
     f_dir_names = replicate MAX_DIR_ENTRIES (replicate 11 0x20), f_dir_sizes = replicate MAX_DIR_ENTRIES 0,
     f_dir_count = 0, f_dir_index = 0\<rparr>"

record 'd fp_world = "'d persist_world" +
  fp_files :: "open_file list"

definition FILES_INIT :: "open_file list" where
  "FILES_INIT = replicate MAX_OPEN_FILES EMPTY_FILE"

type_synonym ('d, 'a) fp_io = "('d fp_world, unit, 'a) io"

text \<open>\<^verbatim>\<open>size_of::<FileProtocol>()\<close>: the revision and ten function pointers.\<close>

definition FILE_PROTOCOL_SIZE :: nat where "FILE_PROTOCOL_SIZE = 88"

section \<open>Slots\<close>

definition this_to_index :: "addr \<Rightarrow> open_file list \<Rightarrow> addr \<Rightarrow> nat option" where
  "this_to_index protos files this =
     (if this < protos then None
      else
        let i = unat (this - protos) div FILE_PROTOCOL_SIZE in
        if i < MAX_OPEN_FILES \<and> f_in_use (files ! i) then Some i else None)"

definition alloc_slot :: "'d fp_world \<Rightarrow> nat option \<times> 'd fp_world" where
  "alloc_slot w =
     (case first_free f_in_use (fp_files w) of
        Some i \<Rightarrow> (Some i, w\<lparr>fp_files := (fp_files w)[i := EMPTY_FILE\<lparr>f_in_use := True\<rparr>]\<rparr>)
      | None \<Rightarrow> (None, w))"

definition slot_handle :: "addr \<Rightarrow> nat \<Rightarrow> addr" where
  "slot_handle protos i = protos + of_nat (FILE_PROTOCOL_SIZE * i)"

definition upd_file :: "nat \<Rightarrow> (open_file \<Rightarrow> open_file) \<Rightarrow> 'd fp_world \<Rightarrow> 'd fp_world" where
  "upd_file i g w = w\<lparr>fp_files := (fp_files w)[i := g (fp_files w ! i)]\<rparr>"

text \<open>A FAT32 operation whose error the caller inspects only for its presence.\<close>

definition volume_try :: "('d, fat32_error, 'a) io \<Rightarrow> ('d, 'a option) fp_io" where
  "volume_try m w =
     (case m (pw_dev w) of
        (Inr x, d) \<Rightarrow> (Inr (Some x), w\<lparr>pw_dev := d\<rparr>)
      | (Inl (Err _), d) \<Rightarrow> (Inr None, w\<lparr>pw_dev := d\<rparr>)
      | (Inl Panic, d) \<Rightarrow> (Inl Panic, w\<lparr>pw_dev := d\<rparr>)
      | (Inl OutOfFuel, d) \<Rightarrow> (Inl OutOfFuel, w\<lparr>pw_dev := d\<rparr>))"

section \<open>Paths\<close>

text \<open>The loop of \<^verbatim>\<open>char16_path_to_ascii\<close>; \<open>out\<close> is what has been converted, of at most 128 bytes.\<close>

function path_loop :: "char16_ptr \<Rightarrow> nat \<Rightarrow> u8 list \<Rightarrow> u8 list option" where
  "path_loop path i out =
     (if path i = 0 then Some out
      else if length out \<ge> 128 then None
      else path_loop path (i + 1) (out @ [if path i < 128 then ucast (path i) else 0x3F]))"
  by pat_completeness auto
termination by (relation "measure (\<lambda>(path, i, out). 128 - length out)") auto

declare path_loop.simps [simp del]

definition char16_path_to_ascii :: "char16_ptr \<Rightarrow> u8 list option" where
  "char16_path_to_ascii path = path_loop path 0 []"

definition is_root_path :: "char16_ptr \<Rightarrow> bool" where
  "is_root_path path \<longleftrightarrow>
     (if path 0 = 0 then True
      else if path 0 = 0x5C then path 1 = 0
      else path 0 = 0x2E \<and> path 1 = 0)"

definition to_8_3_or_none :: "u8 list \<Rightarrow> u8 list option" where
  "to_8_3_or_none component =
     (let (base, ext) = (case position (\<lambda>b. b = 0x2E) component of
                           Some dot \<Rightarrow> (take dot component, drop (dot + 1) component)
                         | None \<Rightarrow> (component, [])) in
      if base = [] \<or> length base > 8 \<or> length ext > 3 then None
      else Some (put_seg (put_seg (replicate 11 0x20) 0 (map to_ascii_uppercase base))
                   8 (map to_ascii_uppercase ext)))"

section \<open>Opening\<close>

text \<open>A failed listing counts as empty; the names array it leaves is then not looked at.\<close>

definition open_dir :: "(card \<Rightarrow> 'd block_ops) \<Rightarrow> nat \<Rightarrow> card \<Rightarrow> fat32 \<Rightarrow> u32 \<Rightarrow> ('d, nat option) fp_io" where
  "open_dir dev fuel c fs dir_cluster w =
     (case alloc_slot w of
        (None, w1) \<Rightarrow> (Inr None, w1)
      | (Some i, w1) \<Rightarrow>
          (let l0 = \<lparr>l_names = replicate MAX_DIR_ENTRIES (replicate 11 0), l_sizes = replicate MAX_DIR_ENTRIES 0, l_count = 0\<rparr> in
           io_bind (volume_try (list_dir (dev c) fs fuel dir_cluster l0)) (\<lambda>r w2.
             let l = (case r of Some l \<Rightarrow> l | None \<Rightarrow> l0) in
             (Inr (Some i), upd_file i (\<lambda>f. f\<lparr>f_dir_names := l_names l, f_dir_sizes := l_sizes l,
                f_dir_count := l_count l, f_dir_index := 0\<rparr>) w2))
           (upd_file i (\<lambda>f. f\<lparr>f_dir_cluster := Some dir_cluster\<rparr>) w1)))"

text \<open>Opening a directory and answering with its handle.\<close>

definition open_dir_handle ::
  "(card \<Rightarrow> 'd block_ops) \<Rightarrow> nat \<Rightarrow> addr \<Rightarrow> card \<Rightarrow> fat32 \<Rightarrow> u32 \<Rightarrow> addr \<Rightarrow> ('d, efi_status \<times> addr option) fp_io" where
  "open_dir_handle dev fuel protos c fs dir_cluster new_handle =
     io_bind (open_dir dev fuel c fs dir_cluster) (\<lambda>r.
       case r of
         None \<Rightarrow> io_return (EFI_OUT_OF_RESOURCES, Some new_handle)
       | Some i \<Rightarrow> io_return (EFI_SUCCESS, Some (slot_handle protos i)))"

definition open_volume ::
  "(card \<Rightarrow> 'd block_ops) \<Rightarrow> nat \<Rightarrow> addr \<Rightarrow> addr option \<Rightarrow> ('d, efi_status \<times> addr option) fp_io" where
  "open_volume dev fuel protos root w =
     (case root of
        None \<Rightarrow> (Inr (EFI_INVALID_PARAMETER, None), w)
      | Some r \<Rightarrow>
          (case get_context w of
             None \<Rightarrow> (Inr (EFI_NOT_FOUND, root), w)
           | Some (c, fs) \<Rightarrow> open_dir_handle dev fuel protos c fs (root_cluster fs) r w))"

text \<open>A slot for a file whose contents have just been read.\<close>

definition open_contents ::
  "addr \<Rightarrow> u8 list \<Rightarrow> u8 list \<Rightarrow> bool \<Rightarrow> addr \<Rightarrow> ('d, efi_status \<times> addr option) fp_io" where
  "open_contents protos name contents for_write new_handle w =
     (case alloc_slot w of
        (None, w1) \<Rightarrow> (Inr (EFI_OUT_OF_RESOURCES, Some new_handle), w1)
      | (Some i, w1) \<Rightarrow>
          (Inr (EFI_SUCCESS, Some (slot_handle protos i)),
           upd_file i (\<lambda>f. f\<lparr>f_name_8_3 := name, f_data := put_seg (f_data f) 0 contents, f_len := length contents,
             f_pos := 0, f_for_write := for_write, f_dirty := False\<rparr>) w1))"

definition open_root_file ::
  "(card \<Rightarrow> 'd block_ops) \<Rightarrow> nat \<Rightarrow> addr \<Rightarrow> card \<Rightarrow> fat32 \<Rightarrow> u8 list \<Rightarrow> u64 \<Rightarrow> addr \<Rightarrow> ('d, efi_status \<times> addr option) fp_io" where
  "open_root_file dev fuel protos c fs path open_mode new_handle =
     (case to_8_3_or_none path of
        None \<Rightarrow> io_return (EFI_NOT_FOUND, Some new_handle)
      | Some name \<Rightarrow>
          (let finish = (\<lambda>contents. open_contents protos name contents (open_mode AND EFI_FILE_MODE_WRITE \<noteq> 0) new_handle) in
           io_bind (volume_try (read_file (dev c) fs fuel name (replicate MAX_FILE_BYTES 0))) (\<lambda>r.
             case r of
               Some (n, buf) \<Rightarrow> finish (take n buf)
             | None \<Rightarrow>
                 if open_mode AND EFI_FILE_MODE_CREATE \<noteq> 0 then
                   io_bind (volume_try (write_file (dev c) fs fuel name [])) (\<lambda>r2.
                     case r2 of
                       None \<Rightarrow> io_return (EFI_UNSUPPORTED, Some new_handle)
                     | Some _ \<Rightarrow> finish [])
                 else io_return (EFI_NOT_FOUND, Some new_handle))))"

definition open_other ::
  "(card \<Rightarrow> 'd block_ops) \<Rightarrow> nat \<Rightarrow> addr \<Rightarrow> card \<Rightarrow> fat32 \<Rightarrow> u32 \<Rightarrow> u8 list \<Rightarrow> u64 \<Rightarrow> addr \<Rightarrow> ('d, efi_status \<times> addr option) fp_io" where
  "open_other dev fuel protos c fs start_cluster path open_mode new_handle =
     (if open_mode AND (EFI_FILE_MODE_WRITE OR EFI_FILE_MODE_CREATE) \<noteq> 0
      then io_return (EFI_WRITE_PROTECTED, Some new_handle)
      else
        io_bind (volume_try (resolve_from (dev c) fs fuel start_cluster path)) (\<lambda>r.
          case r of
            None \<Rightarrow> io_return (EFI_NOT_FOUND, Some new_handle)
          | Some (first_cluster, file_size, is_dir) \<Rightarrow>
              if is_dir then
                open_dir_handle dev fuel protos c fs (if first_cluster = 0 then root_cluster fs else first_cluster) new_handle
              else
                io_bind (volume_try (read_from (dev c) fs fuel first_cluster file_size (replicate MAX_FILE_BYTES 0))) (\<lambda>r2.
                  case r2 of
                    None \<Rightarrow> io_return (EFI_NOT_FOUND, Some new_handle)
                  | Some (n, buf) \<Rightarrow>
                      open_contents protos
                        (case to_8_3_or_none (last (split_on 0x5C path)) of Some name \<Rightarrow> name | None \<Rightarrow> replicate 11 0x20)
                        (take n buf) False new_handle)))"

definition file_open ::
  "(card \<Rightarrow> 'd block_ops) \<Rightarrow> nat \<Rightarrow> addr \<Rightarrow> addr \<Rightarrow> addr option \<Rightarrow> char16_ptr option \<Rightarrow> u64 \<Rightarrow>
   ('d, efi_status \<times> addr option) fp_io" where
  "file_open dev fuel protos this new_handle file_name open_mode w =
     (if new_handle = None \<or> file_name = None then (Inr (EFI_INVALID_PARAMETER, new_handle), w)
      else
        (case this_to_index protos (fp_files w) this of
           None \<Rightarrow> (Inr (EFI_INVALID_PARAMETER, new_handle), w)
         | Some parent \<Rightarrow>
             (case f_dir_cluster (fp_files w ! parent) of
                None \<Rightarrow> (Inr (EFI_UNSUPPORTED, new_handle), w)
              | Some parent_dir_cluster \<Rightarrow>
                  (case get_context w of
                     None \<Rightarrow> (Inr (EFI_NOT_FOUND, new_handle), w)
                   | Some (c, fs) \<Rightarrow>
                       if is_root_path (the file_name) then
                         open_dir_handle dev fuel protos c fs parent_dir_cluster (the new_handle) w
                       else
                         (case char16_path_to_ascii (the file_name) of
                            None \<Rightarrow> (Inr (EFI_NOT_FOUND, new_handle), w)
                          | Some raw \<Rightarrow>
                              (let (start_cluster, path) =
                                 (if raw \<noteq> [] \<and> raw ! 0 = 0x5C then (root_cluster fs, drop 1 raw) else (parent_dir_cluster, raw)) in
                               if 0x5C \<notin> set path \<and> start_cluster = root_cluster fs then
                                 open_root_file dev fuel protos c fs path open_mode (the new_handle) w
                               else
                                 open_other dev fuel protos c fs start_cluster path open_mode (the new_handle) w))))))"

section \<open>Closing\<close>

definition flush_if_dirty :: "(card \<Rightarrow> 'd block_ops) \<Rightarrow> nat \<Rightarrow> nat \<Rightarrow> ('d, unit) fp_io" where
  "flush_if_dirty dev fuel i w =
     (let f = fp_files w ! i in
      if f_for_write f \<and> f_dirty f then
        io_bind
          (case get_context w of
             Some (c, fs) \<Rightarrow>
               io_bind (volume_try (write_file (dev c) fs fuel (f_name_8_3 f) (take (f_len f) (f_data f)))) (\<lambda>_. io_return ())
           | None \<Rightarrow> io_return ())
          (\<lambda>_ w'. (Inr (), upd_file i (\<lambda>f. f\<lparr>f_dirty := False\<rparr>) w')) w
      else (Inr (), w))"

definition file_close :: "(card \<Rightarrow> 'd block_ops) \<Rightarrow> nat \<Rightarrow> addr \<Rightarrow> addr \<Rightarrow> ('d, efi_status) fp_io" where
  "file_close dev fuel protos this w =
     (case this_to_index protos (fp_files w) this of
        None \<Rightarrow> (Inr EFI_INVALID_PARAMETER, w)
      | Some i \<Rightarrow>
          io_bind (flush_if_dirty dev fuel i) (\<lambda>_ w'. (Inr EFI_SUCCESS, upd_file i (\<lambda>f. f\<lparr>f_in_use := False\<rparr>) w')) w)"

definition file_delete :: "(card \<Rightarrow> 'd block_ops) \<Rightarrow> nat \<Rightarrow> addr \<Rightarrow> addr \<Rightarrow> ('d, efi_status) fp_io" where
  "file_delete dev fuel protos this =
     io_bind (file_close dev fuel protos this) (\<lambda>_. io_return EFI_WARN_DELETE_FAILURE)"

definition file_flush :: "(card \<Rightarrow> 'd block_ops) \<Rightarrow> nat \<Rightarrow> addr \<Rightarrow> addr \<Rightarrow> ('d, efi_status) fp_io" where
  "file_flush dev fuel protos this w =
     (case this_to_index protos (fp_files w) this of
        None \<Rightarrow> (Inr EFI_INVALID_PARAMETER, w)
      | Some i \<Rightarrow> io_bind (flush_if_dirty dev fuel i) (\<lambda>_. io_return EFI_SUCCESS) w)"

section \<open>File information\<close>

text \<open>The units of the displayed name, with its terminator.\<close>

definition info_units :: "u8 list \<Rightarrow> u16 list" where
  "info_units name_8_3 =
     (let base = filter (\<lambda>b. b \<noteq> 0x20) (seg name_8_3 0 8);
          ext = seg name_8_3 8 3
      in map ucast base
         @ (if ext \<noteq> [0x20, 0x20, 0x20] then 0x2E # map ucast (filter (\<lambda>b. b \<noteq> 0x20) ext) else []) @ [0])"

text \<open>The bytes written, or the number that would be needed.\<close>

definition write_file_info :: "nat \<Rightarrow> u8 list \<Rightarrow> u64 \<Rightarrow> bool \<Rightarrow> nat + u8 list" where
  "write_file_info capacity name_8_3 file_size is_dir =
     (let name_units = info_units name_8_3;
          header_len = 8 * 3 + 16 * 3 + 8;
          total = header_len + length name_units * 2 in
      if capacity < total then Inl total
      else
        Inr (le64 (of_nat total) @ le64 file_size @ le64 file_size @ replicate 48 0
             @ le64 (if is_dir then EFI_FILE_DIRECTORY else 0) @ concat (map le16 name_units)))"

section \<open>Reading and writing\<close>

text \<open>
  The result of a call with a size and a buffer: the status, the size written back and the bytes
  written to the start of the buffer.
\<close>

record transfer =
  tr_status :: efi_status
  tr_size :: "nat option"
  tr_bytes :: "u8 list"

definition file_read :: "addr \<Rightarrow> addr \<Rightarrow> nat option \<Rightarrow> bool \<Rightarrow> 'd fp_world \<Rightarrow> transfer \<times> 'd fp_world" where
  "file_read protos this buffer_size buffer_null w =
     (if buffer_size = None \<or> buffer_null then (\<lparr>tr_status = EFI_INVALID_PARAMETER, tr_size = buffer_size, tr_bytes = []\<rparr>, w)
      else
        (case this_to_index protos (fp_files w) this of
           None \<Rightarrow> (\<lparr>tr_status = EFI_INVALID_PARAMETER, tr_size = buffer_size, tr_bytes = []\<rparr>, w)
         | Some i \<Rightarrow>
             (let f = fp_files w ! i in
              if f_dir_cluster f \<noteq> None then
                if f_dir_index f \<ge> f_dir_count f then (\<lparr>tr_status = EFI_SUCCESS, tr_size = Some 0, tr_bytes = []\<rparr>, w)
                else
                  (case write_file_info (the buffer_size) (f_dir_names f ! f_dir_index f)
                          (ucast (f_dir_sizes f ! f_dir_index f)) True of
                     Inr bytes \<Rightarrow>
                       (\<lparr>tr_status = EFI_SUCCESS, tr_size = Some (length bytes), tr_bytes = bytes\<rparr>,
                        upd_file i (\<lambda>f. f\<lparr>f_dir_index := f_dir_index f + 1\<rparr>) w)
                   | Inl needed \<Rightarrow> (\<lparr>tr_status = EFI_BUFFER_TOO_SMALL, tr_size = Some needed, tr_bytes = []\<rparr>, w))
              else
                (let remaining = f_len f - f_pos f; n = min remaining (the buffer_size) in
                 (\<lparr>tr_status = EFI_SUCCESS, tr_size = Some n, tr_bytes = seg (f_data f) (f_pos f) n\<rparr>,
                  upd_file i (\<lambda>f. f\<lparr>f_pos := f_pos f + n\<rparr>) w)))))"

text \<open>
  \<open>n\<close> and \<open>buffer\<close> are what \<^verbatim>\<open>buffer_size\<close> and \<^verbatim>\<open>buffer\<close> point to. An end position beyond the address
  space panics: the addition overflows, or the wrapped slice bounds are out of order.
\<close>

definition file_write ::
  "addr \<Rightarrow> addr \<Rightarrow> nat option \<Rightarrow> u8 list option \<Rightarrow> 'd fp_world \<Rightarrow> (efi_status \<times> 'd fp_world) checked" where
  "file_write protos this buffer_size buffer w =
     (case (buffer_size, buffer) of
        (Some n, Some bytes) \<Rightarrow>
          (case this_to_index protos (fp_files w) this of
             None \<Rightarrow> Inr (EFI_INVALID_PARAMETER, w)
           | Some i \<Rightarrow>
               (let f = fp_files w ! i in
                if f_dir_cluster f \<noteq> None then Inr (EFI_UNSUPPORTED, w)
                else if \<not> f_for_write f then Inr (EFI_WRITE_PROTECTED, w)
                else if f_pos f + n \<ge> 2 ^ 64 then Inl Panic
                else if f_pos f + n > MAX_FILE_BYTES then Inr (EFI_OUT_OF_RESOURCES, w)
                else
                  Inr (EFI_SUCCESS, upd_file i (\<lambda>f. f\<lparr>f_data := put_seg (f_data f) (f_pos f) (take n bytes),
                    f_pos := f_pos f + n, f_len := max (f_len f) (f_pos f + n), f_dirty := True\<rparr>) w)))
      | _ \<Rightarrow> Inr (EFI_INVALID_PARAMETER, w))"

definition file_get_position :: "addr \<Rightarrow> addr \<Rightarrow> u64 option \<Rightarrow> 'd fp_world \<Rightarrow> efi_status \<times> u64 option" where
  "file_get_position protos this new_pos w =
     (if new_pos = None then (EFI_INVALID_PARAMETER, None)
      else
        (case this_to_index protos (fp_files w) this of
           None \<Rightarrow> (EFI_INVALID_PARAMETER, new_pos)
         | Some i \<Rightarrow> (EFI_SUCCESS, Some (of_nat (f_pos (fp_files w ! i))))))"

definition file_set_position :: "addr \<Rightarrow> addr \<Rightarrow> u64 \<Rightarrow> 'd fp_world \<Rightarrow> efi_status \<times> 'd fp_world" where
  "file_set_position protos this new_pos w =
     (case this_to_index protos (fp_files w) this of
        None \<Rightarrow> (EFI_INVALID_PARAMETER, w)
      | Some i \<Rightarrow>
          (let f = fp_files w ! i in
           if f_dir_cluster f \<noteq> None then
             if new_pos = 0 then (EFI_SUCCESS, upd_file i (\<lambda>f. f\<lparr>f_dir_index := 0\<rparr>) w) else (EFI_UNSUPPORTED, w)
           else if new_pos = 0xFFFFFFFFFFFFFFFF then (EFI_SUCCESS, upd_file i (\<lambda>f. f\<lparr>f_pos := f_len f\<rparr>) w)
           else if unat new_pos > MAX_FILE_BYTES then (EFI_INVALID_PARAMETER, w)
           else (EFI_SUCCESS, upd_file i (\<lambda>f. f\<lparr>f_pos := unat new_pos\<rparr>) w)))"

definition file_get_info :: "addr \<Rightarrow> addr \<Rightarrow> efi_guid option \<Rightarrow> nat option \<Rightarrow> 'd fp_world \<Rightarrow> transfer" where
  "file_get_info protos this information_type buffer_size w =
     (if information_type = None \<or> buffer_size = None
      then \<lparr>tr_status = EFI_INVALID_PARAMETER, tr_size = buffer_size, tr_bytes = []\<rparr>
      else
        (case this_to_index protos (fp_files w) this of
           None \<Rightarrow> \<lparr>tr_status = EFI_INVALID_PARAMETER, tr_size = buffer_size, tr_bytes = []\<rparr>
         | Some i \<Rightarrow>
             if the information_type \<noteq> FILE_INFO_GUID
             then \<lparr>tr_status = EFI_UNSUPPORTED, tr_size = buffer_size, tr_bytes = []\<rparr>
             else
               (let f = fp_files w ! i in
                case write_file_info (the buffer_size) (f_name_8_3 f) (of_nat (f_len f)) (f_dir_cluster f \<noteq> None) of
                  Inr bytes \<Rightarrow> \<lparr>tr_status = EFI_SUCCESS, tr_size = Some (length bytes), tr_bytes = bytes\<rparr>
                | Inl needed \<Rightarrow> \<lparr>tr_status = EFI_BUFFER_TOO_SMALL, tr_size = Some needed, tr_bytes = []\<rparr>)))"

definition file_set_info :: efi_status where "file_set_info = EFI_UNSUPPORTED"

definition file_install :: "addr \<Rightarrow> handle_db \<Rightarrow> nat \<Rightarrow> (bool \<times> handle_db) checked" where
  "file_install sfs_proto hs index = db_install hs index SIMPLE_FILE_SYSTEM_PROTOCOL_GUID sfs_proto"

end
