(* ===== verification/File_Properties.thy ===== *)
theory File_Properties
  imports File_Protocol
begin

text \<open>
  What the file protocol guarantees: an open file behaves as a byte stream with a position (writes
  past the end fill with zeros), closing writes the stream to the volume where the next Open finds it,
  directory handles enumerate their listing once; and two places where Open departs from its comments.
\<close>

section \<open>Slots and handles\<close>

interpretation file_slots: slot_table f_in_use EMPTY_FILE
  by unfold_locales (simp add: EMPTY_FILE_def)

definition protos_ok :: "addr \<Rightarrow> bool" where
  "protos_ok protos \<longleftrightarrow> unat protos + FILE_PROTOCOL_SIZE * MAX_OPEN_FILES \<le> 2 ^ 64"

lemma slot_handle_index:
  assumes "protos_ok protos" "i < MAX_OPEN_FILES"
  shows "this_to_index protos files (slot_handle protos i) = (if f_in_use (files ! i) then Some i else None)"
proof -
  have b: "unat protos + 88 * i < 2 ^ 64" using assms by (simp add: protos_ok_def FILE_PROTOCOL_SIZE_def MAX_OPEN_FILES_def)
  then have u: "unat (of_nat (88 * i) :: addr) = 88 * i" by (simp add: unat_of_nat del: of_nat_mult)
  then have "unat (protos + of_nat (88 * i)) = unat protos + 88 * i" using b by (simp add: unat_word_ariths del: of_nat_mult)
  then have "\<not> protos + of_nat (88 * i) < protos" by (simp add: word_less_nat_alt del: of_nat_mult)
  then show ?thesis using u assms(2) by (simp add: this_to_index_def slot_handle_def FILE_PROTOCOL_SIZE_def del: of_nat_mult)
qed

lemma this_to_indexD: "this_to_index protos files this = Some i \<Longrightarrow> i < MAX_OPEN_FILES \<and> f_in_use (files ! i)"
  by (auto simp: this_to_index_def Let_def split: if_splits)

lemma this_to_index_other:
  assumes "this_to_index protos files h = Some r" "r \<noteq> i"
  shows "this_to_index protos (files[i := f]) h = Some r"
proof -
  let ?k = "unat (h - protos) div FILE_PROTOCOL_SIZE"
  have "\<not> h < protos" "?k = r" "r < MAX_OPEN_FILES" "f_in_use (files ! r)"
    using assms(1) unfolding this_to_index_def Let_def by (simp_all split: if_split_asm)
  with assms(2) show ?thesis by (simp add: this_to_index_def)
qed

section \<open>A file as a byte stream\<close>

text \<open>The cached bytes beyond the length are zero, which is what a write past the end exposes.\<close>

definition file_ok :: "open_file \<Rightarrow> bool" where
  "file_ok f \<longleftrightarrow> length (f_data f) = MAX_FILE_BYTES \<and> f_len f \<le> MAX_FILE_BYTES \<and> f_pos f \<le> MAX_FILE_BYTES \<and>
     drop (f_len f) (f_data f) = replicate (MAX_FILE_BYTES - f_len f) 0"

definition contents_of :: "open_file \<Rightarrow> u8 list" where
  "contents_of f = take (f_len f) (f_data f)"

definition stream_write :: "u8 list \<Rightarrow> nat \<Rightarrow> u8 list \<Rightarrow> u8 list" where
  "stream_write xs p bs = take p (xs @ replicate (p - length xs) 0) @ bs @ drop (p + length bs) xs"

definition files_ok :: "open_file list \<Rightarrow> bool" where
  "files_ok files \<longleftrightarrow> length files = MAX_OPEN_FILES \<and> (\<forall>i < MAX_OPEN_FILES. f_in_use (files ! i) \<longrightarrow> file_ok (files ! i))"

lemma file_ok_EMPTY: "file_ok (EMPTY_FILE\<lparr>f_in_use := b\<rparr>)"
  by (simp add: file_ok_def EMPTY_FILE_def)

lemma data_split: "file_ok f \<Longrightarrow> f_data f = contents_of f @ replicate (MAX_FILE_BYTES - f_len f) 0"
  unfolding file_ok_def contents_of_def by (metis append_take_drop_id)

lemma length_contents_of: "file_ok f \<Longrightarrow> length (contents_of f) = f_len f"
  by (simp add: file_ok_def contents_of_def)

lemma write_data:
  assumes ok: "file_ok f" and fits: "f_pos f + length bs \<le> MAX_FILE_BYTES"
  shows "put_seg (f_data f) (f_pos f) bs = stream_write (contents_of f) (f_pos f) bs @
      replicate (MAX_FILE_BYTES - max (f_len f) (f_pos f + length bs)) 0"
    and "length (stream_write (contents_of f) (f_pos f) bs) = max (f_len f) (f_pos f + length bs)"
proof -
  let ?x = "contents_of f" and ?p = "f_pos f" and ?M = MAX_FILE_BYTES
  have l: "length ?x = f_len f" "f_len f \<le> ?M" using ok by (simp_all add: length_contents_of file_ok_def)
  show "length (stream_write ?x ?p bs) = max (f_len f) (?p + length bs)"
    using l by (auto simp: stream_write_def)
  have d: "f_data f = ?x @ replicate (?M - f_len f) 0" by (rule data_split[OF ok])
  have "take ?p (f_data f) = take ?p (?x @ replicate (?p - length ?x) 0)"
    unfolding d using l fits by (cases "?p \<le> f_len f") (simp_all add: min_def)
  moreover have "drop (?p + length bs) (f_data f) = drop (?p + length bs) ?x @ replicate (?M - max (f_len f) (?p + length bs)) 0"
    unfolding d using l fits by (cases "?p + length bs \<le> f_len f") (simp_all add: max_def)
  ultimately show "put_seg (f_data f) ?p bs = stream_write ?x ?p bs @ replicate (?M - max (f_len f) (?p + length bs)) 0"
    by (simp add: put_seg_def stream_write_def)
qed

lemma file_write_slot:
  assumes ok: "file_ok f" and fits: "f_pos f + length bs \<le> MAX_FILE_BYTES"
    and f': "f' = f\<lparr>f_data := put_seg (f_data f) (f_pos f) bs, f_pos := f_pos f + length bs,
      f_len := max (f_len f) (f_pos f + length bs), f_dirty := True\<rparr>"
  shows "file_ok f'" "contents_of f' = stream_write (contents_of f) (f_pos f) bs"
  using ok fits write_data[OF ok fits] unfolding f' by (simp_all add: file_ok_def contents_of_def)

lemma file_read_bytes:
  assumes "file_ok f" "n \<le> f_len f - f_pos f"
  shows "seg (f_data f) (f_pos f) n = take n (drop (f_pos f) (contents_of f))"
  using assms by (auto simp: seg_def contents_of_def drop_take min_def)

lemma upd_file_nth [simp]:
  "i < length (fp_files w) \<Longrightarrow> fp_files (upd_file i g w) ! i = g (fp_files w ! i)"
  "j \<noteq> i \<Longrightarrow> fp_files (upd_file i g w) ! j = fp_files w ! j"
  "length (fp_files (upd_file i g w)) = length (fp_files w)"
  by (simp_all add: upd_file_def)

text \<open>
  C5: an open file is a byte stream with a position. Write replaces the bytes at the position (filling
  a gap behind the old end with zeros), advances, and refuses what would exceed 64 KiB without changing
  anything; Read returns the bytes from the position on, as many as asked for or as there are, and
  advances; the other slots, the volume and the invariant of the slot are kept.
\<close>

theorem file_stream_refines:
  assumes files: "files_ok (fp_files w)" and hdl: "this_to_index protos (fp_files w) this = Some i"
    and f: "f = fp_files w ! i" and plain: "f_dir_cluster f = None"
  shows "(f_for_write f \<and> length bs < 2 ^ 63 \<longrightarrow>
      (if f_pos f + length bs \<le> MAX_FILE_BYTES then
         \<exists>f'. file_write protos this (Some (length bs)) (Some bs) w = Inr (EFI_SUCCESS, upd_file i (\<lambda>_. f') w) \<and> file_ok f' \<and>
           contents_of f' = stream_write (contents_of f) (f_pos f) bs \<and> f_pos f' = f_pos f + length bs \<and> f_dirty f'
       else file_write protos this (Some (length bs)) (Some bs) w = Inr (EFI_OUT_OF_RESOURCES, w))) \<and>
    (\<exists>f'. file_read protos this (Some n) False w =
        (\<lparr>tr_status = EFI_SUCCESS, tr_size = Some (min n (length (contents_of f) - f_pos f)),
          tr_bytes = take n (drop (f_pos f) (contents_of f))\<rparr>, upd_file i (\<lambda>_. f') w) \<and> file_ok f' \<and>
      contents_of f' = contents_of f \<and> f_pos f' = f_pos f + min n (length (contents_of f) - f_pos f))"
proof (intro conjI impI)
  have i: "i < length (fp_files w)" "f_in_use f" using this_to_indexD[OF hdl] files f by (simp_all add: files_ok_def)
  have ok: "file_ok f" using files i f by (simp add: files_ok_def)
  show "\<exists>f'. file_read protos this (Some n) False w =
        (\<lparr>tr_status = EFI_SUCCESS, tr_size = Some (min n (length (contents_of f) - f_pos f)),
          tr_bytes = take n (drop (f_pos f) (contents_of f))\<rparr>, upd_file i (\<lambda>_. f') w) \<and> file_ok f' \<and>
      contents_of f' = contents_of f \<and> f_pos f' = f_pos f + min n (length (contents_of f) - f_pos f)"
  proof -
    let ?n = "min (f_len f - f_pos f) n" and ?f' = "f\<lparr>f_pos := f_pos f + min (f_len f - f_pos f) n\<rparr>"
    have "seg (f_data f) (f_pos f) ?n = take n (drop (f_pos f) (contents_of f))"
      using file_read_bytes[OF ok, of ?n] length_contents_of[OF ok] by (simp add: min_def)
    then have "file_read protos this (Some n) False w = (\<lparr>tr_status = EFI_SUCCESS, tr_size = Some ?n,
        tr_bytes = take n (drop (f_pos f) (contents_of f))\<rparr>, upd_file i (\<lambda>_. ?f') w)"
      using hdl plain unfolding file_read_def by (simp add: f[symmetric] Let_def upd_file_def)
    moreover have "file_ok ?f'" "contents_of ?f' = contents_of f" using ok by (auto simp: file_ok_def contents_of_def)
    ultimately show ?thesis using length_contents_of[OF ok] by (intro exI[of _ ?f']) (simp add: min.commute)
  qed
  assume wr: "f_for_write f \<and> length bs < 2 ^ 63"
  have nowrap: "f_pos f + length bs < 2 ^ 64" using wr ok by (simp add: file_ok_def MAX_FILE_BYTES_def)
  show "if f_pos f + length bs \<le> MAX_FILE_BYTES then
         \<exists>f'. file_write protos this (Some (length bs)) (Some bs) w = Inr (EFI_SUCCESS, upd_file i (\<lambda>_. f') w) \<and> file_ok f' \<and>
           contents_of f' = stream_write (contents_of f) (f_pos f) bs \<and> f_pos f' = f_pos f + length bs \<and> f_dirty f'
       else file_write protos this (Some (length bs)) (Some bs) w = Inr (EFI_OUT_OF_RESOURCES, w)"
  proof (cases "f_pos f + length bs \<le> MAX_FILE_BYTES")
    case True
    let ?f' = "f\<lparr>f_data := put_seg (f_data f) (f_pos f) bs, f_pos := f_pos f + length bs,
      f_len := max (f_len f) (f_pos f + length bs), f_dirty := True\<rparr>"
    have "file_write protos this (Some (length bs)) (Some bs) w = Inr (EFI_SUCCESS, upd_file i (\<lambda>_. ?f') w)"
      using hdl plain wr True nowrap unfolding file_write_def by (simp add: f[symmetric] Let_def upd_file_def)
    with file_write_slot[OF ok True refl] True show ?thesis by (auto intro: exI[of _ ?f'])
  next
    case False
    then show ?thesis using hdl plain wr nowrap unfolding file_write_def by (simp add: f[symmetric] Let_def)
  qed
qed

text \<open>A world with one file of three bytes open for writing, at its end, and one handle of the root directory.\<close>

definition demo_file :: open_file where
  "demo_file = EMPTY_FILE\<lparr>f_in_use := True, f_for_write := True, f_pos := 3, f_name_8_3 := demo_name,
     f_data := put_seg (replicate MAX_FILE_BYTES 0) 0 [1, 2, 3], f_len := 3, f_dirty := True\<rparr>"

definition demo_files :: "open_file list" where
  "demo_files = FILES_INIT[0 := demo_file, 1 := EMPTY_FILE\<lparr>f_in_use := True, f_dir_cluster := Some 2\<rparr>]"

definition demo_fp :: "u8 list list fp_world" where
  "demo_fp = \<lparr>pw_vars = VARS_INIT, pw_context = Some (\<lparr>rca = 0, block_addressed = True\<rparr>, demo_fs), pw_dev = demo_disk, fp_files = demo_files\<rparr>"

lemma demo_file_fields: "f_in_use demo_file" "f_dir_cluster demo_file = None" "f_for_write demo_file" "f_pos demo_file = 3"
  "contents_of demo_file = [1, 2, 3]" "file_ok demo_file" "f_name_8_3 demo_file = demo_name" "f_dirty demo_file"
  by (simp_all add: demo_file_def EMPTY_FILE_def contents_of_def file_ok_def put_seg_def MAX_FILE_BYTES_def)

lemma demo_slots: "demo_files ! 0 = demo_file" "demo_files ! 1 = EMPTY_FILE\<lparr>f_in_use := True, f_dir_cluster := Some 2\<rparr>"
  "length demo_files = 4" "2 \<le> i \<Longrightarrow> i < 4 \<Longrightarrow> demo_files ! i = EMPTY_FILE"
  by (simp_all add: demo_files_def FILES_INIT_def MAX_OPEN_FILES_def)

lemma demo_files_ok: "files_ok demo_files"
  unfolding files_ok_def
proof (intro conjI allI impI)
  fix i assume i: "i < MAX_OPEN_FILES" "f_in_use (demo_files ! i)"
  consider "i = 0" | "i = 1" | "2 \<le> i" "i < 4" using i(1) unfolding MAX_OPEN_FILES_def by linarith
  then show "file_ok (demo_files ! i)"
  proof cases
    case 3
    with i(2) show ?thesis by (simp add: demo_slots EMPTY_FILE_def)
  qed (use demo_slots demo_file_fields(6) in \<open>simp_all add: file_ok_def EMPTY_FILE_def\<close>)
qed (simp add: demo_slots MAX_OPEN_FILES_def)

lemma demo_handles: "this_to_index 0x1000 demo_files 0x1000 = Some 0" "this_to_index 0x1000 demo_files 0x1058 = Some 1"
  using demo_slots(1,2) by (simp_all add: this_to_index_def FILE_PROTOCOL_SIZE_def MAX_OPEN_FILES_def demo_file_fields)

theorem file_stream_refines_witness:
  "\<exists>f'. file_write 0x1000 0x1000 (Some 2) (Some [7, 8]) demo_fp = Inr (EFI_SUCCESS, upd_file 0 (\<lambda>_. f') demo_fp) \<and>
     contents_of f' = [1, 2, 3, 7, 8]"
proof -
  have w: "files_ok (fp_files demo_fp)" "this_to_index 0x1000 (fp_files demo_fp) 0x1000 = Some 0" "demo_file = fp_files demo_fp ! 0"
    by (simp_all add: demo_fp_def demo_files_ok demo_handles demo_slots)
  have len: "length [7 :: u8, 8] = 2" "stream_write [1, 2, 3] 3 [7, 8] = [1, 2, 3, 7, 8]"
    by (simp_all add: stream_write_def numeral_3_eq_3)
  show ?thesis
    using file_stream_refines[OF w demo_file_fields(2), of "[7, 8]" 0, THEN conjunct1, rule_format]
    unfolding len demo_file_fields by (simp add: MAX_FILE_BYTES_def len demo_file_fields) blast
qed

section \<open>Write-back and reopening\<close>

lemma written_file_reads:
  assumes dev: "block_device ops ready contents cap" and vol: "vol_ok fs cap n" and d: "ready d"
    and fit: "dir_fit fs n (contents d) ds name fc"
    and name: "length name = 11" "name ! 0 \<noteq> 0" "name ! 0 \<noteq> 0xE5" and data: "length data \<le> MAX_FILE_BYTES"
    and room: "clusters_for fs data < length (free_list fs (contents d) n 2)" and fuel: "n \<le> fuel"
  shows "\<exists>d1 d2 rest. write_file ops fs fuel name data d = (Inr (), d1) \<and>
    read_file ops fs fuel name (replicate MAX_FILE_BYTES 0) d1 = (Inr (length data, data @ rest), d2)"
proof -
  have "length data < 2 ^ 32" using data by (simp add: MAX_FILE_BYTES_def)
  then obtain D' where D': "runs ready contents (write_file ops fs fuel name data) (contents d) (Inr ()) D'"
    "\<forall>out. let k = min (length data) (length out) in
        runs ready contents (read_file ops fs fuel name out) D' (Inr (k, take k data @ drop k out)) D'"
    using block_device.exec_write_file[OF dev vol block_device.ready_blocks_ok[OF dev d] fit name _ room fuel] by blast
  obtain d1 where d1: "write_file ops fs fuel name data d = (Inr (), d1)" "ready d1" "contents d1 = D'"
    using runsD[OF D'(1) d refl] by blast
  with runsD[OF D'(2)[rule_format, of "replicate MAX_FILE_BYTES 0", unfolded Let_def] d1(2,3)] data
  show ?thesis by (auto simp: min_def)
qed

lemma open_contents_ok:
  assumes "first_free f_in_use (fp_files w) = Some k" "length xs \<le> MAX_FILE_BYTES"
  shows "\<exists>f. open_contents protos name xs b h w = (Inr (EFI_SUCCESS, Some (slot_handle protos k)), w\<lparr>fp_files := (fp_files w)[k := f]\<rparr>) \<and>
    f_in_use f \<and> f_dir_cluster f = None \<and> file_ok f \<and> contents_of f = xs \<and> f_pos f = 0 \<and> f_name_8_3 f = name \<and> f_for_write f = b"
proof -
  have "k < length (fp_files w)" using file_slots.first_free_Some[OF assms(1)] by simp
  then have "open_contents protos name xs b h w = (Inr (EFI_SUCCESS, Some (slot_handle protos k)), w\<lparr>fp_files := (fp_files w)[k :=
      EMPTY_FILE\<lparr>f_in_use := True, f_name_8_3 := name, f_data := put_seg (f_data EMPTY_FILE) 0 xs, f_len := length xs,
        f_pos := 0, f_for_write := b, f_dirty := False\<rparr>]\<rparr>)"
    by (simp add: open_contents_def alloc_slot_def upd_file_def assms(1))
  then show ?thesis using assms(2)
    by - (rule exI, rule conjI, assumption, simp add: file_ok_def contents_of_def EMPTY_FILE_def put_seg_def)
qed

text \<open>
  C17: closing a file that was written puts its contents on the volume: after Close, opening the same
  name through any handle of the root directory succeeds with a handle whose stream is what the closed
  file held, positioned at its start. The closed slot is free and no other slot has changed. (The name
  must not occur twice in the directory and the volume must have room, as for the FAT32 write.)
\<close>

theorem file_close_then_open:
  assumes dev: "block_device (dev c) ready contents cap" and vol: "vol_ok fs cap n" and d: "ready (pw_dev w)"
    and ctx: "pw_context w = Some (c, fs)" and fuel: "n \<le> fuel"
    and files: "files_ok (fp_files w)" and hdl: "this_to_index protos (fp_files w) this = Some i" and f: "f = fp_files w ! i"
    and dirty: "f_for_write f" "f_dirty f" and fit: "dir_fit fs n (contents (pw_dev w)) ds (f_name_8_3 f) fc"
    and name: "length (f_name_8_3 f) = 11" "f_name_8_3 f ! 0 \<noteq> 0" "f_name_8_3 f ! 0 \<noteq> 0xE5"
    and room: "clusters_for fs (contents_of f) < length (free_list fs (contents (pw_dev w)) n 2)"
    and root: "this_to_index protos (fp_files w) root = Some r" "r \<noteq> i" "f_dir_cluster (fp_files w ! r) = Some (root_cluster fs)"
    and path: "\<not> is_root_path path" "char16_path_to_ascii path = Some raw" "0x5C \<notin> set raw" "to_8_3_or_none raw = Some (f_name_8_3 f)"
  shows "\<exists>w1 k w2 f'. file_close dev fuel protos this w = (Inr EFI_SUCCESS, w1) \<and> \<not> f_in_use (fp_files w1 ! i) \<and>
    (\<forall>j. j \<noteq> i \<longrightarrow> fp_files w1 ! j = fp_files w ! j) \<and>
    file_open dev fuel protos root (Some h) (Some path) mode w1 = (Inr (EFI_SUCCESS, Some (slot_handle protos k)), w2) \<and>
    fp_files w2 = (fp_files w1)[k := f'] \<and> f_in_use f' \<and> f_dir_cluster f' = None \<and> contents_of f' = contents_of f \<and> f_pos f' = 0"
proof -
  have i: "i < length (fp_files w)" "f_in_use f" using this_to_indexD[OF hdl] files f by (simp_all add: files_ok_def)
  have ok: "file_ok f" using files i f by (simp add: files_ok_def)
  have len: "length (contents_of f) \<le> MAX_FILE_BYTES" using ok by (simp add: length_contents_of file_ok_def)
  obtain d1 d2 rest where d1: "write_file (dev c) fs fuel (f_name_8_3 f) (contents_of f) (pw_dev w) = (Inr (), d1)"
    and d2: "read_file (dev c) fs fuel (f_name_8_3 f) (replicate MAX_FILE_BYTES 0) d1 = (Inr (length (contents_of f), contents_of f @ rest), d2)"
    using written_file_reads[OF dev vol d fit name len room fuel] by blast
  let ?w1 = "w\<lparr>pw_dev := d1, fp_files := (fp_files w)[i := f\<lparr>f_dirty := False, f_in_use := False\<rparr>]\<rparr>"
  have close: "file_close dev fuel protos this w = (Inr EFI_SUCCESS, ?w1)"
    using i dirty ctx d1
    by (simp add: file_close_def hdl flush_if_dirty_def f[symmetric] get_context_def Let_def io_bind_def io_return_def volume_try_def
        contents_of_def upd_file_def)
  have idx: "this_to_index protos (fp_files ?w1) root = Some r"
    using this_to_index_other[OF root(1,2)] by simp
  have "i \<notin> live f_in_use (fp_files ?w1)" "i < length (fp_files ?w1)" using i(1) by (simp_all add: live_def)
  then have "first_free f_in_use (fp_files ?w1) \<noteq> None" unfolding file_slots.first_free_None by blast
  then obtain k where k: "first_free f_in_use (fp_files ?w1) = Some k" by blast
  let ?w2 = "?w1\<lparr>pw_dev := d2\<rparr>"
  obtain f' where f': "open_contents protos (f_name_8_3 f) (contents_of f) (mode AND EFI_FILE_MODE_WRITE \<noteq> 0) h ?w2 =
      (Inr (EFI_SUCCESS, Some (slot_handle protos k)), ?w2\<lparr>fp_files := (fp_files ?w2)[k := f']\<rparr>)"
    "f_in_use f'" "f_dir_cluster f' = None" "contents_of f' = contents_of f" "f_pos f' = 0"
    using open_contents_ok[of ?w2 k "contents_of f" protos "f_name_8_3 f"] k len by auto
  have raw: "(raw \<noteq> [] \<and> raw ! 0 = 0x5C) = False" using path(3) by (cases raw) auto
  have "open_root_file dev fuel protos c fs raw mode h ?w1 = (Inr (EFI_SUCCESS, Some (slot_handle protos k)), ?w2\<lparr>fp_files := (fp_files ?w2)[k := f']\<rparr>)"
    using f'(1) d2 by (simp add: open_root_file_def path(4) io_bind_def volume_try_def)
  then have "file_open dev fuel protos root (Some h) (Some path) mode ?w1 =
      (Inr (EFI_SUCCESS, Some (slot_handle protos k)), ?w2\<lparr>fp_files := (fp_files ?w2)[k := f']\<rparr>)"
    using root(2,3) ctx path(1,2,3) idx by (simp add: file_open_def get_context_def raw)
  with close f' i show ?thesis by (intro exI[of _ ?w1] exI[of _ k] exI[of _ "?w2\<lparr>fp_files := (fp_files ?w2)[k := f']\<rparr>"] exI[of _ f']) simp
qed

text \<open>The path FERRO.VAR as units and as bytes.\<close>

definition demo_path :: "u8 list" where
  "demo_path = [0x46, 0x45, 0x52, 0x52, 0x4F, 0x2E, 0x56, 0x41, 0x52]"

lemma demo_path_ascii: "char16_path_to_ascii (name_nt (map ucast demo_path)) = Some demo_path"
  "\<not> is_root_path (name_nt (map ucast demo_path))" "0x5C \<notin> set demo_path" "to_8_3_or_none demo_path = Some demo_name"
  by (simp_all add: char16_path_to_ascii_def path_loop.simps demo_path_def name_nt_def is_root_path_def
      to_8_3_or_none_def demo_name_def to_ascii_uppercase_def put_seg_def numeral_3_eq_3)

theorem file_close_then_open_witness:
  "\<exists>w1 k w2. file_close (\<lambda>_. ram_ops) 8 0x1000 0x1000 demo_fp = (Inr EFI_SUCCESS, w1) \<and>
     file_open (\<lambda>_. ram_ops) 8 0x1000 0x1058 (Some 0) (Some (name_nt (map ucast demo_path))) 1 w1 =
       (Inr (EFI_SUCCESS, Some (slot_handle 0x1000 k)), w2)"
proof -
  have w: "pw_context demo_fp = Some (\<lparr>rca = 0, block_addressed = True\<rparr>, demo_fs)" "(8 :: nat) \<le> 8" "files_ok (fp_files demo_fp)"
      "this_to_index 0x1000 (fp_files demo_fp) 0x1000 = Some 0" "demo_file = fp_files demo_fp ! 0"
    and d: "pw_dev demo_fp = demo_disk"
    by (simp_all add: demo_fp_def demo_files_ok demo_handles demo_slots)
  have root: "this_to_index 0x1000 (fp_files demo_fp) 0x1058 = Some 1" "1 \<noteq> (0 :: nat)" "f_dir_cluster (fp_files demo_fp ! 1) = Some (root_cluster demo_fs)"
    unfolding demo_fp_def fp_world.simps demo_slots(2) by (simp_all add: demo_handles demo_fs_def)
  have ready: "ram_ready 10 (pw_dev demo_fp)" unfolding d by (rule demo_ready)
  have fit: "dir_fit demo_fs 8 (ram_contents (pw_dev demo_fp)) [2] (f_name_8_3 demo_file) []"
    and room: "clusters_for demo_fs (contents_of demo_file) < length (free_list demo_fs (ram_contents (pw_dev demo_fp)) 8 2)"
    unfolding d demo_file_fields by (rule demo_fit, rule demo_room)
  note name = demo_name_ok[folded demo_file_fields(7)] and path = demo_path_ascii(2,1,3) demo_path_ascii(4)[folded demo_file_fields(7)]
  show ?thesis
    using file_close_then_open[where dev = "\<lambda>_. ram_ops", OF demo_device demo_vol ready w demo_file_fields(3,8) fit name room root path] by blast
qed

section \<open>Directories\<close>

text \<open>\<open>n\<close> reads in a row with a buffer of \<open>capacity\<close> bytes.\<close>

primrec read_times :: "nat \<Rightarrow> addr \<Rightarrow> addr \<Rightarrow> nat \<Rightarrow> 'd fp_world \<Rightarrow> transfer list \<times> 'd fp_world" where
  "read_times 0 protos this capacity w = ([], w)"
| "read_times (Suc n) protos this capacity w =
     (case file_read protos this (Some capacity) False w of
        (t, w1) \<Rightarrow> (case read_times n protos this capacity w1 of (ts, w2) \<Rightarrow> (t # ts, w2)))"

definition info_bytes :: "u8 list \<Rightarrow> u64 \<Rightarrow> u8 list" where
  "info_bytes name sz = le64 (of_nat (80 + length (info_units name) * 2)) @ le64 sz @ le64 sz @ replicate 48 0 @
     le64 EFI_FILE_DIRECTORY @ concat (map le16 (info_units name))"

lemma length_info_units: "length name = 11 \<Longrightarrow> length (info_units name) \<le> 13"
proof -
  assume "length name = 11"
  then have "length (filter (\<lambda>b. b \<noteq> 0x20) (seg name 0 8)) \<le> 8" "length (filter (\<lambda>b. b \<noteq> 0x20) (seg name 8 3)) \<le> 3"
    by (auto intro: order_trans[OF length_filter_le])
  then show ?thesis by (simp add: info_units_def Let_def)
qed

lemma write_file_info_dir: "length name = 11 \<Longrightarrow> 106 \<le> capacity \<Longrightarrow> write_file_info capacity name sz True = Inr (info_bytes name sz)"
  using length_info_units[of name] by (simp add: write_file_info_def info_bytes_def Let_def)

definition dir_entry_read :: "open_file \<Rightarrow> nat \<Rightarrow> transfer" where
  "dir_entry_read f k = (let bytes = info_bytes (f_dir_names f ! k) (ucast (f_dir_sizes f ! k)) in
     \<lparr>tr_status = EFI_SUCCESS, tr_size = Some (length bytes), tr_bytes = bytes\<rparr>)"

definition dir_end_read :: transfer where
  "dir_end_read = \<lparr>tr_status = EFI_SUCCESS, tr_size = Some 0, tr_bytes = []\<rparr>"

lemma read_times_end:
  assumes "this_to_index protos (fp_files w) this = Some i" "f_dir_cluster (fp_files w ! i) \<noteq> None"
    "f_dir_count (fp_files w ! i) \<le> f_dir_index (fp_files w ! i)"
  shows "read_times n protos this capacity w = (replicate n dir_end_read, w)"
  using assms by (induction n) (simp_all add: file_read_def Let_def dir_end_read_def)

lemma read_times_entries:
  assumes "this_to_index protos (fp_files w) this = Some i" "length (fp_files w) = MAX_OPEN_FILES" "fp_files w ! i = f\<lparr>f_dir_index := k\<rparr>"
    "f_dir_cluster f \<noteq> None" "k + n = f_dir_count f" "\<And>j. j < f_dir_count f \<Longrightarrow> length (f_dir_names f ! j) = 11" "106 \<le> capacity"
  shows "fst (read_times (n + m) protos this capacity w) = map (dir_entry_read f) [k..<f_dir_count f] @ replicate m dir_end_read"
  using assms
proof (induction n arbitrary: k w)
  case 0
  then have "read_times m protos this capacity w = (replicate m dir_end_read, w)" by (intro read_times_end) auto
  with 0 show ?case by simp
next
  case (Suc n)
  let ?w = "upd_file i (\<lambda>f. f\<lparr>f_dir_index := f_dir_index f + 1\<rparr>) w"
  have i: "i < length (fp_files w)" "f_in_use (fp_files w ! i)" using this_to_indexD[OF Suc.prems(1)] Suc.prems(2) by simp_all
  have k: "k < f_dir_count f" using Suc.prems(5) by simp
  have step: "file_read protos this (Some capacity) False w = (dir_entry_read f k, ?w)"
    using Suc.prems k write_file_info_dir[OF Suc.prems(6)[OF k] Suc.prems(7)]
    by (simp add: file_read_def Let_def dir_entry_read_def)
  have slot: "fp_files ?w ! i = f\<lparr>f_dir_index := Suc k\<rparr>" using i(1) Suc.prems(3) by simp
  have idx: "this_to_index protos (fp_files ?w) this = Some i"
    using Suc.prems(1) i slot Suc.prems(3) by (simp add: this_to_index_def Let_def upd_file_def split: if_split_asm)
  have "fst (read_times (n + m) protos this capacity ?w) = map (dir_entry_read f) [Suc k..<f_dir_count f] @ replicate m dir_end_read"
    by (rule Suc.IH[OF idx _ slot Suc.prems(4) _ Suc.prems(6,7)]) (use Suc.prems(2,5) in simp_all)
  then show ?case using step k by (auto simp: upt_conv_Cons split: prod.splits)
qed

text \<open>
  Reading a directory handle enumerates it: with a buffer of 106 bytes or more, the first reads
  return the entries of the listing taken at Open, each once and in order, as EFI_FILE_INFO records,
  and every further read returns zero bytes. Every record carries the directory attribute (bytes 72 to
  79), also for entries that are plain files.
\<close>

theorem dir_read_enumerates:
  assumes "this_to_index protos (fp_files w) this = Some i" "length (fp_files w) = MAX_OPEN_FILES"
    and f: "f = fp_files w ! i" "f_dir_cluster f \<noteq> None" "f_dir_index f = 0"
    and "\<And>j. j < f_dir_count f \<Longrightarrow> length (f_dir_names f ! j) = 11" "106 \<le> capacity"
  shows "fst (read_times (f_dir_count f + m) protos this capacity w) =
      map (dir_entry_read f) [0..<f_dir_count f] @ replicate m dir_end_read \<and>
    seg (tr_bytes (dir_entry_read f k)) 72 8 = le64 EFI_FILE_DIRECTORY"
proof
  have "fp_files w ! i = f\<lparr>f_dir_index := 0\<rparr>" using f by simp
  from read_times_entries[OF assms(1,2) this f(2) _ assms(6,7), of "f_dir_count f" m]
  show "fst (read_times (f_dir_count f + m) protos this capacity w) =
      map (dir_entry_read f) [0..<f_dir_count f] @ replicate m dir_end_read" by simp
  show "seg (tr_bytes (dir_entry_read f k)) 72 8 = le64 EFI_FILE_DIRECTORY"
    by (simp add: dir_entry_read_def info_bytes_def Let_def seg_def)
qed

definition demo_dir :: open_file where
  "demo_dir = EMPTY_FILE\<lparr>f_in_use := True, f_dir_cluster := Some 2, f_dir_names := [demo_name], f_dir_sizes := [3], f_dir_count := 1\<rparr>"

theorem dir_read_enumerates_witness:
  "fst (read_times 3 0x1000 0x1000 106 (demo_fp\<lparr>fp_files := FILES_INIT[0 := demo_dir]\<rparr>)) =
     [dir_entry_read demo_dir 0, dir_end_read, dir_end_read]"
proof -
  let ?w = "demo_fp\<lparr>fp_files := FILES_INIT[0 := demo_dir]\<rparr>"
  have w: "this_to_index 0x1000 (fp_files ?w) 0x1000 = Some 0" "length (fp_files ?w) = MAX_OPEN_FILES"
      "demo_dir = fp_files ?w ! 0" "f_dir_cluster demo_dir \<noteq> None" "f_dir_index demo_dir = 0"
    by (simp_all add: this_to_index_def FILES_INIT_def MAX_OPEN_FILES_def demo_dir_def EMPTY_FILE_def)
  have "j < f_dir_count demo_dir \<Longrightarrow> length (f_dir_names demo_dir ! j) = 11" for j
    by (simp add: demo_dir_def demo_name_ok)
  from dir_read_enumerates[OF w this, of 106 2] show ?thesis by (simp add: demo_dir_def numeral_3_eq_3 numeral_2_eq_2)
qed

section \<open>Opening a directory of the root\<close>

text \<open>
  Opening a subdirectory of the root by its plain name does not open a directory: the shortcut for
  single-component names takes the entry for a file, so the handle is a plain, empty file (on which
  Read returns no entries and which Open refuses as a parent), although opening the same directory by a
  longer path gives a directory handle.
\<close>

theorem root_directory_opens_as_file:
  assumes ctx: "pw_context w = Some (c, fs)" and fuel: "0 < fuel"
    and root: "this_to_index protos (fp_files w) root = Some r" "f_dir_cluster (fp_files w ! r) = Some (root_cluster fs)"
    and path: "\<not> is_root_path path" "char16_path_to_ascii path = Some raw" "0x5C \<notin> set raw" "to_8_3_or_none raw = Some name"
    and dir: "find_in_dir (dev c) fs fuel (root_cluster fs) name (pw_dev w) = (Inr (fc, 0, True), d1)"
    and slot: "first_free f_in_use (fp_files w) = Some k"
  shows "\<exists>f. file_open dev fuel protos root (Some h) (Some path) 1 w =
      (Inr (EFI_SUCCESS, Some (slot_handle protos k)), w\<lparr>pw_dev := d1, fp_files := (fp_files w)[k := f]\<rparr>) \<and>
    f_in_use f \<and> f_dir_cluster f = None \<and> contents_of f = []"
proof -
  obtain n where n: "fuel = Suc n" using fuel by (cases fuel) auto
  have read: "read_file (dev c) fs fuel name (replicate MAX_FILE_BYTES 0) (pw_dev w) = (Inr (0, replicate MAX_FILE_BYTES 0), d1)"
    using dir by (simp add: read_file_def io_bind_def read_from_def io_return_def n)
  let ?w = "w\<lparr>pw_dev := d1\<rparr>"
  obtain f where f: "open_contents protos name [] False h ?w =
      (Inr (EFI_SUCCESS, Some (slot_handle protos k)), ?w\<lparr>fp_files := (fp_files ?w)[k := f]\<rparr>)"
    "f_in_use f" "f_dir_cluster f = None" "contents_of f = []"
    using open_contents_ok[of ?w k "[]" protos name False h] slot by auto
  have raw: "(raw \<noteq> [] \<and> raw ! 0 = 0x5C) = False" using path(3) by (cases raw) auto
  have "open_root_file dev fuel protos c fs raw 1 h w = (Inr (EFI_SUCCESS, Some (slot_handle protos k)), ?w\<lparr>fp_files := (fp_files ?w)[k := f]\<rparr>)"
    using f(1) read by (simp add: open_root_file_def path(4) io_bind_def volume_try_def EFI_FILE_MODE_WRITE_def)
  then have "file_open dev fuel protos root (Some h) (Some path) 1 w =
      (Inr (EFI_SUCCESS, Some (slot_handle protos k)), ?w\<lparr>fp_files := (fp_files ?w)[k := f]\<rparr>)"
    using root ctx path(1,2,3) by (simp add: file_open_def get_context_def raw)
  with f(2-4) show ?thesis by auto
qed

text \<open>The small volume with a directory entry of that name at the start of the root directory.\<close>

definition dir_disk :: "u8 list list" where
  "dir_disk = demo_disk[4 := (demo_name @ [0x10] @ replicate 14 0 @ [5, 0] @ replicate 4 0) @ replicate 480 0]"

lemma dir_disk_find: "find_in_dir ram_ops demo_fs 8 2 demo_name dir_disk = (Inr (5, 0, True), dir_disk)"
proof -
  define S where S: "S = (demo_name @ [0x10] @ replicate 14 0 @ [5, 0] @ replicate 4 0) @ replicate 480 0"
  have lba: "cluster_to_lba demo_fs 2 = 4" by (simp add: cluster_to_lba_def first_data_sector_def demo_fs_def)
  have sec: "op_read ram_ops 4 dir_disk = (Inr S, dir_disk)"
    by (simp add: S ram_ops_def dir_disk_def demo_disk_def)
  let ?E = "demo_name @ [0x10] @ replicate 14 0 @ [5, 0] @ replicate 4 0"
  have u: "[0..<16] = 0 # [1..<16]" by (simp add: upt_conv_Cons)
  have e: "seg (?E @ replicate 480 0) 0 32 = ?E" "seg ?E 20 2 = [0, 0]" "seg ?E 26 2 = [5, 0]" "seg ?E 28 4 = replicate 4 0"
      "?E ! 0 = 0x46" "?E ! 11 = 0x10" "take 11 ?E = demo_name"
    by (simp_all add: seg_def demo_name_def numeral_2_eq_2)
  have first: "find_entries demo_name (chunks32 S) = Some (Inr (5, 0, True))"
    unfolding S chunks32_def u list.map mult_0 e(1) find_entries.simps skipped_def entry_cluster_def entry_size_def e
    by (simp add: ATTR_DIRECTORY_def of_le_zeros)
  have eight: "(8 :: nat) = Suc 7" by simp
  show ?thesis unfolding eight find_in_dir.simps lba
    by (simp add: demo_fs_def io_bind_def rd_def io_map_err_def sec first io_return_def)
qed

theorem root_directory_opens_as_file_witness:
  "\<exists>w1. file_open (\<lambda>_. ram_ops) 8 0x1000 0x1058 (Some 0) (Some (name_nt (map ucast demo_path))) 1 (demo_fp\<lparr>pw_dev := dir_disk\<rparr>) =
     (Inr (EFI_SUCCESS, Some (slot_handle 0x1000 2)), w1) \<and> f_dir_cluster (fp_files w1 ! 2) = None"
proof -
  let ?w = "demo_fp\<lparr>pw_dev := dir_disk\<rparr>"
  have ctx: "pw_context ?w = Some (\<lparr>rca = 0, block_addressed = True\<rparr>, demo_fs)" "(0 :: nat) < 8" by (simp_all add: demo_fp_def)
  have root: "this_to_index 0x1000 (fp_files ?w) 0x1058 = Some 1" "f_dir_cluster (fp_files ?w ! 1) = Some (root_cluster demo_fs)"
    unfolding demo_fp_def fp_world.simps persist_world.simps demo_slots(2) by (simp_all add: demo_handles demo_fs_def)
  have dir: "find_in_dir ((\<lambda>_. ram_ops) (\<lparr>rca = 0, block_addressed = True\<rparr> :: card)) demo_fs 8 (root_cluster demo_fs) demo_name (pw_dev ?w) = (Inr (5, 0, True), dir_disk)"
    using dir_disk_find by (simp add: demo_fs_def)
  have slot: "first_free f_in_use (fp_files ?w) = Some 2"
    by (simp add: demo_fp_def demo_files_def first_free_def FILES_INIT_def MAX_OPEN_FILES_def numeral_eq_Suc EMPTY_FILE_def demo_file_def)
  have "2 < length (fp_files ?w)" by (simp add: demo_fp_def demo_slots)
  with root_directory_opens_as_file[where dev = "\<lambda>_. ram_ops", OF ctx root demo_path_ascii(2,1,3,4) dir slot, of 0]
  show ?thesis by auto
qed

end
