(* ===== verification/Device_Path.thy ===== *)
theory Device_Path
  imports Efi_Types
begin

text \<open>
  \<^verbatim>\<open>src/src/efi/device_path.rs\<close>: the device paths of the SD card and of the loaded file, as the bytes
  of their static buffers. \<open>walk\<close> is how a client reads a device path, node by node to the end node.
\<close>

section \<open>Nodes\<close>

definition DEVICE_PATH_PROTOCOL_GUID :: efi_guid where
  "DEVICE_PATH_PROTOCOL_GUID = \<lparr>data1 = 0x09576E91, data2 = 0x6D3F, data3 = 0x11D2,
     data4 = [0x8E, 0x39, 0x00, 0xA0, 0xC9, 0x69, 0x72, 0x3B]\<rparr>"

definition TYPE_HARDWARE :: u8 where "TYPE_HARDWARE = 0x01"
definition SUBTYPE_VENDOR :: u8 where "SUBTYPE_VENDOR = 0x04"
definition TYPE_MEDIA :: u8 where "TYPE_MEDIA = 0x04"
definition SUBTYPE_FILE_PATH :: u8 where "SUBTYPE_FILE_PATH = 0x04"
definition TYPE_END :: u8 where "TYPE_END = 0x7F"
definition SUBTYPE_END_ENTIRE :: u8 where "SUBTYPE_END_ENTIRE = 0xFF"

lemmas node_types = TYPE_HARDWARE_def SUBTYPE_VENDOR_def TYPE_MEDIA_def SUBTYPE_FILE_PATH_def TYPE_END_def SUBTYPE_END_ENTIRE_def

definition write_header :: "u8 list \<Rightarrow> nat \<Rightarrow> u8 \<Rightarrow> u8 \<Rightarrow> u16 \<Rightarrow> u8 list \<times> nat" where
  "write_header buf offset node_type sub_type len =
     (put_seg (buf[offset := node_type, offset + 1 := sub_type]) (offset + 2) (le16 len), offset + 4)"

definition write_end :: "u8 list \<Rightarrow> nat \<Rightarrow> u8 list \<times> nat" where
  "write_end buf offset = write_header buf offset TYPE_END SUBTYPE_END_ENTIRE 4"

section \<open>The SD card's path\<close>

definition FERRO_SD_VENDOR_GUID :: efi_guid where
  "FERRO_SD_VENDOR_GUID = \<lparr>data1 = 0x46455252, data2 = 0x4F00, data3 = 0x0002,
     data4 = [0x66, 0x65, 0x72, 0x72, 0x6F, 0x2D, 0x73, 0x64]\<rparr>"

definition SD_PATH_LEN :: nat where "SD_PATH_LEN = 24"

record sd_path =
  sp_bytes :: "u8 list"
  sp_built :: bool

definition SD_DEVICE_PATH :: sd_path where
  "SD_DEVICE_PATH = \<lparr>sp_bytes = replicate SD_PATH_LEN 0, sp_built = False\<rparr>"

definition sd_device_path :: "sd_path \<Rightarrow> sd_path" where
  "sd_device_path p =
     (if sp_built p then p
      else
        (let (b1, off) = write_header (sp_bytes p) 0 TYPE_HARDWARE SUBTYPE_VENDOR 20;
             b2 = put_seg b1 off (le32 (data1 FERRO_SD_VENDOR_GUID)); off = off + 4;
             b3 = put_seg b2 off (le16 (data2 FERRO_SD_VENDOR_GUID)); off = off + 2;
             b4 = put_seg b3 off (le16 (data3 FERRO_SD_VENDOR_GUID)); off = off + 2;
             b5 = put_seg b4 off (data4 FERRO_SD_VENDOR_GUID); off = off + 8
         in \<lparr>sp_bytes = fst (write_end b5 off), sp_built = True\<rparr>))"

section \<open>The path of a file\<close>

definition MAX_FILE_PATH_BYTES :: nat where "MAX_FILE_PATH_BYTES = 4 + 2 * 13 + 2 + 4"

text \<open>The units pushed to \<^verbatim>\<open>name_units\<close>, an array of 13: pushing a fourteenth panics.\<close>

definition path_units :: "u8 list \<Rightarrow> u16 list" where
  "path_units name_8_3 =
     (let ext = seg name_8_3 8 3 in
      0x5C # map ucast (filter (\<lambda>b. b \<noteq> 0x20) (seg name_8_3 0 8))
        @ (if ext \<noteq> [0x20, 0x20, 0x20] then 0x2E # map ucast (filter (\<lambda>b. b \<noteq> 0x20) ext) else []) @ [0])"

primrec write_units :: "u16 list \<Rightarrow> u8 list \<Rightarrow> nat \<Rightarrow> u8 list \<times> nat" where
  "write_units [] buf off = (buf, off)"
| "write_units (u # us) buf off = write_units us (put_seg buf off (le16 u)) (off + 2)"

definition build_file_path :: "u8 list \<Rightarrow> u8 list \<Rightarrow> u8 list checked" where
  "build_file_path name_8_3 buf =
     (let name_units = path_units name_8_3; n = length name_units in
      if n > 13 then Inl Panic
      else
        (let node_len = 4 + n * 2;
             (b1, off) = write_header buf 0 TYPE_MEDIA SUBTYPE_FILE_PATH (of_nat node_len);
             (b2, off) = write_units name_units b1 off
         in Inr (fst (write_end b2 off))))"

section \<open>Reading a path\<close>

text \<open>Type, subtype and payload of each node up to the end node; \<open>None\<close> when no end node is met.\<close>

fun walk :: "nat \<Rightarrow> u8 list \<Rightarrow> (u8 \<times> u8 \<times> u8 list) list option" where
  "walk 0 bs = None"
| "walk (Suc fuel) bs =
     (if length bs < 4 then None
      else
        (let n = unat (rd16 (seg bs 2 2)) in
         if bs ! 0 = TYPE_END then Some []
         else if n < 4 \<or> length bs < n then None
         else map_option ((#) (bs ! 0, bs ! 1, seg bs 4 (n - 4))) (walk fuel (drop n bs))))"

lemma write_header_bytes:
  assumes "off + 4 \<le> length buf"
  shows "write_header buf off t s len = (take off buf @ [t, s] @ le16 len @ drop (off + 4) buf, off + 4)"
proof -
  have "drop off buf = buf ! off # buf ! Suc off # drop (Suc (Suc off)) buf"
    using assms by (simp add: Cons_nth_drop_Suc)
  then have split: "buf = take off buf @ buf ! off # buf ! Suc off # drop (Suc (Suc off)) buf"
    by (metis append_take_drop_id)
  have "buf[off := t, off + 1 := s] = take off buf @ [t, s] @ drop (off + 2) buf"
    using assms by (subst split) (simp add: list_update_append)
  moreover have "off + 4 = Suc (Suc (Suc (Suc off)))" by simp
  ultimately show ?thesis using assms by (simp add: write_header_def put_seg_def numeral_eq_Suc)
qed

lemma write_units_bytes:
  "off + 2 * length us \<le> length buf \<Longrightarrow>
   write_units us buf off = (take off buf @ concat (map le16 us) @ drop (off + 2 * length us) buf, off + 2 * length us)"
proof (induction us arbitrary: buf off)
  case (Cons u us)
  have "off + 2 + 2 * length us \<le> length (put_seg buf off (le16 u))" using Cons.prems by simp
  from Cons.IH[OF this] Cons.prems show ?case by (simp add: put_seg_def add.commute)
qed simp

lemma seg_cons [simp]: "seg (x # xs) (Suc k) n = seg xs k n"
  by (simp add: seg_def)

lemma walk_node:
  assumes "n = 4 + length payload" "n < 65536" "t \<noteq> TYPE_END"
  shows "walk (Suc fuel) ([t, st] @ le16 (of_nat n) @ payload @ rest) = map_option ((#) (t, st, payload)) (walk fuel rest)"
proof -
  define H where H: "H = [t, st] @ le16 (of_nat n)"
  let ?bs = "H @ payload @ rest"
  have h: "length H = 4" "H ! 0 = t" "H ! 1 = st" by (simp_all add: H)
  have "seg ?bs 2 2 = le16 (of_nat n)" by (simp add: H numeral_2_eq_2) (simp add: seg_def)
  then have len: "unat (rd16 (seg ?bs 2 2)) = n" using assms(2) by (simp add: unat_of_nat)
  have "seg ?bs 4 (n - 4) = payload" "drop n ?bs = rest" using assms(1) h(1) by (simp_all add: seg_def)
  moreover have "?bs ! 0 = t" "?bs ! 1 = st" using h by (simp_all add: nth_append)
  moreover have bs: "[t, st] @ le16 (of_nat n) @ payload @ rest = ?bs" by (simp add: H)
  ultimately show ?thesis unfolding bs walk.simps Let_def len using assms h(1) by simp
qed

lemma walk_end: "walk (Suc fuel) ([TYPE_END, st] @ le16 4 @ rest) = Some []"
  by (simp add: Let_def)

lemma filter_bounds: "length name = 11 \<Longrightarrow> length (filter P (seg name 0 8)) \<le> 8" "length name = 11 \<Longrightarrow> length (filter P (seg name 8 3)) \<le> 3"
  by (auto intro: order_trans[OF length_filter_le])

text \<open>
  A device path built for a file is one a client can walk: whatever the buffer held before, it
  consists of one media file path node, whose payload is the path backslash, name, dot, extension and
  terminator in UTF-16, and the end node, and the buffer keeps its size. The name must leave at least
  one of its eleven characters blank.
\<close>

theorem file_path_walks:
  assumes name: "length name = 11" and blank: "0x20 \<in> set name" and buf: "length buf = MAX_FILE_PATH_BYTES"
  shows "\<exists>buf'. build_file_path name buf = Inr buf' \<and> length buf' = MAX_FILE_PATH_BYTES \<and>
    walk 2 buf' = Some [(TYPE_MEDIA, SUBTYPE_FILE_PATH, concat (map le16 (path_units name)))]"
proof -
  let ?us = "path_units name" and ?n = "length (path_units name)"
  have b: "length buf = 36" using buf by (simp add: MAX_FILE_PATH_BYTES_def)
  have split: "name = seg name 0 8 @ seg name 8 3" using name by (simp add: seg_def)
  have n: "?n \<le> 13"
  proof (cases "0x20 \<in> set (seg name 0 8)")
    case True
    then have "length (filter (\<lambda>b. b \<noteq> 0x20) (seg name 0 8)) < length (seg name 0 8)" by (intro length_filter_less) auto
    then show ?thesis using filter_bounds(2)[OF name, of "\<lambda>b. b \<noteq> 0x20"] name by (simp add: path_units_def Let_def)
  next
    case False
    then have "0x20 \<in> set (seg name 8 3)" using blank split by (metis Un_iff set_append)
    then have "length (filter (\<lambda>b. b \<noteq> 0x20) (seg name 8 3)) < length (seg name 8 3)" by (intro length_filter_less) auto
    then show ?thesis using filter_bounds(1)[OF name, of "\<lambda>b. b \<noteq> 0x20"] name by (simp add: path_units_def Let_def)
  qed
  define h where h: "h = [TYPE_MEDIA, SUBTYPE_FILE_PATH] @ le16 (of_nat (4 + ?n * 2))"
  let ?p = "concat (map le16 ?us)" and ?e = "[TYPE_END, SUBTYPE_END_ENTIRE] @ le16 4 @ drop (8 + 2 * ?n) buf"
  have l: "length h = 4" by (simp add: h)
  have w: "write_header buf 0 TYPE_MEDIA SUBTYPE_FILE_PATH (of_nat (4 + ?n * 2)) = (h @ drop 4 buf, 4)"
    using write_header_bytes[of 0 buf] b by (simp add: h)
  have u: "write_units ?us (h @ drop 4 buf) 4 = (h @ ?p @ drop (4 + 2 * ?n) buf, 4 + 2 * ?n)"
    using write_units_bytes[of 4 ?us "h @ drop 4 buf"] n b l by (simp add: add.commute)
  have e: "fst (write_end (h @ ?p @ drop (4 + 2 * ?n) buf) (4 + 2 * ?n)) = h @ ?p @ ?e"
    unfolding write_end_def using n b l by (subst write_header_bytes) (simp_all add: add.commute)
  have "build_file_path name buf = Inr (h @ ?p @ ?e)"
    unfolding build_file_path_def Let_def w prod.case u e using n by simp
  moreover have "walk 2 (h @ ?p @ ?e) = Some [(TYPE_MEDIA, SUBTYPE_FILE_PATH, ?p)]"
    using walk_node[of "4 + ?n * 2" ?p TYPE_MEDIA "Suc 0" SUBTYPE_FILE_PATH ?e] walk_end[of 0 SUBTYPE_END_ENTIRE "drop (8 + 2 * ?n) buf"] n
    unfolding h numeral_2_eq_2 append_assoc by (simp add: TYPE_MEDIA_def TYPE_END_def)
  moreover have "length (h @ ?p @ ?e) = MAX_FILE_PATH_BYTES" using n b l by (simp add: MAX_FILE_PATH_BYTES_def)
  ultimately show ?thesis by blast
qed

text \<open>
  A name that uses all eleven characters (eight of name, three of extension), such as
  BOOTAA64.EFI, does not fit the array of thirteen units the function declares as its worst case:
  building its device path, which happens when such a file is booted, panics.
\<close>

theorem full_name_panics:
  assumes "length name = 11" and "0x20 \<notin> set name"
  shows "build_file_path name buf = Inl Panic"
proof -
  have blank: "\<forall>b \<in> set (seg name 0 8). b \<noteq> 0x20" "\<forall>b \<in> set (seg name 8 3). b \<noteq> 0x20"
    using assms(2) by (auto simp: seg_def dest!: in_set_takeD in_set_dropD)
  then have f: "filter (\<lambda>b. b \<noteq> 0x20) (seg name 0 8) = seg name 0 8" "filter (\<lambda>b. b \<noteq> 0x20) (seg name 8 3) = seg name 8 3"
    by (simp_all add: filter_id_conv)
  have "seg name 8 3 \<noteq> [0x20, 0x20, 0x20]" using blank(2) by auto
  then have "length (path_units name) = 14" using assms(1) by (simp add: path_units_def Let_def f)
  then show ?thesis by (simp add: build_file_path_def)
qed

text \<open>The names \<^verbatim>\<open>HELLO.EFI\<close> and \<^verbatim>\<open>BOOTAA64.EFI\<close>.\<close>

theorem file_path_walks_witness:
  "\<exists>buf'. build_file_path [0x48, 0x45, 0x4C, 0x4C, 0x4F, 0x20, 0x20, 0x20, 0x45, 0x46, 0x49] (replicate 36 0) = Inr buf'"
  using file_path_walks[of "[0x48, 0x45, 0x4C, 0x4C, 0x4F, 0x20, 0x20, 0x20, 0x45, 0x46, 0x49]" "replicate 36 0"]
  by (auto simp: MAX_FILE_PATH_BYTES_def)

theorem full_name_panics_witness:
  "build_file_path [0x42, 0x4F, 0x4F, 0x54, 0x41, 0x41, 0x36, 0x34, 0x45, 0x46, 0x49] (replicate 36 0) = Inl Panic"
  by (rule full_name_panics) simp_all

end
