(* ===== verification/Ram.thy ===== *)
theory Ram
  imports Ferro_Prelude
begin

text \<open>
  Physical memory as the firmware reaches it through raw pointers: a byte for every 64-bit address,
  with the block operations of \<^verbatim>\<open>core::ptr\<close> (\<^verbatim>\<open>copy\<close>, \<^verbatim>\<open>write_bytes\<close>, unaligned reads and writes).
\<close>

type_synonym ram = "u64 \<Rightarrow> u8"

definition load_bytes :: "ram \<Rightarrow> u64 \<Rightarrow> nat \<Rightarrow> u8 list" where
  "load_bytes ram a n = map (\<lambda>i. ram (a + of_nat i)) [0..<n]"

definition store_at :: "u64 \<Rightarrow> u8 list \<Rightarrow> ram \<Rightarrow> ram" where
  "store_at a bytes ram x = (let i = unat (x - a) in if i < length bytes then bytes ! i else ram x)"

lemma length_load_bytes [simp]: "length (load_bytes ram a n) = n"
  by (simp add: load_bytes_def)

lemma load_bytes_0 [simp]: "load_bytes ram a 0 = []"
  by (simp add: load_bytes_def)

lemma load_bytes_add: "load_bytes ram a (m + n) = load_bytes ram a m @ load_bytes ram (a + of_nat m) n"
  by (induction n) (simp_all add: load_bytes_def add.assoc)

lemma load_bytes_seg: "off + n \<le> m \<Longrightarrow> load_bytes ram (a + of_nat off) n = seg (load_bytes ram a m) off n"
  by (intro nth_equalityI) (simp_all add: load_bytes_def nth_seg add.assoc)

text \<open>The addresses of a block; a block that does not wrap is an interval.\<close>

definition block :: "u64 \<Rightarrow> nat \<Rightarrow> u64 set" where
  "block a n = {x. unat (x - a) < n}"

lemma block_offset: "n \<le> 2 ^ 64 \<Longrightarrow> x \<in> block a n \<longleftrightarrow> (\<exists>i < n. x = a + of_nat i)"
proof
  assume "n \<le> 2 ^ 64" "\<exists>i < n. x = a + of_nat i"
  then show "x \<in> block a n" by (auto simp: block_def unat_of_nat)
next
  assume "x \<in> block a n"
  then have "unat (x - a) < n \<and> x = a + of_nat (unat (x - a))" by (simp add: block_def)
  then show "\<exists>i < n. x = a + of_nat i" by blast
qed

lemma block_interval: "unat a + n \<le> 2 ^ 64 \<Longrightarrow> x \<in> block a n \<longleftrightarrow> unat a \<le> unat x \<and> unat x < unat a + n"
proof -
  assume n: "unat a + n \<le> 2 ^ 64"
  have "unat (x - a) = (if unat a \<le> unat x then unat x - unat a else unat x + 2 ^ 64 - unat a)"
    by (simp add: unat_sub_if')
  moreover have "unat a < 2 ^ 64" using unat_bound[of a] by simp
  ultimately show ?thesis using n unfolding block_def mem_Collect_eq by (cases "unat a \<le> unat x") auto
qed

lemma store_at_inside: "n = length bytes \<Longrightarrow> i < n \<Longrightarrow> n \<le> 2 ^ 64 \<Longrightarrow> store_at a bytes ram (a + of_nat i) = bytes ! i"
  by (simp add: store_at_def unat_of_nat)

lemma store_at_outside: "x \<notin> block a (length bytes) \<Longrightarrow> store_at a bytes ram x = ram x"
  by (simp add: store_at_def block_def Let_def)

lemma load_store_same: "length bytes \<le> 2 ^ 64 \<Longrightarrow> n = length bytes \<Longrightarrow> load_bytes (store_at a bytes ram) a n = bytes"
  by (intro nth_equalityI) (simp_all add: load_bytes_def store_at_inside)

lemma load_bytes_cong:
  "(\<And>x. x \<in> block a n \<Longrightarrow> ram x = ram' x) \<Longrightarrow> n \<le> 2 ^ 64 \<Longrightarrow> load_bytes ram a n = load_bytes ram' a n"
  unfolding load_bytes_def by (intro map_cong) (auto simp: block_offset)

lemma load_store_disjoint:
  "block a n \<inter> block b (length bytes) = {} \<Longrightarrow> n \<le> 2 ^ 64 \<Longrightarrow> load_bytes (store_at b bytes ram) a n = load_bytes ram a n"
  by (rule load_bytes_cong) (auto intro!: store_at_outside)

lemma store_at_Nil [simp]: "store_at a [] ram = ram"
  by (rule ext) (simp add: store_at_def)

lemma block_sub: "off + n \<le> m \<Longrightarrow> m \<le> 2 ^ 64 \<Longrightarrow> block (a + of_nat off) n \<subseteq> block a m"
proof
  fix x assume n: "off + n \<le> m" "m \<le> 2 ^ 64" and "x \<in> block (a + of_nat off) n"
  then obtain i where "i < n" "x = a + of_nat (off + i)" by (auto simp: block_offset add.assoc)
  with n show "x \<in> block a m" by (auto simp: block_offset intro!: exI[of _ "off + i"])
qed

end
