(* ===== verification/Pe_Properties.thy ===== *)
theory Pe_Properties
  imports Pe
begin

text \<open>
  The loader's correctness: relocation adds the load offset to exactly the words the relocation
  directory names, sections land at their addresses, and what the loader does not check.
\<close>

section \<open>Relocation\<close>

text \<open>A block of the directory as (page, entries), its bytes, and the words it names.\<close>

type_synonym reloc_block = "u32 \<times> u16 list"

definition block_bytes :: "reloc_block \<Rightarrow> u8 list" where
  "block_bytes b = le32 (fst b) @ le32 (of_nat (8 + 2 * length (snd b))) @ concat (map le16 (snd b))"

definition dir_bytes :: "reloc_block list \<Rightarrow> u8 list" where
  "dir_bytes bs = concat (map block_bytes bs)"

definition block_ok :: "reloc_block \<Rightarrow> bool" where
  "block_ok b \<longleftrightarrow> 8 + 2 * length (snd b) < 2 ^ 32 \<and> (\<forall>e \<in> set (snd b). drop_bit 12 e = 0 \<or> drop_bit 12 e = 10)"

definition entry_targets :: "u64 \<Rightarrow> u32 \<Rightarrow> u16 list \<Rightarrow> u64 list" where
  "entry_targets load_base rva es =
     map (\<lambda>e. load_base + ucast rva + ucast (e AND 0x0FFF)) (filter (\<lambda>e. drop_bit 12 e = 10) es)"

definition dir_targets :: "u64 \<Rightarrow> reloc_block list \<Rightarrow> u64 list" where
  "dir_targets load_base bs = concat (map (\<lambda>b. entry_targets load_base (fst b) (snd b)) bs)"

definition bump :: "u64 \<Rightarrow> ram \<Rightarrow> u64 \<Rightarrow> ram" where
  "bump delta ram t = store_at t (le64 (rd64 (load_bytes ram t 8) + delta)) ram"

lemma length_block_bytes [simp]: "length (block_bytes b) = 8 + 2 * length (snd b)"
  by (simp add: block_bytes_def)

lemma dir_bytes_simps [simp]: "dir_bytes [] = []" "dir_bytes (b # bs) = block_bytes b @ dir_bytes bs"
  by (simp_all add: dir_bytes_def)

lemma dir_targets_simps [simp]:
  "dir_targets lb [] = []" "dir_targets lb (b # bs) = entry_targets lb (fst b) (snd b) @ dir_targets lb bs"
  by (simp_all add: dir_targets_def)

lemma bump_keeps: "block a n \<inter> block t 8 = {} \<Longrightarrow> n \<le> 2 ^ 64 \<Longrightarrow> load_bytes (bump delta ram t) a n = load_bytes ram a n"
  unfolding bump_def by (rule load_store_disjoint) simp_all

lemma bumps_keep:
  "\<forall>t \<in> set ts. block a n \<inter> block t 8 = {} \<Longrightarrow> n \<le> 2 ^ 64 \<Longrightarrow> load_bytes (foldl (bump delta) ram ts) a n = load_bytes ram a n"
  by (induction ts arbitrary: ram) (simp_all add: bump_keeps)

lemma reloc_entries_spec:
  assumes ok: "\<forall>e \<in> set es. drop_bit 12 e = 0 \<or> drop_bit 12 e = 10" and len: "2 * length es \<le> 2 ^ 64"
  shows "i + n = length es \<Longrightarrow> load_bytes (pe_ram s) (a + 8) (2 * length es) = concat (map le16 es) \<Longrightarrow>
    \<forall>t \<in> set (entry_targets lb rva es). block (a + 8) (2 * length es) \<inter> block t 8 = {} \<Longrightarrow>
    reloc_entries lb delta a rva i n s =
      (Inr (), s\<lparr>pe_ram := foldl (bump delta) (pe_ram s) (entry_targets lb rva (drop i es))\<rparr>)"
proof (induction n arbitrary: i s)
  case 0
  then show ?case by (simp add: entry_targets_def io_return_def)
next
  case (Suc n)
  let ?e = "es ! i" and ?t = "lb + ucast rva + ucast (es ! i AND 0x0FFF)"
  have i: "i < length es" using Suc.prems by simp
  have "load_bytes (pe_ram s) (a + 8 + of_nat (i * 2)) 2 = seg (concat (map le16 es)) (i * 2) 2"
    using load_bytes_seg[of "i * 2" 2 "2 * length es" "pe_ram s" "a + 8"] i Suc.prems(2) by simp
  also have "\<dots> = le16 ?e" using seg_concat_to_le[OF i, of 2 "[]"] by (simp add: mult.commute)
  finally have rd: "peek (a + 8 + of_nat (i * 2)) 2 s = (Inr (le16 ?e), s)" by (simp add: peek_def)
  have dr: "drop i es = ?e # drop (i + 1) es" using i by (simp add: Cons_nth_drop_Suc)
  have step: "reloc_entries lb delta a rva (i + 1) n s' =
      (Inr (), s'\<lparr>pe_ram := foldl (bump delta) (pe_ram s') (entry_targets lb rva (drop (i + 1) es))\<rparr>)"
    if "load_bytes (pe_ram s') (a + 8) (2 * length es) = concat (map le16 es)" for s'
    using Suc.IH[of "i + 1" s'] Suc.prems that by simp
  show ?case
  proof (cases "drop_bit 12 ?e = 10")
    case True
    then have t: "?t \<in> set (entry_targets lb rva es)" using i by (auto simp: entry_targets_def)
    let ?s = "s\<lparr>pe_ram := bump delta (pe_ram s) ?t\<rparr>"
    have "load_bytes (pe_ram ?s) (a + 8) (2 * length es) = concat (map le16 es)"
      using bump_keeps[of "a + 8" "2 * length es" ?t] Suc.prems(2,3) t len by simp
    note rest = step[OF this]
    have rmw: "peek ?t 8 s = (Inr (load_bytes (pe_ram s) ?t 8), s)"
      "poke ?t (le64 (rd64 (load_bytes (pe_ram s) ?t 8) + delta)) s = (Inr (), ?s)"
      by (simp_all add: peek_def poke_def bump_def)
    have "reloc_entries lb delta a rva i (Suc n) s = reloc_entries lb delta a rva (i + 1) n ?s"
      using True by (simp add: io_bind_def rd rmw le_simps pe_consts Let_def del: of_nat_mult)
    with rest True show ?thesis unfolding dr by (simp add: entry_targets_def)
  next
    case False
    then have "drop_bit 12 ?e = 0" using ok i nth_mem by blast
    then have "reloc_entries lb delta a rva i (Suc n) s = reloc_entries lb delta a rva (i + 1) n s"
      by (simp add: io_bind_def rd le_simps pe_consts Let_def del: of_nat_mult)
    with False step[OF Suc.prems(2)] show ?thesis unfolding dr by (simp add: entry_targets_def)
  qed
qed

text \<open>The first block of the directory, as memory shows it.\<close>

lemma dir_head:
  assumes "load_bytes ram a (length (dir_bytes (b # bs))) = dir_bytes (b # bs)"
  shows "load_bytes ram a 4 = le32 (fst b)" "load_bytes ram (a + 4) 4 = le32 (of_nat (8 + 2 * length (snd b)))"
    "load_bytes ram (a + 8) (2 * length (snd b)) = concat (map le16 (snd b))"
    "load_bytes ram (a + of_nat (8 + 2 * length (snd b))) (length (dir_bytes bs)) = dir_bytes bs"
proof -
  let ?m = "length (dir_bytes (b # bs))"
  have sub: "load_bytes ram (a + of_nat off) n = seg (dir_bytes (b # bs)) off n" if "off + n \<le> ?m" for off n
    using load_bytes_seg[OF that, of ram a] assms by simp
  show "load_bytes ram a 4 = le32 (fst b)" using sub[of 0 4] by (simp add: block_bytes_def seg_0_append)
  show "load_bytes ram (a + 4) 4 = le32 (of_nat (8 + 2 * length (snd b)))"
    using sub[of 4 4] by (simp add: block_bytes_def seg_append_right seg_0_append)
  show "load_bytes ram (a + 8) (2 * length (snd b)) = concat (map le16 (snd b))"
    using sub[of 8 "2 * length (snd b)"] by (simp add: block_bytes_def seg_append_right seg_0_append)
  show "load_bytes ram (a + of_nat (8 + 2 * length (snd b))) (length (dir_bytes bs)) = dir_bytes bs"
    using sub[of "8 + 2 * length (snd b)" "length (dir_bytes bs)"] by (simp add: seg_def del: of_nat_add)
qed

lemma reloc_blocks_spec:
  "\<forall>b \<in> set bs. block_ok b \<Longrightarrow> load_bytes (pe_ram s) a (length (dir_bytes bs)) = dir_bytes bs \<Longrightarrow>
   \<forall>t \<in> set (dir_targets lb bs). block a (length (dir_bytes bs)) \<inter> block t 8 = {} \<Longrightarrow>
   unat a + length (dir_bytes bs) < 2 ^ 64 \<Longrightarrow> length bs < fuel \<Longrightarrow>
   reloc_blocks fuel lb delta (a + of_nat (length (dir_bytes bs))) a s =
     (Inr (), s\<lparr>pe_ram := foldl (bump delta) (pe_ram s) (dir_targets lb bs)\<rparr>)"
proof (induction bs arbitrary: a s fuel)
  case Nil
  then show ?case by (cases fuel) (simp_all add: io_return_def)
next
  case (Cons b bs)
  obtain f where f: "fuel = Suc f" using Cons.prems by (cases fuel) auto
  let ?k = "8 + 2 * length (snd b)" and ?m = "length (dir_bytes bs)"
  let ?sz = "of_nat ?k :: u32"
  note head = dir_head[OF Cons.prems(2)]
  have ok: "?k < 2 ^ 32" "\<forall>e \<in> set (snd b). drop_bit 12 e = 0 \<or> drop_bit 12 e = 10"
    using Cons.prems(1) by (simp_all add: block_ok_def)
  have sz: "unat ?sz = ?k" using ok(1) by (simp only: unat_of_nat) simp
  then have sz8: "\<not> ?sz < 8" and next_a: "a + ucast ?sz = a + of_nat ?k"
    by (simp add: word_less_nat_alt, metis of_nat_unat)
  have fin: "a + of_nat (length (dir_bytes (b # bs))) = a + of_nat ?k + of_nat ?m" by (simp add: add.assoc)
  have bound: "unat a + (?k + ?m) < 2 ^ 64" using Cons.prems(4) by simp
  then have "unat (a + of_nat (length (dir_bytes (b # bs)))) = unat a + (?k + ?m)"
    by (simp add: unat_word_ariths unat_of_nat)
  then have lt: "a < a + of_nat (length (dir_bytes (b # bs)))" by (simp add: word_less_nat_alt)
  have sub: "block (a + 8) (2 * length (snd b)) \<subseteq> block a (?k + ?m)" "block (a + of_nat ?k) ?m \<subseteq> block a (?k + ?m)"
    using block_sub[of 8 "2 * length (snd b)" "?k + ?m" a] block_sub[of ?k ?m "?k + ?m" a] bound by simp_all
  have disj: "\<forall>t \<in> set (entry_targets lb (fst b) (snd b)) \<union> set (dir_targets lb bs). block a (?k + ?m) \<inter> block t 8 = {}"
    using Cons.prems(3) by simp
  have entries: "reloc_entries lb delta a (fst b) 0 (length (snd b)) s =
      (Inr (), s\<lparr>pe_ram := foldl (bump delta) (pe_ram s) (entry_targets lb (fst b) (snd b))\<rparr>)"
    using reloc_entries_spec[OF ok(2), of 0 "length (snd b)" s a lb "fst b" delta] head(3) disj sub ok(1) by auto
  let ?s = "s\<lparr>pe_ram := foldl (bump delta) (pe_ram s) (entry_targets lb (fst b) (snd b))\<rparr>"
  have "load_bytes (pe_ram ?s) (a + of_nat ?k) ?m = dir_bytes bs"
    using bumps_keep[of "entry_targets lb (fst b) (snd b)" "a + of_nat ?k" ?m] disj sub(2) bound head(4) by fastforce
  moreover have "unat (a + of_nat ?k) + ?m < 2 ^ 64" using bound by (simp add: unat_word_ariths unat_of_nat)
  ultimately have "reloc_blocks f lb delta (a + of_nat ?k + of_nat ?m) (a + of_nat ?k) ?s =
      (Inr (), ?s\<lparr>pe_ram := foldl (bump delta) (pe_ram ?s) (dir_targets lb bs)\<rparr>)"
    using Cons.prems disj sub(2) f by (intro Cons.IH) auto
  then show ?case
    using lt sz8 entries unfolding f fin
    by (simp add: io_bind_def peek_def head(1,2) le_simps sz next_a Let_def del: of_nat_add of_nat_mult)
qed

lemma bump_outside: "x \<notin> block t 8 \<Longrightarrow> bump delta ram t x = ram x"
  by (simp add: bump_def store_at_outside)

lemma bumps_outside: "\<forall>t \<in> set ts. x \<notin> block t 8 \<Longrightarrow> foldl (bump delta) ram ts x = ram x"
  by (induction ts arbitrary: ram) (simp_all add: bump_outside)

text \<open>The words that a list of addresses names do not overlap.\<close>

definition apart :: "u64 list \<Rightarrow> bool" where
  "apart ts \<longleftrightarrow> distinct ts \<and> (\<forall>t \<in> set ts. \<forall>u \<in> set ts. t \<noteq> u \<longrightarrow> block t 8 \<inter> block u 8 = {})"

lemma bumps_each:
  "apart ts \<Longrightarrow> t \<in> set ts \<Longrightarrow> rd64 (load_bytes (foldl (bump delta) ram ts) t 8) = rd64 (load_bytes ram t 8) + delta"
proof (induction ts arbitrary: ram)
  case (Cons u ts)
  have ap: "apart ts" using Cons.prems(1) by (auto simp: apart_def)
  show ?case
  proof (cases "t = u")
    case True
    then have "\<forall>v \<in> set ts. block t 8 \<inter> block v 8 = {}" using Cons.prems(1) by (auto simp: apart_def)
    then have "load_bytes (foldl (bump delta) (bump delta ram u) ts) t 8 = load_bytes (bump delta ram u) t 8"
      by (rule bumps_keep) simp
    also have "\<dots> = le64 (rd64 (load_bytes ram t 8) + delta)" by (simp add: True bump_def load_store_same)
    finally show ?thesis by (simp add: le_simps)
  next
    case False
    then have "block t 8 \<inter> block u 8 = {}" using Cons.prems by (auto simp: apart_def)
    with False Cons.IH[OF ap, of "bump delta ram u"] Cons.prems(2) show ?thesis by (simp add: bump_keeps)
  qed
qed simp

lemma length_dir_bytes: "8 * length bs \<le> length (dir_bytes bs)"
  by (induction bs) simp_all

text \<open>
  C13: base relocation is exact: when the loaded image holds a relocation directory of ABSOLUTE and
  DIR64 entries whose words overlap neither one another nor the directory, applying the relocations
  succeeds, adds the load offset to each word the DIR64 entries name and changes nothing else. As
  many steps as the directory has 8-byte headers, and one more, are enough.
\<close>

theorem apply_relocations_exact:
  assumes ok: "\<forall>b \<in> set bs. block_ok b" and sz: "unat dir_size = length (dir_bytes bs)"
    and dir: "load_bytes (pe_ram s) (load_base + ucast dir_rva) (unat dir_size) = dir_bytes bs"
    and off: "\<forall>t \<in> set (dir_targets load_base bs). block (load_base + ucast dir_rva) (unat dir_size) \<inter> block t 8 = {}"
    and ap: "apart (dir_targets load_base bs)"
    and wrap: "unat (load_base + ucast dir_rva) + unat dir_size < 2 ^ 64" and fuel: "unat dir_size div 8 < fuel"
  shows "\<exists>ram. apply_relocations fuel dir_rva dir_size load_base delta s = (Inr (), s\<lparr>pe_ram := ram\<rparr>) \<and>
    (\<forall>t \<in> set (dir_targets load_base bs). rd64 (load_bytes ram t 8) = rd64 (load_bytes (pe_ram s) t 8) + delta) \<and>
    (\<forall>x. (\<forall>t \<in> set (dir_targets load_base bs). x \<notin> block t 8) \<longrightarrow> ram x = pe_ram s x)"
proof -
  have "ucast dir_size = (of_nat (length (dir_bytes bs)) :: u64)" using sz by (metis of_nat_unat)
  moreover have "length bs < fuel" using fuel length_dir_bytes[of bs] sz by linarith
  ultimately have "apply_relocations fuel dir_rva dir_size load_base delta s =
      (Inr (), s\<lparr>pe_ram := foldl (bump delta) (pe_ram s) (dir_targets load_base bs)\<rparr>)"
    using reloc_blocks_spec[OF ok, of s "load_base + ucast dir_rva" load_base fuel delta] dir off wrap sz
    by (simp add: apply_relocations_def Let_def)
  then show ?thesis using bumps_each[OF ap] bumps_outside by (intro exI[of _ "foldl (bump delta) (pe_ram s) (dir_targets load_base bs)"]) auto
qed

definition demo_dir :: "reloc_block list" where "demo_dir = [(0x2000, [0xA008, 0])]"

definition demo_pe :: pe_state where
  "demo_pe = \<lparr>pe_mem = \<lparr>next_free_page = 0x100000, generation = 0\<rparr>, pe_ram = store_at 0x1000 (dir_bytes demo_dir) (\<lambda>_. 1)\<rparr>"

lemma demo_dir_facts:
  "length (dir_bytes demo_dir) = 12" "dir_targets 0 demo_dir = [0x2008]" "\<forall>b \<in> set demo_dir. block_ok b"
  by (simp_all add: demo_dir_def entry_targets_def block_ok_def)

lemma demo_dir_disjoint: "block 0x1000 12 \<inter> block 0x2008 8 = {}"
  by (auto simp: block_interval)

theorem apply_relocations_exact_witness:
  "\<exists>ram. apply_relocations 2 0x1000 12 0 0x5000 demo_pe = (Inr (), demo_pe\<lparr>pe_ram := ram\<rparr>) \<and>
     rd64 (load_bytes ram 0x2008 8) = rd64 (load_bytes (pe_ram demo_pe) 0x2008 8) + 0x5000"
  using apply_relocations_exact[OF demo_dir_facts(3), where dir_size = 12 and s = demo_pe and load_base = 0 and dir_rva = "0x1000"
      and fuel = 2 and delta = "0x5000"] demo_dir_disjoint
  by (auto simp: demo_dir_facts(1,2) demo_pe_def load_store_same apart_def)

section \<open>Sections\<close>

text \<open>Header \<open>i\<close> of the section table: where the section goes and the bytes the file has for it.\<close>

definition section_at :: "u8 list \<Rightarrow> nat \<Rightarrow> nat \<Rightarrow> u64 \<times> u8 list" where
  "section_at data sections_off i =
     (let s = sections_off + i * 40;
          copy_len = unat (min (rd32 (seg data (s + 16) 4)) (rd32 (seg data (s + 8) 4)))
      in (ucast (rd32 (seg data (s + 12) 4)), seg data (unat (rd32 (seg data (s + 20) 4))) copy_len))"

definition section_present :: "u8 list \<Rightarrow> nat \<Rightarrow> nat \<Rightarrow> bool" where
  "section_present data sections_off i \<longleftrightarrow>
     (let s = sections_off + i * 40;
          copy_len = unat (min (rd32 (seg data (s + 16) 4)) (rd32 (seg data (s + 8) 4)))
      in s + 24 \<le> length data \<and> unat (rd32 (seg data (s + 20) 4)) + copy_len \<le> length data)"

definition place :: "u64 \<Rightarrow> ram \<Rightarrow> u64 \<times> u8 list \<Rightarrow> ram" where
  "place load_base ram sec = store_at (load_base + fst sec) (snd sec) ram"

lemma copy_sections_spec:
  "\<forall>j \<in> {i..<i + n}. section_present data sections_off j \<Longrightarrow>
   copy_sections data sections_off load_base i n s =
     (Inr (), s\<lparr>pe_ram := foldl (place load_base) (pe_ram s) (map (section_at data sections_off) [i..<i + n])\<rparr>)"
proof (induction n arbitrary: i s)
  case 0
  then show ?case by (simp add: io_return_def)
next
  case (Suc n)
  have up: "[i..<i + Suc n] = i # [i + 1..<i + 1 + n]" by (simp add: upt_conv_Cons del: upt_Suc)
  let ?s = "s\<lparr>pe_ram := place load_base (pe_ram s) (section_at data sections_off i)\<rparr>"
  have "section_present data sections_off i" using Suc.prems by simp
  then have "copy_sections data sections_off load_base i (Suc n) s = copy_sections data sections_off load_base (i + 1) n ?s"
    by (simp add: section_present_def section_at_def place_def ru32_def io_bind_def io_return_def poke_def Let_def)
  also have "\<dots> = (Inr (), ?s\<lparr>pe_ram := foldl (place load_base) (pe_ram ?s) (map (section_at data sections_off) [i + 1..<i + 1 + n])\<rparr>)"
    using Suc.prems by (intro Suc.IH) auto
  finally show ?case unfolding up by simp
qed

lemma places_outside:
  "\<forall>sec \<in> set secs. x \<notin> block (load_base + fst sec) (length (snd sec)) \<Longrightarrow> foldl (place load_base) ram secs x = ram x"
  by (induction secs arbitrary: ram) (simp_all add: place_def store_at_outside)

lemma places_last:
  assumes "n = length (snd sec)" "n \<le> 2 ^ 64"
    "\<forall>sec' \<in> set post. block (load_base + fst sec) n \<inter> block (load_base + fst sec') (length (snd sec')) = {}"
  shows "load_bytes (foldl (place load_base) ram (pre @ sec # post)) (load_base + fst sec) n = snd sec"
proof -
  have "load_bytes (foldl (place load_base) ram (pre @ sec # post)) (load_base + fst sec) n =
      load_bytes (place load_base (foldl (place load_base) ram pre) sec) (load_base + fst sec) n"
    using assms by (intro load_bytes_cong) (auto intro!: places_outside)
  then show ?thesis using assms by (simp add: place_def load_store_same)
qed

section \<open>Loading\<close>

text \<open>The header fields, by the offset \<open>pe\<close> of the PE signature.\<close>

abbreviation pe_sections :: "u8 list \<Rightarrow> nat \<Rightarrow> nat" where
  "pe_sections data pe \<equiv> unat (rd16 (seg data (6 + pe) 2))"

abbreviation pe_table :: "u8 list \<Rightarrow> nat \<Rightarrow> nat" where
  "pe_table data pe \<equiv> 24 + pe + unat (rd16 (seg data (20 + pe) 2))"

abbreviation pe_image_size :: "u8 list \<Rightarrow> nat \<Rightarrow> u32" where
  "pe_image_size data pe \<equiv> rd32 (seg data (80 + pe) 4)"

definition pe_pages :: "u8 list \<Rightarrow> nat \<Rightarrow> u64" where
  "pe_pages data pe = (ucast (pe_image_size data pe) + 0xFFF) div 0x1000"

text \<open>A PE32+ header for this machine, without a base relocation directory.\<close>

definition header_ok :: "u8 list \<Rightarrow> nat \<Rightarrow> bool" where
  "header_ok data pe \<longleftrightarrow> 0x40 \<le> length data \<and> seg data 0 2 = [0x4D, 0x5A] \<and> unat (rd32 (seg data 0x3C 4)) = pe \<and>
     136 + pe \<le> length data \<and> seg data pe 4 = [0x50, 0x45, 0, 0] \<and>
     rd16 (seg data (4 + pe) 2) = IMAGE_FILE_MACHINE_ARM64 \<and> rd16 (seg data (24 + pe) 2) = PE32_PLUS_MAGIC \<and>
     unat (rd32 (seg data (132 + pe) 4)) \<le> DATA_DIR_BASE_RELOCATION"

lemma pe_load_spec:
  assumes h: "header_ok data pe" and secs: "\<forall>j < pe_sections data pe. section_present data (pe_table data pe) j"
    and alloc: "mem_allocate_pages (pe_mem s) (pe_pages data pe) = (Some base, m)"
  shows "pe_load fuel data s =
    (Inr \<lparr>lp_image_base = base, lp_image_size = pe_pages data pe * 0x1000,
          lp_entry_point = base + ucast (rd32 (seg data (40 + pe) 4))\<rparr>,
     s\<lparr>pe_mem := m, pe_ram := foldl (place base)
         (store_at base (replicate (unat (pe_pages data pe * 0x1000)) 0) (pe_ram s))
         (map (section_at data (pe_table data pe)) [0..<pe_sections data pe])\<rparr>)"
proof -
  let ?n = "pe_sections data pe"
  have cp: "copy_sections data (pe_table data pe) base 0 ?n s' =
      (Inr (), s'\<lparr>pe_ram := foldl (place base) (pe_ram s') (map (section_at data (pe_table data pe)) [0..<?n])\<rparr>)" for s'
    using copy_sections_spec[of 0 ?n data "pe_table data pe" base s'] secs by simp
  have al: "pe_allocate (pe_pages data pe) s = (Inr base, s\<lparr>pe_mem := m\<rparr>)" by (simp add: pe_allocate_def alloc)
  have dir: "base_reloc_dir data (24 + pe) k s = (Inr (0, 0), s)" if "k \<le> DATA_DIR_BASE_RELOCATION" for k
    using that by (simp add: base_reloc_dir_def io_return_def)
  show ?thesis using h
    by (simp add: header_ok_def pe_load_def ru16_def ru32_def ru64_def io_bind_def io_return_def dir poke_def cp
        al[unfolded pe_pages_def] pe_pages_def Let_def add.commute[of pe])
qed

lemma unat_pe_size: "unat (pe_pages data pe * 0x1000) = (unat (pe_image_size data pe) + 4095) div 4096 * 4096"
proof -
  let ?sz = "pe_image_size data pe"
  have "unat (ucast ?sz :: u64) = unat ?sz" by (simp add: unsigned_ucast_eq take_bit_nat_eq_self order_less_le_trans[OF unat_bound[of ?sz]])
  moreover have "unat ?sz < 2 ^ 32" using unat_bound[of ?sz] by simp
  ultimately have "unat (pe_pages data pe) = (unat ?sz + 4095) div 4096"
    by (simp add: pe_pages_def unat_div unat_word_ariths)
  moreover have "(unat ?sz + 4095) div 4096 * 4096 < 2 ^ 64"
    using \<open>unat ?sz < 2 ^ 32\<close> by (intro order_le_less_trans[OF div_times_less_eq_dividend]) simp
  ultimately show ?thesis by (simp add: unat_mult_in_range)
qed

text \<open>The sections of a file, and that they lie inside the image without overlapping.\<close>

definition pe_secs :: "u8 list \<Rightarrow> nat \<Rightarrow> (u64 \<times> u8 list) list" where
  "pe_secs data pe = map (section_at data (pe_table data pe)) [0..<pe_sections data pe]"

definition secs_fit :: "nat \<Rightarrow> (u64 \<times> u8 list) list \<Rightarrow> bool" where
  "secs_fit sz secs \<longleftrightarrow> (\<forall>sec \<in> set secs. unat (fst sec) + length (snd sec) \<le> sz) \<and>
     (\<forall>i < length secs. \<forall>j < length secs. i \<noteq> j \<longrightarrow>
        unat (fst (secs ! i)) + length (snd (secs ! i)) \<le> unat (fst (secs ! j)) \<or>
        unat (fst (secs ! j)) + length (snd (secs ! j)) \<le> unat (fst (secs ! i)))"

lemma sec_block:
  assumes "unat base + sz \<le> 2 ^ 64" "unat va + n \<le> sz" "0 < n"
  shows "x \<in> block (base + va) n \<longleftrightarrow> unat base + unat va \<le> unat x \<and> unat x < unat base + unat va + n"
proof -
  have "unat (base + va) = unat base + unat va" using assms by (intro unat_add_in_range) simp
  with block_interval[of "base + va" n x] assms show ?thesis by simp
qed

lemma secs_disjoint:
  assumes "secs_fit sz secs" "unat base + sz \<le> 2 ^ 64" "i < length secs" "j < length secs" "i \<noteq> j"
  shows "block (base + fst (secs ! i)) (length (snd (secs ! i))) \<inter> block (base + fst (secs ! j)) (length (snd (secs ! j))) = {}"
proof (cases "length (snd (secs ! i)) = 0 \<or> length (snd (secs ! j)) = 0")
  case True
  then show ?thesis by (auto simp: block_def)
next
  case False
  have "unat (fst (secs ! k)) + length (snd (secs ! k)) \<le> sz" if "k < length secs" for k
    using assms(1) that by (simp add: secs_fit_def)
  then have "x \<in> block (base + fst (secs ! k)) (length (snd (secs ! k))) \<longleftrightarrow>
      unat base + unat (fst (secs ! k)) \<le> unat x \<and> unat x < unat base + unat (fst (secs ! k)) + length (snd (secs ! k))"
    if "k = i \<or> k = j" for k x using that False assms(3,4) sec_block[OF assms(2)] by blast
  moreover have "unat (fst (secs ! i)) + length (snd (secs ! i)) \<le> unat (fst (secs ! j)) \<or>
        unat (fst (secs ! j)) + length (snd (secs ! j)) \<le> unat (fst (secs ! i))"
    using assms by (simp add: secs_fit_def)
  ultimately show ?thesis by fastforce
qed

text \<open>
  C14: loading builds the image the file describes: given a valid header without relocations,
  sections that lie inside SizeOfImage without overlapping and memory for it, the load succeeds with
  the entry point at its offset from the base, every section's bytes stand at the section's address,
  the rest of the image is zero, and memory outside the image is untouched.
\<close>

theorem pe_load_builds_image:
  assumes h: "header_ok data pe" and secs: "\<forall>j < pe_sections data pe. section_present data (pe_table data pe) j"
    and fit: "secs_fit (unat (pe_image_size data pe)) (pe_secs data pe)"
    and alloc: "mem_allocate_pages (pe_mem s) (pe_pages data pe) = (Some base, m)" and room: "unat base + 2 ^ 33 \<le> 2 ^ 64"
  shows "\<exists>lp ram. pe_load fuel data s = (Inr lp, s\<lparr>pe_mem := m, pe_ram := ram\<rparr>) \<and> lp_image_base lp = base \<and>
    lp_entry_point lp = base + ucast (rd32 (seg data (40 + pe) 4)) \<and>
    unat (pe_image_size data pe) \<le> unat (lp_image_size lp) \<and>
    (\<forall>sec \<in> set (pe_secs data pe). load_bytes ram (base + fst sec) (length (snd sec)) = snd sec) \<and>
    (\<forall>x \<in> block base (unat (lp_image_size lp)).
       (\<forall>sec \<in> set (pe_secs data pe). x \<notin> block (base + fst sec) (length (snd sec))) \<longrightarrow> ram x = 0) \<and>
    (\<forall>x. x \<notin> block base (unat (lp_image_size lp)) \<longrightarrow> ram x = pe_ram s x)"
proof -
  let ?size = "unat (pe_image_size data pe)" and ?total = "unat (pe_pages data pe * 0x1000)" and ?secs = "pe_secs data pe"
  let ?z = "store_at base (replicate ?total 0) (pe_ram s)"
  let ?ram = "foldl (place base) ?z ?secs"
  have lt: "?size < 2 ^ 32" using unat_bound[of "pe_image_size data pe"] by simp
  have total_ge: "?size \<le> ?total" unfolding unat_pe_size by simp
  have wrap: "unat base + ?size \<le> 2 ^ 64" using lt room by simp
  have each: "load_bytes ?ram (base + fst sec) (length (snd sec)) = snd sec" if mem: "sec \<in> set ?secs" for sec
  proof -
    obtain i where i: "i < length ?secs" "sec = ?secs ! i" using mem unfolding in_set_conv_nth by blast
    have split: "?secs = take i ?secs @ sec # drop (i + 1) ?secs" unfolding i(2) Suc_eq_plus1[symmetric] by (rule id_take_nth_drop[OF i(1)])
    have "block (base + fst sec) (length (snd sec)) \<inter> block (base + fst sec') (length (snd sec')) = {}"
      if mem': "sec' \<in> set (drop (i + 1) ?secs)" for sec'
    proof -
      obtain j where "j < length (drop (i + 1) ?secs)" "sec' = drop (i + 1) ?secs ! j" using mem' unfolding in_set_conv_nth by blast
      then have "i + 1 + j < length ?secs" "sec' = ?secs ! (i + 1 + j)" by simp_all
      with secs_disjoint[OF fit wrap i(1)] i(2) show ?thesis by simp
    qed
    moreover have "length (snd sec) \<le> 2 ^ 64" using fit mem lt by (fastforce simp: secs_fit_def)
    ultimately have "load_bytes (foldl (place base) ?z (take i ?secs @ sec # drop (i + 1) ?secs)) (base + fst sec) (length (snd sec)) = snd sec"
      by (intro places_last) auto
    then show ?thesis by (simp only: split[symmetric])
  qed
  have inside: "block (base + fst sec) (length (snd sec)) \<subseteq> block base ?total" if "sec \<in> set ?secs" for sec
  proof -
    have "unat (fst sec) + length (snd sec) \<le> ?total" using fit that total_ge by (fastforce simp: secs_fit_def)
    moreover have "?total \<le> 2 ^ 64" using unat_bound[of "pe_pages data pe * 0x1000"] by simp
    ultimately show ?thesis using block_sub[of "unat (fst sec)" "length (snd sec)" ?total base] by simp
  qed
  have zero: "?ram x = 0" if "x \<in> block base ?total" "\<forall>sec \<in> set ?secs. x \<notin> block (base + fst sec) (length (snd sec))" for x
    using places_outside[OF that(2), of ?z] that(1) by (simp add: store_at_def block_def Let_def)
  have out: "?ram x = pe_ram s x" if "x \<notin> block base ?total" for x
  proof -
    have "\<forall>sec \<in> set ?secs. x \<notin> block (base + fst sec) (length (snd sec))" using that inside by blast
    from places_outside[OF this, of ?z] that show ?thesis by (simp add: store_at_outside)
  qed
  let ?lp = "\<lparr>lp_image_base = base, lp_image_size = pe_pages data pe * 0x1000,
      lp_entry_point = base + ucast (rd32 (seg data (40 + pe) 4))\<rparr>"
  have "pe_load fuel data s = (Inr ?lp, s\<lparr>pe_mem := m, pe_ram := ?ram\<rparr>)"
    unfolding pe_secs_def by (rule pe_load_spec[OF h secs alloc])
  moreover have "lp_image_base ?lp = base" "lp_entry_point ?lp = base + ucast (rd32 (seg data (40 + pe) 4))"
    "unat (lp_image_size ?lp) = ?total" by (simp_all only: loaded_pe.simps)
  ultimately show ?thesis using each zero out total_ge by metis
qed

section \<open>A small image\<close>

text \<open>An image of one page with one section of four bytes at address \<open>va\<close>.\<close>

definition small_pe :: "u32 \<Rightarrow> u8 list" where
  "small_pe va =
     [0x4D, 0x5A] @ replicate 58 0 @ le32 0x40 @
     [0x50, 0x45, 0, 0] @ le16 0xAA64 @ le16 1 @ replicate 12 0 @ le16 112 @ le16 0 @
     le16 0x20B @ replicate 14 0 @ le32 0x10 @ replicate 4 0 @ le64 0 @ replicate 24 0 @ le32 0x1000 @ replicate 48 0 @ le32 0 @
     replicate 8 0 @ le32 4 @ le32 va @ le32 4 @ le32 240 @ replicate 16 0 @ [1, 2, 3, 4]"

lemma small_pe_fields:
  "length (small_pe va) = 244" "seg (small_pe va) 0 2 = [0x4D, 0x5A]" "seg (small_pe va) 60 4 = le32 0x40"
  "seg (small_pe va) 64 4 = [0x50, 0x45, 0, 0]" "seg (small_pe va) 68 2 = le16 0xAA64" "seg (small_pe va) 70 2 = le16 1"
  "seg (small_pe va) 84 2 = le16 112" "seg (small_pe va) 88 2 = le16 0x20B" "seg (small_pe va) 104 4 = le32 0x10"
  "seg (small_pe va) 144 4 = le32 0x1000" "seg (small_pe va) 196 4 = le32 0" "seg (small_pe va) 208 4 = le32 4"
  "seg (small_pe va) 212 4 = le32 va" "seg (small_pe va) 216 4 = le32 4" "seg (small_pe va) 220 4 = le32 240"
  "seg (small_pe va) 240 4 = [1, 2, 3, 4]"
  by (simp_all add: small_pe_def seg_append_right seg_0_append seg_def[of "[_, _, _, _]"] seg_def[of "_ # _"])

lemma small_pe_header: "header_ok (small_pe va) 64" "pe_sections (small_pe va) 64 = 1" "pe_table (small_pe va) 64 = 200"
  "pe_image_size (small_pe va) 64 = 0x1000" "pe_pages (small_pe va) 64 = 1"
  by (simp_all add: header_ok_def pe_pages_def small_pe_fields le_simps pe_consts)

lemma small_pe_section: "section_present (small_pe va) 200 0" "section_at (small_pe va) 200 0 = (ucast va, [1, 2, 3, 4])"
  by (simp_all add: section_present_def section_at_def small_pe_fields le_simps)

lemma small_alloc: "mem_allocate_pages \<lparr>next_free_page = 0x100000, generation = g\<rparr> 1 =
    (Some 0x100000, \<lparr>next_free_page = 0x101000, generation = g + 1\<rparr>)"
  by (simp add: mem_allocate_pages_def allocate_pages_cas.simps RAM_LIMIT_def PERIPHERAL_BASE_def EFI_PAGE_SIZE_def)

theorem pe_load_builds_image_witness:
  "\<exists>lp ram. pe_load 0 (small_pe 0x20) demo_pe = (Inr lp, demo_pe\<lparr>pe_mem := \<lparr>next_free_page = 0x101000, generation = 1\<rparr>, pe_ram := ram\<rparr>) \<and>
     lp_entry_point lp = 0x100010 \<and> load_bytes ram 0x100020 4 = [1, 2, 3, 4]"
proof -
  have secs: "pe_secs (small_pe 0x20) 64 = [(0x20, [1, 2, 3, 4])]"
    by (simp add: pe_secs_def small_pe_fields le_simps small_pe_section)
  have four: "(4 :: nat) = Suc (Suc (Suc (Suc 0)))" by simp
  show ?thesis unfolding four
    using pe_load_builds_image[where data = "small_pe 0x20" and pe = 64 and s = demo_pe and base = "0x100000" and fuel = 0
        and m = "\<lparr>next_free_page = 0x101000, generation = 1\<rparr>"]
    by (auto simp: small_pe_header small_pe_section secs secs_fit_def demo_pe_def small_alloc small_pe_fields le_simps)
qed

text \<open>
  The loader does not check that a section lies inside the image it allocated: a well-formed file
  whose one section has any address \<open>va\<close>, however far beyond its SizeOfImage of one page, is loaded
  successfully and its bytes are written at that distance from the base.
\<close>

theorem pe_load_section_escapes:
  assumes alloc: "mem_allocate_pages (pe_mem s) 1 = (Some base, m)"
  shows "\<exists>lp s'. pe_load fuel (small_pe va) s = (Inr lp, s') \<and> lp_image_base lp = base \<and> lp_image_size lp = 0x1000 \<and>
    load_bytes (pe_ram s') (base + ucast va) 4 = [1, 2, 3, 4]"
  using pe_load_spec[OF small_pe_header(1)[of va], of s base m fuel] alloc
  by (auto simp: small_pe_header(5) small_pe_fields le_simps small_pe_section place_def load_store_same)

theorem pe_load_section_escapes_witness:
  "\<exists>lp s'. pe_load 0 (small_pe 0x200000) demo_pe = (Inr lp, s') \<and> lp_image_base lp = 0x100000 \<and> lp_image_size lp = 0x1000 \<and>
     load_bytes (pe_ram s') 0x300000 4 = [1, 2, 3, 4]"
  using pe_load_section_escapes[where s = demo_pe and base = "0x100000" and fuel = 0 and va = "0x200000"
      and m = "\<lparr>next_free_page = 0x101000, generation = 1\<rparr>"]
  by (simp add: demo_pe_def small_alloc)

end
