(* ===== verification/Boot_Services.thy ===== *)
theory Boot_Services
  imports Pe Protocol_Db Events Crc32 Pm
begin

text \<open>
  \<^verbatim>\<open>src/src/efi/boot_services.rs\<close> (with \<^verbatim>\<open>protocols.rs\<close>): every boot service over the state it uses.
  A pointer argument is an option (\<open>None\<close> is null) carrying what it points at, and what the call
  leaves there is part of the result. Addresses the linker decides (the end of the firmware, the
  system table, the loaded-image slots, the configuration table) are the record \<open>layout\<close>. Code of the
  application (an image's entry point, an unload function, a notification) is a parameter.
\<close>

section \<open>State\<close>

definition LOADED_IMAGE_PROTOCOL_GUID :: efi_guid where
  "LOADED_IMAGE_PROTOCOL_GUID = \<lparr>data1 = 0x5B1B31A1, data2 = 0x9562, data3 = 0x11D2,
     data4 = [0x8E, 0x3F, 0x00, 0xA0, 0xC9, 0x69, 0x72, 0x3B]\<rparr>"

definition SIMPLE_TEXT_OUTPUT_PROTOCOL_GUID :: efi_guid where
  "SIMPLE_TEXT_OUTPUT_PROTOCOL_GUID = \<lparr>data1 = 0x387477C2, data2 = 0x69C7, data3 = 0x11D2,
     data4 = [0x8E, 0x39, 0x00, 0xA0, 0xC9, 0x69, 0x72, 0x3B]\<rparr>"

record loaded_image =
  li_revision :: u32
  li_parent_handle :: efi_handle
  li_system_table :: addr
  li_device_handle :: efi_handle
  li_file_path :: addr
  li_reserved :: addr
  li_load_options_size :: u32
  li_load_options :: addr
  li_image_base :: addr
  li_image_size :: u64
  li_image_code_type :: u32
  li_image_data_type :: u32
  li_unload :: "addr option"

definition EMPTY_LOADED_IMAGE :: loaded_image where
  "EMPTY_LOADED_IMAGE = \<lparr>li_revision = 0x1000, li_parent_handle = 0, li_system_table = 0, li_device_handle = 0,
     li_file_path = 0, li_reserved = 0, li_load_options_size = 0, li_load_options = 0, li_image_base = 0,
     li_image_size = 0, li_image_code_type = EFI_LOADER_CODE, li_image_data_type = EFI_LOADER_DATA, li_unload = None\<rparr>"

definition MAX_CONFIG_TABLE_ENTRIES :: nat where "MAX_CONFIG_TABLE_ENTRIES = 8"

record layout =
  lo_fw_end :: u64
  lo_system_table :: addr
  lo_loaded_image :: "nat \<Rightarrow> addr"
  lo_config_table :: addr

record boot_state =
  bs_fb_base :: u64
  bs_fb_size :: u64
  bs_tpl :: u64
  bs_exited :: bool
  bs_mem :: mem_state
  bs_ram :: ram
  bs_handles :: handle_db
  bs_images :: "loaded_image list"
  bs_entry_points :: "u64 list"
  bs_config :: "efi_configuration_table_entry list"
  bs_config_count :: nat
  bs_st_config_table :: addr
  bs_st_entries :: nat
  bs_monotonic :: u64

definition BOOT_INIT :: "ram \<Rightarrow> boot_state" where
  "BOOT_INIT ram = \<lparr>bs_fb_base = 0, bs_fb_size = 0, bs_tpl = 4, bs_exited = False,
     bs_mem = \<lparr>next_free_page = 0, generation = 0\<rparr>, bs_ram = ram, bs_handles = HANDLES_INIT,
     bs_images = replicate MAX_HANDLES EMPTY_LOADED_IMAGE, bs_entry_points = replicate MAX_HANDLES 0,
     bs_config = replicate MAX_CONFIG_TABLE_ENTRIES \<lparr>vendor_guid = zero_guid, vendor_table = 0\<rparr>, bs_config_count = 0,
     bs_st_config_table = 0, bs_st_entries = 0, bs_monotonic = 0\<rparr>"

definition set_framebuffer_region :: "u64 \<Rightarrow> u64 \<Rightarrow> 'x boot_state_scheme \<Rightarrow> 'x boot_state_scheme" where
  "set_framebuffer_region base sz s = s\<lparr>bs_fb_base := base, bs_fb_size := sz\<rparr>"

section \<open>Task priority and memory\<close>

definition raise_tpl :: "u64 \<Rightarrow> boot_state \<Rightarrow> u64 \<times> boot_state" where
  "raise_tpl new_tpl s = (bs_tpl s, s\<lparr>bs_tpl := new_tpl\<rparr>)"

definition restore_tpl :: "u64 \<Rightarrow> boot_state \<Rightarrow> boot_state" where
  "restore_tpl old_tpl s = s\<lparr>bs_tpl := old_tpl\<rparr>"

definition allocate_pages :: "u64 \<Rightarrow> u64 option \<Rightarrow> 'x boot_state_scheme \<Rightarrow> efi_status \<times> u64 option \<times> 'x boot_state_scheme" where
  "allocate_pages pages memory s =
     (if bs_exited s then (EFI_UNSUPPORTED, memory, s)
      else if memory = None then (EFI_INVALID_PARAMETER, memory, s)
      else
        (case mem_allocate_pages (bs_mem s) pages of
           (Some base, m) \<Rightarrow> (EFI_SUCCESS, Some base, s\<lparr>bs_mem := m\<rparr>)
         | (None, m) \<Rightarrow> (EFI_OUT_OF_RESOURCES, memory, s\<lparr>bs_mem := m\<rparr>)))"

definition free_pages :: "u64 \<Rightarrow> u64 \<Rightarrow> efi_status" where
  "free_pages memory pages = EFI_SUCCESS"

definition DESCRIPTOR_SIZE :: nat where "DESCRIPTOR_SIZE = 40"

record memory_map_out =
  mm_status :: efi_status
  mm_size :: "nat option"
  mm_map :: "efi_memory_descriptor list option"
  mm_key :: "u64 option"
  mm_descriptor_size :: "nat option"
  mm_descriptor_version :: "u32 option"

definition get_memory_map ::
  "layout \<Rightarrow> nat option \<Rightarrow> efi_memory_descriptor list option \<Rightarrow> u64 option \<Rightarrow> nat option \<Rightarrow> u32 option \<Rightarrow> 'x boot_state_scheme \<Rightarrow>
   memory_map_out" where
  "get_memory_map lo map_size memory_map map_key descriptor_size descriptor_version s =
     (let unchanged = \<lparr>mm_status = EFI_INVALID_PARAMETER, mm_size = map_size, mm_map = memory_map, mm_key = map_key,
            mm_descriptor_size = descriptor_size, mm_descriptor_version = descriptor_version\<rparr> in
      case map_size of
        None \<Rightarrow> unchanged
      | Some bytes \<Rightarrow>
          (case mem_get_memory_map (lo_fw_end lo) (bs_mem s) (bs_fb_base s) (bs_fb_size s) 8 of
             None \<Rightarrow> unchanged\<lparr>mm_status := EFI_BUFFER_TOO_SMALL\<rparr>
           | Some scratch \<Rightarrow>
               let n = length scratch; capacity = bytes div DESCRIPTOR_SIZE in
               if capacity < n then unchanged\<lparr>mm_status := EFI_BUFFER_TOO_SMALL, mm_size := Some (n * DESCRIPTOR_SIZE)\<rparr>
               else \<lparr>mm_status = EFI_SUCCESS, mm_size = Some (n * DESCRIPTOR_SIZE),
                     mm_map = map_option (\<lambda>buf. put_seg buf 0 scratch) memory_map,
                     mm_key = map_option (\<lambda>_. generation (bs_mem s)) map_key,
                     mm_descriptor_size = map_option (\<lambda>_. DESCRIPTOR_SIZE) descriptor_size,
                     mm_descriptor_version = map_option (\<lambda>_. EFI_MEMORY_DESCRIPTOR_VERSION) descriptor_version\<rparr>))"

definition allocate_pool :: "u64 \<Rightarrow> addr option \<Rightarrow> 'x boot_state_scheme \<Rightarrow> efi_status \<times> addr option \<times> 'x boot_state_scheme" where
  "allocate_pool sz buffer s =
     (if bs_exited s then (EFI_UNSUPPORTED, buffer, s)
      else if buffer = None then (EFI_INVALID_PARAMETER, buffer, s)
      else
        (case mem_allocate_pages (bs_mem s) (max ((sz + EFI_PAGE_SIZE - 1) div EFI_PAGE_SIZE) 1) of
           (Some base, m) \<Rightarrow> (EFI_SUCCESS, Some base, s\<lparr>bs_mem := m\<rparr>)
         | (None, m) \<Rightarrow> (EFI_OUT_OF_RESOURCES, buffer, s\<lparr>bs_mem := m\<rparr>)))"

definition free_pool :: "addr \<Rightarrow> efi_status" where
  "free_pool buffer = EFI_SUCCESS"

section \<open>Protocols\<close>

definition install_protocol_interface ::
  "efi_handle option \<Rightarrow> efi_guid option \<Rightarrow> addr \<Rightarrow> 'x boot_state_scheme \<Rightarrow> (efi_status \<times> efi_handle option \<times> 'x boot_state_scheme) checked" where
  "install_protocol_interface handle protocol interface s =
     (if handle = None \<or> protocol = None then Inr (EFI_INVALID_PARAMETER, handle, s)
      else
        (case find_or_create_handle (bs_handles s) (the handle) of
           Inl e \<Rightarrow> Inl e
         | Inr (None, hs) \<Rightarrow> Inr (EFI_OUT_OF_RESOURCES, handle, s\<lparr>bs_handles := hs\<rparr>)
         | Inr (Some index, hs) \<Rightarrow>
             (case db_install hs index (the protocol) interface of
                Inl e \<Rightarrow> Inl e
              | Inr (False, hs') \<Rightarrow> Inr (EFI_OUT_OF_RESOURCES, handle, s\<lparr>bs_handles := hs'\<rparr>)
              | Inr (True, hs') \<Rightarrow> Inr (EFI_SUCCESS, Some (handle_for_index index), s\<lparr>bs_handles := hs'\<rparr>))))"

definition reinstall_protocol_interface ::
  "efi_handle \<Rightarrow> efi_guid option \<Rightarrow> addr \<Rightarrow> boot_state \<Rightarrow> (efi_status \<times> boot_state) checked" where
  "reinstall_protocol_interface handle protocol new_interface s =
     (if protocol = None then Inr (EFI_INVALID_PARAMETER, s)
      else
        (case index_of (bs_handles s) handle of
           Inl e \<Rightarrow> Inl e
         | Inr None \<Rightarrow> Inr (EFI_INVALID_PARAMETER, s)
         | Inr (Some index) \<Rightarrow>
             (case db_uninstall (bs_handles s) index (the protocol) of
                Inl e \<Rightarrow> Inl e
              | Inr (_, hs) \<Rightarrow>
                  (case db_install hs index (the protocol) new_interface of
                     Inl e \<Rightarrow> Inl e
                   | Inr (False, hs') \<Rightarrow> Inr (EFI_OUT_OF_RESOURCES, s\<lparr>bs_handles := hs'\<rparr>)
                   | Inr (True, hs') \<Rightarrow> Inr (EFI_SUCCESS, s\<lparr>bs_handles := hs'\<rparr>)))))"

definition uninstall_protocol_interface ::
  "efi_handle \<Rightarrow> efi_guid option \<Rightarrow> boot_state \<Rightarrow> (efi_status \<times> boot_state) checked" where
  "uninstall_protocol_interface handle protocol s =
     (if protocol = None then Inr (EFI_INVALID_PARAMETER, s)
      else
        (case index_of (bs_handles s) handle of
           Inl e \<Rightarrow> Inl e
         | Inr None \<Rightarrow> Inr (EFI_INVALID_PARAMETER, s)
         | Inr (Some index) \<Rightarrow>
             (case db_uninstall (bs_handles s) index (the protocol) of
                Inl e \<Rightarrow> Inl e
              | Inr (found, hs) \<Rightarrow> Inr (if found then EFI_SUCCESS else EFI_NOT_FOUND, s\<lparr>bs_handles := hs\<rparr>))))"

definition handle_protocol ::
  "efi_handle \<Rightarrow> efi_guid option \<Rightarrow> addr option \<Rightarrow> 'x boot_state_scheme \<Rightarrow> (efi_status \<times> addr option) checked" where
  "handle_protocol handle protocol interface s =
     (if protocol = None \<or> interface = None then Inr (EFI_INVALID_PARAMETER, interface)
      else
        (case db_handle_protocol (bs_handles s) handle (the protocol) of
           Inl e \<Rightarrow> Inl e
         | Inr (Some iface) \<Rightarrow> Inr (EFI_SUCCESS, Some iface)
         | Inr None \<Rightarrow> Inr (EFI_NOT_FOUND, interface)))"

definition locate_protocol :: "efi_guid option \<Rightarrow> addr option \<Rightarrow> 'x boot_state_scheme \<Rightarrow> efi_status \<times> addr option" where
  "locate_protocol protocol interface s =
     (if protocol = None \<or> interface = None then (EFI_INVALID_PARAMETER, interface)
      else
        (case locate (bs_handles s) (the protocol) of
           Some iface \<Rightarrow> (EFI_SUCCESS, Some iface)
         | None \<Rightarrow> (EFI_NOT_FOUND, interface)))"

definition ALL_HANDLES :: u32 where "ALL_HANDLES = 0"
definition BY_PROTOCOL :: u32 where "BY_PROTOCOL = 2"

definition locate_handle ::
  "u32 \<Rightarrow> efi_guid option \<Rightarrow> nat option \<Rightarrow> efi_handle list option \<Rightarrow> boot_state \<Rightarrow>
   efi_status \<times> nat option \<times> efi_handle list option" where
  "locate_handle search_type protocol buffer_size buffer s =
     (if buffer_size = None \<or> search_type \<noteq> BY_PROTOCOL \<or> protocol = None
      then (EFI_INVALID_PARAMETER, buffer_size, buffer)
      else
        (case handles_with (bs_handles s) (the protocol) (replicate MAX_HANDLES 0) of (count, scratch) \<Rightarrow>
           if count = 0 then (EFI_NOT_FOUND, buffer_size, buffer)
           else if the buffer_size < count * 8 then (EFI_BUFFER_TOO_SMALL, Some (count * 8), buffer)
           else (EFI_SUCCESS, Some (count * 8), map_option (\<lambda>b. put_seg b 0 (take count scratch)) buffer)))"

text \<open>Handles (and the pages that hold them) as they are laid out in memory.\<close>

definition pages_for :: "nat \<Rightarrow> u64" where
  "pages_for bytes = max ((of_nat bytes + EFI_PAGE_SIZE - 1) div EFI_PAGE_SIZE) 1"

definition locate_handle_buffer ::
  "u32 \<Rightarrow> efi_guid option \<Rightarrow> nat option \<Rightarrow> addr option \<Rightarrow> boot_state \<Rightarrow>
   (efi_status \<times> nat option \<times> addr option \<times> boot_state) checked" where
  "locate_handle_buffer search_type protocol num_handles buffer s =
     (if num_handles = None \<or> buffer = None then Inr (EFI_INVALID_PARAMETER, num_handles, buffer, s)
      else if search_type \<noteq> ALL_HANDLES \<and> protocol = None then Inr (EFI_INVALID_PARAMETER, num_handles, buffer, s)
      else
        (let scratch0 = replicate MAX_HANDLES 0;
             (count, scratch) =
               (if search_type = ALL_HANDLES then
                  (case handles_with (bs_handles s) LOADED_IMAGE_PROTOCOL_GUID scratch0 of (n1, scratch1) \<Rightarrow>
                     case handles_with (bs_handles s) SIMPLE_TEXT_OUTPUT_PROTOCOL_GUID scratch1 of (n2, scratch2) \<Rightarrow>
                       (n1 + n2, scratch2))
                else handles_with (bs_handles s) (the protocol) scratch0)
         in if count = 0 then Inr (EFI_NOT_FOUND, num_handles, buffer, s)
            else
              (case mem_allocate_pages (bs_mem s) (pages_for (count * 8)) of
                 (None, m) \<Rightarrow> Inr (EFI_OUT_OF_RESOURCES, num_handles, buffer, s\<lparr>bs_mem := m\<rparr>)
               | (Some base, m) \<Rightarrow>
                   if count > length scratch then Inl Panic
                   else Inr (EFI_SUCCESS, Some count, Some base,
                     s\<lparr>bs_mem := m, bs_ram := store_at base (concat (map le64 (take count scratch))) (bs_ram s)\<rparr>))))"

definition guid_bytes :: "efi_guid \<Rightarrow> u8 list" where
  "guid_bytes g = le32 (data1 g) @ le16 (data2 g) @ le16 (data3 g) @ data4 g"

definition protocols_per_handle ::
  "efi_handle \<Rightarrow> addr option \<Rightarrow> nat option \<Rightarrow> boot_state \<Rightarrow>
   (efi_status \<times> addr option \<times> nat option \<times> boot_state) checked" where
  "protocols_per_handle handle protocol_buffer count_ptr s =
     (if protocol_buffer = None \<or> count_ptr = None then Inr (EFI_INVALID_PARAMETER, protocol_buffer, count_ptr, s)
      else
        (case protocols_on_handle (bs_handles s) handle (replicate 8 zero_guid) of
           Inl e \<Rightarrow> Inl e
         | Inr None \<Rightarrow> Inr (EFI_INVALID_PARAMETER, protocol_buffer, count_ptr, s)
         | Inr (Some (count, scratch)) \<Rightarrow>
             if count = 0 then Inr (EFI_SUCCESS, Some 0, Some 0, s)
             else
               (case mem_allocate_pages (bs_mem s) (pages_for (count * 8 + count * 16)) of
                  (None, m) \<Rightarrow> Inr (EFI_OUT_OF_RESOURCES, protocol_buffer, count_ptr, s\<lparr>bs_mem := m\<rparr>)
                | (Some base, m) \<Rightarrow>
                    if count > length scratch then Inl Panic
                    else
                      Inr (EFI_SUCCESS, Some base, Some count,
                        s\<lparr>bs_mem := m, bs_ram :=
                          foldl (\<lambda>ram i. store_at (base + of_nat (i * 8)) (le64 (base + of_nat (count * 8) + of_nat (i * 16)))
                                          (store_at (base + of_nat (count * 8) + of_nat (i * 16)) (guid_bytes (scratch ! i)) ram))
                            (bs_ram s) [0..<count]\<rparr>))))"

definition open_protocol ::
  "efi_handle \<Rightarrow> efi_guid option \<Rightarrow> addr option \<Rightarrow> boot_state \<Rightarrow> (efi_status \<times> addr option) checked" where
  "open_protocol handle protocol interface s = handle_protocol handle protocol interface s"

definition close_protocol :: efi_status where "close_protocol = EFI_SUCCESS"

section \<open>Configuration table, counter, watchdog\<close>

text \<open>The static array with its count, and the two fields of the system table that mirror it.\<close>

definition install_configuration_table ::
  "layout \<Rightarrow> efi_guid option \<Rightarrow> addr \<Rightarrow> boot_state \<Rightarrow> efi_status \<times> boot_state" where
  "install_configuration_table lo guid table s =
     (case guid of
        None \<Rightarrow> (EFI_INVALID_PARAMETER, s)
      | Some g \<Rightarrow>
          (let entries = bs_config s; count = bs_config_count s;
               publish = (\<lambda>s'. s'\<lparr>bs_st_config_table := lo_config_table lo, bs_st_entries := bs_config_count s'\<rparr>)
           in case position (\<lambda>e. vendor_guid e = g) (take count entries) of
                Some idx \<Rightarrow>
                  if table = 0 then
                    (EFI_SUCCESS, publish (s\<lparr>bs_config := put_seg entries idx (seg entries (idx + 1) (count - (idx + 1))),
                                             bs_config_count := count - 1\<rparr>))
                  else
                    (EFI_SUCCESS, publish (s\<lparr>bs_config := entries[idx := (entries ! idx)\<lparr>vendor_table := table\<rparr>]\<rparr>))
              | None \<Rightarrow>
                  if table = 0 then (EFI_NOT_FOUND, s)
                  else if count \<ge> MAX_CONFIG_TABLE_ENTRIES then (EFI_OUT_OF_RESOURCES, s)
                  else
                    (EFI_SUCCESS, publish (s\<lparr>bs_config := entries[count := \<lparr>vendor_guid = g, vendor_table = table\<rparr>],
                                             bs_config_count := count + 1\<rparr>))))"

definition get_next_monotonic_count :: "u64 option \<Rightarrow> boot_state \<Rightarrow> efi_status \<times> u64 option \<times> boot_state" where
  "get_next_monotonic_count count s =
     (if count = None then (EFI_INVALID_PARAMETER, count, s)
      else (EFI_SUCCESS, Some (bs_monotonic s), s\<lparr>bs_monotonic := bs_monotonic s + 1\<rparr>))"

definition set_watchdog_timer :: "'h sd_host \<Rightarrow> u64 \<Rightarrow> 'h \<Rightarrow> efi_status \<times> 'h" where
  "set_watchdog_timer host timeout h = (EFI_SUCCESS, set_watchdog host timeout h)"

section \<open>Events and time\<close>

definition create_event ::
  "u32 \<Rightarrow> addr option \<Rightarrow> addr \<Rightarrow> efi_event option \<Rightarrow> 'e ev_world \<Rightarrow> efi_status \<times> efi_event option \<times> 'e ev_world" where
  "create_event event_type notify_function notify_context event w =
     (if event = None then (EFI_INVALID_PARAMETER, event, w)
      else
        (case ev_create w (if event_type AND EVT_TIMER \<noteq> 0 then TimerEvent else Generic) notify_function notify_context of
           (Some e, w') \<Rightarrow> (EFI_SUCCESS, Some e, w')
         | (None, w') \<Rightarrow> (EFI_OUT_OF_RESOURCES, event, w')))"

definition create_event_ex ::
  "u32 \<Rightarrow> addr option \<Rightarrow> addr \<Rightarrow> efi_event option \<Rightarrow> 'e ev_world \<Rightarrow> efi_status \<times> efi_event option \<times> 'e ev_world" where
  "create_event_ex event_type notify_function notify_context event w =
     create_event event_type notify_function notify_context event w"

definition set_timer :: "u64 \<Rightarrow> efi_event \<Rightarrow> u32 \<Rightarrow> u64 \<Rightarrow> 'e ev_world \<Rightarrow> (efi_status \<times> 'e ev_world) checked" where
  "set_timer freq event timer_type trigger_time w = ev_set_timer freq w event timer_type trigger_time"

definition signal_event :: "'e notify \<Rightarrow> efi_event \<Rightarrow> 'e ev_world \<Rightarrow> efi_status \<times> 'e ev_world" where
  "signal_event notify event w = ev_signal notify w event"

definition close_event :: "efi_event \<Rightarrow> 'e ev_world \<Rightarrow> efi_status \<times> 'e ev_world" where
  "close_event event w = ev_close w event"

definition check_event :: "'e notify \<Rightarrow> 'e key_poll \<Rightarrow> efi_event \<Rightarrow> 'e ev_world \<Rightarrow> efi_status \<times> 'e ev_world" where
  "check_event notify key_available event w = ev_check notify key_available w event"

definition wait_for_event ::
  "'e notify \<Rightarrow> 'e key_poll \<Rightarrow> ('e ev_world \<Rightarrow> 'e ev_world) list \<Rightarrow> nat \<Rightarrow> efi_event list option \<Rightarrow> nat option \<Rightarrow>
   ('e ev_world, unit, efi_status \<times> nat option) io" where
  "wait_for_event notify key_available wakeups number_of_events event index w =
     (if event = None \<or> index = None \<or> number_of_events = 0 then (Inr (EFI_INVALID_PARAMETER, index), w)
      else if number_of_events > 8 then (Inr (EFI_INVALID_PARAMETER, index), w)
      else
        (case ev_wait notify key_available wakeups (take number_of_events (the event)) w of
           (Inr i, w') \<Rightarrow> (Inr (EFI_SUCCESS, Some i), w')
         | (Inl (Err e), w') \<Rightarrow> (Inr (e, index), w')
         | (Inl Panic, w') \<Rightarrow> (Inl Panic, w')
         | (Inl OutOfFuel, w') \<Rightarrow> (Inl OutOfFuel, w')))"

text \<open>\<open>OutOfFuel\<close> is a stall that is still going on when the wake-ups end.\<close>

definition stall :: "u64 \<Rightarrow> bool list \<Rightarrow> u64 \<Rightarrow> (timer_state, unit, efi_status) io" where
  "stall freq wakeups microseconds t =
     (case micros_to_ticks freq t microseconds of
        Inl e \<Rightarrow> (Inl e, t)
      | Inr n \<Rightarrow> (case sleep_ticks wakeups n t of Some t' \<Rightarrow> (Inr EFI_SUCCESS, t') | None \<Rightarrow> (Inl OutOfFuel, t)))"

section \<open>Memory utilities\<close>

definition copy_mem :: "addr \<Rightarrow> addr \<Rightarrow> nat \<Rightarrow> boot_state \<Rightarrow> boot_state" where
  "copy_mem destination source len s = s\<lparr>bs_ram := store_at destination (load_bytes (bs_ram s) source len) (bs_ram s)\<rparr>"

definition set_mem :: "addr \<Rightarrow> nat \<Rightarrow> u8 \<Rightarrow> boot_state \<Rightarrow> boot_state" where
  "set_mem buffer len value s = s\<lparr>bs_ram := store_at buffer (replicate len value) (bs_ram s)\<rparr>"

definition calculate_crc32 :: "addr \<Rightarrow> nat \<Rightarrow> u32 option \<Rightarrow> boot_state \<Rightarrow> efi_status \<times> u32 option" where
  "calculate_crc32 data data_size crc32 s =
     (if data = 0 \<or> crc32 = None then (EFI_INVALID_PARAMETER, crc32)
      else (EFI_SUCCESS, Some (crc32_ieee (load_bytes (bs_ram s) data data_size))))"

section \<open>Images\<close>

definition load_image ::
  "layout \<Rightarrow> nat \<Rightarrow> efi_handle \<Rightarrow> addr \<Rightarrow> nat \<Rightarrow> efi_handle option \<Rightarrow> 'x boot_state_scheme \<Rightarrow>
   (efi_status \<times> efi_handle option \<times> 'x boot_state_scheme) checked" where
  "load_image lo fuel parent_image_handle source_buffer src_size image_handle s =
     (if bs_exited s then Inr (EFI_UNSUPPORTED, image_handle, s)
      else if source_buffer = 0 \<or> image_handle = None \<or> src_size = 0 then Inr (EFI_INVALID_PARAMETER, image_handle, s)
      else
        (case pe_load fuel (load_bytes (bs_ram s) source_buffer src_size) \<lparr>pe_mem = bs_mem s, pe_ram = bs_ram s\<rparr> of
           (Inl (Err _), p) \<Rightarrow> Inr (EFI_UNSUPPORTED, image_handle, s\<lparr>bs_mem := pe_mem p, bs_ram := pe_ram p\<rparr>)
         | (Inl Panic, p) \<Rightarrow> Inl Panic
         | (Inl OutOfFuel, p) \<Rightarrow> Inl OutOfFuel
         | (Inr loaded, p) \<Rightarrow>
             (let s1 = s\<lparr>bs_mem := pe_mem p, bs_ram := pe_ram p\<rparr> in
              case find_or_create_handle (bs_handles s1) 0 of
                Inl e \<Rightarrow> Inl e
              | Inr (None, hs) \<Rightarrow> Inr (EFI_OUT_OF_RESOURCES, image_handle, s1\<lparr>bs_handles := hs\<rparr>)
              | Inr (Some index, hs) \<Rightarrow>
                  (let s2 = s1\<lparr>bs_images := (bs_images s1)[index := EMPTY_LOADED_IMAGE\<lparr>
                                 li_parent_handle := parent_image_handle, li_system_table := lo_system_table lo,
                                 li_image_base := lp_image_base loaded, li_image_size := lp_image_size loaded\<rparr>],
                               bs_entry_points := (bs_entry_points s1)[index := lp_entry_point loaded]\<rparr> in
                   case db_install hs index LOADED_IMAGE_PROTOCOL_GUID (lo_loaded_image lo index) of
                     Inl e \<Rightarrow> Inl e
                   | Inr (False, hs') \<Rightarrow> Inr (EFI_OUT_OF_RESOURCES, image_handle, s2\<lparr>bs_handles := hs'\<rparr>)
                   | Inr (True, hs') \<Rightarrow> Inr (EFI_SUCCESS, Some (handle_for_index index), s2\<lparr>bs_handles := hs'\<rparr>)))))"

definition start_image ::
  "layout \<Rightarrow> (u64 \<Rightarrow> efi_handle \<Rightarrow> addr \<Rightarrow> 'x boot_state_scheme \<Rightarrow> efi_status \<times> 'x boot_state_scheme) \<Rightarrow> efi_handle \<Rightarrow> 'x boot_state_scheme \<Rightarrow>
   (efi_status \<times> 'x boot_state_scheme) checked" where
  "start_image lo entry_fn image_handle s =
     (if bs_exited s then Inr (EFI_UNSUPPORTED, s)
      else
        (case index_of (bs_handles s) image_handle of
           Inl e \<Rightarrow> Inl e
         | Inr None \<Rightarrow> Inr (EFI_INVALID_PARAMETER, s)
         | Inr (Some index) \<Rightarrow>
             (let entry = bs_entry_points s ! index in
              if entry = 0 then Inr (EFI_INVALID_PARAMETER, s)
              else Inr (entry_fn entry image_handle (lo_system_table lo) s))))"

definition unload_image ::
  "(addr \<Rightarrow> efi_handle \<Rightarrow> boot_state \<Rightarrow> efi_status \<times> boot_state) \<Rightarrow> efi_handle \<Rightarrow> boot_state \<Rightarrow> (efi_status \<times> boot_state) checked" where
  "unload_image unload_fn image_handle s =
     (case index_of (bs_handles s) image_handle of
        Inl e \<Rightarrow> Inl e
      | Inr None \<Rightarrow> Inr (EFI_INVALID_PARAMETER, s)
      | Inr (Some index) \<Rightarrow>
          (case li_unload (bs_images s ! index) of
             Some f \<Rightarrow> Inr (unload_fn f image_handle s)
           | None \<Rightarrow> Inr (EFI_UNSUPPORTED, s)))"

definition exit_boot_services :: "u64 \<Rightarrow> boot_state \<Rightarrow> efi_status \<times> boot_state" where
  "exit_boot_services map_key s =
     (if bs_exited s then (EFI_SUCCESS, s)
      else if map_key \<noteq> generation (bs_mem s) then (EFI_INVALID_PARAMETER, s)
      else (EFI_SUCCESS, s\<lparr>bs_exited := True\<rparr>))"

definition stub :: efi_status where "stub = EFI_UNSUPPORTED"

end
