(* ===== verification/Boot_Properties.thy ===== *)
theory Boot_Properties
  imports Boot_Services Pe_Properties
begin

text \<open>
  What the boot services guarantee together: the map-key handshake of ExitBootServices as a property
  of runs of the service state machine, what a finished boot phase refuses, the configuration table
  as a map, and loading followed by starting an image.
\<close>

section \<open>The loader and the page allocator\<close>

text \<open>A loader step that does not allocate, and one that allocates at most once.\<close>

definition keeps_mem :: "'a pe_io \<Rightarrow> bool" where
  "keeps_mem m \<longleftrightarrow> (\<forall>s. pe_mem (snd (m s)) = pe_mem s)"

definition one_alloc :: "'a pe_io \<Rightarrow> bool" where
  "one_alloc m \<longleftrightarrow> (\<forall>s. pe_mem (snd (m s)) = pe_mem s \<or> generation (pe_mem (snd (m s))) = generation (pe_mem s) + 1)"

named_theorems alloc_intros "loader steps and their use of the allocator"

lemma keeps_bind [alloc_intros]: "keeps_mem m \<Longrightarrow> (\<And>x. keeps_mem (f x)) \<Longrightarrow> keeps_mem (io_bind m f)"
  by (auto simp: keeps_mem_def io_bind_def split: prod.splits sum.splits) (metis snd_conv)+

lemma keeps_simple [alloc_intros]:
  "keeps_mem (io_return x)" "keeps_mem (io_throw e)" "keeps_mem (poke a bs)" "keeps_mem (peek a n)"
  "keeps_mem (ru16 d off)" "keeps_mem (ru32 d off)" "keeps_mem (ru64 d off)"
  by (simp_all add: keeps_mem_def io_return_def io_throw_def poke_def peek_def ru16_def ru32_def ru64_def)

lemma one_alloc_bind:
  "keeps_mem m \<Longrightarrow> (\<And>x. one_alloc (f x)) \<Longrightarrow> one_alloc (io_bind m f)"
  by (auto simp: keeps_mem_def one_alloc_def io_bind_def split: prod.splits sum.splits) (metis snd_conv)+

lemma one_alloc_pe_allocate: "(\<And>x. keeps_mem (f x)) \<Longrightarrow> one_alloc (io_bind (pe_allocate n) f)"
  using mem_allocate_pages_step
  by (fastforce simp: keeps_mem_def one_alloc_def io_bind_def pe_allocate_def split: prod.splits sum.splits option.splits)

lemma keeps_one: "keeps_mem m \<Longrightarrow> one_alloc m"
  by (simp add: keeps_mem_def one_alloc_def)

lemma keeps_copy_sections [alloc_intros]: "keeps_mem (copy_sections data off lb i n)"
  by (induction n arbitrary: i) (auto simp: Let_def intro!: alloc_intros)

lemma keeps_reloc_entries [alloc_intros]: "keeps_mem (reloc_entries lb delta a rva i n)"
  by (induction n arbitrary: i) (auto simp: Let_def intro!: alloc_intros)

lemma keeps_reloc_blocks [alloc_intros]: "keeps_mem (reloc_blocks fuel lb delta e a)"
  by (induction fuel arbitrary: a) (auto simp: Let_def intro!: alloc_intros)

lemma pe_load_one_alloc: "one_alloc (pe_load fuel data)"
  unfolding pe_load_def apply_relocations_def base_reloc_dir_def Let_def
  by (auto intro!: one_alloc_bind one_alloc_pe_allocate alloc_intros keeps_one[OF keeps_simple(2)] split: prod.splits)

section \<open>Runs of boot services\<close>

text \<open>One call of a service that changes the state, whatever its arguments and its answer.\<close>

inductive boot_step :: "layout \<Rightarrow> boot_state \<Rightarrow> boot_state \<Rightarrow> bool" for lo where
  Raise_Tpl: "raise_tpl t s = (r, s') \<Longrightarrow> boot_step lo s s'"
| Restore_Tpl: "boot_step lo s (restore_tpl t s)"
| Allocate_Pages: "allocate_pages n p s = (st, p', s') \<Longrightarrow> boot_step lo s s'"
| Allocate_Pool: "allocate_pool n p s = (st, p', s') \<Longrightarrow> boot_step lo s s'"
| Install: "install_protocol_interface h g i s = Inr (st, h', s') \<Longrightarrow> boot_step lo s s'"
| Reinstall: "reinstall_protocol_interface h' g i s = Inr (st, s') \<Longrightarrow> boot_step lo s s'"
| Uninstall: "uninstall_protocol_interface h' g s = Inr (st, s') \<Longrightarrow> boot_step lo s s'"
| Handle_Buffer: "locate_handle_buffer ty' g k b s = Inr (st, k', b', s') \<Longrightarrow> boot_step lo s s'"
| Protocols_Per_Handle: "protocols_per_handle h' b k s = Inr (st, b', k', s') \<Longrightarrow> boot_step lo s s'"
| Configuration: "install_configuration_table lo g a s = (st, s') \<Longrightarrow> boot_step lo s s'"
| Monotonic: "get_next_monotonic_count c s = (st, c', s') \<Longrightarrow> boot_step lo s s'"
| Copy_Mem: "boot_step lo s (copy_mem d a n' s)"
| Set_Mem: "boot_step lo s (set_mem d n' v s)"
| Load_Image: "load_image lo fuel h' a n' h s = Inr (st, h'', s') \<Longrightarrow> boot_step lo s s'"
| Exit: "exit_boot_services k'' s = (st, s') \<Longrightarrow> boot_step lo s s'"

text \<open>
  \<open>n\<close> calls, made by the firmware and by the images it starts. Between calls the caller stores to
  memory as it likes, the loaded-image records included. StartImage and UnloadImage run the code of
  an image, which is not the firmware's: all that is known of it is that it stores to memory and
  makes calls itself, which are counted with the others.
\<close>

inductive boot_run :: "layout \<Rightarrow> nat \<Rightarrow> boot_state \<Rightarrow> boot_state \<Rightarrow> bool" for lo where
  Start: "boot_run lo 0 s s"
| Call: "boot_run lo n s s' \<Longrightarrow> boot_step lo s' s'' \<Longrightarrow> boot_run lo (Suc n) s s''"
| Store: "boot_run lo n s s' \<Longrightarrow> boot_run lo n s (s'\<lparr>bs_ram := r, bs_images := li\<rparr>)"
| Start_Image: "boot_run lo n s s' \<Longrightarrow> start_image lo entry_fn h s' = Inr (st, s'') \<Longrightarrow> boot_run lo k s' s'' \<Longrightarrow>
    boot_run lo (Suc (n + k)) s s''"
| Unload_Image: "boot_run lo n s s' \<Longrightarrow> unload_image unload_fn h s' = Inr (st, s'') \<Longrightarrow> boot_run lo k s' s'' \<Longrightarrow>
    boot_run lo (Suc (n + k)) s s''"

text \<open>What no call touches, and how the map key moves.\<close>

definition map_step :: "boot_state \<Rightarrow> boot_state \<Rightarrow> bool" where
  "map_step s s' \<longleftrightarrow> bs_fb_base s' = bs_fb_base s \<and> bs_fb_size s' = bs_fb_size s \<and> (bs_exited s \<longrightarrow> bs_exited s') \<and>
     (bs_mem s' = bs_mem s \<or> generation (bs_mem s') = generation (bs_mem s) + 1)"

lemma map_step_simps [simp]:
  "map_step s (s\<lparr>bs_handles := hs\<rparr>)" "map_step s (s\<lparr>bs_tpl := t\<rparr>)" "map_step s (s\<lparr>bs_ram := r\<rparr>)"
  "map_step s (s\<lparr>bs_monotonic := c\<rparr>)" "map_step s (s\<lparr>bs_exited := True\<rparr>)" "map_step s s"
  by (simp_all add: map_step_def)

lemma map_step_mem: "mem_allocate_pages (bs_mem s) n = (r, m) \<Longrightarrow> map_step s (s\<lparr>bs_mem := m\<rparr>)"
  "mem_allocate_pages (bs_mem s) n = (r, m) \<Longrightarrow> map_step s (s\<lparr>bs_mem := m, bs_ram := rm\<rparr>)"
  using mem_allocate_pages_step[of "bs_mem s" n r m] by (simp_all add: map_step_def)

lemma load_image_map_step:
  assumes "load_image lo fuel h a n ih s = Inr (st, ih', s')"
  shows "map_step s s'"
proof -
  let ?p = "\<lparr>pe_mem = bs_mem s, pe_ram = bs_ram s\<rparr>"
  obtain r p where p: "pe_load fuel (load_bytes (bs_ram s) a n) ?p = (r, p)" by fastforce
  with pe_load_one_alloc[of fuel "load_bytes (bs_ram s) a n"]
  have "pe_mem p = bs_mem s \<or> generation (pe_mem p) = generation (bs_mem s) + 1"
    by (metis one_alloc_def pe_state.select_convs(1) snd_conv)
  then show ?thesis using assms unfolding load_image_def p Let_def map_step_def
    by (simp split: if_split_asm sum.split_asm fault.split_asm prod.split_asm option.split_asm bool.split_asm; force)
qed

lemma boot_step_map: "boot_step lo s s' \<Longrightarrow> map_step s s'"
proof (induction rule: boot_step.induct)
  case (Raise_Tpl t s r s')
  then show ?case by (auto simp: raise_tpl_def)
next
  case (Allocate_Pages n p s st p' s')
  then show ?case by (auto simp: allocate_pages_def intro: map_step_mem split: if_splits prod.splits option.splits)
next
  case (Allocate_Pool n p s st p' s')
  then show ?case by (auto simp: allocate_pool_def intro: map_step_mem split: if_splits prod.splits option.splits)
next
  case (Install h g i s st h' s')
  then show ?case by (auto simp: install_protocol_interface_def split: if_splits sum.splits prod.splits option.splits bool.splits)
next
  case (Reinstall h' g i s st s')
  then show ?case by (auto simp: reinstall_protocol_interface_def split: if_splits sum.splits prod.splits option.splits bool.splits)
next
  case (Uninstall h' g s st s')
  then show ?case by (auto simp: uninstall_protocol_interface_def split: if_splits sum.splits prod.splits option.splits)
next
  case (Handle_Buffer ty' g k b s st k' b' s')
  then show ?case
    by (auto simp: locate_handle_buffer_def Let_def intro: map_step_mem split: if_splits prod.splits option.splits)
next
  case (Protocols_Per_Handle h' b k s st b' k' s')
  then show ?case
    by (auto simp: protocols_per_handle_def intro: map_step_mem split: if_splits sum.splits prod.splits option.splits)
next
  case (Configuration g a s st s')
  then show ?case by (auto simp: install_configuration_table_def map_step_def Let_def split: option.splits if_splits)
next
  case (Monotonic c s st c' s')
  then show ?case by (auto simp: get_next_monotonic_count_def split: if_splits)
next
  case (Load_Image fuel h' a n' h s st h'' s')
  then show ?case by (rule load_image_map_step)
next
  case (Exit k'' s st s')
  then show ?case by (auto simp: exit_boot_services_def split: if_splits)
qed (simp_all add: restore_tpl_def copy_mem_def set_mem_def)

text \<open>The same over \<open>n\<close> calls: the key moves by at most \<open>n\<close>, and not at all only if the allocator is untouched.\<close>

definition map_steps :: "nat \<Rightarrow> boot_state \<Rightarrow> boot_state \<Rightarrow> bool" where
  "map_steps n s s' \<longleftrightarrow> bs_fb_base s' = bs_fb_base s \<and> bs_fb_size s' = bs_fb_size s \<and> (bs_exited s \<longrightarrow> bs_exited s') \<and>
     (bs_mem s' = bs_mem s \<or> (\<exists>k. 0 < k \<and> k \<le> n \<and> generation (bs_mem s') = generation (bs_mem s) + of_nat k))"

lemma map_step_steps: "map_step s s' \<Longrightarrow> map_steps 1 s s'"
  by (auto simp: map_step_def map_steps_def intro: exI[of _ 1])

lemma map_steps_mono: "map_steps n s s' \<Longrightarrow> n \<le> m \<Longrightarrow> map_steps m s s'"
  by (auto simp: map_steps_def intro: le_trans)

lemma map_steps_trans:
  assumes "map_steps n s s'" "map_steps k s' s''"
  shows "map_steps (n + k) s s''"
proof -
  have "bs_mem s'' = bs_mem s \<or> (\<exists>j. 0 < j \<and> j \<le> n + k \<and> generation (bs_mem s'') = generation (bs_mem s) + of_nat j)"
  proof (cases "bs_mem s' = bs_mem s \<or> bs_mem s'' = bs_mem s'")
    case True
    then show ?thesis using assms unfolding map_steps_def by (metis trans_le_add1 trans_le_add2)
  next
    case False
    then obtain i j where "0 < i" "i \<le> n" "generation (bs_mem s') = generation (bs_mem s) + of_nat i"
        "0 < j" "j \<le> k" "generation (bs_mem s'') = generation (bs_mem s') + of_nat j"
      using assms unfolding map_steps_def by blast
    then show ?thesis by (intro disjI2 exI[of _ "i + j"]) simp
  qed
  then show ?thesis using assms by (auto simp: map_steps_def)
qed

lemma boot_run_map: "boot_run lo n s s' \<Longrightarrow> map_steps n s s'"
proof (induction rule: boot_run.induct)
  case (Start s)
  show ?case by (simp add: map_steps_def)
next
  case (Call n s s' s'')
  from map_steps_trans[OF Call.IH map_step_steps[OF boot_step_map[OF Call.hyps(2)]]] show ?case by simp
next
  case (Store n s s' r li)
  then show ?case by (simp add: map_steps_def)
qed (metis le_SucI le_refl map_steps_mono map_steps_trans)+

text \<open>
  C4: the map-key handshake: take the key of a successful GetMemoryMap call, let the firmware and the
  images it starts call any services any number of times (fewer than 2^64), and present the key to
  ExitBootServices. Unless one of those calls has already exited boot services, the key is accepted
  exactly when no pages have been allocated in between, so an accepted key proves that the map the
  caller holds is still what GetMemoryMap returns; a rejected one changes nothing. Once boot
  services have been exited every key is accepted, again without a change, and proves nothing:
  LocateHandleBuffer still allocates then. The key counts allocations and not changes of the map:
  an allocation of no pages moves it too.
\<close>

theorem exit_boot_services_handshake:
  assumes run: "boot_run lo n s s'" and n: "n < 2 ^ 64"
    and key: "mm_status (get_memory_map lo sz buf (Some x) ds dv s) = EFI_SUCCESS"
  shows "exit_boot_services (the (mm_key (get_memory_map lo sz buf (Some x) ds dv s))) s' =
      (if bs_exited s' then (EFI_SUCCESS, s')
       else if bs_mem s' = bs_mem s then (EFI_SUCCESS, s'\<lparr>bs_exited := True\<rparr>)
       else (EFI_INVALID_PARAMETER, s')) \<and>
    (bs_mem s' = bs_mem s \<longrightarrow>
      (\<forall>sz' buf' k ds' dv'. get_memory_map lo sz' buf' k ds' dv' s' = get_memory_map lo sz' buf' k ds' dv' s))"
proof -
  note r = boot_run_map[OF run, unfolded map_steps_def]
  have k: "mm_key (get_memory_map lo sz buf (Some x) ds dv s) = Some (generation (bs_mem s))"
    using key by (auto simp: get_memory_map_def Let_def split: option.splits if_splits)
  have "generation (bs_mem s') \<noteq> generation (bs_mem s)" if ne: "bs_mem s' \<noteq> bs_mem s"
  proof -
    obtain j where "0 < j" "j \<le> n" "generation (bs_mem s') = generation (bs_mem s) + of_nat j" using r ne by blast
    moreover then have "(of_nat j :: u64) \<noteq> 0" using n by (simp add: word_unat_eq_iff unat_of_nat)
    ultimately show ?thesis by simp
  qed
  then have ex: "exit_boot_services (generation (bs_mem s)) s' =
      (if bs_exited s' then (EFI_SUCCESS, s')
       else if bs_mem s' = bs_mem s then (EFI_SUCCESS, s'\<lparr>bs_exited := True\<rparr>) else (EFI_INVALID_PARAMETER, s'))"
    by (auto simp: exit_boot_services_def)
  have "get_memory_map lo sz' buf' k ds' dv' s' = get_memory_map lo sz' buf' k ds' dv' s" if "bs_mem s' = bs_mem s" for sz' buf' k ds' dv'
  proof -
    have eqs: "bs_fb_base s' = bs_fb_base s" "bs_fb_size s' = bs_fb_size s" using r by simp_all
    show ?thesis unfolding get_memory_map_def that eqs by (rule refl)
  qed
  with ex show ?thesis by (simp add: k)
qed

definition demo_layout :: layout where
  "demo_layout = \<lparr>lo_fw_end = 0x90000, lo_system_table = 0x80100, lo_loaded_image = (\<lambda>i. 0x80200 + of_nat i * 96), lo_config_table = 0x80F00\<rparr>"

definition demo_boot :: boot_state where
  "demo_boot = (BOOT_INIT (\<lambda>_. 0))\<lparr>bs_mem := \<lparr>next_free_page = 0x100000, generation = 5\<rparr>\<rparr>"

lemma get_memory_map_success: "mm_status (get_memory_map lo (Some 320) buf key ds dv s) = EFI_SUCCESS"
proof -
  have "length (memory_regions (lo_fw_end lo) (bs_mem s) (bs_fb_base s) (bs_fb_size s)) \<le> 8"
    by (rule memory_regions_at_most_8)
  then show ?thesis by (simp add: get_memory_map_def mem_get_memory_map_def DESCRIPTOR_SIZE_def Let_def)
qed

text \<open>A state with one image to start, whose code makes one call and returns.\<close>

definition demo_started :: boot_state where
  "demo_started = demo_boot\<lparr>bs_handles := [\<lparr>h_in_use = True, h_protocols = []\<rparr>], bs_entry_points := [0x1000]\<rparr>"

theorem exit_boot_services_handshake_witness:
  "exit_boot_services (the (mm_key (get_memory_map demo_layout (Some 320) None (Some 0) None None demo_started)))
      (restore_tpl 8 demo_started) =
     (EFI_SUCCESS, (restore_tpl 8 demo_started)\<lparr>bs_exited := True\<rparr>)"
proof -
  let ?s = "restore_tpl 8 demo_started"
  have image: "boot_run demo_layout (Suc 0) demo_started ?s"
    by (rule boot_run.Call[OF boot_run.Start boot_step.Restore_Tpl])
  have "start_image demo_layout (\<lambda>_ _ _ s. (EFI_SUCCESS, restore_tpl 8 s)) 1 demo_started = Inr (EFI_SUCCESS, ?s)"
    by (simp add: start_image_def index_of_def handle_to_index_def demo_started_def demo_boot_def BOOT_INIT_def)
  from boot_run.Start_Image[OF boot_run.Start this image]
  have "boot_run demo_layout (Suc (0 + Suc 0)) demo_started ?s" .
  from exit_boot_services_handshake[OF this _ get_memory_map_success, of None 0 None None] show ?thesis
    by (simp add: restore_tpl_def demo_started_def demo_boot_def BOOT_INIT_def)
qed

text \<open>The key moves although the map is the same: an allocation of no pages counts as one.\<close>

lemma mem_get_memory_map_generation:
  "mem_get_memory_map fw (m\<lparr>generation := g\<rparr>) fb_base fb_size k = mem_get_memory_map fw m fb_base fb_size k"
  by (simp add: mem_get_memory_map_def memory_regions_def bump_mark_def)

theorem no_page_allocation_moves_key:
  assumes "\<not> bs_exited s" "next_free_page (bs_mem s) \<le> RAM_LIMIT"
  shows "\<exists>s'. allocate_pages 0 (Some p) s = (EFI_SUCCESS, Some (next_free_page (bs_mem s)), s') \<and>
    generation (bs_mem s') = generation (bs_mem s) + 1 \<and>
    mm_map (get_memory_map lo sz buf None ds dv s') = mm_map (get_memory_map lo sz buf None ds dv s)"
proof -
  let ?s = "s\<lparr>bs_mem := (bs_mem s)\<lparr>generation := generation (bs_mem s) + 1\<rparr>\<rparr>"
  have eqs: "bs_fb_base ?s = bs_fb_base s" "bs_fb_size ?s = bs_fb_size s"
      "bs_mem ?s = (bs_mem s)\<lparr>generation := generation (bs_mem s) + 1\<rparr>" by simp_all
  have "allocate_pages 0 (Some p) s = (EFI_SUCCESS, Some (next_free_page (bs_mem s)), ?s)"
    using assms by (simp add: allocate_pages_def mem_allocate_pages_unfold not_less)
  moreover have "get_memory_map lo sz buf None ds dv ?s = get_memory_map lo sz buf None ds dv s"
    unfolding get_memory_map_def mem_get_memory_map_generation eqs option.map(1) by (rule refl)
  ultimately show ?thesis by simp
qed

theorem no_page_allocation_moves_key_witness:
  "\<exists>s'. allocate_pages 0 (Some 0) demo_boot = (EFI_SUCCESS, Some 0x100000, s') \<and> generation (bs_mem s') = 6"
  using no_page_allocation_moves_key[of demo_boot 0 demo_layout None None None None]
  by (auto simp: demo_boot_def BOOT_INIT_def RAM_LIMIT_def PERIPHERAL_BASE_def)

section \<open>After the exit\<close>

text \<open>
  C36: once ExitBootServices has succeeded the boot phase is over for good: it stays so under every
  later call, and AllocatePages, AllocatePool, LoadImage and StartImage answer Unsupported without
  touching anything.
\<close>

theorem exited_services_refuse:
  assumes "boot_run lo n s s'" "bs_exited s"
  shows "bs_exited s' \<and> allocate_pages k p s' = (EFI_UNSUPPORTED, p, s') \<and> allocate_pool k p s' = (EFI_UNSUPPORTED, p, s') \<and>
    load_image lo fuel h a m ih s' = Inr (EFI_UNSUPPORTED, ih, s') \<and> start_image lo f h s' = Inr (EFI_UNSUPPORTED, s')"
  using boot_run_map[OF assms(1)] assms(2)
  by (simp add: map_steps_def allocate_pages_def allocate_pool_def load_image_def start_image_def)

theorem exited_services_refuse_witness:
  "allocate_pages 1 (Some 0) (demo_boot\<lparr>bs_exited := True\<rparr>) = (EFI_UNSUPPORTED, Some 0, demo_boot\<lparr>bs_exited := True\<rparr>)"
  using exited_services_refuse[OF boot_run.Start[of demo_layout "demo_boot\<lparr>bs_exited := True\<rparr>"]] by simp

text \<open>
  LocateHandleBuffer does not look at that flag: after a successful exit it still allocates
  pages, moving the map key the operating system was told is final.
\<close>

theorem handle_buffer_after_exit:
  assumes "bs_exited s" and found: "handles_with (bs_handles s) g (replicate MAX_HANDLES 0) = (Suc k, hs)" "Suc k \<le> length hs"
    and room: "mem_allocate_pages (bs_mem s) (pages_for (Suc k * 8)) = (Some base, m)"
  shows "\<exists>s'. locate_handle_buffer BY_PROTOCOL (Some g) (Some x) (Some y) s = Inr (EFI_SUCCESS, Some (Suc k), Some base, s') \<and>
    bs_exited s' \<and> generation (bs_mem s') = generation (bs_mem s) + 1"
  using assms by (auto simp: locate_handle_buffer_def BY_PROTOCOL_def ALL_HANDLES_def mem_allocate_pages_unfold split: if_splits)

text \<open>A table whose first handles are given and whose others are unused.\<close>

definition handles_of :: "handle_entry list \<Rightarrow> handle_db" where
  "handles_of es = es @ replicate (MAX_HANDLES - length es) EMPTY_HANDLE"

definition carrier :: "efi_guid \<Rightarrow> addr \<Rightarrow> handle_entry" where
  "carrier g i = \<lparr>h_in_use = True, h_protocols = Some \<lparr>pe_guid = g, pe_interface = i\<rparr> # replicate 7 None\<rparr>"

lemma carries_carrier: "carries g (carrier g' i) \<longleftrightarrow> g = g'"
proof (cases "g = g'")
  case False
  then have "position (slot_has_guid g) (h_protocols (carrier g' i)) = None" by (simp add: carrier_def position_None_iff)
  with False show ?thesis by (simp add: carries_def entry_lookup_position)
qed (simp add: carries_def carrier_def entry_lookup_position)

lemma found_unused: "filter (carries g \<circ> snd) (enumerate n (replicate k EMPTY_HANDLE)) = []"
  by (induction k arbitrary: n) (simp_all add: carries_def EMPTY_HANDLE_def)

lemma found_handles_of:
  "filter (carries g \<circ> snd) (enumerate 0 (handles_of es)) = filter (carries g \<circ> snd) (enumerate 0 es)"
  by (simp add: handles_of_def enumerate_append_eq found_unused)

lemma handles_with_found:
  "handles_with hs g out =
     (let found = map (index_to_handle \<circ> fst) (filter (carries g \<circ> snd) (enumerate 0 hs)) in (length found, fill_prefix found out))"
  using handles_with_loop_fill[of g "enumerate 0 hs" "[]" out] by (simp add: handles_with_def)

theorem handle_buffer_after_exit_witness:
  "\<exists>s'. locate_handle_buffer BY_PROTOCOL (Some demo_guid) (Some 0) (Some 0)
       (demo_boot\<lparr>bs_exited := True, bs_handles := handles_of [carrier demo_guid 7]\<rparr>) = Inr (EFI_SUCCESS, Some 1, Some 0x100000, s') \<and>
     bs_exited s' \<and> generation (bs_mem s') = 6"
proof -
  let ?s = "demo_boot\<lparr>bs_exited := True, bs_handles := handles_of [carrier demo_guid 7]\<rparr>"
  have f: "handles_with (bs_handles ?s) demo_guid (replicate MAX_HANDLES 0) = (Suc 0, fill_prefix [1] (replicate MAX_HANDLES 0))"
    by (simp add: handles_with_found found_handles_of carries_carrier index_to_handle_def)
  have m: "mem_allocate_pages (bs_mem ?s) (pages_for (Suc 0 * 8)) = (Some 0x100000, \<lparr>next_free_page = 0x101000, generation = 6\<rparr>)"
    by (simp add: demo_boot_def BOOT_INIT_def mem_allocate_pages_unfold pages_for_def EFI_PAGE_SIZE_def RAM_LIMIT_def PERIPHERAL_BASE_def)
  have "Suc 0 \<le> length (fill_prefix [1 :: efi_handle] (replicate MAX_HANDLES 0))" by (simp add: MAX_HANDLES_def)
  with handle_buffer_after_exit[OF _ f _ m] show ?thesis by (simp add: demo_boot_def BOOT_INIT_def)
qed

text \<open>
  LocateHandleBuffer(AllHandles) adds up two searches that write to the same scratch array: with
  one loaded image and one console handle it reports two handles, but the buffer holds the console
  handle and a null handle, and the image's handle is lost.
\<close>

theorem all_handles_loses_image:
  assumes room: "mem_allocate_pages (bs_mem s) (pages_for 16) = (Some base, m)"
    and hs: "bs_handles s = handles_of [carrier LOADED_IMAGE_PROTOCOL_GUID i, carrier SIMPLE_TEXT_OUTPUT_PROTOCOL_GUID j]"
  shows "\<exists>s'. locate_handle_buffer ALL_HANDLES None (Some x) (Some y) s = Inr (EFI_SUCCESS, Some 2, Some base, s') \<and>
    load_bytes (bs_ram s') base 16 = le64 (index_to_handle 1) @ le64 0"
proof -
  have ne: "LOADED_IMAGE_PROTOCOL_GUID \<noteq> SIMPLE_TEXT_OUTPUT_PROTOCOL_GUID"
    by (simp add: LOADED_IMAGE_PROTOCOL_GUID_def SIMPLE_TEXT_OUTPUT_PROTOCOL_GUID_def)
  have f1: "handles_with (bs_handles s) LOADED_IMAGE_PROTOCOL_GUID (replicate MAX_HANDLES 0) = (1, index_to_handle 0 # replicate 31 0)"
    using ne by (simp add: hs handles_with_found found_handles_of carries_carrier MAX_HANDLES_def fill_prefix_def)
  have f2: "handles_with (bs_handles s) SIMPLE_TEXT_OUTPUT_PROTOCOL_GUID (index_to_handle 0 # replicate 31 0) = (1, index_to_handle 1 # replicate 31 0)"
    using ne by (simp add: hs handles_with_found found_handles_of carries_carrier fill_prefix_def)
  have "locate_handle_buffer ALL_HANDLES None (Some x) (Some y) s = Inr (EFI_SUCCESS, Some 2, Some base,
      s\<lparr>bs_mem := m, bs_ram := store_at base (concat (map le64 [index_to_handle 1, 0])) (bs_ram s)\<rparr>)"
    using room by (simp add: locate_handle_buffer_def ALL_HANDLES_def f1 f2 Let_def numeral_2_eq_2)
  then show ?thesis by (auto simp: load_store_same)
qed

theorem all_handles_loses_image_witness:
  "\<exists>s'. locate_handle_buffer ALL_HANDLES None (Some 0) (Some 0) (demo_boot\<lparr>bs_handles :=
       handles_of [carrier LOADED_IMAGE_PROTOCOL_GUID 1, carrier SIMPLE_TEXT_OUTPUT_PROTOCOL_GUID 2]\<rparr>) =
       Inr (EFI_SUCCESS, Some 2, Some 0x100000, s') \<and> load_bytes (bs_ram s') 0x100000 16 = le64 2 @ le64 0"
proof -
  let ?s = "demo_boot\<lparr>bs_handles := handles_of [carrier LOADED_IMAGE_PROTOCOL_GUID 1, carrier SIMPLE_TEXT_OUTPUT_PROTOCOL_GUID 2]\<rparr>"
  have "mem_allocate_pages (bs_mem ?s) (pages_for 16) = (Some 0x100000, \<lparr>next_free_page = 0x101000, generation = 6\<rparr>)"
    by (simp add: demo_boot_def BOOT_INIT_def mem_allocate_pages_unfold pages_for_def EFI_PAGE_SIZE_def RAM_LIMIT_def PERIPHERAL_BASE_def)
  from all_handles_loses_image[OF this, of 1 2 0 0] show ?thesis by (simp add: index_to_handle_def)
qed

section \<open>Sizes\<close>

text \<open>
  Neither allocation service checks its size arithmetic: AllocatePages with 2^52 pages and
  AllocatePool with a size within 4095 bytes of 2^64 both succeed, the first reserving nothing at
  all, the second a single page.
\<close>

theorem allocation_sizes_wrap:
  assumes live: "\<not> bs_exited s" and room: "next_free_page (bs_mem s) + 4096 \<le> RAM_LIMIT" "next_free_page (bs_mem s) \<le> RAM_LIMIT"
    and sz: "2 ^ 64 - 4095 \<le> unat sz"
  shows "(\<exists>s'. allocate_pages 0x10000000000000 (Some x) s = (EFI_SUCCESS, Some (next_free_page (bs_mem s)), s') \<and>
      next_free_page (bs_mem s') = next_free_page (bs_mem s)) \<and>
    (\<exists>s'. allocate_pool sz (Some x) s = (EFI_SUCCESS, Some (next_free_page (bs_mem s)), s') \<and>
      next_free_page (bs_mem s') = next_free_page (bs_mem s) + 4096)"
proof -
  have "unat sz < 2 ^ 64" using unat_bound[of sz] by simp
  then have "unat (sz + 4095) = unat sz + 4095 - 2 ^ 64" using sz by (simp add: unat_word_ariths mod_if)
  then have "unat (sz + 4095) < 4096" using \<open>unat sz < 2 ^ 64\<close> by simp
  then have "unat ((sz + 4095) div EFI_PAGE_SIZE) = 0" unfolding unat_div by (simp add: EFI_PAGE_SIZE_def)
  moreover have "sz + EFI_PAGE_SIZE - 1 = sz + 4095" by (simp add: EFI_PAGE_SIZE_def)
  ultimately have "(sz + EFI_PAGE_SIZE - 1) div EFI_PAGE_SIZE = 0" by (simp only: unat_eq_0)
  then have "allocate_pool sz (Some x) s = (EFI_SUCCESS, Some (next_free_page (bs_mem s)),
      s\<lparr>bs_mem := (bs_mem s)\<lparr>next_free_page := next_free_page (bs_mem s) + 4096, generation := generation (bs_mem s) + 1\<rparr>\<rparr>)"
    using live room(1) by (simp add: allocate_pool_def mem_allocate_pages_unfold EFI_PAGE_SIZE_def not_less)
  then show ?thesis using live mem_allocate_nothing[OF room(2)] by (simp add: allocate_pages_def)
qed

theorem allocation_sizes_wrap_witness:
  "\<exists>s'. allocate_pool 0xFFFFFFFFFFFFFFFF (Some 0) demo_boot = (EFI_SUCCESS, Some 0x100000, s') \<and> next_free_page (bs_mem s') = 0x101000"
  using allocation_sizes_wrap[of demo_boot "0xFFFFFFFFFFFFFFFF" 0]
  by (simp add: demo_boot_def BOOT_INIT_def RAM_LIMIT_def PERIPHERAL_BASE_def)

section \<open>The configuration table\<close>

definition config_entries :: "boot_state \<Rightarrow> efi_configuration_table_entry list" where
  "config_entries s = take (bs_config_count s) (bs_config s)"

definition config_map :: "boot_state \<Rightarrow> efi_guid \<Rightarrow> addr option" where
  "config_map s = map_of (map (\<lambda>e. (vendor_guid e, vendor_table e)) (config_entries s))"

definition config_inv :: "boot_state \<Rightarrow> bool" where
  "config_inv s \<longleftrightarrow> length (bs_config s) = MAX_CONFIG_TABLE_ENTRIES \<and> bs_config_count s \<le> MAX_CONFIG_TABLE_ENTRIES \<and>
     distinct (map vendor_guid (config_entries s))"

lemma map_of_entries_None: "map_of (map (\<lambda>e. (f e, h e)) es) g = None \<longleftrightarrow> position (\<lambda>e. f e = g) es = None"
  by (auto simp: position_None_iff map_of_eq_None_iff image_image)

lemma map_of_split:
  assumes "distinct (map f (xs @ e # ys))"
  shows "map_of (map (\<lambda>e. (f e, h e)) (xs @ ys)) = (map_of (map (\<lambda>e. (f e, h e)) (xs @ e # ys)))(f e := None)"
    "f e' = f e \<Longrightarrow> map_of (map (\<lambda>e. (f e, h e)) (xs @ e' # ys)) = (map_of (map (\<lambda>e. (f e, h e)) (xs @ e # ys)))(f e \<mapsto> h e')"
proof -
  have "map_of (map (\<lambda>e. (f e, h e)) xs) (f e) = None" "map_of (map (\<lambda>e. (f e, h e)) ys) (f e) = None"
    using assms by (auto simp: map_of_eq_None_iff image_image)
  then show "map_of (map (\<lambda>e. (f e, h e)) (xs @ ys)) = (map_of (map (\<lambda>e. (f e, h e)) (xs @ e # ys)))(f e := None)"
    "f e' = f e \<Longrightarrow> map_of (map (\<lambda>e. (f e, h e)) (xs @ e' # ys)) = (map_of (map (\<lambda>e. (f e, h e)) (xs @ e # ys)))(f e \<mapsto> h e')"
    by (auto simp: fun_eq_iff map_add_def split: option.splits)
qed

lemma config_split:
  assumes inv: "config_inv s" and pos: "position (\<lambda>e. vendor_guid e = g) (config_entries s) = Some i"
  shows "i < bs_config_count s" "vendor_guid (bs_config s ! i) = g"
    "config_entries s = take i (config_entries s) @ bs_config s ! i # drop (i + 1) (config_entries s)"
proof -
  note p = position_SomeD[OF pos]
  then show i: "i < bs_config_count s" and "vendor_guid (bs_config s ! i) = g" by (auto simp: config_entries_def)
  have "config_entries s ! i = bs_config s ! i" using i by (simp add: config_entries_def)
  then show "config_entries s = take i (config_entries s) @ bs_config s ! i # drop (i + 1) (config_entries s)"
    using id_take_nth_drop[of i "config_entries s"] p by simp
qed

lemma map_add_single: "m g = None \<Longrightarrow> [g \<mapsto> t] ++ m = m(g \<mapsto> t)"
  by (auto simp: fun_eq_iff map_add_def split: option.splits)

lemma entries_appended:
  "c < length es \<Longrightarrow> take (c + 1) (es[c := e]) = take c es @ [e]"
  by (simp add: take_Suc_conv_app_nth)

lemma entries_removed:
  assumes "i < c" "c \<le> length es"
  shows "take (c - 1) (put_seg es i (seg es (i + 1) (c - (i + 1)))) = take i (take c es) @ drop (i + 1) (take c es)"
    "length (put_seg es i (seg es (i + 1) (c - (i + 1)))) = length es"
proof -
  obtain k where c: "c = Suc (i + k)" using assms(1) less_iff_Suc_add by auto
  then show "take (c - 1) (put_seg es i (seg es (i + 1) (c - (i + 1)))) = take i (take c es) @ drop (i + 1) (take c es)"
    "length (put_seg es i (seg es (i + 1) (c - (i + 1)))) = length es"
    using assms(2) by (auto simp: put_seg_def seg_def drop_take min_def)
qed

lemma entries_replaced:
  assumes "i < c" "c \<le> length es"
  shows "take c (es[i := e]) = take i (take c es) @ e # drop (i + 1) (take c es)"
  using upd_conv_take_nth_drop[of i "take c es" e] assms by (simp add: take_update_swap)

text \<open>
  InstallConfigurationTable maintains a map from GUIDs to tables of at most eight entries: a
  table is added or replaced, a null table removes the entry (closing the gap it leaves), removing
  what is not there and adding a ninth fail with their status and change nothing, and the system
  table's entry count always equals the number of entries.
\<close>

theorem configuration_table_refines:
  assumes inv: "config_inv s"
  shows "case install_configuration_table lo (Some g) t s of (st, s') \<Rightarrow>
    if t = 0 \<and> config_map s g = None then st = EFI_NOT_FOUND \<and> s' = s
    else if t \<noteq> 0 \<and> config_map s g = None \<and> bs_config_count s = 8 then st = EFI_OUT_OF_RESOURCES \<and> s' = s
    else st = EFI_SUCCESS \<and> config_inv s' \<and> bs_st_entries s' = length (config_entries s') \<and>
      config_map s' = (if t = 0 then (config_map s)(g := None) else (config_map s)(g \<mapsto> t))"
proof (cases "position (\<lambda>e. vendor_guid e = g) (config_entries s)")
  case None
  then have n: "config_map s g = None" by (simp add: config_map_def map_of_entries_None)
  have new: "g \<notin> vendor_guid ` set (config_entries s)" using None by (auto simp: position_None_iff)
  let ?e = "\<lparr>vendor_guid = g, vendor_table = t\<rparr>" and ?c = "bs_config_count s"
  show ?thesis
  proof (cases "t = 0 \<or> ?c = 8")
    case True
    then show ?thesis using n None inv
      by (auto simp: install_configuration_table_def config_entries_def[symmetric] config_inv_def MAX_CONFIG_TABLE_ENTRIES_def Let_def)
  next
    case False
    let ?s = "s\<lparr>bs_config := (bs_config s)[?c := ?e], bs_config_count := ?c + 1, bs_st_config_table := lo_config_table lo, bs_st_entries := ?c + 1\<rparr>"
    have c: "?c < 8" "length (bs_config s) = 8" using inv False by (auto simp: config_inv_def MAX_CONFIG_TABLE_ENTRIES_def)
    have "install_configuration_table lo (Some g) t s = (EFI_SUCCESS, ?s)"
      using None False c by (simp add: install_configuration_table_def config_entries_def[symmetric] MAX_CONFIG_TABLE_ENTRIES_def Let_def)
    moreover have ent: "config_entries ?s = config_entries s @ [?e]"
      using entries_appended[of ?c "bs_config s" ?e] c by (simp add: config_entries_def)
    moreover have "config_map ?s = (config_map s)(g \<mapsto> t)"
      using map_add_single[where m = "config_map s" and g = g and t = t, OF n] unfolding config_map_def ent by simp
    moreover have "length (config_entries s) = ?c" using c by (simp add: config_entries_def)
    ultimately show ?thesis using False new inv n c by (simp add: config_inv_def MAX_CONFIG_TABLE_ENTRIES_def)
  qed
next
  case (Some i)
  note sp = config_split[OF inv Some]
  let ?c = "bs_config_count s" and ?E = "config_entries s" and ?old = "bs_config s ! i"
  have c: "?c \<le> 8" "length (bs_config s) = 8" using inv by (auto simp: config_inv_def MAX_CONFIG_TABLE_ENTRIES_def)
  have dist: "distinct (map vendor_guid (take i ?E @ ?old # drop (i + 1) ?E))" using inv sp(3) by (simp add: config_inv_def)
  have old: "config_map s = map_of (map (\<lambda>e. (vendor_guid e, vendor_table e)) (take i ?E @ ?old # drop (i + 1) ?E))"
    unfolding config_map_def using sp(3) by simp
  have ne: "config_map s g \<noteq> None" using Some by (simp add: config_map_def map_of_entries_None)
  have len: "length ?E = ?c" using c by (simp add: config_entries_def)
  show ?thesis
  proof (cases "t = 0")
    case True
    let ?s = "s\<lparr>bs_config := put_seg (bs_config s) i (seg (bs_config s) (i + 1) (?c - (i + 1))), bs_config_count := ?c - 1,
        bs_st_config_table := lo_config_table lo, bs_st_entries := ?c - 1\<rparr>"
    have "install_configuration_table lo (Some g) t s = (EFI_SUCCESS, ?s)"
      using Some True by (simp add: install_configuration_table_def config_entries_def[symmetric] Let_def)
    moreover have ent: "config_entries ?s = take i ?E @ drop (i + 1) ?E"
      using entries_removed(1)[of i ?c "bs_config s"] sp(1) c by (simp add: config_entries_def)
    moreover have "config_map ?s = (config_map s)(g := None)"
      unfolding old unfolding config_map_def ent using map_of_split(1)[OF dist, of vendor_table] sp(2) by simp
    moreover have "length (bs_config ?s) = 8" using entries_removed(2)[of i ?c "bs_config s"] sp(1) c by simp
    ultimately show ?thesis using True ne dist sp(1) c len by (auto simp: config_inv_def MAX_CONFIG_TABLE_ENTRIES_def)
  next
    case False
    let ?e = "?old\<lparr>vendor_table := t\<rparr>"
    let ?s = "s\<lparr>bs_config := (bs_config s)[i := ?e], bs_st_config_table := lo_config_table lo, bs_st_entries := ?c\<rparr>"
    have "install_configuration_table lo (Some g) t s = (EFI_SUCCESS, ?s)"
      using Some False by (simp add: install_configuration_table_def config_entries_def[symmetric] Let_def)
    moreover have ent: "config_entries ?s = take i ?E @ ?e # drop (i + 1) ?E"
      using entries_replaced[of i ?c "bs_config s" ?e] sp(1) c by (simp add: config_entries_def)
    moreover have "config_map ?s = (config_map s)(g \<mapsto> t)"
      unfolding old unfolding config_map_def ent using map_of_split(2)[OF dist, of ?e vendor_table] sp(2) by simp
    ultimately show ?thesis using False ne dist sp(1) c len by (auto simp: config_inv_def MAX_CONFIG_TABLE_ENTRIES_def)
  qed
qed

theorem configuration_table_refines_witness:
  "config_map (snd (install_configuration_table demo_layout (Some demo_guid) 0x5000 demo_boot)) = [demo_guid \<mapsto> 0x5000]"
proof -
  have "config_inv demo_boot" "config_map demo_boot = Map.empty" "bs_config_count demo_boot = 0"
    by (simp_all add: config_inv_def config_map_def config_entries_def demo_boot_def BOOT_INIT_def)
  then show ?thesis using configuration_table_refines[where s = demo_boot and lo = demo_layout and g = demo_guid and t = "0x5000"]
    by (simp split: prod.splits)
qed

section \<open>Loading and starting\<close>

lemma fresh_handle_install:
  assumes "db_inv hs" and "first_free h_in_use hs = Some i"
  shows "\<exists>hs'. db_install (hs[i := EMPTY_HANDLE\<lparr>h_in_use := True\<rparr>]) i g v = Inr (True, hs') \<and>
    index_of hs' (handle_for_index i) = Inr (Some i) \<and> db_handle_protocol hs' (handle_for_index i) g = Inr (Some v)"
proof -
  have i: "i < MAX_HANDLES" "length hs = MAX_HANDLES"
    using handle_slots.first_free_Some[OF assms(2)] assms(1) by (simp_all add: db_inv_def)
  then show ?thesis using handles.decode_encode[OF i(1)]
    by (simp add: db_install_def index_of_def db_handle_protocol_def handle_for_index_def entry_lookup_def installed_def
        EMPTY_HANDLE_def MAX_PROTOCOLS_PER_HANDLE_def numeral_eq_Suc map_filter_simps)
qed

lemma load_image_runs:
  assumes run: "\<not> bs_exited s" and inv: "db_inv (bs_handles s)" and free: "first_free h_in_use (bs_handles s) = Some i"
    and arrays: "length (bs_images s) = MAX_HANDLES" "length (bs_entry_points s) = MAX_HANDLES"
    and args: "src \<noteq> 0" "n \<noteq> 0"
    and load: "pe_load fuel (load_bytes (bs_ram s) src n) \<lparr>pe_mem = bs_mem s, pe_ram = bs_ram s\<rparr> = (Inr lp, p)"
  shows "\<exists>hs'. load_image lo fuel parent src n (Some h) s = Inr (EFI_SUCCESS, Some (handle_for_index i),
      s\<lparr>bs_mem := pe_mem p, bs_ram := pe_ram p, bs_handles := hs',
        bs_images := (bs_images s)[i := EMPTY_LOADED_IMAGE\<lparr>li_parent_handle := parent, li_system_table := lo_system_table lo,
          li_image_base := lp_image_base lp, li_image_size := lp_image_size lp\<rparr>],
        bs_entry_points := (bs_entry_points s)[i := lp_entry_point lp]\<rparr>) \<and>
    db_install ((bs_handles s)[i := EMPTY_HANDLE\<lparr>h_in_use := True\<rparr>]) i LOADED_IMAGE_PROTOCOL_GUID (lo_loaded_image lo i) = Inr (True, hs') \<and>
    i < MAX_HANDLES \<and> index_of hs' (handle_for_index i) = Inr (Some i) \<and>
    db_handle_protocol hs' (handle_for_index i) LOADED_IMAGE_PROTOCOL_GUID = Inr (Some (lo_loaded_image lo i))"
proof -
  let ?hs = "(bs_handles s)[i := EMPTY_HANDLE\<lparr>h_in_use := True\<rparr>]"
  have i: "i < MAX_HANDLES" using handle_slots.first_free_Some[OF free] inv by (simp add: db_inv_def)
  have create: "find_or_create_handle (bs_handles s) 0 = Inr (Some i, ?hs)"
    by (simp add: find_or_create_handle_def handle_to_index_def free)
  obtain hs' where h: "db_install ?hs i LOADED_IMAGE_PROTOCOL_GUID (lo_loaded_image lo i) = Inr (True, hs')"
    "index_of hs' (handle_for_index i) = Inr (Some i)"
    "db_handle_protocol hs' (handle_for_index i) LOADED_IMAGE_PROTOCOL_GUID = Inr (Some (lo_loaded_image lo i))"
    using fresh_handle_install[OF inv free] by blast
  then show ?thesis using i run args by (simp add: load_image_def load create Let_def)
qed

text \<open>
  C15: an image that loads can be started: when the loader accepts the file and the handle table has a
  free entry, LoadImage returns a handle whose LoadedImage protocol is the record with the image's
  base, size, parent and system table, and StartImage on that handle calls the entry point the loader
  computed, with the handle and the system table as its arguments.
\<close>

theorem load_then_start:
  assumes run: "\<not> bs_exited s" and inv: "db_inv (bs_handles s)" and free: "first_free h_in_use (bs_handles s) = Some i"
    and arrays: "length (bs_images s) = MAX_HANDLES" "length (bs_entry_points s) = MAX_HANDLES"
    and args: "src \<noteq> 0" "n \<noteq> 0"
    and load: "pe_load fuel (load_bytes (bs_ram s) src n) \<lparr>pe_mem = bs_mem s, pe_ram = bs_ram s\<rparr> = (Inr lp, p)"
    and entry: "lp_entry_point lp \<noteq> 0"
  shows "\<exists>s'. load_image lo fuel parent src n (Some h) s = Inr (EFI_SUCCESS, Some (handle_for_index i), s') \<and>
    handle_protocol (handle_for_index i) (Some LOADED_IMAGE_PROTOCOL_GUID) (Some 0) s' = Inr (EFI_SUCCESS, Some (lo_loaded_image lo i)) \<and>
    bs_images s' ! i = EMPTY_LOADED_IMAGE\<lparr>li_parent_handle := parent, li_system_table := lo_system_table lo,
        li_image_base := lp_image_base lp, li_image_size := lp_image_size lp\<rparr> \<and>
    bs_mem s' = pe_mem p \<and> bs_ram s' = pe_ram p \<and>
    (\<forall>entry_fn. start_image lo entry_fn (handle_for_index i) s' =
       Inr (entry_fn (lp_entry_point lp) (handle_for_index i) (lo_system_table lo) s'))"
proof -
  obtain hs' where "load_image lo fuel parent src n (Some h) s = Inr (EFI_SUCCESS, Some (handle_for_index i),
      s\<lparr>bs_mem := pe_mem p, bs_ram := pe_ram p, bs_handles := hs',
        bs_images := (bs_images s)[i := EMPTY_LOADED_IMAGE\<lparr>li_parent_handle := parent, li_system_table := lo_system_table lo,
          li_image_base := lp_image_base lp, li_image_size := lp_image_size lp\<rparr>],
        bs_entry_points := (bs_entry_points s)[i := lp_entry_point lp]\<rparr>)" "i < MAX_HANDLES"
    "index_of hs' (handle_for_index i) = Inr (Some i)"
    "db_handle_protocol hs' (handle_for_index i) LOADED_IMAGE_PROTOCOL_GUID = Inr (Some (lo_loaded_image lo i))"
    using load_image_runs[OF run inv free arrays args load] by blast
  then show ?thesis using arrays run entry by (simp add: handle_protocol_def start_image_def Let_def)
qed

theorem load_then_start_witness:
  "\<exists>s'. load_image demo_layout 0 0 0x50000 244 (Some 0) (demo_boot\<lparr>bs_ram := store_at 0x50000 (small_pe 0x20) (\<lambda>_. 0)\<rparr>) =
      Inr (EFI_SUCCESS, Some 1, s') \<and>
     start_image demo_layout (\<lambda>e h st s. (EFI_SUCCESS, s\<lparr>bs_tpl := e\<rparr>)) 1 s' = Inr (EFI_SUCCESS, s'\<lparr>bs_tpl := 0x100010\<rparr>)"
proof -
  let ?ram = "store_at 0x50000 (small_pe 0x20) (\<lambda>_. 0)"
  let ?s = "demo_boot\<lparr>bs_ram := ?ram\<rparr>"
  have bytes: "load_bytes ?ram 0x50000 244 = small_pe 0x20"
    by (rule load_store_same) (simp_all add: small_pe_fields(1))
  have free: "first_free h_in_use (bs_handles ?s) = Some 0"
    by (simp add: first_free_def demo_boot_def BOOT_INIT_def HANDLES_INIT_def MAX_HANDLES_def numeral_eq_Suc EMPTY_HANDLE_def)
  have m: "bs_mem ?s = \<lparr>next_free_page = 0x100000, generation = 5\<rparr>" by (simp add: demo_boot_def)
  have load: "pe_load 0 (load_bytes (bs_ram ?s) 0x50000 244) \<lparr>pe_mem = bs_mem ?s, pe_ram = bs_ram ?s\<rparr> =
      (Inr \<lparr>lp_image_base = 0x100000, lp_image_size = 0x1000, lp_entry_point = 0x100010\<rparr>, p)"
    if p: "p = snd (pe_load 0 (small_pe 0x20) \<lparr>pe_mem = bs_mem ?s, pe_ram = bs_ram ?s\<rparr>)" for p
    using pe_load_spec[OF small_pe_header(1)[of "0x20"], of "\<lparr>pe_mem = bs_mem ?s, pe_ram = bs_ram ?s\<rparr>" "0x100000" _ 0] p m
    by (simp add: bytes small_pe_header small_pe_section small_alloc small_pe_fields le_simps)
  have inv: "db_inv (bs_handles ?s)" by (simp add: demo_boot_def BOOT_INIT_def db_inv_init)
  show ?thesis
    using load_then_start[where s = ?s and i = 0 and src = "0x50000" and n = 244 and lo = demo_layout and parent = 0 and h = 0,
        OF _ inv free _ _ _ _ load[OF refl]]
    by (auto simp: demo_boot_def BOOT_INIT_def demo_layout_def handle_for_index_def index_to_handle_def)
qed

end
