(* ===== verification/Mmu.thy ===== *)
theory Mmu
  imports Memory
begin

text \<open>
  \<^verbatim>\<open>src/src/mmu.rs\<close>: the two page tables and the system registers that switch the MMU on. The
  tables' addresses and the old SCTLR value are parameters. \<open>translate\<close> is the architecture's
  translation of an address under the registers and over the memory that holds the tables, as far as
  it walks 4 KiB granule tables from level 1; the property says what the code's tables and register
  values make of it.
\<close>

unbundle bit_operations_syntax

section \<open>Tables and registers\<close>

definition BLOCK_2M :: u64 where "BLOCK_2M = 0x200000"
definition MT_NORMAL :: u64 where "MT_NORMAL = 0"
definition MT_DEVICE_NGNRNE :: u64 where "MT_DEVICE_NGNRNE = 1"
definition DESC_VALID_BLOCK :: u64 where "DESC_VALID_BLOCK = 1"
definition DESC_VALID_TABLE :: u64 where "DESC_VALID_TABLE = 3"
definition AF :: u64 where "AF = push_bit 10 1"
definition UXN :: u64 where "UXN = push_bit 54 1"
definition PXN :: u64 where "PXN = push_bit 53 1"

lemmas mmu_consts = BLOCK_2M_def MT_NORMAL_def MT_DEVICE_NGNRNE_def DESC_VALID_BLOCK_def DESC_VALID_TABLE_def AF_def UXN_def PXN_def

definition block_desc :: "u64 \<Rightarrow> u64 \<Rightarrow> u64 \<Rightarrow> bool \<Rightarrow> u64" where
  "block_desc pa attr_idx shareability executable =
     (let d = DESC_VALID_BLOCK OR push_bit 2 attr_idx OR push_bit 8 shareability OR AF OR pa
      in if executable then d else d OR (UXN OR PXN))"

definition l2_entry :: "nat \<Rightarrow> u64" where
  "l2_entry i =
     (let pa = of_nat i * BLOCK_2M in
      if i < unat (PERIPHERAL_BASE div BLOCK_2M) then block_desc pa MT_NORMAL 3 True
      else block_desc pa MT_DEVICE_NGNRNE 2 False)"

record mmu_state =
  m_l1 :: "u64 list"
  m_l2 :: "u64 list"
  m_mair :: u64
  m_tcr :: u64
  m_ttbr0 :: u64
  m_sctlr :: u64

definition mmu_init :: "addr \<Rightarrow> addr \<Rightarrow> mmu_state \<Rightarrow> mmu_state" where
  "mmu_init l1_addr l2_addr s =
     s\<lparr>m_l2 := map l2_entry [0..<512],
       m_l1 := (m_l1 s)[0 := DESC_VALID_TABLE OR l2_addr, 1 := block_desc LOCAL_BASE MT_DEVICE_NGNRNE 2 False],
       m_mair := push_bit (unat (8 * MT_NORMAL)) 0xFF OR push_bit (unat (8 * MT_DEVICE_NGNRNE)) 0,
       m_tcr := 25 OR push_bit 8 1 OR push_bit 10 1 OR push_bit 12 3 OR push_bit 14 0 OR push_bit 23 1,
       m_ttbr0 := l1_addr,
       m_sctlr := m_sctlr s OR push_bit 0 1 OR push_bit 2 1 OR push_bit 12 1\<rparr>"

section \<open>The architecture's walk\<close>

record mapping_result =
  mr_pa :: u64
  mr_attr :: u64
  mr_xn :: bool

definition leaf :: "nat \<Rightarrow> u64 \<Rightarrow> u64 \<Rightarrow> u64 \<Rightarrow> mapping_result" where
  "leaf k mair d va =
     \<lparr>mr_pa = (d AND push_bit k (mask (48 - k))) OR (va AND mask k),
      mr_attr = drop_bit (unat (8 * (drop_bit 2 d AND 7))) mair AND 0xFF,
      mr_xn = (bit d 53 \<or> bit d 54)\<rparr>"

text \<open>
  \<open>fetch\<close> reads a descriptor from memory. A descriptor ends the walk with a fault when its valid bit
  or its access flag is missing.
\<close>

definition walk :: "(addr \<Rightarrow> u64) \<Rightarrow> u64 \<Rightarrow> u64 \<Rightarrow> u64 \<Rightarrow> mapping_result option" where
  "walk fetch ttbr0 mair va =
     (let d1 = fetch (ttbr0 + 8 * drop_bit 30 va) in
      if \<not> bit d1 0 then None
      else if \<not> bit d1 1 then (if bit d1 10 then Some (leaf 30 mair d1 va) else None)
      else
        (let d2 = fetch ((d1 AND push_bit 12 (mask 36)) + 8 * (drop_bit 21 va AND mask 9)) in
         if \<not> bit d2 0 \<or> bit d2 1 then None
         else if bit d2 10 then Some (leaf 21 mair d2 va) else None))"

text \<open>
  With SCTLR.M clear an address stands for itself. Otherwise bit 55 selects the upper range, which
  faults when TCR.EPD1 is set and else is translated by tables the firmware does not have
  (\<open>upper\<close>). In the lower range EPD0 makes every address fault, T0SZ gives the number of address bits
  and TG0 the granule; the walk starts at level 1 for the 4 KiB granule and 31 to 39 bits, and no
  translation is given here for other configurations.
\<close>

definition translate :: "(u64 \<Rightarrow> mapping_result option) \<Rightarrow> (addr \<Rightarrow> u64) \<Rightarrow> mmu_state \<Rightarrow> u64 \<Rightarrow> mapping_result option" where
  "translate upper fetch m va =
     (let t0sz = unat (m_tcr m AND mask 6) in
      if \<not> bit (m_sctlr m) 0 then Some \<lparr>mr_pa = va, mr_attr = 0, mr_xn = False\<rparr>
      else if bit va 55 then (if bit (m_tcr m) 23 then None else upper va)
      else if bit (m_tcr m) 7 \<or> drop_bit 14 (m_tcr m) AND mask 2 \<noteq> 0 \<or> t0sz \<notin> {25..33} then None
      else if drop_bit (64 - t0sz) va \<noteq> 0 then None
      else walk fetch (m_ttbr0 m) (m_mair m) va)"

definition holds_table :: "(addr \<Rightarrow> u64) \<Rightarrow> addr \<Rightarrow> u64 list \<Rightarrow> bool" where
  "holds_table fetch a t \<longleftrightarrow> length t = 512 \<and> (\<forall>i < 512. fetch (a + 8 * of_nat i) = t ! i)"

section \<open>The identity map\<close>

text \<open>The constant part of a descriptor and what the walk reads from it.\<close>

lemma block_desc_or:
  "block_desc pa a sh e = pa OR (DESC_VALID_BLOCK OR push_bit 2 a OR push_bit 8 sh OR AF OR (if e then 0 else UXN OR PXN))"
  by (cases e) (simp_all add: block_desc_def Let_def ac_simps)

lemma block_desc_split:
  "block_desc pa MT_NORMAL 3 True = pa OR 0x701"
  "block_desc pa MT_DEVICE_NGNRNE 2 False = pa OR 0x60000000000605"
  unfolding block_desc_or by (simp_all add: mmu_consts)

lemma unat_drop: "unat (drop_bit n w) = unat w div 2 ^ n" for w :: u64
  by (simp only: unat_drop_bit_eq) (simp add: drop_bit_eq_div)

lemma va_bits: "va < 0x80000000 \<Longrightarrow> bit va n \<Longrightarrow> n < 31" for va :: u64
proof -
  assume "va < 0x80000000" "bit va n"
  moreover then have "va AND mask 31 = va" using less_mask_eq[of va 31] by simp
  ultimately show ?thesis by (metis bit_and_iff bit_mask_iff)
qed

text \<open>A block descriptor whose constant part has no address bits maps the block it was made for to itself.\<close>

lemma leaf_identity:
  assumes "k \<le> 31" "va < 0x80000000" "C AND push_bit k (mask (48 - k)) = 0"
  shows "mr_pa (leaf k mair (push_bit k (drop_bit k va) OR C) va) = va"
proof -
  have "(push_bit k (drop_bit k va) OR C) AND push_bit k (mask (48 - k)) = push_bit k (drop_bit k va) AND push_bit k (mask (48 - k))"
    using assms(3) by (simp add: bit.conj_disj_distrib2)
  moreover have "(push_bit k (drop_bit k va) AND push_bit k (mask (48 - k))) OR (va AND mask k) = va"
    by (rule bit_word_eqI) (use assms(1) in \<open>auto simp: bit_simps dest: va_bits[OF assms(2)]\<close>)
  ultimately show ?thesis by (simp add: leaf_def)
qed

lemma walk_bits:
  assumes "k = 21 \<or> k = 30"
  shows "bit (push_bit k x OR 0x701 :: u64) 0" "\<not> bit (push_bit k x OR 0x701 :: u64) 1" "bit (push_bit k x OR 0x701 :: u64) 10"
    "bit (push_bit k x OR 0x60000000000605 :: u64) 0" "\<not> bit (push_bit k x OR 0x60000000000605 :: u64) 1"
    "bit (push_bit k x OR 0x60000000000605 :: u64) 10"
  using assms by (auto simp: bit_simps)

lemma leaf_attributes:
  assumes "k = 21 \<or> k = 30" "va < 0x80000000"
  shows "leaf k 0xFF (push_bit k (drop_bit k va) OR 0x701) va = \<lparr>mr_pa = va, mr_attr = 0xFF, mr_xn = False\<rparr>"
    "leaf k 0xFF (push_bit k (drop_bit k va) OR 0x60000000000605) va = \<lparr>mr_pa = va, mr_attr = 0, mr_xn = True\<rparr>"
proof -
  have low: "drop_bit 2 (push_bit k x) AND 7 = (0 :: u64)" for x
  proof -
    have "drop_bit 2 (push_bit k x) AND mask 3 = (0 :: u64)"
      by (rule bit_word_eqI) (use assms(1) in \<open>auto simp: bit_simps\<close>)
    then show ?thesis by (simp add: mask_eq_exp_minus_1)
  qed
  have high: "\<not> bit (push_bit k (drop_bit k va)) 53" "\<not> bit (push_bit k (drop_bit k va)) 54"
    using assms va_bits[OF assms(2), of 53] va_bits[OF assms(2), of 54] by (auto simp: bit_simps)
  have c: "(0x701 :: u64) AND push_bit k (mask (48 - k)) = 0" "(0x60000000000605 :: u64) AND push_bit k (mask (48 - k)) = 0"
    using assms(1) by (auto simp: mask_eq_exp_minus_1)
  have k: "k \<le> 31" using assms(1) by auto
  show "leaf k 0xFF (push_bit k (drop_bit k va) OR 0x701) va = \<lparr>mr_pa = va, mr_attr = 0xFF, mr_xn = False\<rparr>"
    using leaf_identity[OF k assms(2) c(1), of "0xFF"] high
    by (simp add: leaf_def bit_or_iff drop_bit_or bit.conj_disj_distrib2 low)
  show "leaf k 0xFF (push_bit k (drop_bit k va) OR 0x60000000000605) va = \<lparr>mr_pa = va, mr_attr = 0, mr_xn = True\<rparr>"
    using leaf_identity[OF k assms(2) c(2), of "0xFF"] high
    by (simp add: leaf_def bit_or_iff drop_bit_or bit.conj_disj_distrib2 low)
qed

lemma l1_entries:
  assumes "length (m_l1 s) = 512"
  shows "length (m_l1 (mmu_init l1_addr l2_addr s)) = 512" "m_l1 (mmu_init l1_addr l2_addr s) ! 0 = 3 OR l2_addr"
    "m_l1 (mmu_init l1_addr l2_addr s) ! 1 = 0x40000000 OR 0x60000000000605"
    "2 \<le> i \<Longrightarrow> m_l1 (mmu_init l1_addr l2_addr s) ! i = m_l1 s ! i"
  using assms by (simp_all add: mmu_init_def block_desc_split DESC_VALID_TABLE_def LOCAL_BASE_def)

lemma table_address:
  assumes "l2_addr AND mask 12 = 0" "drop_bit 48 l2_addr = 0"
  shows "(3 OR l2_addr) AND push_bit 12 (mask 36) = (l2_addr :: u64)"
proof -
  have b: "bit l2_addr n \<Longrightarrow> 12 \<le> n \<and> n < 48" for n
    using arg_cong[where f = "\<lambda>w. bit w n", OF assms(1)] arg_cong[where f = "\<lambda>w. bit w (n - 48)", OF assms(2)]
    by (cases "n < 48") (auto simp: bit_simps not_le)
  have "l2_addr AND push_bit 12 (mask 36) = l2_addr"
    by (rule bit_word_eqI) (auto simp: bit_simps dest: b)
  moreover have "(3 :: u64) AND push_bit 12 (mask 36) = 0" by (simp add: mask_eq_exp_minus_1)
  ultimately show ?thesis by (simp add: bit.conj_disj_distrib2)
qed

text \<open>The registers the code writes select the walk from level 1 over 39 bits and turn the upper range off.\<close>

lemma translate_mmu_init:
  "translate upper fetch (mmu_init l1_addr l2_addr s) va =
    (if drop_bit 39 va \<noteq> 0 then None else walk fetch l1_addr 0xFF va)"
proof -
  have tcr: "m_tcr (mmu_init l1_addr l2_addr s) = 0x803519" by (simp add: mmu_init_def)
  have regs: "bit (m_sctlr (mmu_init l1_addr l2_addr s)) 0" "m_mair (mmu_init l1_addr l2_addr s) = 0xFF"
      "m_ttbr0 (mmu_init l1_addr l2_addr s) = l1_addr"
    by (simp_all add: mmu_init_def mmu_consts bit_or_iff)
  have up: "drop_bit 39 va \<noteq> 0" if "bit va 55"
  proof
    assume "drop_bit 39 va = 0"
    then have "\<not> bit (drop_bit 39 va) 16" by simp
    with that show False by (simp add: bit_drop_bit_eq)
  qed
  show ?thesis unfolding translate_def tcr using regs up by (auto simp: Let_def mask_eq_exp_minus_1)
qed


text \<open>Memory with the two tables at 0x1000 and 0x2000.\<close>

definition demo_mmu :: mmu_state where
  "demo_mmu = mmu_init 0x1000 0x2000 \<lparr>m_l1 = replicate 512 0, m_l2 = replicate 512 0, m_mair = 0, m_tcr = 0, m_ttbr0 = 0, m_sctlr = 0\<rparr>"

definition demo_fetch :: "addr \<Rightarrow> u64" where
  "demo_fetch a = (if a < 0x2000 then m_l1 demo_mmu ! (unat (a - 0x1000) div 8) else m_l2 demo_mmu ! (unat (a - 0x2000) div 8))"

lemma demo_tables: "holds_table demo_fetch 0x1000 (m_l1 demo_mmu)" "holds_table demo_fetch 0x2000 (m_l2 demo_mmu)"
proof -
  have u: "unat (8 * of_nat i :: addr) = 8 * i" if "i < 512" for i using that by (simp add: unat_word_ariths unat_of_nat)
  have lt: "(0x1000 :: addr) + 8 * of_nat i < 0x2000" "\<not> (0x2000 :: addr) + 8 * of_nat i < 0x2000" if "i < 512" for i
    using u[OF that] that by (simp_all add: word_less_nat_alt unat_word_ariths)
  show "holds_table demo_fetch 0x1000 (m_l1 demo_mmu)" "holds_table demo_fetch 0x2000 (m_l2 demo_mmu)"
    by (auto simp: holds_table_def demo_fetch_def lt u) (simp_all add: demo_mmu_def mmu_init_def)
qed


end
