(* ===== verification/Cache.thy ===== *)
theory Cache
  imports Ferro_Prelude
begin

text \<open>
  \<^verbatim>\<open>src/src/cache.rs\<close>: cache maintenance by address range. The result is the list of line addresses
  handed to \<^verbatim>\<open>dc civac\<close>, in order; \<open>ctr\<close> is the CTR_EL0 register. The loop takes fuel, as its end
  address may wrap; the property gives the amount that is enough when it does not.
\<close>

unbundle bit_operations_syntax

definition line_size :: "u64 \<Rightarrow> u64" where
  "line_size ctr = push_bit (unat (drop_bit 16 ctr AND 0xF)) 4"

primrec civac_loop :: "nat \<Rightarrow> u64 \<Rightarrow> u64 \<Rightarrow> u64 \<Rightarrow> u64 list option" where
  "civac_loop 0 line a lim = None"
| "civac_loop (Suc fuel) line a lim = (if a < lim then map_option ((#) a) (civac_loop fuel line (a + line) lim) else Some [])"

definition clean_and_invalidate_range :: "nat \<Rightarrow> u64 \<Rightarrow> u64 \<Rightarrow> u64 \<Rightarrow> u64 list option" where
  "clean_and_invalidate_range fuel ctr addr len =
     (let line = line_size ctr;
          start = addr AND NOT (line - 1);
          lim = (addr + len + line - 1) AND NOT (line - 1)
      in civac_loop fuel line start lim)"

lemma unat_exp: "k < 64 \<Longrightarrow> unat (2 ^ k :: u64) = 2 ^ k"
proof -
  assume "k < 64"
  then have "(2 :: nat) ^ k < 2 ^ 64" by (intro power_strict_increasing) auto
  moreover have "(2 :: u64) ^ k = of_nat (2 ^ k)" by simp
  ultimately show ?thesis unfolding unat_of_nat by (simp add: take_bit_eq_mod unat_of_nat del: of_nat_power)
qed

lemma div_add_le: "(a + b) div L \<le> a div L + b div L + 1" for a b L :: nat
proof (cases "L = 0")
  case False
  then have "a mod L + b mod L < 2 * L" using mod_less_divisor[of L a] mod_less_divisor[of L b] by linarith
  then have "(a mod L + b mod L) div L < 2" using False by (simp add: div_less_iff_less_mult)
  then show ?thesis using div_add1_eq[of a b L] by simp
qed simp

lemma align_down: "unat (a AND NOT (2 ^ k - 1)) = unat a div 2 ^ k * 2 ^ k" if "k < 64" for a :: u64
proof -
  have "a AND NOT (mask k) = push_bit k (drop_bit k a)"
    by (rule bit_word_eqI) (auto simp: bit_simps)
  then have "a AND NOT (2 ^ k - 1) = push_bit k (drop_bit k a)" by (simp add: mask_eq_exp_minus_1)
  moreover have "unat (drop_bit k a) = unat a div 2 ^ k" by (simp only: unat_drop_bit_eq) (simp add: drop_bit_eq_div)
  moreover have "unat a div 2 ^ k * 2 ^ k < 2 ^ 64" using unat_bound[of a] by (simp add: order_le_less_trans[OF div_times_less_eq_dividend])
  ultimately show ?thesis using that by (simp add: push_bit_eq_mult unat_word_ariths unat_exp)
qed

lemma civac_loop_lines:
  assumes "unat line = L" "0 < L" "unat a + n * L = unat lim" "n < fuel"
  shows "civac_loop fuel line a lim = Some (map (\<lambda>i. a + of_nat i * line) [0..<n])"
  using assms
proof (induction fuel arbitrary: a n)
  case (Suc fuel)
  show ?case
  proof (cases n)
    case 0
    then show ?thesis using Suc.prems by (simp add: word_less_nat_alt)
  next
    case (Suc m)
    have lim: "unat a + L \<le> unat lim" using Suc.prems(3) Suc by simp
    then have "unat (a + line) = unat a + L" using Suc.prems(1) unat_bound[of lim] by (simp add: unat_word_ariths)
    then have "civac_loop fuel line (a + line) lim = Some (map (\<lambda>i. a + line + of_nat i * line) [0..<m])"
      using Suc.IH[of "a + line" m] Suc.prems Suc by simp
    moreover have "a < lim" using lim Suc.prems(2) by (simp add: word_less_nat_alt)
    moreover have "map (\<lambda>i. a + of_nat i * line) [0..<n] = a # map (\<lambda>i. a + line + of_nat i * line) [0..<m]"
      unfolding Suc upt_conv_Cons[OF zero_less_Suc] map_Suc_upt[symmetric] by (simp add: algebra_simps)
    ultimately show ?thesis by simp
  qed
qed simp

lemma line_size_exp:
  obtains k where "2 \<le> k" "k < 64" "line_size ctr = 2 ^ k" "unat (line_size ctr) = 2 ^ k"
proof
  let ?k = "2 + unat (drop_bit 16 ctr AND 0xF)"
  have "drop_bit 16 ctr AND 0xF \<le> 0xF" by (rule word_and_le1)
  then show k: "?k < 64" by (simp add: word_le_nat_alt)
  show line: "line_size ctr = 2 ^ ?k" by (simp add: line_size_def push_bit_eq_mult power_add)
  show "unat (line_size ctr) = 2 ^ ?k" unfolding line by (rule unat_exp[OF k])
qed simp

text \<open>The lines of a range that does not wrap, first line and number of lines.\<close>

lemma clean_lines:
  fixes addr len ctr :: u64
  defines "L \<equiv> unat (line_size ctr)"
  defines "n \<equiv> (unat addr + unat len + L - 1) div L - unat addr div L"
  assumes fits: "unat addr + unat len + L \<le> 2 ^ 64" and fuel: "unat len div L + 3 \<le> fuel"
  shows "clean_and_invalidate_range fuel ctr addr len
      = Some (map (\<lambda>i. (addr AND NOT (line_size ctr - 1)) + of_nat i * line_size ctr) [0..<n])"
    and "0 < L" and "unat (addr AND NOT (line_size ctr - 1)) = unat addr div L * L" and "unat addr div L * L + n * L < 2 ^ 64"
proof -
  obtain k where k: "k < 64" and line: "line_size ctr = 2 ^ k" and Lk: "L = 2 ^ k" using line_size_exp[of ctr] by (metis L_def)
  from Lk have L: "unat (line_size ctr) = L" "0 < L" by (simp_all add: L_def)
  have lw: "line_size ctr = of_nat L" unfolding L(1)[symmetric] by simp
  let ?start = "addr AND NOT (line_size ctr - 1)" and ?lim = "(addr + len + line_size ctr - 1) AND NOT (line_size ctr - 1)"
  have one: "addr + len + line_size ctr - 1 = of_nat (unat addr + unat len + L - 1)"
  proof -
    have "addr + len + line_size ctr = of_nat (unat addr + unat len + L)" using lw by simp
    moreover have "unat addr + unat len + L = Suc (unat addr + unat len + L - 1)" using L(2) by simp
    ultimately show ?thesis by (metis add_diff_cancel_left' of_nat_Suc)
  qed
  have "unat (addr + len + line_size ctr - 1) = unat addr + unat len + L - 1"
    unfolding one unat_of_nat using fits L by simp
  then have ends: "unat ?start = unat addr div L * L" "unat ?lim = (unat addr + unat len + L - 1) div L * L"
    unfolding line align_down[OF k] by (simp_all add: Lk)
  have le: "unat addr div L \<le> (unat addr + unat len + L - 1) div L" using L(2) by (intro div_le_mono) simp
  then have sum: "unat ?start + n * L = unat ?lim" unfolding ends n_def by (simp add: diff_mult_distrib)
  have "n < fuel"
  proof -
    have "(unat addr + unat len + L - 1) div L \<le> (unat addr + (unat len + L)) div L" by (intro div_le_mono) simp
    also have "\<dots> \<le> unat addr div L + (unat len + L) div L + 1" by (rule div_add_le)
    also have "\<dots> = unat addr div L + unat len div L + 2" using L(2) div_add_self2[of L "unat len"] by simp
    finally show ?thesis using fuel by (simp add: n_def L(1))
  qed
  with sum have "civac_loop fuel (line_size ctr) ?start ?lim = Some (map (\<lambda>i. ?start + of_nat i * line_size ctr) [0..<n])"
    by (intro civac_loop_lines[OF L])
  then show "clean_and_invalidate_range fuel ctr addr len = Some (map (\<lambda>i. ?start + of_nat i * line_size ctr) [0..<n])"
    by (simp add: clean_and_invalidate_range_def Let_def)
  show "0 < L" by (rule L(2))
  show "unat ?start = unat addr div L * L" by (rule ends(1))
  show "unat addr div L * L + n * L < 2 ^ 64" using sum ends(1) unat_bound[of ?lim] by simp
qed

text \<open>
  The range operation cleans every cache line that a byte of the range lies in: with fuel for the
  lines of the range it ends, and each address of the range is in one of the lines it listed, all of
  them aligned to the line size the processor reports.
\<close>

theorem cache_covers_range:
  assumes fits: "unat addr + unat len + unat (line_size ctr) \<le> 2 ^ 64" and fuel: "unat len div unat (line_size ctr) + 3 \<le> fuel"
  shows "\<exists>ls. clean_and_invalidate_range fuel ctr addr len = Some ls \<and> (\<forall>l \<in> set ls. unat (line_size ctr) dvd unat l) \<and>
    (\<forall>a :: u64. unat addr \<le> unat a \<and> unat a < unat addr + unat len \<longrightarrow> (\<exists>l \<in> set ls. unat l \<le> unat a \<and> unat a < unat l + unat (line_size ctr)))"
proof -
  define L where "L = unat (line_size ctr)"
  define n where "n = (unat addr + unat len + L - 1) div L - unat addr div L"
  let ?start = "addr AND NOT (line_size ctr - 1)"
  note lines = clean_lines[OF fits fuel, folded L_def, folded n_def]
  have lw: "line_size ctr = of_nat L" by (simp add: L_def)
  have addr_of: "unat (?start + of_nat i * line_size ctr) = (unat addr div L + i) * L" if "i < n" for i
  proof -
    have "i * L \<le> n * L" using that by (intro mult_le_mono1) simp
    then have "(unat addr div L + i) * L < 2 ^ 64" using lines(4) unfolding add_mult_distrib by linarith
    moreover have "?start + of_nat i * line_size ctr = of_nat ((unat addr div L + i) * L)"
    proof -
      have "?start = of_nat (unat addr div L * L)" unfolding lines(3)[symmetric] by simp
      moreover have "of_nat i * line_size ctr = of_nat (i * L)" by (simp add: lw)
      ultimately show ?thesis unfolding add_mult_distrib of_nat_add by (rule arg_cong2[where f = "(+)"])
    qed
    ultimately show ?thesis by (simp add: unat_of_nat del: of_nat_mult of_nat_add)
  qed
  have cover: "\<exists>l \<in> set (map (\<lambda>i. ?start + of_nat i * line_size ctr) [0..<n]). unat l \<le> unat a \<and> unat a < unat l + L"
    if a: "unat addr \<le> unat a" "unat a < unat addr + unat len" for a :: u64
  proof -
    let ?i = "unat a div L - unat addr div L"
    have "unat addr div L \<le> unat a div L" using a by (intro div_le_mono) simp
    moreover have "unat a div L + 1 \<le> (unat addr + unat len + L - 1) div L"
    proof -
      have "unat a div L + 1 = (unat a + L) div L" using lines(2) div_add_self2[of L "unat a"] by simp
      also have "\<dots> \<le> (unat addr + unat len + L - 1) div L" using a by (intro div_le_mono) simp
      finally show ?thesis .
    qed
    ultimately have i: "?i < n" "unat addr div L + ?i = unat a div L" by (simp_all add: n_def)
    have "unat a div L * L \<le> unat a" "unat a < unat a div L * L + L"
      using div_mult_mod_eq[of "unat a" L] mod_less_divisor[OF lines(2), of "unat a"] by linarith+
    with addr_of[OF i(1)] i(2)
    have "unat (?start + of_nat ?i * line_size ctr) \<le> unat a" "unat a < unat (?start + of_nat ?i * line_size ctr) + L"
      by (simp_all del: of_nat_diff)
    moreover have "?start + of_nat ?i * line_size ctr \<in> set (map (\<lambda>i. ?start + of_nat i * line_size ctr) [0..<n])"
      unfolding set_map by (rule imageI) (use i(1) in simp)
    ultimately show ?thesis by blast
  qed
  show ?thesis unfolding lines(1) L_def[symmetric]
    by (intro exI conjI, rule refl) (use cover addr_of in auto)
qed

theorem cache_covers_range_witness:
  "\<exists>ls. clean_and_invalidate_range 10 0x84448004 0x1010 100 = Some ls \<and> (\<exists>l \<in> set ls. unat l \<le> 0x1050 \<and> 0x1050 < unat l + 64)"
proof -
  have line: "line_size 0x84448004 = 64" by (simp add: line_size_def)
  show ?thesis using cache_covers_range[of "0x1010" 100 "0x84448004" 10] unfolding line by (auto dest!: spec[of _ "0x1050 :: u64"])
qed

end
