(* ===== verification/Framebuffer.thy ===== *)
theory Framebuffer
  imports Ram
begin

text \<open>
  \<^verbatim>\<open>src/src/framebuffer.rs\<close> and \<^verbatim>\<open>src/src/font.rs\<close>: drawing into the framebuffer, as writes to
  memory. Coordinates are 32-bit words with the wrap-around of the source. The mailbox request that
  obtains the framebuffer is in \<open>Mailbox\<close>. The locale \<open>pixel_store\<close> is what the drawing operations
  need of single pixels; \<open>put_pixel\<close> provides it when the pitch has room for a row.
\<close>

unbundle bit_operations_syntax

section \<open>Font\<close>

definition GLYPH_WIDTH :: u32 where "GLYPH_WIDTH = 5"
definition GLYPH_HEIGHT :: u32 where "GLYPH_HEIGHT = 7"

definition upper_ascii :: "u32 \<Rightarrow> u32" where
  "upper_ascii c = (if 0x61 \<le> c \<and> c \<le> 0x7A then c - 0x20 else c)"

text \<open>Characters are their code points.\<close>

definition glyph :: "u32 \<Rightarrow> u8 list" where
  "glyph ch = (let c = upper_ascii ch in
     if c = 0x41 then [0x0E, 0x11, 0x11, 0x1F, 0x11, 0x11, 0x11]
     else if c = 0x42 then [0x1E, 0x11, 0x11, 0x1E, 0x11, 0x11, 0x1E]
     else if c = 0x43 then [0x0F, 0x10, 0x10, 0x10, 0x10, 0x10, 0x0F]
     else if c = 0x44 then [0x1E, 0x11, 0x11, 0x11, 0x11, 0x11, 0x1E]
     else if c = 0x45 then [0x1F, 0x10, 0x10, 0x1E, 0x10, 0x10, 0x1F]
     else if c = 0x46 then [0x1F, 0x10, 0x10, 0x1E, 0x10, 0x10, 0x10]
     else if c = 0x47 then [0x0F, 0x10, 0x10, 0x17, 0x11, 0x11, 0x0F]
     else if c = 0x48 then [0x11, 0x11, 0x11, 0x1F, 0x11, 0x11, 0x11]
     else if c = 0x49 then [0x0E, 0x04, 0x04, 0x04, 0x04, 0x04, 0x0E]
     else if c = 0x4A then [0x01, 0x01, 0x01, 0x01, 0x11, 0x11, 0x0E]
     else if c = 0x4B then [0x11, 0x12, 0x14, 0x18, 0x14, 0x12, 0x11]
     else if c = 0x4C then [0x10, 0x10, 0x10, 0x10, 0x10, 0x10, 0x1F]
     else if c = 0x4D then [0x11, 0x1B, 0x15, 0x11, 0x11, 0x11, 0x11]
     else if c = 0x4E then [0x11, 0x19, 0x15, 0x13, 0x11, 0x11, 0x11]
     else if c = 0x4F then [0x0E, 0x11, 0x11, 0x11, 0x11, 0x11, 0x0E]
     else if c = 0x50 then [0x1E, 0x11, 0x11, 0x1E, 0x10, 0x10, 0x10]
     else if c = 0x51 then [0x0E, 0x11, 0x11, 0x11, 0x15, 0x12, 0x0D]
     else if c = 0x52 then [0x1E, 0x11, 0x11, 0x1E, 0x14, 0x12, 0x11]
     else if c = 0x53 then [0x0F, 0x10, 0x10, 0x0E, 0x01, 0x01, 0x1E]
     else if c = 0x54 then [0x1F, 0x04, 0x04, 0x04, 0x04, 0x04, 0x04]
     else if c = 0x55 then [0x11, 0x11, 0x11, 0x11, 0x11, 0x11, 0x0E]
     else if c = 0x56 then [0x11, 0x11, 0x11, 0x11, 0x11, 0x0A, 0x04]
     else if c = 0x57 then [0x11, 0x11, 0x11, 0x15, 0x15, 0x1B, 0x11]
     else if c = 0x58 then [0x11, 0x0A, 0x04, 0x04, 0x04, 0x0A, 0x11]
     else if c = 0x59 then [0x11, 0x0A, 0x04, 0x04, 0x04, 0x04, 0x04]
     else if c = 0x5A then [0x1F, 0x01, 0x02, 0x04, 0x08, 0x10, 0x1F]
     else if c = 0x30 then [0x0E, 0x11, 0x13, 0x15, 0x19, 0x11, 0x0E]
     else if c = 0x31 then [0x04, 0x0C, 0x04, 0x04, 0x04, 0x04, 0x0E]
     else if c = 0x32 then [0x0E, 0x11, 0x01, 0x02, 0x04, 0x08, 0x1F]
     else if c = 0x33 then [0x1E, 0x01, 0x06, 0x01, 0x01, 0x11, 0x0E]
     else if c = 0x34 then [0x02, 0x06, 0x0A, 0x12, 0x1F, 0x02, 0x02]
     else if c = 0x35 then [0x1F, 0x10, 0x1E, 0x01, 0x01, 0x11, 0x0E]
     else if c = 0x36 then [0x0E, 0x10, 0x10, 0x1E, 0x11, 0x11, 0x0E]
     else if c = 0x37 then [0x1F, 0x01, 0x02, 0x04, 0x04, 0x04, 0x04]
     else if c = 0x38 then [0x0E, 0x11, 0x11, 0x0E, 0x11, 0x11, 0x0E]
     else if c = 0x39 then [0x0E, 0x11, 0x11, 0x0F, 0x01, 0x01, 0x0E]
     else if c = 0x2D then [0x00, 0x00, 0x00, 0x1F, 0x00, 0x00, 0x00]
     else if c = 0x3A then [0x00, 0x04, 0x00, 0x00, 0x04, 0x00, 0x00]
     else if c = 0x2F then [0x01, 0x02, 0x02, 0x04, 0x08, 0x08, 0x10]
     else if c = 0x3E then [0x10, 0x08, 0x04, 0x02, 0x04, 0x08, 0x10]
     else if c = 0x3C then [0x01, 0x02, 0x04, 0x08, 0x04, 0x02, 0x01]
     else if c = 0x2E then [0x00, 0x00, 0x00, 0x00, 0x00, 0x0C, 0x0C]
     else if c = 0x2C then [0x00, 0x00, 0x00, 0x00, 0x00, 0x0C, 0x08]
     else if c = 0x27 then [0x0C, 0x04, 0x08, 0x00, 0x00, 0x00, 0x00]
     else if c = 0x22 then [0x1B, 0x0A, 0x00, 0x00, 0x00, 0x00, 0x00]
     else if c = 0x28 then [0x02, 0x04, 0x08, 0x08, 0x08, 0x04, 0x02]
     else if c = 0x29 then [0x08, 0x04, 0x02, 0x02, 0x02, 0x04, 0x08]
     else if c = 0x2B then [0x00, 0x04, 0x04, 0x1F, 0x04, 0x04, 0x00]
     else if c = 0x5F then [0x00, 0x00, 0x00, 0x00, 0x00, 0x00, 0x1F]
     else if c = 0x25 then [0x19, 0x19, 0x02, 0x04, 0x08, 0x13, 0x13]
     else replicate 7 0)"

lemma length_glyph [simp]: "length (glyph c) = 7"
  by (simp add: glyph_def Let_def)

section \<open>Drawing\<close>

record framebuffer =
  fb_ptr :: u64
  fb_width :: u32
  fb_height :: u32
  fb_pitch :: u32
  fb_bpp :: u32

definition fb_size :: "framebuffer \<Rightarrow> nat" where
  "fb_size fb = unat (fb_pitch fb) * unat (fb_height fb)"

definition pixel_offset :: "framebuffer \<Rightarrow> u32 \<Rightarrow> u32 \<Rightarrow> nat" where
  "pixel_offset fb x y = unat y * unat (fb_pitch fb) + unat x * (unat (fb_bpp fb) div 8)"

definition put_pixel :: "framebuffer \<Rightarrow> u32 \<Rightarrow> u32 \<Rightarrow> u32 \<Rightarrow> ram \<Rightarrow> ram" where
  "put_pixel fb x y color ram =
     (if x \<ge> fb_width fb \<or> y \<ge> fb_height fb then ram
      else store_at (fb_ptr fb + of_nat (pixel_offset fb x y)) (le32 color) ram)"

text \<open>\<^verbatim>\<open>a..b\<close>\<close>

definition urange :: "u32 \<Rightarrow> u32 \<Rightarrow> u32 list" where
  "urange a b = map of_nat [unat a..<unat b]"

definition rect_points :: "u32 \<Rightarrow> u32 \<Rightarrow> u32 \<Rightarrow> u32 \<Rightarrow> (u32 \<times> u32) list" where
  "rect_points x0 x1 y0 y1 = concat (map (\<lambda>y. map (\<lambda>x. (x, y)) (urange x0 x1)) (urange y0 y1))"

definition fill_rect :: "framebuffer \<Rightarrow> u32 \<Rightarrow> u32 \<Rightarrow> u32 \<Rightarrow> u32 \<Rightarrow> u32 \<Rightarrow> ram \<Rightarrow> ram" where
  "fill_rect fb x0 y0 w h color =
     (let x1 = min (x0 + w) (fb_width fb); y1 = min (y0 + h) (fb_height fb) in
      fold (\<lambda>(x, y). put_pixel fb x y color) (rect_points x0 x1 y0 y1))"

definition fb_clear :: "framebuffer \<Rightarrow> u32 \<Rightarrow> ram \<Rightarrow> ram" where
  "fb_clear fb color = fill_rect fb 0 0 (fb_width fb) (fb_height fb) color"

definition scroll_up :: "framebuffer \<Rightarrow> u32 \<Rightarrow> u32 \<Rightarrow> ram \<Rightarrow> ram" where
  "scroll_up fb rows_px bg ram =
     (if rows_px \<ge> fb_height fb then fb_clear fb bg ram
      else
        (let bytes_per_row = unat (fb_pitch fb);
             move_rows = fb_height fb - rows_px;
             moved = store_at (fb_ptr fb)
               (load_bytes ram (fb_ptr fb + of_nat (unat rows_px * bytes_per_row)) (unat move_rows * bytes_per_row)) ram
         in fill_rect fb 0 move_rows (fb_width fb) rows_px bg moved))"

definition sat_sub :: "u32 \<Rightarrow> u32 \<Rightarrow> u32" where
  "sat_sub a b = (if b \<le> a then a - b else 0)"

definition draw_rect_outline :: "framebuffer \<Rightarrow> u32 \<Rightarrow> u32 \<Rightarrow> u32 \<Rightarrow> u32 \<Rightarrow> u32 \<Rightarrow> u32 \<Rightarrow> ram \<Rightarrow> ram" where
  "draw_rect_outline fb x y w h thickness color ram =
     fill_rect fb (x + sat_sub w thickness) y thickness h color
       (fill_rect fb x y thickness h color
         (fill_rect fb x (y + sat_sub h thickness) w thickness color
           (fill_rect fb x y w thickness color ram)))"

text \<open>The font pixels of a glyph that are set: (column, row).\<close>

definition glyph_bits :: "u32 \<Rightarrow> (u32 \<times> u32) list" where
  "glyph_bits ch =
     concat (map (\<lambda>(row, bits). map (\<lambda>col. (col, of_nat row))
       (filter (\<lambda>col. drop_bit (unat (GLYPH_WIDTH - 1 - col)) bits AND 1 \<noteq> 0) (urange 0 GLYPH_WIDTH)))
       (enumerate 0 (glyph ch)))"

definition draw_char :: "framebuffer \<Rightarrow> u32 \<Rightarrow> u32 \<Rightarrow> u32 \<Rightarrow> u32 \<Rightarrow> u32 \<Rightarrow> ram \<Rightarrow> ram" where
  "draw_char fb x y ch scale fg =
     fold (\<lambda>(col, row). fill_rect fb (x + col * scale) (y + row * scale) scale scale fg) (glyph_bits ch)"

definition draw_text :: "framebuffer \<Rightarrow> u32 \<Rightarrow> u32 \<Rightarrow> u32 list \<Rightarrow> u32 \<Rightarrow> u32 \<Rightarrow> ram \<Rightarrow> ram" where
  "draw_text fb x y text scale fg =
     (let advance = (GLYPH_WIDTH + 1) * scale in
      fold (\<lambda>(i, c). draw_char fb (x + of_nat i * advance) y c scale fg) (enumerate 0 text))"

section \<open>Pixels\<close>

locale pixel_store =
  fixes ok :: "'m \<Rightarrow> bool"
    and width :: "'m \<Rightarrow> u32"
    and height :: "'m \<Rightarrow> u32"
    and put :: "u32 \<Rightarrow> u32 \<Rightarrow> u32 \<Rightarrow> 'm \<Rightarrow> 'm"
    and get :: "u32 \<Rightarrow> u32 \<Rightarrow> 'm \<Rightarrow> u32"
  assumes put_ok: "ok m \<Longrightarrow> ok (put x y c m)"
    and put_size: "ok m \<Longrightarrow> width (put x y c m) = width m \<and> height (put x y c m) = height m"
    and put_clipped: "ok m \<Longrightarrow> \<not> (x < width m \<and> y < height m) \<Longrightarrow> put x y c m = m"
    and get_put: "ok m \<Longrightarrow> x < width m \<Longrightarrow> y < height m \<Longrightarrow> x' < width m \<Longrightarrow> y' < height m \<Longrightarrow>
      get x' y' (put x y c m) = (if x' = x \<and> y' = y then c else get x' y' m)"
begin

abbreviation paint :: "(u32 \<times> u32) list \<Rightarrow> u32 \<Rightarrow> 'm \<Rightarrow> 'm" where
  "paint ps c \<equiv> fold (\<lambda>(x, y). put x y c) ps"

lemma paint_ok: "ok m \<Longrightarrow> ok (paint ps c m) \<and> width (paint ps c m) = width m \<and> height (paint ps c m) = height m"
  by (induction ps arbitrary: m) (auto simp: put_ok put_size)

lemma get_paint:
  "ok m \<Longrightarrow> x < width m \<Longrightarrow> y < height m \<Longrightarrow> get x y (paint ps c m) = (if (x, y) \<in> set ps then c else get x y m)"
proof (induction ps arbitrary: m)
  case (Cons p ps)
  obtain px py where p: "p = (px, py)" by fastforce
  show ?case
  proof (cases "px < width m \<and> py < height m")
    case True
    then show ?thesis using Cons.IH[of "put px py c m"] Cons.prems by (auto simp: p put_ok put_size get_put)
  next
    case False
    then show ?thesis using Cons.IH[of m] Cons.prems put_clipped[OF Cons.prems(1) False, of c] by (auto simp: p)
  qed
qed simp

end

text \<open>The geometry the GPU hands out: 32-bit pixels, a pitch with room for a row, no wrap of the address space.\<close>

definition fb_ok :: "framebuffer \<Rightarrow> bool" where
  "fb_ok fb \<longleftrightarrow> fb_bpp fb = 32 \<and> 4 * unat (fb_width fb) \<le> unat (fb_pitch fb) \<and> unat (fb_ptr fb) + fb_size fb \<le> 2 ^ 64"

definition pixel :: "framebuffer \<Rightarrow> u32 \<Rightarrow> u32 \<Rightarrow> ram \<Rightarrow> u32" where
  "pixel fb x y ram = rd32 (load_bytes ram (fb_ptr fb + of_nat (pixel_offset fb x y)) 4)"

lemma pixel_offset_fits:
  assumes "fb_ok fb" "x < fb_width fb" "y < fb_height fb"
  shows "pixel_offset fb x y + 4 \<le> fb_size fb"
proof -
  have "4 * unat x + 4 \<le> unat (fb_pitch fb)" using assms(1,2) by (simp add: fb_ok_def word_less_nat_alt)
  then have "pixel_offset fb x y + 4 \<le> (unat y + 1) * unat (fb_pitch fb)" using assms(1) by (simp add: pixel_offset_def fb_ok_def)
  also have "\<dots> \<le> unat (fb_height fb) * unat (fb_pitch fb)" using assms(3) by (intro mult_le_mono1) (simp add: word_less_nat_alt)
  finally show ?thesis by (simp add: fb_size_def mult.commute)
qed

lemma pixel_offset_apart:
  assumes "fb_ok fb" "x < fb_width fb" "x' < fb_width fb" "y < y'"
  shows "pixel_offset fb x y + 4 \<le> pixel_offset fb x' y'"
proof -
  have "4 * unat x + 4 \<le> unat (fb_pitch fb)" using assms(1,2) by (simp add: fb_ok_def word_less_nat_alt)
  then have "pixel_offset fb x y + 4 \<le> (unat y + 1) * unat (fb_pitch fb)" using assms(1) by (simp add: pixel_offset_def fb_ok_def)
  also have "\<dots> \<le> unat y' * unat (fb_pitch fb)" using assms(4) by (intro mult_le_mono1) (simp add: word_less_nat_alt)
  finally show ?thesis by (simp add: pixel_offset_def)
qed

lemma pixel_offsets_disjoint:
  assumes "fb_ok fb" "x < fb_width fb" "x' < fb_width fb" "(x, y) \<noteq> (x', y')"
  shows "pixel_offset fb x y + 4 \<le> pixel_offset fb x' y' \<or> pixel_offset fb x' y' + 4 \<le> pixel_offset fb x y"
proof (cases "y = y'")
  case True
  then have "unat x \<noteq> unat x'" using assms(4) by (auto simp: word_unat_eq_iff)
  with True assms(1) show ?thesis by (auto simp: pixel_offset_def fb_ok_def)
next
  case False
  then consider "y < y'" | "y' < y" by fastforce
  then show ?thesis using pixel_offset_apart[OF assms(1)] assms(2,3) by cases auto
qed

text \<open>A screen is a framebuffer together with the memory it lies in.\<close>

type_synonym screen = "framebuffer \<times> ram"

definition screen_put :: "u32 \<Rightarrow> u32 \<Rightarrow> u32 \<Rightarrow> screen \<Rightarrow> screen" where
  "screen_put x y c s = (fst s, put_pixel (fst s) x y c (snd s))"

definition screen_get :: "u32 \<Rightarrow> u32 \<Rightarrow> screen \<Rightarrow> u32" where
  "screen_get x y s = pixel (fst s) x y (snd s)"

lemma pixel_address:
  assumes "fb_ok fb" "n + 4 \<le> fb_size fb"
  shows "unat (fb_ptr fb + of_nat n) = unat (fb_ptr fb) + n"
  using assms by (simp add: fb_ok_def unat_word_ariths unat_of_nat)

interpretation screen: pixel_store "\<lambda>s. fb_ok (fst s)" "\<lambda>s. fb_width (fst s)" "\<lambda>s. fb_height (fst s)" screen_put screen_get
proof
  fix s :: screen and x y x' y' c :: u32
  assume ok: "fb_ok (fst s)" and in1: "x < fb_width (fst s)" "y < fb_height (fst s)" and in2: "x' < fb_width (fst s)" "y' < fb_height (fst s)"
  let ?fb = "fst s" and ?a = "fb_ptr (fst s) + of_nat (pixel_offset (fst s) x y)" and ?b = "fb_ptr (fst s) + of_nat (pixel_offset (fst s) x' y')"
  note f1 = pixel_offset_fits[OF ok in1] and f2 = pixel_offset_fits[OF ok in2]
  have a: "unat ?a = unat (fb_ptr ?fb) + pixel_offset ?fb x y" "unat ?b = unat (fb_ptr ?fb) + pixel_offset ?fb x' y'"
    using pixel_address[OF ok f1] pixel_address[OF ok f2] by simp_all
  have bound: "unat ?a + 4 \<le> 2 ^ 64" "unat ?b + 4 \<le> 2 ^ 64" unfolding a using f1 f2 ok by (simp_all add: fb_ok_def)
  have "rd32 (load_bytes (store_at ?a (le32 c) (snd s)) ?b 4) = (if x' = x \<and> y' = y then c else rd32 (load_bytes (snd s) ?b 4))"
  proof (cases "x' = x \<and> y' = y")
    case True
    then show ?thesis by (simp add: load_store_same)
  next
    case False
    then have "(x, y) \<noteq> (x', y')" by auto
    from pixel_offsets_disjoint[OF ok in1(1) in2(1) this]
    have "block ?b 4 \<inter> block ?a 4 = {}" using a bound by (auto simp: block_interval)
    then have "load_bytes (store_at ?a (le32 c) (snd s)) ?b 4 = load_bytes (snd s) ?b 4"
      by (intro load_store_disjoint) simp_all
    with False show ?thesis by auto
  qed
  then show "screen_get x' y' (screen_put x y c s) = (if x' = x \<and> y' = y then c else screen_get x' y' s)"
    using in1 unfolding screen_get_def screen_put_def pixel_def put_pixel_def fst_conv snd_conv by (simp only: not_le[symmetric] simp_thms if_False)
qed (auto simp: screen_put_def put_pixel_def not_le)

lemma screen_paint:
  "fold (\<lambda>(x, y). screen_put x y c) ps s = (fst s, fold (\<lambda>(x, y). put_pixel (fst s) x y c) ps (snd s))"
  by (induction ps arbitrary: s) (auto simp: screen_put_def)

lemma pixel_paint:
  assumes "fb_ok fb" "x < fb_width fb" "y < fb_height fb"
  shows "pixel fb x y (fold (\<lambda>(x, y). put_pixel fb x y c) ps ram) = (if (x, y) \<in> set ps then c else pixel fb x y ram)"
  using screen.get_paint[where m = "(fb, ram)" and x = x and y = y and ps = ps and c = c] assms by (simp add: screen_paint screen_get_def)

section \<open>Rectangles\<close>

lemma set_urange: "x \<in> set (urange a b) \<longleftrightarrow> a \<le> x \<and> x < b"
proof -
  have "x \<in> set (urange a b) \<longleftrightarrow> (\<exists>n. unat a \<le> n \<and> n < unat b \<and> x = of_nat n)" by (auto simp: urange_def)
  also have "\<dots> \<longleftrightarrow> unat a \<le> unat x \<and> unat x < unat b"
  proof
    assume "\<exists>n. unat a \<le> n \<and> n < unat b \<and> x = of_nat n"
    then obtain n where n: "unat a \<le> n" "n < unat b" "x = of_nat n" by blast
    then have "unat x = n" using unat_bound[of b] by (simp add: unat_of_nat)
    with n show "unat a \<le> unat x \<and> unat x < unat b" by simp
  qed (auto intro!: exI[of _ "unat x"])
  finally show ?thesis by (simp add: word_le_nat_alt word_less_nat_alt)
qed

lemma set_rect_points: "(x, y) \<in> set (rect_points x0 x1 y0 y1) \<longleftrightarrow> x0 \<le> x \<and> x < x1 \<and> y0 \<le> y \<and> y < y1"
  by (auto simp: rect_points_def set_urange image_iff intro!: bexI[of _ y])

lemma pixel_fill_rect:
  assumes "fb_ok fb" "x < fb_width fb" "y < fb_height fb"
  shows "pixel fb x y (fill_rect fb x0 y0 w h c ram) =
    (if x0 \<le> x \<and> x < x0 + w \<and> y0 \<le> y \<and> y < y0 + h then c else pixel fb x y ram)"
  using assms by (simp add: fill_rect_def Let_def pixel_paint set_rect_points)

lemma put_pixel_outside:
  assumes ok: "fb_ok fb" and a: "a \<notin> block (fb_ptr fb) (fb_size fb)"
  shows "put_pixel fb x y c ram a = ram a"
proof (cases "x < fb_width fb \<and> y < fb_height fb")
  case True
  have "block (fb_ptr fb + of_nat (pixel_offset fb x y)) 4 \<subseteq> block (fb_ptr fb) (fb_size fb)"
    using pixel_offset_fits[OF ok] True ok by (intro block_sub) (auto simp: fb_ok_def)
  with a True show ?thesis by (auto simp: put_pixel_def intro!: store_at_outside)
qed (auto simp: put_pixel_def not_less)

lemma fill_rect_outside:
  assumes "fb_ok fb" "a \<notin> block (fb_ptr fb) (fb_size fb)"
  shows "fill_rect fb x0 y0 w h c ram a = ram a"
proof -
  have "fold (\<lambda>(x, y). put_pixel fb x y c) ps ram a = ram a" for ps ram
    by (induction ps arbitrary: ram) (auto simp: put_pixel_outside[OF assms])
  then show ?thesis by (simp add: fill_rect_def Let_def)
qed

text \<open>
  Scrolling by n rows moves every pixel up n rows, fills the n rows at the bottom with the
  background colour and changes no memory outside the framebuffer; scrolling by the height or more
  clears the screen.
\<close>

theorem scroll_up_spec:
  assumes ok: "fb_ok fb" and xy: "x < fb_width fb" "y < fb_height fb"
  shows "pixel fb x y (scroll_up fb n bg ram) = (if unat y + unat n < unat (fb_height fb) then pixel fb x (y + n) ram else bg) \<and>
    (a \<notin> block (fb_ptr fb) (fb_size fb) \<longrightarrow> scroll_up fb n bg ram a = ram a)"
proof (cases "n \<ge> fb_height fb")
  case True
  then show ?thesis using pixel_fill_rect[OF ok xy] xy fill_rect_outside[OF ok] by (auto simp: scroll_up_def fb_clear_def word_le_nat_alt)
next
  case False
  let ?rows = "fb_height fb - n" and ?P = "unat (fb_pitch fb)"
  let ?bytes = "load_bytes ram (fb_ptr fb + of_nat (unat n * ?P)) (unat ?rows * ?P)"
  let ?moved = "store_at (fb_ptr fb) ?bytes ram"
  have rows: "unat ?rows = unat (fb_height fb) - unat n" "unat n < unat (fb_height fb)"
    using False by (simp_all add: not_le unat_sub_if' word_less_nat_alt)
  have scroll: "scroll_up fb n bg ram = fill_rect fb 0 ?rows (fb_width fb) n bg ?moved"
    using False by (simp add: scroll_up_def Let_def)
  have size: "unat ?rows * ?P \<le> fb_size fb" using rows by (simp add: fb_size_def mult.commute)
  have inside: "?rows \<le> y \<longleftrightarrow> \<not> unat y + unat n < unat (fb_height fb)" using rows by (auto simp: word_le_nat_alt)
  have strip: "y < ?rows + n" using xy by simp
  have moved: "pixel fb x y ?moved = pixel fb x (y + n) ram" if lt: "unat y + unat n < unat (fb_height fb)"
  proof -
    have yn: "unat (y + n) = unat y + unat n" using lt unat_bound[of "fb_height fb"] by (simp add: unat_word_ariths)
    have off: "pixel_offset fb x (y + n) = unat n * ?P + pixel_offset fb x y" unfolding pixel_offset_def yn by (simp add: algebra_simps)
    have lim: "pixel_offset fb x y + 4 \<le> unat ?rows * ?P"
    proof -
      have "4 * unat x + 4 \<le> ?P" using ok xy(1) by (simp add: fb_ok_def word_less_nat_alt)
      then have "pixel_offset fb x y + 4 \<le> (unat y + 1) * ?P" using ok by (simp add: pixel_offset_def fb_ok_def)
      also have "\<dots> \<le> unat ?rows * ?P" using lt rows by (intro mult_le_mono1) simp
      finally show ?thesis .
    qed
    have "load_bytes ?moved (fb_ptr fb) (unat ?rows * ?P) = ?bytes"
      using size ok by (intro load_store_same) (auto simp: fb_ok_def)
    then have "load_bytes ?moved (fb_ptr fb + of_nat (pixel_offset fb x y)) 4 = seg ?bytes (pixel_offset fb x y) 4"
      using load_bytes_seg[OF lim, of ?moved "fb_ptr fb"] by simp
    also have "\<dots> = load_bytes ram (fb_ptr fb + of_nat (unat n * ?P) + of_nat (pixel_offset fb x y)) 4"
      using load_bytes_seg[OF lim, of ram "fb_ptr fb + of_nat (unat n * ?P)"] by simp
    finally show ?thesis by (simp add: pixel_def off add.assoc)
  qed
  have "pixel fb x y (scroll_up fb n bg ram) = (if ?rows \<le> y then bg else pixel fb x y ?moved)"
    unfolding scroll pixel_fill_rect[OF ok xy] using xy strip by auto
  moreover have "a \<notin> block (fb_ptr fb) (fb_size fb) \<longrightarrow> scroll_up fb n bg ram a = ram a"
  proof
    assume a: "a \<notin> block (fb_ptr fb) (fb_size fb)"
    then have "a \<notin> block (fb_ptr fb) (length ?bytes)" using size by (auto simp: block_def)
    then show "scroll_up fb n bg ram a = ram a" unfolding scroll fill_rect_outside[OF ok a] by (rule store_at_outside)
  qed
  ultimately show ?thesis using inside moved by auto
qed

definition demo_fb :: framebuffer where
  "demo_fb = \<lparr>fb_ptr = 0x3C000000, fb_width = 640, fb_height = 480, fb_pitch = 2560, fb_bpp = 32\<rparr>"

theorem scroll_up_spec_witness:
  "pixel demo_fb 5 470 (scroll_up demo_fb 20 0xFF (\<lambda>_. 0)) = 0xFF \<and> pixel demo_fb 5 459 (scroll_up demo_fb 20 0xFF (\<lambda>_. 0)) = pixel demo_fb 5 479 (\<lambda>_. 0)"
  using scroll_up_spec[of demo_fb 5 470 20 "0xFF" "\<lambda>_. 0"] scroll_up_spec[of demo_fb 5 459 20 "0xFF" "\<lambda>_. 0"]
  by (simp add: demo_fb_def fb_ok_def fb_size_def)

end
