(* ===== verification/Usb.thy ===== *)
theory Usb
  imports Sd Cache Ram Timer
begin

text \<open>
  \<^verbatim>\<open>src/src/usb.rs\<close>: the host driver for the dwc2 controller. The hardware is the record \<open>usb_host\<close>:
  registers and tick counter as in \<open>Sd\<close>, memory that the controller reaches by DMA, the cache
  maintenance instruction, \<^verbatim>\<open>timer::sleep_ticks\<close>, and the addresses at which the stack arrays of
  \<^verbatim>\<open>control_transfer\<close> lie. A \<^verbatim>\<open>&mut [u8]\<close> argument is its address and its bytes; the bytes after the call are
  part of the result. Polling loops take fuel, since only the tick counter ends them.
\<close>

unbundle bit_operations_syntax

section \<open>Registers\<close>

definition USB_BASE :: u64 where "USB_BASE = PERIPHERAL_BASE + 0x00980000"
definition GAHBCFG :: u64 where "GAHBCFG = USB_BASE + 0x008"
definition GUSBCFG :: u64 where "GUSBCFG = USB_BASE + 0x00C"
definition GRSTCTL :: u64 where "GRSTCTL = USB_BASE + 0x010"
definition GSNPSID :: u64 where "GSNPSID = USB_BASE + 0x040"
definition HCFG :: u64 where "HCFG = USB_BASE + 0x400"
definition HPRT :: u64 where "HPRT = USB_BASE + 0x440"
definition HCCHAR0 :: u64 where "HCCHAR0 = USB_BASE + 0x500"
definition HCINT0 :: u64 where "HCINT0 = USB_BASE + 0x508"
definition HCTSIZ0 :: u64 where "HCTSIZ0 = USB_BASE + 0x510"
definition HCDMA0 :: u64 where "HCDMA0 = USB_BASE + 0x514"

lemmas usb_regs = USB_BASE_def PERIPHERAL_BASE_def GAHBCFG_def GUSBCFG_def GRSTCTL_def GSNPSID_def HCFG_def
  HPRT_def HCCHAR0_def HCINT0_def HCTSIZ0_def HCDMA0_def

definition GRSTCTL_CSFTRST :: u32 where "GRSTCTL_CSFTRST = push_bit 0 1"
definition GRSTCTL_TXFFLSH :: u32 where "GRSTCTL_TXFFLSH = push_bit 5 1"
definition GRSTCTL_RXFFLSH :: u32 where "GRSTCTL_RXFFLSH = push_bit 4 1"
definition GRSTCTL_AHBIDLE :: u32 where "GRSTCTL_AHBIDLE = push_bit 31 1"
definition GAHBCFG_DMA_EN :: u32 where "GAHBCFG_DMA_EN = push_bit 5 1"
definition GUSBCFG_FORCE_HOST :: u32 where "GUSBCFG_FORCE_HOST = push_bit 29 1"
definition GUSBCFG_FORCE_DEVICE :: u32 where "GUSBCFG_FORCE_DEVICE = push_bit 30 1"
definition HPRT_CONN_STS :: u32 where "HPRT_CONN_STS = push_bit 0 1"
definition HPRT_CONN_DET :: u32 where "HPRT_CONN_DET = push_bit 1 1"
definition HPRT_ENA :: u32 where "HPRT_ENA = push_bit 2 1"
definition HPRT_ENA_CHNG :: u32 where "HPRT_ENA_CHNG = push_bit 3 1"
definition HPRT_RST :: u32 where "HPRT_RST = push_bit 8 1"
definition HPRT_PWR :: u32 where "HPRT_PWR = push_bit 12 1"
definition HPRT_SPD_SHIFT :: nat where "HPRT_SPD_SHIFT = 17"
definition HPRT_SPD_MASK :: u32 where "HPRT_SPD_MASK = push_bit HPRT_SPD_SHIFT 3"

definition HCINT_CHHLTD :: u32 where "HCINT_CHHLTD = push_bit 1 1"
definition HCINT_STALL :: u32 where "HCINT_STALL = push_bit 3 1"
definition HCINT_NAK :: u32 where "HCINT_NAK = push_bit 4 1"
definition HCINT_XACTERR :: u32 where "HCINT_XACTERR = push_bit 7 1"
definition HCINT_ERROR_MASK :: u32 where
  "HCINT_ERROR_MASK = HCINT_STALL OR HCINT_XACTERR OR push_bit 2 1 OR push_bit 10 1"

lemmas hcint_bits = HCINT_CHHLTD_def HCINT_STALL_def HCINT_NAK_def HCINT_XACTERR_def HCINT_ERROR_MASK_def

definition EP_TYPE_CONTROL :: u32 where "EP_TYPE_CONTROL = 0"
definition EP_TYPE_INTERRUPT :: u32 where "EP_TYPE_INTERRUPT = 3"
definition PID_DATA1 :: u32 where "PID_DATA1 = 2"
definition PID_SETUP :: u32 where "PID_SETUP = 3"

section \<open>Types\<close>

datatype speed = High | Full | Low

datatype usb_error = UsbTimeout | NoDevice | TransferError u32 | Stall

record usb_device =
  dev_addr :: u32
  max_packet_size :: u32
  low_speed :: bool

record 'h usb_host = "'h sd_host" +
  buf_put :: "u64 \<Rightarrow> u8 list \<Rightarrow> 'h \<Rightarrow> 'h"
  buf_get :: "u64 \<Rightarrow> nat \<Rightarrow> 'h \<Rightarrow> u8 list"
  dc_civac :: "u64 \<Rightarrow> 'h \<Rightarrow> 'h"
  ctr_el0 :: u64
  sleep :: "u64 \<Rightarrow> 'h \<Rightarrow> 'h"
  at_setup :: u64
  at_empty :: u64

type_synonym ('h, 'a) usb_io = "('h, usb_error, 'a) io"

definition u_read :: "'h usb_host \<Rightarrow> u64 \<Rightarrow> ('h, u32) usb_io" where
  "u_read host reg h = (case mmio_read host reg h of (v, h') \<Rightarrow> (Inr v, h'))"

definition u_write :: "'h usb_host \<Rightarrow> u64 \<Rightarrow> u32 \<Rightarrow> ('h, unit) usb_io" where
  "u_write host reg v h = (Inr (), mmio_write host reg v h)"

definition u_ticks :: "'h usb_host \<Rightarrow> ('h, u64) usb_io" where
  "u_ticks host h = (case timer_ticks host h of (t, h') \<Rightarrow> (Inr t, h'))"

definition u_sleep :: "'h usb_host \<Rightarrow> u64 \<Rightarrow> ('h, unit) usb_io" where
  "u_sleep host n h = (Inr (), sleep host n h)"

text \<open>\<^verbatim>\<open>cache::clean_and_invalidate_range\<close>, one instruction per line of the range.\<close>

definition u_clean :: "'h usb_host \<Rightarrow> nat \<Rightarrow> u64 \<Rightarrow> nat \<Rightarrow> ('h, 'e, unit) io" where
  "u_clean host fuel a n h =
     (case clean_and_invalidate_range fuel (ctr_el0 host) a (of_nat n) of
        None \<Rightarrow> (Inl OutOfFuel, h)
      | Some ls \<Rightarrow> (Inr (), fold (dc_civac host) ls h))"

definition u_put :: "'h usb_host \<Rightarrow> u64 \<Rightarrow> u8 list \<Rightarrow> ('h, unit) usb_io" where
  "u_put host a bs h = (Inr (), buf_put host a bs h)"

definition u_get :: "'h usb_host \<Rightarrow> u64 \<Rightarrow> nat \<Rightarrow> ('h, u8 list) usb_io" where
  "u_get host a n h = (Inr (buf_get host a n h), h)"

section \<open>Polling\<close>

primrec usb_poll :: "'h usb_host \<Rightarrow> nat \<Rightarrow> u64 \<Rightarrow> ('h, bool) usb_io \<Rightarrow> ('h, unit) usb_io" where
  "usb_poll host 0 deadline cond = io_throw OutOfFuel"
| "usb_poll host (Suc fuel) deadline cond =
     io_bind cond (\<lambda>b.
       if b then
         io_bind (u_ticks host) (\<lambda>t.
           if t > deadline then io_throw (Err UsbTimeout) else usb_poll host fuel deadline cond)
       else io_return ())"

definition usb_wait_while :: "'h usb_host \<Rightarrow> nat \<Rightarrow> u64 \<Rightarrow> ('h, bool) usb_io \<Rightarrow> ('h, unit) usb_io" where
  "usb_wait_while host fuel timeout cond =
     io_bind (u_ticks host) (\<lambda>t. usb_poll host fuel (t + timeout) cond)"

text \<open>The conditions \<^verbatim>\<open>mmio::read(reg) & mask == 0\<close> and \<^verbatim>\<open>!= 0\<close>.\<close>

definition reg_clear :: "'h usb_host \<Rightarrow> u64 \<Rightarrow> u32 \<Rightarrow> ('h, bool) usb_io" where
  "reg_clear host reg m = io_bind (u_read host reg) (\<lambda>v. io_return (v AND m = 0))"

definition reg_set :: "'h usb_host \<Rightarrow> u64 \<Rightarrow> u32 \<Rightarrow> ('h, bool) usb_io" where
  "reg_set host reg m = io_bind (u_read host reg) (\<lambda>v. io_return (v AND m \<noteq> 0))"

section \<open>Bringing up the controller and the root port\<close>

definition reset_core :: "'h usb_host \<Rightarrow> nat \<Rightarrow> ('h, unit) usb_io" where
  "reset_core host fuel =
     io_bind (usb_wait_while host fuel 200 (reg_clear host GRSTCTL GRSTCTL_AHBIDLE)) (\<lambda>_.
     io_bind (u_write host GRSTCTL GRSTCTL_CSFTRST) (\<lambda>_.
     io_bind (usb_wait_while host fuel 200 (reg_set host GRSTCTL GRSTCTL_CSFTRST)) (\<lambda>_.
     io_bind (usb_wait_while host fuel 200 (reg_clear host GRSTCTL GRSTCTL_AHBIDLE)) (\<lambda>_.
     io_bind (u_sleep host 5) (\<lambda>_.
     io_bind (u_read host GUSBCFG) (\<lambda>usbcfg.
     io_bind (u_write host GUSBCFG ((usbcfg OR GUSBCFG_FORCE_HOST) AND NOT GUSBCFG_FORCE_DEVICE)) (\<lambda>_.
     io_bind (u_sleep host 3) (\<lambda>_.
     io_bind (u_read host GAHBCFG) (\<lambda>ahbcfg.
       u_write host GAHBCFG (ahbcfg OR GAHBCFG_DMA_EN))))))))))"

text \<open>The write-1-to-clear bits of HPRT that a read-modify-write leaves out.\<close>

definition hprt_w1c :: u32 where
  "hprt_w1c = HPRT_CONN_DET OR HPRT_ENA_CHNG OR push_bit 5 1 OR push_bit 4 1"

definition power_on_port :: "'h usb_host \<Rightarrow> ('h, unit) usb_io" where
  "power_on_port host =
     io_bind (u_read host HPRT) (\<lambda>hprt. u_write host HPRT ((hprt AND NOT hprt_w1c) OR HPRT_PWR))"

definition port_connected :: "'h usb_host \<Rightarrow> ('h, bool) usb_io" where
  "port_connected host = io_bind (u_read host HPRT) (\<lambda>v. io_return (v AND HPRT_CONN_STS \<noteq> 0))"

definition speed_of_bits :: "u32 \<Rightarrow> speed" where
  "speed_of_bits b = (if b = 0 then High else if b = 1 then Full else Low)"

definition reset_port :: "'h usb_host \<Rightarrow> ('h, speed) usb_io" where
  "reset_port host =
     io_bind (u_read host HPRT) (\<lambda>hprt.
     io_bind (u_write host HPRT ((hprt AND NOT hprt_w1c) OR HPRT_RST)) (\<lambda>_.
     io_bind (u_sleep host 6) (\<lambda>_.
     io_bind (u_read host HPRT) (\<lambda>hprt.
     io_bind (u_write host HPRT (hprt AND NOT (HPRT_RST OR hprt_w1c))) (\<lambda>_.
     io_bind (u_sleep host 2) (\<lambda>_.
     io_bind (port_connected host) (\<lambda>connected.
       if \<not> connected then io_throw (Err NoDevice)
       else
         io_bind (u_read host HPRT) (\<lambda>v.
           io_return (speed_of_bits (drop_bit HPRT_SPD_SHIFT (v AND HPRT_SPD_MASK))))))))))) "

definition usb_init :: "'h usb_host \<Rightarrow> nat \<Rightarrow> ('h, speed) usb_io" where
  "usb_init host fuel =
     io_bind (reset_core host fuel) (\<lambda>_.
     io_bind (u_read host HCFG) (\<lambda>hcfg.
     io_bind (u_write host HCFG ((hcfg AND NOT 3) OR 1)) (\<lambda>_.
     io_bind (u_write host GRSTCTL (GRSTCTL_RXFFLSH OR GRSTCTL_TXFFLSH OR push_bit 6 0x10)) (\<lambda>_.
     io_bind (usb_wait_while host fuel 200 (reg_set host GRSTCTL (GRSTCTL_RXFFLSH OR GRSTCTL_TXFFLSH))) (\<lambda>_.
     io_bind (power_on_port host) (\<lambda>_.
     io_bind (u_sleep host 10) (\<lambda>_.
     io_bind (port_connected host) (\<lambda>connected.
       if \<not> connected then io_throw (Err NoDevice) else reset_port host))))))))"

definition core_id :: "'h usb_host \<Rightarrow> ('h, u32) usb_io" where
  "core_id host = u_read host GSNPSID"

section \<open>Transactions\<close>

definition hcchar :: "bool \<Rightarrow> u32 \<Rightarrow> u32 \<Rightarrow> u32 \<Rightarrow> u32 \<Rightarrow> bool \<Rightarrow> u32" where
  "hcchar ep_dir_in ep_num ep_type addr mps low =
     (mps AND 0x7FF)
       OR push_bit 11 (ep_num AND 0xF)
       OR push_bit 15 (of_bool ep_dir_in)
       OR push_bit 17 (of_bool low)
       OR push_bit 18 ep_type
       OR push_bit 20 1
       OR push_bit 22 (addr AND 0x7F)"

definition hctsiz :: "nat \<Rightarrow> nat \<Rightarrow> u32 \<Rightarrow> u32" where
  "hctsiz xfer_size pkt_cnt pid =
     (of_nat xfer_size AND 0x7FFFF) OR push_bit 19 (of_nat pkt_cnt AND 0x3FF) OR push_bit 29 pid"

text \<open>The end of a transaction: the status register decides between the errors and success.\<close>

definition transact_end :: "'h usb_host \<Rightarrow> nat \<Rightarrow> bool \<Rightarrow> u64 \<Rightarrow> nat \<Rightarrow> u32 \<Rightarrow> ('h, nat \<times> u8 list) usb_io" where
  "transact_end host fuel ep_dir_in addr xfer_size hcint =
     (if hcint AND HCINT_STALL \<noteq> 0 then io_throw (Err Stall)
      else if hcint AND (HCINT_XACTERR OR push_bit 2 1 OR push_bit 10 1) \<noteq> 0 then io_throw (Err (TransferError hcint))
      else if hcint AND HCINT_NAK \<noteq> 0 then io_throw (Err (TransferError hcint))
      else
        io_bind (u_read host HCTSIZ0) (\<lambda>v.
          let remaining = unat (v AND 0x7FFFF); actual = xfer_size - remaining in
          io_bind (if ep_dir_in \<and> actual > 0 then u_clean host fuel addr actual else io_return ()) (\<lambda>_.
          io_bind (u_get host addr xfer_size) (\<lambda>buf. io_return (actual, buf)))))"

definition transact ::
  "'h usb_host \<Rightarrow> nat \<Rightarrow> usb_device \<Rightarrow> u32 \<Rightarrow> u32 \<Rightarrow> bool \<Rightarrow> u32 \<Rightarrow> u64 \<Rightarrow> u8 list \<Rightarrow> ('h, nat \<times> u8 list) usb_io" where
  "transact host fuel dev ep_num ep_type ep_dir_in pid addr buf =
     (let xfer_size = length buf; mps = unat (max_packet_size dev) in
      if xfer_size \<noteq> 0 \<and> mps = 0 then io_throw Panic
      else
        (let pkt_cnt = (if xfer_size = 0 then 1 else (xfer_size + mps - 1) div mps) in
         io_bind (u_put host addr buf) (\<lambda>_.
         io_bind (if ep_dir_in then io_return () else u_clean host fuel addr (max xfer_size 1)) (\<lambda>_.
         io_bind (u_write host HCDMA0 (ucast addr)) (\<lambda>_.
         io_bind (u_write host HCTSIZ0 (hctsiz xfer_size pkt_cnt pid)) (\<lambda>_.
         io_bind (u_write host HCINT0 0xFFFFFFFF) (\<lambda>_.
         io_bind (u_write host HCCHAR0
           (hcchar ep_dir_in ep_num ep_type (dev_addr dev) (max_packet_size dev) (low_speed dev) OR push_bit 31 1)) (\<lambda>_.
         io_bind (usb_wait_while host fuel 300 (reg_clear host HCINT0 (HCINT_CHHLTD OR HCINT_ERROR_MASK))) (\<lambda>_.
         io_bind (u_read host HCINT0) (\<lambda>hcint.
         io_bind (u_write host HCINT0 0xFFFFFFFF) (\<lambda>_.
           transact_end host fuel ep_dir_in addr xfer_size hcint)))))))))))"

definition setup_packet :: "u8 \<Rightarrow> u8 \<Rightarrow> u16 \<Rightarrow> u16 \<Rightarrow> nat \<Rightarrow> u8 list" where
  "setup_packet bm_request_type b_request w_value w_index len =
     [bm_request_type, b_request,
      ucast (w_value AND 0xFF), ucast (drop_bit 8 w_value),
      ucast (w_index AND 0xFF), ucast (drop_bit 8 w_index),
      ucast ((of_nat len :: u16) AND 0xFF), ucast (drop_bit 8 (of_nat len :: u16))]"

definition control_transfer ::
  "'h usb_host \<Rightarrow> nat \<Rightarrow> usb_device \<Rightarrow> u8 \<Rightarrow> u8 \<Rightarrow> u16 \<Rightarrow> u16 \<Rightarrow> u64 \<Rightarrow> u8 list \<Rightarrow> ('h, nat \<times> u8 list) usb_io" where
  "control_transfer host fuel dev bm_request_type b_request w_value w_index addr buf =
     (let dir_in = (bm_request_type AND 0x80 \<noteq> 0);
          setup = setup_packet bm_request_type b_request w_value w_index (length buf) in
      io_bind (transact host fuel dev 0 EP_TYPE_CONTROL False PID_SETUP (at_setup host) setup) (\<lambda>_.
      io_bind (if buf = [] then io_return (0, [])
               else if dir_in then transact host fuel dev 0 EP_TYPE_CONTROL True PID_DATA1 addr buf
               else transact host fuel dev 0 EP_TYPE_CONTROL False PID_DATA1 addr buf) (\<lambda>(n, buf').
      let status_dir_in = (buf = [] \<or> \<not> dir_in) in
      io_bind (transact host fuel dev 0 EP_TYPE_CONTROL status_dir_in PID_DATA1 (at_empty host) []) (\<lambda>_.
        io_return (n, buf')))))"

section \<open>Requests\<close>

definition REQ_GET_STATUS :: u8 where "REQ_GET_STATUS = 0x00"
definition REQ_CLEAR_FEATURE :: u8 where "REQ_CLEAR_FEATURE = 0x01"
definition REQ_SET_FEATURE :: u8 where "REQ_SET_FEATURE = 0x03"
definition REQ_SET_ADDRESS :: u8 where "REQ_SET_ADDRESS = 0x05"
definition REQ_GET_DESCRIPTOR :: u8 where "REQ_GET_DESCRIPTOR = 0x06"
definition REQ_SET_CONFIGURATION :: u8 where "REQ_SET_CONFIGURATION = 0x09"
definition DESC_TYPE_DEVICE :: u16 where "DESC_TYPE_DEVICE = 1"
definition DESC_TYPE_CONFIGURATION :: u16 where "DESC_TYPE_CONFIGURATION = 2"
definition DESC_TYPE_HUB :: u16 where "DESC_TYPE_HUB = 0x29"

definition get_device_descriptor :: "'h usb_host \<Rightarrow> nat \<Rightarrow> usb_device \<Rightarrow> u64 \<Rightarrow> u8 list \<Rightarrow> ('h, nat \<times> u8 list) usb_io" where
  "get_device_descriptor host fuel dev addr out =
     control_transfer host fuel dev 0x80 REQ_GET_DESCRIPTOR (push_bit 8 DESC_TYPE_DEVICE) 0 addr out"

definition get_configuration_descriptor :: "'h usb_host \<Rightarrow> nat \<Rightarrow> usb_device \<Rightarrow> u64 \<Rightarrow> u8 list \<Rightarrow> ('h, nat \<times> u8 list) usb_io" where
  "get_configuration_descriptor host fuel dev addr out =
     control_transfer host fuel dev 0x80 REQ_GET_DESCRIPTOR (push_bit 8 DESC_TYPE_CONFIGURATION) 0 addr out"

definition set_address :: "'h usb_host \<Rightarrow> nat \<Rightarrow> usb_device \<Rightarrow> u32 \<Rightarrow> ('h, usb_device) usb_io" where
  "set_address host fuel dev new_addr =
     io_bind (control_transfer host fuel dev 0x00 REQ_SET_ADDRESS (ucast new_addr) 0 (at_empty host) []) (\<lambda>_.
     io_bind (u_sleep host 1) (\<lambda>_.
       io_return (dev\<lparr>dev_addr := new_addr\<rparr>)))"

definition set_configuration :: "'h usb_host \<Rightarrow> nat \<Rightarrow> usb_device \<Rightarrow> u8 \<Rightarrow> ('h, unit) usb_io" where
  "set_configuration host fuel dev config =
     io_bind (control_transfer host fuel dev 0x00 REQ_SET_CONFIGURATION (ucast config) 0 (at_empty host) []) (\<lambda>_. io_return ())"

definition hub_get_descriptor :: "'h usb_host \<Rightarrow> nat \<Rightarrow> usb_device \<Rightarrow> u64 \<Rightarrow> u8 list \<Rightarrow> ('h, nat \<times> u8 list) usb_io" where
  "hub_get_descriptor host fuel dev addr out =
     control_transfer host fuel dev 0xA0 REQ_GET_DESCRIPTOR (push_bit 8 DESC_TYPE_HUB) 0 addr out"

definition hub_set_port_feature :: "'h usb_host \<Rightarrow> nat \<Rightarrow> usb_device \<Rightarrow> u16 \<Rightarrow> u16 \<Rightarrow> ('h, unit) usb_io" where
  "hub_set_port_feature host fuel dev port feature =
     io_bind (control_transfer host fuel dev 0x23 REQ_SET_FEATURE feature port (at_empty host) []) (\<lambda>_. io_return ())"

definition hub_clear_port_feature :: "'h usb_host \<Rightarrow> nat \<Rightarrow> usb_device \<Rightarrow> u16 \<Rightarrow> u16 \<Rightarrow> ('h, unit) usb_io" where
  "hub_clear_port_feature host fuel dev port feature =
     io_bind (control_transfer host fuel dev 0x23 REQ_CLEAR_FEATURE feature port (at_empty host) []) (\<lambda>_. io_return ())"

text \<open>\<open>at\<close> is where the four-byte array of the function lies.\<close>

definition hub_get_port_status :: "'h usb_host \<Rightarrow> nat \<Rightarrow> u64 \<Rightarrow> usb_device \<Rightarrow> u16 \<Rightarrow> ('h, u8 list) usb_io" where
  "hub_get_port_status host fuel at dev port =
     io_bind (control_transfer host fuel dev 0xA3 REQ_GET_STATUS 0 port at (replicate 4 0)) (\<lambda>(n, buf). io_return buf)"

definition PORT_FEATURE_CONNECTION :: nat where "PORT_FEATURE_CONNECTION = 0"
definition PORT_FEATURE_RESET :: u16 where "PORT_FEATURE_RESET = 4"
definition PORT_FEATURE_POWER :: u16 where "PORT_FEATURE_POWER = 8"
definition PORT_FEATURE_C_CONNECTION :: u16 where "PORT_FEATURE_C_CONNECTION = 16"
definition PORT_FEATURE_C_RESET :: u16 where "PORT_FEATURE_C_RESET = 20"

text \<open>\<^verbatim>\<open>let _ = ...\<close>: the result is dropped, a panic is not.\<close>

definition io_ignore :: "('s, 'e, 'a) io \<Rightarrow> ('s, 'e, unit) io" where
  "io_ignore m s =
     (case m s of
        (Inl (Err e), s') \<Rightarrow> (Inr (), s')
      | (Inl Panic, s') \<Rightarrow> (Inl Panic, s')
      | (Inl OutOfFuel, s') \<Rightarrow> (Inl OutOfFuel, s')
      | (Inr x, s') \<Rightarrow> (Inr (), s'))"

definition port_speed :: "u16 \<Rightarrow> speed" where
  "port_speed port_status =
     (if port_status AND push_bit 9 1 \<noteq> 0 then Low
      else if port_status AND push_bit 10 1 \<noteq> 0 then High else Full)"

definition hub_power_and_reset_port :: "'h usb_host \<Rightarrow> nat \<Rightarrow> u64 \<Rightarrow> usb_device \<Rightarrow> u16 \<Rightarrow> ('h, speed option) usb_io" where
  "hub_power_and_reset_port host fuel at dev port =
     io_bind (hub_set_port_feature host fuel dev port PORT_FEATURE_POWER) (\<lambda>_.
     io_bind (u_sleep host 10) (\<lambda>_.
     io_bind (hub_get_port_status host fuel at dev port) (\<lambda>status.
       if rd16 [status ! 0, status ! 1] AND push_bit PORT_FEATURE_CONNECTION 1 = 0 then io_return None
       else
         io_bind (hub_set_port_feature host fuel dev port PORT_FEATURE_RESET) (\<lambda>_.
         io_bind (u_sleep host 6) (\<lambda>_.
         io_bind (io_ignore (hub_clear_port_feature host fuel dev port PORT_FEATURE_C_RESET)) (\<lambda>_.
         io_bind (io_ignore (hub_clear_port_feature host fuel dev port PORT_FEATURE_C_CONNECTION)) (\<lambda>_.
         io_bind (u_sleep host 2) (\<lambda>_.
         io_bind (hub_get_port_status host fuel at dev port) (\<lambda>status.
           io_return (Some (port_speed (rd16 [status ! 0, status ! 1]))))))))))))"

definition interrupt_in :: "'h usb_host \<Rightarrow> nat \<Rightarrow> usb_device \<Rightarrow> u32 \<Rightarrow> u64 \<Rightarrow> u8 list \<Rightarrow> ('h, nat \<times> u8 list) usb_io" where
  "interrupt_in host fuel dev ep_num addr buf h =
     (case transact host fuel dev ep_num EP_TYPE_INTERRUPT True PID_DATA1 addr buf h of
        (Inl (Err (TransferError hcint)), h') \<Rightarrow>
          if hcint AND HCINT_NAK \<noteq> 0 then (Inr (0, buf_get host addr (length buf) h'), h')
          else (Inl (Err (TransferError hcint)), h')
      | (r, h') \<Rightarrow> (r, h'))"

end
