(* ===== verification/Usb_Controller.thy ===== *)
theory Usb_Controller
  imports Usb
begin

text \<open>
  What the USB driver relies on of the controller, as the locale \<open>usb_controller\<close>: the registers of
  channel 0 in DMA mode, over a bus that answers transactions. A transaction is a token decoded from
  the channel registers; the answer of the bus is a parameter, and so is the status word with which
  the controller reports it: only the bits that tell the answers apart are fixed (\<open>status_ok\<close>), and of
  the size register only the count of bytes left. The channel halts at any time before the driver gives
  up, after any number of status reads. In the locale the driver is shown to implement the
  transaction-level specification \<open>exchange\<close> and \<open>control_exchange\<close>; \<open>sim_usb\<close> is a controller that has
  the behaviour.
\<close>

unbundle bit_operations_syntax

section \<open>The bus and the channel\<close>

record usb_token =
  tk_addr :: u32
  tk_ep :: u32
  tk_type :: u32
  tk_in :: bool
  tk_low :: bool
  tk_mps :: u32
  tk_pid :: u32
  tk_len :: nat
  tk_pkts :: nat

datatype usb_reply = Ack "u8 list" | Nak | Stalled | BusError

type_synonym 'b usb_bus = "usb_token \<Rightarrow> u8 list \<Rightarrow> 'b \<Rightarrow> usb_reply \<times> 'b"

record 'b usb_view =
  uv_dma :: u32
  uv_tsiz :: u32
  uv_int :: u32
  uv_pending :: u32
  uv_mem :: ram
  uv_bus :: 'b

text \<open>The fields the controller reads out of the channel registers.\<close>

definition decode_token :: "u32 \<Rightarrow> u32 \<Rightarrow> usb_token" where
  "decode_token char tsiz =
     \<lparr>tk_addr = drop_bit 22 char AND 0x7F, tk_ep = drop_bit 11 char AND 0xF, tk_type = drop_bit 18 char AND 3,
      tk_in = bit char 15, tk_low = bit char 17, tk_mps = char AND 0x7FF, tk_pid = drop_bit 29 tsiz AND 3,
      tk_len = unat (tsiz AND 0x7FFFF), tk_pkts = unat (drop_bit 19 tsiz AND 0x3FF)\<rparr>"

text \<open>
  The status word of a halted channel: ChHltd (bit 1) is set, and STALL (bit 3), NAK (bit 4) and the
  errors AHBErr (bit 2), XactErr (bit 7) and DataTglErr (bit 10) say how the transaction ended. The
  other bits, XferCompl and ACK among them, may be anything.
\<close>

type_synonym 'b usb_status = "usb_reply \<Rightarrow> 'b \<Rightarrow> u32"

definition failed :: "u32 \<Rightarrow> bool" where
  "failed w \<longleftrightarrow> bit w 2 \<or> bit w 7 \<or> bit w 10"

definition status_ok :: "usb_reply \<Rightarrow> u32 \<Rightarrow> bool" where
  "status_ok reply w \<longleftrightarrow> bit w 1 \<and>
     (case reply of
        Ack _ \<Rightarrow> \<not> bit w 3 \<and> \<not> bit w 4 \<and> \<not> failed w
      | Nak \<Rightarrow> \<not> bit w 3 \<and> bit w 4 \<and> \<not> failed w
      | Stalled \<Rightarrow> bit w 3
      | BusError \<Rightarrow> \<not> bit w 3 \<and> failed w)"

text \<open>
  Enabling the channel runs one transaction: an OUT sends the bytes at the DMA address, an IN stores
  what arrives there, at most the transfer size; XferSize, the low 19 bits of the size register,
  counts down by what was moved. What the other bits of the size register, the address register and,
  after a failure, the memory hold is left open.
\<close>

definition ran :: "'b usb_status \<Rightarrow> 'b usb_bus \<Rightarrow> u32 \<Rightarrow> 'b usb_view \<Rightarrow> 'b usb_view \<Rightarrow> bool" where
  "ran st bus char v v' \<longleftrightarrow>
     (let tok = decode_token char (uv_tsiz v); a = ucast (uv_dma v); n = tk_len tok;
          (reply, b) = bus tok (if tk_in tok then [] else load_bytes (uv_mem v) a n) (uv_bus v) in
      uv_bus v' = b \<and> uv_int v' = uv_int v \<and> uv_pending v' = st reply b \<and>
      (case reply of
         Ack data \<Rightarrow>
           if tk_in tok then
             uv_mem v' = store_at a (take n data) (uv_mem v) \<and> unat (take_bit 19 (uv_tsiz v')) = n - length (take n data)
           else uv_mem v' = uv_mem v \<and> take_bit 19 (uv_tsiz v') = 0
       | _ \<Rightarrow> True))"

section \<open>The transaction-level specification\<close>

definition token_of :: "usb_device \<Rightarrow> u32 \<Rightarrow> u32 \<Rightarrow> bool \<Rightarrow> u32 \<Rightarrow> nat \<Rightarrow> usb_token" where
  "token_of dev ep et inp pid n =
     \<lparr>tk_addr = dev_addr dev, tk_ep = ep, tk_type = et, tk_in = inp, tk_low = low_speed dev,
      tk_mps = max_packet_size dev, tk_pid = pid, tk_len = n,
      tk_pkts = (if n = 0 then 1 else (n + unat (max_packet_size dev) - 1) div unat (max_packet_size dev))\<rparr>"

text \<open>A stage that is answered delivers its bytes; otherwise it is a stall, or an error with the status word.\<close>

fun reply_result :: "u32 \<Rightarrow> bool \<Rightarrow> u8 list \<Rightarrow> usb_reply \<Rightarrow> usb_error fault + nat \<times> u8 list" where
  "reply_result w inp buf (Ack data) =
     (if inp then (let d = take (length buf) data in Inr (length d, d @ drop (length d) buf)) else Inr (length buf, buf))"
| "reply_result w inp buf Nak = Inl (Err (TransferError w))"
| "reply_result w inp buf Stalled = Inl (Err Stall)"
| "reply_result w inp buf BusError = Inl (Err (TransferError w))"

definition exchange ::
  "'b usb_status \<Rightarrow> 'b usb_bus \<Rightarrow> usb_device \<Rightarrow> u32 \<Rightarrow> u32 \<Rightarrow> bool \<Rightarrow> u32 \<Rightarrow> u8 list \<Rightarrow> ('b, usb_error, nat \<times> u8 list) io" where
  "exchange st bus dev ep et inp pid buf b =
     (case bus (token_of dev ep et inp pid (length buf)) (if inp then [] else buf) b of
        (reply, b') \<Rightarrow> (reply_result (st reply b') inp buf reply, b'))"

text \<open>
  A control transfer: the eight-byte request little-endian in a SETUP transaction, the data stage if
  there is one, a zero-length status stage in the opposite direction.
\<close>

definition request :: "u8 \<Rightarrow> u8 \<Rightarrow> u16 \<Rightarrow> u16 \<Rightarrow> nat \<Rightarrow> u8 list" where
  "request rt rq val idx n = [rt, rq] @ le16 val @ le16 idx @ le16 (of_nat n)"

definition control_exchange ::
  "'b usb_status \<Rightarrow> 'b usb_bus \<Rightarrow> usb_device \<Rightarrow> u8 \<Rightarrow> u8 \<Rightarrow> u16 \<Rightarrow> u16 \<Rightarrow> u8 list \<Rightarrow> ('b, usb_error, nat \<times> u8 list) io" where
  "control_exchange st bus dev rt rq val idx buf =
     io_bind (exchange st bus dev 0 EP_TYPE_CONTROL False PID_SETUP (request rt rq val idx (length buf))) (\<lambda>_.
     if buf = [] then
       io_bind (exchange st bus dev 0 EP_TYPE_CONTROL True PID_DATA1 []) (\<lambda>_. io_return (0, []))
     else
       io_bind (exchange st bus dev 0 EP_TYPE_CONTROL (bit rt 7) PID_DATA1 buf) (\<lambda>res.
       io_bind (exchange st bus dev 0 EP_TYPE_CONTROL (\<not> bit rt 7) PID_DATA1 []) (\<lambda>_. io_return res)))"

section \<open>The controller's behaviour\<close>

text \<open>
  \<open>clock\<close> is the system timer in ticks, \<open>due\<close> the tick by which a running channel has halted: at most
  300, the timeout of the driver, from now. \<open>delay\<close> counts the status reads until the halt is seen,
  however many that are (\<open>polls\<close>).
\<close>

locale usb_controller =
  fixes host :: "'h usb_host"
    and st :: "'b usb_status"
    and bus :: "'b usb_bus"
    and live :: "'h \<Rightarrow> bool"
    and view :: "'h \<Rightarrow> 'b usb_view"
    and clock :: "'h \<Rightarrow> nat"
    and due :: "'h \<Rightarrow> nat"
    and delay :: "'h \<Rightarrow> nat"
    and polls :: nat
  assumes status: "status_ok reply (st reply b)"
    and uptime: "live h \<Longrightarrow> clock h + 300 < 2 ^ 64"
    and in_time: "live h \<Longrightarrow> due h \<le> clock h + 300"
    and polled: "live h \<Longrightarrow> delay h < polls"
    and timer_read: "live h \<Longrightarrow> timer_ticks host h = (t, h') \<Longrightarrow>
      t = of_nat (clock h) \<and> live h' \<and> view h' = view h \<and> due h' = due h \<and> delay h' = delay h"
    and status_read: "live h \<Longrightarrow> mmio_read host HCINT0 h = (w, h') \<Longrightarrow>
      live h' \<and> w = uv_int (view h') \<and>
      (view h' = view h \<and> (uv_pending (view h) = 0 \<or> clock h' < due h' \<and> due h' = due h \<and> delay h' < delay h) \<or>
       view h' = (view h)\<lparr>uv_int := uv_int (view h) OR uv_pending (view h), uv_pending := 0\<rparr>)"
    and size_read: "live h \<Longrightarrow> mmio_read host HCTSIZ0 h = (w, h') \<Longrightarrow> w = uv_tsiz (view h) \<and> live h' \<and> view h' = view h"
    and dma_write: "live h \<Longrightarrow> live (mmio_write host HCDMA0 w h) \<and> view (mmio_write host HCDMA0 w h) = (view h)\<lparr>uv_dma := w\<rparr>"
    and size_write: "live h \<Longrightarrow> live (mmio_write host HCTSIZ0 w h) \<and> view (mmio_write host HCTSIZ0 w h) = (view h)\<lparr>uv_tsiz := w\<rparr>"
    and status_write: "live h \<Longrightarrow> live (mmio_write host HCINT0 w h) \<and>
      view (mmio_write host HCINT0 w h) = (view h)\<lparr>uv_int := uv_int (view h) AND NOT w\<rparr>"
    and channel_write: "live h \<Longrightarrow> uv_pending (view h) = 0 \<Longrightarrow> bit w 31 \<Longrightarrow>
      live (mmio_write host HCCHAR0 w h) \<and> ran st bus w (view h) (view (mmio_write host HCCHAR0 w h))"
    and memory_put: "live h \<Longrightarrow> live (buf_put host a bs h) \<and> view (buf_put host a bs h) = (view h)\<lparr>uv_mem := store_at a bs (uv_mem (view h))\<rparr>"
    and memory_get: "live h \<Longrightarrow> buf_get host a n h = load_bytes (uv_mem (view h)) a n"
    and cache_op: "live h \<Longrightarrow> live (dc_civac host a h) \<and> view (dc_civac host a h) = view h"


section \<open>Register fields\<close>

text \<open>A device the channel register can address, and a transfer the size register can hold.\<close>

definition dev_ok :: "usb_device \<Rightarrow> bool" where
  "dev_ok dev \<longleftrightarrow> dev_addr dev < 0x80 \<and> max_packet_size dev < 0x800 \<and> 0 < max_packet_size dev"

definition size_ok :: "usb_device \<Rightarrow> nat \<Rightarrow> bool" where
  "size_ok dev n \<longleftrightarrow> n < 2 ^ 16 \<and> n \<le> 1023 * unat (max_packet_size dev)"

lemma mask_values: "(0x7F :: u32) = mask 7" "(0xF :: u32) = mask 4" "(0x7FF :: u32) = mask 11" "(3 :: u32) = mask 2"
  "(0x3FF :: u32) = mask 10" "(0x7FFFF :: u32) = mask 19"
  by (simp_all add: mask_eq_exp_minus_1)

text \<open>The field of a register: \<open>len\<close> bits from bit \<open>k\<close>. Fields that do not overlap can be read back one by one.\<close>

definition field :: "nat \<Rightarrow> nat \<Rightarrow> u32 \<Rightarrow> u32" where
  "field k len w = drop_bit k w AND mask len"

lemma field_or: "field k len (a OR b) = field k len a OR field k len b"
  unfolding field_def by (rule bit_word_eqI) (auto simp: bit_simps)

definition put_field :: "nat \<Rightarrow> nat \<Rightarrow> u32 \<Rightarrow> u32" where
  "put_field k len w = push_bit k (w AND mask len)"

lemma field_at: "k + len \<le> 32 \<Longrightarrow> field k len (put_field k len w) = w AND mask len"
  unfolding field_def put_field_def by (rule bit_word_eqI) (auto simp: bit_simps)

lemma field_below: "j + m \<le> k \<Longrightarrow> field k len (put_field j m w) = 0"
  unfolding field_def put_field_def by (rule bit_word_eqI) (auto simp: bit_simps)

lemma field_above: "k + len \<le> j \<Longrightarrow> field k len (put_field j m w) = 0"
  unfolding field_def put_field_def by (rule bit_word_eqI) (auto simp: bit_simps)

lemmas field_reads = field_or field_at field_below field_above

lemma bit_field: "bit w k \<longleftrightarrow> field k 1 w \<noteq> 0" if "k < 32" for w :: u32
proof -
  have b: "bit (field k 1 w) n \<longleftrightarrow> n = 0 \<and> bit w k" for n
    using that by (cases n) (auto simp: field_def bit_and_iff bit_drop_bit_eq bit_mask_iff)
  have "field k 1 w = 0" if "\<not> bit w k" by (rule bit_word_eqI) (simp only: b that bit_0_eq, simp)
  then show ?thesis using b[of 0] by (cases "bit w k") auto
qed

lemma hcchar_fields:
  fixes addr ep et mps :: u32 and inp low :: bool
  defines "c \<equiv> hcchar inp ep et addr mps low OR push_bit 31 1"
  assumes et: "et AND mask 2 = et"
  shows "field 22 7 c = addr AND mask 7" "field 11 4 c = ep AND mask 4" "field 18 2 c = et"
    "field 0 11 c = mps AND mask 11" "bit c 15 = inp" "bit c 17 = low"
proof -
  have c: "c = put_field 0 11 mps OR put_field 11 4 ep OR put_field 15 1 (of_bool inp) OR put_field 17 1 (of_bool low)
      OR put_field 18 2 et OR put_field 20 1 1 OR put_field 22 7 addr OR put_field 31 1 1"
    unfolding c_def hcchar_def put_field_def et by (simp add: mask_values or.assoc)
  show "field 22 7 c = addr AND mask 7" "field 11 4 c = ep AND mask 4" "field 18 2 c = et" "field 0 11 c = mps AND mask 11"
    "bit c 15 = inp" "bit c 17 = low"
    unfolding c by (simp_all add: bit_field field_reads et)
qed

lemma hctsiz_fields:
  assumes pid: "pid AND mask 2 = pid"
  shows "field 0 19 (hctsiz n p pid) = of_nat n AND mask 19" "field 19 10 (hctsiz n p pid) = of_nat p AND mask 10"
    "field 29 2 (hctsiz n p pid) = pid"
proof -
  have c: "hctsiz n p pid = put_field 0 19 (of_nat n) OR put_field 19 10 (of_nat p) OR put_field 29 2 pid"
    unfolding hctsiz_def put_field_def pid by (simp add: mask_values)
  show "field 0 19 (hctsiz n p pid) = of_nat n AND mask 19" "field 19 10 (hctsiz n p pid) = of_nat p AND mask 10"
    "field 29 2 (hctsiz n p pid) = pid"
    unfolding c by (simp_all add: field_reads pid)
qed

lemma decode_fields:
  "decode_token char tsiz =
     \<lparr>tk_addr = field 22 7 char, tk_ep = field 11 4 char, tk_type = field 18 2 char, tk_in = bit char 15,
      tk_low = bit char 17, tk_mps = field 0 11 char, tk_pid = field 29 2 tsiz,
      tk_len = unat (field 0 19 tsiz), tk_pkts = unat (field 19 10 tsiz)\<rparr>"
  by (simp add: decode_token_def field_def mask_values)

lemma decode_token_of:
  assumes dev: "dev_ok dev" and n: "size_ok dev n" and "ep < 2 ^ 4" "et < 2 ^ 2" "pid < 2 ^ 2"
    and p: "p = (if n = 0 then 1 else (n + unat (max_packet_size dev) - 1) div unat (max_packet_size dev))"
  shows "decode_token (hcchar inp ep et (dev_addr dev) (max_packet_size dev) (low_speed dev) OR push_bit 31 1) (hctsiz n p pid)
    = token_of dev ep et inp pid n"
proof -
  have mps: "0 < unat (max_packet_size dev)" using dev by (simp add: dev_ok_def word_less_nat_alt)
  have masks: "dev_addr dev AND mask 7 = dev_addr dev" "ep AND mask 4 = ep" "et AND mask 2 = et" "pid AND mask 2 = pid"
    "max_packet_size dev AND mask 11 = max_packet_size dev"
    using dev assms(3-5) by (auto intro!: less_mask_eq simp: dev_ok_def)
  have "p < 1024"
  proof (cases "n = 0")
    case False
    have "(n + unat (max_packet_size dev) - 1) div unat (max_packet_size dev) \<le> 1023"
      using ceiling_div(2)[OF mps, of n 1023] n by (simp add: size_ok_def)
    then show ?thesis using False p by simp
  qed (simp add: p)
  then have "of_nat p AND mask 10 = (of_nat p :: u32)" "of_nat n AND mask 19 = (of_nat n :: u32)"
    using n by (auto intro!: less_mask_eq simp: size_ok_def word_less_nat_alt unat_of_nat)
  moreover have "unat (of_nat p :: u32) = p" "unat (of_nat n :: u32) = n" using \<open>p < 1024\<close> n by (simp_all add: size_ok_def unat_of_nat)
  ultimately show ?thesis
    unfolding decode_fields hcchar_fields[OF masks(3)] hctsiz_fields[OF masks(4)] masks
    by (simp add: token_of_def p)
qed

text \<open>The bits the driver tests.\<close>

lemma mask_or_zero: "w AND (a OR b) = 0 \<longleftrightarrow> w AND a = 0 \<and> w AND b = (0 :: u32)"
proof -
  have "x OR y = 0 \<longleftrightarrow> x = 0 \<and> y = 0" for x y :: u32 by (auto simp: bit_eq_iff bit_or_iff)
  then show ?thesis by (simp add: bit.conj_disj_distrib)
qed

lemma mask_bit: "k < 32 \<Longrightarrow> w AND push_bit k 1 = 0 \<longleftrightarrow> \<not> bit (w :: u32) k"
  using and_exp_eq_0_iff_not_bit[of w k] by (simp add: push_bit_eq_mult)

lemma status_bits:
  "w AND HCINT_STALL = 0 \<longleftrightarrow> \<not> bit w 3" "w AND HCINT_NAK = 0 \<longleftrightarrow> \<not> bit w 4"
  "w AND (HCINT_XACTERR OR push_bit 2 1 OR push_bit 10 1) = 0 \<longleftrightarrow> \<not> failed w"
  unfolding HCINT_STALL_def HCINT_NAK_def HCINT_XACTERR_def mask_or_zero by (simp_all only: mask_bit) (auto simp: failed_def)

lemma halted: "status_ok reply w \<Longrightarrow> w AND (HCINT_CHHLTD OR HCINT_ERROR_MASK) \<noteq> 0"
  unfolding mask_or_zero HCINT_CHHLTD_def by (simp only: mask_bit) (simp add: status_ok_def)

lemma request_eq: "setup_packet rt rq val idx n = request rt rq val idx n"
proof -
  have b: "(ucast ((w :: u16) AND 0xFF) :: u8) = ucast w" for w
  proof -
    have "(0xFF :: u16) = mask 8" by (simp add: mask_eq_exp_minus_1)
    then show ?thesis by (simp only:) (rule bit_word_eqI, auto simp only: bit_simps, simp_all)
  qed
  show ?thesis by (simp add: setup_packet_def request_def numeral_2_eq_2 b)
qed

lemma direction_bit: "(rt AND 0x80 \<noteq> 0) = bit (rt :: u8) 7"
  by (simp add: and_exp_eq_0_iff_not_bit[of rt 7, simplified])

section \<open>The driver on such a controller\<close>

text \<open>An outcome that is known up to what the controller leaves open.\<close>

definition yields :: "('h \<Rightarrow> bool) \<Rightarrow> ('h \<Rightarrow> 'v) \<Rightarrow> ('h, 'e, 'a) io \<Rightarrow> 'v \<Rightarrow> ('e fault + 'a \<Rightarrow> 'v \<Rightarrow> bool) \<Rightarrow> bool" where
  "yields R C m v Q \<longleftrightarrow> (\<forall>h. R h \<longrightarrow> C h = v \<longrightarrow> (\<exists>r h'. m h = (r, h') \<and> R h' \<and> Q r (C h')))"

lemma yields_runs: "runs R C m v r v' \<Longrightarrow> Q r v' \<Longrightarrow> yields R C m v Q"
  by (fastforce simp: yields_def runs_def)

lemma yields_bind: "runs R C m v (Inr x) v1 \<Longrightarrow> yields R C (f x) v1 Q \<Longrightarrow> yields R C (io_bind m f) v Q"
  by (fastforce simp: yields_def runs_def io_bind_def)

lemma clean_returns:
  assumes "unat a + n + unat (line_size ctr) \<le> 2 ^ 64" "n div unat (line_size ctr) + 3 \<le> fuel" "n < 2 ^ 64"
  shows "\<exists>ls. clean_and_invalidate_range fuel ctr a (of_nat n) = Some ls"
proof -
  have "unat (of_nat n :: u64) = n" using assms(3) by (simp add: unat_of_nat)
  with assms(1,2) show ?thesis using clean_lines(1)[of a "of_nat n" ctr fuel] by simp
qed

lemma load_store_prefix:
  assumes "length d \<le> length buf" "length buf < 2 ^ 64"
  shows "load_bytes (store_at a d (store_at a buf ram)) a (length buf) = d @ drop (length d) buf"
  using assms by (intro nth_equalityI) (auto simp: load_bytes_def store_at_def unat_of_nat nth_append)

text \<open>Where a buffer may lie: below 4 GiB, which the DMA address register can hold, with a line to spare.\<close>

definition area_ok :: "u64 \<Rightarrow> u64 \<Rightarrow> nat \<Rightarrow> bool" where
  "area_ok ctr a n \<longleftrightarrow> unat a + max n 1 + unat (line_size ctr) \<le> 2 ^ 32"

lemma ucast_dma: "unat a < 2 ^ 32 \<Longrightarrow> (ucast (ucast a :: u32) :: u64) = a"
  by (simp add: word_unat_eq_iff unsigned_ucast_eq take_bit_eq_mod unat_mod)

context usb_controller
begin

lemma runs_write:
  "(\<And>h. live h \<Longrightarrow> view h = v \<Longrightarrow> live (mmio_write host reg w h) \<and> view (mmio_write host reg w h) = v') \<Longrightarrow>
   runs live view (u_write host reg w) v (Inr ()) v'"
  by (simp add: runs_def u_write_def)

lemma yields_write:
  "(\<And>h. live h \<Longrightarrow> view h = v \<Longrightarrow> live (mmio_write host reg w h) \<and> P (view (mmio_write host reg w h))) \<Longrightarrow>
   (\<And>v'. P v' \<Longrightarrow> yields live view m v' Q) \<Longrightarrow> yields live view (io_bind (u_write host reg w) (\<lambda>_. m)) v Q"
  unfolding yields_def io_bind_def u_write_def by simp blast

lemma runs_clean:
  assumes "area_ok (ctr_el0 host) a n" "n < 2 ^ 16" "2 ^ 15 \<le> fuel" "0 < n"
  shows "runs live view (u_clean host fuel a n) v (Inr ()) v"
proof -
  have "n div unat (line_size (ctr_el0 host)) \<le> n div 4"
  proof (cases "n = 0")
    case False
    have "4 \<le> unat (line_size (ctr_el0 host))" using line_size_exp[of "ctr_el0 host"] power_increasing[of 2 _ "2 :: nat"] by fastforce
    then show ?thesis by (intro div_le_mono2) simp_all
  qed simp
  also have "n div 4 < 2 ^ 14" using assms(2) by (simp add: less_mult_imp_div_less)
  finally have "n div unat (line_size (ctr_el0 host)) + 3 \<le> fuel" using assms(3) by simp
  then obtain ls where ls: "clean_and_invalidate_range fuel (ctr_el0 host) a (of_nat n) = Some ls"
    using clean_returns[of a n "ctr_el0 host" fuel] assms by (auto simp: area_ok_def)
  have "live h \<Longrightarrow> live (fold (dc_civac host) ls h) \<and> view (fold (dc_civac host) ls h) = view h" for h
    by (induction ls arbitrary: h) (auto simp: cache_op)
  then show ?thesis by (simp add: runs_def u_clean_def ls)
qed

text \<open>Waiting for the channel to halt: the pending status arrives before the deadline.\<close>

lemma poll_halted:
  assumes "live h" "uv_int (view h) = 0" "uv_pending (view h) = p" "p AND M \<noteq> 0" "delay h < f" "due h \<le> unat deadline"
  shows "\<exists>h'. usb_poll host f deadline (reg_clear host HCINT0 M) h = (Inr (), h') \<and> live h' \<and>
    view h' = (view h)\<lparr>uv_int := p, uv_pending := 0\<rparr>"
  using assms
proof (induction f arbitrary: h)
  case (Suc f)
  obtain w h1 where r: "mmio_read host HCINT0 h = (w, h1)" by fastforce
  note s = status_read[OF Suc.prems(1) r]
  have c: "reg_clear host HCINT0 M h = (Inr (w AND M = 0), h1)"
    by (simp add: reg_clear_def u_read_def io_bind_def io_return_def r)
  have p: "p \<noteq> 0" using Suc.prems(4) by auto
  show ?case
  proof (cases "view h1 = (view h)\<lparr>uv_int := uv_int (view h) OR uv_pending (view h), uv_pending := 0\<rparr>")
    case False
    then have True: "view h1 = view h" using s by blast
    obtain t h2 where t: "timer_ticks host h1 = (t, h2)" by fastforce
    have s1: "live h1" "clock h1 < due h" "due h1 = due h" "delay h1 < delay h" "w = 0"
      using s Suc.prems(2,3) False True p by auto
    note s2 = timer_read[OF s1(1) t]
    have "unat t \<le> clock h1" using s2 by (simp add: unat_of_nat)
    then have "\<not> deadline < t" using s1(2) Suc.prems(6) by (simp add: word_less_nat_alt)
    moreover have "\<exists>h'. usb_poll host f deadline (reg_clear host HCINT0 M) h2 = (Inr (), h') \<and> live h' \<and>
        view h' = (view h2)\<lparr>uv_int := p, uv_pending := 0\<rparr>"
      using s2 s1 True Suc.prems by (intro Suc.IH) auto
    ultimately show ?thesis using c s1 s2 True t by (simp add: io_bind_def u_ticks_def)
  next
    case True
    then have "view h1 = (view h)\<lparr>uv_int := p, uv_pending := 0\<rparr>" "w = p" using s Suc.prems by auto
    then show ?thesis using c s Suc.prems(4) by (simp add: io_bind_def io_return_def)
  qed
qed simp

lemma runs_wait:
  assumes "uv_int v = 0" "uv_pending v = p" "p AND M \<noteq> 0" "polls \<le> fuel"
  shows "runs live view (usb_wait_while host fuel 300 (reg_clear host HCINT0 M)) v (Inr ()) (v\<lparr>uv_int := p, uv_pending := 0\<rparr>)"
  unfolding runs_def
proof (intro allI impI)
  fix h assume h: "live h" "view h = v"
  obtain t h1 where t: "timer_ticks host h = (t, h1)" by fastforce
  note s = timer_read[OF h(1) t]
  have "unat (t + 300) = clock h + 300" using s uptime[OF h(1)] by (simp add: unat_word_ariths unat_of_nat)
  then have "\<exists>h'. usb_poll host fuel (t + 300) (reg_clear host HCINT0 M) h1 = (Inr (), h') \<and> live h' \<and>
      view h' = (view h1)\<lparr>uv_int := p, uv_pending := 0\<rparr>"
    using s h assms polled[OF h(1)] in_time[OF h(1)] by (intro poll_halted) auto
  then show "\<exists>h'. usb_wait_while host fuel 300 (reg_clear host HCINT0 M) h = (Inr (), h') \<and> live h' \<and>
      view h' = v\<lparr>uv_int := p, uv_pending := 0\<rparr>"
    using s h t by (simp add: usb_wait_while_def io_bind_def u_ticks_def)
qed

lemma runs_status: "uv_pending v = 0 \<Longrightarrow> runs live view (u_read host HCINT0) v (Inr (uv_int v)) v"
  unfolding runs_def
proof (intro allI impI)
  fix h assume p: "uv_pending v = 0" and h: "live h" "view h = v"
  obtain w h1 where r: "mmio_read host HCINT0 h = (w, h1)" by fastforce
  have "view h1 = v" "w = uv_int v" "live h1" using status_read[OF h(1) r] h p by auto
  then show "\<exists>h'. u_read host HCINT0 h = (Inr (uv_int v), h') \<and> live h' \<and> view h' = v" by (simp add: u_read_def r)
qed

lemma runs_size: "runs live view (u_read host HCTSIZ0) v (Inr (uv_tsiz v)) v"
  unfolding runs_def
proof (intro allI impI)
  fix h assume h: "live h" "view h = v"
  obtain w h1 where r: "mmio_read host HCTSIZ0 h = (w, h1)" by fastforce
  from size_read[OF h(1) r] h show "\<exists>h'. u_read host HCTSIZ0 h = (Inr (uv_tsiz v), h') \<and> live h' \<and> view h' = v"
    by (simp add: u_read_def r)
qed

lemma runs_put: "runs live view (u_put host a bs) v (Inr ()) (v\<lparr>uv_mem := store_at a bs (uv_mem v)\<rparr>)"
  by (simp add: runs_def u_put_def memory_put)

lemma runs_get: "runs live view (u_get host a n) v (Inr (load_bytes (uv_mem v) a n)) v"
  by (simp add: runs_def u_get_def memory_get)

text \<open>What running the channel leaves behind, given the answer of the bus.\<close>

lemma run_channel_result:
  assumes ran: "ran st bus char v v'"
    and tok: "decode_token char (uv_tsiz v) = token_of dev ep et inp pid (length buf)"
    and dma: "ucast (uv_dma v) = (a :: u64)" and mem: "uv_mem v = store_at a buf m" and n: "length buf < 2 ^ 16"
    and bus: "bus (token_of dev ep et inp pid (length buf)) (if inp then [] else buf) (uv_bus v) = (reply, b)"
  shows "uv_int v' = uv_int v" "uv_pending v' = st reply b" "uv_bus v' = b"
    "\<And>d. reply = Ack d \<Longrightarrow> unat (uv_tsiz v' AND 0x7FFFF) = (if inp then length buf - length (take (length buf) d) else 0)"
    "\<And>d w. reply = Ack d \<Longrightarrow> load_bytes (uv_mem v') a (length buf) = snd (projr (reply_result w inp buf (Ack d)))"
proof -
  have f: "tk_in (token_of dev ep et inp pid k) = inp" "tk_len (token_of dev ep et inp pid k) = k" for k by (simp_all add: token_of_def)
  have load: "load_bytes (uv_mem v) a (length buf) = buf" using n by (simp add: mem load_store_same)
  note R = ran[unfolded ran_def tok f dma load Let_def bus prod.case]
  show "uv_int v' = uv_int v" "uv_pending v' = st reply b" "uv_bus v' = b" using R by simp_all
  fix d w assume d: "reply = Ack d"
  show "unat (uv_tsiz v' AND 0x7FFFF) = (if inp then length buf - length (take (length buf) d) else 0)"
    using R by (auto simp: d mask_values take_bit_eq_mask split: if_splits)
  show "load_bytes (uv_mem v') a (length buf) = snd (projr (reply_result w inp buf (Ack d)))"
    using n load load_store_prefix[of "take (length buf) d" buf a m] R by (auto simp: d Let_def mem split: if_splits)
qed

lemma all_ones: "w AND NOT 0xFFFFFFFF = (0 :: u32)"
proof -
  have "(0xFFFFFFFF :: u32) = mask 32" by (simp add: mask_eq_exp_minus_1)
  also have "\<dots> = - 1" using mask_full[where 'a = 32] by simp
  finally have ones: "(0xFFFFFFFF :: u32) = - 1" .
  show ?thesis unfolding ones by simp
qed

lemma runs_transact_end:
  assumes area: "area_ok (ctr_el0 host) a (length buf)" and n: "length buf < 2 ^ 16" and fuel: "2 ^ 15 \<le> fuel"
    and w: "status_ok reply w"
    and size: "\<And>d. reply = Ack d \<Longrightarrow> unat (uv_tsiz v AND 0x7FFFF) = (if inp then length buf - length (take (length buf) d) else 0)"
    and mem: "\<And>d. reply = Ack d \<Longrightarrow> load_bytes (uv_mem v) a (length buf) = snd (projr (reply_result w inp buf (Ack d)))"
  shows "runs live view (transact_end host fuel inp a (length buf) w) v (reply_result w inp buf reply) v"
proof (cases reply)
  case (Ack d)
  let ?k = "length buf - (if inp then length buf - length (take (length buf) d) else 0)"
  have clean: "runs live view (if inp \<and> 0 < ?k then u_clean host fuel a ?k else io_return ()) v (Inr ()) v"
    using area n fuel by (auto intro!: runs_clean runs_return simp: area_ok_def)
  have "transact_end host fuel inp a (length buf) w =
      io_bind (u_read host HCTSIZ0) (\<lambda>w. let actual = length buf - unat (w AND 0x7FFFF) in
        io_bind (if inp \<and> actual > 0 then u_clean host fuel a actual else io_return ()) (\<lambda>_.
        io_bind (u_get host a (length buf)) (\<lambda>buf. io_return (actual, buf))))"
    using w unfolding transact_end_def status_bits by (simp add: Ack status_ok_def Let_def)
  moreover have "reply_result w inp buf reply = Inr (?k, snd (projr (reply_result w inp buf (Ack d))))"
    by (auto simp: Ack Let_def)
  moreover have "runs live view (let actual = length buf - unat (uv_tsiz v AND 0x7FFFF) in
        io_bind (if inp \<and> actual > 0 then u_clean host fuel a actual else io_return ()) (\<lambda>_.
        io_bind (u_get host a (length buf)) (\<lambda>buf. io_return (actual, buf))))
      v (Inr (?k, snd (projr (reply_result w inp buf (Ack d))))) v"
    unfolding Let_def size[OF Ack] mem[OF Ack, symmetric]
    by (rule runs_bind[OF clean], rule runs_bind[OF runs_get], rule runs_return)
  ultimately show ?thesis by (simp only: runs_bind[OF runs_size])
qed (use w in \<open>unfold transact_end_def status_bits, simp_all add: status_ok_def runs_throw\<close>)

lemma yields_transact:
  assumes dev: "dev_ok dev" and n: "size_ok dev (length buf)" and area: "area_ok (ctr_el0 host) a (length buf)"
    and args: "ep < 2 ^ 4" "et < 2 ^ 2" "pid < 2 ^ 2" and fuel: "2 ^ 15 \<le> fuel" "polls \<le> fuel" and idle: "uv_pending v = 0"
    and ex: "exchange st bus dev ep et inp pid buf (uv_bus v) = (r, b)"
  shows "yields live view (transact host fuel dev ep et inp pid a buf) v (\<lambda>r' v'. r' = r \<and> uv_pending v' = 0 \<and> uv_bus v' = b)"
proof -
  let ?mps = "unat (max_packet_size dev)" and ?n = "length buf"
  define p where "p = (if ?n = 0 then 1 else (?n + ?mps - 1) div ?mps)"
  define char where "char = hcchar inp ep et (dev_addr dev) (max_packet_size dev) (low_speed dev) OR push_bit 31 1"
  define v1 where "v1 = v\<lparr>uv_mem := store_at a buf (uv_mem v)\<rparr>"
  define v2 where "v2 = v1\<lparr>uv_dma := ucast a, uv_tsiz := hctsiz ?n p pid, uv_int := 0\<rparr>"
  have n16: "?n < 2 ^ 16" using n by (simp add: size_ok_def)
  obtain reply where bus: "bus (token_of dev ep et inp pid ?n) (if inp then [] else buf) (uv_bus v2) = (reply, b)"
    and r: "r = reply_result (st reply b) inp buf reply"
    using ex by (auto simp: exchange_def v1_def v2_def split: prod.splits)
  have tok: "decode_token char (uv_tsiz v2) = token_of dev ep et inp pid ?n"
    using decode_token_of[OF dev n args p_def] by (simp add: char_def v2_def)
  have dma: "ucast (uv_dma v2) = a" using area by (simp add: v2_def area_ok_def ucast_dma)
  have mem: "uv_mem v2 = store_at a buf (uv_mem v)" by (simp add: v1_def v2_def)
  have put: "runs live view (u_put host a buf) v (Inr ()) v1" unfolding v1_def by (rule runs_put)
  have clean: "runs live view (if inp then io_return () else u_clean host fuel a (max ?n 1)) v1 (Inr ()) v1"
    using area n16 fuel by (auto intro!: runs_clean runs_return simp: area_ok_def)
  have dma_w: "runs live view (u_write host HCDMA0 (ucast a)) v1 (Inr ()) (v1\<lparr>uv_dma := ucast a\<rparr>)"
    and size_w: "runs live view (u_write host HCTSIZ0 x) w (Inr ()) (w\<lparr>uv_tsiz := x\<rparr>)"
    and int_w: "runs live view (u_write host HCINT0 0xFFFFFFFF) w (Inr ()) (w\<lparr>uv_int := 0\<rparr>)" for x w
    by (rule runs_write; simp only: dma_write size_write status_write all_ones)+
  have char_w: "live (mmio_write host HCCHAR0 char h) \<and> ran st bus char v2 (view (mmio_write host HCCHAR0 char h))"
    if "live h" "view h = v2" for h
  proof -
    have "uv_pending v2 = 0" using idle by (simp add: v1_def v2_def)
    moreover have "bit char 31" by (simp add: char_def bit_or_iff bit_push_bit_iff)
    ultimately show ?thesis using channel_write that by blast
  qed
  let ?wait = "usb_wait_while host fuel 300 (reg_clear host HCINT0 (HCINT_CHHLTD OR HCINT_ERROR_MASK))"
  have rest: "yields live view (io_bind ?wait (\<lambda>_. io_bind (u_read host HCINT0) (\<lambda>hcint.
      io_bind (u_write host HCINT0 0xFFFFFFFF) (\<lambda>_. transact_end host fuel inp a ?n hcint)))) v3
      (\<lambda>r' v'. r' = r \<and> uv_pending v' = 0 \<and> uv_bus v' = b)" if "ran st bus char v2 v3" for v3
  proof -
    note res = run_channel_result[OF that tok dma mem n16 bus]
    define v4 where "v4 = v3\<lparr>uv_int := st reply b, uv_pending := 0\<rparr>"
    define v5 where "v5 = v4\<lparr>uv_int := 0\<rparr>"
    have wait: "runs live view ?wait v3 (Inr ()) v4"
      unfolding v4_def by (rule runs_wait) (use res halted[OF status] fuel in \<open>simp_all add: v2_def\<close>)
    have read: "runs live view (u_read host HCINT0) v4 (Inr (st reply b)) v4" using runs_status[of v4] by (simp add: v4_def)
    have "runs live view (transact_end host fuel inp a ?n (st reply b)) v5 r v5"
      unfolding r by (rule runs_transact_end[OF area n16 fuel(1) status]) (use res(4,5) in \<open>simp_all add: v4_def v5_def\<close>)
    moreover have "uv_pending v5 = 0" "uv_bus v5 = b" using res by (simp_all add: v4_def v5_def)
    ultimately show ?thesis
      by (intro yields_bind[OF wait] yields_bind[OF read] yields_bind[OF int_w[of v4, folded v5_def]] yields_runs) simp_all
  qed
  have "\<not> (?n \<noteq> 0 \<and> ?mps = 0)" using dev by (simp add: dev_ok_def word_less_nat_alt)
  then show ?thesis unfolding transact_def Let_def p_def[symmetric] char_def[symmetric] if_not_P[OF \<open>\<not> (?n \<noteq> 0 \<and> ?mps = 0)\<close>]
    by (intro yields_bind[OF put] yields_bind[OF clean] yields_bind[OF dma_w] yields_bind[OF size_w] yields_bind[OF int_w]
      yields_write[OF char_w[unfolded v2_def] rest[unfolded v2_def]])
qed

abbreviation quiet :: "'h \<Rightarrow> bool" where
  "quiet h \<equiv> live h \<and> uv_pending (view h) = 0"

abbreviation the_bus :: "'h \<Rightarrow> 'b" where
  "the_bus h \<equiv> uv_bus (view h)"

lemma transact_simulates:
  assumes "dev_ok dev" "size_ok dev (length buf)" "area_ok (ctr_el0 host) a (length buf)"
    "ep < 2 ^ 4" "et < 2 ^ 2" "pid < 2 ^ 2" "2 ^ 15 \<le> fuel" "polls \<le> fuel"
  shows "simulates quiet the_bus (transact host fuel dev ep et inp pid a buf) (exchange st bus dev ep et inp pid buf)"
  unfolding simulates_def
proof (intro allI impI)
  fix h assume h: "quiet h"
  obtain r b where ex: "exchange st bus dev ep et inp pid buf (the_bus h) = (r, b)" by fastforce
  from yields_transact[OF assms _ ex] h show "\<exists>r h'. transact host fuel dev ep et inp pid a buf h = (r, h') \<and> quiet h' \<and>
      exchange st bus dev ep et inp pid buf (the_bus h) = (r, the_bus h')"
    using ex by (auto simp: yields_def)
qed

lemma interrupt_delivers:
  assumes "dev_ok dev" "size_ok dev (length buf)" "area_ok (ctr_el0 host) a (length buf)" "ep < 2 ^ 4" "2 ^ 15 \<le> fuel" "polls \<le> fuel" "quiet h"
    and ex: "exchange st bus dev ep EP_TYPE_INTERRUPT True PID_DATA1 buf (the_bus h) = (Inr x, b)"
  shows "\<exists>h'. interrupt_in host fuel dev ep a buf h = (Inr x, h') \<and> quiet h' \<and> the_bus h' = b"
proof -
  have args: "EP_TYPE_INTERRUPT < 2 ^ 2" "PID_DATA1 < 2 ^ 2" by (simp_all add: EP_TYPE_INTERRUPT_def PID_DATA1_def)
  from simulatesD[OF transact_simulates[OF assms(1-4) args assms(5,6), of True] assms(7)] ex
  show ?thesis by (auto simp: interrupt_in_def)
qed

lemma interrupt_none:
  assumes "dev_ok dev" "size_ok dev (length buf)" "area_ok (ctr_el0 host) a (length buf)" "ep < 2 ^ 4" "2 ^ 15 \<le> fuel" "polls \<le> fuel" "quiet h"
    and ex: "exchange st bus dev ep EP_TYPE_INTERRUPT True PID_DATA1 buf (the_bus h) = (Inl (Err (TransferError w)), b)"
    and nak: "w AND HCINT_NAK \<noteq> 0"
  shows "\<exists>part h'. interrupt_in host fuel dev ep a buf h = (Inr (0, part), h') \<and> quiet h' \<and> the_bus h' = b"
proof -
  have args: "EP_TYPE_INTERRUPT < 2 ^ 2" "PID_DATA1 < 2 ^ 2" by (simp_all add: EP_TYPE_INTERRUPT_def PID_DATA1_def)
  from simulatesD[OF transact_simulates[OF assms(1-4) args assms(5,6), of True] assms(7)] ex nak
  show ?thesis by (auto simp: interrupt_in_def)
qed

lemma control_simulates:
  assumes "dev_ok dev" "size_ok dev (length buf)" "area_ok (ctr_el0 host) a (length buf)"
    "area_ok (ctr_el0 host) (at_setup host) 8" "area_ok (ctr_el0 host) (at_empty host) 0" "2 ^ 15 \<le> fuel" "polls \<le> fuel"
  shows "simulates quiet the_bus (control_transfer host fuel dev rt rq val idx a buf) (control_exchange st bus dev rt rq val idx buf)"
proof -
  have mps: "1 \<le> unat (max_packet_size dev)" using assms(1) by (simp add: dev_ok_def word_less_nat_alt)
  then have sizes: "size_ok dev 8" "size_ok dev 0" by (simp_all add: size_ok_def)
  have args: "(0 :: u32) < 2 ^ 4" "EP_TYPE_CONTROL < 2 ^ 2" "PID_SETUP < 2 ^ 2" "PID_DATA1 < 2 ^ 2"
    by (simp_all add: EP_TYPE_CONTROL_def PID_SETUP_def PID_DATA1_def)
  let ?req = "request rt rq val idx (length buf)"
  have len: "length ?req = 8" by (simp add: request_def)
  have setup_ok: "simulates quiet the_bus (transact host fuel dev 0 EP_TYPE_CONTROL False PID_SETUP (at_setup host) ?req)
      (exchange st bus dev 0 EP_TYPE_CONTROL False PID_SETUP ?req)"
    using assms sizes args len by (intro transact_simulates) simp_all
  have status_stage: "simulates quiet the_bus (transact host fuel dev 0 EP_TYPE_CONTROL i PID_DATA1 (at_empty host) [])
      (exchange st bus dev 0 EP_TYPE_CONTROL i PID_DATA1 [])" for i
    using assms sizes args by (intro transact_simulates) simp_all
  have data: "simulates quiet the_bus (transact host fuel dev 0 EP_TYPE_CONTROL i PID_DATA1 a buf)
      (exchange st bus dev 0 EP_TYPE_CONTROL i PID_DATA1 buf)" for i
    using assms args by (intro transact_simulates) simp_all
  show ?thesis
  proof (cases "buf = []")
    case True
    have [simp]: "io_bind (io_return x) f = f x" for x and f :: "_ \<Rightarrow> ('h, usb_error, nat \<times> u8 list) io"
      by (rule ext) (simp add: io_bind_def io_return_def)
    from True show ?thesis using simulates_bind[OF setup_ok simulates_bind[OF status_stage[of True] simulates_return[of _ _ "(0, [])"]]]
      by (simp add: control_transfer_def control_exchange_def request_eq Let_def)
  next
    case False
    have "simulates quiet the_bus
        (io_bind (transact host fuel dev 0 EP_TYPE_CONTROL (bit rt 7) PID_DATA1 a buf) (\<lambda>(n, buf').
           io_bind (transact host fuel dev 0 EP_TYPE_CONTROL (\<not> bit rt 7) PID_DATA1 (at_empty host) []) (\<lambda>_. io_return (n, buf'))))
        (io_bind (exchange st bus dev 0 EP_TYPE_CONTROL (bit rt 7) PID_DATA1 buf) (\<lambda>res.
           io_bind (exchange st bus dev 0 EP_TYPE_CONTROL (\<not> bit rt 7) PID_DATA1 []) (\<lambda>_. io_return res)))"
      by (intro simulates_bind[OF data]) (auto intro: simulates_bind[OF status_stage simulates_return])
    from simulates_bind[OF setup_ok this] show ?thesis
      using False by (cases "bit rt 7") (simp_all add: control_transfer_def control_exchange_def request_eq direction_bit Let_def)
  qed
qed

end

section \<open>A controller with this behaviour\<close>

definition sim_read :: "u64 \<Rightarrow> 'b usb_view \<Rightarrow> u32 \<times> 'b usb_view" where
  "sim_read reg v =
     (if reg = HCINT0 then (uv_int v OR uv_pending v, v\<lparr>uv_int := uv_int v OR uv_pending v, uv_pending := 0\<rparr>)
      else if reg = HCTSIZ0 then (uv_tsiz v, v) else (0, v))"

text \<open>It halts with ChHltd and what a real one reports beside it, and counts XferSize down in place.\<close>

fun reply_bits :: "'b usb_status" where
  "reply_bits (Ack _) b = 0x23"
| "reply_bits Nak b = 0x12"
| "reply_bits Stalled b = 0x0A"
| "reply_bits BusError b = 0x82"

definition run_channel :: "'b usb_bus \<Rightarrow> u32 \<Rightarrow> 'b usb_view \<Rightarrow> 'b usb_view" where
  "run_channel bus char v =
     (let tok = decode_token char (uv_tsiz v); a = ucast (uv_dma v); n = tk_len tok;
          left = (\<lambda>k. push_bit 19 (drop_bit 19 (uv_tsiz v)) OR take_bit 19 (of_nat k)) in
      case bus tok (if tk_in tok then [] else load_bytes (uv_mem v) a n) (uv_bus v) of (reply, b) \<Rightarrow>
        let v' = v\<lparr>uv_bus := b, uv_pending := reply_bits reply b\<rparr> in
        (case reply of
           Ack data \<Rightarrow>
             if tk_in tok then
               v'\<lparr>uv_mem := store_at a (take n data) (uv_mem v), uv_tsiz := left (n - length (take n data))\<rparr>
             else v'\<lparr>uv_tsiz := left 0\<rparr>
         | _ \<Rightarrow> v'))"

lemma run_channel_ran: "ran reply_bits bus char v (run_channel bus char v)"
proof -
  have size: "take_bit 19 (push_bit 19 x) = 0" for x :: u32
    by (rule bit_word_eqI) (auto simp: bit_simps)
  let ?n = "tk_len (decode_token char (uv_tsiz v))"
  have u: "unat (take_bit 19 (x :: u32)) = unat x mod 2 ^ 19" for x by (simp add: take_bit_eq_mod unat_mod)
  have "?n < 2 ^ 19" using u[of "uv_tsiz v"] by (simp add: decode_fields field_def take_bit_eq_mask[symmetric])
  then have "unat (take_bit 19 (of_nat (?n - k) :: u32)) = ?n - k" for k by (simp add: u unat_of_nat)
  then show ?thesis by (auto simp: ran_def run_channel_def Let_def size split: prod.splits usb_reply.splits simp del: length_take)
qed

definition sim_write :: "'b usb_bus \<Rightarrow> u64 \<Rightarrow> u32 \<Rightarrow> 'b usb_view \<Rightarrow> 'b usb_view" where
  "sim_write bus reg w v =
     (if reg = HCDMA0 then v\<lparr>uv_dma := w\<rparr>
      else if reg = HCTSIZ0 then v\<lparr>uv_tsiz := w\<rparr>
      else if reg = HCINT0 then v\<lparr>uv_int := uv_int v AND NOT w\<rparr>
      else if reg = HCCHAR0 \<and> bit w 31 then run_channel bus w v else v)"

definition sim_usb :: "'b usb_bus \<Rightarrow> u64 \<Rightarrow> u64 \<Rightarrow> u64 \<Rightarrow> 'b usb_view usb_host" where
  "sim_usb bus ctr setup_at empty_at =
     \<lparr>mmio_read = sim_read, mmio_write = sim_write bus, timer_ticks = (\<lambda>v. (0, v)),
      buf_put = (\<lambda>a bs v. v\<lparr>uv_mem := store_at a bs (uv_mem v)\<rparr>), buf_get = (\<lambda>a n v. load_bytes (uv_mem v) a n),
      dc_civac = (\<lambda>_ v. v), ctr_el0 = ctr, sleep = (\<lambda>_ v. v), at_setup = setup_at, at_empty = empty_at\<rparr>"

lemma reply_bits_ok: "status_ok reply (reply_bits reply b)"
  by (cases reply) (simp_all add: status_ok_def failed_def)

interpretation sim_dwc2: usb_controller "sim_usb bus ctr s e" reply_bits bus "\<lambda>_. True" "\<lambda>v. v" "\<lambda>_. 0" "\<lambda>_. 0" "\<lambda>_. 0" 1
  for bus :: "'b usb_bus" and ctr s e
  by unfold_locales (auto simp: sim_usb_def sim_read_def sim_write_def usb_regs reply_bits_ok run_channel_ran)

section \<open>Properties\<close>

text \<open>
  C6: a control transfer of the driver is the three-stage USB control transfer: the eight-byte
  little-endian request in a SETUP transaction, a data stage only when there is data, a zero-length
  status stage in the opposite direction, all addressed to endpoint 0 of the device with its speed and
  packet size. It returns the byte count and buffer the bus delivered, or the error of the first stage
  that failed. Of the controller it assumes that every transaction halts the channel within the 300
  ticks the driver waits, after any number of status reads below the fuel; that the status word has
  ChHltd and, of STALL, NAK, AHBErr, XactErr and DataTglErr, the bits of the outcome, all other bits
  being arbitrary (a word with babble or frame overrun alone therefore counts as answered, the driver
  tests neither); and that XferSize, the low 19 bits of the size register, counts down by what was
  moved, its other bits being arbitrary.
\<close>

theorem control_transfer_refines:
  assumes ctl: "usb_controller host st bus live view clock due delay polls"
    and dev: "dev_ok dev" "size_ok dev (length buf)"
    and areas: "area_ok (ctr_el0 host) a (length buf)" "area_ok (ctr_el0 host) (at_setup host) 8" "area_ok (ctr_el0 host) (at_empty host) 0"
    and fuel: "2 ^ 15 \<le> fuel" "polls \<le> fuel" and idle: "live h" "uv_pending (view h) = 0"
  shows "\<exists>r h'. control_transfer host fuel dev rt rq val idx a buf h = (r, h') \<and> live h' \<and> uv_pending (view h') = 0 \<and>
    control_exchange st bus dev rt rq val idx buf (uv_bus (view h)) = (r, uv_bus (view h'))"
  using simulatesD[OF usb_controller.control_simulates[OF ctl dev areas fuel], of h rt rq val idx] idle by blast

text \<open>A device that stores its last request and answers GET_DESCRIPTOR with four bytes.\<close>

definition echo_bus :: "u8 list usb_bus" where
  "echo_bus tok payload b =
     (if tk_pid tok = 3 then (Ack [], payload)
      else if tk_in tok \<and> take 2 b = [0x80, 6] then (Ack [18, 1, 0, 2], b)
      else (Ack [], b))"

definition echo_view :: "u8 list usb_view" where
  "echo_view = \<lparr>uv_dma = 0, uv_tsiz = 0, uv_int = 0, uv_pending = 0, uv_mem = (\<lambda>_. 0), uv_bus = []\<rparr>"

theorem control_transfer_refines_witness:
  "\<exists>h'. control_transfer (sim_usb echo_bus 0x84448004 0x1000 0x2000) 40000 \<lparr>dev_addr = 0, max_packet_size = 8, low_speed = False\<rparr>
     0x80 6 0x100 0 0x3000 [0, 0, 0, 0, 0, 0] echo_view = (Inr (4, [18, 1, 0, 2, 0, 0]), h') \<and> uv_bus h' = [0x80, 6, 0, 1, 0, 0, 6, 0]"
proof -
  let ?host = "sim_usb echo_bus 0x84448004 0x1000 0x2000" and ?dev = "\<lparr>dev_addr = 0, max_packet_size = 8, low_speed = False\<rparr>"
  let ?buf = "[0, 0, 0, 0, 0, 0] :: u8 list"
  have at: "ctr_el0 ?host = 0x84448004" "at_setup ?host = 0x1000" "at_empty ?host = 0x2000" by (simp_all add: sim_usb_def)
  have line: "line_size 0x84448004 = 64" by (simp add: line_size_def)
  have ex: "control_exchange reply_bits echo_bus ?dev 0x80 6 0x100 0 ?buf (uv_bus echo_view) = (Inr (4, [18, 1, 0, 2, 0, 0]), [0x80, 6, 0, 1, 0, 0, 6, 0])"
    by code_simp
  have dev: "dev_ok ?dev" "size_ok ?dev (length ?buf)" by (simp_all add: dev_ok_def size_ok_def)
  have areas: "area_ok (ctr_el0 ?host) 0x3000 (length ?buf)" "area_ok (ctr_el0 ?host) (at_setup ?host) 8" "area_ok (ctr_el0 ?host) (at_empty ?host) 0"
    unfolding at by (simp_all add: area_ok_def line)
  have fuel: "2 ^ 15 \<le> (40000 :: nat)" "1 \<le> (40000 :: nat)" by simp_all
  have idle: "True" "uv_pending echo_view = 0" by (simp_all add: echo_view_def)
  show ?thesis
    using control_transfer_refines[OF sim_dwc2.usb_controller_axioms dev areas fuel idle, of "0x80" 6 "0x100" 0] unfolding ex
    by (elim exE conjE) (simp only: prod.inject, blast)
qed

end
