(* ===== verification/Hid.thy ===== *)
theory Hid
  imports Usb_Controller
begin

text \<open>
  \<^verbatim>\<open>src/src/hid.rs\<close>: finding a boot-protocol keyboard behind the root port and polling it. Indexing that
  could panic is checked. The arrays of the functions lie at the addresses of \<open>hid_stack\<close>.
\<close>

unbundle bit_operations_syntax

section \<open>State\<close>

datatype hid_error = HidUsb usb_error | NoKeyboardFound

record keyboard =
  kb_dev :: usb_device
  ep_num :: u32
  ep_mps :: nat
  prev_report :: "u8 list"

record hid_stack =
  at_desc :: u64
  at_cfg_hdr :: u64
  at_cfg :: u64
  at_hub_desc :: u64
  at_status :: u64
  at_report :: u64

type_synonym ('h, 'a) hid_io = "('h, hid_error, 'a) io"

text \<open>\<^verbatim>\<open>xs[i]\<close>, and sequencing of computations that can only panic.\<close>

definition idx :: "'a list \<Rightarrow> nat \<Rightarrow> 'a checked" where
  "idx xs i = (if i < length xs then Inr (xs ! i) else Inl Panic)"

definition ck_bind :: "'a checked \<Rightarrow> ('a \<Rightarrow> 'b checked) \<Rightarrow> 'b checked" where
  "ck_bind m f = (case m of Inl e \<Rightarrow> Inl e | Inr x \<Rightarrow> f x)"

lemma ck_bind_cong [fundef_cong]:
  "m = m' \<Longrightarrow> (\<And>x. m' = Inr x \<Longrightarrow> f x = f' x) \<Longrightarrow> ck_bind m f = ck_bind m' f'"
  by (auto simp: ck_bind_def split: sum.splits)

lemma ck_bind_idx [simp]: "i < length xs \<Longrightarrow> ck_bind (idx xs i) f = f (xs ! i)"
  by (simp add: ck_bind_def idx_def)

lemma idx_Inr: "idx xs i = Inr x \<Longrightarrow> x = xs ! i"
  by (simp add: idx_def split: if_splits)

text \<open>\<^verbatim>\<open>.ok()\<close>: an error is \<open>None\<close>, a panic stays a panic.\<close>

definition io_ok :: "('s, 'e, 'a) io \<Rightarrow> ('s, 'f, 'a option) io" where
  "io_ok m s =
     (case m s of
        (Inl (Err e), s') \<Rightarrow> (Inr None, s')
      | (Inl Panic, s') \<Rightarrow> (Inl Panic, s')
      | (Inl OutOfFuel, s') \<Rightarrow> (Inl OutOfFuel, s')
      | (Inr x, s') \<Rightarrow> (Inr (Some x), s'))"

section \<open>Descriptors\<close>

function find_endpoint :: "u8 list \<Rightarrow> nat \<Rightarrow> bool \<Rightarrow> (u32 \<times> nat) option checked" where
  "find_endpoint cfg i in_keyboard_interface =
     (if i + 2 \<le> length cfg then
        ck_bind (idx cfg i) (\<lambda>b. let len = unat b in
          if len = 0 \<or> i + len > length cfg then Inr None
          else
            ck_bind (idx cfg (i + 1)) (\<lambda>desc_type.
              if desc_type = 4 \<and> len \<ge> 9 then
                ck_bind (idx cfg (i + 5)) (\<lambda>class.
                ck_bind (idx cfg (i + 6)) (\<lambda>subclass.
                ck_bind (idx cfg (i + 7)) (\<lambda>protocol.
                  find_endpoint cfg (i + len) (class = 3 \<and> subclass = 1 \<and> protocol = 1))))
              else if desc_type = 5 \<and> len \<ge> 7 \<and> in_keyboard_interface then
                ck_bind (idx cfg (i + 2)) (\<lambda>ep_addr.
                  if ep_addr AND 0x80 \<noteq> 0 then
                    ck_bind (idx cfg (i + 4)) (\<lambda>lo.
                    ck_bind (idx cfg (i + 5)) (\<lambda>hi.
                      Inr (Some (ucast (ep_addr AND 0x0F), unat (rd16 [lo, hi])))))
                  else find_endpoint cfg (i + len) in_keyboard_interface)
              else find_endpoint cfg (i + len) in_keyboard_interface))
      else Inr None)"
  by pat_completeness auto
termination
  by (relation "measure (\<lambda>(cfg, i, _). length cfg - i)") auto

declare find_endpoint.simps [simp del]

definition find_hid_keyboard_endpoint :: "u8 list \<Rightarrow> (u32 \<times> nat) option checked" where
  "find_hid_keyboard_endpoint cfg = find_endpoint cfg 0 False"

section \<open>Enumeration\<close>

definition usb_call :: "('h, 'a) usb_io \<Rightarrow> ('h, 'a) hid_io" where
  "usb_call = io_map_err HidUsb"

definition lift_checked :: "'a checked \<Rightarrow> ('s, 'e, 'a) io" where
  "lift_checked m s = (case m of Inl (Err _) \<Rightarrow> (Inl Panic, s) | Inl Panic \<Rightarrow> (Inl Panic, s)
     | Inl OutOfFuel \<Rightarrow> (Inl OutOfFuel, s) | Inr x \<Rightarrow> (Inr x, s))"

definition clamp :: "nat \<Rightarrow> nat \<Rightarrow> nat \<Rightarrow> nat" where
  "clamp lo hi n = (if n < lo then lo else if n > hi then hi else n)"

definition enumerate_as_keyboard :: "'h usb_host \<Rightarrow> nat \<Rightarrow> hid_stack \<Rightarrow> speed \<Rightarrow> u32 \<Rightarrow> ('h, keyboard) hid_io" where
  "enumerate_as_keyboard host fuel stk spd addr =
     (let dev = \<lparr>dev_addr = 0, max_packet_size = 8, low_speed = (spd = Low)\<rparr> in
      io_bind (usb_call (get_device_descriptor host fuel dev (at_desc stk) (replicate 18 0))) (\<lambda>(_, desc).
      io_bind (usb_call (set_address host fuel dev addr)) (\<lambda>dev.
      let dev = dev\<lparr>max_packet_size := max (ucast (desc ! 7)) 8\<rparr> in
      io_bind (usb_call (get_configuration_descriptor host fuel dev (at_cfg_hdr stk) (replicate 9 0))) (\<lambda>(_, cfg_hdr).
      let total_len = clamp 9 64 (unat (rd16 [cfg_hdr ! 2, cfg_hdr ! 3])); config_value = cfg_hdr ! 5 in
      io_bind (usb_call (get_configuration_descriptor host fuel dev (at_cfg stk) (replicate total_len 0))) (\<lambda>(n, part).
      let cfg = put_seg (replicate 64 0) 0 part in
      if n > 64 then io_throw Panic
      else
        io_bind (lift_checked (find_hid_keyboard_endpoint (take n cfg))) (\<lambda>found.
        case found of
          None \<Rightarrow> io_throw (Err NoKeyboardFound)
        | Some (ep, mps) \<Rightarrow>
            io_bind (usb_call (set_configuration host fuel dev config_value)) (\<lambda>_.
            io_bind (usb_call (u_sleep host 1)) (\<lambda>_.
              io_return \<lparr>kb_dev = dev, ep_num = ep, ep_mps = min mps 8, prev_report = replicate 8 0\<rparr>))))))))"

primrec port_loop :: "'h usb_host \<Rightarrow> nat \<Rightarrow> hid_stack \<Rightarrow> usb_device \<Rightarrow> u16 list \<Rightarrow> ('h, keyboard) hid_io" where
  "port_loop host fuel stk hub [] = io_throw (Err NoKeyboardFound)"
| "port_loop host fuel stk hub (port # ports) =
     io_bind (io_ok (hub_power_and_reset_port host fuel (at_status stk) hub port)) (\<lambda>r.
       case r of
         Some (Some spd) \<Rightarrow>
           io_bind (io_ok (enumerate_as_keyboard host fuel stk spd 2)) (\<lambda>k.
             case k of Some kbd \<Rightarrow> io_return kbd | None \<Rightarrow> port_loop host fuel stk hub ports)
       | _ \<Rightarrow> port_loop host fuel stk hub ports)"

definition find_keyboard :: "'h usb_host \<Rightarrow> nat \<Rightarrow> hid_stack \<Rightarrow> speed \<Rightarrow> ('h, keyboard) hid_io" where
  "find_keyboard host fuel stk root_speed =
     (let root = \<lparr>dev_addr = 0, max_packet_size = 8, low_speed = (root_speed = Low)\<rparr> in
      io_bind (usb_call (get_device_descriptor host fuel root (at_desc stk) (replicate 18 0))) (\<lambda>(_, desc).
      if desc ! 4 = 0x09 then
        let hub = \<lparr>dev_addr = 0, max_packet_size = max (ucast (desc ! 7)) 8, low_speed = low_speed root\<rparr> in
        io_bind (usb_call (set_address host fuel hub 1)) (\<lambda>hub.
        io_bind (usb_call (hub_get_descriptor host fuel hub (at_hub_desc stk) (replicate 9 0))) (\<lambda>(_, hub_desc).
          port_loop host fuel stk hub (map of_nat [1..<unat (hub_desc ! 2) + 1])))
      else enumerate_as_keyboard host fuel stk root_speed 1))"

section \<open>Polling\<close>

text \<open>The loop over the six key codes of a report.\<close>

definition new_keys :: "u8 list \<Rightarrow> u8 list \<Rightarrow> u8 list" where
  "new_keys prev report =
     fst (fold (\<lambda>code (keys, ni).
            if code \<noteq> 0 \<and> code \<notin> set (seg prev 2 6) \<and> ni < 6 then (keys[ni := code], ni + 1) else (keys, ni))
          (seg report 2 6) (replicate 6 0, 0 :: nat))"

definition poll_new_keys :: "'h usb_host \<Rightarrow> nat \<Rightarrow> hid_stack \<Rightarrow> keyboard \<Rightarrow> ('h, u8 list \<times> keyboard) usb_io" where
  "poll_new_keys host fuel stk kbd =
     (if ep_mps kbd > 8 then io_throw Panic
      else
        io_bind (interrupt_in host fuel (kb_dev kbd) (ep_num kbd) (at_report stk) (replicate (ep_mps kbd) 0)) (\<lambda>(n, part).
          let report = put_seg (replicate 8 0) 0 part in
          if n = 0 then io_return (replicate 6 0, kbd)
          else io_return (new_keys (prev_report kbd) report, kbd\<lparr>prev_report := report\<rparr>)))"

text \<open>The menu bytes of a key code; the source writes them into a three-byte array and returns their number.\<close>

definition keycode_to_menu_bytes :: "u8 \<Rightarrow> u8 list \<Rightarrow> nat \<times> u8 list" where
  "keycode_to_menu_bytes code out =
     (if code = 0x0D then (1, out[0 := 0x6A])
      else if code = 0x0E then (1, out[0 := 0x6B])
      else if code = 0x28 then (1, out[0 := 0x0D])
      else if code = 0x51 then (3, out[0 := 0x1B, 1 := 0x5B, 2 := 0x42])
      else if code = 0x52 then (3, out[0 := 0x1B, 1 := 0x5B, 2 := 0x41])
      else if code = 0x50 then (3, out[0 := 0x1B, 1 := 0x5B, 2 := 0x44])
      else if code = 0x4F then (3, out[0 := 0x1B, 1 := 0x5B, 2 := 0x43])
      else if code = 0x29 then (1, out[0 := 0x08])
      else if code = 0x2A then (1, out[0 := 0x7F])
      else (0, out))"

section \<open>The endpoint search\<close>

lemma find_endpoint_stop:
  "\<not> (i + 2 \<le> length cfg \<and> unat (cfg ! i) \<noteq> 0 \<and> i + unat (cfg ! i) \<le> length cfg) \<Longrightarrow> find_endpoint cfg i kb = Inr None"
  by (subst find_endpoint.simps) (auto simp: Let_def)

text \<open>One descriptor, the indexing checked once and for all.\<close>

lemma find_endpoint_step:
  assumes "i + 2 \<le> length cfg" "len = unat (cfg ! i)" "len \<noteq> 0" "i + len \<le> length cfg"
  shows "find_endpoint cfg i kb =
    (if cfg ! (i + 1) = 4 \<and> len \<ge> 9 then find_endpoint cfg (i + len) (cfg ! (i + 5) = 3 \<and> cfg ! (i + 6) = 1 \<and> cfg ! (i + 7) = 1)
     else if cfg ! (i + 1) = 5 \<and> len \<ge> 7 \<and> kb \<and> cfg ! (i + 2) AND 0x80 \<noteq> 0
     then Inr (Some (ucast (cfg ! (i + 2) AND 0x0F), unat (rd16 [cfg ! (i + 4), cfg ! (i + 5)])))
     else find_endpoint cfg (i + len) kb)"
  using assms by (subst find_endpoint.simps) (auto simp: Let_def)

lemma find_endpoint_total: "\<exists>r. find_endpoint cfg i kb = Inr r"
proof (induction "length cfg - i" arbitrary: i kb rule: less_induct)
  case less
  show ?case
  proof (cases "i + 2 \<le> length cfg \<and> unat (cfg ! i) \<noteq> 0 \<and> i + unat (cfg ! i) \<le> length cfg")
    case False
    from find_endpoint_stop[OF this] show ?thesis by blast
  next
    case True
    then have "\<exists>r. find_endpoint cfg (i + unat (cfg ! i)) kb' = Inr r" for kb' by (intro less) auto
    then show ?thesis using True find_endpoint_step[of i cfg "unat (cfg ! i)" kb] by auto
  qed
qed

text \<open>The search over a configuration that is a sequence of descriptors.\<close>

definition descriptor :: "u8 list \<Rightarrow> bool" where
  "descriptor d \<longleftrightarrow> 2 \<le> length d \<and> unat (d ! 0) = length d"

definition iface :: "u8 list \<Rightarrow> bool" where
  "iface d \<longleftrightarrow> d ! 1 = 4 \<and> 9 \<le> length d"

definition kb_iface :: "u8 list \<Rightarrow> bool" where
  "kb_iface d \<longleftrightarrow> iface d \<and> d ! 5 = 3 \<and> d ! 6 = 1 \<and> d ! 7 = 1"

definition in_endpoint :: "u8 list \<Rightarrow> bool" where
  "in_endpoint d \<longleftrightarrow> d ! 1 = 5 \<and> 7 \<le> length d \<and> d ! 2 AND 0x80 \<noteq> 0"

definition endpoint_of :: "u8 list \<Rightarrow> u32 \<times> nat" where
  "endpoint_of d = (ucast (d ! 2 AND 0x0F), unat (rd16 [d ! 4, d ! 5]))"

primrec search :: "bool \<Rightarrow> u8 list list \<Rightarrow> (u32 \<times> nat) option" where
  "search kb [] = None"
| "search kb (d # ds) =
     (if iface d then search (kb_iface d) ds
      else if in_endpoint d \<and> kb then Some (endpoint_of d) else search kb ds)"

lemma find_endpoint_search:
  "\<forall>d \<in> set ds. descriptor d \<Longrightarrow> find_endpoint (pre @ concat ds) (length pre) kb = Inr (search kb ds)"
proof (induction ds arbitrary: pre kb)
  case Nil
  then show ?case by (simp add: find_endpoint_stop)
next
  case (Cons d ds)
  let ?cfg = "pre @ concat (d # ds)"
  have d: "2 \<le> length d" "unat (d ! 0) = length d" using Cons.prems by (simp_all add: descriptor_def)
  have nth: "?cfg ! (length pre + k) = d ! k" if "k < length d" for k using that by (simp add: nth_append)
  have rec: "find_endpoint ?cfg (length pre + length d) k = Inr (search k ds)" for k
    using Cons.IH[of "pre @ d" k] Cons.prems by simp
  have "d \<noteq> []" using d(1) by auto
  then have len: "length d = unat (?cfg ! length pre)" using nth[of 0] d(2) by simp
  have "find_endpoint ?cfg (length pre) kb =
    (if d ! 1 = 4 \<and> length d \<ge> 9 then find_endpoint ?cfg (length pre + length d) (d ! 5 = 3 \<and> d ! 6 = 1 \<and> d ! 7 = 1)
     else if d ! 1 = 5 \<and> length d \<ge> 7 \<and> kb \<and> d ! 2 AND 0x80 \<noteq> 0
     then Inr (Some (ucast (d ! 2 AND 0x0F), unat (rd16 [d ! 4, d ! 5])))
     else find_endpoint ?cfg (length pre + length d) kb)"
    using find_endpoint_step[of "length pre" ?cfg "length d" kb] len d nth[of 1] nth[of 2] nth[of 4] nth[of 5] nth[of 6] nth[of 7] by auto
  then show ?case
    unfolding rec by (simp add: iface_def kb_iface_def in_endpoint_def endpoint_of_def)
qed

text \<open>Descriptor \<open>j\<close> belongs to a keyboard interface: the last interface descriptor before it is one.\<close>

definition in_keyboard :: "u8 list list \<Rightarrow> nat \<Rightarrow> bool" where
  "in_keyboard ds j \<longleftrightarrow> (\<exists>i < j. kb_iface (ds ! i) \<and> (\<forall>k. i < k \<and> k < j \<longrightarrow> \<not> iface (ds ! k)))"

lemma find_map_option: "find P (map f xs) = map_option f (find (P \<circ> f) xs)"
  by (induction xs) auto

lemma in_keyboard_Cons:
  "in_keyboard (d # ds) (Suc j) \<longleftrightarrow> in_keyboard ds j \<or> kb_iface d \<and> (\<forall>k < j. \<not> iface (ds ! k))"
proof -
  have shift: "(\<forall>k. Suc i < k \<and> k < Suc j \<longrightarrow> Q k) \<longleftrightarrow> (\<forall>k. i < k \<and> k < j \<longrightarrow> Q (Suc k))"
    "(\<forall>k. 0 < k \<and> k < Suc j \<longrightarrow> Q k) \<longleftrightarrow> (\<forall>k < j. Q (Suc k))" for i and Q :: "nat \<Rightarrow> bool"
    by (metis Suc_less_eq Suc_lessE) (metis Suc_less_eq gr0_conv_Suc)
  show ?thesis unfolding in_keyboard_def Ex_less_Suc2 shift by auto
qed

lemma search_spec:
  "search kb ds = map_option (\<lambda>j. endpoint_of (ds ! j))
     (find (\<lambda>j. in_endpoint (ds ! j) \<and> (in_keyboard ds j \<or> kb \<and> (\<forall>k < j. \<not> iface (ds ! k)))) [0..<length ds])"
proof (induction ds arbitrary: kb)
  case (Cons d ds)
  have ends: "in_endpoint d \<Longrightarrow> \<not> iface d" by (auto simp: in_endpoint_def iface_def)
  have "in_keyboard (d # ds) (Suc j) \<or> kb \<and> (\<forall>k < Suc j. \<not> iface ((d # ds) ! k)) \<longleftrightarrow>
      in_keyboard ds j \<or> (if iface d then kb_iface d else kb) \<and> (\<forall>k < j. \<not> iface (ds ! k))" for j
    unfolding in_keyboard_Cons by (auto simp: kb_iface_def All_less_Suc2)
  then have "find (\<lambda>j. in_endpoint ((d # ds) ! j) \<and> (in_keyboard (d # ds) j \<or> kb \<and> (\<forall>k < j. \<not> iface ((d # ds) ! k)))) [0..<length (d # ds)]
      = (if in_endpoint d \<and> kb then Some 0 else map_option Suc (find (\<lambda>j. in_endpoint (ds ! j) \<and>
          (in_keyboard ds j \<or> (if iface d then kb_iface d else kb) \<and> (\<forall>k < j. \<not> iface (ds ! k)))) [0..<length ds]))"
    unfolding length_Cons upt_conv_Cons[OF zero_less_Suc] map_Suc_upt[symmetric] by (simp add: find_map_option comp_def in_keyboard_def)
  then show ?case using ends by (auto simp: Cons.IH option.map_comp comp_def)
qed simp

text \<open>An endpoint descriptor whose transfer type, the low two bits of bmAttributes, is interrupt.\<close>

definition interrupt_endpoint :: "u8 list \<Rightarrow> bool" where
  "interrupt_endpoint d \<longleftrightarrow> d ! 3 AND 3 = 3"

text \<open>
  C18: the endpoint search never indexes out of range, whatever the bytes; and on a configuration made of
  descriptors it returns the first IN endpoint, of whatever transfer type, whose interface, the last one
  described before it, is a boot keyboard, with its number and packet size, or none when there is none.
  Where the IN endpoints of the keyboard interfaces are interrupt endpoints, as the HID specification
  has them, that is the first interrupt IN endpoint of a keyboard interface. (The comment of the function
  promises the latter without the condition; the transfer type is never read.)
\<close>

theorem keyboard_endpoint_found:
  "(\<exists>r. find_hid_keyboard_endpoint bytes = Inr r) \<and>
   ((\<forall>d \<in> set ds. descriptor d) \<longrightarrow>
     find_hid_keyboard_endpoint (concat ds) = Inr (map_option (\<lambda>j. endpoint_of (ds ! j))
       (find (\<lambda>j. in_endpoint (ds ! j) \<and> in_keyboard ds j) [0..<length ds])) \<and>
     ((\<forall>j < length ds. in_endpoint (ds ! j) \<and> in_keyboard ds j \<longrightarrow> interrupt_endpoint (ds ! j)) \<longrightarrow>
      find_hid_keyboard_endpoint (concat ds) = Inr (map_option (\<lambda>j. endpoint_of (ds ! j))
       (find (\<lambda>j. in_endpoint (ds ! j) \<and> interrupt_endpoint (ds ! j) \<and> in_keyboard ds j) [0..<length ds]))))"
proof -
  have same: "find (\<lambda>j. in_endpoint (ds ! j) \<and> interrupt_endpoint (ds ! j) \<and> in_keyboard ds j) [0..<length ds] =
      find (\<lambda>j. in_endpoint (ds ! j) \<and> in_keyboard ds j) [0..<length ds]"
    if "\<forall>j < length ds. in_endpoint (ds ! j) \<and> in_keyboard ds j \<longrightarrow> interrupt_endpoint (ds ! j)"
    using that by (intro find_cong) auto
  have "find_hid_keyboard_endpoint (concat ds) = Inr (map_option (\<lambda>j. endpoint_of (ds ! j))
       (find (\<lambda>j. in_endpoint (ds ! j) \<and> in_keyboard ds j) [0..<length ds]))" if "\<forall>d \<in> set ds. descriptor d"
    using find_endpoint_search[OF that, of "[]" False] search_spec[of False ds] by (simp add: find_hid_keyboard_endpoint_def)
  moreover have "\<exists>r. find_hid_keyboard_endpoint bytes = Inr r"
    using find_endpoint_total[of bytes 0 False] by (simp add: find_hid_keyboard_endpoint_def)
  ultimately show ?thesis by (intro conjI impI) (simp_all only: same)
qed

text \<open>A bulk IN endpoint of a keyboard interface is returned in place of its interrupt endpoint behind it.\<close>

theorem bulk_endpoint_returned:
  "find_hid_keyboard_endpoint ([9, 4, 0, 0, 2, 3, 1, 1, 0] @ [7, 5, 0x82, 2, 64, 0, 0] @ [7, 5, 0x81, 3, 8, 0, 10]) = Inr (Some (2, 64))"
  by code_simp

theorem keyboard_endpoint_found_witness:
  "find_hid_keyboard_endpoint ([9, 2, 34, 0, 1, 1, 0, 0xA0, 50] @ [9, 4, 0, 0, 1, 3, 1, 1, 0] @ [9, 0x21, 0x11, 1, 0, 1, 0x22, 63, 0] @
     [7, 5, 0x81, 3, 8, 0, 10]) = Inr (Some (1, 8))"
proof -
  let ?ds = "[[9, 2, 34, 0, 1, 1, 0, 0xA0, 50], [9, 4, 0, 0, 1, 3, 1, 1, 0], [9, 0x21, 0x11, 1, 0, 1, 0x22, 63, 0], [7, 5, 0x81, 3, 8, 0, 10]] :: u8 list list"
  have "in_keyboard ?ds 3" unfolding in_keyboard_def
    by (intro exI[of _ 1] conjI) (auto simp: kb_iface_def iface_def less_Suc_eq numeral_3_eq_3)
  then show ?thesis using keyboard_endpoint_found[of _ ?ds]
    by (simp add: descriptor_def in_endpoint_def endpoint_of_def upt_rec numeral_3_eq_3)
qed

section \<open>Key events\<close>

lemma fold_new_keys:
  "ni + length cs \<le> 6 \<Longrightarrow> length keys = 6 \<Longrightarrow>
   fold (\<lambda>code (keys, ni). if code \<noteq> 0 \<and> code \<notin> P \<and> ni < 6 then (keys[ni := code], ni + 1) else (keys, ni)) cs (keys, ni)
   = (let new = filter (\<lambda>c. c \<noteq> (0 :: u8) \<and> c \<notin> P) cs in (put_seg keys ni new, ni + length new))"
proof (induction cs arbitrary: keys ni)
  case (Cons c cs)
  have upd: "put_seg (keys[ni := c]) (Suc ni) new = put_seg keys ni (c # new)" if "ni < length keys" for new
    using that by (simp add: put_seg_def take_Suc_conv_app_nth nth_append)
  show ?case using Cons.prems Cons.IH[of ni keys] Cons.IH[of "Suc ni" "keys[ni := c]"] by (auto simp: Let_def upd)
qed simp

text \<open>The keys of a report: the codes that are not zero and were not in the previous one, padded with zeros.\<close>

lemma new_keys_eq:
  fixes prev report :: "u8 list"
  assumes "length report = 8"
  defines "new \<equiv> filter (\<lambda>c. c \<noteq> 0 \<and> c \<notin> set (seg prev 2 6)) (seg report 2 6)"
  shows "new_keys prev report = new @ replicate (6 - length new) 0"
proof -
  have len: "length (seg report 2 6) = 6" using assms(1) by simp
  have "new_keys prev report = put_seg (replicate 6 0) 0 new"
    unfolding new_keys_def by (subst fold_new_keys) (simp_all only: len Let_def fst_conv new_def length_replicate add_0 order_refl)
  also have "\<dots> = new @ replicate (6 - length new) 0" unfolding put_seg_def by simp
  finally show ?thesis .
qed

text \<open>
  What successive interrupt transactions of a keyboard deliver: a report, or nothing when the keyboard
  answers NAK.
\<close>

inductive delivers :: "'h usb_host \<Rightarrow> nat \<Rightarrow> hid_stack \<Rightarrow> keyboard \<Rightarrow> 'h \<Rightarrow> u8 list option list \<Rightarrow> 'h \<Rightarrow> bool"
  for host fuel stk kbd where
  delivers_nil: "delivers host fuel stk kbd h [] h"
| delivers_none: "interrupt_in host fuel (kb_dev kbd) (ep_num kbd) (at_report stk) (replicate (ep_mps kbd) 0) h = (Inr (0, part), h1) \<Longrightarrow>
    delivers host fuel stk kbd h1 ps h' \<Longrightarrow> delivers host fuel stk kbd h (None # ps) h'"
| delivers_report: "interrupt_in host fuel (kb_dev kbd) (ep_num kbd) (at_report stk) (replicate (ep_mps kbd) 0) h = (Inr (n, part), h1) \<Longrightarrow>
    0 < n \<Longrightarrow> length part = ep_mps kbd \<Longrightarrow> delivers host fuel stk kbd h1 ps h' \<Longrightarrow>
    delivers host fuel stk kbd h (Some (put_seg (replicate 8 0) 0 part) # ps) h'"

primrec poll_many :: "'h usb_host \<Rightarrow> nat \<Rightarrow> hid_stack \<Rightarrow> nat \<Rightarrow> keyboard \<Rightarrow> ('h, u8 list) usb_io" where
  "poll_many host fuel stk 0 kbd = io_return []"
| "poll_many host fuel stk (Suc n) kbd =
     io_bind (poll_new_keys host fuel stk kbd) (\<lambda>(keys, kbd').
     io_bind (poll_many host fuel stk n kbd') (\<lambda>rest. io_return (keys @ rest)))"

text \<open>
  The keys that are held, and how often one of them goes down. A report shows the held keys when its
  codes are these, each once; an answer that is none says that nothing changed. A keyboard with more
  than six keys down cannot answer so: it reports a rollover.
\<close>

definition shows_keys :: "u8 set \<Rightarrow> u8 list \<Rightarrow> bool" where
  "shows_keys held r \<longleftrightarrow> distinct (filter (\<lambda>c. c \<noteq> 0) (seg r 2 6)) \<and> held = set (seg r 2 6) - {0}"

fun reported :: "u8 set \<Rightarrow> u8 set list \<Rightarrow> u8 list option list \<Rightarrow> bool" where
  "reported held [] [] = True"
| "reported held (now # hs) (None # ps) = (now = held \<and> reported now hs ps)"
| "reported held (now # hs) (Some r # ps) = (shows_keys now r \<and> reported now hs ps)"
| "reported held _ _ = False"

fun keydowns :: "u8 \<Rightarrow> u8 set \<Rightarrow> u8 set list \<Rightarrow> nat" where
  "keydowns c held [] = 0"
| "keydowns c held (now # hs) = (if c \<in> now \<and> c \<notin> held then 1 else 0) + keydowns c now hs"

lemma count_distinct: "distinct xs \<Longrightarrow> count_list xs x = (if x \<in> set xs then 1 else 0)"
  by (induction xs) auto

lemma count_new_keys:
  assumes "length r = 8" "c \<noteq> 0" "distinct (filter (\<lambda>c. c \<noteq> 0) (seg r 2 6))"
  shows "count_list (new_keys prev r) c = (if c \<in> set (seg r 2 6) \<and> c \<notin> set (seg prev 2 6) then 1 else 0)"
proof -
  let ?new = "filter (\<lambda>c. c \<noteq> 0 \<and> c \<notin> set (seg prev 2 6)) (seg r 2 6)"
  have "distinct ?new" using distinct_filter[OF assms(3), of "\<lambda>c. c \<notin> set (seg prev 2 6)"] by (simp add: conj_commute)
  then have "count_list ?new c = (if c \<in> set ?new then 1 else 0)" by (rule count_distinct)
  moreover have "count_list (replicate k 0) c = 0" for k using assms(2) by (induction k) auto
  ultimately show ?thesis using assms(2) by (simp add: new_keys_eq[OF assms(1)])
qed

lemma delivers_dev: "delivers host fuel stk kbd h rs h' \<Longrightarrow> delivers host fuel stk (kbd\<lparr>prev_report := p\<rparr>) h rs h'"
  by (induction rule: delivers.induct) (auto intro: delivers.intros)

fun key_log :: "u8 list \<Rightarrow> u8 list option list \<Rightarrow> u8 list" where
  "key_log prev [] = []"
| "key_log prev (None # ps) = replicate 6 0 @ key_log prev ps"
| "key_log prev (Some r # ps) = new_keys prev r @ key_log r ps"

inductive_cases delivers_NoneE: "delivers host fuel stk kbd h (None # ps) h'"
inductive_cases delivers_SomeE: "delivers host fuel stk kbd h (Some r # ps) h'"
inductive_cases delivers_nilE: "delivers host fuel stk kbd h [] h'"

lemma poll_many_log:
  "delivers host fuel stk kbd h ps h' \<Longrightarrow> ep_mps kbd \<le> 8 \<Longrightarrow>
   poll_many host fuel stk (length ps) kbd h = (Inr (key_log (prev_report kbd) ps), h') \<and> (\<forall>r. Some r \<in> set ps \<longrightarrow> length r = 8)"
proof (induction ps arbitrary: h kbd)
  case Nil
  then show ?case by (auto simp: io_return_def elim: delivers_nilE)
next
  case (Cons p ps)
  show ?case
  proof (cases p)
    case None
    from Cons.prems(1)[unfolded None] obtain part h1
      where i: "interrupt_in host fuel (kb_dev kbd) (ep_num kbd) (at_report stk) (replicate (ep_mps kbd) 0) h = (Inr (0, part), h1)"
      and rest: "delivers host fuel stk kbd h1 ps h'" by (auto elim: delivers_NoneE)
    have "poll_new_keys host fuel stk kbd h = (Inr (replicate 6 0, kbd), h1)"
      using Cons.prems(2) by (simp add: poll_new_keys_def io_bind_def i io_return_def Let_def)
    then show ?thesis using Cons.IH[OF rest Cons.prems(2)] by (simp add: None io_bind_def io_return_def)
  next
    case (Some r)
    from Cons.prems(1)[unfolded Some] obtain n part h1
      where i: "interrupt_in host fuel (kb_dev kbd) (ep_num kbd) (at_report stk) (replicate (ep_mps kbd) 0) h = (Inr (n, part), h1)"
      and r: "0 < n" "length part = ep_mps kbd" "r = put_seg (replicate 8 0) 0 part" and rest: "delivers host fuel stk kbd h1 ps h'"
      by (auto elim: delivers_SomeE)
    let ?k = "kbd\<lparr>prev_report := r\<rparr>"
    have "poll_new_keys host fuel stk kbd h = (Inr (new_keys (prev_report kbd) r, ?k), h1)"
      using Cons.prems(2) r by (simp add: poll_new_keys_def io_bind_def i io_return_def Let_def)
    then show ?thesis using Cons.IH[OF delivers_dev[OF rest, of r]] Cons.prems(2) r by (simp add: Some io_bind_def io_return_def)
  qed
qed

lemma count_zeros: "c \<noteq> (0 :: u8) \<Longrightarrow> count_list (replicate k 0) c = 0"
  by (induction k) auto

lemma count_key_log:
  assumes "c \<noteq> 0"
  shows "\<forall>r. Some r \<in> set ps \<longrightarrow> length r = 8 \<Longrightarrow> reported held hs ps \<Longrightarrow> held = set (seg prev 2 6) - {0} \<Longrightarrow>
   count_list (key_log prev ps) c = keydowns c held hs"
proof (induction held hs ps arbitrary: prev rule: reported.induct)
  case (3 held now hs r ps)
  then have "count_list (new_keys prev r) c = (if c \<in> now \<and> c \<notin> held then 1 else 0)"
    using assms by (subst count_new_keys) (auto simp: shows_keys_def)
  moreover have "count_list (key_log r ps) c = keydowns c now hs" using 3 by (intro "3.IH") (auto simp: shows_keys_def)
  ultimately show ?case by simp
qed (use assms in \<open>simp_all add: count_zeros\<close>)

text \<open>
  C7: as long as the keyboard reports the keys that are held (not more than six, each listed once) or
  answers that nothing changed, polling it any number of times reports a key exactly as often as it
  goes down, that is, as it is held at a poll and was not at the one before: no keydown is lost and a
  held key is not repeated. When more keys are held than a report can list, the keyboard sends a rollover
  report instead, and \<open>rollover_repeats_key\<close> below shows that then the claim of the comment fails.
\<close>

theorem keydown_reported_once:
  assumes "delivers host fuel stk kbd h ps h'" "ep_mps kbd \<le> 8" "c \<noteq> 0"
    and "reported (set (seg (prev_report kbd) 2 6) - {0}) hs ps"
  shows "\<exists>keys. poll_many host fuel stk (length ps) kbd h = (Inr keys, h') \<and>
    count_list keys c = keydowns c (set (seg (prev_report kbd) 2 6) - {0}) hs"
  using poll_many_log[OF assms(1,2)] count_key_log[OF assms(3) _ assms(4) refl] by simp

text \<open>
  A rollover report, which a boot keyboard sends while too many keys are down (every code is 1),
  replaces the remembered report, so that a key that is held throughout is reported a second time.
\<close>

theorem rollover_repeats_key:
  assumes "delivers host fuel stk kbd h
      [Some [0, 0, c, 0, 0, 0, 0, 0], Some [0, 0, 1, 1, 1, 1, 1, 1], Some [0, 0, c, 0, 0, 0, 0, 0]] h'"
    and "ep_mps kbd \<le> 8" "prev_report kbd = replicate 8 0" "1 < c"
  shows "\<exists>keys. poll_many host fuel stk 3 kbd h = (Inr keys, h') \<and> count_list keys c = 2"
proof -
  have c: "c \<noteq> 0" "c \<noteq> 1" using assms(4) by auto
  then show ?thesis using poll_many_log[OF assms(1,2)]
    by (simp add: assms(3) new_keys_eq seg_def numeral_3_eq_3 numeral_2_eq_2 eval_nat_numeral)
qed

section \<open>A keyboard on the simulated controller\<close>

text \<open>A bus whose only device answers each IN transaction with the next element of a queue, or with NAK.\<close>

definition queue_bus :: "u8 list option list usb_bus" where
  "queue_bus tok payload b = (case b of Some r # ps \<Rightarrow> (Ack r, ps) | _ \<Rightarrow> (Nak, tl b))"

definition queue_view :: "u8 list option list \<Rightarrow> u8 list option list usb_view" where
  "queue_view rs = \<lparr>uv_dma = 0, uv_tsiz = 0, uv_int = 0, uv_pending = 0, uv_mem = (\<lambda>_. 0), uv_bus = rs\<rparr>"

abbreviation queue_host :: "u8 list option list usb_view usb_host" where
  "queue_host \<equiv> sim_usb queue_bus 0x84448004 0x1000 0x2000"

definition queue_stack :: hid_stack where
  "queue_stack = \<lparr>at_desc = 0x3000, at_cfg_hdr = 0x4000, at_cfg = 0x5000, at_hub_desc = 0x6000, at_status = 0x7000, at_report = 0x8000\<rparr>"

definition queue_keyboard :: keyboard where
  "queue_keyboard = \<lparr>kb_dev = \<lparr>dev_addr = 1, max_packet_size = 8, low_speed = True\<rparr>, ep_num = 1, ep_mps = 8, prev_report = replicate 8 0\<rparr>"

lemma queue_ok:
  "dev_ok (kb_dev queue_keyboard)" "size_ok (kb_dev queue_keyboard) 8" "area_ok (ctr_el0 queue_host) (at_report queue_stack) 8"
  "(1 :: u32) < 2 ^ 4" "2 ^ 15 \<le> (40000 :: nat)" "1 \<le> (40000 :: nat)"
proof -
  have "ctr_el0 queue_host = 0x84448004" "line_size 0x84448004 = 64" by (simp_all add: sim_usb_def line_size_def)
  then show "dev_ok (kb_dev queue_keyboard)" "size_ok (kb_dev queue_keyboard) 8" "area_ok (ctr_el0 queue_host) (at_report queue_stack) 8"
    by (simp_all add: dev_ok_def size_ok_def area_ok_def queue_keyboard_def queue_stack_def)
qed simp_all

lemma queue_delivers:
  "\<forall>r. Some r \<in> set ps \<longrightarrow> length r = 8 \<Longrightarrow> uv_pending v = 0 \<Longrightarrow> uv_bus v = ps \<Longrightarrow>
   \<exists>v'. delivers queue_host 40000 queue_stack queue_keyboard v ps v'"
proof (induction ps arbitrary: v)
  case Nil
  show ?case by (rule exI) (rule delivers_nil)
next
  case (Cons p ps)
  let ?dev = "kb_dev queue_keyboard" and ?buf = "replicate 8 0 :: u8 list"
  have ok: "dev_ok ?dev" "size_ok ?dev (length ?buf)" "area_ok (ctr_el0 queue_host) (at_report queue_stack) (length ?buf)"
    "(1 :: u32) < 2 ^ 4" "2 ^ 15 \<le> (40000 :: nat)" "1 \<le> (40000 :: nat)"
    unfolding length_replicate by (rule queue_ok)+
  have mps: "ep_mps queue_keyboard = 8" "ep_num queue_keyboard = 1" by (simp_all add: queue_keyboard_def)
  have quiet: "True \<and> uv_pending v = 0" using Cons.prems(2) by simp
  show ?case
  proof (cases p)
    case None
    have ex: "exchange reply_bits queue_bus ?dev 1 EP_TYPE_INTERRUPT True PID_DATA1 ?buf (uv_bus v) = (Inl (Err (TransferError 0x12)), ps)"
      by (simp add: exchange_def queue_bus_def Cons.prems(3) None)
    from sim_dwc2.interrupt_none[OF ok quiet ex] obtain v1 part
      where v1: "interrupt_in queue_host 40000 ?dev 1 (at_report queue_stack) ?buf v = (Inr (0, part), v1)" "uv_pending v1 = 0" "uv_bus v1 = ps"
      by (auto simp: HCINT_NAK_def)
    from Cons.IH[OF _ v1(2,3)] Cons.prems(1) obtain v' where "delivers queue_host 40000 queue_stack queue_keyboard v1 ps v'" by auto
    then show ?thesis using delivers_none[of queue_host 40000 queue_keyboard queue_stack v part v1 ps v'] v1(1) by (auto simp: None mps)
  next
    case (Some r)
    have len: "length r = 8" using Cons.prems Some by simp
    have ex: "exchange reply_bits queue_bus ?dev 1 EP_TYPE_INTERRUPT True PID_DATA1 ?buf (uv_bus v) = (Inr (8, r), ps)"
      using len by (simp add: exchange_def queue_bus_def Cons.prems(3) Some)
    from sim_dwc2.interrupt_delivers[OF ok quiet ex] obtain v1
      where v1: "interrupt_in queue_host 40000 ?dev 1 (at_report queue_stack) ?buf v = (Inr (8, r), v1)" "uv_pending v1 = 0" "uv_bus v1 = ps"
      by blast
    from Cons.IH[OF _ v1(2,3)] Cons.prems(1) obtain v' where "delivers queue_host 40000 queue_stack queue_keyboard v1 ps v'" by auto
    moreover have "put_seg (replicate 8 0) 0 r = r" using len by (simp add: put_seg_def)
    ultimately show ?thesis
      using delivers_report[of queue_host 40000 queue_keyboard queue_stack v 8 r v1 ps v'] v1(1) len by (auto simp: Some mps)
  qed
qed

theorem keydown_reported_once_witness:
  "\<exists>keys v'. poll_many queue_host 40000 queue_stack 4 queue_keyboard
       (queue_view [Some [0, 0, 4, 0, 0, 0, 0, 0], None, Some [0, 0, 4, 5, 0, 0, 0, 0], Some [0, 0, 5, 0, 0, 0, 0, 0]]) = (Inr keys, v') \<and>
     count_list keys 4 = 1"
proof -
  let ?ps = "[Some [0, 0, 4, 0, 0, 0, 0, 0], None, Some [0, 0, 4, 5, 0, 0, 0, 0], Some [0, 0, 5, 0, 0, 0, 0, 0]] :: u8 list option list"
  let ?hs = "[{4}, {4}, {4, 5}, {5}] :: u8 set list"
  obtain v' where d: "delivers queue_host 40000 queue_stack queue_keyboard (queue_view ?ps) ?ps v'"
    using queue_delivers[of ?ps "queue_view ?ps"] by (auto simp: queue_view_def)
  have s: "seg [0, 0, a, b, c, d, e, f] 2 6 = [a, b, c, d, e, f]" for a b c d e f :: u8 by (simp add: seg_def)
  have p: "set (seg (prev_report queue_keyboard) 2 6) - {0} = {}" by (simp add: seg_def queue_keyboard_def)
  have ok: "ep_mps queue_keyboard \<le> 8" "(4 :: u8) \<noteq> 0" by (simp_all add: queue_keyboard_def)
  have rep: "reported (set (seg (prev_report queue_keyboard) 2 6) - {0}) ?hs ?ps"
    unfolding p by (auto simp: shows_keys_def s)
  from keydown_reported_once[OF d ok rep] obtain keys
    where "poll_many queue_host 40000 queue_stack (length ?ps) queue_keyboard (queue_view ?ps) = (Inr keys, v')"
      "count_list keys 4 = keydowns 4 (set (seg (prev_report queue_keyboard) 2 6) - {0}) ?hs" by (elim exE conjE)
  moreover have "keydowns 4 (set (seg (prev_report queue_keyboard) 2 6) - {0}) ?hs = 1" "length ?ps = 4"
    unfolding p by simp_all
  ultimately show ?thesis by (intro exI[of _ keys] exI[of _ v']) (simp only: simp_thms)
qed

theorem rollover_repeats_key_witness:
  "\<exists>keys v'. poll_many queue_host 40000 queue_stack 3 queue_keyboard
       (queue_view [Some [0, 0, 4, 0, 0, 0, 0, 0], Some [0, 0, 1, 1, 1, 1, 1, 1], Some [0, 0, 4, 0, 0, 0, 0, 0]]) = (Inr keys, v') \<and>
     count_list keys 4 = 2"
proof -
  let ?ps = "[Some [0, 0, 4, 0, 0, 0, 0, 0], Some [0, 0, 1, 1, 1, 1, 1, 1], Some [0, 0, 4, 0, 0, 0, 0, 0]] :: u8 list option list"
  obtain v' where "delivers queue_host 40000 queue_stack queue_keyboard (queue_view ?ps) ?ps v'"
    using queue_delivers[of ?ps "queue_view ?ps"] by (auto simp: queue_view_def)
  from rollover_repeats_key[OF this] show ?thesis by (auto simp: queue_keyboard_def)
qed

end
