(* ===== verification/Uart.thy ===== *)
theory Uart
  imports Sd
begin

text \<open>
  \<^verbatim>\<open>src/src/uart.rs\<close>: the PL011 driver, over the register interface of \<open>Sd\<close>. The transmit loop takes
  fuel, since only the device ends it. The locale \<open>serial_line\<close> is what clients rely on of a working
  line: a byte handed to \<open>putc\<close> is sent, \<open>getc\<close> takes the oldest byte received.
\<close>

unbundle bit_operations_syntax

definition GPIO_BASE :: u64 where "GPIO_BASE = PERIPHERAL_BASE + 0x00200000"
definition UART0_BASE :: u64 where "UART0_BASE = PERIPHERAL_BASE + 0x00201000"

definition GPFSEL1 :: u64 where "GPFSEL1 = GPIO_BASE + 0x04"
definition GPPUD :: u64 where "GPPUD = GPIO_BASE + 0x94"
definition GPPUDCLK0 :: u64 where "GPPUDCLK0 = GPIO_BASE + 0x98"
definition UART_DR :: u64 where "UART_DR = UART0_BASE + 0x00"
definition UART_FR :: u64 where "UART_FR = UART0_BASE + 0x18"
definition UART_IBRD :: u64 where "UART_IBRD = UART0_BASE + 0x24"
definition UART_FBRD :: u64 where "UART_FBRD = UART0_BASE + 0x28"
definition UART_LCRH :: u64 where "UART_LCRH = UART0_BASE + 0x2C"
definition UART_CR :: u64 where "UART_CR = UART0_BASE + 0x30"
definition UART_ICR :: u64 where "UART_ICR = UART0_BASE + 0x44"

definition FR_TXFF :: u32 where "FR_TXFF = push_bit 5 1"
definition FR_RXFE :: u32 where "FR_RXFE = push_bit 4 1"

lemmas uart_regs = PERIPHERAL_BASE_def GPIO_BASE_def UART0_BASE_def GPFSEL1_def GPPUD_def GPPUDCLK0_def UART_DR_def
  UART_FR_def UART_IBRD_def UART_FBRD_def UART_LCRH_def UART_CR_def UART_ICR_def

text \<open>The two loops of \<^verbatim>\<open>nop\<close> only pass time.\<close>

definition uart_init :: "('h, 'x) sd_host_scheme \<Rightarrow> 'h \<Rightarrow> 'h" where
  "uart_init host h =
     (case mmio_read host GPFSEL1 h of (sel, h) \<Rightarrow>
      let sel = sel AND NOT (push_bit 12 7 OR push_bit 15 7);
          sel = sel OR (push_bit 12 4 OR push_bit 15 4);
          h = mmio_write host GPFSEL1 sel h;
          h = mmio_write host GPPUD 0 h;
          h = mmio_write host GPPUDCLK0 (push_bit 14 1 OR push_bit 15 1) h;
          h = mmio_write host GPPUDCLK0 0 h;
          h = mmio_write host UART_CR 0 h;
          h = mmio_write host UART_ICR 0x7FF h;
          h = mmio_write host UART_IBRD 26 h;
          h = mmio_write host UART_FBRD 3 h;
          h = mmio_write host UART_LCRH (push_bit 4 1 OR push_bit 5 3) h
      in mmio_write host UART_CR (push_bit 0 1 OR push_bit 8 1 OR push_bit 9 1) h)"

primrec wait_tx :: "('h, 'x) sd_host_scheme \<Rightarrow> nat \<Rightarrow> ('h, 'e, unit) io" where
  "wait_tx host 0 h = (Inl OutOfFuel, h)"
| "wait_tx host (Suc fuel) h =
     (case mmio_read host UART_FR h of (v, h') \<Rightarrow> if v AND FR_TXFF \<noteq> 0 then wait_tx host fuel h' else (Inr (), h'))"

definition uart_putc :: "('h, 'x) sd_host_scheme \<Rightarrow> nat \<Rightarrow> u8 \<Rightarrow> ('h, 'e, unit) io" where
  "uart_putc host fuel c = io_bind (wait_tx host fuel) (\<lambda>_ h. (Inr (), mmio_write host UART_DR (ucast c) h))"

definition uart_getc :: "('h, 'x) sd_host_scheme \<Rightarrow> 'h \<Rightarrow> u8 option \<times> 'h" where
  "uart_getc host h =
     (case mmio_read host UART_FR h of (v, h') \<Rightarrow>
      if v AND FR_RXFE \<noteq> 0 then (None, h')
      else (case mmio_read host UART_DR h' of (d, h'') \<Rightarrow> (Some (ucast d), h'')))"

primrec uart_puts :: "('h, 'x) sd_host_scheme \<Rightarrow> nat \<Rightarrow> u8 list \<Rightarrow> ('h, 'e, unit) io" where
  "uart_puts host fuel [] = io_return ()"
| "uart_puts host fuel (b # bs) =
     io_bind (if b = 0x0A then uart_putc host fuel 0x0D else io_return ()) (\<lambda>_.
     io_bind (uart_putc host fuel b) (\<lambda>_. uart_puts host fuel bs))"

section \<open>A working line\<close>

locale serial_line =
  fixes host :: "('h, 'x) sd_host_scheme"
    and fuel :: nat
    and live :: "'h \<Rightarrow> bool"
    and sent :: "'h \<Rightarrow> u8 list"
    and received :: "'h \<Rightarrow> u8 list"
    and backlog :: "'h \<Rightarrow> nat"
  assumes flags: "live h \<Longrightarrow> mmio_read host UART_FR h = (v, h') \<Longrightarrow>
      live h' \<and> sent h' = sent h \<and> received h' = received h \<and> (v AND FR_RXFE \<noteq> 0 \<longleftrightarrow> received h = []) \<and>
      backlog h' \<le> backlog h - 1 \<and> (backlog h = 0 \<longrightarrow> v AND FR_TXFF = 0)"
    and data_read: "live h \<Longrightarrow> received h = b # bs \<Longrightarrow> mmio_read host UART_DR h = (v, h') \<Longrightarrow>
      live h' \<and> ucast v = b \<and> received h' = bs \<and> sent h' = sent h"
    and data_write: "live h \<Longrightarrow> live (mmio_write host UART_DR (ucast c) h) \<and>
      sent (mmio_write host UART_DR (ucast c) h) = sent h @ [c] \<and> received (mmio_write host UART_DR (ucast c) h) = received h"
    and drains: "live h \<Longrightarrow> backlog h < fuel"
begin

lemma wait_tx_ends:
  "live h \<Longrightarrow> backlog h < f \<Longrightarrow>
   \<exists>h'. wait_tx host f h = (Inr () :: 'e fault + unit, h') \<and> live h' \<and> sent h' = sent h \<and> received h' = received h"
proof (induction f arbitrary: h)
  case (Suc f)
  obtain v h1 where r: "mmio_read host UART_FR h = (v, h1)" by fastforce
  note s = flags[OF Suc.prems(1) r]
  show ?case
  proof (cases "v AND FR_TXFF \<noteq> 0")
    case True
    then have "backlog h \<noteq> 0" using s by auto
    then have "\<exists>h'. wait_tx host f h1 = (Inr () :: 'e fault + unit, h') \<and> live h' \<and> sent h' = sent h1 \<and> received h' = received h1"
      using s Suc.prems by (intro Suc.IH) auto
    then show ?thesis using True s by (simp add: r)
  qed (use s r in simp)
qed simp

lemma putc_sends:
  assumes "live h"
  shows "\<exists>h'. uart_putc host fuel c h = (Inr () :: 'e fault + unit, h') \<and> live h' \<and> sent h' = sent h @ [c] \<and> received h' = received h"
proof -
  obtain h1 where "wait_tx host fuel h = (Inr () :: 'e fault + unit, h1)" "live h1" "sent h1 = sent h" "received h1 = received h"
    using wait_tx_ends[OF assms drains[OF assms]] by blast
  then show ?thesis by (simp add: uart_putc_def io_bind_def data_write)
qed

lemma getc_takes:
  assumes "live h"
  shows "\<exists>h'. live h' \<and> sent h' = sent h \<and>
    (case received h of [] \<Rightarrow> uart_getc host h = (None, h') \<and> received h' = []
     | b # bs \<Rightarrow> uart_getc host h = (Some b, h') \<and> received h' = bs)"
proof -
  obtain v h1 where r: "mmio_read host UART_FR h = (v, h1)" by fastforce
  note s = flags[OF assms r]
  show ?thesis
  proof (cases "received h")
    case Nil
    then show ?thesis using s by (intro exI[of _ h1]) (simp add: uart_getc_def r)
  next
    case (Cons b bs)
    obtain d h2 where d: "mmio_read host UART_DR h1 = (d, h2)" by fastforce
    have "live h2 \<and> ucast d = b \<and> received h2 = bs \<and> sent h2 = sent h1" using s Cons by (intro data_read[OF _ _ d]) auto
    then show ?thesis using s Cons by (intro exI[of _ h2]) (simp add: uart_getc_def r d)
  qed
qed

text \<open>What \<open>puts\<close> sends: the bytes, each line feed with a carriage return before it.\<close>

lemma puts_sends:
  "live h \<Longrightarrow> \<exists>h'. uart_puts host fuel bs h = (Inr () :: 'e fault + unit, h') \<and> live h' \<and> received h' = received h \<and>
     sent h' = sent h @ concat (map (\<lambda>b. if b = 0x0A then [0x0D, 0x0A] else [b]) bs)"
proof (induction bs arbitrary: h)
  case (Cons b bs)
  have "\<exists>h1. (if b = 0x0A then uart_putc host fuel 0x0D else io_return ()) h = (Inr () :: 'e fault + unit, h1) \<and> live h1 \<and>
      sent h1 = sent h @ (if b = 0x0A then [0x0D] else []) \<and> received h1 = received h"
    using putc_sends[OF Cons.prems, of "0x0D"] by (cases "b = 0x0A") (simp_all add: io_return_def Cons.prems)
  then obtain h1 where h1: "(if b = 0x0A then uart_putc host fuel 0x0D else io_return ()) h = (Inr () :: 'e fault + unit, h1)" "live h1"
      "sent h1 = sent h @ (if b = 0x0A then [0x0D] else [])" "received h1 = received h" by blast
  obtain h2 where h2: "uart_putc host fuel b h1 = (Inr () :: 'e fault + unit, h2)" "live h2" "sent h2 = sent h1 @ [b]" "received h2 = received h1"
    using putc_sends[OF h1(2)] by blast
  from Cons.IH[OF h2(2)] show ?case using h1 h2 by (auto simp: io_bind_def)
qed (simp add: io_return_def)

end

section \<open>A line with an unbounded transmit buffer\<close>

definition sim_line_read :: "u64 \<Rightarrow> u8 list \<times> u8 list \<Rightarrow> u32 \<times> u8 list \<times> u8 list" where
  "sim_line_read reg s =
     (case s of (tx, rx) \<Rightarrow>
        if reg = UART_FR then (if rx = [] then FR_RXFE else 0, s)
        else if reg = UART_DR \<and> rx \<noteq> [] then (ucast (hd rx), tx, tl rx) else (0, s))"

definition sim_line_write :: "u64 \<Rightarrow> u32 \<Rightarrow> u8 list \<times> u8 list \<Rightarrow> u8 list \<times> u8 list" where
  "sim_line_write reg v s = (case s of (tx, rx) \<Rightarrow> if reg = UART_DR then (tx @ [ucast v], rx) else s)"

definition sim_line :: "(u8 list \<times> u8 list) sd_host" where
  "sim_line = \<lparr>mmio_read = sim_line_read, mmio_write = sim_line_write, timer_ticks = (\<lambda>s. (0, s))\<rparr>"

lemma ucast_byte: "(ucast (ucast (c :: u8) :: u32) :: u8) = c"
  by (rule bit_word_eqI) (auto simp: bit_simps)

interpretation sim_uart: serial_line sim_line 1 "\<lambda>_. True" fst snd "\<lambda>_. 0"
  by unfold_locales
    (auto simp: sim_line_def sim_line_read_def sim_line_write_def uart_regs FR_RXFE_def FR_TXFF_def ucast_byte split: if_splits)

end
