(* ===== verification/Service_Tables.thy ===== *)
theory Service_Tables
  imports Crc32 Memory
begin

text \<open>
  The three EFI tables an image receives: \<^verbatim>\<open>src/src/efi/system_table.rs\<close>, the table parts of
  \<^verbatim>\<open>boot_services.rs\<close> and \<^verbatim>\<open>runtime_services.rs\<close>, and \<^verbatim>\<open>src/src/efi/mod.rs\<close>, which brings them up. A service
  table is a header and the addresses of its functions in the order of the struct; \<open>link\<close> is the address
  the linker gave each function. The checksums are computed over the bytes of the \<^verbatim>\<open>repr(C)\<close> layout.
\<close>

section \<open>Layout\<close>

definition header_bytes :: "efi_table_header \<Rightarrow> u8 list" where
  "header_bytes h = le64 (signature h) @ le32 (revision h) @ le32 (header_size h) @ le32 (hdr_crc32 h) @ le32 (hdr_reserved h)"

record service_table =
  tb_hdr :: efi_table_header
  tb_fns :: "addr list"

definition table_bytes :: "service_table \<Rightarrow> u8 list" where
  "table_bytes t = header_bytes (tb_hdr t) @ concat (map le64 (tb_fns t))"

definition REVISION :: u32 where "REVISION = push_bit 16 2 OR 100"

section \<open>Boot services table\<close>

definition BOOT_SERVICES_FIELDS :: "string list" where
  "BOOT_SERVICES_FIELDS =
     [''raise_tpl'', ''restore_tpl'',
      ''allocate_pages'', ''free_pages'', ''get_memory_map'', ''allocate_pool'', ''free_pool'',
      ''create_event'', ''set_timer'', ''wait_for_event'', ''signal_event'', ''close_event'', ''check_event'',
      ''install_protocol_interface'', ''reinstall_protocol_interface'', ''uninstall_protocol_interface'', ''handle_protocol'',
      ''reserved'', ''register_protocol_notify'', ''locate_handle'', ''locate_device_path'', ''install_configuration_table'',
      ''load_image'', ''start_image'', ''exit'', ''unload_image'', ''exit_boot_services'',
      ''get_next_monotonic_count'', ''stall'', ''set_watchdog_timer'',
      ''connect_controller'', ''disconnect_controller'',
      ''open_protocol'', ''close_protocol'', ''open_protocol_information'',
      ''protocols_per_handle'', ''locate_handle_buffer'', ''locate_protocol'',
      ''install_multiple_protocol_interfaces'', ''uninstall_multiple_protocol_interfaces'',
      ''calculate_crc32'', ''copy_mem'', ''set_mem'', ''create_event_ex'']"

text \<open>The static: each field holds the function of its name, except the stubs and the null field.\<close>

definition boot_service_fn :: "string \<Rightarrow> string" where
  "boot_service_fn f =
     (if f \<in> {''register_protocol_notify'', ''locate_device_path'', ''exit'', ''connect_controller'', ''disconnect_controller'',
              ''open_protocol_information'', ''install_multiple_protocol_interfaces'', ''uninstall_multiple_protocol_interfaces''}
      then ''stub'' else f)"

definition BOOT_SERVICES :: "(string \<Rightarrow> addr) \<Rightarrow> service_table" where
  "BOOT_SERVICES link =
     \<lparr>tb_hdr = \<lparr>signature = 0, revision = REVISION, header_size = 376, hdr_crc32 = 0, hdr_reserved = 0\<rparr>,
      tb_fns = map (\<lambda>f. if f = ''reserved'' then 0 else link (boot_service_fn f)) BOOT_SERVICES_FIELDS\<rparr>"

definition ascii :: "string \<Rightarrow> u8 list" where
  "ascii s = map (\<lambda>c. of_nat (of_char c)) s"

definition boot_services_init :: "service_table \<Rightarrow> service_table" where
  "boot_services_init t =
     (let t = t\<lparr>tb_hdr := (tb_hdr t)\<lparr>signature := rd64 (ascii ''BOOTSERV''), hdr_crc32 := 0\<rparr>\<rparr> in
      t\<lparr>tb_hdr := (tb_hdr t)\<lparr>hdr_crc32 := crc32_ieee (table_bytes t)\<rparr>\<rparr>)"

section \<open>Runtime services table\<close>

definition RUNTIME_SERVICES_FIELDS :: "string list" where
  "RUNTIME_SERVICES_FIELDS =
     [''get_time'', ''set_time'', ''get_wakeup_time'', ''set_wakeup_time'', ''set_virtual_address_map'', ''convert_pointer'',
      ''get_variable'', ''get_next_variable_name'', ''set_variable'', ''get_next_high_monotonic_count'', ''reset_system'',
      ''update_capsule'', ''query_capsule_capabilities'', ''query_variable_info'']"

definition runtime_service_fn :: "string \<Rightarrow> string" where
  "runtime_service_fn f = (if f \<in> {''update_capsule'', ''query_capsule_capabilities''} then ''stub'' else f)"

definition RUNTIME_SERVICES :: "(string \<Rightarrow> addr) \<Rightarrow> service_table" where
  "RUNTIME_SERVICES link =
     \<lparr>tb_hdr = \<lparr>signature = 0, revision = REVISION, header_size = 136, hdr_crc32 = 0, hdr_reserved = 0\<rparr>,
      tb_fns = map (\<lambda>f. link (runtime_service_fn f)) RUNTIME_SERVICES_FIELDS\<rparr>"

definition runtime_services_init :: "service_table \<Rightarrow> service_table" where
  "runtime_services_init t =
     (let t = t\<lparr>tb_hdr := (tb_hdr t)\<lparr>signature := rd64 (ascii ''RUNTSERV''), hdr_crc32 := 0\<rparr>\<rparr> in
      t\<lparr>tb_hdr := (tb_hdr t)\<lparr>hdr_crc32 := crc32_ieee (table_bytes t)\<rparr>\<rparr>)"

section \<open>System table\<close>

record system_table =
  st_hdr :: efi_table_header
  firmware_vendor :: addr
  firmware_revision :: u32
  console_in_handle :: efi_handle
  con_in :: addr
  console_out_handle :: efi_handle
  con_out :: addr
  standard_error_handle :: efi_handle
  std_err :: addr
  st_runtime_services :: addr
  st_boot_services :: addr
  number_of_table_entries :: u64
  configuration_table :: addr

text \<open>The four bytes after the revision are the padding of the layout.\<close>

definition system_table_bytes :: "system_table \<Rightarrow> u8 list" where
  "system_table_bytes t =
     header_bytes (st_hdr t) @ le64 (firmware_vendor t) @ le32 (firmware_revision t) @ [0, 0, 0, 0] @
     le64 (console_in_handle t) @ le64 (con_in t) @ le64 (console_out_handle t) @ le64 (con_out t) @
     le64 (standard_error_handle t) @ le64 (std_err t) @ le64 (st_runtime_services t) @ le64 (st_boot_services t) @
     le64 (number_of_table_entries t) @ le64 (configuration_table t)"

definition FIRMWARE_VENDOR :: "u16 list" where
  "FIRMWARE_VENDOR = map ucast (ascii ''Ferro'') @ [0]"

definition SYSTEM_TABLE :: system_table where
  "SYSTEM_TABLE =
     \<lparr>st_hdr = \<lparr>signature = 0, revision = REVISION, header_size = 120, hdr_crc32 = 0, hdr_reserved = 0\<rparr>,
      firmware_vendor = 0, firmware_revision = 0x00010000,
      console_in_handle = 0, con_in = 0, console_out_handle = 0, con_out = 0, standard_error_handle = 0, std_err = 0,
      st_runtime_services = 0, st_boot_services = 0, number_of_table_entries = 0, configuration_table = 0\<rparr>"

definition system_table_init :: "(string \<Rightarrow> addr) \<Rightarrow> system_table \<Rightarrow> system_table" where
  "system_table_init link t =
     (let t = t\<lparr>firmware_vendor := link ''FIRMWARE_VENDOR'', st_boot_services := link ''BOOT_SERVICES'',
                st_runtime_services := link ''RUNTIME_SERVICES''\<rparr>;
          t = t\<lparr>st_hdr := (st_hdr t)\<lparr>signature := rd64 (ascii ''IBI SYST''), hdr_crc32 := 0\<rparr>\<rparr> in
      t\<lparr>st_hdr := (st_hdr t)\<lparr>hdr_crc32 := crc32_ieee (system_table_bytes t)\<rparr>\<rparr>)"

section \<open>Bringing the layer up\<close>

definition efi_init :: "u64 \<Rightarrow> (string \<Rightarrow> addr) \<Rightarrow> mem_state \<Rightarrow> mem_state \<times> service_table \<times> service_table \<times> system_table" where
  "efi_init kernel_end link m =
     (memory_init kernel_end m, boot_services_init (BOOT_SERVICES link), runtime_services_init (RUNTIME_SERVICES link),
      system_table_init link SYSTEM_TABLE)"

section \<open>Sealed tables\<close>

text \<open>A table as a reader of its bytes checks it: the size field is its size, the checksum field the CRC with that field zero.\<close>

definition sealed :: "u8 list \<Rightarrow> bool" where
  "sealed bs \<longleftrightarrow> rd32 (seg bs 12 4) = of_nat (length bs) \<and> rd32 (seg bs 16 4) = crc32_ieee (put_seg bs 16 [0, 0, 0, 0])"

lemma length_header_bytes [simp]: "length (header_bytes h) = 24"
  by (simp add: header_bytes_def)

lemma le32_zero: "le32 0 = [0, 0, 0, 0]"
  by (simp add: numeral_eq_Suc)

lemma sealed_header:
  assumes "header_size h = of_nat (24 + length rest)" and "hdr_crc32 h = crc32_ieee (header_bytes (h\<lparr>hdr_crc32 := 0\<rparr>) @ rest)"
  shows "sealed (header_bytes h @ rest)"
proof -
  let ?pre = "le64 (signature h) @ le32 (revision h)" and ?post = "le32 (hdr_reserved h) @ rest"
  have bs: "header_bytes h @ rest = ?pre @ le32 (header_size h) @ le32 (hdr_crc32 h) @ ?post" by (simp add: header_bytes_def)
  have size: "seg (header_bytes h @ rest) 12 4 = le32 (header_size h)" unfolding bs by (rule seg_length_append) simp_all
  have bs2: "header_bytes h @ rest = (?pre @ le32 (header_size h)) @ le32 (hdr_crc32 h) @ ?post" by (simp add: bs)
  have crc: "seg (header_bytes h @ rest) 16 4 = le32 (hdr_crc32 h)" unfolding bs2 by (rule seg_length_append) simp_all
  have zero: "put_seg (header_bytes h @ rest) 16 [0, 0, 0, 0] = (?pre @ le32 (header_size h)) @ [0, 0, 0, 0] @ ?post"
    unfolding bs2 put_seg_def by simp
  have "put_seg (header_bytes h @ rest) 16 [0, 0, 0, 0] = header_bytes (h\<lparr>hdr_crc32 := 0\<rparr>) @ rest"
    by (subst zero) (simp add: header_bytes_def le32_zero)
  then show ?thesis unfolding sealed_def size crc using assms by simp
qed

lemma service_table_sealed:
  assumes "t = (let t = t0\<lparr>tb_hdr := (tb_hdr t0)\<lparr>signature := s, hdr_crc32 := 0\<rparr>\<rparr> in
      t\<lparr>tb_hdr := (tb_hdr t)\<lparr>hdr_crc32 := crc32_ieee (table_bytes t)\<rparr>\<rparr>)"
    and "header_size (tb_hdr t0) = of_nat (24 + 8 * length (tb_fns t0))"
  shows "sealed (table_bytes t)" "signature (tb_hdr t) = s"
proof -
  show "sealed (table_bytes t)" unfolding table_bytes_def
    by (rule sealed_header) (use assms in \<open>simp_all add: table_bytes_def Let_def\<close>)
  show "signature (tb_hdr t) = s" using assms(1) by (simp add: Let_def)
qed

lemma efi_init_sealed:
  assumes "efi_init kernel_end link m = (m', bs, rs, st)"
  shows "sealed (table_bytes bs)" "sealed (table_bytes rs)" "sealed (system_table_bytes st)" "st = system_table_init link SYSTEM_TABLE"
proof -
  have init: "bs = boot_services_init (BOOT_SERVICES link)" "rs = runtime_services_init (RUNTIME_SERVICES link)"
      "st = system_table_init link SYSTEM_TABLE" using assms by (simp_all add: efi_init_def)
  show "sealed (table_bytes bs)"
    by (rule service_table_sealed(1)[OF init(1)[unfolded boot_services_init_def]]) (simp add: BOOT_SERVICES_def BOOT_SERVICES_FIELDS_def)
  show "sealed (table_bytes rs)"
    by (rule service_table_sealed(1)[OF init(2)[unfolded runtime_services_init_def]]) (simp add: RUNTIME_SERVICES_def RUNTIME_SERVICES_FIELDS_def)
  show "sealed (system_table_bytes st)" unfolding system_table_bytes_def
    by (rule sealed_header) (simp_all add: init(3) system_table_init_def SYSTEM_TABLE_def Let_def system_table_bytes_def)
  show "st = system_table_init link SYSTEM_TABLE" by (rule init(3))
qed

end
