(* ===== verification/Console.thy ===== *)
theory Console
  imports Hid Uart Framebuffer Boot_Services Service_Tables
begin

text \<open>
  \<^verbatim>\<open>src/src/efi/console.rs\<close>: the text output and text input protocols. The statics of the module are the
  record \<open>con_world\<close>; what the three pointers FB_PTR, UART_PTR and KEYBOARD_PTR point at is part of it, with the
  framebuffer memory and the rest of the machine. The cursor is kept as the bit pattern of its \<^verbatim>\<open>i32\<close>. A
  string argument is \<open>None\<close> for a null pointer, else its characters before the terminator. Dereferencing a
  null FB_PTR, which two operations do not test for, is a panic.
\<close>

unbundle bit_operations_syntax

section \<open>State\<close>

definition SIMPLE_TEXT_INPUT_PROTOCOL_GUID :: efi_guid where
  "SIMPLE_TEXT_INPUT_PROTOCOL_GUID = \<lparr>data1 = 0x387477C1, data2 = 0x69C7, data3 = 0x11D2,
     data4 = [0x8E, 0x39, 0x00, 0xA0, 0xC9, 0x69, 0x72, 0x3B]\<rparr>"

record input_key =
  scan_code :: u16
  unicode_char :: u16

definition SCAN_UP :: u16 where "SCAN_UP = 0x01"
definition SCAN_DOWN :: u16 where "SCAN_DOWN = 0x02"
definition SCAN_RIGHT :: u16 where "SCAN_RIGHT = 0x03"
definition SCAN_LEFT :: u16 where "SCAN_LEFT = 0x04"
definition SCAN_ESC :: u16 where "SCAN_ESC = 0x17"

lemmas scan_codes = SCAN_UP_def SCAN_DOWN_def SCAN_RIGHT_def SCAN_LEFT_def SCAN_ESC_def

definition GLYPH_SCALE :: u32 where "GLYPH_SCALE = 2"
definition CELL_W :: u32 where "CELL_W = (GLYPH_WIDTH + 1) * GLYPH_SCALE"
definition CELL_H :: u32 where "CELL_H = (GLYPH_HEIGHT + 3) * GLYPH_SCALE"

lemma cell_size: "CELL_W = 12" "CELL_H = 20"
  by (simp_all add: CELL_W_def CELL_H_def GLYPH_WIDTH_def GLYPH_HEIGHT_def GLYPH_SCALE_def)

definition PALETTE :: "u32 list" where
  "PALETTE =
     [0x00000000, 0x000000C8, 0x0000A000, 0x0000A0A0, 0x00A00000, 0x00A000A0, 0x00A05000, 0x00A0A0A0,
      0x00505050, 0x005050FF, 0x0050FF50, 0x0050FFFF, 0x00FF5050, 0x00FF50FF, 0x00FFFF50, 0x00FFFFFF]"

record out_mode =
  max_mode :: u32
  om_mode :: u32
  om_attribute :: u32
  cursor_column :: u32
  cursor_row :: u32
  cursor_visible :: u8

definition OUT_MODE :: out_mode where
  "OUT_MODE = \<lparr>max_mode = 1, om_mode = 0, om_attribute = 0x07, cursor_column = 0, cursor_row = 0, cursor_visible = 1\<rparr>"

record 'h con_world =
  cw_fb :: "framebuffer option"
  cw_uart :: bool
  cw_kbd :: "keyboard option"
  cw_col :: u32
  cw_row :: u32
  cw_attr :: u64
  cw_mode :: out_mode
  cw_esc :: u8
  cw_wait_event :: efi_event
  cw_ram :: ram
  cw_hw :: 'h

type_synonym ('h, 'a) con_io = "('h con_world, unit, 'a) io"

definition on_hw :: "('h, 'e, 'a) io \<Rightarrow> ('h con_world, 'e, 'a) io" where
  "on_hw m w = (case m (cw_hw w) of (r, h) \<Rightarrow> (r, w\<lparr>cw_hw := h\<rparr>))"

section \<open>Output\<close>

definition grid_size :: "framebuffer \<Rightarrow> u32 \<times> u32" where
  "grid_size fb = (fb_width fb div CELL_W, fb_height fb div CELL_H)"

definition fg_bg :: "u64 \<Rightarrow> u32 \<times> u32" where
  "fg_bg attr = (PALETTE ! min (unat (attr AND 0x0F)) 15, PALETTE ! min (unat (drop_bit 4 attr AND 0x07)) 15)"

definition con_newline :: "framebuffer \<Rightarrow> 'h con_world \<Rightarrow> 'h con_world" where
  "con_newline fb w =
     (let rows = snd (grid_size fb); w = w\<lparr>cw_col := 0, cw_row := cw_row w + 1\<rparr> in
      if cw_row w \<ge> rows then w\<lparr>cw_ram := scroll_up fb CELL_H (snd (fg_bg (cw_attr w))) (cw_ram w), cw_row := rows - 1\<rparr>
      else w)"

definition con_put_char :: "framebuffer \<Rightarrow> u32 \<Rightarrow> 'h con_world \<Rightarrow> 'h con_world" where
  "con_put_char fb c w =
     (let fg = fst (fg_bg (cw_attr w)); cols = fst (grid_size fb);
          w = (if cw_col w \<ge> cols then con_newline fb w else w);
          x = cw_col w * CELL_W; y = cw_row w * CELL_H
      in w\<lparr>cw_ram := draw_char fb x y c GLYPH_SCALE fg (cw_ram w), cw_col := cw_col w + 1\<rparr>)"

definition sync_mode :: "'h con_world \<Rightarrow> 'h con_world" where
  "sync_mode w = w\<lparr>cw_mode := (cw_mode w)\<lparr>om_attribute := ucast (cw_attr w), cursor_column := cw_col w, cursor_row := cw_row w\<rparr>\<rparr>"

definition fb_flush :: "'h usb_host \<Rightarrow> nat \<Rightarrow> framebuffer \<Rightarrow> ('h, unit) con_io" where
  "fb_flush host fuel fb = on_hw (u_clean host fuel (fb_ptr fb) (fb_size fb))"

text \<open>\<^verbatim>\<open>if let Some(u) = UART_PTR.as_mut() { u.putc(b) }\<close>\<close>

definition mirror :: "'h usb_host \<Rightarrow> nat \<Rightarrow> u8 \<Rightarrow> ('h, unit) con_io" where
  "mirror host fuel b w = (if cw_uart w then on_hw (uart_putc host fuel b) w else (Inr (), w))"

definition printable :: "u16 \<Rightarrow> bool" where
  "printable c \<longleftrightarrow> 0x20 \<le> c \<and> c \<le> 0x7E"

definition output_char :: "'h usb_host \<Rightarrow> nat \<Rightarrow> framebuffer \<Rightarrow> u16 \<Rightarrow> ('h, unit) con_io" where
  "output_char host fuel fb c w =
     (if c = 0x0D then mirror host fuel 0x0D (w\<lparr>cw_col := 0\<rparr>)
      else if c = 0x0A then mirror host fuel 0x0A (con_newline fb w)
      else if c = 0x08 then (Inr (), if sint (cw_col w) > 0 then w\<lparr>cw_col := cw_col w - 1\<rparr> else w)
      else if printable c then mirror host fuel (ucast c) (con_put_char fb (ucast (ucast c :: u8)) w)
      else (Inr (), w))"

primrec output_loop :: "'h usb_host \<Rightarrow> nat \<Rightarrow> framebuffer \<Rightarrow> u16 list \<Rightarrow> ('h, unit) con_io" where
  "output_loop host fuel fb [] = io_return ()"
| "output_loop host fuel fb (c # cs) = io_bind (output_char host fuel fb c) (\<lambda>_. output_loop host fuel fb cs)"

definition output_string :: "'h usb_host \<Rightarrow> nat \<Rightarrow> u16 list option \<Rightarrow> ('h, efi_status) con_io" where
  "output_string host fuel string w =
     (case (string, cw_fb w) of
        (Some cs, Some fb) \<Rightarrow>
          io_bind (output_loop host fuel fb cs) (\<lambda>_ w.
          io_bind (fb_flush host fuel fb) (\<lambda>_. io_return EFI_SUCCESS) (sync_mode w)) w
      | _ \<Rightarrow> (Inr EFI_INVALID_PARAMETER, w))"

definition test_string :: "u16 list option \<Rightarrow> efi_status" where
  "test_string string =
     (case string of
        None \<Rightarrow> EFI_INVALID_PARAMETER
      | Some cs \<Rightarrow> if \<exists>c \<in> set cs. \<not> (c = 0x0D \<or> c = 0x0A \<or> c = 0x08 \<or> printable c) then EFI_UNSUPPORTED else EFI_SUCCESS)"

text \<open>The two out parameters: the flags say whether the pointers are not null.\<close>

definition query_mode :: "u64 \<Rightarrow> bool \<Rightarrow> bool \<Rightarrow> ('h, efi_status \<times> u64 option \<times> u64 option) con_io" where
  "query_mode mode cols rows w =
     (if mode \<noteq> 0 then (Inr (EFI_UNSUPPORTED, None, None), w)
      else (case cw_fb w of
              None \<Rightarrow> (Inl Panic, w)
            | Some fb \<Rightarrow> (case grid_size fb of (c, r) \<Rightarrow>
                (Inr (EFI_SUCCESS, if cols then Some (ucast c) else None, if rows then Some (ucast r) else None), w))))"

definition set_mode :: "u64 \<Rightarrow> efi_status" where
  "set_mode mode = (if mode = 0 then EFI_SUCCESS else EFI_UNSUPPORTED)"

definition set_attribute :: "u64 \<Rightarrow> 'h con_world \<Rightarrow> efi_status \<times> 'h con_world" where
  "set_attribute attr w = (EFI_SUCCESS, sync_mode (w\<lparr>cw_attr := attr\<rparr>))"

definition clear_screen :: "'h usb_host \<Rightarrow> nat \<Rightarrow> ('h, efi_status) con_io" where
  "clear_screen host fuel w =
     (case cw_fb w of
        None \<Rightarrow> (Inr EFI_UNSUPPORTED, w)
      | Some fb \<Rightarrow>
          io_bind (fb_flush host fuel fb) (\<lambda>_ w. (Inr EFI_SUCCESS, sync_mode (w\<lparr>cw_col := 0, cw_row := 0\<rparr>)))
            (w\<lparr>cw_ram := fb_clear fb (snd (fg_bg (cw_attr w))) (cw_ram w)\<rparr>))"

definition text_reset :: "'h usb_host \<Rightarrow> nat \<Rightarrow> ('h, efi_status) con_io" where
  "text_reset host fuel = clear_screen host fuel"

definition set_cursor_position :: "u64 \<Rightarrow> u64 \<Rightarrow> ('h, efi_status) con_io" where
  "set_cursor_position column row w =
     (case cw_fb w of
        None \<Rightarrow> (Inl Panic, w)
      | Some fb \<Rightarrow> (case grid_size fb of (cols, rows) \<Rightarrow>
          if ucast column \<ge> cols \<or> ucast row \<ge> rows then (Inr EFI_INVALID_PARAMETER, w)
          else (Inr EFI_SUCCESS, sync_mode (w\<lparr>cw_col := ucast column, cw_row := ucast row\<rparr>))))"

definition enable_cursor :: "u8 \<Rightarrow> 'h con_world \<Rightarrow> efi_status \<times> 'h con_world" where
  "enable_cursor visible w = (EFI_SUCCESS, w\<lparr>cw_mode := (cw_mode w)\<lparr>cursor_visible := visible\<rparr>\<rparr>)"

section \<open>Input\<close>

definition input_reset :: efi_status where "input_reset = EFI_SUCCESS"

definition uart_byte_to_key :: "u8 \<Rightarrow> u8 \<Rightarrow> input_key option \<times> u8" where
  "uart_byte_to_key b esc =
     (if esc = 0 \<and> b = 0x1B then (None, 1)
      else if esc = 1 \<and> b = 0x5B then (None, 2)
      else if esc = 2 then
        ((if b = 0x41 then Some \<lparr>scan_code = SCAN_UP, unicode_char = 0\<rparr>
          else if b = 0x42 then Some \<lparr>scan_code = SCAN_DOWN, unicode_char = 0\<rparr>
          else if b = 0x43 then Some \<lparr>scan_code = SCAN_RIGHT, unicode_char = 0\<rparr>
          else if b = 0x44 then Some \<lparr>scan_code = SCAN_LEFT, unicode_char = 0\<rparr>
          else None), 0)
      else if esc = 1 then (Some \<lparr>scan_code = SCAN_ESC, unicode_char = 0\<rparr>, 0)
      else
        ((if b = 0x0D \<or> b = 0x0A then Some \<lparr>scan_code = 0, unicode_char = 0x0D\<rparr>
          else if b = 0x08 \<or> b = 0x7F then Some \<lparr>scan_code = 0, unicode_char = 0x08\<rparr>
          else if b = 0x09 then Some \<lparr>scan_code = 0, unicode_char = 0x09\<rparr>
          else if 0x20 \<le> b \<and> b \<le> 0x7E then Some \<lparr>scan_code = 0, unicode_char = ucast b\<rparr>
          else None), 0))"

definition hid_code_to_key :: "u8 \<Rightarrow> input_key option" where
  "hid_code_to_key code =
     (if 0x04 \<le> code \<and> code \<le> 0x1D then Some \<lparr>scan_code = 0, unicode_char = ucast (0x61 + (code - 0x04))\<rparr>
      else if 0x1E \<le> code \<and> code \<le> 0x26 then Some \<lparr>scan_code = 0, unicode_char = ucast (0x31 + (code - 0x1E))\<rparr>
      else if code = 0x27 then Some \<lparr>scan_code = 0, unicode_char = 0x30\<rparr>
      else if code = 0x28 then Some \<lparr>scan_code = 0, unicode_char = 0x0D\<rparr>
      else if code = 0x29 then Some \<lparr>scan_code = SCAN_ESC, unicode_char = 0\<rparr>
      else if code = 0x2A then Some \<lparr>scan_code = 0, unicode_char = 0x08\<rparr>
      else if code = 0x2B then Some \<lparr>scan_code = 0, unicode_char = 0x09\<rparr>
      else if code = 0x2C then Some \<lparr>scan_code = 0, unicode_char = 0x20\<rparr>
      else if code = 0x4F then Some \<lparr>scan_code = SCAN_RIGHT, unicode_char = 0\<rparr>
      else if code = 0x50 then Some \<lparr>scan_code = SCAN_LEFT, unicode_char = 0\<rparr>
      else if code = 0x51 then Some \<lparr>scan_code = SCAN_DOWN, unicode_char = 0\<rparr>
      else if code = 0x52 then Some \<lparr>scan_code = SCAN_UP, unicode_char = 0\<rparr>
      else None)"

text \<open>The first key code of a poll that is a key.\<close>

fun first_key :: "u8 list \<Rightarrow> input_key option" where
  "first_key [] = None"
| "first_key (code # codes) =
     (if code = 0 then first_key codes
      else (case hid_code_to_key code of Some k \<Rightarrow> Some k | None \<Rightarrow> first_key codes))"

definition poll_keyboard :: "'h usb_host \<Rightarrow> nat \<Rightarrow> hid_stack \<Rightarrow> ('h, input_key option) con_io" where
  "poll_keyboard host fuel stk w =
     (case cw_kbd w of
        None \<Rightarrow> (Inr None, w)
      | Some kbd \<Rightarrow>
          io_bind (on_hw (io_ok (poll_new_keys host fuel stk kbd))) (\<lambda>r w.
            case r of
              None \<Rightarrow> (Inr None, w)
            | Some (keys, kbd') \<Rightarrow> (Inr (first_key keys), w\<lparr>cw_kbd := Some kbd'\<rparr>)) w)"

definition poll_key_raw :: "'h usb_host \<Rightarrow> nat \<Rightarrow> hid_stack \<Rightarrow> ('h, input_key option) con_io" where
  "poll_key_raw host fuel stk w =
     (if cw_uart w then
        (case uart_getc host (cw_hw w) of
           (Some b, h) \<Rightarrow>
             (case uart_byte_to_key b (cw_esc w) of
                (Some k, esc) \<Rightarrow> (Inr (Some k), w\<lparr>cw_hw := h, cw_esc := esc\<rparr>)
              | (None, esc) \<Rightarrow> poll_keyboard host fuel stk (w\<lparr>cw_hw := h, cw_esc := esc\<rparr>))
         | (None, h) \<Rightarrow> poll_keyboard host fuel stk (w\<lparr>cw_hw := h\<rparr>))
      else poll_keyboard host fuel stk w)"

definition key_available :: "'h usb_host \<Rightarrow> nat \<Rightarrow> hid_stack \<Rightarrow> ('h, bool) con_io" where
  "key_available host fuel stk = io_bind (poll_key_raw host fuel stk) (\<lambda>k. io_return (k \<noteq> None))"

text \<open>\<open>key\<close> is the caller's buffer, \<open>None\<close> for a null pointer.\<close>

definition read_key_stroke :: "'h usb_host \<Rightarrow> nat \<Rightarrow> hid_stack \<Rightarrow> input_key option \<Rightarrow> ('h, efi_status \<times> input_key option) con_io" where
  "read_key_stroke host fuel stk key =
     (case key of
        None \<Rightarrow> io_return (EFI_INVALID_PARAMETER, None)
      | Some _ \<Rightarrow>
          io_bind (poll_key_raw host fuel stk) (\<lambda>r.
            case r of Some k \<Rightarrow> io_return (EFI_SUCCESS, Some k) | None \<Rightarrow> io_return (EFI_NOT_READY, key)))"

section \<open>Initialisation\<close>

text \<open>
  The event table has the console as the rest of the machine; \<open>out_proto\<close> and \<open>in_proto\<close> are the addresses
  of the two protocol statics. The patched pointer to OUT_MODE is a constant of the model, and
  \<open>cw_wait_event\<close> is both WAIT_FOR_KEY_EVENT and its copy in IN_PROTO. \<open>console_handle\<close> is the allocation of a handle with one protocol.
\<close>

definition console_handle :: "efi_guid \<Rightarrow> addr \<Rightarrow> efi_handle \<Rightarrow> handle_db \<Rightarrow> (efi_handle \<times> handle_db) checked" where
  "console_handle guid proto old db =
     (if old \<noteq> 0 then Inr (old, db)
      else (case find_or_create_handle db 0 of
              Inl e \<Rightarrow> Inl e
            | Inr (None, db) \<Rightarrow> Inr (old, db)
            | Inr (Some i, db) \<Rightarrow>
                (case db_install db i guid proto of
                   Inl e \<Rightarrow> Inl e
                 | Inr (_, db) \<Rightarrow> Inr (handle_for_index i, db))))"

definition con_init ::
  "addr \<Rightarrow> addr \<Rightarrow> framebuffer option \<Rightarrow> bool \<Rightarrow> keyboard option \<Rightarrow>
   'h con_world ev_world \<Rightarrow> handle_db \<Rightarrow> system_table \<Rightarrow> ('h con_world ev_world \<times> handle_db \<times> system_table) checked" where
  "con_init out_proto in_proto fb uart kbd ev db st =
     (let ev = ev\<lparr>ev_rest := (ev_rest ev)\<lparr>cw_fb := fb, cw_uart := uart, cw_kbd := kbd, cw_col := 0, cw_row := 0,
                 cw_attr := 0x07, cw_esc := 0\<rparr>\<rparr>;
          ev = (if cw_wait_event (ev_rest ev) = 0
                then (case ev_create ev ConsoleIn None 0 of
                        (e, ev) \<Rightarrow> ev\<lparr>ev_rest := (ev_rest ev)\<lparr>cw_wait_event := (case e of Some x \<Rightarrow> x | None \<Rightarrow> 0)\<rparr>\<rparr>)
                else ev);
          st = st\<lparr>con_out := out_proto, con_in := in_proto\<rparr>
      in case console_handle SIMPLE_TEXT_OUTPUT_PROTOCOL_GUID out_proto (console_out_handle st) db of
           Inl e \<Rightarrow> Inl e
         | Inr (out_h, db) \<Rightarrow>
             (case console_handle SIMPLE_TEXT_INPUT_PROTOCOL_GUID in_proto (console_in_handle st) db of
                Inl e \<Rightarrow> Inl e
              | Inr (in_h, db) \<Rightarrow>
                  Inr (ev, db, st\<lparr>console_out_handle := out_h, console_in_handle := in_h,
                                  standard_error_handle := out_h, std_err := out_proto\<rparr>)))"

section \<open>The cursor stays on the grid\<close>

definition cursor_ok :: "framebuffer \<Rightarrow> 'h con_world \<Rightarrow> bool" where
  "cursor_ok fb w \<longleftrightarrow> cw_fb w = Some fb \<and> cw_col w \<le> fst (grid_size fb) \<and> cw_row w < snd (grid_size fb)"

text \<open>A screen with at least one cell, and no more than a signed cursor can count.\<close>

definition grid_ok :: "framebuffer \<Rightarrow> bool" where
  "grid_ok fb \<longleftrightarrow> 12 \<le> unat (fb_width fb) \<and> 20 \<le> unat (fb_height fb)"

lemma grid_bounds:
  assumes "grid_ok fb"
  shows "0 < fst (grid_size fb)" "0 < snd (grid_size fb)" "unat (fst (grid_size fb)) < 2 ^ 30" "unat (snd (grid_size fb)) < 2 ^ 30"
proof -
  have d: "unat (fb_width fb div 12) = unat (fb_width fb) div 12" "unat (fb_height fb div 20) = unat (fb_height fb) div 20"
    by (simp_all add: unat_div)
  show "0 < fst (grid_size fb)" "0 < snd (grid_size fb)"
    using assms d by (simp_all add: grid_size_def cell_size word_less_nat_alt grid_ok_def div_greater_zero_iff)
  show "unat (fst (grid_size fb)) < 2 ^ 30" "unat (snd (grid_size fb)) < 2 ^ 30"
    using d unat_bound[of "fb_width fb"] unat_bound[of "fb_height fb"] by (simp_all add: grid_size_def cell_size)
qed

lemma word_pred_less: "0 < (a :: u32) \<Longrightarrow> a - 1 < a"
  by (simp add: word_less_nat_alt unat_sub_if' word_le_nat_alt Suc_le_eq unat_gt_0)

lemma newline_cursor:
  assumes "grid_ok fb" "cursor_ok fb w"
  shows "cursor_ok fb (con_newline fb w)" "cw_col (con_newline fb w) = 0"
  using assms grid_bounds(2)[OF assms(1)] by (auto simp: cursor_ok_def con_newline_def Let_def not_le word_pred_less)

lemma put_char_cursor:
  assumes g: "grid_ok fb" and w: "cursor_ok fb w"
  shows "cursor_ok fb (con_put_char fb c w)"
proof -
  define w1 where "w1 = (if cw_col w \<ge> fst (grid_size fb) then con_newline fb w else w)"
  have w1: "cursor_ok fb w1" "cw_col w1 < fst (grid_size fb)"
    using newline_cursor[OF g w] w grid_bounds(1)[OF g] by (auto simp: w1_def cursor_ok_def)
  from w1(2) have "cw_col w1 + 1 \<le> fst (grid_size fb)" using unat_Suc_in_range[OF w1(2)] by (simp add: word_le_nat_alt word_less_nat_alt)
  then show ?thesis using w1(1) by (simp add: con_put_char_def Let_def w1_def[symmetric] cursor_ok_def)
qed

text \<open>Operations on the machine outside the console keep the cursor.\<close>

lemma on_hw_cursor: "on_hw m w = (r, w') \<Longrightarrow> cursor_ok fb w \<Longrightarrow> cursor_ok fb w'"
  by (auto simp: on_hw_def cursor_ok_def split: prod.splits)

lemma mirror_cursor: "mirror host fuel b w = (r, w') \<Longrightarrow> cursor_ok fb w \<Longrightarrow> cursor_ok fb w'"
  by (auto simp: mirror_def split: if_splits dest: on_hw_cursor)

lemma sync_cursor: "cursor_ok fb (sync_mode w) = cursor_ok fb w"
  by (simp add: sync_mode_def cursor_ok_def)

lemma output_char_cursor:
  assumes "grid_ok fb" "cursor_ok fb w" "output_char host fuel fb c w = (r, w')"
  shows "cursor_ok fb w'"
proof -
  have left: "cursor_ok fb (w\<lparr>cw_col := cw_col w - 1\<rparr>)" if "sint (cw_col w) > 0"
  proof -
    have "cw_col w \<noteq> 0" using that by auto
    then have "cw_col w - 1 \<le> cw_col w" by (simp add: word_le_nat_alt unat_sub_if' Suc_le_eq unat_gt_0)
    then show ?thesis using assms(2) by (auto simp: cursor_ok_def)
  qed
  have zero: "cursor_ok fb (w\<lparr>cw_col := 0\<rparr>)" using assms(2) by (simp add: cursor_ok_def)
  show ?thesis using assms(2,3) unfolding output_char_def
    by (auto split: if_splits dest: mirror_cursor[OF _ zero] mirror_cursor[OF _ newline_cursor(1)[OF assms(1,2)]]
      mirror_cursor[OF _ put_char_cursor[OF assms(1,2)]] simp: left)
qed

lemma output_loop_cursor:
  "grid_ok fb \<Longrightarrow> cursor_ok fb w \<Longrightarrow> output_loop host fuel fb cs w = (r, w') \<Longrightarrow> cursor_ok fb w'"
proof (induction cs arbitrary: w)
  case (Cons c cs)
  then show ?case by (auto simp: io_bind_def split: prod.splits sum.splits dest: output_char_cursor)
qed (simp add: io_return_def)

text \<open>The calls an image makes on the output protocol, whatever they return.\<close>

inductive con_call :: "'h usb_host \<Rightarrow> nat \<Rightarrow> 'h con_world \<Rightarrow> 'h con_world \<Rightarrow> bool" for host fuel where
  call_output: "output_string host fuel s w = (r, w') \<Longrightarrow> con_call host fuel w w'"
| call_clear: "clear_screen host fuel w = (r, w') \<Longrightarrow> con_call host fuel w w'"
| call_reset: "text_reset host fuel w = (r, w') \<Longrightarrow> con_call host fuel w w'"
| call_position: "set_cursor_position c p w = (r, w') \<Longrightarrow> con_call host fuel w w'"
| call_attribute: "set_attribute a w = (r, w') \<Longrightarrow> con_call host fuel w w'"
| call_cursor: "enable_cursor v w = (r, w') \<Longrightarrow> con_call host fuel w w'"
| call_query: "query_mode m cp rp w = (r, w') \<Longrightarrow> con_call host fuel w w'"
| call_key: "read_key_stroke host fuel stk k w = (r, w') \<Longrightarrow> con_call host fuel w w'"

lemma output_string_cursor:
  assumes "grid_ok fb" "cursor_ok fb w" "output_string host fuel s w = (r, w')"
  shows "cursor_ok fb w'"
proof (cases s)
  case None
  then show ?thesis using assms by (simp add: output_string_def)
next
  case (Some cs)
  have fb: "cw_fb w = Some fb" using assms(2) by (simp add: cursor_ok_def)
  obtain q w1 where l: "output_loop host fuel fb cs w = (q, w1)" by fastforce
  have "cursor_ok fb w1" by (rule output_loop_cursor[OF assms(1,2) l])
  moreover obtain q2 w2 where f: "fb_flush host fuel fb (sync_mode w1) = (q2, w2)" by fastforce
  ultimately have "cursor_ok fb w2" unfolding fb_flush_def by (auto simp: sync_cursor dest: on_hw_cursor)
  with \<open>cursor_ok fb w1\<close> show ?thesis using assms(3) Some fb l f
    by (auto simp: output_string_def io_bind_def io_return_def split: sum.splits)
qed

lemma clear_screen_cursor:
  assumes "grid_ok fb" "cursor_ok fb w" "clear_screen host fuel w = (r, w')"
  shows "cursor_ok fb w'"
proof -
  have fb: "cw_fb w = Some fb" using assms(2) by (simp add: cursor_ok_def)
  let ?w = "w\<lparr>cw_ram := fb_clear fb (snd (fg_bg (cw_attr w))) (cw_ram w)\<rparr>"
  obtain q w1 where f: "fb_flush host fuel fb ?w = (q, w1)" by fastforce
  have "cursor_ok fb ?w" using assms(2) by (simp add: cursor_ok_def)
  with f have w1: "cursor_ok fb w1" unfolding fb_flush_def by (auto dest: on_hw_cursor)
  then have "cursor_ok fb (w1\<lparr>cw_col := 0, cw_row := 0\<rparr>)" using grid_bounds(2)[OF assms(1)] by (simp add: cursor_ok_def)
  with w1 show ?thesis using assms(3) fb f by (auto simp: clear_screen_def io_bind_def sync_cursor split: sum.splits)
qed

lemma read_key_cursor: "read_key_stroke host fuel stk k w = (r, w') \<Longrightarrow> cursor_ok fb w \<Longrightarrow> cursor_ok fb w'"
  by (auto simp: read_key_stroke_def poll_key_raw_def poll_keyboard_def io_bind_def io_return_def on_hw_def cursor_ok_def
      split: option.splits prod.splits sum.splits if_splits)

lemma con_call_cursor:
  assumes "con_call host fuel w w'" "grid_ok fb" "cursor_ok fb w"
  shows "cursor_ok fb w'"
  using assms(1)
proof cases
  case (call_output s r)
  then show ?thesis by (rule output_string_cursor[OF assms(2,3)])
next
  case (call_clear r)
  then show ?thesis by (rule clear_screen_cursor[OF assms(2,3)])
next
  case (call_reset r)
  then show ?thesis unfolding text_reset_def by (rule clear_screen_cursor[OF assms(2,3)])
next
  case (call_position c p r)
  then show ?thesis using assms(3) by (auto simp: set_cursor_position_def cursor_ok_def sync_mode_def split: option.splits prod.splits if_splits)
next
  case (call_key stk k r)
  then show ?thesis using assms(3) by (rule read_key_cursor)
qed (use assms(3) in \<open>auto simp: set_attribute_def enable_cursor_def query_mode_def cursor_ok_def sync_mode_def
    split: option.splits prod.splits if_splits\<close>)

text \<open>
  C19: whatever sequence of calls an image makes on the console, with any arguments, the cursor stays on
  the grid the framebuffer has room for: its row is a row of the grid, its column a column or the one
  after the last, from which the next character wraps.
\<close>

theorem console_cursor_on_grid:
  assumes "(con_call host fuel)\<^sup>*\<^sup>* w w'" "grid_ok fb" "cursor_ok fb w"
  shows "cw_fb w' = Some fb \<and> cw_col w' \<le> fb_width fb div CELL_W \<and> cw_row w' < fb_height fb div CELL_H"
proof -
  from assms(1) have "cursor_ok fb w'" by induction (use assms(2,3) con_call_cursor in auto)
  then show ?thesis by (simp add: cursor_ok_def grid_size_def)
qed

definition demo_fb :: framebuffer where
  "demo_fb = \<lparr>fb_ptr = 0x3C100000, fb_width = 800, fb_height = 600, fb_pitch = 3200, fb_bpp = 32\<rparr>"

definition demo_console :: "bool \<Rightarrow> keyboard option \<Rightarrow> 'h \<Rightarrow> 'h con_world" where
  "demo_console uart kbd h =
     \<lparr>cw_fb = Some demo_fb, cw_uart = uart, cw_kbd = kbd, cw_col = 0, cw_row = 0, cw_attr = 7, cw_mode = OUT_MODE,
      cw_esc = 0, cw_wait_event = 0, cw_ram = (\<lambda>_. 0), cw_hw = h\<rparr>"

abbreviation demo_host :: "u8 list usb_view usb_host" where
  "demo_host \<equiv> sim_usb echo_bus 0x84448004 0x1000 0x2000"

theorem console_cursor_on_grid_witness:
  "cw_row (snd (output_string demo_host 100 (Some [0x41, 0x0A, 0x42, 0x08]) (demo_console False None echo_view))) < 30"
proof -
  let ?w = "demo_console False None echo_view" and ?s = "Some [0x41, 0x0A, 0x42, 0x08]"
  have "con_call demo_host 100 ?w (snd (output_string demo_host 100 ?s ?w))" by (rule call_output) (rule prod.collapse[symmetric])
  then have "(con_call demo_host 100)\<^sup>*\<^sup>* ?w (snd (output_string demo_host 100 ?s ?w))" by (rule r_into_rtranclp)
  moreover have "grid_ok demo_fb" "cursor_ok demo_fb ?w"
    by (simp_all add: grid_ok_def cursor_ok_def demo_console_def demo_fb_def grid_size_def cell_size)
  ultimately have "cw_row (snd (output_string demo_host 100 ?s ?w)) < fb_height demo_fb div CELL_H"
    using console_cursor_on_grid by blast
  then show ?thesis by (simp only: demo_fb_def cell_size) simp
qed

end
