(* ===== verification/Console_Properties.thy ===== *)
theory Console_Properties
  imports Console
begin

text \<open>
  The console on a working serial line: what an image prints is mirrored to the line, what is typed on
  the line is read back as keys, and what waiting for the key event does to the key.
\<close>

unbundle bit_operations_syntax

section \<open>Mirroring\<close>

text \<open>The characters that reach the line: all but the backspace and what the font does not cover.\<close>

definition mirrored :: "u16 \<Rightarrow> bool" where
  "mirrored c \<longleftrightarrow> c = 0x0D \<or> c = 0x0A \<or> printable c"

text \<open>What output leaves alone: the line stays up with its input unread, and the console keeps its devices and its escape state.\<close>

definition con_kept :: "('h \<Rightarrow> bool) \<Rightarrow> ('h \<Rightarrow> u8 list) \<Rightarrow> 'h con_world \<Rightarrow> 'h con_world \<Rightarrow> bool" where
  "con_kept up received w w' \<longleftrightarrow> up (cw_hw w') \<and> received (cw_hw w') = received (cw_hw w) \<and> cw_uart w' = cw_uart w \<and>
     cw_fb w' = cw_fb w \<and> cw_kbd w' = cw_kbd w \<and> cw_esc w' = cw_esc w"

lemma con_kept_trans: "con_kept up received w w1 \<Longrightarrow> con_kept up received w1 w2 \<Longrightarrow> con_kept up received w w2"
  by (simp add: con_kept_def)

lemma mirror_on_line:
  assumes "serial_line host fuel up sent received backlog" "up (cw_hw w)" "cw_uart w"
  shows "\<exists>w'. mirror host fuel b w = (Inr (), w') \<and> con_kept up received w w' \<and> sent (cw_hw w') = sent (cw_hw w) @ [b]"
proof -
  obtain h' where "uart_putc host fuel b (cw_hw w) = (Inr () :: unit fault + unit, h')" "up h'" "sent h' = sent (cw_hw w) @ [b]"
      "received h' = received (cw_hw w)"
    using serial_line.putc_sends[OF assms(1,2)] by blast
  then show ?thesis using assms(3) by (simp add: mirror_def on_hw_def con_kept_def)
qed

lemma newline_frame [simp]: "cw_hw (con_newline fb w) = cw_hw w" "cw_uart (con_newline fb w) = cw_uart w" "cw_fb (con_newline fb w) = cw_fb w"
  "cw_kbd (con_newline fb w) = cw_kbd w" "cw_esc (con_newline fb w) = cw_esc w"
  by (simp_all add: con_newline_def Let_def)

lemma put_char_frame [simp]:
  "cw_hw (con_put_char fb c w) = cw_hw w" "cw_uart (con_put_char fb c w) = cw_uart w" "cw_fb (con_put_char fb c w) = cw_fb w"
  "cw_kbd (con_put_char fb c w) = cw_kbd w" "cw_esc (con_put_char fb c w) = cw_esc w"
  by (simp_all add: con_put_char_def Let_def)

lemma printable_not_backspace: "printable c \<Longrightarrow> c \<noteq> 0x08"
  by (auto simp: printable_def word_le_nat_alt)

lemma output_char_mirrors:
  assumes line: "serial_line host fuel up sent received backlog" and w: "up (cw_hw w)" "cw_uart w"
  shows "\<exists>w'. output_char host fuel fb c w = (Inr (), w') \<and> con_kept up received w w' \<and>
    sent (cw_hw w') = sent (cw_hw w) @ (if mirrored c then [ucast c] else [])"
proof (cases "mirrored c")
  case True
  note m = mirror_on_line[OF line, of _]
  consider "c = 0x0D" | "c = 0x0A" | "c \<noteq> 0x0D" "c \<noteq> 0x0A" "c \<noteq> 0x08" "printable c"
    using True printable_not_backspace by (auto simp: mirrored_def)
  then show ?thesis
  proof cases
    case 1
    then show ?thesis using m[of "w\<lparr>cw_col := 0\<rparr>" "0x0D"] w True by (auto simp: output_char_def con_kept_def)
  next
    case 2
    then show ?thesis using m[of "con_newline fb w" "0x0A"] w True by (auto simp: output_char_def con_kept_def)
  next
    case 3
    then show ?thesis using m[of "con_put_char fb (ucast (ucast c :: u8)) w" "ucast c"] w True by (auto simp: output_char_def con_kept_def)
  qed
qed (use w in \<open>auto simp: output_char_def mirrored_def con_kept_def\<close>)

lemma output_loop_mirrors:
  assumes "serial_line host fuel up sent received backlog"
  shows "up (cw_hw w) \<Longrightarrow> cw_uart w \<Longrightarrow>
    \<exists>w'. output_loop host fuel fb cs w = (Inr (), w') \<and> con_kept up received w w' \<and>
      sent (cw_hw w') = sent (cw_hw w) @ map ucast (filter mirrored cs)"
proof (induction cs arbitrary: w)
  case (Cons c cs)
  obtain w1 where w1: "output_char host fuel fb c w = (Inr (), w1)" "con_kept up received w w1"
      "sent (cw_hw w1) = sent (cw_hw w) @ (if mirrored c then [ucast c] else [])"
    using output_char_mirrors[OF assms Cons.prems] by blast
  then have "up (cw_hw w1)" "cw_uart w1" using Cons.prems by (simp_all add: con_kept_def)
  from Cons.IH[OF this] show ?case using w1 by (auto simp: io_bind_def intro: con_kept_trans)
qed (simp add: io_return_def con_kept_def)

text \<open>Cleaning the cache lines of the framebuffer does not touch the line; \<open>quiet\<close> says so of the cache, \<open>fb_flushable\<close> that it ends.\<close>

definition quiet :: "'h usb_host \<Rightarrow> ('h \<Rightarrow> bool) \<Rightarrow> ('h \<Rightarrow> u8 list) \<Rightarrow> bool" where
  "quiet host up line \<longleftrightarrow> (\<forall>a h. up h \<longrightarrow> up (dc_civac host a h) \<and> line (dc_civac host a h) = line h)"

definition fb_flushable :: "'h usb_host \<Rightarrow> nat \<Rightarrow> framebuffer \<Rightarrow> bool" where
  "fb_flushable host fuel fb \<longleftrightarrow> unat (fb_ptr fb) + fb_size fb + unat (line_size (ctr_el0 host)) \<le> 2 ^ 64 \<and> fb_size fb < 2 ^ 64 \<and>
     fb_size fb div unat (line_size (ctr_el0 host)) + 3 \<le> fuel"

lemma fb_flush_ends:
  assumes "fb_flushable host fuel fb" "quiet host up sent" "up (cw_hw w)"
  shows "\<exists>h'. fb_flush host fuel fb w = (Inr (), w\<lparr>cw_hw := h'\<rparr>) \<and> up h' \<and> sent h' = sent (cw_hw w) \<and>
    (quiet host up received \<longrightarrow> received h' = received (cw_hw w))"
proof -
  obtain ls where ls: "clean_and_invalidate_range fuel (ctr_el0 host) (fb_ptr fb) (of_nat (fb_size fb)) = Some ls"
    using clean_returns assms(1) unfolding fb_flushable_def by blast
  have keep: "quiet host up g \<Longrightarrow> up h \<Longrightarrow> up (fold (dc_civac host) ls h) \<and> g (fold (dc_civac host) ls h) = g h" for g h
    unfolding quiet_def by (induction ls arbitrary: h) auto
  show ?thesis using keep[OF assms(2,3)] keep[OF _ assms(3)]
    by (intro exI[of _ "fold (dc_civac host) ls (cw_hw w)"]) (simp add: fb_flush_def on_hw_def u_clean_def ls)
qed

lemma output_string_sends:
  assumes line: "serial_line host fuel up sent received backlog" and cache: "quiet host up sent"
    and fb: "cw_fb w = Some fb" "fb_flushable host fuel fb" and w: "up (cw_hw w)" "cw_uart w"
  shows "\<exists>w'. output_string host fuel (Some cs) w = (Inr EFI_SUCCESS, w') \<and> sent (cw_hw w') = sent (cw_hw w) @ map ucast (filter mirrored cs) \<and>
    (quiet host up received \<longrightarrow> con_kept up received w w')"
proof -
  obtain w1 where w1: "output_loop host fuel fb cs w = (Inr (), w1)" "con_kept up received w w1"
      "sent (cw_hw w1) = sent (cw_hw w) @ map ucast (filter mirrored cs)"
    using output_loop_mirrors[OF line w] by blast
  then have "up (cw_hw (sync_mode w1))" by (simp add: con_kept_def sync_mode_def)
  from fb_flush_ends[OF fb(2) cache this, of received] obtain h' where h: "fb_flush host fuel fb (sync_mode w1) = (Inr (), (sync_mode w1)\<lparr>cw_hw := h'\<rparr>)"
      "up h'" "sent h' = sent (cw_hw w1)" "quiet host up received \<longrightarrow> received h' = received (cw_hw w1)"
    by (auto simp: sync_mode_def)
  then show ?thesis
    using w1 fb(1) by (auto simp: output_string_def io_bind_def io_return_def con_kept_def) (auto simp: sync_mode_def)
qed

lemma clear_screen_sends_nothing:
  assumes cache: "quiet host up sent" "quiet host up received" and fb: "cw_fb w = Some fb" "fb_flushable host fuel fb" and w: "up (cw_hw w)"
  shows "\<exists>w'. clear_screen host fuel w = (Inr EFI_SUCCESS, w') \<and> sent (cw_hw w') = sent (cw_hw w) \<and> con_kept up received w w'"
proof -
  let ?w = "w\<lparr>cw_ram := fb_clear fb (snd (fg_bg (cw_attr w))) (cw_ram w)\<rparr>"
  obtain h' where "fb_flush host fuel fb ?w = (Inr (), ?w\<lparr>cw_hw := h'\<rparr>)" "up h'" "sent h' = sent (cw_hw w)" "received h' = received (cw_hw w)"
    using fb_flush_ends[OF fb(2) cache(1), of ?w received] cache(2) w by auto
  then show ?thesis using fb(1) by (simp add: clear_screen_def io_bind_def sync_mode_def con_kept_def)
qed

text \<open>
  C20: on a working serial line, OutputString succeeds and sends to the line, after what was sent
  before, exactly the printable characters, carriage returns and line feeds of the string, in order;
  everything else is dropped. (Backspace moves the cursor on the screen but is not sent.)
\<close>

theorem output_string_mirrored:
  assumes line: "serial_line host fuel up sent received backlog"
    and cache: "\<forall>a h. up h \<longrightarrow> up (dc_civac host a h) \<and> sent (dc_civac host a h) = sent h"
    and fb: "cw_fb w = Some fb" "unat (fb_ptr fb) + fb_size fb + unat (line_size (ctr_el0 host)) \<le> 2 ^ 64" "fb_size fb < 2 ^ 64"
      "fb_size fb div unat (line_size (ctr_el0 host)) + 3 \<le> fuel"
    and w: "up (cw_hw w)" "cw_uart w"
  shows "\<exists>w'. output_string host fuel (Some cs) w = (Inr EFI_SUCCESS, w') \<and>
    sent (cw_hw w') = sent (cw_hw w) @ map ucast (filter (\<lambda>c. c = 0x0D \<or> c = 0x0A \<or> 0x20 \<le> c \<and> c \<le> 0x7E) cs)"
proof -
  have c: "quiet host up sent" and f: "fb_flushable host fuel fb" using cache fb by (simp_all add: quiet_def fb_flushable_def)
  show ?thesis using output_string_sends[OF line c fb(1) f w, of cs] by (auto simp: mirrored_def[abs_def] printable_def)
qed

section \<open>The tables an image is started with\<close>

lemma console_fields_zeroed:
  "put_seg (system_table_bytes t) 40 (replicate 48 0) =
     system_table_bytes (t\<lparr>console_in_handle := 0, con_in := 0, console_out_handle := 0, con_out := 0,
       standard_error_handle := 0, std_err := 0\<rparr>)"
proof -
  let ?a = "header_bytes (st_hdr t) @ le64 (firmware_vendor t) @ le32 (firmware_revision t) @ [0, 0, 0, 0]"
  let ?b = "le64 (console_in_handle t) @ le64 (con_in t) @ le64 (console_out_handle t) @ le64 (con_out t) @
     le64 (standard_error_handle t) @ le64 (std_err t)"
  let ?c = "le64 (st_runtime_services t) @ le64 (st_boot_services t) @ le64 (number_of_table_entries t) @ le64 (configuration_table t)"
  have "system_table_bytes t = ?a @ ?b @ ?c" by (simp add: system_table_bytes_def)
  moreover have "length ?a = 40" "length ?b = 48" by simp_all
  ultimately have "put_seg (system_table_bytes t) 40 (replicate 48 0) = ?a @ replicate 48 0 @ ?c"
    by (simp only: put_seg_def) simp
  moreover have "replicate 48 0 = le64 0 @ le64 0 @ le64 0 @ le64 0 @ le64 0 @ le64 0" by code_simp
  ultimately show ?thesis by (simp add: system_table_bytes_def)
qed

text \<open>
  C35: the boot services, runtime services and system table are sealed when \<open>efi_init\<close> returns: the header
  size of each is the size of the table in memory, and its checksum is the CRC-32 of the table with the
  checksum field zero. An image is started after \<open>con_init\<close>, which does not touch the two service tables
  and fills in the console fields of the system table without a new checksum: what the image sees is a
  system table that points at the two sealed service tables and at the console, and whose checksum is that of the
  table with the 48 bytes of the console fields zero.
\<close>

theorem efi_tables_sealed:
  assumes init: "efi_init kernel_end link m = (m', bs, rs, st)"
    and con: "con_init out_proto in_proto fb uart kbd ev db st = Inr (ev', db', st')"
  shows "sealed (table_bytes bs) \<and> sealed (table_bytes rs) \<and> sealed (system_table_bytes st) \<and>
    sealed (put_seg (system_table_bytes st') 40 (replicate 48 0)) \<and>
    st_boot_services st' = link ''BOOT_SERVICES'' \<and> st_runtime_services st' = link ''RUNTIME_SERVICES'' \<and>
    con_out st' = out_proto \<and> con_in st' = in_proto"
proof -
  note S = efi_init_sealed[OF init]
  obtain oh ih where st': "st' = st\<lparr>con_out := out_proto, con_in := in_proto, console_out_handle := oh, console_in_handle := ih,
      standard_error_handle := oh, std_err := out_proto\<rparr>"
    using con by (auto simp: con_init_def Let_def split: sum.splits prod.splits)
  have "st'\<lparr>console_in_handle := 0, con_in := 0, console_out_handle := 0, con_out := 0, standard_error_handle := 0, std_err := 0\<rparr> = st"
    by (simp add: st' S(4) system_table_init_def SYSTEM_TABLE_def Let_def)
  then have "sealed (put_seg (system_table_bytes st') 40 (replicate 48 0))" using S(3) by (simp only: console_fields_zeroed)
  moreover have "st_boot_services st' = link ''BOOT_SERVICES''" "st_runtime_services st' = link ''RUNTIME_SERVICES''"
    by (simp_all add: st' S(4) system_table_init_def Let_def)
  ultimately show ?thesis using S(1-3) by (simp add: st')
qed

section \<open>Keys typed on the line\<close>

text \<open>
  What a terminal sends: an arrow as ESC, a bracket and a letter; another such sequence; ESC with the
  byte that follows it (which the console swallows); or a single byte. Any input is a sequence of these,
  with at most the beginning of one at the end (\<open>input_splits\<close>).
\<close>

datatype term_key = KUp | KDown | KRight | KLeft | KSequence u8 | KEsc u8 | KByte u8

fun term_key_ok :: "term_key \<Rightarrow> bool" where
  "term_key_ok (KSequence b) = (b \<notin> {0x41, 0x42, 0x43, 0x44})"
| "term_key_ok (KEsc b) = (b \<noteq> 0x5B)"
| "term_key_ok (KByte b) = (b \<noteq> 0x1B)"
| "term_key_ok _ = True"

fun key_bytes :: "term_key \<Rightarrow> u8 list" where
  "key_bytes KUp = [0x1B, 0x5B, 0x41]"
| "key_bytes KDown = [0x1B, 0x5B, 0x42]"
| "key_bytes KRight = [0x1B, 0x5B, 0x43]"
| "key_bytes KLeft = [0x1B, 0x5B, 0x44]"
| "key_bytes (KSequence b) = [0x1B, 0x5B, b]"
| "key_bytes (KEsc b) = [0x1B, b]"
| "key_bytes (KByte b) = [b]"

text \<open>The EFI key each stands for, if any: scan codes for arrows and Esc, characters for the rest.\<close>

fun efi_keys :: "term_key \<Rightarrow> input_key list" where
  "efi_keys KUp = [\<lparr>scan_code = 0x01, unicode_char = 0\<rparr>]"
| "efi_keys KDown = [\<lparr>scan_code = 0x02, unicode_char = 0\<rparr>]"
| "efi_keys KRight = [\<lparr>scan_code = 0x03, unicode_char = 0\<rparr>]"
| "efi_keys KLeft = [\<lparr>scan_code = 0x04, unicode_char = 0\<rparr>]"
| "efi_keys (KSequence _) = []"
| "efi_keys (KEsc _) = [\<lparr>scan_code = 0x17, unicode_char = 0\<rparr>]"
| "efi_keys (KByte b) =
     (if b = 0x0D \<or> b = 0x0A then [\<lparr>scan_code = 0, unicode_char = 0x0D\<rparr>]
      else if b = 0x08 \<or> b = 0x7F then [\<lparr>scan_code = 0, unicode_char = 0x08\<rparr>]
      else if b = 0x09 \<or> 0x20 \<le> b \<and> b \<le> 0x7E then [\<lparr>scan_code = 0, unicode_char = ucast b\<rparr>]
      else [])"

definition unfinished :: "u8 list \<Rightarrow> bool" where
  "unfinished bs \<longleftrightarrow> bs \<in> {[], [0x1B], [0x1B, 0x5B]}"

lemma input_splits: "\<exists>ks rest. bs = concat (map key_bytes ks) @ rest \<and> (\<forall>k \<in> set ks. term_key_ok k) \<and> unfinished rest"
proof (induction bs rule: length_induct)
  case (1 bs)
  have step: "\<exists>ks rest. bs = concat (map key_bytes ks) @ rest \<and> (\<forall>k \<in> set ks. term_key_ok k) \<and> unfinished rest"
    if k: "bs = key_bytes k @ bs'" "term_key_ok k" for k bs'
  proof -
    have "length bs' < length bs" using k(1) by (cases k) simp_all
    then obtain ks rest where "bs' = concat (map key_bytes ks) @ rest" "\<forall>k \<in> set ks. term_key_ok k" "unfinished rest"
      using 1 by blast
    with k show ?thesis by (intro exI[of _ "k # ks"] exI[of _ rest]) simp
  qed
  consider "unfinished bs" | b bs' where "bs = b # bs'" "b \<noteq> 0x1B" | b bs' where "bs = 0x1B # b # bs'" "b \<noteq> 0x5B"
    | b bs' where "bs = 0x1B # 0x5B # b # bs'"
    by (cases bs rule: remdups_adj.cases) (auto simp: unfinished_def, metis list.exhaust)
  then show ?case
  proof cases
    case 1
    then show ?thesis by (intro exI[of _ "[]"] exI[of _ bs]) simp
  next
    case (2 b bs')
    then show ?thesis by (intro step[of "KByte b" bs']) simp_all
  next
    case (3 b bs')
    then show ?thesis by (intro step[of "KEsc b" bs']) simp_all
  next
    case (4 b bs')
    then show ?thesis
      using step[of KUp bs'] step[of KDown bs'] step[of KRight bs'] step[of KLeft bs'] step[of "KSequence b" bs'] by fastforce
  qed
qed

text \<open>\<open>n\<close> calls of ReadKeyStroke in a row, with the keys of the successful ones.\<close>

primrec read_keys :: "'h usb_host \<Rightarrow> nat \<Rightarrow> hid_stack \<Rightarrow> nat \<Rightarrow> ('h, input_key list) con_io" where
  "read_keys host fuel stk 0 = io_return []"
| "read_keys host fuel stk (Suc n) =
     io_bind (read_key_stroke host fuel stk (Some \<lparr>scan_code = 0, unicode_char = 0\<rparr>)) (\<lambda>(status, key).
     io_bind (read_keys host fuel stk n) (\<lambda>rest.
       io_return (if status = EFI_SUCCESS then the key # rest else rest)))"

text \<open>The state machine over a list of bytes.\<close>

fun decode :: "u8 \<Rightarrow> u8 list \<Rightarrow> input_key list" where
  "decode esc [] = []"
| "decode esc (b # bs) =
     (case uart_byte_to_key b esc of (None, esc') \<Rightarrow> decode esc' bs | (Some k, esc') \<Rightarrow> k # decode esc' bs)"

lemma decode_key: "term_key_ok k \<Longrightarrow> decode 0 (key_bytes k @ bs) = efi_keys k @ decode 0 bs"
proof (cases k)
  case (KByte b)
  assume "term_key_ok k"
  moreover have "0x0D \<noteq> b" "0x0A \<noteq> b" "0x08 \<noteq> b" "0x09 \<noteq> b" if "0x20 \<le> b" using that by (auto simp: word_le_nat_alt)
  moreover have "(ucast (0x09 :: u8) :: u16) = 0x09" by simp
  ultimately show ?thesis using KByte by (auto simp: uart_byte_to_key_def)
qed (simp_all add: uart_byte_to_key_def scan_codes)

lemma decode_keys:
  "\<forall>k \<in> set ks. term_key_ok k \<Longrightarrow> unfinished rest \<Longrightarrow> decode 0 (concat (map key_bytes ks) @ rest) = concat (map efi_keys ks)"
  by (induction ks) (auto simp: decode_key unfinished_def uart_byte_to_key_def)

lemma read_keys_decode:
  assumes line: "serial_line host fuel up sent received backlog"
  shows "up (cw_hw w) \<Longrightarrow> cw_uart w \<Longrightarrow> cw_kbd w = None \<Longrightarrow> received (cw_hw w) = bs \<Longrightarrow>
    \<exists>w'. read_keys host fuel stk (length bs) w = (Inr (decode (cw_esc w) bs), w') \<and> received (cw_hw w') = []"
proof (induction bs arbitrary: w)
  case (Cons b bs)
  obtain h' where h: "uart_getc host (cw_hw w) = (Some b, h')" "up h'" "received h' = bs"
    using serial_line.getc_takes[OF line Cons.prems(1)] Cons.prems(4) by auto
  obtain k esc where k: "uart_byte_to_key b (cw_esc w) = (k, esc)" by fastforce
  let ?w = "w\<lparr>cw_hw := h', cw_esc := esc\<rparr>"
  have p: "poll_key_raw host fuel stk w = (Inr k, ?w)"
    using Cons.prems h k by (cases k) (simp_all add: poll_key_raw_def poll_keyboard_def)
  obtain w' where "read_keys host fuel stk (length bs) ?w = (Inr (decode esc bs), w')" "received (cw_hw w') = []"
    using Cons.IH[of ?w] Cons.prems h by auto
  then show ?case using p k by (cases k) (simp_all add: read_key_stroke_def io_bind_def io_return_def)
qed (simp add: io_return_def)


section \<open>Waiting for a key\<close>

text \<open>The console's poll as the event table uses it; a fault of the poll is no key.\<close>

definition console_key_poll :: "'h usb_host \<Rightarrow> nat \<Rightarrow> hid_stack \<Rightarrow> 'h con_world key_poll" where
  "console_key_poll host fuel stk w = (case key_available host fuel stk w of (Inr b, w') \<Rightarrow> (b, w') | (Inl _, w') \<Rightarrow> (False, w'))"

text \<open>
  WaitForEvent on the console's key event consumes the key it waits for: when one key is waiting on
  the serial line, the wait succeeds at once, and the ReadKeyStroke that follows finds no key.
\<close>

theorem awaited_key_is_lost:
  assumes line: "serial_line host fuel up sent received backlog"
    and w: "up (cw_hw (ev_rest w))" "cw_uart (ev_rest w)" "cw_kbd (ev_rest w) = None" "received (cw_hw (ev_rest w)) = [b]"
    and key: "uart_byte_to_key b (cw_esc (ev_rest w)) = (Some k, esc)"
    and event: "event_to_index e = Some i" "e_kind (ev_slots w ! i) = ConsoleIn"
  shows "\<exists>w1 w2. wait_for_event notify (console_key_poll host fuel stk) wakeups 1 (Some [e]) (Some 0) w = (Inr (EFI_SUCCESS, Some 0), w1) \<and>
    read_key_stroke host fuel stk (Some buffer) (ev_rest w1) = (Inr (EFI_NOT_READY, Some buffer), w2)"
proof -
  obtain h1 where h1: "uart_getc host (cw_hw (ev_rest w)) = (Some b, h1)" "up h1" "received h1 = []"
    using serial_line.getc_takes[OF line w(1)] w(4) by auto
  obtain h2 where h2: "uart_getc host h1 = (None, h2)"
    using serial_line.getc_takes[OF line h1(2)] h1(3) by auto
  let ?c = "(ev_rest w)\<lparr>cw_hw := h1, cw_esc := esc\<rparr>"
  have "console_key_poll host fuel stk (ev_rest w) = (True, ?c)"
    using w h1 key by (simp add: console_key_poll_def key_available_def poll_key_raw_def io_bind_def io_return_def)
  then have "condition_met notify (console_key_poll host fuel stk) w i = (True, w\<lparr>ev_rest := ?c\<rparr>)"
    using event(2) by (simp add: condition_met_def)
  then have "wait_for_event notify (console_key_poll host fuel stk) wakeups 1 (Some [e]) (Some 0) w
      = (Inr (EFI_SUCCESS, Some 0), w\<lparr>ev_rest := ?c\<rparr>)"
    using event by (simp add: wait_for_event_def ev_wait_def wait_loop.simps clear_generic_def)
  moreover have "read_key_stroke host fuel stk (Some buffer) ?c = (Inr (EFI_NOT_READY, Some buffer), ?c\<lparr>cw_hw := h2\<rparr>)"
    using w h2 by (simp add: read_key_stroke_def io_bind_def io_return_def poll_key_raw_def poll_keyboard_def)
  ultimately show ?thesis by (intro exI[of _ "w\<lparr>ev_rest := ?c\<rparr>"] exI[of _ "?c\<lparr>cw_hw := h2\<rparr>"]) simp
qed

section \<open>Witnesses\<close>

text \<open>A machine with only a serial line on it.\<close>

definition term_host :: "(u8 list \<times> u8 list) usb_host" where
  "term_host =
     \<lparr>mmio_read = sim_line_read, mmio_write = sim_line_write, timer_ticks = (\<lambda>s. (0, s)),
      buf_put = (\<lambda>_ _ s. s), buf_get = (\<lambda>_ _ _. []), dc_civac = (\<lambda>_ s. s), ctr_el0 = 0x84448004, sleep = (\<lambda>_ s. s),
      at_setup = 0, at_empty = 0\<rparr>"

interpretation term_line: serial_line term_host 40000 "\<lambda>_. True" fst snd "\<lambda>_. 0"
  by unfold_locales
    (auto simp: term_host_def sim_line_read_def sim_line_write_def uart_regs FR_RXFE_def FR_TXFF_def ucast_byte split: if_splits)

theorem output_string_mirrored_witness:
  "\<exists>w'. output_string term_host 40000 (Some [0x48, 0x69, 0x0A, 0x08, 0x03B1]) (demo_console True None ([], [])) = (Inr EFI_SUCCESS, w') \<and>
     fst (cw_hw w') = [0x48, 0x69, 0x0A]"
proof -
  have line: "line_size (ctr_el0 term_host) = 64" by (simp add: line_size_def term_host_def)
  have size: "fb_size demo_fb = 1920000" "unat (fb_ptr demo_fb) = 0x3C100000" by (simp_all add: fb_size_def demo_fb_def)
  have cache: "\<forall>a h. True \<longrightarrow> True \<and> fst (dc_civac term_host a h) = fst h" by (simp add: term_host_def)
  show ?thesis
    using output_string_mirrored[OF term_line.serial_line_axioms cache, of "demo_console True None ([], [])" demo_fb "[0x48, 0x69, 0x0A, 0x08, 0x03B1]"]
    by (simp add: line size demo_console_def)
qed


definition demo_events :: "(u8 list \<times> u8 list) con_world ev_world" where
  "demo_events =
     \<lparr>ev_slots = EVENTS_INIT[0 := EMPTY_EVENT\<lparr>e_in_use := True, e_kind := ConsoleIn\<rparr>],
      ev_timer = \<lparr>tm_ticks = 0, tick_interval = 1\<rparr>, ev_rest = demo_console True None ([], [0x71])\<rparr>"

theorem awaited_key_is_lost_witness:
  "\<exists>w1 w2. wait_for_event (\<lambda>_ _ _ w. w) (console_key_poll term_host 40000 queue_stack) [] 1 (Some [1]) (Some 0) demo_events
       = (Inr (EFI_SUCCESS, Some 0), w1) \<and>
     read_key_stroke term_host 40000 queue_stack (Some \<lparr>scan_code = 0, unicode_char = 0\<rparr>) (ev_rest w1)
       = (Inr (EFI_NOT_READY, Some \<lparr>scan_code = 0, unicode_char = 0\<rparr>), w2)"
  using awaited_key_is_lost[OF term_line.serial_line_axioms, of demo_events "0x71" "\<lparr>scan_code = 0, unicode_char = 0x71\<rparr>" 0 1 0]
  by (simp add: demo_events_def demo_console_def uart_byte_to_key_def event_to_index_def MAX_EVENTS_def EVENTS_INIT_def)

text \<open>The handles of the console on an empty handle table.\<close>

lemma demo_console_handles:
  "case console_handle SIMPLE_TEXT_OUTPUT_PROTOCOL_GUID 0x90000 0 HANDLES_INIT of Inl e \<Rightarrow> False
     | Inr (h, db) \<Rightarrow> (case console_handle SIMPLE_TEXT_INPUT_PROTOCOL_GUID 0x91000 0 db of Inl e \<Rightarrow> False | Inr _ \<Rightarrow> True)"
  by code_simp

lemma demo_con_init:
  assumes "console_out_handle st = 0" "console_in_handle st = 0"
  shows "\<exists>ev' db' st'. con_init 0x90000 0x91000 None True None demo_events HANDLES_INIT st = Inr (ev', db', st')"
  using demo_console_handles assms by (auto simp: con_init_def Let_def split: sum.splits prod.splits)

theorem efi_tables_sealed_witness:
  "\<exists>ev' db' st'. con_init 0x90000 0x91000 None True None demo_events HANDLES_INIT (system_table_init (\<lambda>_. 0x80000) SYSTEM_TABLE) = Inr (ev', db', st') \<and>
     sealed (put_seg (system_table_bytes st') 40 (replicate 48 0)) \<and> con_out st' = 0x90000"
proof -
  let ?m = "\<lparr>next_free_page = 0, generation = 0\<rparr>" and ?st = "system_table_init (\<lambda>_. 0x80000) SYSTEM_TABLE"
  obtain ev' db' st' where con: "con_init 0x90000 0x91000 None True None demo_events HANDLES_INIT ?st = Inr (ev', db', st')"
    using demo_con_init[of ?st] by (auto simp: system_table_init_def SYSTEM_TABLE_def Let_def)
  have init: "efi_init 0 (\<lambda>_. 0x80000) ?m = (memory_init 0 ?m, boot_services_init (BOOT_SERVICES (\<lambda>_. 0x80000)),
      runtime_services_init (RUNTIME_SERVICES (\<lambda>_. 0x80000)), ?st)" by (simp add: efi_init_def)
  from efi_tables_sealed[OF init con] con show ?thesis by blast
qed

end
