(* ===== verification/Mailbox.thy ===== *)
theory Mailbox
  imports Usb Framebuffer
begin

text \<open>
  \<^verbatim>\<open>src/src/mailbox.rs\<close> and the allocation in \<^verbatim>\<open>src/src/framebuffer.rs\<close>: a property message to the VideoCore and its
  reply in place. The hardware is the record of \<open>Usb\<close>; the three polling loops take fuel, since only the
  VideoCore ends them. The alignment assertion of the source is a debug assertion, which the release
  profile leaves out.
\<close>

unbundle bit_operations_syntax

definition MBOX_BASE :: u64 where "MBOX_BASE = PERIPHERAL_BASE + 0x0000B880"
definition MBOX_READ :: u64 where "MBOX_READ = MBOX_BASE + 0x00"
definition MBOX_STATUS :: u64 where "MBOX_STATUS = MBOX_BASE + 0x18"
definition MBOX_WRITE :: u64 where "MBOX_WRITE = MBOX_BASE + 0x20"
definition MBOX_FULL :: u32 where "MBOX_FULL = push_bit 31 1"
definition MBOX_EMPTY :: u32 where "MBOX_EMPTY = push_bit 30 1"
definition CHANNEL_PROPERTY :: u32 where "CHANNEL_PROPERTY = 8"
definition GPU_UNCACHED_ALIAS :: u32 where "GPU_UNCACHED_ALIAS = 0xC0000000"

primrec mbox_wait :: "('h, 'x) sd_host_scheme \<Rightarrow> nat \<Rightarrow> u32 \<Rightarrow> ('h, 'e, unit) io" where
  "mbox_wait host 0 bit_mask h = (Inl OutOfFuel, h)"
| "mbox_wait host (Suc fuel) bit_mask h =
     (case mmio_read host MBOX_STATUS h of (v, h') \<Rightarrow> if v AND bit_mask \<noteq> 0 then mbox_wait host fuel bit_mask h' else (Inr (), h'))"

primrec mbox_reply :: "('h, 'x) sd_host_scheme \<Rightarrow> nat \<Rightarrow> nat \<Rightarrow> u32 \<Rightarrow> ('h, 'e, unit) io" where
  "mbox_reply host fuel 0 value h = (Inl OutOfFuel, h)"
| "mbox_reply host fuel (Suc n) value h =
     io_bind (mbox_wait host fuel MBOX_EMPTY) (\<lambda>_ h.
       case mmio_read host MBOX_READ h of (v, h') \<Rightarrow> if v = value then (Inr (), h') else mbox_reply host fuel n value h') h"

definition words_bytes :: "u32 list \<Rightarrow> u8 list" where
  "words_bytes ws = concat (map le32 ws)"

definition bytes_words :: "u8 list \<Rightarrow> u32 list" where
  "bytes_words bs = map (\<lambda>i. rd32 (seg bs (4 * i) 4)) [0..<length bs div 4]"

text \<open>\<open>at\<close> is the address of the message; the result is the success flag and the message afterwards.\<close>

definition mbox_call :: "'h usb_host \<Rightarrow> nat \<Rightarrow> u64 \<Rightarrow> u32 list \<Rightarrow> u32 \<Rightarrow> ('h, 'e, bool \<times> u32 list) io" where
  "mbox_call host fuel at msg channel h =
     (let len = length msg * 4;
          bus_addr = (ucast at AND NOT 0xF) OR GPU_UNCACHED_ALIAS;
          value = bus_addr OR (channel AND 0xF) in
      io_bind (u_clean host fuel at len) (\<lambda>_.
      io_bind (mbox_wait host fuel MBOX_FULL) (\<lambda>_ h.
      io_bind (mbox_reply host fuel fuel value) (\<lambda>_.
      io_bind (u_clean host fuel at len) (\<lambda>_ h.
        let reply = bytes_words (buf_get host at len h) in
        if length msg < 2 then (Inl Panic, h) else (Inr (reply ! 1 = 0x80000000, reply), h)))
        (mmio_write host MBOX_WRITE value h))) (buf_put host at (words_bytes msg) h))"

section \<open>Allocating the framebuffer\<close>

definition TAG_SET_PHYS_WH :: u32 where "TAG_SET_PHYS_WH = 0x00048003"
definition TAG_SET_VIRT_WH :: u32 where "TAG_SET_VIRT_WH = 0x00048004"
definition TAG_SET_DEPTH :: u32 where "TAG_SET_DEPTH = 0x00048005"
definition TAG_SET_PIXEL_ORDER :: u32 where "TAG_SET_PIXEL_ORDER = 0x00048006"
definition TAG_ALLOCATE_BUFFER :: u32 where "TAG_ALLOCATE_BUFFER = 0x00040001"
definition TAG_GET_PITCH :: u32 where "TAG_GET_PITCH = 0x00040008"
definition TAG_END :: u32 where "TAG_END = 0"
definition PIXEL_ORDER_RGB :: u32 where "PIXEL_ORDER_RGB = 0"
definition GPU_ALIAS_MASK :: u32 where "GPU_ALIAS_MASK = 0x3FFFFFFF"

lemmas tags = TAG_SET_PHYS_WH_def TAG_SET_VIRT_WH_def TAG_SET_DEPTH_def TAG_SET_PIXEL_ORDER_def TAG_ALLOCATE_BUFFER_def
  TAG_GET_PITCH_def TAG_END_def

text \<open>What the pushes leave in the buffer, with the indices of the two responses.\<close>

definition fb_request :: "u32 \<Rightarrow> u32 \<Rightarrow> u32 \<Rightarrow> u32 list \<times> nat \<times> nat" where
  "fb_request width height depth =
     (let head = [0, 0,
            TAG_SET_PHYS_WH, 8, 8, width, height,
            TAG_SET_VIRT_WH, 8, 8, width, height,
            TAG_SET_DEPTH, 4, 4, depth,
            TAG_SET_PIXEL_ORDER, 4, 4, PIXEL_ORDER_RGB];
          alloc_resp = length head + 3;
          head = head @ [TAG_ALLOCATE_BUFFER, 8, 8, 4096, 0];
          pitch_resp = length head + 3;
          msg = head @ [TAG_GET_PITCH, 4, 4, 0, TAG_END]
      in (msg[0 := of_nat (length msg * 4)], alloc_resp, pitch_resp))"

definition fb_init :: "'h usb_host \<Rightarrow> nat \<Rightarrow> u64 \<Rightarrow> u32 \<Rightarrow> u32 \<Rightarrow> u32 \<Rightarrow> ('h, 'e, framebuffer option) io" where
  "fb_init host fuel msg_at width height depth =
     (case fb_request width height depth of (msg, alloc_resp, pitch_resp) \<Rightarrow>
      io_bind (mbox_call host fuel msg_at msg CHANNEL_PROPERTY) (\<lambda>(ok, b).
        if \<not> ok then io_return None
        else
          (let base = b ! alloc_resp AND GPU_ALIAS_MASK; sz = b ! (alloc_resp + 1); pitch = b ! pitch_resp in
           if base = 0 \<or> sz = 0 \<or> pitch = 0 then io_return None
           else io_return (Some \<lparr>fb_ptr = ucast base, fb_width = width, fb_height = height, fb_pitch = pitch, fb_bpp = depth\<rparr>))))"

section \<open>The message format\<close>

text \<open>
  The property message format: total size in bytes, a request code of zero, then tags until a zero word;
  a tag is its number, the size of its value buffer, a word the reply overwrites, and the value words.
\<close>

primrec read_tags :: "nat \<Rightarrow> u32 list \<Rightarrow> (u32 \<times> u32 list) list option" where
  "read_tags 0 ws = None"
| "read_tags (Suc n) ws =
     (if ws = [] then None
      else if hd ws = 0 then Some []
      else if length ws < 3 then None
      else (let k = unat (ws ! 1) div 4; vals = drop 3 ws in
            if k \<le> length vals then map_option ((#) (hd ws, take k vals)) (read_tags n (drop k vals)) else None))"

text \<open>
  The framebuffer request is a well-formed property message for every width, height and depth: its
  size word is its size, it asks, in this order, for physical and virtual size, depth, pixel order, a
  4096-aligned buffer and the pitch, and the two response indices are where the values of the last two
  tags lie.
\<close>

theorem framebuffer_request_wellformed:
  "\<exists>msg alloc_resp pitch_resp. fb_request width height depth = (msg, alloc_resp, pitch_resp) \<and>
     unat (msg ! 0) = 4 * length msg \<and> msg ! 1 = 0 \<and> length msg \<le> 36 \<and> seg msg alloc_resp 2 = [4096, 0] \<and>
     (\<exists>n. read_tags n (drop 2 msg) = Some
       [(0x48003, [width, height]), (0x48004, [width, height]), (0x48005, [depth]), (0x48006, [0]),
        (0x40001, seg msg alloc_resp 2), (0x40008, seg msg pitch_resp 1)])"
proof -
  let ?msg = "[120, 0, 0x48003, 8, 8, width, height, 0x48004, 8, 8, width, height, 0x48005, 4, 4, depth, 0x48006, 4, 4, 0,
    0x40001, 8, 8, 4096, 0, 0x40008, 4, 4, 0, 0]"
  have req: "fb_request width height depth = (?msg, 23, 28)"
    by (simp add: fb_request_def Let_def tags PIXEL_ORDER_RGB_def)
  have segs: "seg ?msg 23 2 = [4096, 0]" "seg ?msg 28 1 = [0]" by (simp_all add: seg_def)
  have parsed: "read_tags (Suc (Suc (Suc (Suc (Suc (Suc (Suc 0))))))) (drop 2 ?msg) = Some
       [(0x48003, [width, height]), (0x48004, [width, height]), (0x48005, [depth]), (0x48006, [0]), (0x40001, [4096, 0]), (0x40008, [0])]"
    by (simp add: Let_def)
  show ?thesis
  proof (intro exI conjI)
    show "fb_request width height depth = (?msg, 23, 28)" by (rule req)
    show "unat (?msg ! 0) = 4 * length ?msg" "?msg ! 1 = 0" "length ?msg \<le> 36" by simp_all
    show "seg ?msg 23 2 = [4096, 0]" by (rule segs(1))
    show "read_tags (Suc (Suc (Suc (Suc (Suc (Suc (Suc 0))))))) (drop 2 ?msg) = Some
        [(0x48003, [width, height]), (0x48004, [width, height]), (0x48005, [depth]), (0x48006, [0]),
         (0x40001, seg ?msg 23 2), (0x40008, seg ?msg 28 1)]"
      unfolding segs by (rule parsed)
  qed
qed

end
