(* ===== verification/Ui.thy ===== *)
theory Ui
  imports Console_Properties Settings Block_Io File_Protocol Device_Path Pm
begin

text \<open>
  \<^verbatim>\<open>src/src/ui.rs\<close>, first part: the state of the boot menu, text and formatting, keys. The
  record \<open>machine\<close> collects what the menu is given (registers, tick counter, fuel for the polling
  loops, system registers, addresses the linker assigns, and the code of a started image); \<open>ui_world\<close> is
  everything the menu changes: the boot services' state (whose memory holds the framebuffer and
  LOAD_BUFFER), the variables and settings with the hardware behind them, the keyboard, and the
  statics of the components the menu installs. A \<^verbatim>\<open>&str\<close> is the list of its bytes.
\<close>

unbundle bit_operations_syntax

section \<open>State\<close>

record 'h ui_world = boot_state +
  uw_store :: "'h settings_world"
  uw_kbd :: "keyboard option"
  uw_events :: "unit con_world ev_world"
  uw_system_table :: system_table
  uw_media :: block_io_media
  uw_sd_path :: sd_path
  uw_file_path :: "u8 list"
  uw_sd_handle :: "efi_handle option"

record 'h machine =
  mc_host :: "'h usb_host"
  mc_fuel :: nat
  mc_stack :: hid_stack
  mc_midr :: u64
  mc_cntfrq :: u64
  mc_current_el :: u64
  mc_layout :: layout
  mc_link :: "string \<Rightarrow> addr"
  mc_entry :: "u64 \<Rightarrow> efi_handle \<Rightarrow> addr \<Rightarrow> 'h ui_world \<Rightarrow> efi_status \<times> 'h ui_world"

type_synonym ('h, 'a) ui_io = "('h ui_world, unit, 'a) io"

abbreviation uw_hw :: "'h ui_world \<Rightarrow> 'h" where
  "uw_hw w \<equiv> pw_dev (uw_store w)"

definition set_hw :: "'h \<Rightarrow> 'h ui_world \<Rightarrow> 'h ui_world" where
  "set_hw h w = w\<lparr>uw_store := (uw_store w)\<lparr>pw_dev := h\<rparr>\<rparr>"

definition with_hw :: "('h, 'e, 'a) io \<Rightarrow> ('h ui_world, 'e, 'a) io" where
  "with_hw m w = (case m (uw_hw w) of (r, h) \<Rightarrow> (r, set_hw h w))"

definition with_store :: "('h settings_world, 'e, 'a) io \<Rightarrow> ('h ui_world, 'e, 'a) io" where
  "with_store m w = (case m (uw_store w) of (r, s) \<Rightarrow> (r, w\<lparr>uw_store := s\<rparr>))"

lemma uw_hw_set_hw [simp]: "uw_hw (set_hw h w) = h"
  by (simp add: set_hw_def)

lemma set_hw_frame [simp]:
  "uw_kbd (set_hw h w) = uw_kbd w" "bs_ram (set_hw h w) = bs_ram w" "sw_settings (uw_store (set_hw h w)) = sw_settings (uw_store w)"
  by (simp_all add: set_hw_def)

definition settings_of :: "'h ui_world \<Rightarrow> settings" where
  "settings_of w = settings_get (uw_store w)"

text \<open>Statements in a row; a \<^verbatim>\<open>match\<close> on a \<^verbatim>\<open>Result\<close>; a call that may panic.\<close>

primrec ui_seq :: "('h, unit) ui_io list \<Rightarrow> ('h, unit) ui_io" where
  "ui_seq [] = io_return ()"
| "ui_seq (a # as) = io_bind a (\<lambda>_. ui_seq as)"

definition attempt :: "('s, 'e, 'a) io \<Rightarrow> ('s, 'f, 'e + 'a) io" where
  "attempt m s =
     (case m s of
        (Inl (Err e), s') \<Rightarrow> (Inr (Inl e), s')
      | (Inl Panic, s') \<Rightarrow> (Inl Panic, s')
      | (Inl OutOfFuel, s') \<Rightarrow> (Inl OutOfFuel, s')
      | (Inr x, s') \<Rightarrow> (Inr (Inr x), s'))"

definition ui_call :: "('h ui_world \<Rightarrow> ('a \<times> 'h ui_world) checked) \<Rightarrow> ('h, 'a) ui_io" where
  "ui_call f w = (case f w of Inl e \<Rightarrow> (Inl e, w) | Inr (x, w') \<Rightarrow> (Inr x, w'))"

text \<open>The SD card driver on the registers of the machine.\<close>

definition sd_of :: "'h machine \<Rightarrow> 'h sd_host" where
  "sd_of m = sd_host.truncate (mc_host m)"

definition dev_of :: "'h machine \<Rightarrow> card \<Rightarrow> 'h block_ops" where
  "dev_of m = card_ops (sd_of m) (mc_fuel m)"

text \<open>A function of the state, the tick counter, and a pause.\<close>

definition ui_get :: "('h ui_world \<Rightarrow> 'a) \<Rightarrow> ('h, 'a) ui_io" where
  "ui_get f w = (Inr (f w), w)"

definition ui_ticks :: "'h machine \<Rightarrow> ('h, u64) ui_io" where
  "ui_ticks m w = (case timer_ticks (mc_host m) (uw_hw w) of (t, h) \<Rightarrow> (Inr t, set_hw h w))"

definition ui_sleep :: "'h machine \<Rightarrow> u64 \<Rightarrow> ('h, unit) ui_io" where
  "ui_sleep m n w = (Inr (), set_hw (sleep (mc_host m) n (uw_hw w)) w)"

text \<open>The statics at power-on, over a memory and a hardware state.\<close>

definition CONSOLE_INIT :: "unit con_world" where
  "CONSOLE_INIT = \<lparr>cw_fb = None, cw_uart = False, cw_kbd = None, cw_col = 0, cw_row = 0, cw_attr = 0x07, cw_mode = OUT_MODE,
     cw_esc = 0, cw_wait_event = 0, cw_ram = (\<lambda>_. 0), cw_hw = ()\<rparr>"

definition UI_INIT :: "ram \<Rightarrow> 'h \<Rightarrow> 'h ui_world" where
  "UI_INIT ram h = boot_state.extend (BOOT_INIT ram) (ui_world.fields
     \<lparr>pw_vars = VARS_INIT, pw_context = None, pw_dev = h, sw_settings = default_settings\<rparr> None
     \<lparr>ev_slots = EVENTS_INIT, ev_timer = \<lparr>tm_ticks = 0, tick_interval = 0\<rparr>, ev_rest = CONSOLE_INIT\<rparr>
     SYSTEM_TABLE MEDIA_INIT \<lparr>sp_bytes = replicate SD_PATH_LEN 0, sp_built = False\<rparr> (replicate MAX_FILE_PATH_BYTES 0) None)"

lemmas ui_init = UI_INIT_def BOOT_INIT_def boot_state.extend_def ui_world.fields_def

section \<open>Strings\<close>

text \<open>The characters of a valid UTF-8 string: \<^verbatim>\<open>core::str::from_utf8\<close>.\<close>

definition cont :: "u8 \<Rightarrow> bool" where "cont b \<longleftrightarrow> b AND 0xC0 = 0x80"

fun utf8_split :: "u8 list \<Rightarrow> (u32 \<times> u8 list) option" where
  "utf8_split [] = None"
| "utf8_split (b # bs) =
     (if b < 0x80 then Some (ucast b, bs)
      else if 0xC2 \<le> b \<and> b \<le> 0xDF then
        (case bs of
           c1 # r \<Rightarrow> if cont c1 then Some (push_bit 6 (ucast (b AND 0x1F)) OR ucast (c1 AND 0x3F), r) else None
         | _ \<Rightarrow> None)
      else if 0xE0 \<le> b \<and> b \<le> 0xEF then
        (case bs of
           c1 # c2 # r \<Rightarrow>
             if cont c1 \<and> cont c2 \<and> (b = 0xE0 \<longrightarrow> 0xA0 \<le> c1) \<and> (b = 0xED \<longrightarrow> c1 \<le> 0x9F)
             then Some (push_bit 12 (ucast (b AND 0x0F)) OR push_bit 6 (ucast (c1 AND 0x3F)) OR ucast (c2 AND 0x3F), r)
             else None
         | _ \<Rightarrow> None)
      else if 0xF0 \<le> b \<and> b \<le> 0xF4 then
        (case bs of
           c1 # c2 # c3 # r \<Rightarrow>
             if cont c1 \<and> cont c2 \<and> cont c3 \<and> (b = 0xF0 \<longrightarrow> 0x90 \<le> c1) \<and> (b = 0xF4 \<longrightarrow> c1 \<le> 0x8F)
             then Some (push_bit 18 (ucast (b AND 0x07)) OR push_bit 12 (ucast (c1 AND 0x3F)) OR
                        push_bit 6 (ucast (c2 AND 0x3F)) OR ucast (c3 AND 0x3F), r)
             else None
         | _ \<Rightarrow> None)
      else None)"

lemma utf8_split_shorter: "utf8_split bs = Some (c, r) \<Longrightarrow> length r < length bs"
  by (cases bs) (auto split: if_splits list.splits)

function from_utf8 :: "u8 list \<Rightarrow> u32 list option" where
  "from_utf8 bs =
     (if bs = [] then Some []
      else (case utf8_split bs of
              None \<Rightarrow> None
            | Some (c, r) \<Rightarrow> (case from_utf8 r of None \<Rightarrow> None | Some cs \<Rightarrow> Some (c # cs))))"
  by pat_completeness auto
termination
  by (relation "measure length") (auto dest: utf8_split_shorter)

declare from_utf8.simps [simp del]

definition chars :: "u8 list \<Rightarrow> u32 list" where
  "chars s = (case from_utf8 s of Some cs \<Rightarrow> cs | None \<Rightarrow> [])"

text \<open>\<^verbatim>\<open>from_utf8(bytes).unwrap_or(dflt)\<close>\<close>

definition utf8_or :: "u8 list \<Rightarrow> u8 list \<Rightarrow> u8 list" where
  "utf8_or bytes dflt = (if from_utf8 bytes = None then dflt else bytes)"

text \<open>\<^verbatim>\<open>text.lines().next().unwrap_or(text)\<close>\<close>

definition first_line :: "u8 list \<Rightarrow> u8 list" where
  "first_line text =
     (let l = takeWhile (\<lambda>b. b \<noteq> 0x0A) text in
      if length l < length text \<and> l \<noteq> [] \<and> last l = 0x0D then butlast l else l)"

section \<open>Formatting\<close>

text \<open>The argument forms of \<^verbatim>\<open>write!\<close> in use: decimal, hexadecimal, pointer, boolean, and derived \<^verbatim>\<open>Debug\<close>.\<close>

definition digit :: "nat \<Rightarrow> nat \<Rightarrow> u8" where
  "digit a n = (if n < 10 then of_nat (0x30 + n) else of_nat (a + (n - 10)))"

fun radix :: "nat \<Rightarrow> nat \<Rightarrow> nat \<Rightarrow> u8 list" where
  "radix b a n = (if b < 2 \<or> n < b then [digit a n] else radix b a (n div b) @ [digit a (n mod b)])"

declare radix.simps [simp del]

definition dec :: "nat \<Rightarrow> u8 list" where "dec n = radix 10 0x61 n"
definition hex :: "nat \<Rightarrow> u8 list" where "hex n = radix 16 0x61 n"
definition HEX :: "nat \<Rightarrow> u8 list" where "HEX n = radix 16 0x41 n"

definition pad0 :: "nat \<Rightarrow> u8 list \<Rightarrow> u8 list" where
  "pad0 n s = replicate (n - length s) 0x30 @ s"

definition pointer :: "u64 \<Rightarrow> u8 list" where "pointer a = ascii ''0x'' @ hex (unat a)"

definition show_bool :: "bool \<Rightarrow> u8 list" where
  "show_bool b = (if b then ascii ''true'' else ascii ''false'')"

definition debug_arg :: "string \<Rightarrow> u8 list \<Rightarrow> u8 list" where
  "debug_arg c arg = ascii c @ ascii ''('' @ arg @ ascii '')''"

fun debug_sd :: "sd_error \<Rightarrow> u8 list" where
  "debug_sd SdTimeout = ascii ''Timeout''"
| "debug_sd (SdError v) = debug_arg ''Error'' (dec (unat v))"
| "debug_sd SdNoCard = ascii ''NoCard''"

fun debug_fat32 :: "fat32_error \<Rightarrow> u8 list" where
  "debug_fat32 (FatSd e) = debug_arg ''Sd'' (debug_sd e)"
| "debug_fat32 NoMbrSignature = ascii ''NoMbrSignature''"
| "debug_fat32 NoFat32Partition = ascii ''NoFat32Partition''"
| "debug_fat32 BadBootSector = ascii ''BadBootSector''"
| "debug_fat32 FatNotFound = ascii ''NotFound''"
| "debug_fat32 NoSpace = ascii ''NoSpace''"

fun debug_persist :: "persist_error \<Rightarrow> u8 list" where
  "debug_persist TooLarge = ascii ''TooLarge''"
| "debug_persist (PersistSd e) = debug_arg ''Sd'' (debug_sd e)"
| "debug_persist (PersistFat32 e) = debug_arg ''Fat32'' (debug_fat32 e)"
| "debug_persist NotOurData = ascii ''NotOurData''"

fun debug_usb :: "usb_error \<Rightarrow> u8 list" where
  "debug_usb UsbTimeout = ascii ''Timeout''"
| "debug_usb NoDevice = ascii ''NoDevice''"
| "debug_usb (TransferError v) = debug_arg ''TransferError'' (dec (unat v))"
| "debug_usb Stall = ascii ''Stall''"

fun debug_hid :: "hid_error \<Rightarrow> u8 list" where
  "debug_hid (HidUsb e) = debug_arg ''Usb'' (debug_usb e)"
| "debug_hid NoKeyboardFound = ascii ''NoKeyboardFound''"

text \<open>\<^verbatim>\<open>writeln!(uart, ...)\<close>\<close>

definition uart_line :: "'h machine \<Rightarrow> u8 list \<Rightarrow> ('h, unit) ui_io" where
  "uart_line m s = with_hw (uart_puts (mc_host m) (mc_fuel m) (s @ [0x0A]))"

text \<open>The screen's fixed-capacity string buffer.\<close>

record line_buf =
  lb_buf :: "u8 list"
  lb_len :: nat

definition line_new :: line_buf where
  "line_new = \<lparr>lb_buf = replicate 80 0, lb_len = 0\<rparr>"

definition line_as_str :: "line_buf \<Rightarrow> u8 list" where
  "line_as_str lb = utf8_or (take (lb_len lb) (lb_buf lb)) []"

definition line_write :: "u8 list \<Rightarrow> line_buf \<Rightarrow> line_buf" where
  "line_write bytes lb =
     (let n = min (length bytes) (length (lb_buf lb) - lb_len lb) in
      lb\<lparr>lb_buf := put_seg (lb_buf lb) (lb_len lb) (take n bytes), lb_len := lb_len lb + n\<rparr>)"

text \<open>A line built by one \<^verbatim>\<open>write!\<close> of several pieces.\<close>

definition format_line :: "u8 list list \<Rightarrow> u8 list" where
  "format_line pieces = line_as_str (fold line_write pieces line_new)"

end
