(* ===== verification/Ui_Input.thy ===== *)
theory Ui_Input
  imports Ui Boot_Properties
begin

text \<open>
  \<^verbatim>\<open>src/src/ui.rs\<close>, keys: the decoder both input sources feed, polling, and the selection of the
  menu. The theorem at the end shows that the serial line and the keyboard speak the same vocabulary.
\<close>

unbundle bit_operations_syntax

section \<open>Keys\<close>

datatype key = Up | Down | Left | Right | Enter | Back

text \<open>\<^verbatim>\<open>InputState.esc\<close>: 0 idle, 1 after ESC, 2 after ESC and an opening bracket.\<close>

definition decode_byte :: "u8 \<Rightarrow> u8 \<Rightarrow> key option \<times> u8" where
  "decode_byte b esc =
     (if esc = 0 \<and> b = 0x1B then (None, 1)
      else if esc = 1 \<and> b = 0x5B then (None, 2)
      else if esc = 2 then
        ((if b = 0x41 then Some Up
          else if b = 0x42 then Some Down
          else if b = 0x43 then Some Right
          else if b = 0x44 then Some Left
          else None), 0)
      else
        ((if b = 0x6B \<or> b = 0x4B then Some Up
          else if b = 0x6A \<or> b = 0x4A then Some Down
          else if b = 0x68 \<or> b = 0x48 then Some Left
          else if b = 0x6C \<or> b = 0x4C then Some Right
          else if b = 0x0D \<or> b = 0x0A then Some Enter
          else if b = 0x08 \<or> b = 0x7F \<or> b = 0x71 \<or> b = 0x51 then Some Back
          else None), 0))"

fun decode_bytes :: "u8 list \<Rightarrow> u8 \<Rightarrow> key option \<times> u8" where
  "decode_bytes [] esc = (None, esc)"
| "decode_bytes (b # bs) esc =
     (case decode_byte b esc of (Some k, esc) \<Rightarrow> (Some k, esc) | (None, esc) \<Rightarrow> decode_bytes bs esc)"

fun decode_codes :: "u8 list \<Rightarrow> u8 \<Rightarrow> key option \<times> u8" where
  "decode_codes [] esc = (None, esc)"
| "decode_codes (code # codes) esc =
     (if code = 0 then decode_codes codes esc
      else (case keycode_to_menu_bytes code [0, 0, 0] of
              (n, bytes) \<Rightarrow>
                (case decode_bytes (take n bytes) esc of
                   (Some k, esc) \<Rightarrow> (Some k, esc)
                 | (None, esc) \<Rightarrow> decode_codes codes esc)))"

definition poll_menu_keyboard :: "'h machine \<Rightarrow> u8 \<Rightarrow> ('h, key option \<times> u8) ui_io" where
  "poll_menu_keyboard m esc w =
     (case uw_kbd w of
        None \<Rightarrow> (Inr (None, esc), w)
      | Some kbd \<Rightarrow>
          io_bind (with_hw (io_ok (poll_new_keys (mc_host m) (mc_fuel m) (mc_stack m) kbd))) (\<lambda>r w.
            case r of
              None \<Rightarrow> (Inr (None, esc), w)
            | Some (keys, kbd') \<Rightarrow> (Inr (decode_codes keys esc), w\<lparr>uw_kbd := Some kbd'\<rparr>)) w)"

definition poll_menu_key :: "'h machine \<Rightarrow> u8 \<Rightarrow> ('h, key option \<times> u8) ui_io" where
  "poll_menu_key m esc w =
     (case uart_getc (mc_host m) (uw_hw w) of
        (Some b, h) \<Rightarrow> (Inr (decode_byte b esc), set_hw h w)
      | (None, h) \<Rightarrow> poll_menu_keyboard m esc (set_hw h w))"

definition poll_any_key :: "'h machine \<Rightarrow> ('h, bool) ui_io" where
  "poll_any_key m w =
     (case uart_getc (mc_host m) (uw_hw w) of
        (Some b, h) \<Rightarrow> (Inr True, set_hw h w)
      | (None, h) \<Rightarrow>
          (case uw_kbd w of
             None \<Rightarrow> (Inr False, set_hw h w)
           | Some kbd \<Rightarrow>
               io_bind (with_hw (io_ok (poll_new_keys (mc_host m) (mc_fuel m) (mc_stack m) kbd))) (\<lambda>r w.
                 case r of
                   None \<Rightarrow> (Inr False, w)
                 | Some (keys, kbd') \<Rightarrow> (Inr (\<exists>c \<in> set keys. c \<noteq> 0), w\<lparr>uw_kbd := Some kbd'\<rparr>)) (set_hw h w)))"

primrec wait_key_loop :: "'h machine \<Rightarrow> nat \<Rightarrow> ('h, unit) ui_io" where
  "wait_key_loop m 0 = io_throw OutOfFuel"
| "wait_key_loop m (Suc n) = io_bind (poll_any_key m) (\<lambda>pressed. if pressed then io_return () else wait_key_loop m n)"

definition wait_for_key :: "'h machine \<Rightarrow> ('h, unit) ui_io" where
  "wait_for_key m = wait_key_loop m (mc_fuel m)"

section \<open>The selection\<close>

definition ITEMS :: "(string \<times> string) list" where
  "ITEMS =
     [(''BOOT FROM SD'', ''MOUNT THE SD CARD, LOAD SAVED VARIABLES, LIST WHAT'' @ [CHR 0x27] @ ''S ON IT''),
      (''SETTINGS'', ''VERBOSE BOOT, ACCENT THEME, USB HID -- REAL UEFI VARIABLES''),
      (''SYSTEM INFO'', ''CPU, TIMER, MMU, USB, AND NVRAM STATE, READ LIVE FROM HARDWARE''),
      (''SAVE VARIABLES TO SD'', ''WRITE UEFI VARIABLES (INCLUDING SETTINGS) TO THE SD CARD''),
      (''REBOOT'', ''ISSUE A WATCHDOG RESET'')]"

text \<open>\<^verbatim>\<open>selected.checked_sub(1).unwrap_or(n - 1)\<close> and \<^verbatim>\<open>(selected + 1) % n\<close> over a list of \<open>n\<close> rows.\<close>

definition row_up :: "nat \<Rightarrow> nat \<Rightarrow> nat" where
  "row_up n s = (if s = 0 then n - 1 else s - 1)"

definition row_down :: "nat \<Rightarrow> nat \<Rightarrow> nat" where
  "row_down n s = (s + 1) mod n"

definition move_up :: "nat \<Rightarrow> nat" where "move_up s = row_up (length ITEMS) s"
definition move_down :: "nat \<Rightarrow> nat" where "move_down s = row_down (length ITEMS) s"

lemma length_ITEMS [simp]: "length ITEMS = 5"
  by (simp add: ITEMS_def)

lemma row_moves:
  assumes "s < n"
  shows "row_up n s < n" "row_down n s < n" "row_up n (row_down n s) = s" "row_down n (row_up n s) = s"
  using assms by (auto simp: row_up_def row_down_def mod_Suc)

lemma row_up_mod: "s < n \<Longrightarrow> int (row_up n s) = (int s - 1) mod int n"
  by (auto simp: row_up_def nat_diff_split of_nat_diff zmod_minus1)

lemma row_down_mod: "s < n \<Longrightarrow> int (row_down n s) = (int s + 1) mod int n"
  by (simp add: row_down_def zmod_int add.commute)

section \<open>The two sources agree\<close>

text \<open>The byte sequences that stand for a key.\<close>

fun spellings :: "key \<Rightarrow> u8 list list" where
  "spellings Up = [[0x1B, 0x5B, 0x41], [0x6B], [0x4B]]"
| "spellings Down = [[0x1B, 0x5B, 0x42], [0x6A], [0x4A]]"
| "spellings Left = [[0x1B, 0x5B, 0x44], [0x68], [0x48]]"
| "spellings Right = [[0x1B, 0x5B, 0x43], [0x6C], [0x4C]]"
| "spellings Enter = [[0x0D], [0x0A]]"
| "spellings Back = [[0x08], [0x7F], [0x71], [0x51]]"

text \<open>The key codes of the keyboard that stand for a key.\<close>

definition key_codes :: "(u8 \<times> key) list" where
  "key_codes = [(0x0D, Down), (0x0E, Up), (0x28, Enter), (0x51, Down), (0x52, Up), (0x50, Left), (0x4F, Right), (0x29, Back), (0x2A, Back)]"

text \<open>\<open>n\<close> polls in a row, with the keys they give and the decoder's last state.\<close>

primrec poll_keys :: "'h machine \<Rightarrow> nat \<Rightarrow> u8 \<Rightarrow> ('h, key list \<times> u8) ui_io" where
  "poll_keys m 0 esc = io_return ([], esc)"
| "poll_keys m (Suc n) esc =
     io_bind (poll_menu_key m esc) (\<lambda>(k, esc).
     io_bind (poll_keys m n esc) (\<lambda>(ks, esc).
       io_return (case k of None \<Rightarrow> ks | Some k \<Rightarrow> k # ks, esc)))"

fun decode_all :: "u8 list \<Rightarrow> u8 \<Rightarrow> key list \<times> u8" where
  "decode_all [] esc = ([], esc)"
| "decode_all (b # bs) esc =
     (case decode_byte b esc of (k, esc) \<Rightarrow>
      case decode_all bs esc of (ks, esc) \<Rightarrow> (case k of None \<Rightarrow> ks | Some k \<Rightarrow> k # ks, esc))"

lemma decode_all_append:
  "decode_all (xs @ ys) esc =
     (case decode_all xs esc of (ks, esc) \<Rightarrow> case decode_all ys esc of (ks', esc) \<Rightarrow> (ks @ ks', esc))"
  by (induction xs arbitrary: esc) (auto split: prod.splits option.splits)

lemma decode_spelling: "bs \<in> set (spellings k) \<Longrightarrow> decode_all bs 0 = ([k], 0)"
  by (cases k) (auto simp: decode_byte_def)

lemma decode_spellings: "\<forall>(k, bs) \<in> set typed. bs \<in> set (spellings k) \<Longrightarrow> decode_all (concat (map snd typed)) 0 = (map fst typed, 0)"
proof (induction typed)
  case (Cons p typed)
  obtain k bs where "p = (k, bs)" by fastforce
  with Cons show ?case by (auto simp: decode_all_append decode_spelling)
qed simp

lemma poll_keys_decode:
  assumes line: "serial_line (mc_host m) (mc_fuel m) up sent received backlog"
  shows "up (uw_hw w) \<Longrightarrow> received (uw_hw w) = bs \<Longrightarrow>
    \<exists>w'. poll_keys m (length bs) esc w = (Inr (decode_all bs esc), w') \<and> received (uw_hw w') = []"
proof (induction bs arbitrary: w esc)
  case (Cons b bs)
  obtain h' where h: "uart_getc (mc_host m) (uw_hw w) = (Some b, h')" "up h'" "received h' = bs"
    using serial_line.getc_takes[OF line Cons.prems(1)] Cons.prems(2) by auto
  obtain k esc1 where k: "decode_byte b esc = (k, esc1)" by fastforce
  have p: "poll_menu_key m esc w = (Inr (k, esc1), set_hw h' w)" by (simp add: poll_menu_key_def h k)
  obtain w' where "poll_keys m (length bs) esc1 (set_hw h' w) = (Inr (decode_all bs esc1), w')" "received (uw_hw w') = []"
    using Cons.IH[of "set_hw h' w" esc1] h by auto
  then show ?case using p k by (auto simp: io_bind_def io_return_def split: prod.splits)
qed (simp add: io_return_def)

lemma menu_code_decoded:
  "decode_codes (code # codes) 0 =
     (case map_of key_codes code of Some k \<Rightarrow> (Some k, 0) | None \<Rightarrow> decode_codes codes 0)"
  by (auto simp: keycode_to_menu_bytes_def key_codes_def decode_byte_def)

text \<open>
  C27: the menu reads the same keys from both inputs. Whatever the user types on a working serial
  line, each key in any of its spellings (an arrow's escape sequence or a letter), polling once per
  byte gives exactly the keys typed, in order, and leaves the decoder idle; and a keyboard report
  gives the first of its new key codes that stands for a key, again leaving the decoder idle, so a
  code that means nothing to the menu never disturbs the keys after it.
\<close>

theorem menu_keys_agree:
  assumes line: "serial_line (mc_host m) (mc_fuel m) up sent received backlog"
    and w: "up (uw_hw w)" "received (uw_hw w) = concat (map snd typed)"
    and typed: "\<forall>(k, bs) \<in> set typed. bs \<in> set (spellings k)"
  shows "(\<exists>w'. poll_keys m (length (concat (map snd typed))) 0 w = (Inr (map fst typed, 0), w') \<and> received (uw_hw w') = []) \<and>
    decode_codes codes 0 = (case List.map_filter (map_of key_codes) codes of [] \<Rightarrow> None | k # _ \<Rightarrow> Some k, 0) \<and>
    (\<forall>(code, k) \<in> set key_codes. \<exists>n bytes. keycode_to_menu_bytes code [0, 0, 0] = (n, bytes) \<and> take n bytes \<in> set (spellings k))"
proof (intro conjI)
  show "\<exists>w'. poll_keys m (length (concat (map snd typed))) 0 w = (Inr (map fst typed, 0), w') \<and> received (uw_hw w') = []"
    using poll_keys_decode[OF line w, of 0] by (simp add: decode_spellings[OF typed])
  show "decode_codes codes 0 = (case List.map_filter (map_of key_codes) codes of [] \<Rightarrow> None | k # _ \<Rightarrow> Some k, 0)"
  proof (induction codes)
    case (Cons code codes)
    then show ?case unfolding menu_code_decoded by (auto simp: List.map_filter_simps split: option.splits)
  qed (simp add: List.map_filter_simps)
  show "\<forall>(code, k) \<in> set key_codes. \<exists>n bytes. keycode_to_menu_bytes code [0, 0, 0] = (n, bytes) \<and> take n bytes \<in> set (spellings k)"
    by (simp add: key_codes_def keycode_to_menu_bytes_def)
qed

definition term_machine :: "(u8 list \<times> u8 list) machine" where
  "term_machine = \<lparr>mc_host = term_host, mc_fuel = 40000, mc_stack = queue_stack, mc_midr = 0x410FD034, mc_cntfrq = 62500000,
     mc_current_el = 4, mc_layout = demo_layout, mc_link = (\<lambda>_. 0x90000), mc_entry = (\<lambda>_ _ _ w. (EFI_SUCCESS, w))\<rparr>"

lemma term_machine_line: "serial_line (mc_host term_machine) (mc_fuel term_machine) (\<lambda>_. True) fst snd (\<lambda>_. 0)"
  using term_line.serial_line_axioms by (simp add: term_machine_def)

theorem menu_keys_agree_witness:
  "(\<exists>w'. poll_keys term_machine 5 0 (UI_INIT (\<lambda>_. 0) ([], [0x1B, 0x5B, 0x42, 0x6B, 0x0D])) = (Inr ([Down, Up, Enter], 0), w')) \<and>
   decode_codes [0x04, 0x51, 0x28, 0, 0, 0] 0 = (Some Down, 0)"
proof -
  let ?w = "UI_INIT (\<lambda>_. 0) ([] :: u8 list, [0x1B, 0x5B, 0x42, 0x6B, 0x0D])"
    and ?t = "[(Down, [0x1B, 0x5B, 0x42]), (Up, [0x6B]), (Enter, [0x0D])] :: (key \<times> u8 list) list"
  have w: "snd (uw_hw ?w) = concat (map snd ?t)" by (simp add: ui_init)
  have t: "\<forall>(k, bs) \<in> set ?t. bs \<in> set (spellings k)" by simp
  note h = menu_keys_agree[OF term_machine_line TrueI w t, of "[0x04, 0x51, 0x28, 0, 0, 0]"]
  have n: "length (concat (map snd ?t)) = 5" "map fst ?t = [Down, Up, Enter]" by simp_all
  have c: "(case List.map_filter (map_of key_codes) [0x04, 0x51, 0x28, 0, 0, 0] of [] \<Rightarrow> None | k # _ \<Rightarrow> Some k, 0 :: u8) = (Some Down, 0)"
    by code_simp
  show ?thesis using h unfolding n c by blast
qed

end
