(* ===== verification/Ui_Screens.thy ===== *)
theory Ui_Screens
  imports Ui_Input
begin

text \<open>
  \<^verbatim>\<open>src/src/ui.rs\<close>, screens: the chrome, lines printed one at a time, the status panel, the menu with
  its wrapped descriptions, messages, system information. Drawing changes the memory of \<open>ui_world\<close>
  through the functions of \<open>Framebuffer\<close>; a flush and a line on the serial port go to the hardware. The last
  section shows that wrapping a description loses nothing.
\<close>

unbundle bit_operations_syntax

section \<open>Colours and layout\<close>

definition BG :: u32 where "BG = 0x00121620"
definition HEADER_BG :: u32 where "HEADER_BG = 0x00202A38"
definition BORDER :: u32 where "BORDER = 0x00354250"
definition FG :: u32 where "FG = 0x00E0E6EC"
definition DIM :: u32 where "DIM = 0x00707880"
definition ERROR :: u32 where "ERROR = 0x00FF5040"

definition ui_accent :: "'h ui_world \<Rightarrow> u32" where "ui_accent w = accent (theme (settings_of w))"
definition ui_select_bg :: "'h ui_world \<Rightarrow> u32" where "ui_select_bg w = select_bg (theme (settings_of w))"

definition HEADER_H :: u32 where "HEADER_H = 50"
definition FOOTER_H :: u32 where "FOOTER_H = 40"
definition MARGIN :: u32 where "MARGIN = 20"
definition CONTENT_X :: u32 where "CONTENT_X = 40"
definition CONTENT_Y :: u32 where "CONTENT_Y = HEADER_H + 35"
definition LINE_DELAY_TICKS :: u64 where "LINE_DELAY_TICKS = 6"
definition IDLE_REDRAW_TICKS :: u64 where "IDLE_REDRAW_TICKS = 10"
definition DIVIDER_X :: u32 where "DIVIDER_X = 400"
definition STATUS_X :: u32 where "STATUS_X = DIVIDER_X + 30"

definition text_width :: "u8 list \<Rightarrow> u32 \<Rightarrow> u32" where
  "text_width text scale = of_nat (length (chars text)) * (GLYPH_WIDTH + 1) * scale"

definition line_height :: "u32 \<Rightarrow> u32" where
  "line_height scale = (GLYPH_HEIGHT + 3) * scale"

text \<open>\<^verbatim>\<open>fb.draw_text\<close> of a string, a change of the memory, and \<^verbatim>\<open>fb.flush()\<close>.\<close>

definition put_text :: "framebuffer \<Rightarrow> u32 \<Rightarrow> u32 \<Rightarrow> u8 list \<Rightarrow> u32 \<Rightarrow> u32 \<Rightarrow> ram \<Rightarrow> ram" where
  "put_text fb x y s scale color = draw_text fb x y (chars s) scale color"

definition draw :: "(ram \<Rightarrow> ram) \<Rightarrow> ('h, unit) ui_io" where
  "draw f w = (Inr (), w\<lparr>bs_ram := f (bs_ram w)\<rparr>)"

definition ui_flush :: "'h machine \<Rightarrow> framebuffer \<Rightarrow> ('h, unit) ui_io" where
  "ui_flush m fb = with_hw (u_clean (mc_host m) (mc_fuel m) (fb_ptr fb) (fb_size fb))"

section \<open>Chrome and lines\<close>

definition chrome :: "framebuffer \<Rightarrow> u32 \<Rightarrow> u8 list \<Rightarrow> u8 list \<Rightarrow> ram \<Rightarrow> ram" where
  "chrome fb acc title hint ram =
     (let ram = fb_clear fb BG ram;
          ram = fill_rect fb 0 0 (fb_width fb) HEADER_H HEADER_BG ram;
          ram = put_text fb MARGIN 16 (ascii ''FERRO UEFI'') 3 acc ram;
          title_x = sat_sub (fb_width fb) (text_width title 2 + MARGIN);
          ram = put_text fb title_x 19 title 2 FG ram;
          ram = fill_rect fb 0 HEADER_H (fb_width fb) 2 BORDER ram;
          ram = fill_rect fb 0 (fb_height fb - FOOTER_H) (fb_width fb) FOOTER_H HEADER_BG ram;
          ram = fill_rect fb 0 (fb_height fb - FOOTER_H) (fb_width fb) 2 BORDER ram;
          ram = put_text fb MARGIN (fb_height fb - FOOTER_H + 12) hint 2 DIM ram;
          panel_y = HEADER_H + 12;
          panel_h = fb_height fb - HEADER_H - FOOTER_H - 24
      in draw_rect_outline fb MARGIN panel_y (fb_width fb - 2 * MARGIN) panel_h 2 BORDER ram)"

definition draw_chrome :: "'h machine \<Rightarrow> framebuffer \<Rightarrow> string \<Rightarrow> string \<Rightarrow> ('h, unit) ui_io" where
  "draw_chrome m fb title hint =
     io_bind (ui_get ui_accent) (\<lambda>acc.
     io_bind (draw (chrome fb acc (ascii title) (ascii hint))) (\<lambda>_. ui_flush m fb))"

primrec print_loop ::
  "'h machine \<Rightarrow> framebuffer \<Rightarrow> u64 \<Rightarrow> u32 \<Rightarrow> u32 \<Rightarrow> u32 \<Rightarrow> u32 \<Rightarrow> u8 list list \<Rightarrow> ('h, u32) ui_io" where
  "print_loop m fb delay x cy scale color [] = io_return cy"
| "print_loop m fb delay x cy scale color (line # lines) =
     io_bind (draw (put_text fb x cy line scale color)) (\<lambda>_.
     io_bind (ui_flush m fb) (\<lambda>_.
     io_bind (uart_line m line) (\<lambda>_.
     io_bind (if delay > 0 then ui_sleep m delay else io_return ()) (\<lambda>_.
       print_loop m fb delay x (cy + line_height scale) scale color lines))))"

definition print_lines ::
  "'h machine \<Rightarrow> framebuffer \<Rightarrow> u32 \<Rightarrow> u32 \<Rightarrow> u32 \<Rightarrow> u32 \<Rightarrow> u8 list list \<Rightarrow> ('h, u32) ui_io" where
  "print_lines m fb x y scale color lines =
     io_bind (ui_get (\<lambda>w. if verbose_boot (settings_of w) then LINE_DELAY_TICKS else 0)) (\<lambda>delay.
       print_loop m fb delay x y scale color lines)"

definition boot_log :: "'h machine \<Rightarrow> framebuffer \<Rightarrow> u8 list list \<Rightarrow> ('h, unit) ui_io" where
  "boot_log m fb lines =
     io_bind (draw_chrome m fb ''BOOT LOG'' ''PLEASE WAIT...'') (\<lambda>_.
     io_bind (print_lines m fb CONTENT_X CONTENT_Y 2 FG lines) (\<lambda>_. io_return ()))"

definition splash :: "'h machine \<Rightarrow> framebuffer \<Rightarrow> ('h, unit) ui_io" where
  "splash m fb =
     io_bind (ui_get ui_accent) (\<lambda>acc.
     io_bind (draw (\<lambda>ram.
       let ram = fb_clear fb BG ram;
           title = ascii ''FERRO UEFI'';
           tx = sat_sub (fb_width fb) (text_width title 6) div 2;
           ram = put_text fb tx (fb_height fb div 2 - 60) title 6 acc ram;
           sub = ascii ''RASPBERRY PI 3 / BCM2837'';
           sx = sat_sub (fb_width fb) (text_width sub 3) div 2
       in put_text fb sx (fb_height fb div 2 + 20) sub 3 FG ram)) (\<lambda>_. ui_flush m fb))"

section \<open>Status panel\<close>

text \<open>\<^verbatim>\<open>mrs midr_el1\<close>, \<^verbatim>\<open>mrs cntfrq_el0\<close>, \<^verbatim>\<open>mrs CurrentEL\<close>\<close>

definition cpu_snapshot :: "'h machine \<Rightarrow> u64 \<times> u64 \<times> u64" where
  "cpu_snapshot m = (mc_midr m, mc_cntfrq m, drop_bit 2 (mc_current_el m) AND 3)"

definition uptime_line :: "u64 \<Rightarrow> u8 list" where
  "uptime_line ticks = format_line [ascii ''UPTIME   '', dec (unat (ticks div 100)), ascii ''.'', dec (unat (ticks mod 100 div 10)), ascii ''S'']"

definition input_status :: "'h ui_world \<Rightarrow> u8 list" where
  "input_status w =
     (if uw_kbd w \<noteq> None then ascii ''INPUT    USB HID + UART''
      else if usb_enabled (settings_of w) then ascii ''INPUT    UART ONLY (NO USB DEV)''
      else ascii ''INPUT    UART ONLY (USB DISABLED)'')"

definition nvram_usage :: "'h ui_world \<Rightarrow> u64 \<times> u64 \<times> u64" where
  "nvram_usage w = (case storage_info (pw_vars (uw_store w)) of (mx, remaining, max_var) \<Rightarrow> (mx - remaining, mx, max_var))"

definition draw_status_panel :: "'h machine \<Rightarrow> framebuffer \<Rightarrow> ('h, unit) ui_io" where
  "draw_status_panel m fb =
     io_bind (ui_get (\<lambda>w. w)) (\<lambda>w.
     let x = STATUS_X; y = CONTENT_Y in
     io_bind (draw (put_text fb x y (ascii ''SYSTEM STATUS'') 2 (ui_accent w))) (\<lambda>_.
     let y = y + (line_height 2 + 6); (_, freq, el) = cpu_snapshot m in
     io_bind (ui_ticks m) (\<lambda>ticks.
     io_bind (draw (put_text fb x y (uptime_line ticks) 2 FG)) (\<lambda>_.
     let y = y + line_height 2 in
     io_bind (draw (put_text fb x y (ascii ''BOARD    PI 3 / BCM2837'') 2 FG)) (\<lambda>_.
     let y = y + line_height 2 in
     io_bind (draw (put_text fb x y (format_line [ascii ''CPU      4X CORTEX-A53 EL'', dec (unat el)]) 2 FG)) (\<lambda>_.
     let y = y + line_height 2 in
     io_bind (draw (put_text fb x y (format_line [ascii ''TIMER    '', dec (unat (freq div 1000000)), ascii ''MHZ'']) 2 FG)) (\<lambda>_.
     let y = y + line_height 2 in
     io_bind (draw (put_text fb x y (ascii ''MMU      ENABLED'') 2 FG)) (\<lambda>_.
     let y = y + (line_height 2 + 6) in
     io_bind (draw (put_text fb x y (input_status w) 2 (if uw_kbd w \<noteq> None then FG else DIM))) (\<lambda>_.
     let y = y + line_height 2 in
     io_bind (draw (put_text fb x y (format_line [ascii ''THEME    '', ascii (theme_name (theme (settings_of w)))]) 2 FG)) (\<lambda>_.
     let y = y + (line_height 2 + 6); (used, mx, _) = nvram_usage w in
       draw (put_text fb x y (format_line [ascii ''NVRAM    '', dec (unat used), ascii ''/'', dec (unat mx), ascii '' BYTES'']) 2 FG)))))))))))"

definition uptime_line_y :: u32 where "uptime_line_y = CONTENT_Y + line_height 2 + 6"

definition refresh_uptime :: "'h machine \<Rightarrow> framebuffer \<Rightarrow> ('h, unit) ui_io" where
  "refresh_uptime m fb =
     (let y = uptime_line_y; wd = fb_width fb - MARGIN - STATUS_X in
      io_bind (draw (fill_rect fb STATUS_X y wd (line_height 2) BG)) (\<lambda>_.
      io_bind (ui_ticks m) (\<lambda>ticks.
      io_bind (draw (put_text fb STATUS_X y (uptime_line ticks) 2 FG)) (\<lambda>_. ui_flush m fb))))"

section \<open>The menu\<close>

definition rfind :: "'a \<Rightarrow> 'a list \<Rightarrow> nat option" where
  "rfind c xs = (case filter (\<lambda>i. xs ! i = c) [0..<length xs] of [] \<Rightarrow> None | is \<Rightarrow> Some (last is))"

text \<open>The lines of a wrapped description, from position \<open>start\<close> on.\<close>

definition wrap_cut :: "nat \<Rightarrow> u8 list \<Rightarrow> nat \<Rightarrow> nat" where
  "wrap_cut max_chars bytes start =
     (let fin = min (start + max_chars) (length bytes) in
      if fin < length bytes
      then (case rfind 0x20 (seg bytes start (fin - start)) of Some pos \<Rightarrow> start + pos | None \<Rightarrow> fin)
      else fin)"

lemma wrap_cut_ge: "start < length bytes \<Longrightarrow> start \<le> wrap_cut n bytes start"
  by (auto simp: wrap_cut_def Let_def split: option.splits)

function wrap :: "nat \<Rightarrow> u8 list \<Rightarrow> nat \<Rightarrow> u8 list list" where
  "wrap width bytes start =
     (let max_chars = max width 1; fin = min (start + max_chars) (length bytes); cut = wrap_cut max_chars bytes start in
      if start < length bytes
      then seg bytes start (cut - start) # wrap width bytes (if cut = start then fin else cut + 1)
      else [])"
  by pat_completeness auto
termination
proof (relation "measure (\<lambda>(_, bytes, start). length bytes - start)", goal_cases)
  case (2 width bytes start _ fin)
  then show ?case using wrap_cut_ge[of start bytes "max width 1"] by auto
qed simp

declare wrap.simps [simp del]

definition wrap_width :: nat where
  "wrap_width = unat ((DIVIDER_X - CONTENT_X - 20) div ((GLYPH_WIDTH + 1) * 2))"

primrec draw_lines :: "framebuffer \<Rightarrow> u32 \<Rightarrow> u8 list list \<Rightarrow> ram \<Rightarrow> ram" where
  "draw_lines fb dy [] ram = ram"
| "draw_lines fb dy (l # ls) ram = draw_lines fb (dy + line_height 2) ls (put_text fb CONTENT_X dy l 2 DIM ram)"

fun draw_items :: "framebuffer \<Rightarrow> u32 \<Rightarrow> u32 \<Rightarrow> nat \<Rightarrow> nat \<Rightarrow> u32 \<Rightarrow> (string \<times> string) list \<Rightarrow> ram \<Rightarrow> u32 \<times> ram" where
  "draw_items fb acc sel i s y [] ram = (y, ram)"
| "draw_items fb acc sel i s y ((label, _) # items) ram =
     (let row_h = 32;
          ram = (if i = s then fill_rect fb CONTENT_X (y - 6) 4 row_h acc
                                (fill_rect fb CONTENT_X (y - 6) (DIVIDER_X - CONTENT_X - 20) row_h sel ram) else ram);
          ram = put_text fb (CONTENT_X + 20) y (ascii label) 2 (if i = s then acc else FG) ram
      in draw_items fb acc sel (i + 1) s (y + (row_h + 6)) items ram)"

definition draw_menu :: "'h machine \<Rightarrow> framebuffer \<Rightarrow> nat \<Rightarrow> ('h, unit) ui_io" where
  "draw_menu m fb s =
     io_bind (draw_chrome m fb ''BOOT MANAGER'' ''ARROWS OR J/K: MOVE    ENTER: SELECT'') (\<lambda>_.
     io_bind (ui_get (\<lambda>w. (ui_accent w, ui_select_bg w))) (\<lambda>(acc, sel).
       if s \<ge> length ITEMS then io_throw Panic
       else
         io_bind (draw (\<lambda>ram.
           case draw_items fb acc sel 0 s (CONTENT_Y + 4) ITEMS ram of (y, ram) \<Rightarrow>
             let ram = draw_lines fb (y + 14) (wrap wrap_width (ascii (snd (ITEMS ! s))) 0) ram
             in fill_rect fb DIVIDER_X (HEADER_H + 12) 2 (fb_height fb - HEADER_H - FOOTER_H - 24) BORDER ram)) (\<lambda>_.
         io_bind (draw_status_panel m fb) (\<lambda>_. ui_flush m fb))))"

section \<open>Messages\<close>

definition show_lines :: "'h machine \<Rightarrow> framebuffer \<Rightarrow> u32 \<Rightarrow> string \<Rightarrow> string list \<Rightarrow> ('h, unit) ui_io" where
  "show_lines m fb color title lines =
     io_bind (draw_chrome m fb title ''PRESS ANY KEY TO RETURN'') (\<lambda>_.
     io_bind (print_lines m fb CONTENT_X CONTENT_Y 2 color (map ascii lines)) (\<lambda>_. wait_for_key m))"

definition show_message :: "'h machine \<Rightarrow> framebuffer \<Rightarrow> string \<Rightarrow> string list \<Rightarrow> ('h, unit) ui_io" where
  "show_message m fb title lines = show_lines m fb FG title lines"

definition show_error :: "'h machine \<Rightarrow> framebuffer \<Rightarrow> string \<Rightarrow> string list \<Rightarrow> ('h, unit) ui_io" where
  "show_error m fb title lines = show_lines m fb ERROR title lines"

section \<open>Wrapping loses nothing\<close>

text \<open>Words separated by single spaces, each of 1 to \<open>n\<close> characters; \<open>k\<close> characters of the first word have passed.\<close>

fun words_ok :: "nat \<Rightarrow> nat \<Rightarrow> u8 list \<Rightarrow> bool" where
  "words_ok n k [] = (0 < k)"
| "words_ok n k (c # cs) = (if c = 0x20 then 0 < k \<and> words_ok n 0 cs else k < n \<and> words_ok n (Suc k) cs)"

fun join :: "u8 list list \<Rightarrow> u8 list" where
  "join [] = []"
| "join [l] = l"
| "join (l # ls) = l @ 0x20 # join ls"

lemma join_Cons: "ls \<noteq> [] \<Longrightarrow> join (l # ls) = l @ 0x20 # join ls"
  by (cases ls) simp_all

lemma words_after_space: "words_ok n k t \<Longrightarrow> p < length t \<Longrightarrow> t ! p = 0x20 \<Longrightarrow> words_ok n 0 (drop (Suc p) t)"
proof (induction t arbitrary: p k)
  case (Cons c cs)
  then show ?case by (cases p) (auto split: if_splits)
qed simp

lemma words_nonempty: "words_ok n 0 t \<Longrightarrow> t \<noteq> [] \<and> t ! 0 \<noteq> 0x20"
  by (cases t) auto

lemma space_in_reach: "words_ok n k t \<Longrightarrow> k \<le> n \<Longrightarrow> n < k + length t \<Longrightarrow> \<exists>j. k + j \<le> n \<and> t ! j = 0x20"
proof (induction t arbitrary: k)
  case (Cons c cs)
  show ?case
  proof (cases "c = 0x20")
    case True
    then show ?thesis using Cons.prems by (intro exI[of _ 0]) simp
  next
    case False
    then obtain j where "Suc k + j \<le> n" "cs ! j = 0x20" using Cons.IH[of "Suc k"] Cons.prems by auto
    then show ?thesis by (intro exI[of _ "Suc j"]) simp
  qed
qed simp

lemma rfind_None: "rfind c xs = None \<longleftrightarrow> c \<notin> set xs"
proof -
  have "rfind c xs = None \<longleftrightarrow> filter (\<lambda>i. xs ! i = c) [0..<length xs] = []" by (simp add: rfind_def split: list.splits)
  then show ?thesis by (auto simp: filter_empty_conv in_set_conv_nth)
qed

lemma rfind_Some: "rfind c xs = Some i \<Longrightarrow> i < length xs \<and> xs ! i = c"
proof -
  assume "rfind c xs = Some i"
  then obtain y ys where f: "filter (\<lambda>i. xs ! i = c) [0..<length xs] = y # ys" "i = last (y # ys)"
    by (auto simp: rfind_def split: list.splits)
  then have "i \<in> set (filter (\<lambda>i. xs ! i = c) [0..<length xs])" by (simp only: f) (rule last_in_set, simp)
  then show ?thesis by simp
qed

text \<open>Where a line that is too long is cut: at a space, with at most \<open>n\<close> characters before it.\<close>

lemma wrap_cut_space:
  assumes t: "words_ok n 0 (drop start t)" and long: "start + n < length t" and n: "0 < n"
  shows "\<exists>p. wrap_cut n t start = start + p \<and> 0 < p \<and> p \<le> n \<and> p < length (drop start t) \<and> drop start t ! p = 0x20"
proof -
  let ?r = "drop start t"
  have first: "?r ! 0 \<noteq> 0x20" using words_nonempty[OF t] by blast
  have cut: "wrap_cut n t start = (case rfind 0x20 (take n ?r) of Some pos \<Rightarrow> start + pos | None \<Rightarrow> start + n)"
    using long by (simp add: wrap_cut_def seg_def min_def)
  show ?thesis
  proof (cases "rfind 0x20 (take n ?r)")
    case (Some p)
    from rfind_Some[OF this] have "p < n" "?r ! p = 0x20" "p < length ?r" by auto
    moreover from this first have "0 < p" by (cases p) auto
    ultimately show ?thesis using Some cut by (intro exI[of _ p]) auto
  next
    case None
    have "n < 0 + length ?r" using long by simp
    then obtain j where j: "j \<le> n" "?r ! j = 0x20" using space_in_reach[OF t] by auto
    have "\<not> j < n"
    proof
      assume "j < n"
      then have "0x20 \<in> set (take n ?r)" using j long by (auto simp: in_set_conv_nth intro!: exI[of _ j])
      with None show False by (simp add: rfind_None)
    qed
    then have "j = n" using j(1) by simp
    then show ?thesis using None cut j long n by (intro exI[of _ n]) auto
  qed
qed

lemma wrap_join:
  "words_ok (max width 1) 0 (drop start t) \<Longrightarrow>
   wrap width t start \<noteq> [] \<and> join (wrap width t start) = drop start t \<and>
   (\<forall>l \<in> set (wrap width t start). l \<noteq> [] \<and> length l \<le> max width 1)"
proof (induction width t start rule: wrap.induct)
  case (1 width t start)
  let ?n = "max width 1" and ?r = "drop start t"
  have r: "?r \<noteq> []" using words_nonempty[OF "1.prems"] by blast
  show ?case
  proof (cases "length t \<le> start + ?n")
    case True
    then have "wrap_cut ?n t start = length t" by (simp add: wrap_cut_def)
    then have "wrap width t start = [?r]" using r True by (simp add: wrap.simps[of width t] seg_def)
    then show ?thesis using r True by auto
  next
    case False
    then have long: "start + ?n < length t" by simp
    have n: "0 < ?n" by simp
    from wrap_cut_space[OF "1.prems" long n] obtain p where p: "wrap_cut ?n t start = start + p" "0 < p" "p \<le> ?n"
      "p < length ?r" "?r ! p = 0x20" by blast
    have d: "words_ok ?n 0 (drop (start + p + 1) t)" using words_after_space[OF "1.prems" p(4,5)] by (simp add: add.commute)
    have step: "wrap width t start = take p ?r # wrap width t (start + p + 1)"
      using long p by (simp add: wrap.simps[of width t start] seg_def Let_def)
    have ih: "wrap width t (start + p + 1) \<noteq> [] \<and> join (wrap width t (start + p + 1)) = drop (start + p + 1) t \<and>
        (\<forall>l \<in> set (wrap width t (start + p + 1)). l \<noteq> [] \<and> length l \<le> ?n)"
      using "1.IH"[OF refl refl refl] long p d by simp
    then have "join (wrap width t start) = take p ?r @ 0x20 # drop (start + p + 1) t"
      unfolding step by (simp add: join_Cons)
    also have "\<dots> = take p ?r @ ?r ! p # drop (Suc p) ?r" using p(5) by (simp add: add.commute)
    also have "\<dots> = ?r" using p(4) by (simp only: id_take_nth_drop[symmetric])
    finally have "join (wrap width t start) = ?r" .
    moreover have "take p ?r \<noteq> []" using p(2,4) by auto
    ultimately show ?thesis using ih p(3) unfolding step by auto
  qed
qed

lemma wrap_width_28: "wrap_width = 28"
  by (simp add: wrap_width_def DIVIDER_X_def CONTENT_X_def GLYPH_WIDTH_def)

lemma items_words: "list_all (\<lambda>item. words_ok 28 0 (ascii (snd item))) ITEMS"
  by code_simp

text \<open>
  Wrapping loses nothing. A text of single-spaced words that each fit the line is cut into
  non-empty lines of at most the line's width which, joined by single spaces, are the text again;
  every description of the menu is such a text for the width of the menu pane. (A word longer than the
  line would lose its character at the cut.)
\<close>

theorem description_wrap:
  assumes "words_ok (max width 1) 0 t"
  shows "join (wrap width t 0) = t \<and> (\<forall>l \<in> set (wrap width t 0). l \<noteq> [] \<and> length l \<le> max width 1) \<and>
    (\<forall>(label, description) \<in> set ITEMS. join (wrap wrap_width (ascii description) 0) = ascii description \<and>
       (\<forall>l \<in> set (wrap wrap_width (ascii description) 0). length l \<le> 28))"
proof -
  have i: "words_ok (max wrap_width 1) 0 (drop 0 (ascii description))" if "(label, description) \<in> set ITEMS" for label description
    using items_words that by (auto simp: list_all_iff wrap_width_28 max_def)
  show ?thesis using wrap_join[of width 0 t] assms wrap_join[OF i] by (auto simp: wrap_width_28)
qed

theorem description_wrap_witness:
  "join (wrap 12 (ascii ''ISSUE A WATCHDOG RESET'') 0) = ascii ''ISSUE A WATCHDOG RESET''"
proof -
  have "words_ok (max 12 1) 0 (ascii ''ISSUE A WATCHDOG RESET'')" by code_simp
  from description_wrap[OF this] show ?thesis by blast
qed

end
