(* ===== verification/Ui_Boot.thy ===== *)
theory Ui_Boot
  imports Ui_Screens
begin

text \<open>
  \<^verbatim>\<open>src/src/ui.rs\<close>, the menu's actions: system information, the settings screen, booting from the card,
  saving the variables, and the loop that runs the menu. A loop that waits for the user takes fuel;
  a reset, which does not return, ends in \<open>OutOfFuel\<close>.
\<close>

unbundle bit_operations_syntax

section \<open>System information\<close>

definition show_system_info :: "'h machine \<Rightarrow> framebuffer \<Rightarrow> ('h, unit) ui_io" where
  "show_system_info m fb =
     io_bind (ui_get (\<lambda>w. w)) (\<lambda>w.
     let (midr, freq, el) = cpu_snapshot m; s = settings_of w; (used, mx, max_var) = nvram_usage w; kbd = (uw_kbd w \<noteq> None) in
     io_bind (ui_seq
       [uart_line m (0x0A # ascii ''[menu] SYSTEM INFO selected''),
        uart_line m (ascii ''  board : Raspberry Pi 3 / BCM2837''),
        uart_line m (ascii ''  cpu   : 4x Cortex-A53, MIDR_EL1 = 0x'' @ pad0 8 (hex (unat midr))),
        uart_line m (ascii ''  EL    : '' @ dec (unat el))]) (\<lambda>_.
     io_bind (ui_ticks m) (\<lambda>ticks.
     io_bind (ui_seq
       [uart_line m (ascii ''  timer : CNTFRQ_EL0 = '' @ dec (unat freq) @ ascii '' Hz, '' @ dec (unat ticks) @ ascii '' ticks since boot''),
        uart_line m (ascii ''  mmu   : enabled (identity-mapped RAM + device regions)''),
        uart_line m (ascii ''  usb   : keyboard='' @ show_bool kbd @ ascii '' usb_enabled_setting='' @ show_bool (usb_enabled s)),
        uart_line m (ascii ''  nvram : '' @ dec (unat used) @ ascii ''/'' @ dec (unat mx) @ ascii '' bytes used, '' @ dec (unat max_var) @
          ascii '' bytes max per variable''),
        draw_chrome m fb ''SYSTEM INFO'' ''PRESS ANY KEY TO RETURN'']) (\<lambda>_.
     io_bind (ui_ticks m) (\<lambda>ticks.
     io_bind (print_lines m fb CONTENT_X CONTENT_Y 2 FG
       [ascii ''BOARD: RASPBERRY PI 3 / BCM2837'',
        ascii ''CPU: 4X CORTEX-A53 (ARMV8-A)'',
        format_line [ascii ''MIDR_EL1: 0X'', pad0 8 (HEX (unat midr))],
        format_line [ascii ''EXCEPTION LEVEL: EL'', dec (unat el)],
        format_line [ascii ''GENERIC TIMER: '', dec (unat freq), ascii '' HZ ('', dec (unat ticks), ascii '' TICKS SINCE BOOT)''],
        ascii ''MMU: ENABLED (IDENTITY-MAPPED)'',
        ascii ''IRQ SOURCE: BCM2836 LOCAL BLOCK (NOT A GIC)'',
        format_line [ascii ''USB: '', if kbd then ascii ''HID KEYBOARD CONNECTED''
          else if usb_enabled s then ascii ''NO HID KEYBOARD FOUND'' else ascii ''DISABLED IN SETTINGS''],
        format_line [ascii ''NVRAM: '', dec (unat used), ascii ''/'', dec (unat mx), ascii '' BYTES USED (MAX '', dec (unat max_var), ascii '' PER VAR)'']]) (\<lambda>_.
       wait_for_key m))))))"

section \<open>The settings screen\<close>

definition SETTINGS_ROWS :: nat where "SETTINGS_ROWS = 3"

definition describe :: "nat \<Rightarrow> u8 list" where
  "describe i =
     (if i = 0 then ascii ''TOGGLES THE DELAY BETWEEN BOOT LOG LINES. OFF PRINTS FULL SPEED.''
      else if i = 1 then ascii ''CHANGES THE MENU'' @ [0x27] @ ascii ''S ACCENT COLOR. APPLIES IMMEDIATELY.''
      else ascii ''ENABLE/DISABLE USB HOST + HID KEYBOARD. TAKES EFFECT NEXT BOOT.'')"

definition setting_rows :: "settings \<Rightarrow> u8 list list" where
  "setting_rows s =
     [format_line [ascii ''VERBOSE BOOT LOG            '', if verbose_boot s then ascii ''ON'' else ascii ''OFF''],
      format_line [ascii ''ACCENT THEME                '', ascii (theme_name (theme s))],
      format_line [ascii ''USB HID KEYBOARD            '', if usb_enabled s then ascii ''ENABLED'' else ascii ''DISABLED'']]"

primrec draw_rows :: "framebuffer \<Rightarrow> u32 \<Rightarrow> u32 \<Rightarrow> nat \<Rightarrow> nat \<Rightarrow> u32 \<Rightarrow> u8 list list \<Rightarrow> ram \<Rightarrow> ram" where
  "draw_rows fb acc sel i s y [] ram = put_text fb CONTENT_X (y + 14) (describe s) 2 DIM ram"
| "draw_rows fb acc sel i s y (line # lines) ram =
     (let row_h = 34;
          ram = (if i = s then fill_rect fb CONTENT_X (y - 6) 4 row_h acc
                                (fill_rect fb CONTENT_X (y - 6) (fb_width fb - 2 * CONTENT_X - 40) row_h sel ram) else ram);
          ram = put_text fb (CONTENT_X + 20) y line 2 (if i = s then acc else FG) ram
      in draw_rows fb acc sel (i + 1) s (y + (row_h + 8)) lines ram)"

definition draw_settings :: "'h machine \<Rightarrow> framebuffer \<Rightarrow> nat \<Rightarrow> ('h, unit) ui_io" where
  "draw_settings m fb selected =
     io_bind (draw_chrome m fb ''SETTINGS'' ''ARROWS: MOVE    ENTER/RIGHT: CHANGE    BACKSPACE/Q: BACK'') (\<lambda>_.
     io_bind (ui_get (\<lambda>w. w)) (\<lambda>w.
     io_bind (draw (draw_rows fb (ui_accent w) (ui_select_bg w) 0 selected (CONTENT_Y + 4) (setting_rows (settings_of w)))) (\<lambda>_.
       ui_flush m fb)))"

definition apply_change :: "'h machine \<Rightarrow> nat \<Rightarrow> bool \<Rightarrow> ('h, unit) ui_io" where
  "apply_change m row forward =
     io_bind (ui_get settings_of) (\<lambda>s.
       with_store
         (if row = 0 then set_verbose_boot (dev_of m) (mc_fuel m) (\<not> verbose_boot s)
          else if row = 1 then
            set_theme (dev_of m) (mc_fuel m) (if forward then theme_next (theme s) else theme_next (theme_next (theme s)))
          else set_usb_enabled (dev_of m) (mc_fuel m) (\<not> usb_enabled s)))"

primrec settings_loop :: "'h machine \<Rightarrow> framebuffer \<Rightarrow> nat \<Rightarrow> nat \<Rightarrow> u8 \<Rightarrow> ('h, unit) ui_io" where
  "settings_loop m fb 0 selected esc = io_throw OutOfFuel"
| "settings_loop m fb (Suc n) selected esc =
     io_bind (poll_menu_key m esc) (\<lambda>(k, esc).
       case k of
         None \<Rightarrow> settings_loop m fb n selected esc
       | Some Up \<Rightarrow> let selected = row_up SETTINGS_ROWS selected in
           io_bind (draw_settings m fb selected) (\<lambda>_. settings_loop m fb n selected esc)
       | Some Down \<Rightarrow> let selected = row_down SETTINGS_ROWS selected in
           io_bind (draw_settings m fb selected) (\<lambda>_. settings_loop m fb n selected esc)
       | Some Back \<Rightarrow> io_return ()
       | Some Left \<Rightarrow>
           io_bind (apply_change m selected False) (\<lambda>_.
           io_bind (draw_settings m fb selected) (\<lambda>_. settings_loop m fb n selected esc))
       | _ \<Rightarrow>
           io_bind (apply_change m selected True) (\<lambda>_.
           io_bind (draw_settings m fb selected) (\<lambda>_. settings_loop m fb n selected esc)))"

definition run_settings :: "'h machine \<Rightarrow> framebuffer \<Rightarrow> ('h, unit) ui_io" where
  "run_settings m fb =
     ui_seq [uart_line m (0x0A # ascii ''[menu] SETTINGS selected''), draw_settings m fb 0, settings_loop m fb (mc_fuel m) 0 0]"

section \<open>Starting an image\<close>

definition sd_handle :: "'h machine \<Rightarrow> 'h ui_world \<Rightarrow> (efi_handle \<times> 'h ui_world) checked" where
  "sd_handle m w =
     (case uw_sd_handle w of
        Some h \<Rightarrow> Inr (h, w)
      | None \<Rightarrow>
          (case find_or_create_handle (bs_handles w) 0 of
             Inl e \<Rightarrow> Inl e
           | Inr (None, hs) \<Rightarrow> Inl Panic
           | Inr (Some index, hs) \<Rightarrow>
               (case block_io_install (uw_store w) (mc_link m ''block_io::PROTO'') index (uw_media w, hs) of
                  Inl e \<Rightarrow> Inl e
                | Inr (_, media, hs) \<Rightarrow>
                    (case file_install (mc_link m ''file_protocol::SFS_PROTO'') hs index of
                       Inl e \<Rightarrow> Inl e
                     | Inr (_, hs) \<Rightarrow>
                         (case db_install hs index DEVICE_PATH_PROTOCOL_GUID (mc_link m ''SD_DEVICE_PATH'') of
                            Inl e \<Rightarrow> Inl e
                          | Inr (_, hs) \<Rightarrow>
                              Inr (handle_for_index index,
                                w\<lparr>bs_handles := hs, uw_media := media, uw_sd_path := sd_device_path (uw_sd_path w),
                                  uw_sd_handle := Some (handle_for_index index)\<rparr>))))))"

text \<open>
  The structure behind the pointer HandleProtocol returns: LoadImage's record of an image. The
  buffer at \<open>LOAD_BUFFER\<close> keeps its bytes when the file cannot be read (they are read only after a
  successful read, and only as far as it went).
\<close>

definition image_at :: "layout \<Rightarrow> addr \<Rightarrow> nat option" where
  "image_at lo intf = find (\<lambda>i. lo_loaded_image lo i = intf) [0..<MAX_HANDLES]"

definition set_image_source :: "'h machine \<Rightarrow> u8 list \<Rightarrow> nat \<Rightarrow> 'h ui_world \<Rightarrow> (unit \<times> 'h ui_world) checked" where
  "set_image_source m name i w =
     (case sd_handle m w of
        Inl e \<Rightarrow> Inl e
      | Inr (h, w) \<Rightarrow>
          (let w = w\<lparr>bs_images := (bs_images w)[i := (bs_images w ! i)\<lparr>li_device_handle := h\<rparr>]\<rparr> in
           case build_file_path name (uw_file_path w) of
             Inl e \<Rightarrow> Inl e
           | Inr buf \<Rightarrow>
               Inr ((), w\<lparr>uw_file_path := buf,
                 bs_images := (bs_images w)[i := (bs_images w ! i)\<lparr>li_file_path := mc_link m ''FILE_PATH_BUF''\<rparr>]\<rparr>)))"

definition wire_console :: "'h machine \<Rightarrow> framebuffer \<Rightarrow> 'h ui_world \<Rightarrow> (unit \<times> 'h ui_world) checked" where
  "wire_console m fb w =
     (case con_init (mc_link m ''console::OUT_PROTO'') (mc_link m ''console::IN_PROTO'') (Some fb) True (uw_kbd w)
             (uw_events w) (bs_handles w) (uw_system_table w) of
        Inl e \<Rightarrow> Inl e
      | Inr (ev, hs, st) \<Rightarrow> Inr ((), w\<lparr>uw_events := ev, bs_handles := hs, uw_system_table := st\<rparr>))"

definition LOAD_BUFFER_SIZE :: nat where "LOAD_BUFFER_SIZE = 65536"

definition ui_verbose_pause :: "'h machine \<Rightarrow> ('h, unit) ui_io" where
  "ui_verbose_pause m = io_bind (ui_get (\<lambda>w. verbose_boot (settings_of w))) (\<lambda>v. if v then ui_sleep m LINE_DELAY_TICKS else io_return ())"

text \<open>LoadImage and HandleProtocol through the table, as the menu calls them.\<close>

definition call_load_image :: "'h machine \<Rightarrow> addr \<Rightarrow> nat \<Rightarrow> ('h, efi_status \<times> efi_handle) ui_io" where
  "call_load_image m buf n =
     ui_call (\<lambda>w. case load_image (mc_layout m) (mc_fuel m) 0 buf n (Some 0) w of
                     Inl e \<Rightarrow> Inl e | Inr (status, h, w) \<Rightarrow> Inr ((status, the h), w))"

definition call_handle_protocol :: "efi_handle \<Rightarrow> ('h, efi_status \<times> addr) ui_io" where
  "call_handle_protocol image_handle =
     ui_call (\<lambda>w. case handle_protocol image_handle (Some LOADED_IMAGE_PROTOCOL_GUID) (Some 0) w of
                     Inl e \<Rightarrow> Inl e | Inr (status, intf) \<Rightarrow> Inr ((status, the intf), w))"

definition wire_image :: "'h machine \<Rightarrow> u8 list \<Rightarrow> efi_handle \<Rightarrow> ('h, unit) ui_io" where
  "wire_image m name image_handle =
     io_bind (call_handle_protocol image_handle) (\<lambda>(status, intf).
       if status = EFI_SUCCESS \<and> intf \<noteq> 0
       then (case image_at (mc_layout m) intf of
               None \<Rightarrow> io_throw Panic
             | Some i \<Rightarrow>
                 io_bind (ui_get (\<lambda>w. bs_images w ! i)) (\<lambda>li.
                 ui_seq [uart_line m (ascii ''  HandleProtocol(LOADED_IMAGE) -> base='' @ pointer (li_image_base li) @
                           ascii '' size='' @ dec (unat (li_image_size li))),
                         ui_call (set_image_source m name i)]))
       else io_return ())"

definition start_app :: "'h machine \<Rightarrow> framebuffer \<Rightarrow> u32 \<Rightarrow> efi_handle \<Rightarrow> ('h, unit) ui_io" where
  "start_app m fb y image_handle =
     io_bind (ui_seq
       [uart_line m (ascii ''  SystemTable @ '' @ pointer (mc_link m ''SYSTEM_TABLE'') @ ascii '' (should match S: printed by the app below)''),
        draw (put_text fb (CONTENT_X + 20) (y + line_height 2) (ascii ''STARTING IMAGE (OUTPUT BELOW IS FROM THE APP ITSELF):'') 2 DIM),
        ui_flush m fb,
        ui_call (wire_console m fb),
        uart_line m (ascii ''  --- entering StartImage ---'')]) (\<lambda>_.
     io_bind (ui_call (start_image (mc_layout m) (mc_entry m) image_handle)) (\<lambda>status.
       uart_line m (0x0A # ascii ''  --- back from StartImage: status=0x'' @ hex (unat status) @ ascii '' ---'')))"

definition run_app :: "'h machine \<Rightarrow> framebuffer \<Rightarrow> u8 list \<Rightarrow> u32 \<Rightarrow> nat \<Rightarrow> ('h, unit) ui_io" where
  "run_app m fb name y n =
     io_bind (uart_line m (ascii ''  read '' @ dec n @ ascii '' bytes from SD'')) (\<lambda>_.
     io_bind (call_load_image m (mc_link m ''LOAD_BUFFER'') n) (\<lambda>(status, image_handle).
     io_bind (uart_line m (ascii ''  LoadImage -> status=0x'' @ hex (unat status) @ ascii '' handle='' @ pointer image_handle)) (\<lambda>_.
     let y = y + line_height 2 in
     if status \<noteq> EFI_SUCCESS
     then draw (put_text fb (CONTENT_X + 20) y (ascii ''LOADIMAGE FAILED (SEE UART).'') 2 ERROR)
     else
       ui_seq [draw (put_text fb (CONTENT_X + 20) y (ascii ''LOADIMAGE OK -- PE PARSED AND RELOCATED.'') 2 FG),
               ui_flush m fb,
               ui_verbose_pause m,
               wire_image m name image_handle,
               start_app m fb y image_handle])))"

definition boot_efi_app :: "'h machine \<Rightarrow> framebuffer \<Rightarrow> fat32 \<Rightarrow> card \<Rightarrow> u8 list \<Rightarrow> u32 \<Rightarrow> ('h, unit) ui_io" where
  "boot_efi_app m fb fs c name y =
     io_bind (ui_get (\<lambda>w. load_bytes (bs_ram w) (mc_link m ''LOAD_BUFFER'') LOAD_BUFFER_SIZE)) (\<lambda>old.
     io_bind (with_hw (attempt (read_file (dev_of m c) fs (mc_fuel m) name old))) (\<lambda>r.
       case r of
         Inl e \<Rightarrow>
           ui_seq [uart_line m (ascii ''  read_file failed: '' @ debug_fat32 e),
                   draw (put_text fb (CONTENT_X + 20) y (ascii ''FAILED TO READ FILE FROM SD.'') 2 ERROR)]
       | Inr (n, bytes) \<Rightarrow>
           ui_seq [draw (store_at (mc_link m ''LOAD_BUFFER'') bytes), run_app m fb name y n]))"

section \<open>Booting from the card, saving the variables\<close>

definition mount_card :: "'h machine \<Rightarrow> framebuffer \<Rightarrow> string \<Rightarrow> ('h, (card \<times> fat32 \<times> u32) option) ui_io" where
  "mount_card m fb title =
     io_bind (draw_chrome m fb title ''PLEASE WAIT...'') (\<lambda>_.
     io_bind (print_lines m fb CONTENT_X CONTENT_Y 2 FG [ascii ''INITIALIZING SD CARD (SDHCI)...'']) (\<lambda>y.
     io_bind (with_hw (attempt (card_init (sd_of m) (mc_fuel m)))) (\<lambda>r.
       case r of
         Inl e \<Rightarrow>
           io_bind (ui_seq [uart_line m (ascii ''  sd init failed: '' @ debug_sd e),
             show_error m fb title [''SD CARD INIT FAILED.'', ''SEE UART LOG FOR DETAILS.'']]) (\<lambda>_. io_return None)
       | Inr c \<Rightarrow>
           io_bind (print_lines m fb CONTENT_X y 2 FG [ascii ''SD CARD READY.'']) (\<lambda>y.
           io_bind (with_hw (attempt (mount (dev_of m c)))) (\<lambda>r.
             case r of
               Inl e \<Rightarrow>
                 io_bind (ui_seq [uart_line m (ascii ''  fat32 mount failed: '' @ debug_fat32 e),
                   show_error m fb title [''NO FAT32 VOLUME FOUND.'', ''SEE UART LOG FOR DETAILS.'']]) (\<lambda>_. io_return None)
             | Inr fs \<Rightarrow>
                 io_bind (print_lines m fb CONTENT_X y 2 FG [ascii ''FAT32 VOLUME MOUNTED.'']) (\<lambda>y w.
                   (Inr (Some (c, fs, y)), w\<lparr>uw_store := set_context c fs (uw_store w)\<rparr>)))))))"

definition load_variables :: "'h machine \<Rightarrow> framebuffer \<Rightarrow> card \<Rightarrow> fat32 \<Rightarrow> u32 \<Rightarrow> ('h, u32) ui_io" where
  "load_variables m fb c fs y =
     io_bind (with_store (attempt (persist_load (dev_of m) (mc_fuel m) c fs))) (\<lambda>r.
       case r of
         Inr n \<Rightarrow>
           io_bind (print_lines m fb CONTENT_X y 2 FG [ascii ''LOADED SAVED VARIABLES FROM SD.'']) (\<lambda>y.
           io_bind (uart_line m (ascii ''  ('' @ dec n @ ascii '' variable(s) merged into the live store)'')) (\<lambda>_.
           io_bind (with_store settings_init) (\<lambda>_. io_return y)))
       | Inl e \<Rightarrow>
           io_bind (uart_line m (ascii ''  no saved variables loaded: '' @ debug_persist e)) (\<lambda>_. io_return y))"

definition entry_name :: "listing \<Rightarrow> nat \<Rightarrow> u8 list" where
  "entry_name l i = utf8_or (l_names l ! i) (ascii ''????????.???'')"

primrec list_loop :: "'h machine \<Rightarrow> framebuffer \<Rightarrow> listing \<Rightarrow> u32 \<Rightarrow> nat list \<Rightarrow> ('h, u32) ui_io" where
  "list_loop m fb l y [] = io_return y"
| "list_loop m fb l y (i # is) =
     io_bind (ui_seq [draw (put_text fb (CONTENT_X + 20) y (entry_name l i) 2 FG),
                      ui_flush m fb,
                      uart_line m (ascii ''    '' @ entry_name l i @ ascii ''  '' @ dec (unat (l_sizes l ! i)) @ ascii '' bytes''),
                      ui_verbose_pause m]) (\<lambda>_.
       list_loop m fb l (y + line_height 2) is)"

definition show_first_file :: "'h machine \<Rightarrow> framebuffer \<Rightarrow> card \<Rightarrow> fat32 \<Rightarrow> listing \<Rightarrow> u32 \<Rightarrow> ('h, unit) ui_io" where
  "show_first_file m fb c fs l y =
     io_bind (with_hw (attempt (read_file (dev_of m c) fs (mc_fuel m) (l_names l ! 0) (replicate 256 0)))) (\<lambda>r.
       case r of
         Inr (n, content) \<Rightarrow>
           (let text = utf8_or (take n content) (ascii ''<binary>'') in
            io_bind (ui_get ui_accent) (\<lambda>acc.
            ui_seq [uart_line m (ascii ''  first file contents ('' @ dec n @ ascii '' bytes):''),
                    uart_line m text,
                    draw (put_text fb CONTENT_X (y + line_height 2) (ascii ''FIRST FILE (FULL TEXT OVER UART):'') 2 DIM),
                    draw (put_text fb (CONTENT_X + 20) (y + line_height 2 + line_height 2) (first_line text) 2 acc)]))
       | Inl e \<Rightarrow> uart_line m (ascii ''  read_file failed: '' @ debug_fat32 e))"

definition efi_index :: "listing \<Rightarrow> nat option" where
  "efi_index l = find (\<lambda>i. seg (l_names l ! i) 8 3 = ascii ''EFI'') [0..<l_count l]"

definition boot_listed :: "'h machine \<Rightarrow> framebuffer \<Rightarrow> card \<Rightarrow> fat32 \<Rightarrow> listing \<Rightarrow> u32 \<Rightarrow> ('h, unit) ui_io" where
  "boot_listed m fb c fs l y =
     (case efi_index l of
        None \<Rightarrow> if l_count l > 0 then show_first_file m fb c fs l y else io_return ()
      | Some i \<Rightarrow>
          io_bind (ui_get ui_accent) (\<lambda>acc.
          let y = y + line_height 2; y2 = y + line_height 2 in
          ui_seq [draw (put_text fb CONTENT_X y (ascii ''EFI APPLICATION FOUND:'') 2 acc),
                  draw (put_text fb (CONTENT_X + 20) y2 (entry_name l i) 2 FG),
                  ui_flush m fb,
                  uart_line m (0x0A # ascii ''  EFI application found: '' @ entry_name l i),
                  boot_efi_app m fb fs c (l_names l ! i) y2]))"

definition boot_mounted :: "'h machine \<Rightarrow> framebuffer \<Rightarrow> card \<Rightarrow> fat32 \<Rightarrow> u32 \<Rightarrow> ('h, unit) ui_io" where
  "boot_mounted m fb c fs y =
     io_bind (with_hw (attempt (list_root (dev_of m c) fs (mc_fuel m)
       \<lparr>l_names = replicate 8 (replicate 11 0), l_sizes = replicate 8 0, l_count = 0\<rparr>))) (\<lambda>r.
       case r of
         Inl e \<Rightarrow>
           ui_seq [uart_line m (ascii ''  list_root failed: '' @ debug_fat32 e),
                   show_error m fb ''BOOT FROM SD'' [''FAILED TO READ ROOT DIRECTORY.'']]
       | Inr l \<Rightarrow>
           io_bind (uart_line m (ascii ''  root directory ('' @ dec (l_count l) @ ascii '' entries):'')) (\<lambda>_.
           io_bind (ui_get ui_accent) (\<lambda>acc.
           let y = y + line_height 2 in
           io_bind (draw (put_text fb CONTENT_X y (ascii ''ROOT DIRECTORY:'') 2 acc)) (\<lambda>_.
           io_bind (list_loop m fb l (y + line_height 2) [0..<l_count l]) (\<lambda>y.
           io_bind (if l_count l = 0
                    then io_bind (draw (put_text fb (CONTENT_X + 20) y (ascii ''(EMPTY)'') 2 DIM)) (\<lambda>_. io_return (y + line_height 2))
                    else io_return y) (\<lambda>y.
             ui_seq [boot_listed m fb c fs l y, ui_flush m fb, wait_for_key m]))))))"

definition boot_from_sd :: "'h machine \<Rightarrow> framebuffer \<Rightarrow> ('h, unit) ui_io" where
  "boot_from_sd m fb =
     io_bind (uart_line m (0x0A # ascii ''[menu] BOOT FROM SD selected'')) (\<lambda>_.
     io_bind (mount_card m fb ''BOOT FROM SD'') (\<lambda>r.
       case r of
         None \<Rightarrow> io_return ()
       | Some (c, fs, y) \<Rightarrow> io_bind (load_variables m fb c fs y) (\<lambda>y. boot_mounted m fb c fs y)))"

definition save_variables_to_sd :: "'h machine \<Rightarrow> framebuffer \<Rightarrow> ('h, unit) ui_io" where
  "save_variables_to_sd m fb =
     io_bind (uart_line m (0x0A # ascii ''[menu] SAVE VARIABLES TO SD selected'')) (\<lambda>_.
     io_bind (mount_card m fb ''SAVE VARIABLES TO SD'') (\<lambda>r.
       case r of
         None \<Rightarrow> io_return ()
       | Some (c, fs, y) \<Rightarrow>
           io_bind (with_store (attempt (persist_save (dev_of m) (mc_fuel m) c fs))) (\<lambda>r.
             case r of
               Inr bytes \<Rightarrow>
                 io_bind (uart_line m (ascii ''  wrote '' @ dec bytes @ ascii '' bytes to FERRO.VAR in the root directory'')) (\<lambda>_.
                 io_bind (print_lines m fb CONTENT_X y 2 FG [ascii ''VARIABLES SAVED (INCLUDING SETTINGS).'',
                   ascii ''THEY'' @ [0x27] @ ascii ''LL RELOAD NEXT TIME YOU BOOT FROM SD.'']) (\<lambda>_. wait_for_key m))
             | Inl e \<Rightarrow>
                 ui_seq [uart_line m (ascii ''  save failed: '' @ debug_persist e),
                         show_error m fb ''SAVE VARIABLES TO SD'' [''FAILED TO SAVE VARIABLES.'', ''SEE UART LOG FOR DETAILS.'']])))"

section \<open>The menu loop\<close>

definition ui_reset :: "'h machine \<Rightarrow> ('h, unit) ui_io" where
  "ui_reset m w = (Inl OutOfFuel, set_hw (pm_reset (sd_of m) (uw_hw w)) w)"

definition select_item :: "'h machine \<Rightarrow> framebuffer \<Rightarrow> nat \<Rightarrow> ('h, unit) ui_io" where
  "select_item m fb s =
     io_bind
       (if s = 0 then boot_from_sd m fb
        else if s = 1 then run_settings m fb
        else if s = 2 then show_system_info m fb
        else if s = 3 then save_variables_to_sd m fb
        else if s = 4 then
          ui_seq [uart_line m (0x0A # ascii ''[menu] REBOOT selected''),
                  show_message m fb ''REBOOTING'' [''ASKING THE WATCHDOG FOR A RESET...''],
                  ui_reset m]
        else io_throw Panic) (\<lambda>_. draw_menu m fb s)"

definition idle_redraw :: "'h machine \<Rightarrow> framebuffer \<Rightarrow> u64 \<Rightarrow> ('h, u64) ui_io" where
  "idle_redraw m fb last_draw =
     io_bind (ui_ticks m) (\<lambda>t.
       if t - last_draw \<ge> IDLE_REDRAW_TICKS then io_bind (refresh_uptime m fb) (\<lambda>_. ui_ticks m) else io_return last_draw)"

text \<open>One turn of the loop: the selection, the decoder's state and the time of the last redraw.\<close>

definition menu_turn :: "'h machine \<Rightarrow> framebuffer \<Rightarrow> nat \<times> u8 \<times> u64 \<Rightarrow> ('h, nat \<times> u8 \<times> u64) ui_io" where
  "menu_turn m fb = (\<lambda>(s, esc, last_draw).
     io_bind (poll_menu_key m esc) (\<lambda>(k, esc).
       case k of
         None \<Rightarrow> io_bind (idle_redraw m fb last_draw) (\<lambda>last_draw. io_return (s, esc, last_draw))
       | Some key \<Rightarrow>
           (if key \<in> {Left, Right, Back} then io_return (s, esc, last_draw)
            else
              let s' = (case key of Up \<Rightarrow> move_up s | Down \<Rightarrow> move_down s | _ \<Rightarrow> s) in
              io_bind (if key = Enter then select_item m fb s else io_return ()) (\<lambda>_.
              io_bind (draw_menu m fb s') (\<lambda>_.
              io_bind (ui_ticks m) (\<lambda>t. io_return (s', esc, t)))))))"

primrec menu_loop :: "'h machine \<Rightarrow> framebuffer \<Rightarrow> nat \<Rightarrow> nat \<times> u8 \<times> u64 \<Rightarrow> ('h, unit) ui_io" where
  "menu_loop m fb 0 st = io_throw OutOfFuel"
| "menu_loop m fb (Suc n) st = io_bind (menu_turn m fb st) (menu_loop m fb n)"

definition find_input :: "'h machine \<Rightarrow> ('h, unit) ui_io" where
  "find_input m =
     io_bind (ui_get (\<lambda>w. usb_enabled (settings_of w))) (\<lambda>usb.
       if \<not> usb then ui_seq [uart_line m (0x0A # ascii ''[menu] USB disabled in settings -- UART input only''), (\<lambda>w. (Inr (), w\<lparr>uw_kbd := None\<rparr>))]
       else
         io_bind (with_hw (attempt (usb_init (mc_host m) (mc_fuel m)))) (\<lambda>r.
           case r of
             Inl e \<Rightarrow> ui_seq [uart_line m (0x0A # ascii ''[menu] USB init failed ('' @ debug_usb e @ ascii '') -- UART input only''), (\<lambda>w. (Inr (), w\<lparr>uw_kbd := None\<rparr>))]
           | Inr sp \<Rightarrow>
               io_bind (with_hw (attempt (find_keyboard (mc_host m) (mc_fuel m) (mc_stack m) sp))) (\<lambda>r.
                 case r of
                   Inr kbd \<Rightarrow> ui_seq [uart_line m (0x0A # ascii ''[menu] USB HID keyboard connected''), (\<lambda>w. (Inr (), w\<lparr>uw_kbd := Some kbd\<rparr>))]
                 | Inl e \<Rightarrow> ui_seq [uart_line m (0x0A # ascii ''[menu] no USB HID keyboard found ('' @ debug_hid e @ ascii '') -- UART input only''),
                                     (\<lambda>w. (Inr (), w\<lparr>uw_kbd := None\<rparr>))])))"

definition ui_run :: "'h machine \<Rightarrow> framebuffer \<Rightarrow> nat \<Rightarrow> ('h, unit) ui_io" where
  "ui_run m fb n =
     io_bind (with_store settings_init) (\<lambda>_.
     io_bind (find_input m) (\<lambda>_.
     io_bind (draw_menu m fb 0) (\<lambda>_.
     io_bind (ui_ticks m) (\<lambda>t. menu_loop m fb n (0, 0, t)))))"

end
