(* ===== verification/Ui_Properties.thy ===== *)
theory Ui_Properties
  imports Ui_Boot
begin

text \<open>
  The menu on a working machine. The locale \<open>ui_machine\<close> is what the menu relies on of the hardware: a
  working serial line that the tick counter, pauses and cache maintenance leave alone, and a framebuffer
  the cache loop can cover. Inside it, everything that draws or prints is shown to come back and to
  change only the memory and the hardware; the properties follow the keys the user types.
\<close>

unbundle bit_operations_syntax

text \<open>What drawing and printing may change; the bytes waiting on the line are kept.\<close>

definition screen_step :: "('h \<Rightarrow> bool) \<Rightarrow> ('h \<Rightarrow> u8 list) \<Rightarrow> 'h ui_world \<Rightarrow> 'h ui_world \<Rightarrow> bool" where
  "screen_step up received w w' \<longleftrightarrow>
     (\<exists>r h. w' = set_hw h (w\<lparr>bs_ram := r\<rparr>) \<and> up h \<and> received h = received (uw_hw w))"

definition screens_only :: "('h \<Rightarrow> bool) \<Rightarrow> ('h \<Rightarrow> u8 list) \<Rightarrow> ('h, 'a) ui_io \<Rightarrow> bool" where
  "screens_only up received p \<longleftrightarrow>
     (\<forall>w. up (uw_hw w) \<longrightarrow> (\<exists>x w'. p w = (Inr x, w') \<and> screen_step up received w w'))"

lemma screen_step_refl: "up (uw_hw w) \<Longrightarrow> screen_step up received w w"
  unfolding screen_step_def by (intro exI[of _ "bs_ram w"] exI[of _ "uw_hw w"]) (simp add: set_hw_def)

lemma screen_step_trans: "screen_step up received a b \<Longrightarrow> screen_step up received b c \<Longrightarrow> screen_step up received a c"
  unfolding screen_step_def by (fastforce simp: set_hw_def)

lemma screen_step_up: "screen_step up received w w' \<Longrightarrow> up (uw_hw w') \<and> received (uw_hw w') = received (uw_hw w)"
  by (auto simp: screen_step_def)

lemma screens_return: "screens_only up received (io_return x)"
  by (simp add: screens_only_def io_return_def screen_step_refl)

lemma screens_get: "screens_only up received (ui_get f)"
  by (simp add: screens_only_def ui_get_def screen_step_refl)

lemma screens_draw: "screens_only up received (draw f)"
  unfolding screens_only_def draw_def screen_step_def
  by (intro allI impI exI conjI) (auto intro!: exI simp: set_hw_def)

lemma screens_bind:
  assumes "screens_only up received p" "\<And>x. screens_only up received (f x)"
  shows "screens_only up received (io_bind p f)"
  unfolding screens_only_def
proof (intro allI impI)
  fix w assume "up (uw_hw w)"
  with assms(1) obtain x w1 where p: "p w = (Inr x, w1)" "screen_step up received w w1" by (auto simp: screens_only_def)
  obtain y w2 where "f x w1 = (Inr y, w2)" "screen_step up received w1 w2"
    using assms(2)[of x] screen_step_up[OF p(2)] unfolding screens_only_def by blast
  with p show "\<exists>y w'. io_bind p f w = (Inr y, w') \<and> screen_step up received w w'"
    by (auto simp: io_bind_def intro: screen_step_trans)
qed

lemma screens_seq: "\<forall>p \<in> set ps. screens_only up received p \<Longrightarrow> screens_only up received (ui_seq ps)"
  by (induction ps) (auto intro: screens_return screens_bind)

lemma screens_if: "screens_only up received p \<Longrightarrow> screens_only up received q \<Longrightarrow> screens_only up received (if b then p else q)"
  by simp

lemmas screens_intros = screens_return screens_get screens_draw screens_bind screens_if

section \<open>What the keys mean\<close>

fun moved :: "key \<Rightarrow> nat \<Rightarrow> nat" where
  "moved Up s = move_up s"
| "moved Down s = move_down s"
| "moved _ s = s"

lemma moved_less: "s < 5 \<Longrightarrow> moved k s < 5"
  by (cases k) (simp_all add: move_up_def move_down_def row_moves)

lemma fold_moved:
  "s < 5 \<Longrightarrow> int (fold moved ks s) = (int s + int (count_list ks Down) - int (count_list ks Up)) mod 5"
proof (induction ks arbitrary: s)
  case (Cons k ks)
  have m: "int (moved k s) = (int s + (if k = Down then 1 else 0) - (if k = Up then 1 else 0)) mod 5"
    using Cons.prems row_up_mod[of s 5] row_down_mod[of s 5] by (cases k) (simp_all add: move_up_def move_down_def)
  have d: "(x mod 5 + d - u) mod 5 = (x + d - u) mod (5 :: int)" for x d u
    by (metis mod_add_left_eq mod_diff_left_eq)
  from Cons.IH[OF moved_less[OF Cons.prems, of k]] show ?case unfolding fold_Cons comp_apply m d
    by (cases k) (simp_all add: algebra_simps)
qed simp

text \<open>The settings screen as a machine of the selected row and the settings.\<close>

definition turned :: "nat \<Rightarrow> bool \<Rightarrow> settings \<Rightarrow> settings" where
  "turned row forward s =
     (if row = 0 then s\<lparr>verbose_boot := \<not> verbose_boot s\<rparr>
      else if row = 1 then s\<lparr>theme := (if forward then theme_next (theme s) else theme_next (theme_next (theme s)))\<rparr>
      else s\<lparr>usb_enabled := \<not> usb_enabled s\<rparr>)"

fun settings_key :: "key \<Rightarrow> nat \<times> settings \<Rightarrow> nat \<times> settings" where
  "settings_key Up (row, s) = ((row + 2) mod 3, s)"
| "settings_key Down (row, s) = ((row + 1) mod 3, s)"
| "settings_key Left (row, s) = (row, turned row False s)"
| "settings_key Back (row, s) = (row, s)"
| "settings_key _ (row, s) = (row, turned row True s)"

lemma turned_back: "turned row False (turned row True s) = s" "turned row True (turned row False s) = s"
  by (cases "theme s"; simp add: turned_def)+

text \<open>No card is mounted, and the settings agree with a store that has room for them.\<close>

definition settings_ok :: "'h ui_world \<Rightarrow> bool" where
  "settings_ok w \<longleftrightarrow> pw_context (uw_store w) = None \<and> var_inv (pw_vars (uw_store w)) \<and> settings_room (pw_vars (uw_store w)) \<and>
     sw_settings (uw_store w) = stored_settings (var_map (pw_vars (uw_store w)))"

lemma settings_ok_step:
  "screen_step up received w w' \<Longrightarrow> settings_ok w' = settings_ok w \<and> settings_of w' = settings_of w"
  by (auto simp: screen_step_def settings_ok_def set_hw_def settings_of_def settings_get_def)

lemma settings_ok_hw [simp]: "settings_ok (set_hw h w) = settings_ok w" "settings_of (set_hw h w) = settings_of w"
  by (simp_all add: settings_ok_def set_hw_def settings_of_def settings_get_def)

lemma apply_change_turns:
  assumes "settings_ok w"
  shows "\<exists>w'. apply_change m row forward w = (Inr (), w') \<and> settings_ok w' \<and> settings_of w' = turned row forward (settings_of w) \<and>
    uw_hw w' = uw_hw w"
proof -
  let ?s = "settings_of w" and ?st = "uw_store w"
  define ch where "ch = (if row = 0 then Verbose (\<not> verbose_boot ?s)
    else if row = 1 then Accent (if forward then theme_next (theme ?s) else theme_next (theme_next (theme ?s))) else Usb (\<not> usb_enabled ?s))"
  have st: "pw_context ?st = None" "var_inv (pw_vars ?st)" "settings_room (pw_vars ?st)" "sw_settings ?st = stored_settings (var_map (pw_vars ?st))"
    using assms by (simp_all add: settings_ok_def)
  obtain vs d where c: "change (dev_of m) (mc_fuel m) ch ?st = (Inr (), ?st\<lparr>pw_vars := vs, pw_dev := d, sw_settings := changed ch (sw_settings ?st)\<rparr>)"
    "var_inv vs" "var_map vs = (var_map (pw_vars ?st))(setting_key (change_name ch) \<mapsto> (SETTINGS_ATTR, [change_byte ch]))"
    "stored_settings (var_map vs) = changed ch (sw_settings ?st)"
    using change_applies[OF st(2) settings_room_each[OF st(2,3) change_name_ok] save_returns_unmounted[OF st(1)] st(4)] by blast
  have d: "d = uw_hw w" using change_unmounted[OF st(1) c(1)] by simp
  have "settings_room vs" by (rule settings_room_upd[OF c(3) change_name_ok st(3)])
  moreover have "apply_change m row forward w = (case change (dev_of m) (mc_fuel m) ch ?st of (r, s) \<Rightarrow> (r, w\<lparr>uw_store := s\<rparr>))"
    by (simp add: apply_change_def ui_get_def io_bind_def with_store_def ch_def)
  moreover have "changed ch (sw_settings ?st) = turned row forward ?s"
    by (simp add: ch_def turned_def settings_of_def settings_get_def)
  ultimately show ?thesis using c st(1) d by (simp add: settings_ok_def settings_of_def settings_get_def)
qed

text \<open>Turns of the menu in a row.\<close>

primrec menu_turns :: "'h machine \<Rightarrow> framebuffer \<Rightarrow> nat \<Rightarrow> nat \<times> u8 \<times> u64 \<Rightarrow> ('h, nat \<times> u8 \<times> u64) ui_io" where
  "menu_turns m fb 0 st = io_return st"
| "menu_turns m fb (Suc n) st = io_bind (menu_turn m fb st) (menu_turns m fb n)"

section \<open>The hardware the menu relies on\<close>

locale ui_machine = serial_line "mc_host m" "mc_fuel m" up sent received backlog
  for m :: "'h machine" and up :: "'h \<Rightarrow> bool" and sent received :: "'h \<Rightarrow> u8 list" and backlog :: "'h \<Rightarrow> nat" +
  fixes fb :: framebuffer
  assumes clean_line: "up h \<Longrightarrow> up (dc_civac (mc_host m) a h) \<and> received (dc_civac (mc_host m) a h) = received h"
    and ticks_line: "up h \<Longrightarrow> timer_ticks (mc_host m) h = (t, h') \<Longrightarrow> up h' \<and> received h' = received h"
    and sleep_line: "up h \<Longrightarrow> up (sleep (mc_host m) n h) \<and> received (sleep (mc_host m) n h) = received h"
    and screen_fits: "unat (fb_ptr fb) + fb_size fb + unat (line_size (ctr_el0 (mc_host m))) \<le> 2 ^ 64" "fb_size fb < 2 ^ 64"
      "fb_size fb div unat (line_size (ctr_el0 (mc_host m))) + 3 \<le> mc_fuel m"
begin

abbreviation displays :: "('h, 'a) ui_io \<Rightarrow> bool" where
  "displays p \<equiv> screens_only up received p"

lemma hw_step: "m' (uw_hw w) = (Inr x, h) \<Longrightarrow> up h \<Longrightarrow> received h = received (uw_hw w) \<Longrightarrow>
  with_hw m' w = (Inr x, set_hw h w) \<and> screen_step up received w (set_hw h w)"
  unfolding screen_step_def by (auto simp: with_hw_def set_hw_def intro!: exI[of _ "bs_ram w"] exI[of _ h])

lemma shows_flush: "displays (ui_flush m fb)"
  unfolding screens_only_def
proof (intro allI impI)
  fix w assume up: "up (uw_hw w)"
  obtain ls where ls: "clean_and_invalidate_range (mc_fuel m) (ctr_el0 (mc_host m)) (fb_ptr fb) (of_nat (fb_size fb)) = Some ls"
    using clean_returns[OF screen_fits(1,3,2)] by blast
  have "up h \<Longrightarrow> up (fold (dc_civac (mc_host m)) ls h) \<and> received (fold (dc_civac (mc_host m)) ls h) = received h" for h
    using clean_line by (induction ls arbitrary: h) auto
  from this[OF up] show "\<exists>x w'. ui_flush m fb w = (Inr x, w') \<and> screen_step up received w w'"
    using hw_step[of "u_clean (mc_host m) (mc_fuel m) (fb_ptr fb) (fb_size fb)" w] by (auto simp: ui_flush_def u_clean_def ls)
qed

lemma shows_uart_line: "displays (uart_line m s)"
  unfolding screens_only_def
proof (intro allI impI)
  fix w assume "up (uw_hw w)"
  from puts_sends[OF this, of "s @ [0x0A]", where 'e = unit] obtain h' where
    "uart_puts (mc_host m) (mc_fuel m) (s @ [0x0A]) (uw_hw w) = (Inr () :: unit fault + unit, h')" "up h'" "received h' = received (uw_hw w)"
    by blast
  then show "\<exists>x w'. uart_line m s w = (Inr x, w') \<and> screen_step up received w w'"
    using hw_step[where w = w and m' = "uart_puts (mc_host m) (mc_fuel m) (s @ [0x0A])"] by (auto simp: uart_line_def)
qed

lemma shows_ticks: "displays (ui_ticks m)"
  unfolding screens_only_def
proof (intro allI impI)
  fix w assume up: "up (uw_hw w)"
  obtain t h where t: "timer_ticks (mc_host m) (uw_hw w) = (t, h)" by fastforce
  from hw_step[of "\<lambda>h. (case timer_ticks (mc_host m) h of (t, h) \<Rightarrow> (Inr t :: unit fault + u64, h))" w t h] ticks_line[OF up t]
  show "\<exists>x w'. ui_ticks m w = (Inr x, w') \<and> screen_step up received w w'" by (auto simp: ui_ticks_def with_hw_def t)
qed

lemma shows_sleep: "displays (ui_sleep m n)"
  unfolding screens_only_def
proof (intro allI impI)
  fix w assume up: "up (uw_hw w)"
  from hw_step[of "\<lambda>h. (Inr () :: unit fault + unit, sleep (mc_host m) n h)" w] sleep_line[OF up]
  show "\<exists>x w'. ui_sleep m n w = (Inr x, w') \<and> screen_step up received w w'" by (auto simp: ui_sleep_def with_hw_def)
qed

lemmas shows_intros = screens_intros shows_flush shows_uart_line shows_ticks shows_sleep

lemma shows_chrome: "displays (draw_chrome m fb title hint)"
  unfolding draw_chrome_def by (intro shows_intros)

lemma shows_print_loop: "displays (print_loop m fb delay x cy scale color lines)"
  by (induction lines arbitrary: cy) (auto intro!: shows_intros)

lemma shows_print_lines: "displays (print_lines m fb x y scale color lines)"
  unfolding print_lines_def by (intro shows_intros shows_print_loop)

lemma shows_status_panel: "displays (draw_status_panel m fb)"
  unfolding draw_status_panel_def Let_def by (auto intro!: shows_intros split: prod.splits)

lemma shows_uptime: "displays (refresh_uptime m fb)"
  unfolding refresh_uptime_def Let_def by (intro shows_intros)

lemma shows_menu: "s < 5 \<Longrightarrow> displays (draw_menu m fb s)"
  unfolding draw_menu_def by (auto intro!: shows_intros shows_chrome shows_status_panel split: prod.splits)

lemma shows_settings: "displays (draw_settings m fb s)"
  unfolding draw_settings_def by (intro shows_intros shows_chrome)

lemma shows_idle: "displays (idle_redraw m fb t)"
  unfolding idle_redraw_def by (intro shows_intros shows_uptime)

text \<open>A poll takes the oldest byte of the line and changes nothing else.\<close>

lemma poll_takes:
  assumes "up (uw_hw w)" "received (uw_hw w) = b # bs"
  shows "\<exists>h. poll_menu_key m esc w = (Inr (decode_byte b esc), set_hw h w) \<and> up h \<and> received h = bs"
  using getc_takes[OF assms(1)] assms(2) by (auto simp: poll_menu_key_def)

text \<open>One turn of the menu on a key that does not select.\<close>

lemma turn_takes:
  assumes w: "up (uw_hw w)" "received (uw_hw w) = b # bs" and s: "s < 5" and k: "decode_byte b esc = (k, e)" "k \<noteq> Some Enter"
  shows "\<exists>t' w'. menu_turn m fb (s, esc, t) w = (Inr (case k of None \<Rightarrow> s | Some key \<Rightarrow> moved key s, e, t'), w') \<and>
    up (uw_hw w') \<and> received (uw_hw w') = bs"
proof -
  obtain h where p: "poll_menu_key m esc w = (Inr (k, e), set_hw h w)" "up h" "received h = bs"
    using poll_takes[OF w] k by metis
  define q :: "('h, nat \<times> u8 \<times> u64) ui_io" where "q = (case k of
      None \<Rightarrow> io_bind (idle_redraw m fb t) (\<lambda>t. io_return (s, e, t))
    | Some key \<Rightarrow> if key \<in> {Left, Right, Back} then io_return (s, e, t)
        else io_bind (draw_menu m fb (moved key s)) (\<lambda>_. io_bind (ui_ticks m) (\<lambda>t. io_return (moved key s, e, t))))"
  have turn: "menu_turn m fb (s, esc, t) w = q (set_hw h w)"
  proof (cases k)
    case None
    then show ?thesis using p(1) by (simp add: menu_turn_def q_def io_bind_Inr)
  next
    case (Some key)
    then show ?thesis using p(1) k(2) by (cases key) (simp_all add: menu_turn_def q_def io_bind_Inr io_return_apply Let_def)
  qed
  have q: "displays q" unfolding q_def
    by (auto split: option.splits intro!: shows_intros shows_idle shows_menu moved_less s)
  have res: "q v = (Inr (s', e', t'), v') \<Longrightarrow> s' = (case k of None \<Rightarrow> s | Some key \<Rightarrow> moved key s) \<and> e' = e" for v v' s' e' t'
    by (auto simp: q_def io_bind_return_iff io_return_def split: option.splits if_splits)
  obtain x w' where x: "q (set_hw h w) = (Inr x, w')" "screen_step up received (set_hw h w) w'"
    using q p(2) unfolding screens_only_def by (metis uw_hw_set_hw)
  obtain s' e' t' where "x = (s', e', t')" by (cases x)
  with x(1) res have "q (set_hw h w) = (Inr (case k of None \<Rightarrow> s | Some key \<Rightarrow> moved key s, e, t'), w')" by blast
  then show ?thesis using screen_step_up[OF x(2)] p turn by auto
qed

lemma turns_follow:
  "up (uw_hw w) \<Longrightarrow> received (uw_hw w) = bs \<Longrightarrow> s < 5 \<Longrightarrow> decode_all bs esc = (ks, e) \<Longrightarrow> Enter \<notin> set ks \<Longrightarrow>
   \<exists>t' w'. menu_turns m fb (length bs) (s, esc, t) w = (Inr (fold moved ks s, e, t'), w') \<and> up (uw_hw w') \<and> received (uw_hw w') = []"
proof (induction bs arbitrary: w s esc ks t)
  case Nil
  then show ?case by (auto simp: io_return_def)
next
  case (Cons b bs)
  obtain k e1 where k: "decode_byte b esc = (k, e1)" by fastforce
  obtain ks1 e2 where ks1: "decode_all bs e1 = (ks1, e2)" by fastforce
  have e2: "e2 = e" and ks: "ks = (case k of None \<Rightarrow> ks1 | Some key \<Rightarrow> key # ks1)" using Cons.prems(4) k ks1 by auto
  have ne: "k \<noteq> Some Enter" "Enter \<notin> set ks1" using Cons.prems(5) ks by (auto split: option.splits)
  let ?s = "case k of None \<Rightarrow> s | Some key \<Rightarrow> moved key s"
  obtain t1 w1 where w1: "menu_turn m fb (s, esc, t) w = (Inr (?s, e1, t1), w1)" "up (uw_hw w1)" "received (uw_hw w1) = bs"
    using turn_takes[OF Cons.prems(1,2,3) k ne(1)] by blast
  have "?s < 5" using Cons.prems(3) moved_less by (auto split: option.splits)
  from Cons.IH[OF w1(2,3) this ks1[unfolded e2] ne(2), of t1] w1(1) ks show ?case by (auto simp: io_bind_def split: option.splits)
qed

lemma settings_turn:
  assumes "settings_ok w" "up (uw_hw w)" "row < 3" "k \<noteq> Back"
    and "settings_key k (row, settings_of w) = (row', s')"
  shows "row' < 3 \<and> (\<exists>w'. settings_ok w' \<and> up (uw_hw w') \<and> received (uw_hw w') = received (uw_hw w) \<and> settings_of w' = s' \<and>
    (case k of
       Up \<Rightarrow> draw_settings m fb (row_up SETTINGS_ROWS row)
     | Down \<Rightarrow> draw_settings m fb (row_down SETTINGS_ROWS row)
     | Left \<Rightarrow> io_bind (apply_change m row False) (\<lambda>_. draw_settings m fb row)
     | _ \<Rightarrow> io_bind (apply_change m row True) (\<lambda>_. draw_settings m fb row)) w = (Inr (), w'))"
proof -
  have dr: "\<exists>w'. draw_settings m fb r v = (Inr (), w') \<and> settings_ok w' \<and> settings_of w' = settings_of v \<and> up (uw_hw w') \<and>
      received (uw_hw w') = received (uw_hw v)" if "settings_ok v" "up (uw_hw v)" for r v
    using shows_settings[of r] that settings_ok_step screen_step_up unfolding screens_only_def by (metis (full_types) old.unit.exhaust)
  have ap: "\<exists>w'. io_bind (apply_change m row f) (\<lambda>_. draw_settings m fb row) w = (Inr (), w') \<and> settings_ok w' \<and>
      settings_of w' = turned row f (settings_of w) \<and> up (uw_hw w') \<and> received (uw_hw w') = received (uw_hw w)" for f
  proof -
    obtain w1 where w1: "apply_change m row f w = (Inr (), w1)" "settings_ok w1" "settings_of w1 = turned row f (settings_of w)" "uw_hw w1 = uw_hw w"
      using apply_change_turns[OF assms(1)] by blast
    with dr[of w1 row] assms(2) show ?thesis by (auto simp: io_bind_def)
  qed
  show ?thesis using assms(3-5) dr[OF assms(1,2)] ap by (cases k) auto
qed

lemma settings_loop_follows:
  "settings_ok w \<Longrightarrow> up (uw_hw w) \<Longrightarrow> received (uw_hw w) = bs @ rest \<Longrightarrow> row < 3 \<Longrightarrow>
   decode_all bs esc = (ks @ [Back], e) \<Longrightarrow> Back \<notin> set ks \<Longrightarrow> length bs \<le> n \<Longrightarrow>
   \<exists>w'. settings_loop m fb n row esc w = (Inr (), w') \<and> settings_ok w' \<and> settings_of w' = snd (fold settings_key ks (row, settings_of w))"
proof (induction bs arbitrary: w row esc ks n)
  case (Cons b bs)
  obtain n' where n: "n = Suc n'" "length bs \<le> n'" using Cons.prems(7) by (cases n) auto
  obtain k e1 where k: "decode_byte b esc = (k, e1)" by fastforce
  obtain ks1 e2 where ks1: "decode_all bs e1 = (ks1, e2)" by fastforce
  have e2: "e2 = e" and ks: "ks @ [Back] = (case k of None \<Rightarrow> ks1 | Some key \<Rightarrow> key # ks1)" using Cons.prems(5) k ks1 by auto
  obtain h where p: "poll_menu_key m esc w = (Inr (k, e1), set_hw h w)" "up h" "received h = bs @ rest"
    using poll_takes[OF Cons.prems(2), of b "bs @ rest" esc] Cons.prems(3) k by auto
  show ?case
  proof (cases k)
    case None
    then have d: "decode_all bs e1 = (ks @ [Back], e)" using ks ks1 e2 by simp
    from Cons.IH[of "set_hw h w", OF _ _ _ Cons.prems(4) d Cons.prems(6) n(2)] Cons.prems(1) p None
    show ?thesis by (simp add: n io_bind_Inr)
  next
    case (Some key)
    show ?thesis
    proof (cases "key = Back")
      case True
      then have "ks = []" using ks Some Cons.prems(6) by (cases ks) auto
      then show ?thesis using True Some p Cons.prems(1) by (simp add: n io_bind_Inr io_return_apply)
    next
      case False
      then obtain ks' where ks': "ks = key # ks'" using ks Some by (cases ks) auto
      then have d: "decode_all bs e1 = (ks' @ [Back], e)" using ks ks1 e2 Some by simp
      obtain row' s' where r: "settings_key key (row, settings_of w) = (row', s')" by fastforce
      have ok: "settings_ok (set_hw h w)" "up (uw_hw (set_hw h w))" using Cons.prems(1) p by simp_all
      from settings_turn[OF ok Cons.prems(4) False, of row' s'] r obtain w1 where w1: "row' < 3" "settings_ok w1" "up (uw_hw w1)"
        "received (uw_hw w1) = bs @ rest" "settings_of w1 = s'"
        "(case key of Up \<Rightarrow> draw_settings m fb (row_up SETTINGS_ROWS row) | Down \<Rightarrow> draw_settings m fb (row_down SETTINGS_ROWS row)
          | Left \<Rightarrow> io_bind (apply_change m row False) (\<lambda>_. draw_settings m fb row)
          | _ \<Rightarrow> io_bind (apply_change m row True) (\<lambda>_. draw_settings m fb row)) (set_hw h w) = (Inr (), w1)"
        using p(3) by auto
      have row': "row' = (case key of Up \<Rightarrow> row_up SETTINGS_ROWS row | Down \<Rightarrow> row_down SETTINGS_ROWS row | _ \<Rightarrow> row)"
        using r Cons.prems(4) False by (cases key) (auto simp: row_up_def row_down_def SETTINGS_ROWS_def mod_if)
      have "settings_loop m fb n row esc w = settings_loop m fb n' row' e1 w1"
        using w1(6) p(1) Some False unfolding row' n(1)
        by (cases key) (auto simp: io_bind_Inr io_bind_bind_Inr Let_def)
      with Cons.IH[OF w1(2,3,4,1) d _ n(2)] Cons.prems(6) show ?thesis by (simp add: ks' r w1(5))
    qed
  qed
qed simp

end

section \<open>Properties\<close>

text \<open>
  C25: the menu's selection follows the keys. On a working machine, whatever keys but Enter the user
  types, in whatever spelling, the menu after as many turns as bytes typed has taken them all, redrawn itself
  without a fault, and selects the entry that many steps down less those up from where it was, around
  the five entries.
\<close>

theorem menu_selection_follows_keys:
  assumes machine: "ui_machine m up sent received backlog fb"
    and w: "up (uw_hw w)" "received (uw_hw w) = concat (map snd typed)"
    and typed: "\<forall>(k, bs) \<in> set typed. bs \<in> set (spellings k) \<and> k \<noteq> Enter" and s: "s < length ITEMS"
  shows "\<exists>s' t' w'. menu_turns m fb (length (concat (map snd typed))) (s, 0, t) w = (Inr (s', 0, t'), w') \<and> s' < length ITEMS \<and>
    int s' = (int s + int (count_list (map fst typed) Down) - int (count_list (map fst typed) Up)) mod int (length ITEMS) \<and>
    received (uw_hw w') = []"
proof -
  have "\<forall>(k, bs) \<in> set typed. bs \<in> set (spellings k)" "Enter \<notin> set (map fst typed)" using typed by auto
  note d = decode_spellings[OF this(1)] and ne = this(2)
  have s5: "s < 5" using s by simp
  from ui_machine.turns_follow[OF machine w s5 d ne, of t] obtain t' w' where
    "menu_turns m fb (length (concat (map snd typed))) (s, 0, t) w = (Inr (fold moved (map fst typed) s, 0, t'), w')" "received (uw_hw w') = []"
    by blast
  moreover have "int (fold moved (map fst typed) s) =
      (int s + int (count_list (map fst typed) Down) - int (count_list (map fst typed) Up)) mod 5"
    by (rule fold_moved[OF s5])
  moreover from this have "fold moved (map fst typed) s < 5" by (metis pos_mod_bound zero_less_numeral of_nat_less_iff of_nat_numeral)
  ultimately show ?thesis by auto
qed

text \<open>
  C26: the settings screen does what its rows say and keeps cache and store together. On a working machine with no
  card mounted and room for the three variables, whatever the user types before going back, the screen
  returns with the settings that the keys give (up and down around the three rows, Enter and Right forward,
  Left backward), and reading the settings back from the variable store finds exactly them; changing a row
  forward and backward again restores it.
\<close>

theorem settings_screen_follows_keys:
  assumes machine: "ui_machine m up sent received backlog fb"
    and w: "up (uw_hw w)" "received (uw_hw w) = concat (map snd typed) @ leave @ rest" "settings_ok w"
    and typed: "\<forall>(k, bs) \<in> set typed. bs \<in> set (spellings k) \<and> k \<noteq> Back" and leave: "leave \<in> set (spellings Back)"
    and fuel: "length (concat (map snd typed) @ leave) \<le> mc_fuel m"
  shows "(\<exists>w'. run_settings m fb w = (Inr (), w') \<and>
      settings_of w' = snd (fold settings_key (map fst typed) (0, settings_of w)) \<and>
      settings_init (uw_store w') = (Inr (), uw_store w')) \<and>
    turned row False (turned row True s) = s"
proof -
  have t: "\<forall>(k, bs) \<in> set typed. bs \<in> set (spellings k)" "Back \<notin> set (map fst typed)" using typed by auto
  have d: "decode_all (concat (map snd typed) @ leave) 0 = (map fst typed @ [Back], 0)"
    by (simp add: decode_all_append decode_spellings[OF t(1)] decode_spelling[OF leave])
  have "screens_only up received (ui_seq [uart_line m (0x0A # ascii ''[menu] SETTINGS selected''), draw_settings m fb 0])"
    by (intro screens_seq) (simp add: ui_machine.shows_uart_line[OF machine] ui_machine.shows_settings[OF machine])
  with w(1) obtain w1 where w1: "ui_seq [uart_line m (0x0A # ascii ''[menu] SETTINGS selected''), draw_settings m fb 0] w = (Inr (), w1)"
      "screen_step up received w w1"
    unfolding screens_only_def by (metis (full_types) old.unit.exhaust)
  have ok: "settings_ok w1" "settings_of w1 = settings_of w" "up (uw_hw w1)" "received (uw_hw w1) = (concat (map snd typed) @ leave) @ rest"
    using settings_ok_step[OF w1(2)] screen_step_up[OF w1(2)] w by auto
  obtain w' where w': "settings_loop m fb (mc_fuel m) 0 0 w1 = (Inr (), w')" "settings_ok w'"
      "settings_of w' = snd (fold settings_key (map fst typed) (0, settings_of w))"
    using ui_machine.settings_loop_follows[OF machine ok(1,3,4) zero_less_numeral d t(2) fuel] ok(2) by auto
  have "run_settings m fb w = (Inr (), w')"
    using w1(1) w'(1) by (auto simp: run_settings_def io_bind_def io_return_def split: prod.splits sum.splits)
  moreover have "settings_init (uw_store w') = (Inr (), uw_store w')"
    using w'(2) settings_init_stored[of "uw_store w'"] by (simp add: settings_ok_def)
  ultimately show ?thesis using w'(3) turned_back(1) by blast
qed

section \<open>A terminal\<close>

interpretation term_ui: ui_machine term_machine "\<lambda>_. True" fst snd "\<lambda>_. 0" demo_fb
proof (unfold ui_machine_def ui_machine_axioms_def, intro conjI allI impI, goal_cases)
  case 1
  show ?case by (rule term_machine_line)
next
  case 6
  show ?case by (simp add: term_machine_def term_host_def line_size_def fb_size_def demo_fb_def)
qed (auto simp: term_machine_def term_host_def line_size_def fb_size_def demo_fb_def)

theorem menu_selection_follows_keys_witness:
  "\<exists>t' w'. menu_turns term_machine demo_fb 5 (0, 0, 0) (UI_INIT (\<lambda>_. 0) ([], [0x1B, 0x5B, 0x41, 0x6B, 0x6A])) = (Inr (4, 0, t'), w')"
proof -
  let ?w = "UI_INIT (\<lambda>_. 0) ([] :: u8 list, [0x1B, 0x5B, 0x41, 0x6B, 0x6A])"
    and ?t = "[(Up, [0x1B, 0x5B, 0x41]), (Up, [0x6B]), (Down, [0x6A])] :: (key \<times> u8 list) list"
  have w: "snd (uw_hw ?w) = concat (map snd ?t)" by (simp add: ui_init)
  have t: "\<forall>(k, bs) \<in> set ?t. bs \<in> set (spellings k) \<and> k \<noteq> Enter" by simp
  have "0 < length ITEMS" by simp
  note h = menu_selection_follows_keys[OF term_ui.ui_machine_axioms TrueI w t this, of 0]
  have n: "length (concat (map snd ?t)) = 5" "count_list (map fst ?t) Up = 2" "count_list (map fst ?t) Down = 1" by simp_all
  from h obtain s' t' w' where r: "menu_turns term_machine demo_fb 5 (0, 0, 0) ?w = (Inr (s', 0, t'), w')"
    and s': "int s' = (int 0 + int 1 - int 2) mod int (length ITEMS)" unfolding n by blast
  have "s' = 4" using s' by simp
  with r show ?thesis by blast
qed

lemma stored_empty: "stored_settings Map.empty = default_settings"
  by (simp add: stored_settings_def stored_byte_def default_settings_def from_byte_def)

lemma ui_init_ok: "settings_ok (UI_INIT ram h)" "settings_of (UI_INIT ram h) = default_settings"
proof -
  have "card (setting_key ` set setting_names) \<le> card (set setting_names)" by (rule card_image_le) simp
  also have "\<dots> \<le> length setting_names" by (rule card_length)
  finally have "card (setting_key ` set setting_names) \<le> MAX_VARIABLES" by (simp add: setting_names_def MAX_VARIABLES_def)
  then show "settings_ok (UI_INIT ram h)"
    by (simp add: settings_ok_def ui_init var_inv_init var_map_init settings_room_def stored_empty)
  show "settings_of (UI_INIT ram h) = default_settings" by (simp add: settings_of_def settings_get_def ui_init)
qed

theorem settings_screen_follows_keys_witness:
  "\<exists>w'. run_settings term_machine demo_fb (UI_INIT (\<lambda>_. 0) ([], [0x0D, 0x6A, 0x6C, 0x71])) = (Inr (), w') \<and>
     settings_of w' = \<lparr>verbose_boot = False, theme = Cyan, usb_enabled = True\<rparr>"
proof -
  let ?w = "UI_INIT (\<lambda>_. 0) ([] :: u8 list, [0x0D, 0x6A, 0x6C, 0x71])"
    and ?t = "[(Enter, [0x0D]), (Down, [0x6A]), (Right, [0x6C])] :: (key \<times> u8 list) list" and ?l = "[0x71] :: u8 list"
  have w: "snd (uw_hw ?w) = concat (map snd ?t) @ ?l @ []" by (simp add: ui_init)
  have t: "\<forall>(k, bs) \<in> set ?t. bs \<in> set (spellings k) \<and> k \<noteq> Back" by simp
  have l: "?l \<in> set (spellings Back)" by simp
  have f: "length (concat (map snd ?t) @ ?l) \<le> mc_fuel term_machine" by (simp add: term_machine_def)
  have e: "snd (fold settings_key (map fst ?t) (0, settings_of ?w)) = \<lparr>verbose_boot = False, theme = Cyan, usb_enabled = True\<rparr>"
    by (simp add: ui_init_ok(2) default_settings_def turned_def)
  from settings_screen_follows_keys[OF term_ui.ui_machine_axioms TrueI w ui_init_ok(1) t l f] show ?thesis unfolding e by blast
qed

end
