(* ===== verification/Ui_Start.thy ===== *)
theory Ui_Start
  imports Ui_Properties
begin

text \<open>
  Starting an image from the menu: LoadImage, HandleProtocol, the device handle and file path, the console,
  StartImage, composed. The property says in which state the image's entry point is called, and what
  is left of its effects when the menu has control again; \<open>full_name_boot_fails\<close> says for which file names
  the path is never reached.
\<close>

unbundle bit_operations_syntax

section \<open>Handles for the card and the console\<close>

lemma set_hw_boot [simp]:
  "bs_exited (set_hw h w) = bs_exited w" "bs_mem (set_hw h w) = bs_mem w" "bs_handles (set_hw h w) = bs_handles w"
  "bs_images (set_hw h w) = bs_images w" "bs_entry_points (set_hw h w) = bs_entry_points w"
  "uw_sd_handle (set_hw h w) = uw_sd_handle w" "uw_file_path (set_hw h w) = uw_file_path w"
  "uw_system_table (set_hw h w) = uw_system_table w"
  by (simp_all add: set_hw_def)

lemma sd_handle_runs:
  assumes "uw_sd_handle w \<noteq> None \<or> first_free h_in_use (bs_handles w) \<noteq> None"
  shows "\<exists>d hs media path. sd_handle m w = Inr (d, w\<lparr>bs_handles := hs, uw_media := media, uw_sd_path := path, uw_sd_handle := Some d\<rparr>) \<and>
    grows (bs_handles w) hs"
proof (cases "uw_sd_handle w")
  case (Some d)
  then show ?thesis
    by (intro exI[of _ d] exI[of _ "bs_handles w"] exI[of _ "uw_media w"] exI[of _ "uw_sd_path w"]) (simp add: sd_handle_def grows_refl)
next
  case None
  then obtain i where f: "first_free h_in_use (bs_handles w) = Some i" using assms by auto
  let ?hs = "bs_handles w" and ?new = "(bs_handles w)[i := EMPTY_HANDLE\<lparr>h_in_use := True\<rparr>]"
  have c: "find_or_create_handle ?hs 0 = Inr (Some i, ?new)" by (simp add: find_or_create_handle_def handle_to_index_def f)
  note g0 = create_grows[OF c]
  obtain r1 hs1 where h1: "db_install ?new i BLOCK_IO_PROTOCOL_GUID (mc_link m ''block_io::PROTO'') = Inr (r1, hs1)" "length hs1 = length ?hs"
    using install_returns[of i ?new BLOCK_IO_PROTOCOL_GUID "mc_link m ''block_io::PROTO''"] g0 by auto
  obtain r2 hs2 where h2: "db_install hs1 i SIMPLE_FILE_SYSTEM_PROTOCOL_GUID (mc_link m ''file_protocol::SFS_PROTO'') = Inr (r2, hs2)" "length hs2 = length ?hs"
    using install_returns[of i hs1 SIMPLE_FILE_SYSTEM_PROTOCOL_GUID "mc_link m ''file_protocol::SFS_PROTO''"] g0 h1 by auto
  obtain r3 hs3 where h3: "db_install hs2 i DEVICE_PATH_PROTOCOL_GUID (mc_link m ''SD_DEVICE_PATH'') = Inr (r3, hs3)"
    using install_returns[of i hs2 DEVICE_PATH_PROTOCOL_GUID "mc_link m ''SD_DEVICE_PATH''"] g0 h2 by auto
  have "grows ?hs hs3" using g0 install_grows h1(1) h2(1) h3 by blast
  then show ?thesis using None c h1 h2 h3 by (auto simp: sd_handle_def block_io_install_def file_install_def)
qed

lemma console_handle_runs: "\<exists>h hs. console_handle g p old db = Inr (h, hs) \<and> grows db hs"
proof (cases "old \<noteq> 0")
  case False
  obtain r hs0 where c: "find_or_create_handle db 0 = Inr (r, hs0)" "r = None \<Longrightarrow> hs0 = db"
  proof (cases "first_free h_in_use db")
    case None
    then show ?thesis by (intro that[of None db]) (simp_all add: find_or_create_handle_def handle_to_index_def)
  next
    case (Some i)
    then show ?thesis by (intro that[of "Some i"]) (simp_all add: find_or_create_handle_def handle_to_index_def)
  qed
  show ?thesis
  proof (cases r)
    case None
    then show ?thesis using c False by (simp add: console_handle_def grows_refl)
  next
    case (Some i)
    note g0 = create_grows[OF c(1)[unfolded Some]]
    then have "length hs0 = length db" by (simp add: grows_def)
    then obtain r1 hs1 where "db_install hs0 i g p = Inr (r1, hs1)" using install_returns[of i hs0 g p] g0 by auto
    then show ?thesis using c Some False g0 install_grows by (auto simp: console_handle_def)
  qed
qed (simp add: console_handle_def grows_refl)

lemma wire_console_runs:
  "\<exists>ev hs st. wire_console m fb w = Inr ((), w\<lparr>uw_events := ev, bs_handles := hs, uw_system_table := st\<rparr>) \<and> grows (bs_handles w) hs \<and>
     con_out st = mc_link m ''console::OUT_PROTO'' \<and> con_in st = mc_link m ''console::IN_PROTO''"
proof -
  let ?st = "(uw_system_table w)\<lparr>con_out := mc_link m ''console::OUT_PROTO'', con_in := mc_link m ''console::IN_PROTO''\<rparr>"
  obtain h1 hs1 where c1: "console_handle SIMPLE_TEXT_OUTPUT_PROTOCOL_GUID (mc_link m ''console::OUT_PROTO'') (console_out_handle ?st) (bs_handles w) = Inr (h1, hs1)"
    "grows (bs_handles w) hs1" using console_handle_runs by blast
  obtain h2 hs2 where c2: "console_handle SIMPLE_TEXT_INPUT_PROTOCOL_GUID (mc_link m ''console::IN_PROTO'') (console_in_handle ?st) hs1 = Inr (h2, hs2)"
    "grows hs1 hs2" using console_handle_runs by blast
  have "grows (bs_handles w) hs2" using c1(2) c2(2) by (rule grows_trans)
  moreover obtain ev st where "con_init (mc_link m ''console::OUT_PROTO'') (mc_link m ''console::IN_PROTO'') (Some fb) True (uw_kbd w)
      (uw_events w) (bs_handles w) (uw_system_table w) = Inr (ev, hs2, st)"
    "con_out st = mc_link m ''console::OUT_PROTO''" "con_in st = mc_link m ''console::IN_PROTO''"
    using c1(1) c2(1) by (simp add: con_init_def Let_def)
  ultimately show ?thesis by (auto simp: wire_console_def)
qed

section \<open>What the image finds\<close>

definition image_ready :: "'h machine \<Rightarrow> nat \<Rightarrow> loaded_pe \<Rightarrow> 'h ui_world \<Rightarrow> bool" where
  "image_ready m i lp v \<longleftrightarrow> i < MAX_HANDLES \<and> \<not> bs_exited v \<and> length (bs_images v) = MAX_HANDLES \<and> bs_entry_points v ! i = lp_entry_point lp \<and>
     index_of (bs_handles v) (handle_for_index i) = Inr (Some i) \<and>
     db_handle_protocol (bs_handles v) (handle_for_index i) LOADED_IMAGE_PROTOCOL_GUID = Inr (Some (lo_loaded_image (mc_layout m) i)) \<and>
     li_image_base (bs_images v ! i) = lp_image_base lp \<and> li_image_size (bs_images v ! i) = lp_image_size lp"

definition source_wired :: "'h machine \<Rightarrow> nat \<Rightarrow> u8 list \<Rightarrow> 'h ui_world \<Rightarrow> bool" where
  "source_wired m i name v \<longleftrightarrow> uw_sd_handle v = Some (li_device_handle (bs_images v ! i)) \<and>
     li_file_path (bs_images v ! i) = mc_link m ''FILE_PATH_BUF'' \<and>
     walk 2 (uw_file_path v) = Some [(TYPE_MEDIA, SUBTYPE_FILE_PATH, concat (map le16 (path_units name)))]"

definition console_wired :: "'h machine \<Rightarrow> 'h ui_world \<Rightarrow> bool" where
  "console_wired m v \<longleftrightarrow> con_out (uw_system_table v) = mc_link m ''console::OUT_PROTO'' \<and> con_in (uw_system_table v) = mc_link m ''console::IN_PROTO''"

lemmas start_state = image_ready_def source_wired_def console_wired_def

lemma start_state_step:
  assumes "screen_step up received v v'"
  shows "image_ready m i lp v' = image_ready m i lp v" "source_wired m i name v' = source_wired m i name v"
    "console_wired m v' = console_wired m v" "bs_handles v' = bs_handles v" "uw_sd_handle v' = uw_sd_handle v" "uw_file_path v' = uw_file_path v"
  using assms by (auto simp: screen_step_def start_state set_hw_def)

text \<open>The memory map stays and so does the memory, the framebuffer apart.\<close>

definition kept :: "framebuffer \<Rightarrow> 'h ui_world \<Rightarrow> 'h ui_world \<Rightarrow> bool" where
  "kept fb v v' \<longleftrightarrow> bs_mem v' = bs_mem v \<and> (\<forall>a. a \<notin> block (fb_ptr fb) (fb_size fb) \<longrightarrow> bs_ram v' a = bs_ram v a)"

lemma kept_trans: "kept fb a b \<Longrightarrow> kept fb b c \<Longrightarrow> kept fb a c"
  by (simp add: kept_def)

lemma kept_hw: "with_hw p v = (x, v') \<Longrightarrow> kept fb v v'"
  by (auto simp: kept_def with_hw_def set_hw_def split: prod.splits)

lemma kept_pause: "ui_verbose_pause m v = (x, v') \<Longrightarrow> kept fb v v'"
  by (auto simp: kept_def ui_verbose_pause_def io_bind_def ui_get_def ui_sleep_def io_return_def set_hw_def split: if_splits)

lemma kept_text:
  assumes "fb_ok fb" "draw (put_text fb x y s scale c) v = (u, v')"
  shows "kept fb v v'"
proof -
  have "draw_text fb x y cs scale c ram a = ram a" if a: "a \<notin> block (fb_ptr fb) (fb_size fb)" for cs ram a
  proof -
    have ch: "draw_char fb x' y ch scale c ram a = ram a" for x' ch ram
    proof -
      have "fold (\<lambda>(col, row). fill_rect fb (x' + col * scale) (y + row * scale) scale scale c) ps ram a = ram a" for ps
        by (induction ps arbitrary: ram) (auto simp: fill_rect_outside[OF assms(1) a])
      then show ?thesis by (simp add: draw_char_def)
    qed
    have "fold (\<lambda>(i, ch). draw_char fb (f i) y ch scale c) ps ram a = ram a" for ps and f :: "nat \<Rightarrow> u32"
      by (induction ps arbitrary: ram) (auto simp: ch)
    then show ?thesis by (simp add: draw_text_def Let_def)
  qed
  then show ?thesis using assms(2) by (auto simp: kept_def draw_def put_text_def)
qed

lemma kept_line: "uart_line m s v = (x, v') \<Longrightarrow> kept fb v v'"
  unfolding uart_line_def by (rule kept_hw)

lemma kept_flush: "ui_flush m fb' v = (x, v') \<Longrightarrow> kept fb v v'"
  unfolding ui_flush_def by (rule kept_hw)

text \<open>The machine as the image left it, with the line of the menu about its return.\<close>

definition returned :: "('h \<Rightarrow> bool) \<Rightarrow> ('h \<Rightarrow> u8 list) \<Rightarrow> ('h \<Rightarrow> u8 list) \<Rightarrow> efi_status \<Rightarrow> 'h ui_world \<Rightarrow> 'h ui_world \<Rightarrow> bool" where
  "returned up sent received status v2 v' \<longleftrightarrow> (\<exists>h. v' = set_hw h v2 \<and> up h \<and> received h = received (uw_hw v2) \<and>
     sent h = sent (uw_hw v2) @ concat (map (\<lambda>b. if b = 0x0A then [0x0D, 0x0A] else [b])
       ((0x0A # ascii ''  --- back from StartImage: status=0x'' @ hex (unat status) @ ascii '' ---'') @ [0x0A])))"

lemma image_ready_grows:
  assumes "image_ready m i lp v" "grows (bs_handles v) hs"
  shows "index_of hs (handle_for_index i) = Inr (Some i)"
    "db_handle_protocol hs (handle_for_index i) LOADED_IMAGE_PROTOCOL_GUID = Inr (Some (lo_loaded_image (mc_layout m) i))"
  using grows_lookup[OF assms(2), of "handle_for_index i" i] assms(1) by (simp_all add: image_ready_def)

lemma set_image_source_runs:
  assumes v: "image_ready m i lp v" "length (uw_file_path v) = MAX_FILE_PATH_BYTES"
    and sd: "uw_sd_handle v \<noteq> None \<or> first_free h_in_use (bs_handles v) \<noteq> None"
    and name: "length name = 11" "0x20 \<in> set name"
  shows "\<exists>v'. set_image_source m name i v = Inr ((), v') \<and> uw_hw v' = uw_hw v \<and> image_ready m i lp v' \<and> source_wired m i name v' \<and>
    kept fb v v'"
proof -
  obtain d hs media path where s: "sd_handle m v = Inr (d, v\<lparr>bs_handles := hs, uw_media := media, uw_sd_path := path, uw_sd_handle := Some d\<rparr>)"
    "grows (bs_handles v) hs" using sd_handle_runs[OF sd] by blast
  obtain buf where b: "build_file_path name (uw_file_path v) = Inr buf"
    "walk 2 buf = Some [(TYPE_MEDIA, SUBTYPE_FILE_PATH, concat (map le16 (path_units name)))]"
    using file_path_walks[OF name v(2)] by blast
  show ?thesis using v(1) image_ready_grows[OF v(1) s(2)] by (auto simp: set_image_source_def s b Let_def start_state kept_def)
qed

text \<open>A file whose name fills all eleven characters cannot be booted: the menu panics while it records where the image came from.\<close>

lemma full_name_boot_fails:
  assumes "length name = 11" "0x20 \<notin> set name" "sd_handle m v = Inr (d, v')"
  shows "set_image_source m name i v = Inl Panic"
  using full_name_panics[OF assms(1,2)] by (simp add: set_image_source_def assms(3) Let_def)

text \<open>Programs that run in a row.\<close>

lemma ui_seq_Cons: "p w = (Inr (), w1) \<Longrightarrow> ui_seq (p # ps) w = ui_seq ps w1"
  by (simp add: io_bind_def)

lemma ui_call_Inr: "f w = Inr (x, w') \<Longrightarrow> ui_call f w = (Inr x, w')"
  by (simp add: ui_call_def)

context ui_machine
begin

lemma uart_line_step:
  assumes "up (uw_hw w)"
  shows "\<exists>h. uart_line m s w = (Inr (), set_hw h w) \<and> up h \<and> received h = received (uw_hw w) \<and>
    sent h = sent (uw_hw w) @ concat (map (\<lambda>b. if b = 0x0A then [0x0D, 0x0A] else [b]) (s @ [0x0A]))"
proof -
  from puts_sends[OF assms, of "s @ [0x0A]", where 'e = unit] obtain h where
    "uart_puts (mc_host m) (mc_fuel m) (s @ [0x0A]) (uw_hw w) = (Inr () :: unit fault + unit, h)" "up h" "received h = received (uw_hw w)"
    "sent h = sent (uw_hw w) @ concat (map (\<lambda>b. if b = 0x0A then [0x0D, 0x0A] else [b]) (s @ [0x0A]))"
    by blast
  then show ?thesis by (intro exI[of _ h]) (simp add: uart_line_def with_hw_def)
qed

lemma displays_run:
  assumes "displays (p :: ('h, unit) ui_io)" "up (uw_hw w)"
  shows "\<exists>w'. p w = (Inr (), w') \<and> screen_step up received w w'"
  using assms unfolding screens_only_def by (metis (full_types) old.unit.exhaust)

lemma shows_pause: "displays (ui_verbose_pause m)"
  unfolding ui_verbose_pause_def by (intro shows_intros)

lemma wire_image_runs:
  assumes v: "image_ready m i lp v" "up (uw_hw v)" "length (uw_file_path v) = MAX_FILE_PATH_BYTES"
    and sd: "uw_sd_handle v \<noteq> None \<or> first_free h_in_use (bs_handles v) \<noteq> None"
    and name: "length name = 11" "0x20 \<in> set name"
    and lo: "image_at (mc_layout m) (lo_loaded_image (mc_layout m) i) = Some i" "lo_loaded_image (mc_layout m) i \<noteq> 0"
  shows "\<exists>v'. wire_image m name (handle_for_index i) v = (Inr (), v') \<and> up (uw_hw v') \<and> image_ready m i lp v' \<and> source_wired m i name v' \<and>
    kept fb v v'"
proof -
  have p: "call_handle_protocol (handle_for_index i) v = (Inr (EFI_SUCCESS, lo_loaded_image (mc_layout m) i), v)"
    using v(1) by (simp add: call_handle_protocol_def ui_call_def handle_protocol_def image_ready_def)
  obtain h where h: "uart_line m (ascii ''  HandleProtocol(LOADED_IMAGE) -> base='' @ pointer (li_image_base (bs_images v ! i)) @
      ascii '' size='' @ dec (unat (li_image_size (bs_images v ! i)))) v = (Inr (), set_hw h v)" "up h"
    using uart_line_step[OF v(2)] by blast
  have ready: "image_ready m i lp (set_hw h v)" using v(1) by (simp add: image_ready_def)
  obtain v' where v': "set_image_source m name i (set_hw h v) = Inr ((), v')" "uw_hw v' = h" "image_ready m i lp v'" "source_wired m i name v'"
    "kept fb (set_hw h v) v'"
    using set_image_source_runs[OF ready _ _ name, of fb] v(3) sd by auto
  have "wire_image m name (handle_for_index i) v = (Inr (), v')"
    using h(1) v'(1) unfolding wire_image_def
    by (simp add: io_bind_def p lo ui_get_def ui_call_def io_return_def)
  then show ?thesis using v' h(2) kept_trans[OF kept_line[OF h(1)] v'(5)] by auto
qed

lemma start_app_runs:
  assumes v: "image_ready m i lp v" "source_wired m i name v" "up (uw_hw v)" and entry: "lp_entry_point lp \<noteq> 0" and fb: "fb_ok fb"
    and app: "\<And>e h st u. up (uw_hw u) \<Longrightarrow> up (uw_hw (snd (mc_entry m e h st u)))"
  shows "\<exists>v1 status v2 v'. start_app m fb y (handle_for_index i) v = (Inr (), v') \<and>
    mc_entry m (lp_entry_point lp) (handle_for_index i) (lo_system_table (mc_layout m)) v1 = (status, v2) \<and>
    image_ready m i lp v1 \<and> source_wired m i name v1 \<and> console_wired m v1 \<and> kept fb v v1 \<and> returned up sent received status v2 v'"
proof -
  let ?s1 = "ascii ''  SystemTable @ '' @ pointer (mc_link m ''SYSTEM_TABLE'') @ ascii '' (should match S: printed by the app below)''"
    and ?d = "draw (put_text fb (CONTENT_X + 20) (y + line_height 2) (ascii ''STARTING IMAGE (OUTPUT BELOW IS FROM THE APP ITSELF):'') 2 DIM) :: ('h, unit) ui_io"
  obtain va where va: "uart_line m ?s1 v = (Inr (), va)" "screen_step up received v va"
    using displays_run[OF shows_uart_line v(3)] by blast
  obtain vb where vb: "?d va = (Inr (), vb)" "screen_step up received va vb"
    using displays_run[OF screens_draw] screen_step_up[OF va(2)] by blast
  obtain vc where vc: "ui_flush m fb vb = (Inr (), vc)" "screen_step up received vb vc"
    using displays_run[OF shows_flush] screen_step_up[OF vb(2)] by blast
  have sc: "screen_step up received v vc" using va(2) vb(2) vc(2) by (blast intro: screen_step_trans)
  have c: "image_ready m i lp vc" "source_wired m i name vc" "up (uw_hw vc)"
    using start_state_step[OF sc] screen_step_up[OF sc] v by simp_all
  obtain ev hs st where w: "wire_console m fb vc = Inr ((), vc\<lparr>uw_events := ev, bs_handles := hs, uw_system_table := st\<rparr>)"
    "grows (bs_handles vc) hs" "con_out st = mc_link m ''console::OUT_PROTO''" "con_in st = mc_link m ''console::IN_PROTO''"
    using wire_console_runs by blast
  let ?vd = "vc\<lparr>uw_events := ev, bs_handles := hs, uw_system_table := st\<rparr>"
  have d: "image_ready m i lp ?vd" "source_wired m i name ?vd" "console_wired m ?vd" "up (uw_hw ?vd)"
    using c w(3,4) image_ready_grows[OF c(1) w(2)] by (simp_all add: start_state)
  obtain h where h: "uart_line m (ascii ''  --- entering StartImage ---'') ?vd = (Inr (), set_hw h ?vd)" "up h"
    using uart_line_step[OF d(4)] by blast
  let ?v1 = "set_hw h ?vd"
  have ready: "image_ready m i lp ?v1" "source_wired m i name ?v1" "console_wired m ?v1"
    using d by (simp_all only: start_state set_hw_boot simp_thms)
  obtain status v2 where e: "mc_entry m (lp_entry_point lp) (handle_for_index i) (lo_system_table (mc_layout m)) ?v1 = (status, v2)" by fastforce
  have start: "start_image (mc_layout m) (mc_entry m) (handle_for_index i) ?v1 = Inr (status, v2)"
    using ready(1) entry e by (simp add: start_image_def image_ready_def Let_def del: set_hw_boot)
  have "up (uw_hw v2)" using app[of ?v1] h(2) e by (metis snd_conv uw_hw_set_hw)
  then obtain v' where v': "uart_line m (0x0A # ascii ''  --- back from StartImage: status=0x'' @ hex (unat status) @ ascii '' ---'') v2 = (Inr (), v')"
    "returned up sent received status v2 v'" using uart_line_step unfolding returned_def by blast
  have "start_app m fb y (handle_for_index i) v = (Inr (), v')"
    unfolding start_app_def
    by (simp add: io_bind_Inr va(1) vb(1) vc(1) ui_call_Inr[where f = "wire_console m fb", OF w(1)] h(1) io_return_apply
        ui_call_Inr[where f = "start_image (mc_layout m) (mc_entry m) (handle_for_index i)", OF start] v'(1))
  moreover have "kept fb v vc"
    using kept_trans[OF kept_trans[OF kept_line[OF va(1)] kept_text[OF fb vb(1)]] kept_flush[OF vc(1)]] .
  then have "kept fb v ?v1" by (simp add: kept_def set_hw_def)
  ultimately show ?thesis using e ready v'(2) by blast
qed

lemma run_app_runs:
  assumes w: "up (uw_hw w)" "\<not> bs_exited w" "db_inv (bs_handles w)" "first_free h_in_use (bs_handles w) = Some i"
      "length (bs_images w) = MAX_HANDLES" "length (bs_entry_points w) = MAX_HANDLES" "length (uw_file_path w) = MAX_FILE_PATH_BYTES"
    and sd: "uw_sd_handle w \<noteq> None \<or> card (live h_in_use (bs_handles w)) + 2 \<le> MAX_HANDLES"
    and args: "mc_link m ''LOAD_BUFFER'' \<noteq> 0" "n \<noteq> 0"
    and load: "pe_load (mc_fuel m) (load_bytes (bs_ram w) (mc_link m ''LOAD_BUFFER'') n) \<lparr>pe_mem = bs_mem w, pe_ram = bs_ram w\<rparr> = (Inr lp, p)"
    and entry: "lp_entry_point lp \<noteq> 0" and name: "length name = 11" "0x20 \<in> set name" and fb: "fb_ok fb"
    and lo: "image_at (mc_layout m) (lo_loaded_image (mc_layout m) i) = Some i" "lo_loaded_image (mc_layout m) i \<noteq> 0"
    and app: "\<And>e h st u. up (uw_hw u) \<Longrightarrow> up (uw_hw (snd (mc_entry m e h st u)))"
  shows "\<exists>v1 status v2 v'. run_app m fb name y n w = (Inr (), v') \<and>
    mc_entry m (lp_entry_point lp) (handle_for_index i) (lo_system_table (mc_layout m)) v1 = (status, v2) \<and>
    image_ready m i lp v1 \<and> source_wired m i name v1 \<and> console_wired m v1 \<and>
    bs_mem v1 = pe_mem p \<and> (\<forall>a. a \<notin> block (fb_ptr fb) (fb_size fb) \<longrightarrow> bs_ram v1 a = pe_ram p a) \<and> returned up sent received status v2 v'"
proof -
  obtain h where h: "uart_line m (ascii ''  read '' @ dec n @ ascii '' bytes from SD'') w = (Inr (), set_hw h w)" "up h"
    using uart_line_step[OF w(1)] by blast
  let ?w = "set_hw h w" and ?new = "(bs_handles w)[i := EMPTY_HANDLE\<lparr>h_in_use := True\<rparr>]"
  let ?img = "EMPTY_LOADED_IMAGE\<lparr>li_parent_handle := 0, li_system_table := lo_system_table (mc_layout m),
    li_image_base := lp_image_base lp, li_image_size := lp_image_size lp\<rparr>"
  have pre: "\<not> bs_exited ?w" "db_inv (bs_handles ?w)" "first_free h_in_use (bs_handles ?w) = Some i"
    "length (bs_images ?w) = MAX_HANDLES" "length (bs_entry_points ?w) = MAX_HANDLES" using w by simp_all
  have load': "pe_load (mc_fuel m) (load_bytes (bs_ram ?w) (mc_link m ''LOAD_BUFFER'') n) \<lparr>pe_mem = bs_mem ?w, pe_ram = bs_ram ?w\<rparr> = (Inr lp, p)"
    using load by simp
  obtain hs where hs: "load_image (mc_layout m) (mc_fuel m) 0 (mc_link m ''LOAD_BUFFER'') n (Some 0) ?w = Inr (EFI_SUCCESS, Some (handle_for_index i),
      ?w\<lparr>bs_mem := pe_mem p, bs_ram := pe_ram p, bs_handles := hs, bs_images := (bs_images ?w)[i := ?img],
        bs_entry_points := (bs_entry_points ?w)[i := lp_entry_point lp]\<rparr>)"
    "db_install ?new i LOADED_IMAGE_PROTOCOL_GUID (lo_loaded_image (mc_layout m) i) = Inr (True, hs)"
    "i < MAX_HANDLES" "index_of hs (handle_for_index i) = Inr (Some i)"
    "db_handle_protocol hs (handle_for_index i) LOADED_IMAGE_PROTOCOL_GUID = Inr (Some (lo_loaded_image (mc_layout m) i))"
    using load_image_runs[OF pre args load', of "mc_layout m" 0 0] by auto
  let ?wb = "?w\<lparr>bs_mem := pe_mem p, bs_ram := pe_ram p, bs_handles := hs, bs_images := (bs_images ?w)[i := ?img],
        bs_entry_points := (bs_entry_points ?w)[i := lp_entry_point lp]\<rparr>"
  have li: "call_load_image m (mc_link m ''LOAD_BUFFER'') n ?w = (Inr (EFI_SUCCESS, handle_for_index i), ?wb)"
    by (simp add: call_load_image_def ui_call_def hs(1))
  have live: "live h_in_use hs = live h_in_use ?new"
    using hs(2) by (auto simp: db_install_def live_def nth_list_update split: if_splits option.splits)
  have room: "uw_sd_handle ?wb \<noteq> None \<or> first_free h_in_use (bs_handles ?wb) \<noteq> None"
  proof (cases "uw_sd_handle w")
    case None
    have "length hs = MAX_HANDLES" using db_install_inv[OF _ hs(2)] find_or_create_inv[OF w(3), of 0 "Some i" ?new] w(4)
      by (simp add: db_inv_def find_or_create_handle_def handle_to_index_def)
    moreover have "card (live h_in_use hs) = Suc (card (live h_in_use (bs_handles w)))"
      unfolding live by (rule handle_slots.card_live_take[OF w(4)]) simp
    ultimately have "card (live h_in_use hs) < length hs" using sd None by simp
    then show ?thesis using handle_slots.first_free_exists by auto
  qed (simp add: set_hw_def)
  have ready: "image_ready m i lp ?wb" using hs(3,4,5) w by (simp add: image_ready_def)
  have upb: "up (uw_hw ?wb)" using h(2) by (simp add: set_hw_def)
  obtain wc where wc: "uart_line m (ascii ''  LoadImage -> status=0x'' @ hex (unat EFI_SUCCESS) @ ascii '' handle='' @ pointer (handle_for_index i)) ?wb = (Inr (), wc)"
    "screen_step up received ?wb wc" using displays_run[OF shows_uart_line upb] by blast
  let ?ds = "[draw (put_text fb (CONTENT_X + 20) (y + line_height 2) (ascii ''LOADIMAGE OK -- PE PARSED AND RELOCATED.'') 2 FG), ui_flush m fb, ui_verbose_pause m]"
  have upc: "up (uw_hw wc)" using screen_step_up[OF wc(2)] by blast
  obtain wd where wd: "(?ds ! 0) wc = (Inr (), wd)" "screen_step up received wc wd"
    using displays_run[OF screens_draw upc] by auto
  obtain we where we: "ui_flush m fb wd = (Inr (), we)" "screen_step up received wd we"
    using displays_run[OF shows_flush] screen_step_up[OF wd(2)] by blast
  obtain wf where wf: "ui_verbose_pause m we = (Inr (), wf)" "screen_step up received we wf"
    using displays_run[OF shows_pause] screen_step_up[OF we(2)] by blast
  have bf: "screen_step up received ?wb wf" using wc(2) wd(2) we(2) wf(2) by (blast intro: screen_step_trans)
  have f: "image_ready m i lp wf" "up (uw_hw wf)" "length (uw_file_path wf) = MAX_FILE_PATH_BYTES"
    "uw_sd_handle wf \<noteq> None \<or> first_free h_in_use (bs_handles wf) \<noteq> None"
    using start_state_step[OF bf] screen_step_up[OF bf] ready room w(7) by (simp_all add: set_hw_def)
  obtain wg where wg: "wire_image m name (handle_for_index i) wf = (Inr (), wg)" "up (uw_hw wg)" "image_ready m i lp wg" "source_wired m i name wg" "kept fb wf wg"
    using wire_image_runs[OF f name lo] by blast
  obtain v1 status v2 v' where st: "start_app m fb (y + line_height 2) (handle_for_index i) wg = (Inr (), v')"
    "mc_entry m (lp_entry_point lp) (handle_for_index i) (lo_system_table (mc_layout m)) v1 = (status, v2)"
    "image_ready m i lp v1" "source_wired m i name v1" "console_wired m v1" "kept fb wg v1" "returned up sent received status v2 v'"
    using start_app_runs[OF wg(3,4,2) entry fb app] by blast
  have "run_app m fb name y n w = (Inr (), v')"
    using wc(1) wd(1) we(1) wf(1) wg(1) st(1) unfolding run_app_def
    by (simp add: io_bind_Inr h(1) li io_return_apply Let_def)
  moreover have "kept fb ?wb wf"
    using kept_trans[OF kept_trans[OF kept_trans[OF kept_line[OF wc(1)] kept_text[OF fb wd(1)[unfolded nth_Cons_0]]]
      kept_flush[OF we(1)]] kept_pause[OF wf(1)]] .
  then have "kept fb ?wb v1" using kept_trans[OF kept_trans[OF _ wg(5)] st(6)] by blast
  then have "bs_mem v1 = pe_mem p \<and> (\<forall>a. a \<notin> block (fb_ptr fb) (fb_size fb) \<longrightarrow> bs_ram v1 a = pe_ram p a)" by (simp add: kept_def)
  ultimately show ?thesis using st by blast
qed

end

section \<open>The boot path\<close>

lemma hex_no_newline: "0x0A \<notin> set (hex n)"
  unfolding hex_def
proof (induction n rule: less_induct)
  case (less n)
  have "\<forall>k \<in> {..<16}. digit 0x61 k \<noteq> 0x0A" by code_simp
  then have d: "digit 0x61 (n mod 16) \<noteq> 0x0A" by simp
  show ?case using less[of "n div 16"] d by (cases "n < 16") (auto simp: radix.simps[of 16 _ n])
qed

text \<open>
  C23: the boot path hands over properly. When LOAD_BUFFER holds a file the loader accepts, whose 8.3 name has at
  least one blank (a name that fills all eleven characters panics, see \<open>full_name_boot_fails\<close>), and there is
  room for the handles, the menu loads it and calls its entry point with its own image handle and the system
  table. The image finds memory and memory map as the loader left them, except for the screen; HandleProtocol on its
  handle finds its record, which names its base and size, the card's handle as its device and the static buffer with a
  file path that walks to the file it came from; and the system table's console is wired. When the image returns,
  which is assumed to leave the serial line working, the machine is as the image left it, with one line more on the serial line, that says with which status it returned.
\<close>

theorem boot_starts_image:
  assumes machine: "ui_machine m up sent received backlog fb"
    and w: "up (uw_hw w)" "\<not> bs_exited w" "db_inv (bs_handles w)" "first_free h_in_use (bs_handles w) = Some i"
      "length (bs_images w) = MAX_HANDLES" "length (bs_entry_points w) = MAX_HANDLES" "length (uw_file_path w) = MAX_FILE_PATH_BYTES"
    and sd: "uw_sd_handle w \<noteq> None \<or> card (live h_in_use (bs_handles w)) + 2 \<le> MAX_HANDLES"
    and args: "mc_link m ''LOAD_BUFFER'' \<noteq> 0" "n \<noteq> 0"
    and load: "pe_load (mc_fuel m) (load_bytes (bs_ram w) (mc_link m ''LOAD_BUFFER'') n) \<lparr>pe_mem = bs_mem w, pe_ram = bs_ram w\<rparr> = (Inr lp, p)"
    and entry: "lp_entry_point lp \<noteq> 0" and name: "length name = 11" "0x20 \<in> set name" and fb: "fb_ok fb"
    and lo: "image_at (mc_layout m) (lo_loaded_image (mc_layout m) i) = Some i" "lo_loaded_image (mc_layout m) i \<noteq> 0"
    and app: "\<And>e h st u. up (uw_hw u) \<Longrightarrow> up (uw_hw (snd (mc_entry m e h st u)))"
  shows "\<exists>v1 status v2 v'. run_app m fb name y n w = (Inr (), v') \<and>
    mc_entry m (lp_entry_point lp) (handle_for_index i) (lo_system_table (mc_layout m)) v1 = (status, v2) \<and>
    db_handle_protocol (bs_handles v1) (handle_for_index i) LOADED_IMAGE_PROTOCOL_GUID = Inr (Some (lo_loaded_image (mc_layout m) i)) \<and>
    bs_mem v1 = pe_mem p \<and> (\<forall>a. a \<notin> block (fb_ptr fb) (fb_size fb) \<longrightarrow> bs_ram v1 a = pe_ram p a) \<and>
    li_image_base (bs_images v1 ! i) = lp_image_base lp \<and> li_image_size (bs_images v1 ! i) = lp_image_size lp \<and>
    li_file_path (bs_images v1 ! i) = mc_link m ''FILE_PATH_BUF'' \<and>
    uw_sd_handle v1 = Some (li_device_handle (bs_images v1 ! i)) \<and>
    walk 2 (uw_file_path v1) = Some [(TYPE_MEDIA, SUBTYPE_FILE_PATH, concat (map le16 (path_units name)))] \<and>
    con_out (uw_system_table v1) = mc_link m ''console::OUT_PROTO'' \<and> con_in (uw_system_table v1) = mc_link m ''console::IN_PROTO'' \<and>
    (\<exists>h. v' = set_hw h v2 \<and> received h = received (uw_hw v2) \<and>
       sent h = sent (uw_hw v2) @ [0x0D, 0x0A] @ ascii ''  --- back from StartImage: status=0x'' @ hex (unat status) @ ascii '' ---'' @ [0x0D, 0x0A])"
proof -
  obtain v1 status v2 v' where r: "run_app m fb name y n w = (Inr (), v')"
    "mc_entry m (lp_entry_point lp) (handle_for_index i) (lo_system_table (mc_layout m)) v1 = (status, v2)"
    "image_ready m i lp v1" "source_wired m i name v1" "console_wired m v1"
    "bs_mem v1 = pe_mem p" "\<forall>a. a \<notin> block (fb_ptr fb) (fb_size fb) \<longrightarrow> bs_ram v1 a = pe_ram p a" "returned up sent received status v2 v'"
    using ui_machine.run_app_runs[OF machine w sd args load entry name fb lo app] by blast
  have id: "concat (map (\<lambda>b. if b = 0x0A then [0x0D, 0x0A] else [b]) bs) = bs" if "0x0A \<notin> set bs" for bs :: "u8 list"
    using that by (induction bs) auto
  have "0x0A \<notin> set (ascii ''  --- back from StartImage: status=0x'')" "0x0A \<notin> set (ascii '' ---'')" by code_simp+
  moreover have "0x0A \<notin> set (hex (unat status))" using hex_no_newline by blast
  ultimately have "\<exists>h. v' = set_hw h v2 \<and> received h = received (uw_hw v2) \<and>
       sent h = sent (uw_hw v2) @ [0x0D, 0x0A] @ ascii ''  --- back from StartImage: status=0x'' @ hex (unat status) @ ascii '' ---'' @ [0x0D, 0x0A]"
    using r(8) unfolding returned_def by (auto simp: id)
  with r(1-7) show ?thesis
    by (intro exI[of _ v1] exI[of _ status] exI[of _ v2] exI[of _ v'] conjI) (simp_all only: start_state)
qed

definition loaded_ui :: "(u8 list \<times> u8 list) ui_world" where
  "loaded_ui = (UI_INIT (store_at 0x90000 (small_pe 0x20) (\<lambda>_. 0)) ([], []))\<lparr>bs_mem := \<lparr>next_free_page = 0x100000, generation = 5\<rparr>\<rparr>"

theorem boot_starts_image_witness:
  "\<exists>v1 status v2 v'. run_app term_machine demo_fb [0x48, 0x45, 0x4C, 0x4C, 0x4F, 0x20, 0x20, 0x20, 0x45, 0x46, 0x49] 0 244 loaded_ui = (Inr (), v') \<and>
     mc_entry term_machine 0x100010 1 (lo_system_table demo_layout) v1 = (status, v2) \<and> li_image_base (bs_images v1 ! 0) = 0x100000"
proof -
  let ?w = loaded_ui and ?name = "[0x48, 0x45, 0x4C, 0x4C, 0x4F, 0x20, 0x20, 0x20, 0x45, 0x46, 0x49] :: u8 list"
  have bytes: "load_bytes (store_at 0x90000 (small_pe 0x20) (\<lambda>_. 0)) 0x90000 244 = small_pe 0x20"
    by (rule load_store_same) (simp_all add: small_pe_fields(1))
  have w: "True" "\<not> bs_exited ?w" "db_inv (bs_handles ?w)" "length (bs_images ?w) = MAX_HANDLES" "length (bs_entry_points ?w) = MAX_HANDLES"
    "length (uw_file_path ?w) = MAX_FILE_PATH_BYTES" by (simp_all add: loaded_ui_def ui_init db_inv_init)
  have free: "first_free h_in_use (bs_handles ?w) = Some 0"
    by (simp add: first_free_def loaded_ui_def ui_init HANDLES_INIT_def MAX_HANDLES_def numeral_eq_Suc EMPTY_HANDLE_def)
  have "live h_in_use (bs_handles ?w) = {}" by (simp add: loaded_ui_def ui_init HANDLES_INIT_def live_def EMPTY_HANDLE_def)
  then have sd: "uw_sd_handle ?w \<noteq> None \<or> card (live h_in_use (bs_handles ?w)) + 2 \<le> MAX_HANDLES" by (simp add: MAX_HANDLES_def)
  have fb: "fb_ok demo_fb" by (simp add: fb_ok_def demo_fb_def fb_size_def)
  have m: "mc_fuel term_machine = 40000" "mc_link term_machine ''LOAD_BUFFER'' = 0x90000" "mc_layout term_machine = demo_layout"
    by (simp_all add: term_machine_def)
  have b: "bs_mem ?w = \<lparr>next_free_page = 0x100000, generation = 5\<rparr>" "bs_ram ?w = store_at 0x90000 (small_pe 0x20) (\<lambda>_. 0)"
    by (simp_all add: loaded_ui_def ui_init)
  have load: "pe_load (mc_fuel term_machine) (load_bytes (bs_ram ?w) (mc_link term_machine ''LOAD_BUFFER'') 244) \<lparr>pe_mem = bs_mem ?w, pe_ram = bs_ram ?w\<rparr> =
      (Inr \<lparr>lp_image_base = 0x100000, lp_image_size = 0x1000, lp_entry_point = 0x100010\<rparr>, p)"
    if p: "p = snd (pe_load 40000 (small_pe 0x20) \<lparr>pe_mem = bs_mem ?w, pe_ram = bs_ram ?w\<rparr>)" for p
    using pe_load_spec[OF small_pe_header(1)[of "0x20"], of "\<lparr>pe_mem = bs_mem ?w, pe_ram = bs_ram ?w\<rparr>" "0x100000" _ 40000] p
    by (simp add: m b bytes small_pe_header small_pe_section small_alloc small_pe_fields le_simps)
  have lo: "image_at (mc_layout term_machine) (lo_loaded_image (mc_layout term_machine) 0) = Some 0" "lo_loaded_image (mc_layout term_machine) 0 \<noteq> 0"
  proof -
    have "[0..<MAX_HANDLES] = 0 # [1..<MAX_HANDLES]" by (simp add: upt_conv_Cons MAX_HANDLES_def)
    then show "image_at (mc_layout term_machine) (lo_loaded_image (mc_layout term_machine) 0) = Some 0" by (simp add: image_at_def)
    show "lo_loaded_image (mc_layout term_machine) 0 \<noteq> 0" by (simp add: m demo_layout_def)
  qed
  note b = boot_starts_image[OF term_ui.ui_machine_axioms w(1,2,3) free w(4,5,6) sd _ _ load[OF refl] _ _ _ fb lo, of ?name 0]
  show ?thesis using b by (force simp: m handle_for_index_def index_to_handle_def)
qed

end
