(* ===== verification/Exceptions.thy ===== *)
theory Exceptions
  imports Ui Timer
begin

text \<open>
  \<^verbatim>\<open>src/src/exceptions.rs\<close>, \<^verbatim>\<open>src/src/irq.rs\<close> and \<^verbatim>\<open>src/src/local_intc.rs\<close>: what the vectors of \<^verbatim>\<open>vectors.s\<close>
  call. The interrupt handler reads the pending sources and passes a timer interrupt on to \<open>Timer\<close>;
  the handler of every other vector prints a report and halts: a loop without end, which is out of fuel for every fuel.
\<close>

unbundle bit_operations_syntax

section \<open>Interrupts\<close>

definition CORE0_TIMER_IRQCNTL :: u64 where "CORE0_TIMER_IRQCNTL = LOCAL_BASE + 0x40"
definition CORE0_IRQ_SOURCE :: u64 where "CORE0_IRQ_SOURCE = LOCAL_BASE + 0x60"
definition CNTPNSIRQ :: u32 where "CNTPNSIRQ = push_bit 1 1"

definition enable_core0_timer_irq :: "('h, 'x) sd_host_scheme \<Rightarrow> 'h \<Rightarrow> 'h" where
  "enable_core0_timer_irq host h = mmio_write host CORE0_TIMER_IRQCNTL CNTPNSIRQ h"

definition core0_irq_source :: "('h, 'x) sd_host_scheme \<Rightarrow> 'h \<Rightarrow> u32 \<times> 'h" where
  "core0_irq_source host h = mmio_read host CORE0_IRQ_SOURCE h"

definition rust_irq_handler :: "('h, 'x) sd_host_scheme \<Rightarrow> timer_state \<times> 'h \<Rightarrow> timer_state \<times> 'h" where
  "rust_irq_handler host = (\<lambda>(t, h).
     case core0_irq_source host h of (source, h) \<Rightarrow> (if source AND CNTPNSIRQ \<noteq> 0 then on_tick t else t, h))"

text \<open>The sources that interrupts in a row find pending.\<close>

primrec irq_sources :: "('h, 'x) sd_host_scheme \<Rightarrow> nat \<Rightarrow> 'h \<Rightarrow> u32 list" where
  "irq_sources host 0 h = []"
| "irq_sources host (Suc n) h = (case core0_irq_source host h of (s, h) \<Rightarrow> s # irq_sources host n h)"

text \<open>The tick counter counts the interrupts that had the timer pending, and only those; it wraps at 64 bits.\<close>

lemma ticks_count_timer_irqs:
  "tm_ticks (fst ((rust_irq_handler host ^^ n) (t, h))) =
     tm_ticks t + of_nat (length (filter (\<lambda>s. s AND CNTPNSIRQ \<noteq> 0) (irq_sources host n h)))"
proof (induction n arbitrary: t h)
  case (Suc n)
  obtain s h1 where s: "core0_irq_source host h = (s, h1)" by fastforce
  show ?case unfolding funpow_Suc_right comp_apply
    using Suc.IH by (simp add: rust_irq_handler_def s on_tick_def)
qed simp

section \<open>Reports\<close>

definition KIND_NAMES :: "string list" where
  "KIND_NAMES =
     [''Synchronous (current EL, SP0)'', ''IRQ (current EL, SP0)'', ''FIQ (current EL, SP0)'', ''SError (current EL, SP0)'',
      ''Synchronous (current EL, SPx)'', ''IRQ (current EL, SPx)'', ''FIQ (current EL, SPx)'', ''SError (current EL, SPx)'',
      ''Synchronous (lower EL, AArch64)'', ''IRQ (lower EL, AArch64)'', ''FIQ (lower EL, AArch64)'', ''SError (lower EL, AArch64)'',
      ''Synchronous (lower EL, AArch32)'', ''IRQ (lower EL, AArch32)'', ''FIQ (lower EL, AArch32)'', ''SError (lower EL, AArch32)'']"

definition ec_name :: "u64 \<Rightarrow> string option" where
  "ec_name ec = map_of
     [(0x00, ''Unknown reason''), (0x07, ''SVE/Advanced SIMD/FP access trapped''), (0x0E, ''Illegal Execution state''),
      (0x15, ''SVC instruction (AArch64)''), (0x20, ''Instruction Abort, lower EL''), (0x21, ''Instruction Abort, same EL''),
      (0x22, ''PC alignment fault''), (0x24, ''Data Abort, lower EL''), (0x25, ''Data Abort, same EL''),
      (0x26, ''SP alignment fault''), (0x2C, ''Trapped FP exception (AArch64)''), (0x3C, ''BRK instruction (AArch64)'')] ec"

text \<open>The lines of a report; \<open>0x{v:0nx}\<close> of a register.\<close>

definition padded :: "nat \<Rightarrow> u64 \<Rightarrow> u8 list" where
  "padded n v = ascii ''0x'' @ pad0 n (hex (unat v))"

definition exception_report :: "u64 \<Rightarrow> u64 \<Rightarrow> u64 \<Rightarrow> u64 \<Rightarrow> u64 \<Rightarrow> u8 list list" where
  "exception_report kind esr elr far spsr =
     (let kind_name = (if unat kind < length KIND_NAMES then KIND_NAMES ! unat kind else ''unknown vector'');
          ec = drop_bit 26 esr AND 0x3F in
      [0x0A # ascii ''!! Ferro: unhandled exception !!'',
       ascii ''  kind : '' @ ascii kind_name,
       (case ec_name ec of
          Some name \<Rightarrow> ascii ''  EC   : '' @ padded 2 ec @ ascii '' ('' @ ascii name @ ascii '')''
        | None \<Rightarrow> ascii ''  EC   : '' @ padded 2 ec),
       ascii ''  ESR  : '' @ padded 8 esr,
       ascii ''  ELR  : '' @ padded 16 elr,
       ascii ''  FAR  : '' @ padded 16 far,
       ascii ''  SPSR : '' @ padded 8 spsr,
       ascii ''halting.''])"

primrec write_lines :: "('h, 'x) sd_host_scheme \<Rightarrow> nat \<Rightarrow> u8 list list \<Rightarrow> ('h, 'e, unit) io" where
  "write_lines host fuel [] = io_return ()"
| "write_lines host fuel (l # ls) = io_bind (uart_puts host fuel (l @ [0x0A])) (\<lambda>_. write_lines host fuel ls)"

text \<open>\<^verbatim>\<open>loop { wfe }\<close>: waiting for an event leaves the machine as it is, and no event ends the loop.\<close>

definition wfe :: "('h, 'e, unit) io" where
  "wfe h = (Inr (), h)"

primrec halt_loop :: "nat \<Rightarrow> ('h, 'e, 'a) io" where
  "halt_loop 0 = io_throw OutOfFuel"
| "halt_loop (Suc n) = io_bind wfe (\<lambda>_. halt_loop n)"

lemma halt_loop_never_returns: "halt_loop n h = (Inl OutOfFuel, h)"
  by (induction n) (simp_all add: io_throw_def io_bind_def wfe_def)

definition rust_exception_handler ::
  "('h, 'x) sd_host_scheme \<Rightarrow> nat \<Rightarrow> nat \<Rightarrow> u64 \<Rightarrow> u64 \<Rightarrow> u64 \<Rightarrow> u64 \<Rightarrow> u64 \<Rightarrow> ('h, unit, unit) io" where
  "rust_exception_handler host fuel n kind esr elr far spsr h =
     io_bind (write_lines host fuel (exception_report kind esr elr far spsr)) (\<lambda>_. halt_loop n) (uart_init host h)"

section \<open>Hexadecimal can be read back\<close>

definition digit_value :: "u8 \<Rightarrow> nat" where
  "digit_value c = (if c < 0x3A then unat (c - 0x30) else 10 + unat (c - 0x61))"

definition unhex :: "u8 list \<Rightarrow> nat" where
  "unhex s = fold (\<lambda>c n. n * 16 + digit_value c) s 0"

lemma digit_value_digit:
  assumes "n < 16"
  shows "digit_value (digit 0x61 n) = n"
proof -
  have "\<forall>n \<in> {..<16}. digit_value (digit 0x61 n) = n" by code_simp
  then show ?thesis using assms by simp
qed

lemma unhex_snoc: "unhex (s @ [c]) = unhex s * 16 + digit_value c"
  by (simp add: unhex_def)

lemma unhex_hex: "unhex (hex n) = n"
  unfolding hex_def
proof (induction n rule: less_induct)
  case (less n)
  show ?case
  proof (cases "n < 16")
    case True
    then show ?thesis by (simp add: radix.simps[of 16] unhex_def digit_value_digit)
  next
    case False
    then have "radix 16 0x61 n = radix 16 0x61 (n div 16) @ [digit 0x61 (n mod 16)]" by (simp add: radix.simps[of 16 _ n])
    then show ?thesis using less[of "n div 16"] False by (simp add: unhex_snoc digit_value_digit)
  qed
qed

lemma unhex_pad0: "unhex (pad0 k s) = unhex s"
proof -
  have "fold (\<lambda>c n. n * 16 + digit_value c) (replicate j 0x30) 0 = (0 :: nat)" for j
    by (induction j) (simp_all add: digit_value_def)
  then show ?thesis by (simp add: unhex_def pad0_def)
qed

text \<open>What the line carries for one line of text: a carriage return goes before every line feed.\<close>

definition line_bytes :: "u8 list \<Rightarrow> u8 list" where
  "line_bytes l = concat (map (\<lambda>b. if b = 0x0A then [0x0D, 0x0A] else [b]) (l @ [0x0A]))"

lemma write_lines_sent:
  assumes line: "serial_line host fuel up sent received backlog"
  shows "up h \<Longrightarrow> \<exists>h'. write_lines host fuel ls h = (Inr () :: 'e fault + unit, h') \<and> up h' \<and>
     sent h' = sent h @ concat (map line_bytes ls)"
proof (induction ls arbitrary: h)
  case (Cons l ls)
  obtain h1 where h1: "uart_puts host fuel (l @ [0x0A]) h = (Inr () :: 'e fault + unit, h1)" "up h1" "sent h1 = sent h @ line_bytes l"
    using serial_line.puts_sends[OF line Cons.prems, of "l @ [0x0A]", where 'e = 'e] unfolding line_bytes_def by blast
  from Cons.IH[OF h1(2)] h1 show ?case by (auto simp: io_bind_def)
qed (simp add: io_return_def)

text \<open>
  What a report has to say, apart from how the handler puts it together: the sixteen vectors are four
  kinds of exception from four places, the exception class is the six bits of ESR from bit 26, with
  the name the architecture gives it, and a register is its hexadecimal numeral, padded with zeros.
\<close>

definition vector_name :: "nat \<Rightarrow> string" where
  "vector_name k =
     (if k < 16
      then [''Synchronous'', ''IRQ'', ''FIQ'', ''SError''] ! (k mod 4) @ '' ('' @
           [''current EL, SP0'', ''current EL, SPx'', ''lower EL, AArch64'', ''lower EL, AArch32''] ! (k div 4) @ '')''
      else ''unknown vector'')"

definition class_name :: "nat \<Rightarrow> string" where
  "class_name ec =
     (if ec = 0x00 then '' (Unknown reason)'' else if ec = 0x07 then '' (SVE/Advanced SIMD/FP access trapped)''
      else if ec = 0x0E then '' (Illegal Execution state)'' else if ec = 0x15 then '' (SVC instruction (AArch64))''
      else if ec = 0x20 then '' (Instruction Abort, lower EL)'' else if ec = 0x21 then '' (Instruction Abort, same EL)''
      else if ec = 0x22 then '' (PC alignment fault)'' else if ec = 0x24 then '' (Data Abort, lower EL)''
      else if ec = 0x25 then '' (Data Abort, same EL)'' else if ec = 0x26 then '' (SP alignment fault)''
      else if ec = 0x2C then '' (Trapped FP exception (AArch64))'' else if ec = 0x3C then '' (BRK instruction (AArch64))''
      else [])"

definition hex_numeral :: "nat \<Rightarrow> nat \<Rightarrow> u8 list \<Rightarrow> bool" where
  "hex_numeral k v ds \<longleftrightarrow> unhex ds = v \<and> set ds \<subseteq> set (ascii ''0123456789abcdef'') \<and> k \<le> length ds \<and>
     (k < length ds \<longrightarrow> v < 16 ^ length ds \<and> 16 ^ (length ds - 1) \<le> v)"

lemma hex_digits:
  "set (hex n) \<subseteq> set (ascii ''0123456789abcdef'') \<and> n < 16 ^ length (hex n) \<and> (1 < length (hex n) \<longrightarrow> 16 ^ (length (hex n) - 1) \<le> n)"
  unfolding hex_def
proof (induction n rule: less_induct)
  case (less n)
  have digit: "digit 0x61 k \<in> set (ascii ''0123456789abcdef'')" if "k < 16" for k
  proof -
    have "\<forall>k \<in> {..<16}. digit 0x61 k \<in> set (ascii ''0123456789abcdef'')" by code_simp
    then show ?thesis using that by blast
  qed
  show ?case
  proof (cases "n < 16")
    case True
    then show ?thesis using digit by (simp add: radix.simps[of 16])
  next
    case False
    let ?r = "radix 16 0x61 (n div 16)"
    have r: "radix 16 0x61 n = ?r @ [digit 0x61 (n mod 16)]" using False by (simp add: radix.simps[of 16 _ n])
    have ih: "set ?r \<subseteq> set (ascii ''0123456789abcdef'')" "n div 16 < 16 ^ length ?r" "1 < length ?r \<longrightarrow> 16 ^ (length ?r - 1) \<le> n div 16"
      using less[of "n div 16"] False by auto
    have "?r \<noteq> []" by (simp add: radix.simps[of 16 _ "n div 16"])
    then obtain j where j: "length ?r = Suc j" by (cases ?r) auto
    have "16 ^ j \<le> n div 16" using ih(3) j False by (cases j) auto
    then have "16 ^ Suc j \<le> n" by (simp add: less_eq_div_iff_mult_less_eq mult.commute)
    moreover have "n < 16 ^ Suc (Suc j)" using ih(2) j by (simp add: div_less_iff_less_mult mult.commute)
    ultimately show ?thesis using digit[of "n mod 16"] ih(1) by (simp add: r j)
  qed
qed

lemma padded_numeral: "0 < k \<Longrightarrow> \<exists>ds. padded k v = ascii ''0x'' @ ds \<and> hex_numeral k (unat v) ds"
proof -
  assume k: "0 < k"
  have z: "0x30 \<in> set (ascii ''0123456789abcdef'')" by code_simp
  have "hex_numeral k (unat v) (pad0 k (hex (unat v)))"
    using z k hex_digits[of "unat v"] unfolding hex_numeral_def unhex_pad0
    by (cases "k < length (hex (unat v))") (auto simp: pad0_def unhex_hex)
  then show ?thesis by (auto simp: padded_def)
qed

lemma kind_line: "(if unat kind < length KIND_NAMES then KIND_NAMES ! unat kind else ''unknown vector'') = vector_name (unat kind)"
proof -
  have "\<forall>k \<in> {..<16}. KIND_NAMES ! k = vector_name k" by code_simp
  moreover have "length KIND_NAMES = 16" by code_simp
  ultimately show ?thesis by (auto simp: vector_name_def)
qed

lemma class_line: "(case ec_name w of Some name \<Rightarrow> '' ('' @ name @ '')'' | None \<Rightarrow> []) = class_name (unat w)"
  by (simp add: ec_name_def class_name_def word_unat_eq_iff)

text \<open>
  C40: a fatal exception is reported in full before the machine halts. On a serial line that works once the
  handler has set it up again, the handler sends exactly eight lines, each ended by carriage return and
  line feed: the headline, the vector the exception came through, the exception class out of ESR with its name if
  it has one, the registers ESR, ELR, FAR and SPSR as hexadecimal numerals of at least 8, 16, 16 and 8 digits, and
  the notice that it halts. Then it loops for ever: whatever fuel the final loop is given, it does not return.
\<close>

theorem exception_reported:
  assumes line: "serial_line host fuel up sent received backlog" and ready: "up (uart_init host h)"
  shows "\<exists>h' ec_n esr_n elr_n far_n spsr_n. (\<forall>n. rust_exception_handler host fuel n kind esr elr far spsr h = (Inl OutOfFuel, h')) \<and>
      sent h' = sent (uart_init host h) @ concat (map line_bytes
        [0x0A # ascii ''!! Ferro: unhandled exception !!'',
         ascii (''  kind : '' @ vector_name (unat kind)),
         ascii ''  EC   : 0x'' @ ec_n @ ascii (class_name (unat esr div 2 ^ 26 mod 64)),
         ascii ''  ESR  : 0x'' @ esr_n, ascii ''  ELR  : 0x'' @ elr_n, ascii ''  FAR  : 0x'' @ far_n, ascii ''  SPSR : 0x'' @ spsr_n,
         ascii ''halting.'']) \<and>
      hex_numeral 2 (unat esr div 2 ^ 26 mod 64) ec_n \<and> hex_numeral 8 (unat esr) esr_n \<and> hex_numeral 16 (unat elr) elr_n \<and>
      hex_numeral 16 (unat far) far_n \<and> hex_numeral 8 (unat spsr) spsr_n"
proof -
  let ?ec = "drop_bit 26 esr AND 0x3F"
  have m: "(0x3F :: u64) = mask 6" by (simp add: mask_eq_exp_minus_1)
  have ec: "unat ?ec = unat esr div 2 ^ 26 mod 64"
    unfolding m take_bit_eq_mask[symmetric] take_bit_eq_mod drop_bit_eq_div by (simp add: unat_mod unat_div)
  obtain a b c d e where N: "padded 2 ?ec = ascii ''0x'' @ a" "hex_numeral 2 (unat ?ec) a" "padded 8 esr = ascii ''0x'' @ b" "hex_numeral 8 (unat esr) b"
      "padded 16 elr = ascii ''0x'' @ c" "hex_numeral 16 (unat elr) c" "padded 16 far = ascii ''0x'' @ d" "hex_numeral 16 (unat far) d"
      "padded 8 spsr = ascii ''0x'' @ e" "hex_numeral 8 (unat spsr) e"
    using padded_numeral[of 2 ?ec] padded_numeral[of 8] padded_numeral[of 16] zero_less_numeral by meson
  have app: "ascii (x @ y) = ascii x @ ascii y" for x y by (simp add: ascii_def)
  have ecl: "(case ec_name ?ec of Some name \<Rightarrow> ascii ''  EC   : '' @ padded 2 ?ec @ ascii '' ('' @ ascii name @ ascii '')''
        | None \<Rightarrow> ascii ''  EC   : '' @ padded 2 ?ec) = ascii ''  EC   : 0x'' @ a @ ascii (class_name (unat ?ec))"
    unfolding class_line[symmetric] N(1) by (simp add: ascii_def split: option.split)
  have rep: "exception_report kind esr elr far spsr =
      [0x0A # ascii ''!! Ferro: unhandled exception !!'', ascii (''  kind : '' @ vector_name (unat kind)),
         ascii ''  EC   : 0x'' @ a @ ascii (class_name (unat ?ec)),
         ascii ''  ESR  : 0x'' @ b, ascii ''  ELR  : 0x'' @ c, ascii ''  FAR  : 0x'' @ d, ascii ''  SPSR : 0x'' @ e, ascii ''halting.'']"
    unfolding exception_report_def Let_def kind_line ecl N(3,5,7,9) by (simp add: ascii_def)
  obtain h' where "write_lines host fuel (exception_report kind esr elr far spsr) (uart_init host h) = (Inr () :: unit fault + unit, h')"
    "sent h' = sent (uart_init host h) @ concat (map line_bytes (exception_report kind esr elr far spsr))"
    using write_lines_sent[OF line ready, where 'e = unit] by blast
  then have "rust_exception_handler host fuel n kind esr elr far spsr h = (Inl OutOfFuel, h')" for n
    by (simp add: rust_exception_handler_def io_bind_def halt_loop_never_returns)
  then show ?thesis
    using \<open>sent h' = _\<close> N(2,4,6,8,10) unfolding rep ec by blast
qed

theorem exception_reported_witness:
  "\<exists>h' ec_n esr_n elr_n far_n spsr_n. rust_exception_handler term_host 40000 7 4 0x96000045 0x80ABC 0xDEAD 0x3C5 ([], []) = (Inl OutOfFuel, h') \<and>
      fst h' = fst (uart_init term_host ([], [])) @ concat (map line_bytes
        [0x0A # ascii ''!! Ferro: unhandled exception !!'',
         ascii (''  kind : '' @ vector_name 4),
         ascii ''  EC   : 0x'' @ ec_n @ ascii (class_name 0x25),
         ascii ''  ESR  : 0x'' @ esr_n, ascii ''  ELR  : 0x'' @ elr_n, ascii ''  FAR  : 0x'' @ far_n, ascii ''  SPSR : 0x'' @ spsr_n,
         ascii ''halting.'']) \<and>
      hex_numeral 2 0x25 ec_n \<and> hex_numeral 16 0x80ABC elr_n"
proof -
  have n: "unat (4 :: u64) = 4" "unat (0x96000045 :: u64) div 2 ^ 26 mod 64 = 0x25" "unat (0x80ABC :: u64) = 0x80ABC" by simp_all
  show ?thesis
    using exception_reported[OF term_line.serial_line_axioms TrueI, where h = "([], [])" and kind = 4 and esr = "0x96000045"
      and elr = "0x80ABC" and far = "0xDEAD" and spsr = "0x3C5"] unfolding n by blast
qed

end
