(* ===== verification/Main_Entry.thy ===== *)
theory Main_Entry
  imports Exceptions Ui_Boot Mmu Mailbox
begin

text \<open>
  \<^verbatim>\<open>src/src/main.rs\<close>: the entry point after \<^verbatim>\<open>boot.s\<close>, its self tests through the service tables, and the panic
  handler. The record \<open>platform\<close> adds to \<open>machine\<close> what only the start-up touches: the timer's state in the hardware,
  the interrupt mask, and the addresses of the translation tables and of the mailbox message.
\<close>

unbundle bit_operations_syntax

section \<open>State\<close>

record 'h platform =
  pf_machine :: "'h machine"
  pf_timer :: "'h \<Rightarrow> timer_state"
  pf_set_timer :: "timer_state \<Rightarrow> 'h \<Rightarrow> 'h"
  pf_unmask_irq :: "'h \<Rightarrow> 'h"
  pf_kernel_end :: u64
  pf_l1 :: addr
  pf_l2 :: addr
  pf_message :: u64
  pf_marker :: addr

record 'h main_world =
  mw_ui :: "'h ui_world"
  mw_mmu :: mmu_state
  mw_boot_table :: service_table
  mw_runtime_table :: service_table

type_synonym ('h, 'a) main_io = "('h main_world, unit, 'a) io"

definition on_ui :: "('h, 'a) ui_io \<Rightarrow> ('h, 'a) main_io" where
  "on_ui p w = (case p (mw_ui w) of (r, u) \<Rightarrow> (r, w\<lparr>mw_ui := u\<rparr>))"

section \<open>Self tests\<close>

definition test_guid :: efi_guid where
  "test_guid = \<lparr>data1 = 0x12345678, data2 = 0xABCD, data3 = 0xEF01, data4 = [1, 2, 3, 4, 5, 6, 7, 8]\<rparr>"

text \<open>The calls through the table, with the out parameters as results.\<close>

definition test_allocate_pages :: "('h, efi_status \<times> u64) ui_io" where
  "test_allocate_pages w = (case allocate_pages 2 (Some 0) w of (status, page, w) \<Rightarrow> (Inr (status, the page), w))"

definition test_allocate_pool :: "('h, efi_status \<times> addr) ui_io" where
  "test_allocate_pool w = (case allocate_pool 100 (Some 0) w of (status, pool, w) \<Rightarrow> (Inr (status, the pool), w))"

definition test_install :: "addr \<Rightarrow> ('h, efi_status \<times> efi_handle) ui_io" where
  "test_install marker = ui_call (\<lambda>w.
     case install_protocol_interface (Some 0) (Some test_guid) marker w of
       Inl e \<Rightarrow> Inl e | Inr (status, h, w) \<Rightarrow> Inr ((status, the h), w))"

text \<open>\<^verbatim>\<open>{:#010x}\<close>\<close>

definition hex010 :: "u64 \<Rightarrow> u8 list" where "hex010 v = ascii ''0x'' @ pad0 8 (hex (unat v))"

definition map_line :: "efi_memory_descriptor \<Rightarrow> u8 list" where
  "map_line d =
     ascii ''  ['' @ hex010 (physical_start d) @ ascii ''-'' @ hex010 (physical_start d + number_of_pages d * 4096) @
     ascii '') type='' @ dec (unat (ty d)) @ ascii '' pages='' @ dec (unat (number_of_pages d))"

definition zero_descriptor :: efi_memory_descriptor where
  "zero_descriptor = \<lparr>ty = 0, physical_start = 0, virtual_start = 0, number_of_pages = 0, attribute = 0\<rparr>"

definition print_memory_map :: "'h machine \<Rightarrow> memory_map_out \<Rightarrow> ('h, unit) ui_io" where
  "print_memory_map m out =
     (let count = the (mm_size out) div max (the (mm_descriptor_size out)) 1 in
      io_bind (uart_line m (ascii ''milestone 7: GetMemoryMap -> status=0x'' @ hex (unat (mm_status out)) @ ascii '' entries='' @ dec count)) (\<lambda>_.
        if count > length (the (mm_map out)) then io_throw Panic
        else ui_seq (map (\<lambda>d. uart_line m (map_line d)) (take count (the (mm_map out))))))"

definition boot_services_smoke_test :: "'h machine \<Rightarrow> addr \<Rightarrow> ('h, unit) ui_io" where
  "boot_services_smoke_test m marker =
     io_bind test_allocate_pages (\<lambda>(status, page).
     io_bind (uart_line m (ascii ''milestone 7: AllocatePages(2) -> status=0x'' @ hex (unat status) @ ascii '' base=0x'' @ hex (unat page))) (\<lambda>_.
     io_bind test_allocate_pool (\<lambda>(status, pool).
     io_bind (uart_line m (ascii ''milestone 7: AllocatePool(100) -> status=0x'' @ hex (unat status) @ ascii '' ptr='' @ pointer pool)) (\<lambda>_.
     io_bind (test_install marker) (\<lambda>(status, handle).
     io_bind (uart_line m (ascii ''milestone 7: InstallProtocolInterface -> status=0x'' @ hex (unat status) @ ascii '' handle='' @ pointer handle)) (\<lambda>_.
     io_bind (ui_get (locate_protocol (Some test_guid) (Some 0))) (\<lambda>(status, found).
     io_bind (uart_line m (ascii ''milestone 7: LocateProtocol -> status=0x'' @ hex (unat status) @ ascii '' round_trip_ok='' @ show_bool (the found = marker))) (\<lambda>_.
     io_bind (ui_get (get_memory_map (mc_layout m) (Some (8 * DESCRIPTOR_SIZE)) (Some (replicate 8 zero_descriptor)) (Some 0) (Some 0) (Some 0))) (\<lambda>out.
       print_memory_map m out)))))))))"

definition var_test_guid :: efi_guid where
  "var_test_guid = \<lparr>data1 = 0x11112222, data2 = 0x3333, data3 = 0x4444, data4 = [5, 6, 7, 8, 9, 10, 11, 12]\<rparr>"

definition var_test_name :: char16_ptr where
  "var_test_name = name_nt (char_units ''TEST'')"

definition var_test_data :: "u8 list" where
  "var_test_data = ascii ''hello-runtime-services''"

definition runtime_services_smoke_test :: "'h machine \<Rightarrow> ('h, unit) ui_io" where
  "runtime_services_smoke_test m =
     io_bind (uart_line m (ascii ''milestone 11: GetTime -> status=0x'' @ hex (unat get_time) @ ascii '' (EFI_UNSUPPORTED expected: no RTC on this SoC)'')) (\<lambda>_.
     io_bind (with_store (set_variable (dev_of m) (mc_fuel m) (Some var_test_name) (Some var_test_guid) 7 (length var_test_data) (Some var_test_data))) (\<lambda>status.
     io_bind (uart_line m (ascii ''milestone 11: SetVariable -> status=0x'' @ hex (unat status))) (\<lambda>_.
     io_bind (ui_get (\<lambda>w. get_variable (pw_vars (uw_store w)) (Some var_test_name) (Some var_test_guid) (Some 0) (Some 64) (Some (replicate 64 0)))) (\<lambda>(status, _, size, out).
     let round_trip_ok = (status = EFI_SUCCESS \<and> take (the size) (the out) = var_test_data) in
     io_bind (uart_line m (ascii ''milestone 11: GetVariable -> status=0x'' @ hex (unat status) @ ascii '' round_trip_ok='' @ show_bool round_trip_ok)) (\<lambda>_.
     io_bind (ui_get (\<lambda>w. get_next_variable_name (pw_vars (uw_store w)) (Some 64) (Some (\<lambda>_. 0)) (Some zero_guid))) (\<lambda>(status, _, _, guid).
     io_bind (uart_line m (ascii ''milestone 11: GetNextVariableName -> status=0x'' @ hex (unat status) @ ascii '' guid_matches='' @ show_bool (the guid = var_test_guid))) (\<lambda>_.
     io_bind (ui_get (\<lambda>w. query_variable_info (pw_vars (uw_store w)) (Some 0) (Some 0) (Some 0))) (\<lambda>(status, mx, remaining, max_var).
       uart_line m (ascii ''milestone 11: QueryVariableInfo -> status=0x'' @ hex (unat status) @ ascii '' max='' @ dec (unat (the mx)) @
         ascii '' remaining='' @ dec (unat (the remaining)) @ ascii '' max_var='' @ dec (unat (the max_var)))))))))))"

text \<open>Reading the identification register cannot fail, so the last case does not occur.\<close>

definition usb_smoke_test :: "'h machine \<Rightarrow> ('h, unit) ui_io" where
  "usb_smoke_test m =
     io_bind (with_hw (io_ok (core_id (mc_host m)))) (\<lambda>r.
       case r of
         Some v \<Rightarrow> uart_line m (ascii ''milestone 14: USB core ID = 0x'' @ pad0 8 (hex (unat v)))
       | None \<Rightarrow> io_throw Panic)"

section \<open>The entry point\<close>

definition main_efi_init :: "'h platform \<Rightarrow> ('h, unit) main_io" where
  "main_efi_init pf w =
     (case efi_init (pf_kernel_end pf) (mc_link (pf_machine pf)) (bs_mem (mw_ui w)) of
        (mem, bt, rt, st) \<Rightarrow>
          (Inr (), w\<lparr>mw_ui := (mw_ui w)\<lparr>bs_mem := mem, uw_system_table := st\<rparr>, mw_boot_table := bt, mw_runtime_table := rt\<rparr>))"

text \<open>\<^verbatim>\<open>timer::init(100)\<close>, routing the interrupt, and unmasking it.\<close>

definition main_timer_init :: "'h platform \<Rightarrow> ('h, unit) ui_io" where
  "main_timer_init pf w =
     (case timer_init (mc_cntfrq (pf_machine pf)) 100 (pf_timer pf (uw_hw w)) of
        Inl e \<Rightarrow> (Inl e, w)
      | Inr t \<Rightarrow>
          (Inr (), set_hw (pf_unmask_irq pf (enable_core0_timer_irq (mc_host (pf_machine pf)) (pf_set_timer pf t (uw_hw w)))) w))"

definition boot_log_lines :: "u8 list list" where
  "boot_log_lines = map ascii
     [''CORE0 -> EL1 (BOOT.S)'', ''EXCEPTION VECTORS INSTALLED (VECTORS.S)'', ''MMU ENABLED: RAM=NORMAL WB, MMIO=DEVICE-NGNRNE'',
      ''TIMER/IRQ ONLINE (BCM2836 LOCAL BLOCK, NOT A GIC)'', ''FRAMEBUFFER ALLOCATED VIA VIDEOCORE MAILBOX'', ''STARTING BOOT MENU...'']"

definition main_with_screen :: "'h platform \<Rightarrow> nat \<Rightarrow> framebuffer \<Rightarrow> ('h, unit) ui_io" where
  "main_with_screen pf n fb =
     (let m = pf_machine pf in
      ui_seq
        [uart_line m (ascii ''milestone 5: framebuffer '' @ dec (unat (fb_width fb)) @ ascii ''x'' @ dec (unat (fb_height fb)) @
           ascii '' pitch='' @ dec (unat (fb_pitch fb)) @ ascii '' @ '' @ pointer (fb_ptr fb)),
         (\<lambda>w. (Inr (), set_framebuffer_region (fb_ptr fb) (ucast (fb_pitch fb) * ucast (fb_height fb)) w)),
         boot_services_smoke_test m (pf_marker pf),
         runtime_services_smoke_test m,
         usb_smoke_test m,
         boot_log m fb boot_log_lines,
         ui_sleep m 60,
         splash m fb,
         ui_sleep m 150,
         uart_line m (ascii ''milestone 6: entering boot menu (serial console input)''),
         ui_run m fb n])"

definition main_ui :: "'h platform \<Rightarrow> nat \<Rightarrow> ('h, unit) ui_io" where
  "main_ui pf n =
     (let m = pf_machine pf in
      io_bind (ui_seq
        [(\<lambda>w. (Inr (), set_hw (uart_init (mc_host m) (uw_hw w)) w)),
         uart_line m (0x0A # ascii ''Ferro UEFI''),
         uart_line m (ascii ''Raspberry Pi 3 / BCM2837, AArch64''),
         uart_line m (ascii ''milestone 1: core0 -> EL1 -> UART online''),
         uart_line m (ascii ''milestone 3: MMU enabled, RAM + device regions identity-mapped''),
         main_timer_init pf,
         ui_sleep m 100]) (\<lambda>_.
      io_bind (ui_ticks m) (\<lambda>ticks.
      io_bind (uart_line m (ascii ''milestone 4: timer/IRQ online via BCM2836 local block ('' @ dec (unat ticks) @ ascii '' ticks in ~1s)'')) (\<lambda>_.
      io_bind (with_hw (fb_init (mc_host m) (mc_fuel m) (pf_message pf) 800 600 32)) (\<lambda>r.
        case r of
          Some fb \<Rightarrow> main_with_screen pf n fb
        | None \<Rightarrow> io_bind (uart_line m (ascii ''milestone 5: framebuffer allocation FAILED'')) (\<lambda>_. halt_loop n))))))"

definition ferro_main :: "'h platform \<Rightarrow> nat \<Rightarrow> ('h, unit) main_io" where
  "ferro_main pf n =
     io_bind (\<lambda>w. (Inr (), w\<lparr>mw_mmu := mmu_init (pf_l1 pf) (pf_l2 pf) (mw_mmu w)\<rparr>)) (\<lambda>_.
     io_bind (main_efi_init pf) (\<lambda>_. on_ui (main_ui pf n)))"

text \<open>The panic handler; \<open>info\<close> is the text of the \<^verbatim>\<open>PanicInfo\<close>.\<close>

definition panic_handler :: "('h, 'x) sd_host_scheme \<Rightarrow> nat \<Rightarrow> nat \<Rightarrow> u8 list \<Rightarrow> ('h, unit, unit) io" where
  "panic_handler host fuel n info h =
     io_bind (uart_puts host fuel (0x0A # ascii ''PANIC: '' @ info @ [0x0A])) (\<lambda>_. halt_loop n) (uart_init host h)"

end
