(* ===== verification/Main_Properties.thy ===== *)
theory Main_Properties
  imports Main_Entry Ui_Properties
begin

text \<open>
  The self test of the boot services that \<^verbatim>\<open>src/src/main.rs\<close> runs before the menu, on a working serial line: it
  completes, finds the protocol it installed, and prints the whole memory map.
\<close>

unbundle bit_operations_syntax

definition boot_view :: "('h \<Rightarrow> u8 list) \<Rightarrow> 'h ui_world \<Rightarrow> u8 list \<times> bool \<times> mem_state \<times> handle_db \<times> u64 \<times> u64" where
  "boot_view sent w = (sent (uw_hw w), bs_exited w, bs_mem w, bs_handles w, bs_fb_base w, bs_fb_size w)"

definition ui_up :: "('h \<Rightarrow> bool) \<Rightarrow> 'h ui_world \<Rightarrow> bool" where
  "ui_up up w = up (uw_hw w)"

lemma runs_uart_line:
  assumes "serial_line (mc_host m) (mc_fuel m) up sent received backlog"
  shows "runs (ui_up up) (boot_view sent) (uart_line m s) (t, b) (Inr ()) (t @ line_bytes s, b)"
  unfolding runs_def
proof (intro allI impI)
  fix w assume w: "ui_up up w" "boot_view sent w = (t, b)"
  obtain h where "uart_puts (mc_host m) (mc_fuel m) (s @ [0x0A]) (uw_hw w) = (Inr () :: unit fault + unit, h)" "up h"
      "sent h = sent (uw_hw w) @ line_bytes s"
    using serial_line.puts_sends[OF assms, of "uw_hw w" "s @ [0x0A]"] w(1) unfolding ui_up_def line_bytes_def by blast
  then show "\<exists>w'. uart_line m s w = (Inr (), w') \<and> ui_up up w' \<and> boot_view sent w' = (t @ line_bytes s, b)"
    using w by (auto simp: uart_line_def with_hw_def boot_view_def ui_up_def set_hw_def)
qed

lemma runs_uart_lines:
  assumes "serial_line (mc_host m) (mc_fuel m) up sent received backlog"
  shows "runs (ui_up up) (boot_view sent) (ui_seq (map (uart_line m) ls)) (t, b) (Inr ()) (t @ concat (map line_bytes ls), b)"
proof (induction ls arbitrary: t)
  case (Cons l ls)
  from runs_bind[OF runs_uart_line[OF assms] Cons.IH[of "t @ line_bytes l"]] show ?case by simp
qed (simp add: runs_return)

lemma runs_allocate:
  assumes "mem_allocate_pages mem 2 = (Some page, m1)" "mem_allocate_pages m1 1 = (Some pool, m2)"
  shows "runs (ui_up up) (boot_view sent) test_allocate_pages (t, False, mem, b) (Inr (EFI_SUCCESS, page)) (t, False, m1, b)"
    "runs (ui_up up) (boot_view sent) test_allocate_pool (t, False, m1, b) (Inr (EFI_SUCCESS, pool)) (t, False, m2, b)"
  using assms by (auto simp: runs_def test_allocate_pages_def test_allocate_pool_def allocate_pages_def allocate_pool_def
      EFI_PAGE_SIZE_def boot_view_def ui_up_def)

text \<open>The handle table after the first handle got one protocol.\<close>

definition one_handle :: "efi_guid \<Rightarrow> addr \<Rightarrow> handle_db" where
  "one_handle guid i = HANDLES_INIT[0 := EMPTY_HANDLE\<lparr>h_in_use := True,
     h_protocols := (h_protocols EMPTY_HANDLE)[0 := Some \<lparr>pe_guid = guid, pe_interface = i\<rparr>]\<rparr>]"

lemma one_handle_install:
  "find_or_create_handle HANDLES_INIT 0 = Inr (Some 0, HANDLES_INIT[0 := EMPTY_HANDLE\<lparr>h_in_use := True\<rparr>])"
  "db_install (HANDLES_INIT[0 := EMPTY_HANDLE\<lparr>h_in_use := True\<rparr>]) 0 guid i = Inr (True, one_handle guid i)"
  "locate (one_handle guid i) guid = Some i"
proof -
  have h: "HANDLES_INIT = EMPTY_HANDLE # replicate 31 EMPTY_HANDLE" "h_protocols EMPTY_HANDLE = None # replicate 7 None"
    by (simp_all add: HANDLES_INIT_def MAX_HANDLES_def EMPTY_HANDLE_def MAX_PROTOCOLS_PER_HANDLE_def numeral_eq_Suc)
  show "find_or_create_handle HANDLES_INIT 0 = Inr (Some 0, HANDLES_INIT[0 := EMPTY_HANDLE\<lparr>h_in_use := True\<rparr>])"
    by (simp add: find_or_create_handle_def handle_to_index_def h(1) first_free_def EMPTY_HANDLE_def)
  show "db_install (HANDLES_INIT[0 := EMPTY_HANDLE\<lparr>h_in_use := True\<rparr>]) 0 guid i = Inr (True, one_handle guid i)"
    by (simp add: db_install_def one_handle_def h)
  show "locate (one_handle guid i) guid = Some i"
    by (simp add: one_handle_def h entry_lookup_def installed_def List.map_filter_simps)
qed

lemma runs_install:
  "runs (ui_up up) (boot_view sent) (test_install marker) (t, e, mem, HANDLES_INIT, b) (Inr (EFI_SUCCESS, 1)) (t, e, mem, one_handle test_guid marker, b)"
  by (auto simp: runs_def test_install_def ui_call_def install_protocol_interface_def one_handle_install handle_for_index_def index_to_handle_def
      boot_view_def ui_up_def)

lemma runs_locate:
  "runs (ui_up up) (boot_view sent) (ui_get (locate_protocol (Some test_guid) (Some 0))) (t, e, mem, one_handle test_guid marker, b)
     (Inr (EFI_SUCCESS, Some marker)) (t, e, mem, one_handle test_guid marker, b)"
  by (auto simp: runs_def ui_get_def locate_protocol_def one_handle_install boot_view_def ui_up_def)

lemma runs_print_map:
  assumes line: "serial_line (mc_host m) (mc_fuel m) up sent received backlog"
    and ds: "ds = map region_descriptor (memory_regions (lo_fw_end (mc_layout m)) mem base sz)"
  shows "runs (ui_up up) (boot_view sent)
    (io_bind (ui_get (get_memory_map (mc_layout m) (Some (8 * DESCRIPTOR_SIZE)) (Some (replicate 8 zero_descriptor)) (Some 0) (Some 0) (Some 0)))
      (print_memory_map m)) (t, e, mem, hs, base, sz) (Inr ())
    (t @ concat (map line_bytes ((ascii ''milestone 7: GetMemoryMap -> status=0x0 entries='' @ dec (length ds)) # map map_line ds)), e, mem, hs, base, sz)"
proof -
  define out where "out = \<lparr>mm_status = EFI_SUCCESS, mm_size = Some (length ds * DESCRIPTOR_SIZE),
      mm_map = Some (put_seg (replicate 8 zero_descriptor) 0 ds), mm_key = Some (generation mem),
      mm_descriptor_size = Some DESCRIPTOR_SIZE, mm_descriptor_version = Some EFI_MEMORY_DESCRIPTOR_VERSION\<rparr>"
  have len: "length ds \<le> 8" using memory_regions_length by (simp add: ds)
  have "get_memory_map (mc_layout m) (Some (8 * DESCRIPTOR_SIZE)) (Some (replicate 8 zero_descriptor)) (Some 0) (Some 0) (Some 0) w = out"
    if "boot_view sent w = (t, e, mem, hs, base, sz)" for w
    using that memory_regions_length[of "lo_fw_end (mc_layout m)" mem base sz]
    by (simp add: boot_view_def get_memory_map_def mem_get_memory_map_def out_def ds Let_def DESCRIPTOR_SIZE_def not_less)
  then have get: "runs (ui_up up) (boot_view sent)
      (ui_get (get_memory_map (mc_layout m) (Some (8 * DESCRIPTOR_SIZE)) (Some (replicate 8 zero_descriptor)) (Some 0) (Some 0) (Some 0)))
      (t, e, mem, hs, base, sz) (Inr out) (t, e, mem, hs, base, sz)"
    by (simp add: runs_def ui_get_def)
  have hex0: "ascii ''milestone 7: GetMemoryMap -> status=0x'' @ hex (unat EFI_SUCCESS) @ ascii '' entries='' =
      ascii ''milestone 7: GetMemoryMap -> status=0x0 entries=''"
    by (simp add: EFI_SUCCESS_def hex_def radix.simps digit_def ascii_def)
  have pr: "print_memory_map m out =
      io_bind (uart_line m (ascii ''milestone 7: GetMemoryMap -> status=0x0 entries='' @ dec (length ds))) (\<lambda>_. ui_seq (map (uart_line m) (map map_line ds)))"
    using len unfolding hex0[symmetric] by (simp add: print_memory_map_def out_def Let_def DESCRIPTOR_SIZE_def put_seg_def comp_def not_less)
  show ?thesis
    by (rule runs_bind[OF get], unfold pr, rule runs_bind[OF runs_uart_line[OF line], THEN back_subst[of "runs _ _ _ _ _"]],
        rule runs_uart_lines[OF line]) simp
qed

text \<open>The lines of the self test; \<open>page\<close>, \<open>pool\<close> are what was allocated, \<open>ds\<close> is the memory map.\<close>

definition self_test_lines :: "u64 \<Rightarrow> addr \<Rightarrow> efi_memory_descriptor list \<Rightarrow> u8 list list" where
  "self_test_lines page pool ds =
     [ascii ''milestone 7: AllocatePages(2) -> status=0x0 base=0x'' @ hex (unat page),
      ascii ''milestone 7: AllocatePool(100) -> status=0x0 ptr=0x'' @ hex (unat pool),
      ascii ''milestone 7: InstallProtocolInterface -> status=0x0 handle=0x1'',
      ascii ''milestone 7: LocateProtocol -> status=0x0 round_trip_ok=true'',
      ascii ''milestone 7: GetMemoryMap -> status=0x0 entries='' @ dec (length ds)] @ map map_line ds"

text \<open>
  C24: the self test of the boot services passes. At start-up, with a working serial line, an empty handle table
  and room for three pages, it completes without a panic, whatever the layout of the memory; on the line it reports
  success for every call, finds by its guid the very interface it installed, and prints every region of the
  memory map, which has become the one after both allocations.
\<close>

theorem boot_self_test_passes:
  assumes line: "serial_line (mc_host m) (mc_fuel m) up sent received backlog"
    and w: "up (uw_hw w)" "\<not> bs_exited w" "bs_handles w = HANDLES_INIT"
    and mem: "mem_allocate_pages (bs_mem w) 2 = (Some page, m1)" "mem_allocate_pages m1 1 = (Some pool, m2)"
    and ds: "ds = map region_descriptor (memory_regions (lo_fw_end (mc_layout m)) m2 (bs_fb_base w) (bs_fb_size w))"
  shows "\<exists>w'. boot_services_smoke_test m marker w = (Inr (), w') \<and> bs_mem w' = m2 \<and> locate (bs_handles w') test_guid = Some marker \<and>
    sent (uw_hw w') = sent (uw_hw w) @ concat (map line_bytes (self_test_lines page pool ds))"
proof -
  note say = runs_uart_line[OF line]
  have x: "hex (unat EFI_SUCCESS) = ascii ''0''" "pointer 1 = ascii ''0x1''" "show_bool (the (Some marker) = marker) = ascii ''true''"
    by (simp_all add: EFI_SUCCESS_def pointer_def hex_def radix.simps digit_def ascii_def show_bool_def)
  define l1 where "l1 = ascii ''milestone 7: AllocatePages(2) -> status=0x'' @ hex (unat EFI_SUCCESS) @ ascii '' base=0x'' @ hex (unat page)"
  define l2 where "l2 = ascii ''milestone 7: AllocatePool(100) -> status=0x'' @ hex (unat EFI_SUCCESS) @ ascii '' ptr='' @ pointer pool"
  define l3 where "l3 = ascii ''milestone 7: InstallProtocolInterface -> status=0x'' @ hex (unat EFI_SUCCESS) @ ascii '' handle='' @ pointer 1"
  define l4 where "l4 = ascii ''milestone 7: LocateProtocol -> status=0x'' @ hex (unat EFI_SUCCESS) @ ascii '' round_trip_ok='' @ show_bool (the (Some marker) = marker)"
  define l5 where "l5 = ascii ''milestone 7: GetMemoryMap -> status=0x0 entries='' @ dec (length ds)"
  have v: "boot_view sent w = (sent (uw_hw w), False, bs_mem w, HANDLES_INIT, bs_fb_base w, bs_fb_size w)"
    using w(2,3) by (simp add: boot_view_def)
  have "runs (ui_up up) (boot_view sent) (boot_services_smoke_test m marker)
      (t, False, bs_mem w, HANDLES_INIT, bs_fb_base w, bs_fb_size w) (Inr ())
      (((((t @ line_bytes l1) @ line_bytes l2) @ line_bytes l3) @ line_bytes l4) @ concat (map line_bytes (l5 # map map_line ds)),
       False, m2, one_handle test_guid marker, bs_fb_base w, bs_fb_size w)" for t
    unfolding boot_services_smoke_test_def l1_def l2_def l3_def l4_def l5_def
    by (rule runs_bind[OF runs_allocate(1)[OF mem]], unfold prod.case, rule runs_bind[OF say],
        rule runs_bind[OF runs_allocate(2)[OF mem]], unfold prod.case, rule runs_bind[OF say],
        rule runs_bind[OF runs_install], unfold prod.case, rule runs_bind[OF say],
        rule runs_bind[OF runs_locate], unfold prod.case, rule runs_bind[OF say], rule runs_print_map[OF line ds])
  moreover have "[l1, l2, l3, l4, l5] @ map map_line ds = self_test_lines page pool ds"
    unfolding self_test_lines_def l1_def l2_def l3_def l4_def l5_def x by (simp add: pointer_def ascii_def)
  then have "line_bytes l1 @ line_bytes l2 @ line_bytes l3 @ line_bytes l4 @ concat (map line_bytes (l5 # map map_line ds)) =
      concat (map line_bytes (self_test_lines page pool ds))" by (metis append_Cons append_Nil concat.simps(2) list.map(2))
  ultimately have "runs (ui_up up) (boot_view sent) (boot_services_smoke_test m marker)
      (sent (uw_hw w), False, bs_mem w, HANDLES_INIT, bs_fb_base w, bs_fb_size w) (Inr ())
      (sent (uw_hw w) @ concat (map line_bytes (self_test_lines page pool ds)), False, m2, one_handle test_guid marker, bs_fb_base w, bs_fb_size w)"
    by (simp only: append_assoc)
  from runsD[OF this _ v] w(1) show ?thesis by (auto simp: ui_up_def boot_view_def one_handle_install(3))
qed

theorem boot_self_test_passes_witness:
  "\<exists>w'. boot_services_smoke_test term_machine 0x7F000 ((UI_INIT (\<lambda>_. 0) ([], []))\<lparr>bs_mem := \<lparr>next_free_page = 0x94000, generation = 3\<rparr>\<rparr>) = (Inr (), w') \<and>
     bs_mem w' = \<lparr>next_free_page = 0x97000, generation = 5\<rparr> \<and> locate (bs_handles w') test_guid = Some 0x7F000"
proof -
  let ?w = "(UI_INIT (\<lambda>_. 0) ([] :: u8 list, [] :: u8 list))\<lparr>bs_mem := \<lparr>next_free_page = 0x94000, generation = 3\<rparr>\<rparr>"
  have w: "\<not> bs_exited ?w" "bs_handles ?w = HANDLES_INIT" by (simp_all add: ui_init)
  have m: "mem_allocate_pages (bs_mem ?w) 2 = (Some 0x94000, \<lparr>next_free_page = 0x96000, generation = 4\<rparr>)"
      "mem_allocate_pages \<lparr>next_free_page = 0x96000, generation = 4\<rparr> 1 = (Some 0x96000, \<lparr>next_free_page = 0x97000, generation = 5\<rparr>)"
    by (simp_all add: mem_allocate_pages_def allocate_pages_cas.simps EFI_PAGE_SIZE_def RAM_LIMIT_def PERIPHERAL_BASE_def Let_def)
  show ?thesis using boot_self_test_passes[OF term_machine_line TrueI w m refl, of "0x7F000"] by blast
qed

section \<open>Panics\<close>

text \<open>A panic prints its message on a fresh line before the machine halts, however much was sent before.\<close>

lemma panic_reported:
  assumes line: "serial_line host fuel up sent received backlog" and ready: "up (uart_init host h)"
  shows "\<exists>h'. (\<forall>n. panic_handler host fuel n info h = (Inl OutOfFuel, h')) \<and>
    sent h' = sent (uart_init host h) @ line_bytes (0x0A # ascii ''PANIC: '' @ info)"
proof -
  obtain h' where "uart_puts host fuel ((0x0A # ascii ''PANIC: '' @ info) @ [0x0A]) (uart_init host h) = (Inr () :: unit fault + unit, h')"
      "sent h' = sent (uart_init host h) @ line_bytes (0x0A # ascii ''PANIC: '' @ info)"
    using serial_line.puts_sends[OF line ready, of "(0x0A # ascii ''PANIC: '' @ info) @ [0x0A]"] unfolding line_bytes_def by blast
  then show ?thesis by (auto simp: panic_handler_def io_bind_def halt_loop_never_returns)
qed

end
