(* ===== verification/Test_App.thy ===== *)
theory Test_App
  imports File_Properties Boot_Properties Console_Properties Service_Tables Ui
begin

text \<open>
  \<^verbatim>\<open>src/efi-test-app/src/main.rs\<close>: the conformance test application, a program of its own that knows the
  firmware only through the tables it is handed. The record \<open>services\<close> has the functions it calls, so the
  application is a function of them; \<open>ferro_services\<close> is the firmware's side. The structs the application
  declares are lists of fields with size and alignment, from which the offsets follow as in C.
\<close>

unbundle bit_operations_syntax

section \<open>Structs\<close>

type_synonym struct = "(string \<times> nat \<times> nat) list"

definition align_up :: "nat \<Rightarrow> nat \<Rightarrow> nat" where
  "align_up a n = (n + a - 1) div a * a"

fun field_offset :: "nat \<Rightarrow> struct \<Rightarrow> string \<Rightarrow> nat option" where
  "field_offset n [] f = None"
| "field_offset n ((g, len, a) # fs) f = (if g = f then Some (align_up a n) else field_offset (align_up a n + len) fs f)"

definition offset_of :: "struct \<Rightarrow> string \<Rightarrow> nat option" where
  "offset_of = field_offset 0"

text \<open>A field of pointer size.\<close>

definition ptr :: "string \<Rightarrow> string \<times> nat \<times> nat" where
  "ptr f = (f, 8, 8)"

definition App_TableHeader :: struct where
  "App_TableHeader = [(''signature'', 8, 8), (''revision'', 4, 4), (''header_size'', 4, 4), (''crc32'', 4, 4), (''reserved'', 4, 4)]"

definition App_SimpleTextOutput :: struct where
  "App_SimpleTextOutput = map ptr
     [''reset'', ''output_string'', ''test_string'', ''query_mode'', ''set_mode'', ''set_attribute'', ''clear_screen'',
      ''set_cursor_position'', ''enable_cursor'', ''mode'']"

definition App_SimpleTextInput :: struct where
  "App_SimpleTextInput = map ptr [''reset'', ''read_key_stroke'', ''wait_for_key'']"

definition App_BootServices :: struct where
  "App_BootServices = (''hdr'', 24, 8) # map ptr
     [''raise_tpl'', ''restore_tpl'', ''allocate_pages'', ''free_pages'', ''get_memory_map'', ''allocate_pool'', ''free_pool'',
      ''create_event'', ''set_timer'', ''wait_for_event'', ''signal_event'', ''close_event'', ''check_event'',
      ''install_protocol_interface'', ''reinstall_protocol_interface'', ''uninstall_protocol_interface'', ''handle_protocol'',
      ''reserved'', ''register_protocol_notify'', ''locate_handle'', ''locate_device_path'', ''install_configuration_table'',
      ''load_image'', ''start_image'', ''exit'', ''unload_image'', ''exit_boot_services'', ''get_next_monotonic_count'',
      ''stall'', ''set_watchdog_timer'', ''connect_controller'', ''disconnect_controller'', ''open_protocol'', ''close_protocol'',
      ''open_protocol_information'', ''protocols_per_handle'', ''locate_handle_buffer'', ''locate_protocol'',
      ''install_multiple_protocol_interfaces'', ''uninstall_multiple_protocol_interfaces'', ''calculate_crc32'', ''copy_mem'',
      ''set_mem'', ''create_event_ex'']"

definition App_SystemTable :: struct where
  "App_SystemTable = (''hdr'', 24, 8) # ptr ''firmware_vendor'' # (''firmware_revision'', 4, 4) # map ptr
     [''console_in_handle'', ''con_in'', ''console_out_handle'', ''con_out'', ''standard_error_handle'', ''std_err'',
      ''runtime_services'', ''boot_services'', ''number_of_table_entries'', ''configuration_table'']"

definition App_FileProtocol :: struct where
  "App_FileProtocol = map ptr
     [''revision'', ''open'', ''close'', ''delete'', ''read'', ''write'', ''get_position'', ''set_position'', ''get_info'',
      ''set_info'', ''flush'']"

definition App_SimpleFileSystem :: struct where
  "App_SimpleFileSystem = map ptr [''revision'', ''open_volume'']"

text \<open>The firmware's structs behind the same pointers.\<close>

definition SimpleTextOutputProtocol :: struct where
  "SimpleTextOutputProtocol = map ptr
     [''reset'', ''output_string'', ''test_string'', ''query_mode'', ''set_mode'', ''set_attribute'', ''clear_screen'',
      ''set_cursor_position'', ''enable_cursor'', ''mode'']"

definition SimpleTextInputProtocol :: struct where
  "SimpleTextInputProtocol = map ptr [''reset'', ''read_key_stroke'', ''wait_for_key'']"

definition FileProtocol :: struct where
  "FileProtocol = map ptr
     [''revision'', ''open'', ''close'', ''delete'', ''read'', ''write'', ''get_position'', ''set_position'', ''get_info'',
      ''set_info'', ''flush'']"

definition SimpleFileSystemProtocol :: struct where
  "SimpleFileSystemProtocol = map ptr [''revision'', ''open_volume'']"

section \<open>The application\<close>

text \<open>Out parameters are results; a string argument is its units up to the terminator.\<close>

record 'w services =
  sv_clear_screen :: "('w, unit, efi_status) io"
  sv_output_string :: "u16 list \<Rightarrow> ('w, unit, efi_status) io"
  sv_read_key_stroke :: "input_key \<Rightarrow> ('w, unit, efi_status \<times> input_key) io"
  sv_locate_protocol :: "efi_guid \<Rightarrow> addr \<Rightarrow> ('w, unit, efi_status \<times> addr) io"
  sv_stall :: "u64 \<Rightarrow> ('w, unit, efi_status) io"
  sv_open_volume :: "addr \<Rightarrow> addr \<Rightarrow> ('w, unit, efi_status \<times> addr) io"
  sv_open :: "addr \<Rightarrow> addr \<Rightarrow> char16_ptr \<Rightarrow> u64 \<Rightarrow> u64 \<Rightarrow> ('w, unit, efi_status \<times> addr) io"
  sv_read :: "addr \<Rightarrow> u8 list \<Rightarrow> ('w, unit, efi_status \<times> nat \<times> u8 list) io"
  sv_close :: "addr \<Rightarrow> ('w, unit, efi_status) io"

definition SIMPLE_FILE_SYSTEM_GUID :: efi_guid where
  "SIMPLE_FILE_SYSTEM_GUID =
     \<lparr>data1 = 0x964E5B22, data2 = 0x6459, data3 = 0x11D2, data4 = [0x8E, 0x39, 0x00, 0xA0, 0xC9, 0x69, 0x72, 0x3B]\<rparr>"

definition c_string :: "u16 list \<Rightarrow> u16 list" where
  "c_string buf = takeWhile (\<lambda>c. c \<noteq> 0) buf"

definition app_output :: "'w services \<Rightarrow> u16 list \<Rightarrow> ('w, unit, unit) io" where
  "app_output sv buf = io_bind (sv_output_string sv (c_string buf)) (\<lambda>_. io_return ())"

fun print_fill :: "string \<Rightarrow> u16 list \<Rightarrow> nat \<Rightarrow> u16 list \<times> nat" where
  "print_fill [] buf n = (buf, n)"
| "print_fill (c # cs) buf n =
     (if n \<ge> length buf - 1 then (buf, n) else print_fill cs (buf[n := of_nat (of_char c)]) (n + 1))"

definition app_print :: "'w services \<Rightarrow> string \<Rightarrow> ('w, unit, unit) io" where
  "app_print sv s = (case print_fill s (replicate 256 0) 0 of (buf, n) \<Rightarrow> app_output sv (buf[n := 0]))"

text \<open>Stepping below the first digit is an index out of bounds, as is a number that fills the output buffer.\<close>

fun digits_loop :: "nat \<Rightarrow> u8 list \<Rightarrow> nat \<Rightarrow> (u8 list \<times> nat) option" where
  "digits_loop n digits i =
     (if n > 0 then (if i = 0 then None else digits_loop (n div 10) (digits[i - 1 := 0x30 + of_nat (n mod 10)]) (i - 1))
      else Some (digits, i))"

declare digits_loop.simps [simp del]

definition decimal_digits :: "u64 \<Rightarrow> (u8 list \<times> nat) option" where
  "decimal_digits n =
     (let digits = replicate 20 0; i = length digits in
      if n = 0 then digits_loop 0 (digits[i - 1 := 0x30]) (i - 1) else digits_loop (unat n) digits i)"

definition print_decimal :: "'w services \<Rightarrow> u64 \<Rightarrow> ('w, unit, unit) io" where
  "print_decimal sv n =
     (case decimal_digits n of
        None \<Rightarrow> io_throw Panic
      | Some (digits, i) \<Rightarrow>
          (let len = length digits - i; buf16 = replicate 21 0 in
           if len \<ge> length buf16 then io_throw Panic
           else app_output sv ((put_seg buf16 0 (map ucast (drop i digits)))[len := 0])))"

definition TEST_FILE_NAME :: char16_ptr where
  "TEST_FILE_NAME = name_nt (char_units ''TEST.TXT'')"

definition NESTED_FILE_PATH :: char16_ptr where
  "NESTED_FILE_PATH = name_nt (char_units (CHR 0x5C # ''SUB'' @ CHR 0x5C # ''NESTED.TXT''))"

definition crlf :: string where "crlf = [CHR 0x0D, CHR 0x0A]"
definition quote :: string where "quote = [CHR 0x22]"

primrec app_prints :: "'w services \<Rightarrow> string list \<Rightarrow> ('w, unit, unit) io" where
  "app_prints sv [] = io_return ()"
| "app_prints sv (s # ss) = io_bind (app_print sv s) (\<lambda>_. app_prints sv ss)"

text \<open>A failed step with its status.\<close>

definition app_failed :: "'w services \<Rightarrow> efi_status \<Rightarrow> string \<Rightarrow> ('w, unit, unit) io" where
  "app_failed sv status rest =
     io_bind (app_print sv ''FAILED (status='') (\<lambda>_.
     io_bind (print_decimal sv status) (\<lambda>_. app_print sv rest))"

text \<open>Reading an open file into 128 bytes and printing them; a larger size is an index out of bounds.\<close>

definition app_read :: "'w services \<Rightarrow> addr \<Rightarrow> ('w, unit, unit) io" where
  "app_read sv f =
     io_bind (sv_read sv f (replicate 128 0)) (\<lambda>(status, size, buf).
       if status \<noteq> EFI_SUCCESS then app_print sv (''FAILED'' @ crlf)
       else
         io_bind (app_print sv ''OK, read '') (\<lambda>_.
         io_bind (print_decimal sv (of_nat size)) (\<lambda>_.
         io_bind (app_print sv ('' bytes: '' @ quote)) (\<lambda>_.
           if size > 128 then io_throw Panic
           else
             io_bind (app_output sv ((put_seg (replicate 129 0) 0 (map ucast (take size buf)))[size := 0])) (\<lambda>_.
               app_print sv (quote @ crlf))))))"

text \<open>Steps 4 and 5, and 6 and 7: opening a file, reading and closing it.\<close>

definition app_file :: "'w services \<Rightarrow> addr \<Rightarrow> char16_ptr \<Rightarrow> string \<Rightarrow> string list \<Rightarrow> string \<Rightarrow> ('w, unit, unit) io" where
  "app_file sv root name title found missing =
     io_bind (app_print sv title) (\<lambda>_.
     io_bind (sv_open sv root 0 name 1 0) (\<lambda>(status, f).
       if status \<noteq> EFI_SUCCESS \<or> f = 0 then app_failed sv status missing
       else
         io_bind (app_prints sv found) (\<lambda>_.
         io_bind (app_read sv f) (\<lambda>_.
         io_bind (sv_close sv f) (\<lambda>_. io_return ())))))"

definition app_volume :: "'w services \<Rightarrow> addr \<Rightarrow> ('w, unit, unit) io" where
  "app_volume sv sfs =
     io_bind (app_print sv ''[3] OpenVolume... '') (\<lambda>_.
     io_bind (sv_open_volume sv sfs 0) (\<lambda>(status, root).
       if status \<noteq> EFI_SUCCESS \<or> root = 0 then app_print sv (''FAILED'' @ crlf)
       else
         io_bind (app_print sv (''OK'' @ crlf)) (\<lambda>_.
         io_bind (app_file sv root TEST_FILE_NAME (''[4] Open('' @ quote @ ''TEST.TXT'' @ quote @ '')... '')
                    [''OK'' @ crlf, ''[5] Read()... '']
                    ('') -- expected if TEST.TXT wasn'' @ [CHR 0x27] @ ''t placed on the card'' @ crlf)) (\<lambda>_.
           app_file sv root NESTED_FILE_PATH
             (''[6] Open('' @ quote @ [CHR 0x5C] @ ''SUB'' @ [CHR 0x5C] @ ''NESTED.TXT'' @ quote @ '') -- subdirectory traversal... '')
             [''OK'' @ crlf, ''[7] Read() the nested file... '']
             ('') -- expected if SUB'' @ [CHR 0x5C] @ ''NESTED.TXT wasn'' @ [CHR 0x27] @ ''t placed on the card'' @ crlf)))))"

definition app_file_system :: "'w services \<Rightarrow> ('w, unit, unit) io" where
  "app_file_system sv =
     io_bind (app_print sv ''[2] LocateProtocol(EFI_SIMPLE_FILE_SYSTEM_PROTOCOL)... '') (\<lambda>_.
     io_bind (sv_locate_protocol sv SIMPLE_FILE_SYSTEM_GUID 0) (\<lambda>(status, sfs).
       if status \<noteq> EFI_SUCCESS \<or> sfs = 0 then app_failed sv status ('')'' @ crlf)
       else io_bind (app_print sv (''OK'' @ crlf)) (\<lambda>_. app_volume sv sfs)))"

primrec app_wait_key :: "'w services \<Rightarrow> nat \<Rightarrow> input_key \<Rightarrow> ('w, unit, input_key) io" where
  "app_wait_key sv 0 key = io_throw OutOfFuel"
| "app_wait_key sv (Suc n) key =
     io_bind (sv_read_key_stroke sv key) (\<lambda>(status, key).
       if status = EFI_SUCCESS then io_return key
       else io_bind (sv_stall sv 50000) (\<lambda>_. app_wait_key sv n key))"

definition app_banner :: "string list" where
  "app_banner =
     [''=============================================='' @ crlf,
      ''  Ferro UEFI conformance test'' @ crlf,
      ''  (real aarch64-unknown-uefi binary, not hand-crafted)'' @ crlf,
      ''=============================================='' @ crlf @ crlf,
      ''[1] ConOut.OutputString: if you can read this, it works.'' @ crlf @ crlf]"

text \<open>\<open>n\<close> bounds the calls of ReadKeyStroke.\<close>

definition efi_main :: "'w services \<Rightarrow> nat \<Rightarrow> ('w, unit, efi_status) io" where
  "efi_main sv n =
     io_bind (sv_clear_screen sv) (\<lambda>_.
     io_bind (app_prints sv app_banner) (\<lambda>_.
     io_bind (app_file_system sv) (\<lambda>_.
     io_bind (app_print sv (crlf @ ''[8] Waiting for a keypress via ConIn.ReadKeyStroke...'' @ crlf)) (\<lambda>_.
     io_bind (app_wait_key sv n \<lparr>scan_code = 0, unicode_char = 0\<rparr>) (\<lambda>key.
     io_bind (app_print sv ''    got scan_code='') (\<lambda>_.
     io_bind (print_decimal sv (ucast (scan_code key))) (\<lambda>_.
     io_bind (app_print sv '' unicode_char='') (\<lambda>_.
     io_bind (print_decimal sv (ucast (unicode_char key))) (\<lambda>_.
     io_bind (app_print sv (crlf @ crlf @ ''All checks done. Returning EFI_SUCCESS to the firmware.'' @ crlf)) (\<lambda>_.
       io_return EFI_SUCCESS))))))))))"

section \<open>The tables as the application sees them\<close>

lemma align_up_8: "8 dvd n \<Longrightarrow> align_up 8 n = n"
  by (auto simp: align_up_def)

lemma offset_ptr:
  "distinct fs \<Longrightarrow> i < length fs \<Longrightarrow> 8 dvd n \<Longrightarrow> field_offset n (map ptr fs) (fs ! i) = Some (n + 8 * i)"
proof (induction fs arbitrary: n i)
  case (Cons f fs)
  then show ?case
    by (cases i) (simp_all add: ptr_def align_up_8, metis nth_mem)
qed simp

lemma app_boot_services: "App_BootServices = (''hdr'', 24, 8) # map ptr BOOT_SERVICES_FIELDS"
  by (simp only: App_BootServices_def BOOT_SERVICES_FIELDS_def)

lemma boot_services_distinct: "distinct (''hdr'' # BOOT_SERVICES_FIELDS)"
  by (simp add: BOOT_SERVICES_FIELDS_def)

lemma boot_service_offset:
  assumes "i < length BOOT_SERVICES_FIELDS"
  shows "offset_of App_BootServices (BOOT_SERVICES_FIELDS ! i) = Some (24 + 8 * i)"
proof -
  have "''hdr'' \<noteq> BOOT_SERVICES_FIELDS ! i" using assms boot_services_distinct by (metis distinct.simps(2) nth_mem)
  then show ?thesis
    using offset_ptr[of BOOT_SERVICES_FIELDS i 24] assms boot_services_distinct
    by (simp add: offset_of_def app_boot_services align_up_def)
qed

lemma rd64_seg_table:
  assumes "i < length (tb_fns t)"
  shows "rd64 (seg (table_bytes t) (24 + 8 * i) 8) = tb_fns t ! i"
proof -
  have "concat (map le64 (tb_fns t)) = concat (map le64 (take i (tb_fns t))) @ le64 (tb_fns t ! i) @ concat (map le64 (drop (Suc i) (tb_fns t)))"
    by (subst id_take_nth_drop[OF assms]) (simp only: map_append list.map concat_append concat.simps)
  then have "table_bytes t = (header_bytes (tb_hdr t) @ concat (map le64 (take i (tb_fns t)))) @ le64 (tb_fns t ! i) @ concat (map le64 (drop (Suc i) (tb_fns t)))"
    by (simp add: table_bytes_def)
  moreover have "length (header_bytes (tb_hdr t) @ concat (map le64 (take i (tb_fns t)))) = 24 + 8 * i"
    using assms by (simp add: length_concat sum_list_triv comp_def)
  ultimately have "seg (table_bytes t) (24 + 8 * i) 8 = le64 (tb_fns t ! i)"
    by (simp only:) (rule seg_length_append, simp_all)
  then show ?thesis by simp
qed

text \<open>
  The layouts of the UEFI specification: the offset of every boot service in its table, and of the
  members of the protocols that are called; and the boot services the firmware does not support.
\<close>

definition UEFI_BOOT_SERVICES :: "(string \<times> nat) list" where
  "UEFI_BOOT_SERVICES =
     [(''raise_tpl'', 24), (''restore_tpl'', 32), (''allocate_pages'', 40), (''free_pages'', 48),
      (''get_memory_map'', 56), (''allocate_pool'', 64), (''free_pool'', 72), (''create_event'', 80),
      (''set_timer'', 88), (''wait_for_event'', 96), (''signal_event'', 104), (''close_event'', 112),
      (''check_event'', 120), (''install_protocol_interface'', 128), (''reinstall_protocol_interface'', 136),
      (''uninstall_protocol_interface'', 144), (''handle_protocol'', 152), (''register_protocol_notify'', 168),
      (''locate_handle'', 176), (''locate_device_path'', 184), (''install_configuration_table'', 192),
      (''load_image'', 200), (''start_image'', 208), (''exit'', 216), (''unload_image'', 224),
      (''exit_boot_services'', 232), (''get_next_monotonic_count'', 240), (''stall'', 248),
      (''set_watchdog_timer'', 256), (''connect_controller'', 264), (''disconnect_controller'', 272),
      (''open_protocol'', 280), (''close_protocol'', 288), (''open_protocol_information'', 296),
      (''protocols_per_handle'', 304), (''locate_handle_buffer'', 312), (''locate_protocol'', 320),
      (''install_multiple_protocol_interfaces'', 328), (''uninstall_multiple_protocol_interfaces'', 336),
      (''calculate_crc32'', 344), (''copy_mem'', 352), (''set_mem'', 360), (''create_event_ex'', 368)]"

definition UNSUPPORTED_SERVICES :: "string list" where
  "UNSUPPORTED_SERVICES =
     [''register_protocol_notify'', ''locate_device_path'', ''exit'', ''connect_controller'',
      ''disconnect_controller'', ''open_protocol_information'', ''install_multiple_protocol_interfaces'',
      ''uninstall_multiple_protocol_interfaces'']"

definition UEFI_TEXT_OUTPUT :: "(string \<times> nat) list" where
  "UEFI_TEXT_OUTPUT =
     [(''reset'', 0), (''output_string'', 8), (''test_string'', 16), (''query_mode'', 24), (''set_mode'', 32),
      (''set_attribute'', 40), (''clear_screen'', 48), (''set_cursor_position'', 56), (''enable_cursor'', 64), (''mode'', 72)]"

definition UEFI_TEXT_INPUT :: "(string \<times> nat) list" where
  "UEFI_TEXT_INPUT = [(''reset'', 0), (''read_key_stroke'', 8), (''wait_for_key'', 16)]"

definition UEFI_FILE :: "(string \<times> nat) list" where
  "UEFI_FILE =
     [(''revision'', 0), (''open'', 8), (''close'', 16), (''delete'', 24), (''read'', 32), (''write'', 40),
      (''get_position'', 48), (''set_position'', 56), (''get_info'', 64), (''set_info'', 72), (''flush'', 80)]"

definition UEFI_FILE_SYSTEM :: "(string \<times> nat) list" where
  "UEFI_FILE_SYSTEM = [(''revision'', 0), (''open_volume'', 8)]"

definition laid_out :: "struct \<Rightarrow> (string \<times> nat) list \<Rightarrow> bool" where
  "laid_out st spec \<longleftrightarrow> list_all (\<lambda>(f, off). offset_of st f = Some off) spec"

lemma uefi_fields:
  "list_all (\<lambda>(f, off). \<exists>i < 44. off = 24 + 8 * i \<and> BOOT_SERVICES_FIELDS ! i = f \<and> f \<noteq> ''reserved'') UEFI_BOOT_SERVICES"
  by code_simp

lemma uefi_services:
  "list_all (\<lambda>(f, off). boot_service_fn f = (if f \<in> set UNSUPPORTED_SERVICES then ''stub'' else f)) UEFI_BOOT_SERVICES"
  by code_simp

lemma boot_service_at:
  assumes "(f, off) \<in> set UEFI_BOOT_SERVICES"
  shows "offset_of App_BootServices f = Some off"
    "rd64 (seg (table_bytes (boot_services_init (BOOT_SERVICES link))) off 8) = link (if f \<in> set UNSUPPORTED_SERVICES then ''stub'' else f)"
proof -
  obtain i where i: "i < length BOOT_SERVICES_FIELDS" "off = 24 + 8 * i" "BOOT_SERVICES_FIELDS ! i = f" "f \<noteq> ''reserved''"
    using uefi_fields assms by (fastforce simp: list_all_iff BOOT_SERVICES_FIELDS_def)
  show "offset_of App_BootServices f = Some off" using boot_service_offset[OF i(1)] i(2,3) by simp
  let ?t = "boot_services_init (BOOT_SERVICES link)"
  have t: "tb_fns ?t ! i = link (boot_service_fn f)" "i < length (tb_fns ?t)"
    using i by (simp_all add: boot_services_init_def BOOT_SERVICES_def Let_def)
  have "rd64 (seg (table_bytes ?t) off 8) = link (boot_service_fn f)" using rd64_seg_table[OF t(2)] t(1) i(2) by simp
  moreover have "boot_service_fn f = (if f \<in> set UNSUPPORTED_SERVICES then ''stub'' else f)"
    using uefi_services assms by (fastforce simp: list_all_iff)
  ultimately show "rd64 (seg (table_bytes ?t) off 8) = link (if f \<in> set UNSUPPORTED_SERVICES then ''stub'' else f)" by (simp only:)
qed

text \<open>
  C28: the structs the test application declares and the tables of the firmware both follow the UEFI layout.
  For every boot service the application expects it at its UEFI offset, and there the table that
  \<open>efi_init\<close> leaves in memory has the address of the function of that name, or of the stub for the
  eight services listed as unsupported; in the system table the console and boot services pointers are
  where the application reads them; and the structs of the four protocols have every member at its UEFI
  offset, the application's as well as the firmware's.
\<close>

theorem test_app_abi:
  assumes "efi_init kernel_end link m = (m', bs, rs, st)"
  shows "(\<forall>(f, off) \<in> set UEFI_BOOT_SERVICES. offset_of App_BootServices f = Some off \<and>
      rd64 (seg (table_bytes bs) off 8) = link (if f \<in> set UNSUPPORTED_SERVICES then ''stub'' else f)) \<and>
    offset_of App_SystemTable ''con_out'' = Some 64 \<and> rd64 (seg (system_table_bytes (st\<lparr>con_out := p\<rparr>)) 64 8) = p \<and>
    offset_of App_SystemTable ''con_in'' = Some 48 \<and> rd64 (seg (system_table_bytes (st\<lparr>con_in := p\<rparr>)) 48 8) = p \<and>
    offset_of App_SystemTable ''boot_services'' = Some 96 \<and> rd64 (seg (system_table_bytes st) 96 8) = link ''BOOT_SERVICES'' \<and>
    laid_out App_SimpleTextOutput UEFI_TEXT_OUTPUT \<and> laid_out SimpleTextOutputProtocol UEFI_TEXT_OUTPUT \<and>
    laid_out App_SimpleTextInput UEFI_TEXT_INPUT \<and> laid_out SimpleTextInputProtocol UEFI_TEXT_INPUT \<and>
    laid_out App_FileProtocol UEFI_FILE \<and> laid_out FileProtocol UEFI_FILE \<and>
    laid_out App_SimpleFileSystem UEFI_FILE_SYSTEM \<and> laid_out SimpleFileSystemProtocol UEFI_FILE_SYSTEM"
proof (intro conjI)
  have init: "bs = boot_services_init (BOOT_SERVICES link)" "st = system_table_init link SYSTEM_TABLE"
    using assms by (simp_all add: efi_init_def)
  show "\<forall>(f, off) \<in> set UEFI_BOOT_SERVICES. offset_of App_BootServices f = Some off \<and>
      rd64 (seg (table_bytes bs) off 8) = link (if f \<in> set UNSUPPORTED_SERVICES then ''stub'' else f)"
    unfolding init(1) using boot_service_at by blast
  show "offset_of App_SystemTable ''con_out'' = Some 64" "offset_of App_SystemTable ''con_in'' = Some 48"
      "offset_of App_SystemTable ''boot_services'' = Some 96"
    by (simp_all add: offset_of_def App_SystemTable_def ptr_def align_up_def)
  show "rd64 (seg (system_table_bytes (st\<lparr>con_out := p\<rparr>)) 64 8) = p"
    by (simp add: system_table_bytes_def header_bytes_def seg_def)
  show "rd64 (seg (system_table_bytes (st\<lparr>con_in := p\<rparr>)) 48 8) = p"
    by (simp add: system_table_bytes_def header_bytes_def seg_def)
  show "rd64 (seg (system_table_bytes st) 96 8) = link ''BOOT_SERVICES''"
    by (auto simp: init(2) system_table_bytes_def header_bytes_def seg_def system_table_init_def Let_def)
qed code_simp+

theorem test_app_abi_witness:
  "offset_of App_BootServices ''stall'' = Some 248 \<and>
     rd64 (seg (table_bytes (boot_services_init (BOOT_SERVICES (\<lambda>f. of_nat (0x80000 + length f))))) 248 8) = 0x80005"
proof -
  have "(''stall'', 248) \<in> set UEFI_BOOT_SERVICES" "\<not> ''stall'' \<in> set UNSUPPORTED_SERVICES" by code_simp+
  then show ?thesis
    using test_app_abi[of 0 "\<lambda>f. of_nat (0x80000 + length f)" "\<lparr>next_free_page = 0, generation = 0\<rparr>", THEN conjunct1]
    by (fastforce simp: efi_init_def)
qed

section \<open>What is printed\<close>

lemma c_string_cut:
  assumes "m < length buf" "0 \<notin> set (take m buf)"
  shows "c_string (buf[m := 0]) = take m buf"
proof -
  have "buf[m := 0] = take m buf @ 0 # drop (Suc m) buf" using assms(1) by (simp add: upd_conv_take_nth_drop)
  then show ?thesis using assms(2) unfolding c_string_def by (simp add: takeWhile_tail[of _ 0]) (metis takeWhile_eq_all_conv)
qed

lemma print_fill_take:
  "n < length buf \<Longrightarrow> print_fill s buf n = (buf', n') \<Longrightarrow>
   length buf' = length buf \<and> n' < length buf \<and> take n' buf' = take n buf @ char_units (take (length buf - 1 - n) s)"
proof (induction s buf n rule: print_fill.induct)
  case (2 c cs buf n)
  show ?case
  proof (cases "n \<ge> length buf - 1")
    case False
    then have "take (Suc n) (buf[n := x]) = take n buf @ [x]" for x using 2(2) by (simp add: take_Suc_conv_app_nth)
    moreover have "length buf - Suc n = Suc (length buf - Suc (Suc n))" using False by simp
    ultimately show ?thesis using 2 False by (simp add: char_units_def)
  qed (use 2 in \<open>simp add: char_units_def\<close>)
qed (simp add: char_units_def)

text \<open>\<open>print\<close> hands the console its string, cut off at 255 characters.\<close>

lemma app_print_eq:
  assumes "CHR 0x00 \<notin> set s"
  shows "app_print sv s = io_bind (sv_output_string sv (char_units (take 255 s))) (\<lambda>_. io_return ())"
proof -
  obtain buf n where f: "print_fill s (replicate 256 0) 0 = (buf, n)" by fastforce
  have t: "length buf = 256" "n < 256" "take n buf = char_units (take 255 s)" using print_fill_take[OF _ f] by simp_all
  have z: "of_nat (of_char c) \<noteq> (0 :: u16)" if "c \<in> set s" for c :: char
  proof -
    have "of_char c < (256 :: nat)" by (rule nat_of_char_less_256)
    then have "of_char c mod 65536 = (of_char c :: nat)" by (intro mod_less) linarith
    moreover have "of_char c \<noteq> (0 :: nat)" using that assms of_char_eq_iff[of c "CHR 0x00", where 'a = nat] by auto
    ultimately have "unat (of_nat (of_char c) :: u16) \<noteq> 0" unfolding unat_of_nat by simp
    then show ?thesis by auto
  qed
  then have "0 \<notin> set (char_units (take 255 s))" by (fastforce simp: char_units_def dest: in_set_takeD)
  then have "c_string (buf[n := 0]) = char_units (take 255 s)" using c_string_cut[of n buf] t by simp
  then show ?thesis by (simp add: app_print_def f app_output_def)
qed

lemma digits_loop_dec:
  "0 < n \<Longrightarrow> n < 10 ^ i \<Longrightarrow> i \<le> length ds \<Longrightarrow>
   \<exists>ds' i'. digits_loop n ds i = Some (ds', i') \<and> i' < i \<and> length ds' = length ds \<and> drop i' ds' = dec n @ drop i ds"
proof (induction n arbitrary: ds i rule: less_induct)
  case (less n)
  then obtain j where i: "i = Suc j" by (cases i) auto
  let ?ds = "ds[j := 0x30 + of_nat (n mod 10)]"
  have step: "digits_loop n ds i = digits_loop (n div 10) ?ds j" using less.prems by (simp add: digits_loop.simps[of n] i)
  have "drop j ?ds = (0x30 + of_nat (n mod 10)) # drop i ds" using less.prems(3) i
    by (simp add: Cons_nth_drop_Suc[symmetric])
  then have d: "drop j ?ds = digit 0x61 (n mod 10) # drop i ds" by (simp add: digit_def)
  show ?case
  proof (cases "n < 10")
    case True
    then show ?thesis using step d i by (simp add: digits_loop.simps[of 0] dec_def radix.simps[of 10])
  next
    case False
    then have "dec n = dec (n div 10) @ [digit 0x61 (n mod 10)]" by (simp add: dec_def radix.simps[of 10 _ n])
    moreover have "n div 10 < 10 ^ j" using less.prems(2) i by (simp add: less_mult_imp_div_less mult.commute)
    moreover have "0 < n div 10" "n div 10 < n" using False by (simp_all add: div_greater_zero_iff)
    ultimately obtain ds' i' where "digits_loop (n div 10) ?ds j = Some (ds', i')" "i' < j" "length ds' = length ds"
        "drop i' ds' = dec n @ drop i ds"
      using less.IH[of "n div 10" j ?ds] less.prems(3) d i by auto
    then show ?thesis using step i by (intro exI[of _ ds'] exI[of _ i']) simp
  qed
qed

lemma ucast_unit: "ucast (ucast (b :: u8) :: u16) = b"
  by (rule bit_word_eqI) (simp add: bit_ucast_iff)

lemma ucast_0_iff: "ucast (b :: u8) = (0 :: u16) \<longleftrightarrow> b = 0"
  by (metis ucast_unit unsigned_0)

lemma dec_digits: "0 \<notin> set (dec n)"
  unfolding dec_def
proof (induction n rule: less_induct)
  case (less n)
  have "digit 0x61 k \<noteq> 0" if "k < 10" for k
  proof -
    have "unat (of_nat (0x30 + k) :: u8) \<noteq> 0" using that unfolding unat_of_nat by simp
    then show ?thesis using that by (auto simp: digit_def simp del: of_nat_add)
  qed
  then show ?case using less[of "n div 10"] by (subst radix.simps) auto
qed

lemma decimal_digits_dec:
  "\<exists>ds i. decimal_digits n = Some (ds, i) \<and> i < 20 \<and> length ds = 20 \<and> drop i ds = dec (unat n)"
proof (cases "n = 0")
  case True
  then show ?thesis
    by (simp add: decimal_digits_def Let_def digits_loop.simps dec_def radix.simps digit_def list_update_same_conv numeral_eq_Suc)
next
  case False
  have "unat n < 10 ^ 20" using unat_bound[of n] by simp
  then show ?thesis
    using digits_loop_dec[of "unat n" 20 "replicate 20 0"] False by (simp add: decimal_digits_def Let_def unat_gt_0)
qed

lemma print_decimal_eq:
  "print_decimal sv n = io_bind (sv_output_string sv (map ucast (dec (unat n)))) (\<lambda>_. io_return ())"
proof -
  obtain ds i where d: "decimal_digits n = Some (ds, i)" "i < 20" "length ds = 20" "drop i ds = dec (unat n)"
    using decimal_digits_dec by blast
  let ?buf = "put_seg (replicate 21 0) 0 (map ucast (drop i ds)) :: u16 list"
  have len: "length (dec (unat n)) = 20 - i" using d(3,4) by (metis length_drop)
  have t: "20 - i < length ?buf" "take (20 - i) ?buf = map ucast (dec (unat n))"
    using d(2,4) len by (simp_all add: put_seg_def)
  have "0 \<notin> set (map ucast (dec (unat n)) :: u16 list)"
    using dec_digits[of "unat n"] by (auto simp: ucast_0_iff)
  then have "c_string (?buf[20 - i := 0]) = map ucast (dec (unat n))" using c_string_cut[OF t(1)] t(2) by simp
  moreover have "\<not> 21 \<le> 20 - i" by simp
  ultimately show ?thesis using d by (simp add: print_decimal_def app_output_def Let_def del: diff_diff_left)
qed

text \<open>
  C30: the twenty bytes the test application has for the digits of a number are enough for every 64-bit value:
  \<open>print_decimal\<close> never steps below its buffer, and it is one call of OutputString with the decimal numeral of the value.
\<close>

theorem print_decimal_exact:
  "print_decimal sv n = io_bind (sv_output_string sv (map ucast (dec (unat n)))) (\<lambda>_. io_return ())"
  by (rule print_decimal_eq)

section \<open>The firmware's side\<close>

text \<open>
  The state behind the tables: the boot services' state, the timer, and the file protocol's, whose device is the
  console on the machine. The card is read through the same machine; \<open>fw_wakeups\<close> are the wake-ups of one stall.
\<close>

record 'h app_world =
  aw_boot :: boot_state
  aw_timer :: timer_state
  aw_files :: "'h con_world fp_world"

record 'h firmware =
  fw_host :: "'h usb_host"
  fw_fuel :: nat
  fw_stack :: hid_stack
  fw_dev :: "card \<Rightarrow> 'h block_ops"
  fw_protos :: addr
  fw_cntfrq :: u64
  fw_wakeups :: "bool list"

abbreviation aw_console :: "'h app_world \<Rightarrow> 'h con_world" where
  "aw_console w \<equiv> pw_dev (aw_files w)"

definition on_files :: "('h con_world, 'a) fp_io \<Rightarrow> ('h app_world, unit, 'a) io" where
  "on_files p w = (case p (aw_files w) of (r, fs) \<Rightarrow> (r, w\<lparr>aw_files := fs\<rparr>))"

definition on_console :: "('h, 'a) con_io \<Rightarrow> ('h app_world, unit, 'a) io" where
  "on_console p w = (case p (aw_console w) of (r, c) \<Rightarrow> (r, w\<lparr>aw_files := (aw_files w)\<lparr>pw_dev := c\<rparr>\<rparr>))"

definition on_timer :: "(timer_state, unit, 'a) io \<Rightarrow> ('h app_world, unit, 'a) io" where
  "on_timer p w = (case p (aw_timer w) of (r, t) \<Rightarrow> (r, w\<lparr>aw_timer := t\<rparr>))"

definition console_dev :: "'h firmware \<Rightarrow> card \<Rightarrow> 'h con_world block_ops" where
  "console_dev fw c = \<lparr>op_read = (\<lambda>lba. on_hw (op_read (fw_dev fw c) lba)), op_write = (\<lambda>lba data. on_hw (op_write (fw_dev fw c) lba data))\<rparr>"

definition ferro_services :: "'h firmware \<Rightarrow> 'h app_world services" where
  "ferro_services fw =
     (let host = fw_host fw; fuel = fw_fuel fw; dev = console_dev fw; protos = fw_protos fw;
          out = (\<lambda>(status, p). io_return (status, the p)) in
      \<lparr>sv_clear_screen = on_console (clear_screen host fuel),
       sv_output_string = (\<lambda>s. on_console (output_string host fuel (Some s))),
       sv_read_key_stroke = (\<lambda>key. on_console (io_bind (read_key_stroke host fuel (fw_stack fw) (Some key)) (\<lambda>(status, k). io_return (status, the k)))),
       sv_locate_protocol = (\<lambda>guid p w. case locate_protocol (Some guid) (Some p) (aw_boot w) of (status, i) \<Rightarrow> (Inr (status, the i), w)),
       sv_stall = (\<lambda>us. on_timer (stall (fw_cntfrq fw) (fw_wakeups fw) us)),
       sv_open_volume = (\<lambda>_ root. on_files (io_bind (open_volume dev fuel protos (Some root)) out)),
       sv_open = (\<lambda>f new name mode _. on_files (io_bind (file_open dev fuel protos f (Some new) (Some name) mode) out)),
       sv_read = (\<lambda>f buf w. case file_read protos f (Some (length buf)) False (aw_files w) of
          (tr, fs) \<Rightarrow> (Inr (tr_status tr, the (tr_size tr), put_seg buf 0 (tr_bytes tr)), w\<lparr>aw_files := fs\<rparr>)),
       sv_close = (\<lambda>f. on_files (file_close dev fuel protos f))\<rparr>)"

section \<open>Transcripts\<close>

text \<open>What the application relies on to be seen: the two console calls, where the first part of \<open>view\<close> is what has been shown.\<close>

locale console_services =
  fixes sv :: "'w services" and live :: "'w \<Rightarrow> bool" and view :: "'w \<Rightarrow> u8 list \<times> 'r"
  assumes shown: "runs live view (sv_output_string sv us) (t, r) (Inr EFI_SUCCESS) (t @ map ucast (filter mirrored us), r)"
    and cleared: "runs live view (sv_clear_screen sv) (t, r) (Inr EFI_SUCCESS) (t, r)"

text \<open>Strings that are shown as they are.\<close>

definition plain :: "string \<Rightarrow> bool" where
  "plain s \<longleftrightarrow> length s \<le> 255 \<and> (\<forall>c \<in> set s. mirrored (of_nat (of_char c)))"

lemma ucast_char: "ucast (of_nat n :: u16) = (of_nat n :: u8)"
  by (simp add: word_unat_eq_iff unsigned_ucast_eq unat_of_nat mod_mod_cancel take_bit_eq_mod)

lemma plain_units:
  assumes "plain s"
  shows "CHR 0x00 \<notin> set s" "take 255 s = s" "map ucast (filter mirrored (char_units s)) = ascii s"
proof -
  have "\<not> mirrored (of_nat (of_char (CHR 0x00)))" by (simp add: mirrored_def printable_def)
  then show "CHR 0x00 \<notin> set s" "take 255 s = s" using assms by (auto simp: plain_def)
  have "filter mirrored (char_units s) = char_units s" using assms by (auto simp: plain_def char_units_def filter_id_conv)
  then show "map ucast (filter mirrored (char_units s)) = ascii s" by (simp add: char_units_def ascii_def ucast_char)
qed

lemma dec_mirrored: "b \<in> set (dec n) \<Longrightarrow> mirrored (ucast b)"
  unfolding dec_def
proof (induction n rule: less_induct)
  case (less n)
  have d: "mirrored (ucast (digit 0x61 k))" if "k < 10" for k
  proof -
    have "\<forall>k \<in> {..<10}. mirrored (ucast (digit 0x61 k))" by code_simp
    then show ?thesis using that by simp
  qed
  have "b \<in> (if n < 10 then {digit 0x61 n} else set (radix 10 0x61 (n div 10)) \<union> {digit 0x61 (n mod 10)})"
    using less.prems by (simp add: radix.simps[of 10 _ n] split: if_splits)
  then show ?case using less.IH[of "n div 10"] d[of n] d[of "n mod 10"] by (auto split: if_splits)
qed

context console_services
begin

lemma output_says: "runs live view (io_bind (sv_output_string sv us) (\<lambda>_. io_return ())) (t, r) (Inr ()) (t @ map ucast (filter mirrored us), r)"
  by (rule runs_bind[OF shown runs_return])

lemma print_says: "plain s \<Longrightarrow> runs live view (app_print sv s) (t, r) (Inr ()) (t @ ascii s, r)"
  using output_says[of "char_units s"] by (simp add: app_print_eq plain_units)

lemma prints_says: "\<forall>s \<in> set ss. plain s \<Longrightarrow> runs live view (app_prints sv ss) (t, r) (Inr ()) (t @ ascii (concat ss), r)"
proof (induction ss arbitrary: t)
  case (Cons s ss)
  then have "runs live view (app_prints sv ss) (t @ ascii s, r) (Inr ()) ((t @ ascii s) @ ascii (concat ss), r)"
    by (intro Cons.IH) simp
  then show ?case using runs_bind[OF print_says[of s t r]] Cons.prems by (simp add: ascii_def)
qed (simp add: runs_return ascii_def)

lemma decimal_says: "runs live view (print_decimal sv n) (t, r) (Inr ()) (t @ dec (unat n), r)"
proof -
  have "filter mirrored (map ucast (dec (unat n))) = (map ucast (dec (unat n)) :: u16 list)"
    using dec_mirrored by (simp add: filter_id_conv)
  then show ?thesis using output_says[of "map ucast (dec (unat n))" t r] by (simp add: print_decimal_eq comp_def ucast_unit)
qed

end

section \<open>The application on the firmware\<close>

definition app_live :: "('h \<Rightarrow> bool) \<Rightarrow> framebuffer \<Rightarrow> 'h app_world \<Rightarrow> bool" where
  "app_live up fb w \<longleftrightarrow> (let c = aw_console w in up (cw_hw c) \<and> cw_uart c \<and> cw_fb c = Some fb \<and> cw_kbd c = None \<and> cw_esc c = 0)"

type_synonym app_view = "u8 list \<times> u8 list \<times> open_file list \<times> boot_state"

definition app_view :: "('h \<Rightarrow> u8 list) \<Rightarrow> ('h \<Rightarrow> u8 list) \<Rightarrow> 'h app_world \<Rightarrow> app_view" where
  "app_view sent received w = (sent (cw_hw (aw_console w)), received (cw_hw (aw_console w)), fp_files (aw_files w), aw_boot w)"

locale ferro_app = serial_line "fw_host fw" "fw_fuel fw" up sent received backlog
  for fw :: "'h firmware" and up :: "'h \<Rightarrow> bool" and sent received :: "'h \<Rightarrow> u8 list" and backlog :: "'h \<Rightarrow> nat" +
  fixes fb :: framebuffer
  assumes cache: "quiet (fw_host fw) up sent" "quiet (fw_host fw) up received"
    and screen: "fb_flushable (fw_host fw) (fw_fuel fw) fb"
begin

lemma app_console_step:
  assumes "p (aw_console w) = (Inr x, c)" "con_kept up received (aw_console w) c" "sent (cw_hw c) = sent (cw_hw (aw_console w)) @ u"
    and "app_live up fb w" "app_view sent received w = (t, r)"
  shows "\<exists>w'. on_console p w = (Inr x, w') \<and> app_live up fb w' \<and> app_view sent received w' = (t @ u, r)"
  using assms by (auto simp: on_console_def con_kept_def app_live_def app_view_def Let_def)

lemma ferro_shown:
  "runs (app_live up fb) (app_view sent received) (sv_output_string (ferro_services fw) us) (t, r) (Inr EFI_SUCCESS)
     (t @ map ucast (filter mirrored us), r)"
  unfolding runs_def
proof (intro allI impI)
  fix w assume w: "app_live up fb w" "app_view sent received w = (t, r)"
  obtain c where "output_string (fw_host fw) (fw_fuel fw) (Some us) (aw_console w) = (Inr EFI_SUCCESS, c)"
      "sent (cw_hw c) = sent (cw_hw (aw_console w)) @ map ucast (filter mirrored us)" "con_kept up received (aw_console w) c"
    using output_string_sends[OF serial_line_axioms cache(1) _ screen, of "aw_console w" us] cache(2) w(1)
    by (auto simp: app_live_def Let_def)
  then show "\<exists>w'. sv_output_string (ferro_services fw) us w = (Inr EFI_SUCCESS, w') \<and> app_live up fb w' \<and>
      app_view sent received w' = (t @ map ucast (filter mirrored us), r)"
    using app_console_step[OF _ _ _ w] by (simp add: ferro_services_def Let_def)
qed

lemma ferro_cleared:
  "runs (app_live up fb) (app_view sent received) (sv_clear_screen (ferro_services fw)) (t, r) (Inr EFI_SUCCESS) (t, r)"
  unfolding runs_def
proof (intro allI impI)
  fix w assume w: "app_live up fb w" "app_view sent received w = (t, r)"
  obtain c where "clear_screen (fw_host fw) (fw_fuel fw) (aw_console w) = (Inr EFI_SUCCESS, c)"
      "sent (cw_hw c) = sent (cw_hw (aw_console w)) @ []" "con_kept up received (aw_console w) c"
    using clear_screen_sends_nothing[OF cache _ screen, of "aw_console w"] w(1) by (auto simp: app_live_def Let_def)
  then show "\<exists>w'. sv_clear_screen (ferro_services fw) w = (Inr EFI_SUCCESS, w') \<and> app_live up fb w' \<and>
      app_view sent received w' = (t, r)"
    using app_console_step[OF _ _ _ w, of "clear_screen (fw_host fw) (fw_fuel fw)" EFI_SUCCESS c "[]"] by (simp add: ferro_services_def Let_def)
qed

end

sublocale ferro_app \<subseteq> console_services "ferro_services fw" "app_live up fb" "app_view sent received"
  by unfold_locales (rule ferro_shown, rule ferro_cleared)

lemma mirrored_not_0: "mirrored (ucast b) \<Longrightarrow> ucast b \<noteq> (0 :: u16)"
  by (auto simp: mirrored_def printable_def)

lemma c_string_bytes:
  assumes "length bs \<le> 128" "\<forall>b \<in> set bs. mirrored (ucast b)"
  shows "c_string ((put_seg (replicate 129 0) 0 (map ucast bs))[length bs := 0]) = map ucast bs"
proof -
  let ?buf = "put_seg (replicate 129 0) 0 (map ucast bs) :: u16 list"
  have t: "length bs < length ?buf" "take (length bs) ?buf = map ucast bs" using assms(1) by (simp_all add: put_seg_def)
  have "0 \<notin> set (map ucast bs :: u16 list)" using assms(2) mirrored_not_0 by fastforce
  then show ?thesis using c_string_cut[OF t(1)] t(2) by simp
qed

context console_services
begin

lemma bytes_say:
  assumes "length bs \<le> 128" "\<forall>b \<in> set bs. mirrored (ucast b)"
  shows "runs live view (app_output sv ((put_seg (replicate 129 0) 0 (map ucast bs))[length bs := 0])) (t, r) (Inr ()) (t @ bs, r)"
proof -
  have "filter mirrored (map ucast bs) = (map ucast bs :: u16 list)" using assms(2) by (simp add: filter_id_conv)
  then show ?thesis using output_says[of "map ucast bs" t r] c_string_bytes[OF assms] by (simp add: app_output_def comp_def ucast_unit)
qed

text \<open>Reading a file shows its bytes between quotes, after their number.\<close>

lemma read_says:
  assumes rd: "runs live view (sv_read sv f (replicate 128 0)) (t, r) (Inr (EFI_SUCCESS, length bs, bs @ rest)) (t, r')"
    and bs: "length bs \<le> 128" "\<forall>b \<in> set bs. mirrored (ucast b)"
    and lit: "plain ''OK, read ''" "plain ('' bytes: '' @ quote)" "plain (quote @ crlf)"
  shows "runs live view (app_read sv f) (t, r) (Inr ())
    (t @ ascii ''OK, read '' @ dec (length bs) @ ascii ('' bytes: '' @ quote) @ bs @ ascii (quote @ crlf), r')"
proof -
  have n: "unat (of_nat (length bs) :: u64) = length bs" using bs(1) by (simp add: unat_of_nat)
  have "runs live view (app_read sv f) (t, r) (Inr ())
    (((((t @ ascii ''OK, read '') @ dec (unat (of_nat (length bs) :: u64))) @ ascii ('' bytes: '' @ quote)) @ bs) @ ascii (quote @ crlf), r')"
    unfolding app_read_def
    by (rule runs_bind[OF rd], unfold prod.case, simp only: if_True if_False refl not_True_eq_False not_less[THEN iffD2, OF bs(1)],
        rule runs_bind[OF print_says[OF lit(1)]], rule runs_bind[OF decimal_says], rule runs_bind[OF print_says[OF lit(2)]],
        simp add: bs(1) flip: append_assoc, rule runs_bind[OF bytes_say[OF bs]], rule print_says[OF lit(3)])
  then show ?thesis by (simp add: n)
qed

end

lemma app_literals_plain:
  "plain ''OK, read ''" "plain ('' bytes: '' @ quote)" "plain (quote @ crlf)" "plain ''FAILED (status=''" "plain ('')'' @ crlf)"
  "plain ''[2] LocateProtocol(EFI_SIMPLE_FILE_SYSTEM_PROTOCOL)... ''"
  "plain (crlf @ ''[8] Waiting for a keypress via ConIn.ReadKeyStroke...'' @ crlf)" "plain ''    got scan_code=''" "plain '' unicode_char=''"
  "plain (crlf @ crlf @ ''All checks done. Returning EFI_SUCCESS to the firmware.'' @ crlf)"
  by code_simp+

lemma app_banner_plain: "\<forall>s \<in> set app_banner. plain s"
  by code_simp

context console_services
begin

lemma failed_says:
  assumes "plain rest"
  shows "runs live view (app_failed sv status rest) (t, r) (Inr ()) (t @ ascii ''FAILED (status='' @ dec (unat status) @ ascii rest, r)"
proof -
  have "runs live view (app_failed sv status rest) (t, r) (Inr ()) (((t @ ascii ''FAILED (status='') @ dec (unat status)) @ ascii rest, r)"
    unfolding app_failed_def
    by (rule runs_bind[OF print_says[OF app_literals_plain(4)]], rule runs_bind[OF decimal_says], rule print_says[OF assms])
  then show ?thesis by simp
qed

end

context ferro_app
begin

lemma ferro_read:
  assumes slot: "this_to_index (fw_protos fw) files f = Some i" "files_ok files" "f_dir_cluster (files ! i) = None"
    and bs: "bs = take 128 (drop (f_pos (files ! i)) (contents_of (files ! i)))"
  shows "runs (app_live up fb) (app_view sent received) (sv_read (ferro_services fw) f (replicate 128 0)) (t, r, files, bo)
    (Inr (EFI_SUCCESS, length bs, bs @ drop (length bs) (replicate 128 0)))
    (t, r, files[i := (files ! i)\<lparr>f_pos := f_pos (files ! i) + length bs\<rparr>], bo)"
  unfolding runs_def
proof (intro allI impI)
  fix w assume w: "app_live up fb w" "app_view sent received w = (t, r, files, bo)"
  let ?f = "files ! i"
  have i: "i < length files" "file_ok ?f" using this_to_indexD[OF slot(1)] slot(2) by (auto simp: files_ok_def)
  have len: "length bs = min (f_len ?f - f_pos ?f) 128" using i(2) bs by (simp add: length_contents_of min.commute)
  have "seg (f_data ?f) (f_pos ?f) (min (f_len ?f - f_pos ?f) 128) = bs"
    using file_read_bytes[OF i(2), of "min (f_len ?f - f_pos ?f) 128"] bs len i(2) by (simp add: length_contents_of min_def)
  then show "\<exists>w'. sv_read (ferro_services fw) f (replicate 128 0) w = (Inr (EFI_SUCCESS, length bs, bs @ drop (length bs) (replicate 128 0)), w') \<and>
      app_live up fb w' \<and> app_view sent received w' = (t, r, files[i := ?f\<lparr>f_pos := f_pos ?f + length bs\<rparr>], bo)"
    using w slot(1,3) len i(1) by (simp add: ferro_services_def Let_def file_read_def app_view_def app_live_def upd_file_def put_seg_def)
qed

lemma file_shown:
  assumes "this_to_index (fw_protos fw) files f = Some i" "files_ok files" "f_dir_cluster (files ! i) = None"
    and "bs = take 128 (drop (f_pos (files ! i)) (contents_of (files ! i)))" "\<forall>b \<in> set bs. mirrored (ucast b)"
  shows "runs (app_live up fb) (app_view sent received) (app_read (ferro_services fw) f) (t, r, files, bo) (Inr ())
    (t @ ascii ''OK, read '' @ dec (length bs) @ ascii ('' bytes: '' @ quote) @ bs @ ascii (quote @ crlf), r,
     files[i := (files ! i)\<lparr>f_pos := f_pos (files ! i) + length bs\<rparr>], bo)"
  by (rule read_says[OF ferro_read[OF assms(1-4)] _ assms(5) app_literals_plain(1,2,3)]) (simp add: assms(4))

lemma key_taken:
  assumes "uart_byte_to_key b 0 = (Some k, 0)"
  shows "runs (app_live up fb) (app_view sent received) (sv_read_key_stroke (ferro_services fw) key) (t, b # bs, fs, bo)
    (Inr (EFI_SUCCESS, k)) (t, bs, fs, bo)"
  unfolding runs_def
proof (intro allI impI)
  fix w assume w: "app_live up fb w" "app_view sent received w = (t, b # bs, fs, bo)"
  then have up: "up (cw_hw (aw_console w))" "received (cw_hw (aw_console w)) = b # bs" by (simp_all add: app_live_def app_view_def Let_def)
  obtain h' where h: "uart_getc (fw_host fw) (cw_hw (aw_console w)) = (Some b, h')" "up h'" "received h' = bs" "sent h' = sent (cw_hw (aw_console w))"
    using getc_takes[OF up(1)] up(2) by auto
  then show "\<exists>w'. sv_read_key_stroke (ferro_services fw) key w = (Inr (EFI_SUCCESS, k), w') \<and> app_live up fb w' \<and>
      app_view sent received w' = (t, bs, fs, bo)"
    using w assms by (simp add: ferro_services_def Let_def on_console_def read_key_stroke_def poll_key_raw_def io_bind_def io_return_def
        app_live_def app_view_def)
qed

lemma locate_fails:
  assumes "locate (bs_handles bo) SIMPLE_FILE_SYSTEM_GUID = None"
  shows "runs (app_live up fb) (app_view sent received) (sv_locate_protocol (ferro_services fw) SIMPLE_FILE_SYSTEM_GUID 0) (t, r, fs, bo)
    (Inr (EFI_NOT_FOUND, 0)) (t, r, fs, bo)"
  using assms by (auto simp: runs_def ferro_services_def Let_def locate_protocol_def app_view_def)

end

context ferro_app
begin

text \<open>A run without a file system; \<open>key\<close> is the key that ends it.\<close>

lemma main_without_volume:
  assumes loc: "locate (bs_handles bo) SIMPLE_FILE_SYSTEM_GUID = None" and key: "uart_byte_to_key b 0 = (Some key, 0)"
  shows "runs (app_live up fb) (app_view sent received) (efi_main (ferro_services fw) (Suc n)) (t, b # bs, fs, bo) (Inr EFI_SUCCESS)
    (t @ ascii (concat app_banner) @ ascii ''[2] LocateProtocol(EFI_SIMPLE_FILE_SYSTEM_PROTOCOL)... '' @
       ascii ''FAILED (status='' @ dec (unat EFI_NOT_FOUND) @ ascii ('')'' @ crlf) @
       ascii (crlf @ ''[8] Waiting for a keypress via ConIn.ReadKeyStroke...'' @ crlf) @
       ascii ''    got scan_code='' @ dec (unat (ucast (scan_code key) :: u64)) @
       ascii '' unicode_char='' @ dec (unat (ucast (unicode_char key) :: u64)) @
       ascii (crlf @ crlf @ ''All checks done. Returning EFI_SUCCESS to the firmware.'' @ crlf), bs, fs, bo)"
proof -
  note lit = app_literals_plain
  have nf: "(EFI_NOT_FOUND = EFI_SUCCESS) = False" by (simp add: EFI_NOT_FOUND_def EFI_SUCCESS_def ERROR_BIT_def)
  have fsys: "runs (app_live up fb) (app_view sent received) (app_file_system (ferro_services fw)) (u, r, fs, bo) (Inr ())
      ((u @ ascii ''[2] LocateProtocol(EFI_SIMPLE_FILE_SYSTEM_PROTOCOL)... '') @ ascii ''FAILED (status='' @ dec (unat EFI_NOT_FOUND) @
         ascii ('')'' @ crlf), r, fs, bo)" for u r
    unfolding app_file_system_def
    by (rule runs_bind[OF print_says[OF lit(6)]], rule runs_bind[OF locate_fails[OF loc]], simp only: prod.case nf not_False_eq_True simp_thms if_True,
        rule failed_says[OF lit(5)])
  have wait: "runs (app_live up fb) (app_view sent received) (app_wait_key (ferro_services fw) (Suc n) key0) (u, b # bs, fs, bo) (Inr key) (u, bs, fs, bo)" for u key0
    unfolding app_wait_key.simps by (rule runs_bind[OF key_taken[OF key]]) (simp add: runs_return)
  have "runs (app_live up fb) (app_view sent received) (efi_main (ferro_services fw) (Suc n)) (t, b # bs, fs, bo) (Inr EFI_SUCCESS)
    (((((((((t @ ascii (concat app_banner)) @ ascii ''[2] LocateProtocol(EFI_SIMPLE_FILE_SYSTEM_PROTOCOL)... '') @
       ascii ''FAILED (status='' @ dec (unat EFI_NOT_FOUND) @ ascii ('')'' @ crlf)) @
       ascii (crlf @ ''[8] Waiting for a keypress via ConIn.ReadKeyStroke...'' @ crlf)) @
       ascii ''    got scan_code='') @ dec (unat (ucast (scan_code key) :: u64))) @
       ascii '' unicode_char='') @ dec (unat (ucast (unicode_char key) :: u64))) @
       ascii (crlf @ crlf @ ''All checks done. Returning EFI_SUCCESS to the firmware.'' @ crlf), bs, fs, bo)"
    unfolding efi_main_def
    by (rule runs_bind[OF cleared], rule runs_bind[OF prints_says[OF app_banner_plain]], rule runs_bind[OF fsys],
        rule runs_bind[OF print_says[OF lit(7)]], rule runs_bind[OF wait], rule runs_bind[OF print_says[OF lit(8)]],
        rule runs_bind[OF decimal_says], rule runs_bind[OF print_says[OF lit(9)]], rule runs_bind[OF decimal_says],
        rule runs_bind[OF print_says[OF lit(10)]], rule runs_return)
  then show ?thesis by (simp only: append_assoc)
qed

end

text \<open>A machine with only a serial line, one open file and one key typed.\<close>

definition term_firmware :: "(u8 list \<times> u8 list) firmware" where
  "term_firmware = \<lparr>fw_host = term_host, fw_fuel = 40000, fw_stack = queue_stack, fw_dev = (\<lambda>_. \<lparr>op_read = (\<lambda>_ h. (Inl (Err SdTimeout), h)),
     op_write = (\<lambda>_ _ h. (Inl (Err SdTimeout), h))\<rparr>), fw_protos = 0x1000, fw_cntfrq = 19200000, fw_wakeups = []\<rparr>"

definition term_file :: open_file where
  "term_file = EMPTY_FILE\<lparr>f_in_use := True, f_data := [0x48, 0x69] @ replicate (MAX_FILE_BYTES - 2) 0, f_len := 2\<rparr>"

definition term_app :: "(u8 list \<times> u8 list) app_world" where
  "term_app = \<lparr>aw_boot = BOOT_INIT (\<lambda>_. 0), aw_timer = \<lparr>tm_ticks = 0, tick_interval = 1\<rparr>,
     aw_files = \<lparr>pw_vars = VARS_INIT, pw_context = None, pw_dev = demo_console True None ([], [0x71]), fp_files = FILES_INIT[0 := term_file]\<rparr>\<rparr>"

interpretation term_app: ferro_app term_firmware "\<lambda>_. True" fst snd "\<lambda>_. 0" demo_fb
proof -
  have host: "fw_host term_firmware = term_host" "fw_fuel term_firmware = 40000" by (simp_all add: term_firmware_def)
  show "ferro_app term_firmware (\<lambda>_. True) fst snd (\<lambda>_. 0) demo_fb"
    unfolding ferro_app_def ferro_app_axioms_def host
  proof (intro conjI)
    show "serial_line term_host 40000 (\<lambda>_. True) fst snd (\<lambda>_. 0)" by (rule term_line.serial_line_axioms)
    show "quiet term_host (\<lambda>_. True) fst" "quiet term_host (\<lambda>_. True) snd" by (simp_all add: quiet_def term_host_def)
    show "fb_flushable term_host 40000 demo_fb"
      by (simp add: fb_flushable_def fb_size_def demo_fb_def line_size_def term_host_def)
  qed
qed

lemma locate_init: "locate (replicate n EMPTY_HANDLE) guid = None"
  by (induction n) (simp_all add: EMPTY_HANDLE_def)

lemma term_app_live: "app_live (\<lambda>_. True) demo_fb term_app"
  by (simp add: app_live_def term_app_def demo_console_def)

text \<open>
  C29: the test application shows the file it has opened. On the firmware's services, with a working serial line and a
  framebuffer, reading an open file sends to the line the number of bytes read in decimal and, between quotes, the
  next bytes of the file, at most 128 of them, as they are (for a text file: printable bytes and line ends); the file
  is positioned after them, and no other file is touched.
\<close>

theorem test_app_shows_file:
  assumes app: "ferro_app fw up sent received backlog fb" and w: "app_live up fb w"
    and slot: "this_to_index (fw_protos fw) (fp_files (aw_files w)) f = Some i" "files_ok (fp_files (aw_files w))"
      "fl = fp_files (aw_files w) ! i" "f_dir_cluster fl = None"
    and bs: "bs = take 128 (drop (f_pos fl) (contents_of fl))" "\<forall>b \<in> set bs. b = 0x0D \<or> b = 0x0A \<or> 0x20 \<le> b \<and> b \<le> 0x7E"
  shows "\<exists>w'. app_read (ferro_services fw) f w = (Inr (), w') \<and>
    sent (cw_hw (aw_console w')) = sent (cw_hw (aw_console w)) @
      ascii ''OK, read '' @ dec (length bs) @ ascii ('' bytes: '' @ quote) @ bs @ ascii (quote @ crlf) \<and>
    fp_files (aw_files w') = (fp_files (aw_files w))[i := fl\<lparr>f_pos := f_pos fl + length bs\<rparr>]"
proof -
  have m: "\<forall>b \<in> set bs. mirrored (ucast b)"
  proof
    fix b assume "b \<in> set bs"
    with bs(2) have "b = 0x0D \<or> b = 0x0A \<or> 0x20 \<le> b \<and> b \<le> 0x7E" by blast
    moreover have "take_bit 16 (unat b) = unat b" using unat_bound[of b] by (simp add: take_bit_nat_eq_self)
    ultimately show "mirrored (ucast b)" by (auto simp: mirrored_def printable_def word_le_nat_alt unsigned_ucast_eq)
  qed
  from runsD[OF ferro_app.file_shown[OF app slot(1,2) slot(4)[unfolded slot(3)] bs(1)[unfolded slot(3)] m] w app_view_def[of sent received w]]
  show ?thesis by (auto simp: app_view_def slot(3))
qed

theorem test_app_shows_file_witness:
  "\<exists>w'. app_read (ferro_services term_firmware) 0x1000 term_app = (Inr (), w') \<and>
     fst (cw_hw (aw_console w')) = ascii ''OK, read '' @ dec 2 @ ascii ('' bytes: '' @ quote) @ [0x48, 0x69] @ ascii (quote @ crlf)"
proof -
  let ?files = "fp_files (aw_files term_app)"
  have slot: "this_to_index (fw_protos term_firmware) ?files 0x1000 = Some 0" "term_file = ?files ! 0" "f_dir_cluster term_file = None"
    by (simp_all add: term_app_def term_firmware_def this_to_index_def FILES_INIT_def MAX_OPEN_FILES_def FILE_PROTOCOL_SIZE_def term_file_def EMPTY_FILE_def)
  have ok: "files_ok ?files"
    by (auto simp: files_ok_def term_app_def FILES_INIT_def MAX_OPEN_FILES_def nth_list_update file_ok_def term_file_def EMPTY_FILE_def MAX_FILE_BYTES_def)
  have bs: "[0x48, 0x69] = take 128 (drop (f_pos term_file) (contents_of term_file))"
      "\<forall>b \<in> set [0x48, 0x69 :: u8]. b = 0x0D \<or> b = 0x0A \<or> 0x20 \<le> b \<and> b \<le> 0x7E"
    by (simp_all add: term_file_def EMPTY_FILE_def contents_of_def)
  show ?thesis
    using test_app_shows_file[OF term_app.ferro_app_axioms term_app_live slot(1) ok slot(2,3) bs] by (auto simp: term_app_def demo_console_def numeral_2_eq_2)
qed

text \<open>
  Without a card the test application says so and still returns. On the firmware's services, when no handle has
  the file system protocol, the whole program ends with success after one key, and what it has sent to the serial
  line is its banner, the failed step with the status EFI_NOT_FOUND in decimal, and the codes of the key.
\<close>

theorem test_app_without_card:
  assumes app: "ferro_app fw up sent received backlog fb" and w: "app_live up fb w"
    and loc: "locate (bs_handles (aw_boot w)) SIMPLE_FILE_SYSTEM_PROTOCOL_GUID = None"
    and key: "received (cw_hw (aw_console w)) = b # bs" "uart_byte_to_key b 0 = (Some key, 0)"
  shows "\<exists>w'. efi_main (ferro_services fw) (Suc n) w = (Inr EFI_SUCCESS, w') \<and> received (cw_hw (aw_console w')) = bs \<and>
    sent (cw_hw (aw_console w')) = sent (cw_hw (aw_console w)) @
      ascii (concat app_banner) @ ascii ''[2] LocateProtocol(EFI_SIMPLE_FILE_SYSTEM_PROTOCOL)... '' @
      ascii ''FAILED (status='' @ dec (unat EFI_NOT_FOUND) @ ascii ('')'' @ crlf) @
      ascii (crlf @ ''[8] Waiting for a keypress via ConIn.ReadKeyStroke...'' @ crlf) @
      ascii ''    got scan_code='' @ dec (unat (ucast (scan_code key) :: u64)) @
      ascii '' unicode_char='' @ dec (unat (ucast (unicode_char key) :: u64)) @
      ascii (crlf @ crlf @ ''All checks done. Returning EFI_SUCCESS to the firmware.'' @ crlf)"
proof -
  have g: "locate (bs_handles (aw_boot w)) SIMPLE_FILE_SYSTEM_GUID = None"
    using loc by (simp add: SIMPLE_FILE_SYSTEM_GUID_def SIMPLE_FILE_SYSTEM_PROTOCOL_GUID_def)
  have v: "app_view sent received w = (sent (cw_hw (aw_console w)), b # bs, fp_files (aw_files w), aw_boot w)"
    using key(1) by (simp add: app_view_def)
  from runsD[OF ferro_app.main_without_volume[OF app g key(2)] w v]
  show ?thesis by (auto simp: app_view_def)
qed

theorem test_app_without_card_witness:
  "\<exists>w'. efi_main (ferro_services term_firmware) 1 term_app = (Inr EFI_SUCCESS, w') \<and>
     fst (cw_hw (aw_console w')) =
       ascii (concat app_banner) @ ascii ''[2] LocateProtocol(EFI_SIMPLE_FILE_SYSTEM_PROTOCOL)... '' @
       ascii ''FAILED (status='' @ dec (unat EFI_NOT_FOUND) @ ascii ('')'' @ crlf) @
       ascii (crlf @ ''[8] Waiting for a keypress via ConIn.ReadKeyStroke...'' @ crlf) @
       ascii ''    got scan_code='' @ dec 0 @ ascii '' unicode_char='' @ dec 0x71 @
       ascii (crlf @ crlf @ ''All checks done. Returning EFI_SUCCESS to the firmware.'' @ crlf)"
proof -
  have w: "locate (bs_handles (aw_boot term_app)) SIMPLE_FILE_SYSTEM_PROTOCOL_GUID = None" "snd (cw_hw (aw_console term_app)) = [0x71]"
    by (simp_all add: term_app_def BOOT_INIT_def HANDLES_INIT_def demo_console_def locate_init)
  have k: "uart_byte_to_key 0x71 0 = (Some \<lparr>scan_code = 0, unicode_char = 0x71\<rparr>, 0)" by (simp add: uart_byte_to_key_def)
  have sent: "fst (cw_hw (aw_console term_app)) = []" by (simp add: term_app_def demo_console_def)
  show ?thesis
    using test_app_without_card[OF term_app.ferro_app_axioms term_app_live w k, of 0] unfolding sent by auto
qed

end
