(* ===== verification/Spec2Isabelle.thy ===== *)
theory Spec2Isabelle
  imports Crc32 Timer Pm Events Memory Protocol_Db Variables Runtime_Services Settings Fat32_Properties
    Sd_Controller Persist Block_Io File_Properties Device_Path Pe_Properties Boot_Properties
    Mmu Cache Framebuffer Usb_Controller Hid Uart Service_Tables Console_Properties Mailbox Ui_Start Main_Properties Test_App
begin

text \<open>
  Ferro is a UEFI firmware for the Raspberry Pi 3 (BCM2837, AArch64), written in Rust without a heap. This
  development is a model of all of its Rust code, of its conformance test application, and of what they promise.

  \<^bold>\<open>The program.\<close> \<^verbatim>\<open>boot.s\<close> enters \<^verbatim>\<open>ferro_main\<close> (\<^verbatim>\<open>src/src/main.rs\<close>), which turns on the MMU, fills the EFI
  tables, starts the timer interrupt and the framebuffer, runs self tests and enters the boot menu (\<^verbatim>\<open>ui.rs\<close>).
  The menu mounts the SD card (\<^verbatim>\<open>sd.rs\<close>, \<^verbatim>\<open>fat32.rs\<close>), loads the variables kept in a file (\<^verbatim>\<open>persist.rs\<close>), and
  starts an EFI application: the PE loader (\<^verbatim>\<open>pe.rs\<close>) puts it in memory, and from then on it calls the firmware
  through the tables of \<^verbatim>\<open>src/src/efi/\<close>: boot services (memory, handles and protocols, events, images), runtime
  services (variables, reset), the console, block and file protocols. Below them are the drivers: serial line,
  mailbox, framebuffer, USB controller and keyboard, power management, caches.

  \<^bold>\<open>Conventions.\<close> \<open>Ferro_Prelude\<close> has the machine integers (words of their width, wrapping as in the release
  profile), results as sums (\<open>Err\<close> for Rust's error, \<open>Panic\<close>, \<open>OutOfFuel\<close>), the type \<open>('s, 'e, 'a) io\<close> of programs
  over a state \<open>'s\<close>, slices and little-endian encodings. A static or struct is a record, a \<^verbatim>\<open>match\<close> on a \<^verbatim>\<open>Result\<close> a
  case distinction; a pointer argument is an option of what it points at, an out parameter a result. An index that may
  be out of range is tested and panics. Hardware is a record of register operations (\<open>sd_host\<close>, \<open>usb_host\<close>) over an
  arbitrary state; code of a caller (an image, a notification function) is a parameter.

  \<^bold>\<open>Theories and sources\<close> (files under \<^verbatim>\<open>src/src/\<close> unless said otherwise).
  \<^item> Interfaces: \<open>Tables\<close> (slot tables, handle encodings, keyed stores), \<open>Block_Device\<close> (a device of 512-byte blocks, and
    the judgement \<open>runs\<close>), \<open>Ram\<close> (byte-addressed memory).
  \<^item> EFI layer: \<open>Efi_Types\<close> (\<^verbatim>\<open>efi/types.rs\<close>), \<open>Crc32\<close>, \<open>Memory\<close> (bump allocator and memory map), \<open>Protocol_Db\<close>,
    \<open>Variables\<close>, \<open>Events\<close>, \<open>Boot_Services\<close>, \<open>Runtime_Services\<close>, \<open>Service_Tables\<close> (the three tables as bytes; \<^verbatim>\<open>efi/mod.rs\<close>,
    \<^verbatim>\<open>efi/system_table.rs\<close>), \<open>Console\<close>, \<open>Block_Io\<close>, \<open>File_Protocol\<close>, \<open>Device_Path\<close>; each models the file of its name in \<^verbatim>\<open>efi/\<close>.
  \<^item> Storage: \<open>Fat32\<close> is the driver \<^verbatim>\<open>fat32.rs\<close>; \<open>Fat32_Chains\<close>, \<open>Fat32_Alloc\<close>, \<open>Fat32_Files\<close>, \<open>Fat32_Dirs\<close>, \<open>Fat32_Write\<close> are its
    proofs, from table entries to whole files; \<open>Persist\<close>, \<open>Settings\<close> and \<open>Sd\<close>, with the contract of the host controller in \<open>Sd_Controller\<close>.
  \<^item> Images: \<open>Pe\<close> and \<open>Pe_Properties\<close>.
  \<^item> Devices: \<open>Uart\<close>, \<open>Mailbox\<close>, \<open>Framebuffer\<close> (with \<^verbatim>\<open>font.rs\<close>), \<open>Usb\<close> and the contract \<open>Usb_Controller\<close>, \<open>Hid\<close>, \<open>Timer\<close>, \<open>Pm\<close>,
    \<open>Mmu\<close>, \<open>Cache\<close>, \<open>Exceptions\<close> (\<^verbatim>\<open>exceptions.rs\<close>, \<^verbatim>\<open>irq.rs\<close>, \<^verbatim>\<open>local_intc.rs\<close>).
  \<^item> Boot menu (\<^verbatim>\<open>ui.rs\<close>): \<open>Ui\<close> (state, text), \<open>Ui_Input\<close> (keys), \<open>Ui_Screens\<close>, \<open>Ui_Boot\<close> (actions and the loop); \<open>Ui_Properties\<close>
    and \<open>Ui_Start\<close> are their proofs. The state \<open>ui_world\<close> extends the boot services' state by the stores and statics
    of every component the menu calls, so its actions are compositions of their operations.
  \<^item> Entry point (\<^verbatim>\<open>main.rs\<close>): \<open>Main_Entry\<close>, \<open>Main_Properties\<close>. Test application (\<^verbatim>\<open>src/efi-test-app/src/main.rs\<close>): \<open>Test_App\<close>.

  \<^bold>\<open>Interfaces as locales.\<close> \<open>block_device\<close> is what FAT32 needs of a card; \<open>sd_controller\<close> is what the SD driver needs of
  its controller, and a sublocale declaration shows that the driver on it is a \<open>block_device\<close>. \<open>usb_controller\<close> is a
  controller over an arbitrary bus. \<open>serial_line\<close> is a line that sends and receives; \<open>ui_machine\<close> extends it by what the
  menu needs, \<open>ferro_app\<close> by what the console services need, and gives \<open>console_services\<close>, on which the test
  application's output rests. \<open>pixel_store\<close> is what drawing needs of pixels. \<open>slot_table\<close>, \<open>handle_codec\<close>, \<open>keyed_store\<close> and their
  extensions are interpreted on handles, events, open files and variables. The hardware contracts are interpreted on
  simulated devices, on which the witnesses run.

  \<^bold>\<open>What is shown.\<close> Storage: a written file reads back, on any volume in order, and every other file keeps its
  contents; allocation, resizing and release of cluster chains; a variable set as non-volatile survives a power
  cycle; the block driver stores what it is given. Services: the store refines a map and its serialisation is a
  round trip; allocations are disjoint, the memory map covers the address space without overlap, and a successful
  ExitBootServices implies that the loader's map is current; installed protocols are found; the file protocol refines a
  byte stream; one-shot timers fire once and waits return by their deadline; the tables carry valid checksums; after exit
  the services refuse. Images: relocation and section layout are exact, and an image is started in the state UEFI asks
  for. Devices: control transfers and keyboard reports refine their transaction-level meaning, the translation
  tables are the identity map, the console keeps its cursor on the grid and mirrors its text. User interface: the
  menu and the settings screen follow the keys typed, on either input. Start-up: the self test passes, and a
  fatal exception is reported in full. Test application: its struct layouts agree with the firmware's tables,
  its number printing fits its buffer, and it shows the file it opened. Lemmas named in the list of findings show
  behaviour that departs from a comment or from the UEFI specification.

  \<^bold>\<open>Fuel.\<close> A loop that only a device or the disk ends takes fuel: register polling (ended by the tick counter or a
  status bit), chains on the disk, keys awaited. The proofs give amounts that suffice: the number of clusters of
  the volume for a chain, the bound of the device contract for a poll, the number of lines of the range (plus three) for
  the cache loop, the number of bytes typed for the menu. Code that never returns (reset, halting after a report) ends in
  \<open>OutOfFuel\<close>, and a stated result is always a value, never a premise that the code returns.

  \<^bold>\<open>Not modelled.\<close> \<^verbatim>\<open>boot.s\<close> and \<^verbatim>\<open>vectors.s\<close> are assembly: they park the secondary cores, drop to EL1, set the stack
  and save registers around the calls modelled here. Barriers and the instructions that write system registers are
  either parameters or, in \<open>Mmu\<close>, the order of the writes. Interrupts act between steps, through the tick counter only.
  The runtime part of \<^verbatim>\<open>core::fmt\<close> is modelled for the formats in use.
\<close>

end
